(* ===== verification/Prelude.thy ===== *)
theory Prelude
  imports Main "HOL-Library.Word" "HOL-Library.List_Lexorder"
begin

text \<open>
  Shared vocabulary of the development: the types of bytes and of text, the error monad,
  generic facts about lists and the contract of a codec.

  Text is a list of Unicode code points, as Python's \<open>str\<close> counts them; bytes are 8-bit words.
\<close>

type_synonym byte = "8 word"
type_synonym bytes = "byte list"
type_synonym ustr = "nat list"

named_theorems err_simps \<open>evaluation of the error monad\<close>

text \<open>A source literal as text.\<close>

definition lit :: "string \<Rightarrow> ustr" where
  "lit s = map of_char s"

lemma of_char_nat_inj: "(of_char c :: nat) = of_char d \<longleftrightarrow> c = d"
  by simp

lemma lit_inject [simp]: "lit s = lit t \<longleftrightarrow> s = t"
  unfolding lit_def by (rule inj_map_eq_map) (simp add: inj_on_def)

lemma lit_Nil_iff [simp]: "lit s = [] \<longleftrightarrow> s = []" "[] = lit s \<longleftrightarrow> s = []"
  by (simp_all add: lit_def)

lemma length_lit [simp]: "length (lit s) = length s"
  by (simp add: lit_def)

subsection \<open>The error monad\<close>

definition bindE :: "'e + 'a \<Rightarrow> ('a \<Rightarrow> 'e + 'b) \<Rightarrow> 'e + 'b" where
  "bindE m f = (case m of Inl e \<Rightarrow> Inl e | Inr x \<Rightarrow> f x)"

lemma bindE_simps [simp, err_simps]:
  "bindE (Inl e) f = Inl e"
  "bindE (Inr x) f = f x"
  by (simp_all add: bindE_def)

lemma bindE_cong [fundef_cong]:
  assumes "m = m'" and "\<And>x. m' = Inr x \<Longrightarrow> f x = g x"
  shows "bindE m f = bindE m' g"
  using assms by (cases m') simp_all

lemma bindE_Inr_iff: "bindE m f = Inr y \<longleftrightarrow> (\<exists>x. m = Inr x \<and> f x = Inr y)"
  by (cases m) simp_all

lemma bindE_Inl_iff: "bindE m f = Inl e \<longleftrightarrow> m = Inl e \<or> (\<exists>x. m = Inr x \<and> f x = Inl e)"
  by (cases m) simp_all

lemma bindE_InrE:
  assumes "bindE m f = Inr y"
  obtains x where "m = Inr x" and "f x = Inr y"
  using assms by (auto simp: bindE_Inr_iff)

text \<open>A guard that raises, and a comprehension whose element expression may raise.\<close>

definition guardE :: "bool \<Rightarrow> 'e \<Rightarrow> 'e + unit" where
  "guardE b e = (if b then Inr () else Inl e)"

lemma guardE_simps [simp, err_simps]:
  "guardE True e = Inr ()"
  "guardE False e = Inl e"
  by (simp_all add: guardE_def)

lemma guardE_Inr_iff [simp]: "guardE b e = Inr u \<longleftrightarrow> b"
  by (simp add: guardE_def)

lemma guardE_Inl_iff [simp]: "guardE b e = Inl e' \<longleftrightarrow> \<not> b \<and> e' = e"
  by (auto simp: guardE_def)

primrec mapE :: "('a \<Rightarrow> 'e + 'b) \<Rightarrow> 'a list \<Rightarrow> 'e + 'b list" where
  "mapE f [] = Inr []"
| "mapE f (x # xs) = bindE (f x) (\<lambda>y. bindE (mapE f xs) (\<lambda>ys. Inr (y # ys)))"

lemma mapE_cong [fundef_cong]:
  assumes "xs = ys" and "\<And>x. x \<in> set ys \<Longrightarrow> f x = g x"
  shows "mapE f xs = mapE g ys"
proof -
  have "\<forall>x \<in> set ys. f x = g x \<Longrightarrow> mapE f ys = mapE g ys" for ys
    by (induction ys) (auto intro: bindE_cong)
  with assms show ?thesis by blast
qed

lemma mapE_Inr_length: "mapE f xs = Inr ys \<Longrightarrow> length ys = length xs"
  by (induction xs arbitrary: ys) (auto simp: bindE_Inr_iff)

lemma mapE_Inr_set: "mapE f xs = Inr ys \<Longrightarrow> y \<in> set ys \<Longrightarrow> \<exists>x \<in> set xs. f x = Inr y"
  by (induction xs arbitrary: ys) (auto simp: bindE_Inr_iff)

lemma mapE_Inr_all: "mapE f xs = Inr ys \<Longrightarrow> x \<in> set xs \<Longrightarrow> \<exists>y \<in> set ys. f x = Inr y"
  by (induction xs arbitrary: ys) (auto simp: bindE_Inr_iff)

lemma mapE_total: "(\<And>x. x \<in> set xs \<Longrightarrow> f x = Inr (g x)) \<Longrightarrow> mapE f xs = Inr (map g xs)"
  by (induction xs) simp_all

text \<open>A filter whose condition may raise.\<close>

primrec filterE :: "('a \<Rightarrow> 'e + bool) \<Rightarrow> 'a list \<Rightarrow> 'e + 'a list" where
  "filterE p [] = Inr []"
| "filterE p (x # xs) = bindE (p x) (\<lambda>b. bindE (filterE p xs) (\<lambda>ys. Inr (if b then x # ys else ys)))"

lemma filterE_Inr: "filterE p xs = Inr ys \<longleftrightarrow> (\<forall>x \<in> set xs. \<exists>b. p x = Inr b) \<and> ys = filter (\<lambda>x. p x = Inr True) xs"
proof (induction xs arbitrary: ys)
  case (Cons x xs)
  then show ?case by (cases "p x") (auto simp: bindE_Inr_iff)
qed auto

text \<open>A loop that carries a state and may raise.\<close>

primrec foldE :: "('s \<Rightarrow> 'a \<Rightarrow> 'e + 's) \<Rightarrow> 's \<Rightarrow> 'a list \<Rightarrow> 'e + 's" where
  "foldE f s [] = Inr s"
| "foldE f s (x # xs) = bindE (f s x) (\<lambda>s'. foldE f s' xs)"

text \<open>A loop invariant may speak of the elements already seen.\<close>

lemma foldE_invariant:
  assumes "foldE f s xs = Inr s'" and "P [] s"
    and "\<And>s x s' ys zs. P ys s \<Longrightarrow> xs = ys @ x # zs \<Longrightarrow> f s x = Inr s' \<Longrightarrow> P (ys @ [x]) s'"
  shows "P xs s'"
proof -
  have "\<exists>ys. xs = ys @ zs \<and> P ys t \<Longrightarrow> foldE f t zs = Inr s' \<Longrightarrow> P xs s'" for zs t
  proof (induction zs arbitrary: t)
    case (Cons x zs)
    then obtain ys t' where "xs = ys @ x # zs" "P ys t" "f t x = Inr t'" "foldE f t' zs = Inr s'"
      by (auto simp: bindE_Inr_iff)
    moreover from this have "P (ys @ [x]) t'" by (intro assms(3))
    ultimately show ?case by (intro Cons.IH [of t']) auto
  qed auto
  from this [of xs s] assms(1,2) show ?thesis by auto
qed

lemma foldE_raise:
  "foldE f s xs = Inl e \<Longrightarrow> \<exists>t x. x \<in> set xs \<and> f t x = Inl e"
  by (induction xs arbitrary: s) (auto simp: bindE_Inl_iff, blast+)

text \<open>\<open>try: m except e: h e\<close>.\<close>

definition catchE :: "'e + 'a \<Rightarrow> ('e \<Rightarrow> 'e + 'a) \<Rightarrow> 'e + 'a" where
  "catchE m h = (case m of Inl e \<Rightarrow> h e | Inr x \<Rightarrow> Inr x)"

lemma catchE_simps [simp, err_simps]:
  "catchE (Inl e) h = h e"
  "catchE (Inr x) h = Inr x"
  by (simp_all add: catchE_def)

lemma catchE_Inr_iff: "catchE m h = Inr y \<longleftrightarrow> m = Inr y \<or> (\<exists>e. m = Inl e \<and> h e = Inr y)"
  by (cases m) auto

lemma catchE_Inl_iff: "catchE m h = Inl x \<longleftrightarrow> (\<exists>e. m = Inl e \<and> h e = Inl x)"
  by (cases m) auto

subsection \<open>Lists\<close>

lemma find_append_list: "find P (xs @ ys) = (case find P xs of None \<Rightarrow> find P ys | Some x \<Rightarrow> Some x)"
  by (induction xs) simp_all

lemma take_drop_append [simp]: "length xs = n \<Longrightarrow> take n (drop n (xs @ ys)) = take n ys"
  by simp

lemma slice_append_right:
  "length pre = off \<Longrightarrow> take n (drop (off + k) (pre @ xs)) = take n (drop k xs)"
  by simp

lemma drop_append_exact: "length pre = off \<Longrightarrow> drop (off + k) (pre @ xs) = drop k xs"
  by simp

lemma sort_Nil_iff [simp]: "sort xs = [] \<longleftrightarrow> xs = []"
  by (metis length_0_conv length_sort)

lemma sum_list_nat_member: "(x :: nat) \<in> set xs \<Longrightarrow> x \<le> sum_list xs"
  by (simp add: member_le_sum_list)

subsection \<open>Codecs\<close>

text \<open>
  The contract of an encoder and its decoder: each undoes the other wherever it succeeds. It is
  interpreted for UTF-8 and for TTLV messages.
\<close>

locale codec =
  fixes enc :: "'a \<Rightarrow> 'b option" and dec :: "'b \<Rightarrow> 'a option"
  assumes dec_enc: "enc x = Some y \<Longrightarrow> dec y = Some x"
    and enc_dec: "dec y = Some x \<Longrightarrow> enc x = Some y"
begin

lemma dec_iff_enc: "dec y = Some x \<longleftrightarrow> enc x = Some y"
  by (blast intro: dec_enc enc_dec)

lemma enc_inj: "enc x = Some y \<Longrightarrow> enc x' = Some y \<Longrightarrow> x = x'"
  by (metis dec_enc option.inject)

lemma dec_inj: "dec y = Some x \<Longrightarrow> dec y' = Some x \<Longrightarrow> y = y'"
  by (metis enc_dec option.inject)

end

end
