(* ===== verification/Bytes.thy ===== *)
theory Bytes
  imports Prelude
begin

text \<open>
  The parts of the Python standard library that move between numbers, text and bytes:
  \<open>int.to_bytes\<close> and \<open>int.from_bytes\<close> (big endian), \<open>struct.pack\<close> and \<open>struct.unpack\<close> for the
  formats \<open>>i\<close> and \<open>>q\<close>, and the strict UTF-8 codec of \<open>str.encode\<close> and \<open>bytes.decode\<close>.
  Each codec has its two round-trip laws.
\<close>

subsection \<open>Big-endian numbers\<close>

definition byte_of :: "nat \<Rightarrow> byte" where
  "byte_of n = of_nat n"

fun to_be :: "nat \<Rightarrow> nat \<Rightarrow> bytes" where
  "to_be 0 v = []"
| "to_be (Suc k) v = to_be k (v div 256) @ [byte_of (v mod 256)]"

definition from_be :: "bytes \<Rightarrow> nat" where
  "from_be bs = foldl (\<lambda>a b. a * 256 + unat b) 0 bs"

lemma unat_byte_less [simp]: "unat (b :: byte) < 256"
  using unsigned_less [of b, where 'a = nat] by simp

lemma unat_byte_of: "unat (byte_of n) = n mod 256"
  by (simp add: byte_of_def unat_of_nat)

lemma unat_byte_of_small [simp]: "n < 256 \<Longrightarrow> unat (byte_of n) = n"
  by (simp add: unat_byte_of)

lemma byte_of_unat [simp]: "byte_of (unat b) = b"
  by (simp add: byte_of_def)

lemma length_to_be [simp]: "length (to_be k v) = k"
  by (induction k arbitrary: v) simp_all

lemma from_be_Nil [simp]: "from_be [] = 0"
  by (simp add: from_be_def)

lemma from_be_snoc [simp]: "from_be (bs @ [b]) = from_be bs * 256 + unat b"
  by (simp add: from_be_def)

lemma from_be_to_be: "from_be (to_be k v) = v mod 256 ^ k"
proof (induction k arbitrary: v)
  case 0
  then show ?case by simp
next
  case (Suc k)
  have "v mod 256 ^ Suc k = (v div 256) mod 256 ^ k * 256 + v mod 256"
    by (simp add: mod_mult2_eq mult.commute)
  with Suc show ?case by (simp add: unat_byte_of)
qed

lemma from_be_to_be_id [simp]: "v < 256 ^ k \<Longrightarrow> from_be (to_be k v) = v"
  by (simp add: from_be_to_be)

lemma from_be_bound: "from_be bs < 256 ^ length bs"
proof (induction bs rule: rev_induct)
  case Nil
  then show ?case by simp
next
  case (snoc b bs)
  have "from_be bs * 256 + unat b < (from_be bs + 1) * 256"
    using unat_byte_less [of b] by simp
  also have "\<dots> \<le> 256 ^ length bs * 256"
    using snoc by (intro mult_right_mono) auto
  finally show ?case by (simp add: mult.commute)
qed

lemma to_be_from_be: "length bs = k \<Longrightarrow> to_be k (from_be bs) = bs"
proof (induction bs arbitrary: k rule: rev_induct)
  case Nil
  then show ?case by simp
next
  case (snoc b bs)
  then obtain j where k: "k = Suc j" and j: "length bs = j"
    by auto
  have "(from_be bs * 256 + unat b) div 256 = from_be bs"
    using unat_byte_less [of b] by simp
  moreover have "(from_be bs * 256 + unat b) mod 256 = unat b"
    using unat_byte_less [of b] by simp
  ultimately show ?case using snoc.IH [OF j] k by simp
qed

subsection \<open>Two's complement integers of the struct module\<close>

definition signed_fits :: "nat \<Rightarrow> int \<Rightarrow> bool" where
  "signed_fits k v \<longleftrightarrow> - (2 ^ (8 * k - 1)) \<le> v \<and> v < 2 ^ (8 * k - 1)"

definition pack_signed :: "nat \<Rightarrow> int \<Rightarrow> bytes option" where
  "pack_signed k v = (if signed_fits k v then Some (to_be k (nat (v mod 256 ^ k))) else None)"

definition unpack_signed :: "bytes \<Rightarrow> int" where
  "unpack_signed bs =
     (let u = int (from_be bs); k = length bs
      in if 2 * u < 256 ^ k then u else u - 256 ^ k)"

lemma pow256: "(256 :: int) ^ k = 2 ^ (8 * k)"
  by (simp add: power_mult)

lemma signed_half: "0 < k \<Longrightarrow> (2 :: int) ^ (8 * k) = 2 * 2 ^ (8 * k - 1)"
  by (simp flip: power_Suc)

lemma length_pack_signed: "pack_signed k v = Some bs \<Longrightarrow> length bs = k"
  by (auto simp: pack_signed_def split: if_splits)

lemma unpack_pack_signed:
  assumes k: "0 < k" and p: "pack_signed k v = Some bs"
  shows "unpack_signed bs = v"
proof -
  let ?h = "2 ^ (8 * k - 1) :: int"
  have h: "(256 :: int) ^ k = 2 * ?h"
    using k by (simp add: pow256 signed_half)
  have hpos: "0 < ?h" by simp
  from p have v: "- ?h \<le> v" "v < ?h" and bs: "bs = to_be k (nat (v mod 256 ^ k))"
    by (auto simp: pack_signed_def signed_fits_def split: if_splits)
  have lt: "nat (v mod 256 ^ k) < 256 ^ k"
    by (simp add: nat_less_iff)
  have u: "int (from_be bs) = v mod 256 ^ k" and len: "length bs = k"
    using lt by (simp_all add: bs)
  show ?thesis
  proof (cases "0 \<le> v")
    case True
    with v h have "v mod 256 ^ k = v" by (intro mod_pos_pos_trivial) auto
    with True v h show ?thesis by (simp add: unpack_signed_def u len)
  next
    case False
    have "v mod 256 ^ k = v + 256 ^ k"
    proof -
      have "(v + 256 ^ k) mod 256 ^ k = v + 256 ^ k"
        using False v h by (intro mod_pos_pos_trivial) auto
      then show ?thesis by simp
    qed
    with False v h show ?thesis by (simp add: unpack_signed_def u len)
  qed
qed

lemma pack_unpack_signed:
  assumes len: "length bs = k" and k: "0 < k"
  shows "pack_signed k (unpack_signed bs) = Some bs"
proof -
  let ?h = "2 ^ (8 * k - 1) :: int" and ?u = "int (from_be bs)"
  have h: "(256 :: int) ^ k = 2 * ?h"
    using k by (simp add: pow256 signed_half)
  have "?u < int (256 ^ k)"
    using from_be_bound [of bs] len by (simp only: of_nat_less_iff)
  then have ub: "?u < 256 ^ k" by simp
  have un: "unpack_signed bs = (if 2 * ?u < 256 ^ k then ?u else ?u - 256 ^ k)"
    by (simp add: unpack_signed_def len Let_def)
  have fits: "signed_fits k (unpack_signed bs)"
    using ub unfolding un signed_fits_def h by auto
  have "?u mod 256 ^ k = ?u"
    using ub by (intro mod_pos_pos_trivial) auto
  then have "unpack_signed bs mod 256 ^ k = ?u"
    unfolding un by simp
  then have "nat (unpack_signed bs mod 256 ^ k) = from_be bs" by simp
  with fits show ?thesis
    by (simp add: pack_signed_def to_be_from_be [OF len])
qed

subsection \<open>Strict UTF-8\<close>

definition is_scalar :: "nat \<Rightarrow> bool" where
  "is_scalar c \<longleftrightarrow> c < 55296 \<or> 57344 \<le> c \<and> c < 1114112"

definition utf8_char :: "nat \<Rightarrow> bytes" where
  "utf8_char c =
     (if c < 128 then [byte_of c]
      else if c < 2048 then [byte_of (192 + c div 64), byte_of (128 + c mod 64)]
      else if c < 65536
      then [byte_of (224 + c div 4096), byte_of (128 + c div 64 mod 64), byte_of (128 + c mod 64)]
      else [byte_of (240 + c div 262144), byte_of (128 + c div 4096 mod 64),
            byte_of (128 + c div 64 mod 64), byte_of (128 + c mod 64)])"

text \<open>\<open>str.encode("utf-8")\<close>: a surrogate code point has no encoding (UnicodeEncodeError).\<close>

definition utf8_encode :: "ustr \<Rightarrow> bytes option" where
  "utf8_encode cs = (if list_all is_scalar cs then Some (concat (map utf8_char cs)) else None)"

definition is_cont :: "byte \<Rightarrow> bool" where
  "is_cont b \<longleftrightarrow> 128 \<le> unat b \<and> unat b < 192"

text \<open>\<open>bytes.decode("utf-8")\<close>: overlong forms, surrogates and values above \<open>0x10FFFF\<close> are errors.\<close>

fun utf8_decode :: "bytes \<Rightarrow> ustr option" where
  "utf8_decode [] = Some []"
| "utf8_decode (b # bs) =
     (if unat b < 128 then map_option (Cons (unat b)) (utf8_decode bs)
      else if 192 \<le> unat b \<and> unat b < 224
      then (case bs of
          c1 # cs \<Rightarrow>
            (let v = (unat b - 192) * 64 + (unat c1 - 128)
             in if is_cont c1 \<and> 128 \<le> v then map_option (Cons v) (utf8_decode cs) else None)
        | _ \<Rightarrow> None)
      else if 224 \<le> unat b \<and> unat b < 240
      then (case bs of
          c1 # c2 # cs \<Rightarrow>
            (let v = (unat b - 224) * 4096 + (unat c1 - 128) * 64 + (unat c2 - 128)
             in if is_cont c1 \<and> is_cont c2 \<and> 2048 \<le> v \<and> is_scalar v
                then map_option (Cons v) (utf8_decode cs) else None)
        | _ \<Rightarrow> None)
      else if 240 \<le> unat b \<and> unat b < 248
      then (case bs of
          c1 # c2 # c3 # cs \<Rightarrow>
            (let v = (unat b - 240) * 262144 + (unat c1 - 128) * 4096 + (unat c2 - 128) * 64
                       + (unat c3 - 128)
             in if is_cont c1 \<and> is_cont c2 \<and> is_cont c3 \<and> 65536 \<le> v \<and> is_scalar v
                then map_option (Cons v) (utf8_decode cs) else None)
        | _ \<Rightarrow> None)
      else None)"

lemma base64_digits:
  fixes c :: nat
  shows "c div 4096 * 4096 + c div 64 mod 64 * 64 + c mod 64 = c"
    and "c div 262144 * 262144 + c div 4096 mod 64 * 4096 + c div 64 mod 64 * 64 + c mod 64 = c"
proof -
  have a: "c div 64 * 64 + c mod 64 = c" by simp
  have b: "c div 4096 * 64 + c div 64 mod 64 = c div 64"
    using div_mult_mod_eq [of "c div 64" 64] by (simp add: div_mult2_eq [symmetric])
  have d: "c div 262144 * 64 + c div 4096 mod 64 = c div 4096"
    using div_mult_mod_eq [of "c div 4096" 64] by (simp add: div_mult2_eq [symmetric])
  from a b show "c div 4096 * 4096 + c div 64 mod 64 * 64 + c mod 64 = c" by linarith
  from a b d show "c div 262144 * 262144 + c div 4096 mod 64 * 4096 + c div 64 mod 64 * 64
      + c mod 64 = c" by linarith
qed

lemma utf8_decode_char:
  assumes c: "is_scalar c"
  shows "utf8_decode (utf8_char c @ bs) = map_option (Cons c) (utf8_decode bs)"
proof -
  have b: "c < 1114112" using c by (auto simp: is_scalar_def)
  have m: "c mod 64 < 64" "c div 64 mod 64 < 64" "c div 4096 mod 64 < 64" by simp_all
  consider (one) "c < 128" | (two) "128 \<le> c" "c < 2048" | (three) "2048 \<le> c" "c < 65536"
    | (four) "65536 \<le> c"
    by linarith
  then show ?thesis
  proof cases
    case one
    then show ?thesis by (simp add: utf8_char_def)
  next
    case two
    then have d: "c div 64 < 32" "c div 64 * 64 + c mod 64 = c" "2 \<le> c div 64" by auto
    have "utf8_char c = [byte_of (192 + c div 64), byte_of (128 + c mod 64)]"
      using two unfolding utf8_char_def by (simp only: if_False if_True not_less [symmetric])
    with d m two(1) show ?thesis by (simp add: is_cont_def Let_def)
  next
    case three
    then have d: "c div 4096 < 16" by auto
    have "utf8_char c = [byte_of (224 + c div 4096), byte_of (128 + c div 64 mod 64),
        byte_of (128 + c mod 64)]"
      using three unfolding utf8_char_def by (auto simp only: if_False if_True split: if_split)
    with d m c three(1) base64_digits(1) [of c] show ?thesis by (simp add: is_cont_def Let_def)
  next
    case four
    with b have d: "c div 262144 < 5" by auto
    have "utf8_char c = [byte_of (240 + c div 262144), byte_of (128 + c div 4096 mod 64),
        byte_of (128 + c div 64 mod 64), byte_of (128 + c mod 64)]"
      using four unfolding utf8_char_def by (auto simp only: if_False if_True split: if_split)
    with d m c four base64_digits(2) [of c] show ?thesis by (simp add: is_cont_def Let_def)
  qed
qed

lemma utf8_decode_encode: "utf8_encode cs = Some bs \<Longrightarrow> utf8_decode bs = Some cs"
proof (induction cs arbitrary: bs)
  case Nil
  then show ?case by (simp add: utf8_encode_def)
next
  case (Cons c cs)
  then have "is_scalar c" and "utf8_encode cs = Some (concat (map utf8_char cs))"
    and "bs = utf8_char c @ concat (map utf8_char cs)"
    by (auto simp: utf8_encode_def split: if_splits)
  with Cons.IH show ?case by (simp add: utf8_decode_char)
qed

lemma utf8_encode_Cons:
  "is_scalar c \<Longrightarrow> utf8_encode cs = Some bs \<Longrightarrow> utf8_encode (c # cs) = Some (utf8_char c @ bs)"
  by (auto simp: utf8_encode_def split: if_splits)

lemma byte_lead: "k \<le> unat b \<Longrightarrow> byte_of (k + (unat b - k)) = b"
  by simp

lemma cont_payload: "is_cont b \<Longrightarrow> unat b - 128 < 64" "is_cont b \<Longrightarrow> 128 \<le> unat b"
  by (auto simp: is_cont_def)

lemma base64_digit:
  "(y :: nat) < 64 \<Longrightarrow> (x * 64 + y) div 64 = x" "(y :: nat) < 64 \<Longrightarrow> (x * 64 + y) mod 64 = y"
  by simp_all

lemma utf8_char_two:
  assumes "192 \<le> unat b" "unat b < 224" "is_cont c1"
    and v: "v = (unat b - 192) * 64 + (unat c1 - 128)" and lo: "128 \<le> v"
  shows "utf8_char v = [b, c1]" and "is_scalar v"
proof -
  have "v div 64 = unat b - 192" "v mod 64 = unat c1 - 128"
    unfolding v using cont_payload [OF assms(3)] by (simp_all only: base64_digit)
  moreover have "v < 2048"
    unfolding v using cont_payload [OF assms(3)] assms(1,2) by simp
  ultimately show "utf8_char v = [b, c1]" and "is_scalar v"
    using assms(1) lo cont_payload [OF assms(3)] by (simp_all add: utf8_char_def is_scalar_def)
qed

lemma utf8_char_three:
  assumes "224 \<le> unat b" "unat b < 240" "is_cont c1" "is_cont c2"
    and v: "v = (unat b - 224) * 4096 + (unat c1 - 128) * 64 + (unat c2 - 128)" and lo: "2048 \<le> v"
  shows "utf8_char v = [b, c1, c2]"
proof -
  note c = cont_payload [OF assms(3)] cont_payload [OF assms(4)]
  have v': "v = ((unat b - 224) * 64 + (unat c1 - 128)) * 64 + (unat c2 - 128)"
    unfolding v by simp
  have d: "v div 64 = (unat b - 224) * 64 + (unat c1 - 128)" "v mod 64 = unat c2 - 128"
    unfolding v' using c by (simp_all only: base64_digit)
  have "v div 4096 = v div 64 div 64" by (simp add: div_mult2_eq [symmetric])
  then have "v div 4096 = unat b - 224" "v div 64 mod 64 = unat c1 - 128"
    using c by (simp_all only: d base64_digit)
  moreover have "v < 65536"
    unfolding v using c assms(1,2) by simp
  ultimately show ?thesis
    using assms(1) lo c d by (simp add: utf8_char_def)
qed

lemma utf8_char_four:
  assumes "240 \<le> unat b" "unat b < 248" "is_cont c1" "is_cont c2" "is_cont c3"
    and v: "v = (unat b - 240) * 262144 + (unat c1 - 128) * 4096 + (unat c2 - 128) * 64
              + (unat c3 - 128)"
    and lo: "65536 \<le> v"
  shows "utf8_char v = [b, c1, c2, c3]"
proof -
  note c = cont_payload [OF assms(3)] cont_payload [OF assms(4)] cont_payload [OF assms(5)]
  let ?w = "(unat b - 240) * 64 + (unat c1 - 128)"
  have v': "v = (?w * 64 + (unat c2 - 128)) * 64 + (unat c3 - 128)"
    unfolding v by simp
  have d: "v div 64 = ?w * 64 + (unat c2 - 128)" "v mod 64 = unat c3 - 128"
    unfolding v' using c by (simp_all only: base64_digit)
  have "v div 4096 = v div 64 div 64" by (simp add: div_mult2_eq [symmetric])
  then have e: "v div 4096 = ?w" "v div 64 mod 64 = unat c2 - 128"
    using c by (simp_all only: d base64_digit)
  have "v div 262144 = v div 4096 div 64" by (simp add: div_mult2_eq [symmetric])
  then have "v div 262144 = unat b - 240" "v div 4096 mod 64 = unat c1 - 128"
    using c by (simp_all only: e base64_digit)
  with e d show ?thesis
    using assms(1) lo c by (simp add: utf8_char_def)
qed

lemma utf8_encode_decode: "utf8_decode bs = Some cs \<Longrightarrow> utf8_encode cs = Some bs"
proof (induction bs arbitrary: cs rule: utf8_decode.induct)
  case 1
  then show ?case by (simp add: utf8_encode_def)
next
  case (2 b bs)
  consider (one) "unat b < 128" | (two) "192 \<le> unat b" "unat b < 224"
    | (three) "224 \<le> unat b" "unat b < 240" | (four) "240 \<le> unat b" "unat b < 248"
    using "2.prems" by (auto split: if_splits)
  then show ?case
  proof cases
    case one
    with "2.prems" obtain ds where ds: "utf8_decode bs = Some ds" "cs = unat b # ds" by auto
    with "2.IH"(1) one have "utf8_encode ds = Some bs" by simp
    with one ds show ?thesis
      using utf8_encode_Cons [of "unat b" ds bs] by (simp add: utf8_char_def is_scalar_def)
  next
    case two
    with "2.prems" obtain c1 rest ds v where
      r: "bs = c1 # rest" "is_cont c1" "v = (unat b - 192) * 64 + (unat c1 - 128)" "128 \<le> v"
        "utf8_decode rest = Some ds" "cs = v # ds"
      by (auto simp: Let_def split: list.splits if_splits)
    have "utf8_encode ds = Some rest"
      using "2.IH"(2) two r by simp
    then have "utf8_encode (v # ds) = Some (utf8_char v @ rest)"
      by (rule utf8_encode_Cons [OF utf8_char_two(2) [OF two r(2,3,4)]])
    then show ?thesis
      unfolding r(1) \<open>cs = v # ds\<close> utf8_char_two(1) [OF two r(2,3,4)] by simp
  next
    case three
    with "2.prems" obtain c1 c2 rest ds v where
      r: "bs = c1 # c2 # rest" "is_cont c1" "is_cont c2"
        "v = (unat b - 224) * 4096 + (unat c1 - 128) * 64 + (unat c2 - 128)" "2048 \<le> v"
        "is_scalar v" "utf8_decode rest = Some ds" "cs = v # ds"
      by (auto simp: Let_def split: list.splits if_splits)
    have "utf8_encode ds = Some rest"
      using "2.IH"(3) three r by simp
    then have "utf8_encode (v # ds) = Some (utf8_char v @ rest)"
      by (rule utf8_encode_Cons [OF \<open>is_scalar v\<close>])
    then show ?thesis
      unfolding r(1) \<open>cs = v # ds\<close> utf8_char_three [OF three r(2,3,4,5)] by simp
  next
    case four
    with "2.prems" obtain c1 c2 c3 rest ds v where
      r: "bs = c1 # c2 # c3 # rest" "is_cont c1" "is_cont c2" "is_cont c3"
        "v = (unat b - 240) * 262144 + (unat c1 - 128) * 4096 + (unat c2 - 128) * 64
              + (unat c3 - 128)" "65536 \<le> v"
        "is_scalar v" "utf8_decode rest = Some ds" "cs = v # ds"
      by (auto simp: Let_def split: list.splits if_splits)
    have "utf8_encode ds = Some rest"
      using "2.IH"(4) four r by simp
    then have "utf8_encode (v # ds) = Some (utf8_char v @ rest)"
      by (rule utf8_encode_Cons [OF \<open>is_scalar v\<close>])
    then show ?thesis
      unfolding r(1) \<open>cs = v # ds\<close> utf8_char_four [OF four r(2,3,4,5,6)] by simp
  qed
qed

lemma utf8_decode_scalar: "utf8_decode bs = Some cs \<Longrightarrow> list_all is_scalar cs"
  using utf8_encode_decode [of bs cs] by (auto simp: utf8_encode_def split: if_splits)

interpretation utf8: codec utf8_encode utf8_decode
  by unfold_locales (rule utf8_decode_encode utf8_encode_decode, assumption)+

end
