(* ===== verification/Errors.thy ===== *)
theory Errors
  imports Prelude
begin

text \<open>
  The exceptions the KMIP modules raise, as values. One constructor per exception class, with the
  message of the raise statement where the class carries one and it tells the raises apart (the
  recovery code raises one class throughout and nothing reads its text); the class hierarchy,
  which decides what an \<open>except\<close> clause catches, is given by the predicates below.
\<close>

datatype result_reason =
    ITEM_NOT_FOUND
  | INVALID_MESSAGE
  | OPERATION_NOT_SUPPORTED
  | MISSING_DATA
  | INVALID_FIELD
  | KEY_FORMAT_TYPE_NOT_SUPPORTED
  | GENERAL_FAILURE

fun reason_code :: "result_reason \<Rightarrow> int" where
  "reason_code ITEM_NOT_FOUND = 1"
| "reason_code INVALID_MESSAGE = 4"
| "reason_code OPERATION_NOT_SUPPORTED = 5"
| "reason_code MISSING_DATA = 6"
| "reason_code INVALID_FIELD = 7"
| "reason_code KEY_FORMAT_TYPE_NOT_SUPPORTED = 16"
| "reason_code GENERAL_FAILURE = 256"

text \<open>
  \<open>PowerLoss\<close> is not a Python class: it stands for the process ending between two effects, which
  no \<open>except Exception\<close> clause sees.
\<close>

datatype exn =
    TtlvError string
  | ProtocolFailure result_reason string
  | KeyStoreError string
  | KeyNotFoundError string
  | KeyStateError string
  | ConfigurationError ustr
  | TraceValidationError ustr
  | RecoveryError
  | LegacyStoreError
  | JSONDecodeError ustr
  | ValueError string
  | UnicodeEncodeError
  | StructError
  | OverflowError
  | AssertionError
  | TypeError
  | KeyError
  | IndexError
  | AttributeError
  | RecursionError
  | InvalidTag
  | InvalidVersion
  | IntegrityError
  | OperationalError
  | OSError
  | PowerLoss

fun is_ttlv_error :: "exn \<Rightarrow> bool" where
  "is_ttlv_error (TtlvError m) = True"
| "is_ttlv_error _ = False"

fun is_key_store_error :: "exn \<Rightarrow> bool" where
  "is_key_store_error (KeyStoreError m) = True"
| "is_key_store_error (KeyNotFoundError m) = True"
| "is_key_store_error (KeyStateError m) = True"
| "is_key_store_error _ = False"

text \<open>Every subclass of \<open>ValueError\<close> among the exceptions above.\<close>

fun is_value_error :: "exn \<Rightarrow> bool" where
  "is_value_error (TtlvError m) = True"
| "is_value_error (ConfigurationError m) = True"
| "is_value_error (TraceValidationError m) = True"
| "is_value_error RecoveryError = True"
| "is_value_error LegacyStoreError = True"
| "is_value_error (JSONDecodeError m) = True"
| "is_value_error (ValueError m) = True"
| "is_value_error UnicodeEncodeError = True"
| "is_value_error _ = False"

fun is_protocol_failure :: "exn \<Rightarrow> bool" where
  "is_protocol_failure (ProtocolFailure r m) = True"
| "is_protocol_failure _ = False"

text \<open>What \<open>except Exception\<close> catches.\<close>

fun is_exception :: "exn \<Rightarrow> bool" where
  "is_exception PowerLoss = False"
| "is_exception _ = True"

type_synonym 'a res = "exn + 'a"

text \<open>A raise in the \<open>option\<close>-valued library functions becomes the exception the caller sees.\<close>

definition or_raise :: "exn \<Rightarrow> 'a option \<Rightarrow> 'a res" where
  "or_raise e x = (case x of None \<Rightarrow> Inl e | Some y \<Rightarrow> Inr y)"

lemma or_raise_simps [simp, err_simps]:
  "or_raise e None = Inl e"
  "or_raise e (Some y) = Inr y"
  by (simp_all add: or_raise_def)

lemma or_raise_Inr_iff [simp]: "or_raise e x = Inr y \<longleftrightarrow> x = Some y"
  by (cases x) simp_all

lemma or_raise_Inl_iff [simp]: "or_raise e x = Inl e' \<longleftrightarrow> x = None \<and> e' = e"
  by (cases x) auto

text \<open>The digits of a number in base \<open>b\<close>, and hexadecimal rendering, as \<open>format(n, "x")\<close> and the \<open>#08x\<close> of the error messages.\<close>

fun digs :: "nat \<Rightarrow> nat \<Rightarrow> nat list" where
  "digs b n = (if n < b \<or> b < 2 then [n] else digs b (n div b) @ [n mod b])"

declare digs.simps [simp del]

definition hex_code :: "nat \<Rightarrow> nat" where
  "hex_code d = (if d < 10 then 48 + d else 87 + d)"

definition hex08 :: "int \<Rightarrow> string" where
  "hex08 v =
     (let sign = (if v < 0 then ''-'' else '''');
          digits = map (char_of \<circ> hex_code) (digs 16 (nat \<bar>v\<bar>))
      in sign @ ''0x'' @ replicate (8 - length sign - 2 - length digits) CHR ''0'' @ digits)"

end
