(* ===== verification/Text.thy ===== *)
theory Text
  imports Bytes Errors
begin

text \<open>
  The text functions of the Python standard library the KMIP modules rely on: positional numerals
  (\<open>format\<close> and \<open>int(text, base)\<close>), \<open>str.replace\<close>, \<open>str.strip\<close>, \<open>uuid.UUID\<close> with its canonical
  rendering, \<open>bytes.hex\<close> and base64.
\<close>

subsection \<open>Positional numerals\<close>

definition of_digs :: "nat \<Rightarrow> nat list \<Rightarrow> nat" where
  "of_digs b ds = foldl (\<lambda>a d. a * b + d) 0 ds"

lemma of_digs_snoc [simp]: "of_digs b (ds @ [d]) = of_digs b ds * b + d"
  by (simp add: of_digs_def)

lemma of_digs_Nil [simp]: "of_digs b [] = 0"
  by (simp add: of_digs_def)

lemma of_digs_zeros: "of_digs b (replicate k 0 @ ds) = of_digs b ds"
proof -
  have "foldl (\<lambda>a d. a * b + d) 0 (replicate k 0) = 0"
    by (induction k) simp_all
  then show ?thesis by (simp add: of_digs_def)
qed

lemma of_digs_digs: "of_digs b (digs b n) = n"
proof (induction b n rule: digs.induct)
  case (1 b n)
  then show ?case by (subst digs.simps) (simp add: of_digs_def)
qed

lemma digs_not_Nil [simp]: "digs b n \<noteq> []"
  by (subst digs.simps) simp

lemma digs_less: "2 \<le> b \<Longrightarrow> d \<in> set (digs b n) \<Longrightarrow> d < b"
  by (induction b n rule: digs.induct) (subst (asm) (2) digs.simps, auto split: if_splits)

lemma length_digs_le: "2 \<le> b \<Longrightarrow> n < b ^ k \<Longrightarrow> 0 < k \<Longrightarrow> length (digs b n) \<le> k"
proof (induction b n arbitrary: k rule: digs.induct)
  case (1 b n)
  show ?case
  proof (cases "n < b")
    case True
    with 1 show ?thesis by (subst digs.simps) simp
  next
    case False
    with 1 obtain j where k: "k = Suc j" and "0 < j"
      by (cases k; cases "k - 1") auto
    moreover from 1 k have "n div b < b ^ j"
      by (simp add: less_mult_imp_div_less mult.commute)
    ultimately have "length (digs b (n div b)) \<le> j"
      using 1 False by simp
    then show ?thesis using False 1 k by (subst digs.simps) simp
  qed
qed

definition pad_digs :: "nat \<Rightarrow> nat list \<Rightarrow> nat list" where
  "pad_digs k ds = replicate (k - length ds) 0 @ ds"

lemma length_pad_digs [simp]: "length ds \<le> k \<Longrightarrow> length (pad_digs k ds) = k"
  by (simp add: pad_digs_def)

lemma of_digs_pad [simp]: "of_digs b (pad_digs k ds) = of_digs b ds"
  by (simp add: pad_digs_def of_digs_zeros)

text \<open>The value of a hexadecimal digit character, upper or lower case.\<close>

definition hex_value :: "nat \<Rightarrow> nat option" where
  "hex_value c =
     (if 48 \<le> c \<and> c \<le> 57 then Some (c - 48)
      else if 97 \<le> c \<and> c \<le> 102 then Some (c - 87)
      else if 65 \<le> c \<and> c \<le> 70 then Some (c - 55) else None)"

lemma hex_value_code [simp]: "d < 16 \<Longrightarrow> hex_value (hex_code d) = Some d"
  by (auto simp: hex_value_def hex_code_def)

lemma hex_code_range: "d < 16 \<Longrightarrow> hex_code d \<in> {48..57} \<union> {97..102}"
  by (auto simp: hex_code_def)

text \<open>\<open>bytes.hex\<close>, as \<open>hexdigest\<close> renders a digest.\<close>

definition hex_of_bytes :: "bytes \<Rightarrow> ustr" where
  "hex_of_bytes bs = concat (map (\<lambda>b. map hex_code [unat b div 16, unat b mod 16]) bs)"

subsection \<open>Replacing and stripping\<close>

function replace_all :: "ustr \<Rightarrow> ustr \<Rightarrow> ustr \<Rightarrow> ustr" where
  "replace_all old new s =
     (if old = [] \<or> s = [] then s
      else if take (length old) s = old then new @ replace_all old new (drop (length old) s)
      else hd s # replace_all old new (tl s))"
  by pat_completeness auto
termination
  by (relation "measure (\<lambda>(old, new, s). length s)") (auto simp: neq_Nil_conv)

declare replace_all.simps [simp del]

lemma replace_all_absent:
  "c \<in> set old \<Longrightarrow> c \<notin> set s \<Longrightarrow> replace_all old new s = s"
proof (induction old new s rule: replace_all.induct)
  case (1 old new s)
  show ?case
  proof (cases "s = []")
    case True
    then show ?thesis by (simp add: replace_all.simps)
  next
    case False
    then obtain x xs where s: "s = x # xs" by (cases s) auto
    from 1 have "take (length old) s \<noteq> old"
      by (metis in_set_takeD)
    with 1 s show ?thesis by (subst replace_all.simps) auto
  qed
qed

lemma replace_all_filter: "replace_all [c] [] s = filter (\<lambda>x. x \<noteq> c) s"
proof (induction s)
  case Nil
  then show ?case by (simp add: replace_all.simps)
next
  case (Cons x s)
  then show ?case by (subst replace_all.simps) simp
qed

definition strip_chars :: "nat set \<Rightarrow> ustr \<Rightarrow> ustr" where
  "strip_chars cs s = rev (dropWhile (\<lambda>c. c \<in> cs) (rev (dropWhile (\<lambda>c. c \<in> cs) s)))"

lemma strip_chars_absent: "set s \<inter> cs = {} \<Longrightarrow> strip_chars cs s = s"
proof -
  assume "set s \<inter> cs = {}"
  then have "dropWhile (\<lambda>c. c \<in> cs) xs = xs" if "set xs = set s" for xs
    using that by (cases xs) auto
  then show ?thesis by (simp add: strip_chars_def)
qed

subsection \<open>\<open>int(text, 16)\<close>\<close>

text \<open>
  Which code points outside ASCII are white space or decimal digits is Unicode data: \<open>uni\<close> maps
  such a code point to the ASCII character it counts as (a space, a digit, or \<open>?\<close>).
\<close>

definition ascii_space :: "nat \<Rightarrow> bool" where
  "ascii_space c \<longleftrightarrow> c = 32 \<or> 9 \<le> c \<and> c \<le> 13"

definition to_ascii :: "(nat \<Rightarrow> nat) \<Rightarrow> ustr \<Rightarrow> ustr" where
  "to_ascii uni s = (if list_all (\<lambda>c. c < 128) s then s else map (\<lambda>c. if c < 127 then c else uni c) s)"

text \<open>Digits with single underscores between them; \<open>prev\<close> says an underscore was just read.\<close>

fun hex_run :: "bool \<Rightarrow> nat list \<Rightarrow> ustr \<Rightarrow> (nat list \<times> ustr) option" where
  "hex_run prev acc [] = (if prev then None else Some (rev acc, []))"
| "hex_run prev acc (c # cs) =
     (case hex_value c of
        Some d \<Rightarrow> hex_run False (d # acc) cs
      | None \<Rightarrow>
          if c = 95 then (if prev then None else hex_run True acc cs)
          else if prev then None else Some (rev acc, c # cs))"

definition skip_prefix16 :: "ustr \<Rightarrow> ustr" where
  "skip_prefix16 s =
     (case s of
        a # b # r \<Rightarrow>
          if a = 48 \<and> (b = 120 \<or> b = 88)
          then (case r of c # r' \<Rightarrow> if c = 95 then r' else r | [] \<Rightarrow> r)
          else s
      | _ \<Rightarrow> s)"

definition int16 :: "(nat \<Rightarrow> nat) \<Rightarrow> ustr \<Rightarrow> int option" where
  "int16 uni text =
     (let s = dropWhile ascii_space (to_ascii uni text);
          neg = (s \<noteq> [] \<and> hd s = 45);
          s1 = (if s \<noteq> [] \<and> (hd s = 45 \<or> hd s = 43) then tl s else s);
          s2 = skip_prefix16 s1
      in if s2 \<noteq> [] \<and> hd s2 = 95 then None
         else case hex_run False [] s2 of
             None \<Rightarrow> None
           | Some (ds, rest) \<Rightarrow>
               if ds = [] \<or> \<not> list_all ascii_space rest then None
               else Some (if neg then - int (of_digs 16 ds) else int (of_digs 16 ds)))"

lemma hex_run_codes:
  "\<forall>d \<in> set ds. d < 16 \<Longrightarrow> hex_run False acc (map hex_code ds) = Some (rev acc @ ds, [])"
  by (induction ds arbitrary: acc) simp_all

lemma int16_hex:
  assumes ds: "\<forall>d \<in> set ds. d < 16" and ne: "ds \<noteq> []"
  shows "int16 uni (map hex_code ds) = Some (int (of_digs 16 ds))"
proof -
  have r: "hex_code d \<in> {48..57} \<union> {97..102}" if "d \<in> set ds" for d
    using that ds hex_code_range by blast
  obtain x xs where dx: "ds = x # xs" using ne by (cases ds) auto
  have asc: "to_ascii uni (map hex_code ds) = map hex_code ds"
    using r by (force simp: to_ascii_def list_all_iff)
  have hd: "hex_code x \<in> {48..57} \<union> {97..102}" using r dx by simp
  then have sp: "dropWhile ascii_space (map hex_code ds) = map hex_code ds"
    by (auto simp: dx ascii_space_def)
  have pre: "skip_prefix16 (map hex_code ds) = map hex_code ds"
  proof (cases xs)
    case Nil
    then show ?thesis by (simp add: dx skip_prefix16_def)
  next
    case (Cons y ys)
    then have "hex_code y \<in> {48..57} \<union> {97..102}" using r dx by simp
    then show ?thesis by (auto simp: dx Cons skip_prefix16_def)
  qed
  have ne95: "hex_code x \<noteq> 95" "hex_code x \<noteq> 45" "hex_code x \<noteq> 43" using hd by auto
  show ?thesis
    using hex_run_codes [OF ds, of "[]"] asc sp pre ne95 ne
    by (simp add: int16_def Let_def dx)
qed

subsection \<open>\<open>uuid.UUID\<close>\<close>

definition dashed :: "ustr \<Rightarrow> ustr" where
  "dashed h = take 8 h @ [45] @ take 4 (drop 8 h) @ [45] @ take 4 (drop 12 h) @ [45]
     @ take 4 (drop 16 h) @ [45] @ drop 20 h"

definition uuid_of_int :: "nat \<Rightarrow> ustr" where
  "uuid_of_int v = dashed (map hex_code (pad_digs 32 (digs 16 v)))"

text \<open>\<open>str(uuid.UUID(text))\<close>; None is the ValueError of a text that is no UUID.\<close>

definition uuid_canon :: "(nat \<Rightarrow> nat) \<Rightarrow> ustr \<Rightarrow> ustr option" where
  "uuid_canon uni text =
     (let h = replace_all (lit ''-'') []
                (strip_chars {123, 125}
                  (replace_all (lit ''uuid:'') [] (replace_all (lit ''urn:'') [] text)))
      in if length h \<noteq> 32 then None
         else case int16 uni h of
             None \<Rightarrow> None
           | Some v \<Rightarrow> if 0 \<le> v \<and> v < 2 ^ 128 then Some (uuid_of_int (nat v)) else None)"

lemma dashed_chars:
  assumes "45 \<notin> set h"
  shows "filter (\<lambda>x. x \<noteq> 45) (dashed h) = h" and "set (dashed h) = insert 45 (set h)"
proof -
  have split: "take 8 h @ take 4 (drop 8 h) @ take 4 (drop 12 h) @ take 4 (drop 16 h) @ drop 20 h = h"
  proof -
    have "take 4 (drop 16 h) @ drop 20 h = drop 16 h"
      using append_take_drop_id [of 4 "drop 16 h"] by simp
    moreover have "take 4 (drop 12 h) @ drop 16 h = drop 12 h"
      using append_take_drop_id [of 4 "drop 12 h"] by simp
    moreover have "take 4 (drop 8 h) @ drop 12 h = drop 8 h"
      using append_take_drop_id [of 4 "drop 8 h"] by simp
    ultimately show ?thesis by simp
  qed
  have id: "filter (\<lambda>x. x \<noteq> 45) xs = xs" if "set xs \<subseteq> set h" for xs
    using that assms by (auto intro!: filter_True)
  have "filter (\<lambda>x. x \<noteq> 45) (take n (drop k h)) = take n (drop k h)"
    "filter (\<lambda>x. x \<noteq> 45) (take n h) = take n h" "filter (\<lambda>x. x \<noteq> 45) (drop k h) = drop k h" for n k
    by (rule id, auto dest!: in_set_takeD in_set_dropD)+
  then have "filter (\<lambda>x. x \<noteq> 45) (dashed h)
      = take 8 h @ take 4 (drop 8 h) @ take 4 (drop 12 h) @ take 4 (drop 16 h) @ drop 20 h"
    by (simp add: dashed_def)
  then show "filter (\<lambda>x. x \<noteq> 45) (dashed h) = h" using split by simp
  have "set (dashed h) = insert 45 (set (take 8 h @ take 4 (drop 8 h) @ take 4 (drop 12 h)
      @ take 4 (drop 16 h) @ drop 20 h))"
    by (auto simp: dashed_def)
  then show "set (dashed h) = insert 45 (set h)" using split by simp
qed

lemma uuid_digits:
  assumes "v < 16 ^ 32"
  shows "length (pad_digs 32 (digs 16 v)) = 32" and "\<forall>d \<in> set (pad_digs 32 (digs 16 v)). d < 16"
    and "set (map hex_code (pad_digs 32 (digs 16 v))) \<subseteq> {48..57} \<union> {97..102}"
proof -
  show len: "length (pad_digs 32 (digs 16 v)) = 32"
    using length_digs_le [of 16 v 32] assms by simp
  show small: "\<forall>d \<in> set (pad_digs 32 (digs 16 v)). d < 16"
    using digs_less [of 16 _ v] by (auto simp: pad_digs_def)
  show "set (map hex_code (pad_digs 32 (digs 16 v))) \<subseteq> {48..57} \<union> {97..102}"
    using small hex_code_range by (force simp del: Un_iff atLeastAtMost_iff)
qed

lemma uuid_canon_of_int:
  assumes "v < 2 ^ 128"
  shows "uuid_canon uni (uuid_of_int v) = Some (uuid_of_int v)"
proof -
  let ?ds = "pad_digs 32 (digs 16 v)"
  have v: "v < 16 ^ 32" using assms by simp
  note d = uuid_digits [OF v]
  have n45: "45 \<notin> set (map hex_code ?ds)" using d(3) by auto
  have chars: "set (uuid_of_int v) \<subseteq> {48..57} \<union> {97..102} \<union> {45}"
    using d(3) dashed_chars(2) [OF n45] by (auto simp: uuid_of_int_def simp del: set_map)
  have c: "58 \<notin> set (uuid_of_int v)" "set (uuid_of_int v) \<inter> {123, 125} = {}" using chars by auto
  have "58 \<in> set (lit ''urn:'')" "58 \<in> set (lit ''uuid:'')" by (simp_all add: lit_def)
  then have "replace_all (lit ''uuid:'') [] (replace_all (lit ''urn:'') [] (uuid_of_int v)) = uuid_of_int v"
    using c(1) by (simp add: replace_all_absent)
  moreover have "replace_all (lit ''-'') [] (uuid_of_int v) = map hex_code ?ds"
    using dashed_chars(1) [OF n45] by (simp add: lit_def replace_all_filter uuid_of_int_def)
  moreover have "?ds \<noteq> []" using d(1) by auto
  moreover have "of_digs 16 ?ds = v" by (simp add: of_digs_digs)
  ultimately show ?thesis
    using c(2) d(1) assms int16_hex [OF d(2), of uni]
    by (simp add: uuid_canon_def strip_chars_absent)
qed

text \<open>A canonical UUID is its own canonical form.\<close>

lemma uuid_canon_nonempty: "uuid_canon u s = Some c \<Longrightarrow> s \<noteq> []"
  by (auto simp: uuid_canon_def Let_def replace_all.simps strip_chars_def lit_def)

lemma uuid_canon_idem: "uuid_canon uni s = Some c \<Longrightarrow> uuid_canon uni c = Some c"
proof -
  assume "uuid_canon uni s = Some c"
  then obtain v :: int where v: "0 \<le> v" "v < 2 ^ 128" "c = uuid_of_int (nat v)"
    by (auto simp: uuid_canon_def Let_def split: if_splits option.splits)
  then have "nat v < 2 ^ 128" by (simp add: nat_less_iff)
  from uuid_canon_of_int [OF this] show ?thesis by (simp only: v(3))
qed

subsection \<open>Base64\<close>

definition b64_code :: "nat \<Rightarrow> nat" where
  "b64_code d =
     (if d < 26 then 65 + d else if d < 52 then 71 + d else if d < 62 then d - 4
      else if d = 62 then 43 else 47)"

definition b64_value :: "nat \<Rightarrow> nat option" where
  "b64_value c =
     (if 65 \<le> c \<and> c \<le> 90 then Some (c - 65)
      else if 97 \<le> c \<and> c \<le> 122 then Some (c - 71)
      else if 48 \<le> c \<and> c \<le> 57 then Some (c + 4)
      else if c = 43 then Some 62 else if c = 47 then Some 63 else None)"

text \<open>\<open>base64.b64encode(...).decode("ascii")\<close>.\<close>

fun b64encode :: "bytes \<Rightarrow> ustr" where
  "b64encode [] = []"
| "b64encode [a] = [b64_code (unat a div 4), b64_code (unat a mod 4 * 16), 61, 61]"
| "b64encode [a, b] =
     [b64_code (unat a div 4), b64_code (unat a mod 4 * 16 + unat b div 16),
      b64_code (unat b mod 16 * 4), 61]"
| "b64encode (a # b # c # r) =
     [b64_code (unat a div 4), b64_code (unat a mod 4 * 16 + unat b div 16),
      b64_code (unat b mod 16 * 4 + unat c div 64), b64_code (unat c mod 64)] @ b64encode r"

text \<open>
  \<open>base64.b64decode(text, validate=True)\<close>: groups of four alphabet characters, padding only in the
  last group; anything else is a ValueError.
\<close>

fun b64decode :: "ustr \<Rightarrow> bytes option" where
  "b64decode [] = Some []"
| "b64decode (p # q # r # s # rest) =
     (case (b64_value p, b64_value q) of
        (Some v1, Some v2) \<Rightarrow>
          (if rest = [] \<and> r = 61 \<and> s = 61 then Some [byte_of (v1 * 4 + v2 div 16)]
           else case b64_value r of
               None \<Rightarrow> None
             | Some v3 \<Rightarrow>
                 (if rest = [] \<and> s = 61
                  then Some [byte_of (v1 * 4 + v2 div 16), byte_of (v2 mod 16 * 16 + v3 div 4)]
                  else case b64_value s of
                      None \<Rightarrow> None
                    | Some v4 \<Rightarrow>
                        map_option (\<lambda>bs. byte_of (v1 * 4 + v2 div 16) # byte_of (v2 mod 16 * 16 + v3 div 4)
                          # byte_of (v3 mod 4 * 64 + v4) # bs) (b64decode rest)))
      | _ \<Rightarrow> None)"
| "b64decode _ = None"

lemma b64_value_code [simp]: "d < 64 \<Longrightarrow> b64_value (b64_code d) = Some d"
  by (auto simp: b64_value_def b64_code_def)

lemma b64_code_not_pad [simp]: "d < 64 \<Longrightarrow> b64_code d \<noteq> 61"
  by (auto simp: b64_code_def)

lemma b64_small:
  assumes "(x :: nat) < 256" and "(y :: nat) < 256"
  shows "x div 4 < 64" "x mod 4 * 16 + y div 16 < 64" "x mod 16 * 4 + y div 64 < 64"
    "x mod 4 * 16 < 64" "x mod 16 * 4 < 64"
proof -
  have "x mod 4 < 4" "x mod 16 < 16" "y div 16 < 16" "y div 64 < 4"
    using assms by auto
  then show "x mod 4 * 16 + y div 16 < 64" "x mod 16 * 4 + y div 64 < 64" "x mod 4 * 16 < 64"
    "x mod 16 * 4 < 64"
    by auto
  show "x div 4 < 64" using assms by auto
qed

lemma b64_group:
  assumes "(x :: nat) < 256" and "(y :: nat) < 256" and "(z :: nat) < 256"
  shows "x div 4 * 4 + (x mod 4 * 16 + y div 16) div 16 = x"
    "(x mod 4 * 16 + y div 16) mod 16 * 16 + (y mod 16 * 4 + z div 64) div 4 = y"
    "(y mod 16 * 4 + z div 64) mod 4 * 64 + z mod 64 = z"
proof -
  have y: "y div 16 < 16" and z: "z div 64 < 4" using assms by auto
  have "(x mod 4 * 16 + y div 16) div 16 = x mod 4" "(x mod 4 * 16 + y div 16) mod 16 = y div 16"
    using y by simp_all
  moreover have "(y mod 16 * 4 + z div 64) div 4 = y mod 16" "(y mod 16 * 4 + z div 64) mod 4 = z div 64"
    using z by simp_all
  ultimately show "x div 4 * 4 + (x mod 4 * 16 + y div 16) div 16 = x"
    "(x mod 4 * 16 + y div 16) mod 16 * 16 + (y mod 16 * 4 + z div 64) div 4 = y"
    "(y mod 16 * 4 + z div 64) mod 4 * 64 + z mod 64 = z"
    by simp_all
qed

lemmas b64_byte_small = b64_small [OF unat_byte_less unat_byte_less]
lemmas b64_byte_group = b64_group [OF unat_byte_less unat_byte_less unat_byte_less]

lemma b64decode_b64encode: "b64decode (b64encode bs) = Some bs"
proof (induction bs rule: b64encode.induct)
  case 1
  then show ?case by simp
next
  case (2 a)
  then show ?case using b64_byte_small(1) [of a] b64_byte_small(4) [of a] b64_byte_group(1) [of a 0] by simp
next
  case (3 a b)
  then show ?case
    using b64_byte_small(1) [of a] b64_byte_small(2) [of a b] b64_byte_small(5) [of b] b64_byte_group(1) [of a b]
      b64_byte_group(2) [of a b 0] by simp
next
  case (4 a b c r)
  then show ?case
    using b64_byte_small(1) [of a] b64_byte_small(2) [of a b] b64_byte_small(3) [of b c] b64_byte_group(1) [of a b] b64_byte_group(2) [of a b c]
      b64_byte_group(3) [of b c]
    by (simp del: b64decode.simps add: b64decode.simps(2))
qed

end
