(* ===== verification/Json.thy ===== *)
theory Json
  imports Text
begin

text \<open>
  The \<open>json\<close> module as the key store uses it: \<open>json.dumps(x, separators=(",", ":"),
  sort_keys=True)\<close> and \<open>json.loads\<close>. The parser is the recursive scanner of the standard library
  with a fuel argument; \<open>parse_fuel\<close> shows that the fuel \<open>loads\<close> gives it never decides the
  outcome, and \<open>loads_dumps\<close> that it reads back what \<open>dumps\<close> wrote.

  An object keeps its keys in insertion order, as a \<open>dict\<close>. A number with a fraction or an exponent
  is kept as its source text: the modules modelled here never compute with one.
\<close>

datatype json =
    JNull
  | JBool bool
  | JInt int
  | JFloat ustr
  | JStr ustr
  | JArr "json list"
  | JObj "(ustr \<times> json) list"

subsection \<open>Rendering\<close>

definition u4 :: "nat \<Rightarrow> ustr" where
  "u4 c = map hex_code (pad_digs 4 (digs 16 c))"

definition esc_char :: "nat \<Rightarrow> ustr" where
  "esc_char c =
     (if c = 34 then [92, 34] else if c = 92 then [92, 92] else if c = 10 then [92, 110]
      else if c = 13 then [92, 114] else if c = 9 then [92, 116] else if c = 12 then [92, 102]
      else if c = 8 then [92, 98]
      else if 32 \<le> c \<and> c \<le> 126 then [c]
      else if c < 65536 then [92, 117] @ u4 c
      else [92, 117] @ u4 (55296 + (c - 65536) div 1024) @ [92, 117] @ u4 (56320 + (c - 65536) mod 1024))"

definition quoted :: "ustr \<Rightarrow> ustr" where
  "quoted s = [34] @ concat (map esc_char s) @ [34]"

definition int_text :: "int \<Rightarrow> ustr" where
  "int_text i = (if i < 0 then [45] else []) @ map (\<lambda>d. 48 + d) (digs 10 (nat \<bar>i\<bar>))"

fun joined :: "ustr list \<Rightarrow> ustr" where
  "joined [] = []"
| "joined [x] = x"
| "joined (x # y # xs) = x @ [44] @ joined (y # xs)"

fun dumps :: "json \<Rightarrow> ustr" where
  "dumps JNull = lit ''null''"
| "dumps (JBool b) = (if b then lit ''true'' else lit ''false'')"
| "dumps (JInt i) = int_text i"
| "dumps (JFloat s) = s"
| "dumps (JStr s) = quoted s"
| "dumps (JArr xs) = [91] @ joined (map dumps xs) @ [93]"
| "dumps (JObj kvs) =
     [123] @ joined (map (\<lambda>(k, t). quoted k @ [58] @ t)
               (sort_key fst (map (\<lambda>(k, v). (k, dumps v)) kvs))) @ [125]"

text \<open>
  The same with line breaks and indentation: \<open>nl n\<close> stands before an item at depth \<open>n\<close>, \<open>colon\<close> between a
  name and its value. The compact form has neither.
\<close>

fun joined_by :: "ustr \<Rightarrow> ustr list \<Rightarrow> ustr" where
  "joined_by sep [] = []"
| "joined_by sep [x] = x"
| "joined_by sep (x # y # xs) = x @ sep @ joined_by sep (y # xs)"

fun render :: "(nat \<Rightarrow> ustr) \<Rightarrow> ustr \<Rightarrow> nat \<Rightarrow> json \<Rightarrow> ustr" where
  "render nl colon n (JArr xs) =
     (if xs = [] then [91, 93]
      else [91] @ nl (Suc n) @ joined_by (44 # nl (Suc n)) (map (render nl colon (Suc n)) xs) @ nl n @ [93])"
| "render nl colon n (JObj kvs) =
     (if kvs = [] then [123, 125]
      else [123] @ nl (Suc n) @ joined_by (44 # nl (Suc n)) (map (\<lambda>(k, t). quoted k @ colon @ t)
             (sort_key fst (map (\<lambda>(k, v). (k, render nl colon (Suc n) v)) kvs))) @ nl n @ [125])"
| "render nl colon n j = dumps j"

text \<open>\<open>json.dumps(document, indent=2, sort_keys=True)\<close>.\<close>

definition dumps_indented :: "json \<Rightarrow> ustr" where
  "dumps_indented j = render (\<lambda>n. 10 # replicate (2 * n) 32) [58, 32] 0 j"

subsection \<open>Parsing\<close>

definition is_ws :: "nat \<Rightarrow> bool" where
  "is_ws c \<longleftrightarrow> c = 32 \<or> c = 9 \<or> c = 10 \<or> c = 13"

definition skip_ws :: "ustr \<Rightarrow> ustr" where
  "skip_ws s = dropWhile is_ws s"

definition hex4 :: "ustr \<Rightarrow> (nat \<times> ustr) option" where
  "hex4 s =
     (case s of
        a # b # c # d # r \<Rightarrow>
          (case (hex_value a, hex_value b, hex_value c, hex_value d) of
             (Some w, Some x, Some y, Some z) \<Rightarrow> Some (of_digs 16 [w, x, y, z], r)
           | _ \<Rightarrow> None)
      | _ \<Rightarrow> None)"

text \<open>The escape after a backslash: its code point and the rest of the text.\<close>

definition parse_escape :: "ustr \<Rightarrow> (nat \<times> ustr) option" where
  "parse_escape s =
     (case s of
        [] \<Rightarrow> None
      | e # r \<Rightarrow>
          if e = 34 \<or> e = 92 \<or> e = 47 then Some (e, r)
          else if e = 98 then Some (8, r) else if e = 102 then Some (12, r)
          else if e = 110 then Some (10, r) else if e = 114 then Some (13, r)
          else if e = 116 then Some (9, r)
          else if e = 117
          then (case hex4 r of
              None \<Rightarrow> None
            | Some (u, r1) \<Rightarrow>
                if 55296 \<le> u \<and> u \<le> 56319 \<and> take 2 r1 = [92, 117]
                then (case hex4 (drop 2 r1) of
                    None \<Rightarrow> None
                  | Some (v, r2) \<Rightarrow>
                      if 56320 \<le> v \<and> v \<le> 57343
                      then Some (65536 + (u - 55296) * 1024 + (v - 56320), r2) else Some (u, r1))
                else Some (u, r1))
          else None)"

lemma hex4_length: "hex4 s = Some (u, r) \<Longrightarrow> length r < length s"
  by (auto simp: hex4_def split: list.splits option.splits)

lemma parse_escape_length: "parse_escape s = Some (u, r) \<Longrightarrow> length r < length s"
  by (auto simp: parse_escape_def split: list.splits if_splits option.splits dest!: hex4_length)

text \<open>The characters of a string after its opening quote.\<close>

function parse_str :: "ustr \<Rightarrow> (ustr \<times> ustr) option" where
  "parse_str s =
     (case s of
        [] \<Rightarrow> None
      | c # r \<Rightarrow>
          if c = 34 then Some ([], r)
          else if c = 92
          then (case parse_escape r of
              None \<Rightarrow> None
            | Some (u, r1) \<Rightarrow> map_option (\<lambda>(t, r2). (u # t, r2)) (parse_str r1))
          else if c < 32 then None
          else map_option (\<lambda>(t, r1). (c # t, r1)) (parse_str r))"
  by pat_completeness auto
termination
  by (relation "measure length") (auto dest!: parse_escape_length)

declare parse_str.simps [simp del]

definition is_digit :: "nat \<Rightarrow> bool" where
  "is_digit c \<longleftrightarrow> 48 \<le> c \<and> c \<le> 57"

definition int_of_digits :: "ustr \<Rightarrow> nat" where
  "int_of_digits s = of_digs 10 (map (\<lambda>c. c - 48) s)"

text \<open>The optional fraction and exponent of a number: the text read, and the rest.\<close>

definition frac_part :: "ustr \<Rightarrow> ustr \<times> ustr" where
  "frac_part s =
     (case s of
        p # r \<Rightarrow> if p = 46 \<and> takeWhile is_digit r \<noteq> []
                 then (p # takeWhile is_digit r, dropWhile is_digit r) else ([], s)
      | [] \<Rightarrow> ([], s))"

definition exp_part :: "ustr \<Rightarrow> ustr \<times> ustr" where
  "exp_part s =
     (case s of
        p # r \<Rightarrow>
          (let sign = (case r of c # _ \<Rightarrow> if c = 43 \<or> c = 45 then [c] else [] | [] \<Rightarrow> []);
               r' = drop (length sign) r
           in if (p = 101 \<or> p = 69) \<and> takeWhile is_digit r' \<noteq> []
              then (p # sign @ takeWhile is_digit r', dropWhile is_digit r') else ([], s))
      | [] \<Rightarrow> ([], s))"

text \<open>An integer literal of more than 4300 digits is refused by the interpreter's default limit.\<close>

definition num_sign :: "ustr \<Rightarrow> ustr" where
  "num_sign s = (if take 1 s = [45] then [45] else [])"

definition num_digits :: "ustr \<Rightarrow> ustr" where
  "num_digits r = (if take 1 r = [48] then [48] else takeWhile is_digit r)"

definition parse_number :: "ustr \<Rightarrow> (json \<times> ustr) option" where
  "parse_number s =
     (let sign = num_sign s;
          r = drop (length sign) s;
          ds = num_digits r;
          r1 = drop (length ds) r;
          (fr, r2) = frac_part r1;
          (ex, r3) = exp_part r2
      in if ds = [] then None
         else if fr = [] \<and> ex = []
         then (if length ds > 4300 then None
               else Some (JInt (if sign = [] then int (int_of_digits ds) else - int (int_of_digits ds)), r1))
         else Some (JFloat (sign @ ds @ fr @ ex), r3))"

fun dict_put :: "'k \<Rightarrow> 'v \<Rightarrow> ('k \<times> 'v) list \<Rightarrow> ('k \<times> 'v) list" where
  "dict_put k v [] = [(k, v)]"
| "dict_put k v ((k', v') # d) = (if k = k' then (k', v) # d else (k', v') # dict_put k v d)"

definition literals :: "(ustr \<times> json) list" where
  "literals =
     [(lit ''null'', JNull), (lit ''true'', JBool True), (lit ''false'', JBool False),
      (lit ''NaN'', JFloat (lit ''NaN'')), (lit ''Infinity'', JFloat (lit ''Infinity'')),
      (lit ''-Infinity'', JFloat (lit ''-Infinity''))]"

fun parse_literal :: "(ustr \<times> json) list \<Rightarrow> ustr \<Rightarrow> (json \<times> ustr) option" where
  "parse_literal [] s = None"
| "parse_literal ((w, j) # ws) s =
     (if take (length w) s = w then Some (j, drop (length w) s) else parse_literal ws s)"

text \<open>
  The scanner. \<open>hook\<close> makes an object of the pairs read, at its closing brace: the constructor
  \<open>dict\<close>, for which a repeated name takes its last value, or the function passed as
  \<open>object_pairs_hook\<close>, which may raise.
\<close>

type_synonym pairs_hook = "(ustr \<times> json) list \<Rightarrow> (ustr \<times> json) list option"

definition dict_pairs :: pairs_hook where
  "dict_pairs pairs = Some (foldl (\<lambda>d (k, v). dict_put k v d) [] pairs)"

fun parse_value :: "pairs_hook \<Rightarrow> nat \<Rightarrow> ustr \<Rightarrow> (json \<times> ustr) option"
  and parse_members :: "pairs_hook \<Rightarrow> nat \<Rightarrow> (ustr \<times> json) list \<Rightarrow> ustr \<Rightarrow> (json \<times> ustr) option"
  and parse_elems :: "pairs_hook \<Rightarrow> nat \<Rightarrow> json list \<Rightarrow> ustr \<Rightarrow> (json \<times> ustr) option" where
  "parse_value hook 0 s = None"
| "parse_value hook (Suc f) s =
     (case s of
        [] \<Rightarrow> None
      | c # r \<Rightarrow>
          if c = 34 then map_option (\<lambda>(t, r1). (JStr t, r1)) (parse_str r)
          else if c = 123
          then (if take 1 (skip_ws r) = [125]
                then map_option (\<lambda>d. (JObj d, drop 1 (skip_ws r))) (hook [])
                else parse_members hook f [] (skip_ws r))
          else if c = 91
          then (if take 1 (skip_ws r) = [93] then Some (JArr [], drop 1 (skip_ws r))
                else parse_elems hook f [] (skip_ws r))
          else (case parse_literal literals s of
              Some x \<Rightarrow> Some x
            | None \<Rightarrow> parse_number s))"
| "parse_members hook 0 acc s = None"
| "parse_members hook (Suc f) acc s =
     (if take 1 s \<noteq> [34] then None
      else case parse_str (drop 1 s) of
          None \<Rightarrow> None
        | Some (k, r1) \<Rightarrow>
            if take 1 (skip_ws r1) \<noteq> [58] then None
            else case parse_value hook f (skip_ws (drop 1 (skip_ws r1))) of
                None \<Rightarrow> None
              | Some (v, r2) \<Rightarrow>
                  if take 1 (skip_ws r2) = [44]
                  then parse_members hook f (acc @ [(k, v)]) (skip_ws (drop 1 (skip_ws r2)))
                  else if take 1 (skip_ws r2) = [125]
                  then map_option (\<lambda>d. (JObj d, drop 1 (skip_ws r2))) (hook (acc @ [(k, v)]))
                  else None)"
| "parse_elems hook 0 acc s = None"
| "parse_elems hook (Suc f) acc s =
     (case parse_value hook f s of
        None \<Rightarrow> None
      | Some (v, r2) \<Rightarrow>
          if take 1 (skip_ws r2) = [44] then parse_elems hook f (acc @ [v]) (skip_ws (drop 1 (skip_ws r2)))
          else if take 1 (skip_ws r2) = [93] then Some (JArr (acc @ [v]), drop 1 (skip_ws r2))
          else None)"

definition loads_with :: "pairs_hook \<Rightarrow> ustr \<Rightarrow> json option" where
  "loads_with hook s =
     (if take 1 s = [65279] then None
      else case parse_value hook (2 * length s + 2) (skip_ws s) of
          None \<Rightarrow> None
        | Some (j, r) \<Rightarrow> if skip_ws r = [] then Some j else None)"

definition loads :: "ustr \<Rightarrow> json option" where
  "loads = loads_with dict_pairs"

subsection \<open>The fuel is enough\<close>

lemma skip_ws_length: "length (skip_ws s) \<le> length s"
  by (simp add: skip_ws_def length_dropWhile_le)

lemma parse_str_length: "parse_str s = Some (t, r) \<Longrightarrow> length r < length s"
proof (induction s arbitrary: t r rule: parse_str.induct)
  case (1 s)
  show ?case
  proof (cases s)
    case Nil
    with "1.prems" show ?thesis by (simp add: parse_str.simps)
  next
    case (Cons c cs)
    note p = "1.prems" [unfolded parse_str.simps [of s], unfolded Cons, simplified]
    show ?thesis
    proof (cases "c = 92")
      case True
      with p obtain u r1 t1 where e: "parse_escape cs = Some (u, r1)" and q: "parse_str r1 = Some (t1, r)"
        by (auto split: option.splits)
      from "1.IH"(1) [OF Cons _ True e refl q] True have "length r < length r1" by simp
      with parse_escape_length [OF e] Cons show ?thesis by simp
    next
      case False
      then show ?thesis using p Cons "1.IH"(2) [OF Cons] by (fastforce split: if_splits)
    qed
  qed
qed

lemma frac_part_length: "frac_part s = (x, r) \<Longrightarrow> length r \<le> length s"
  by (auto simp: frac_part_def length_dropWhile_le le_SucI split: list.splits if_splits)

lemma dropWhile_drop_length: "length (dropWhile P (drop k t)) \<le> length t"
  using length_dropWhile_le [of P "drop k t"] by simp

lemma exp_part_length: "exp_part s = (x, r) \<Longrightarrow> length r \<le> length s"
proof (cases s)
  case (Cons p t)
  assume "exp_part s = (x, r)"
  then have "r = s \<or> (\<exists>k. r = dropWhile is_digit (drop k t))"
    by (auto simp: exp_part_def Cons Let_def split: if_splits)
  then show ?thesis using dropWhile_drop_length [of is_digit _ t] Cons by (auto simp: le_SucI)
qed (simp add: exp_part_def)

lemma parse_number_length: "parse_number s = Some (j, r) \<Longrightarrow> length r < length s"
proof -
  assume p: "parse_number s = Some (j, r)"
  define q where "q = drop (length (num_sign s)) s"
  define ds where "ds = num_digits q"
  obtain fr r2 where fr: "frac_part (drop (length ds) q) = (fr, r2)" by fastforce
  obtain ex r3 where ex: "exp_part r2 = (ex, r3)" by fastforce
  have "ds \<noteq> []" and r: "r = drop (length ds) q \<or> r = r3"
    using p fr ex unfolding parse_number_def Let_def q_def [symmetric] ds_def [symmetric]
    by (auto split: if_splits)
  then have "q \<noteq> []" by (auto simp: ds_def num_digits_def split: if_splits)
  then have "length (drop (length ds) q) < length q"
    using \<open>ds \<noteq> []\<close> by (cases ds; cases q) auto
  moreover have "length q \<le> length s" by (simp add: q_def)
  moreover have "length r \<le> length (drop (length ds) q)"
    using r frac_part_length [OF fr] exp_part_length [OF ex] by auto
  ultimately show ?thesis by linarith
qed

lemma parse_literal_length:
  "parse_literal ws s = Some (j, r) \<Longrightarrow> \<forall>(w, _) \<in> set ws. w \<noteq> [] \<Longrightarrow> s \<noteq> [] \<Longrightarrow> length r < length s"
  by (induction ws s rule: parse_literal.induct) (auto split: if_splits)

lemma literals_not_Nil: "\<forall>(w, _) \<in> set literals. w \<noteq> []"
  by (simp add: literals_def)

lemma drop1_skip_length: "take 1 (skip_ws r) = [c] \<Longrightarrow> length (drop 1 (skip_ws r)) < length r"
  using skip_ws_length [of r] by (cases "skip_ws r") auto

lemma skip_drop1_skip_length:
  "take 1 (skip_ws r) = [c] \<Longrightarrow> length (skip_ws (drop 1 (skip_ws r))) < length r"
  using drop1_skip_length [of r c] skip_ws_length [of "drop 1 (skip_ws r)"] by linarith

lemma parse_length:
  "parse_value hook f s = Some (j, r) \<Longrightarrow> length r < length s"
  "parse_members hook f acc s = Some (j, r) \<Longrightarrow> length r < length s"
  "parse_elems hook f acc' s = Some (j, r) \<Longrightarrow> length r < length s"
proof (induction hook f s and hook f acc s and hook f acc' s arbitrary: j r and j r and j r
    rule: parse_value_parse_members_parse_elems.induct)
  case (2 hook f s)
  then show ?case
    using skip_ws_length [of "tl s"] drop1_skip_length [of "tl s"]
      parse_literal_length [OF _ literals_not_Nil, of s] parse_number_length [of s]
    by (fastforce split: list.splits if_splits option.splits dest: parse_str_length)
next
  case (4 hook f acc s)
  from "4.prems" obtain k r1 v r2 where
    h: "take 1 s = [34]" and k: "parse_str (drop 1 s) = Some (k, r1)" and c: "take 1 (skip_ws r1) = [58]"
    and v: "parse_value hook f (skip_ws (drop 1 (skip_ws r1))) = Some (v, r2)"
    and z: "take 1 (skip_ws r2) = [44] \<and>
        parse_members hook f (acc @ [(k, v)]) (skip_ws (drop 1 (skip_ws r2))) = Some (j, r)
      \<or> take 1 (skip_ws r2) = [125] \<and> r = drop 1 (skip_ws r2)"
    by (auto split: if_splits option.splits)
  have "length r1 < length s" using parse_str_length [OF k] h by (cases s) auto
  moreover have "length r2 < length (skip_ws (drop 1 (skip_ws r1)))"
    using "4.IH"(1) k c v h by auto
  moreover note skip_drop1_skip_length [OF c]
  moreover have "length r < length r2"
  proof (cases "take 1 (skip_ws r2) = [44]")
    case True
    with z have "parse_members hook f (acc @ [(k, v)]) (skip_ws (drop 1 (skip_ws r2))) = Some (j, r)"
      by auto
    then have "length r < length (skip_ws (drop 1 (skip_ws r2)))"
      using "4.IH"(2) h k c v True by auto
    with skip_drop1_skip_length [OF True] show ?thesis by linarith
  next
    case False
    with z drop1_skip_length show ?thesis by auto
  qed
  ultimately show ?case by linarith
next
  case (6 hook f acc s)
  from "6.prems" obtain v r2 where v: "parse_value hook f s = Some (v, r2)"
    and z: "take 1 (skip_ws r2) = [44] \<and> parse_elems hook f (acc @ [v]) (skip_ws (drop 1 (skip_ws r2))) = Some (j, r)
      \<or> take 1 (skip_ws r2) = [93] \<and> r = drop 1 (skip_ws r2)"
    by (auto split: if_splits option.splits)
  have "length r2 < length s" by (rule "6.IH"(1) [OF v])
  moreover have "length r < length r2"
  proof (cases "take 1 (skip_ws r2) = [44]")
    case True
    with z have "length r < length (skip_ws (drop 1 (skip_ws r2)))"
      using "6.IH"(2) [OF v refl True] by auto
    with skip_drop1_skip_length [OF True] show ?thesis by linarith
  next
    case False
    with z drop1_skip_length show ?thesis by auto
  qed
  ultimately show ?case by linarith
qed simp_all

text \<open>Any two amounts of fuel above twice the length of the text give the same result.\<close>

lemma parse_fuel:
  "2 * length s < f \<Longrightarrow> 2 * length s < g \<Longrightarrow> parse_value hook f s = parse_value hook g s"
  "2 * length s < f \<Longrightarrow> 2 * length s < g \<Longrightarrow> parse_members hook f acc s = parse_members hook g acc s"
  "2 * length s + 1 < f \<Longrightarrow> 2 * length s + 1 < g \<Longrightarrow> parse_elems hook f acc' s = parse_elems hook g acc' s"
proof (induction hook f s and hook f acc s and hook f acc' s arbitrary: g and g and g
    rule: parse_value_parse_members_parse_elems.induct)
  case (2 hook f s)
  from "2.prems" obtain g' where g: "g = Suc g'" by (cases g) auto
  show ?case
  proof (cases s)
    case Nil
    then show ?thesis by (simp add: g)
  next
    case (Cons c r)
    have l: "2 * length (skip_ws r) + 1 < f" "2 * length (skip_ws r) + 1 < g'"
      using "2.prems" skip_ws_length [of r] by (auto simp: g Cons)
    consider (obj) "c = 123" "take 1 (skip_ws r) \<noteq> [125]" | (arr) "c = 91" "take 1 (skip_ws r) \<noteq> [93]"
      | (other) "c = 123 \<longrightarrow> take 1 (skip_ws r) = [125]" "c = 91 \<longrightarrow> take 1 (skip_ws r) = [93]"
      by auto
    then show ?thesis
    proof cases
      case obj
      then have "parse_members hook f [] (skip_ws r) = parse_members hook g' [] (skip_ws r)"
        using l by (intro "2.IH"(1) [OF Cons]) simp_all
      with obj show ?thesis by (simp add: g Cons)
    next
      case arr
      then have "parse_elems hook f [] (skip_ws r) = parse_elems hook g' [] (skip_ws r)"
        by (intro "2.IH"(2) [OF Cons] l) simp_all
      with arr show ?thesis by (simp add: g Cons)
    next
      case other
      then show ?thesis by (cases "c = 123"; cases "c = 91") (simp_all add: g Cons)
    qed
  qed
next
  case (4 hook f acc s)
  from "4.prems" obtain g' where g: "g = Suc g'" by (cases g) auto
  show ?case
  proof (cases "take 1 s = [34] \<and> (\<exists>k r1. parse_str (drop 1 s) = Some (k, r1) \<and> take 1 (skip_ws r1) = [58])")
    case False
    then show ?thesis
      by (cases "take 1 s = [34]"; cases "parse_str (drop 1 s)") (auto simp: g)
  next
    case True
    then obtain k r1 where h: "take 1 s = [34]" and k: "parse_str (drop 1 s) = Some (k, r1)"
      and c: "take 1 (skip_ws r1) = [58]" by auto
    let ?t = "skip_ws (drop 1 (skip_ws r1))"
    have lt: "length ?t < length s"
      using parse_str_length [OF k] skip_drop1_skip_length [OF c] h by (cases s) auto
    with "4.prems" have fl: "2 * length ?t < f" "2 * length ?t < g'" by (auto simp: g)
    have v: "parse_value hook f ?t = parse_value hook g' ?t"
      using h c by (intro "4.IH"(1) [OF _ k refl] fl) simp_all
    show ?thesis
    proof (cases "parse_value hook f ?t")
      case None
      then show ?thesis using v h k c by (simp add: g)
    next
      case (Some vr)
      obtain w r2 where vr: "parse_value hook f ?t = Some (w, r2)" using Some by (cases vr) auto
      have "parse_members hook f (acc @ [(k, w)]) (skip_ws (drop 1 (skip_ws r2)))
          = parse_members hook g' (acc @ [(k, w)]) (skip_ws (drop 1 (skip_ws r2)))"
        if z: "take 1 (skip_ws r2) = [44]"
      proof -
        have "length (skip_ws (drop 1 (skip_ws r2))) < length s"
          using parse_length(1) [OF vr] skip_drop1_skip_length [OF z] lt by linarith
        then show ?thesis
          using h c z "4.prems" by (intro "4.IH"(2) [OF _ k refl _ vr refl]) (simp_all add: g)
      qed
      then show ?thesis using v vr h k c by (simp add: g)
    qed
  qed
next
  case (6 hook f acc s)
  from "6.prems" obtain g' where g: "g = Suc g'" by (cases g) auto
  have v: "parse_value hook f s = parse_value hook g' s"
    using "6.prems" by (intro "6.IH"(1)) (simp_all add: g)
  show ?case
  proof (cases "parse_value hook f s")
    case None
    then show ?thesis using v by (simp add: g)
  next
    case (Some vr)
    obtain w r2 where vr: "parse_value hook f s = Some (w, r2)" using Some by (cases vr) auto
    have "parse_elems hook f (acc @ [w]) (skip_ws (drop 1 (skip_ws r2)))
        = parse_elems hook g' (acc @ [w]) (skip_ws (drop 1 (skip_ws r2)))"
      if z: "take 1 (skip_ws r2) = [44]"
    proof -
      have "length (skip_ws (drop 1 (skip_ws r2))) < length s"
        using parse_length(1) [OF vr] skip_drop1_skip_length [OF z] by linarith
      then show ?thesis
        using "6.prems" by (intro "6.IH"(2) [OF vr refl z]) (simp_all add: g)
    qed
    then show ?thesis using v [symmetric] vr by (simp add: g)
  qed
qed simp_all


subsection \<open>Reading back what was rendered\<close>

lemma digs16_4: "c < 65536 \<Longrightarrow> length (pad_digs 4 (digs 16 c)) = 4"
  using length_digs_le [of 16 c 4] by simp

lemma hex4_u4: "c < 65536 \<Longrightarrow> hex4 (u4 c @ r) = Some (c, r)"
proof -
  assume c: "c < 65536"
  obtain w x y z where d: "pad_digs 4 (digs 16 c) = [w, x, y, z]"
    using digs16_4 [OF c] by (auto simp: length_Suc_conv eval_nat_numeral)
  have "\<forall>e \<in> set (pad_digs 4 (digs 16 c)). e < 16"
    using digs_less [of 16 _ c] by (auto simp: pad_digs_def)
  moreover have "of_digs 16 (pad_digs 4 (digs 16 c)) = c" by (simp add: of_digs_digs)
  ultimately show ?thesis by (simp add: u4_def hex4_def d)
qed

lemma parse_str_Cons:
  "parse_str (c # r) =
     (if c = 34 then Some ([], r)
      else if c = 92
      then (case parse_escape r of
          None \<Rightarrow> None
        | Some (u, r1) \<Rightarrow> map_option (\<lambda>(t, r2). (u # t, r2)) (parse_str r1))
      else if c < 32 then None
      else map_option (\<lambda>(t, r1). (c # t, r1)) (parse_str r))"
  by (subst parse_str.simps) simp

lemma parse_escape_bmp:
  assumes "is_scalar c" and "c < 65536"
  shows "parse_escape (117 # u4 c @ r) = Some (c, r)"
proof -
  have "\<not> (55296 \<le> c \<and> c \<le> 56319)" using assms by (auto simp: is_scalar_def)
  then show ?thesis using hex4_u4 [OF assms(2), of r] by (auto simp: parse_escape_def)
qed

lemma parse_escape_astral:
  assumes c: "65536 \<le> c" "c < 1114112"
  shows "parse_escape (117 # u4 (55296 + (c - 65536) div 1024) @ 92 # 117
           # u4 (56320 + (c - 65536) mod 1024) @ r) = Some (c, r)"
proof -
  define v where "v = c - 65536"
  have v: "v div 1024 < 1024" "v mod 1024 < 1024" "c = 65536 + v div 1024 * 1024 + v mod 1024"
    using c by (auto simp: v_def)
  have a: "hex4 (u4 (55296 + v div 1024) @ t) = Some (55296 + v div 1024, t)" for t
    using v by (intro hex4_u4) simp
  have b: "hex4 (u4 (56320 + v mod 1024) @ t) = Some (56320 + v mod 1024, t)" for t
    using v by (intro hex4_u4) simp
  show ?thesis
    unfolding v_def [symmetric] using v by (simp add: parse_escape_def a b)
qed

lemma parse_str_esc:
  assumes c: "is_scalar c"
  shows "parse_str (esc_char c @ r) = map_option (\<lambda>(t, r1). (c # t, r1)) (parse_str r)"
proof -
  have b: "c < 1114112" using c by (auto simp: is_scalar_def)
  consider (simple) "c \<in> {34, 92, 10, 13, 9, 12, 8}" | (plain) "32 \<le> c" "c \<le> 126" "c \<noteq> 34" "c \<noteq> 92"
    | (bmp) "c \<notin> {34, 92, 10, 13, 9, 12, 8}" "\<not> (32 \<le> c \<and> c \<le> 126)" "c < 65536"
    | (astral) "65536 \<le> c"
    by (cases "c < 65536"; cases "c \<in> {34, 92, 10, 13, 9, 12, 8}"; cases "32 \<le> c \<and> c \<le> 126") auto
  then show ?thesis
  proof cases
    case simple
    then show ?thesis by (auto simp: esc_char_def parse_str_Cons parse_escape_def)
  next
    case plain
    then show ?thesis by (simp add: esc_char_def parse_str_Cons)
  next
    case bmp
    then have "esc_char c = 92 # 117 # u4 c" by (auto simp: esc_char_def)
    then show ?thesis using parse_escape_bmp [OF c bmp(3)] by (simp add: parse_str_Cons)
  next
    case astral
    then have "esc_char c = 92 # 117 # u4 (55296 + (c - 65536) div 1024) @ 92 # 117
        # u4 (56320 + (c - 65536) mod 1024)" by (simp add: esc_char_def)
    then show ?thesis using parse_escape_astral [OF astral b] by (simp add: parse_str_Cons)
  qed
qed

lemma parse_str_quoted:
  "list_all is_scalar s \<Longrightarrow> parse_str (concat (map esc_char s) @ 34 # r) = Some (s, r)"
  by (induction s) (simp_all add: parse_str_esc, simp add: parse_str_Cons)

lemma parse_value_quoted:
  "list_all is_scalar s \<Longrightarrow> parse_value hook (Suc f) (quoted s @ r) = Some (JStr s, r)"
  by (simp add: quoted_def parse_str_quoted)

text \<open>What may follow a value inside a rendered document.\<close>

definition delim :: "ustr \<Rightarrow> bool" where
  "delim r \<longleftrightarrow> (case r of [] \<Rightarrow> True | c # _ \<Rightarrow> c = 44 \<or> c = 93 \<or> c = 125 \<or> is_ws c)"

lemma delim_cases:
  assumes "delim r"
  shows "takeWhile is_digit r = []" "dropWhile is_digit r = r" "frac_part r = ([], r)"
    "exp_part r = ([], r)"
  using assms
  by (auto simp: delim_def is_digit_def frac_part_def exp_part_def skip_ws_def is_ws_def
      split: list.splits)

definition int_ok :: "int \<Rightarrow> bool" where
  "int_ok i \<longleftrightarrow> length (digs 10 (nat \<bar>i\<bar>)) \<le> 4300"

lemma digs_hd_nonzero: "2 \<le> b \<Longrightarrow> 0 < n \<Longrightarrow> hd (digs b n) \<noteq> 0"
proof (induction b n rule: digs.induct)
  case (1 b n)
  show ?case
  proof (cases "n < b")
    case True
    with 1 show ?thesis by (subst digs.simps) simp
  next
    case False
    then have "0 < n div b" using 1 by (simp add: div_greater_zero_iff)
    with 1 False have "hd (digs b (n div b)) \<noteq> 0" by simp
    then show ?thesis using False 1 by (subst digs.simps) simp
  qed
qed

lemma num_digits_rendered:
  assumes "delim r"
  shows "num_digits (map (\<lambda>d. 48 + d) (digs 10 n) @ r) = map (\<lambda>d. 48 + d) (digs 10 n)"
proof (cases "n = 0")
  case True
  then show ?thesis by (simp add: num_digits_def digs.simps)
next
  case False
  obtain x xs where d: "digs 10 n = x # xs" by (cases "digs 10 n") auto
  have "x \<noteq> 0" using digs_hd_nonzero [of 10 n] False d by simp
  moreover have "\<forall>e \<in> set (digs 10 n). e < 10" using digs_less [of 10 _ n] by auto
  then have "\<forall>e \<in> set (map (\<lambda>d. 48 + d) (digs 10 n)). is_digit e"
    by (auto simp: is_digit_def)
  then have "takeWhile is_digit (map (\<lambda>d. 48 + d) (digs 10 n) @ r) = map (\<lambda>d. 48 + d) (digs 10 n)"
    using delim_cases(1) [OF assms] by (subst takeWhile_append2) auto
  ultimately show ?thesis by (simp add: num_digits_def d)
qed

lemma int_of_digits_rendered: "int_of_digits (map (\<lambda>d. 48 + d) (digs 10 n)) = n"
  by (simp add: int_of_digits_def comp_def of_digs_digs)

lemma parse_number_int:
  assumes "delim r" and "int_ok i"
  shows "parse_number (int_text i @ r) = Some (JInt i, r)"
proof -
  define sg :: ustr where "sg = (if i < 0 then [45] else [])"
  define ds where "ds = map (\<lambda>d. 48 + d) (digs 10 (nat \<bar>i\<bar>))"
  have t: "int_text i = sg @ ds" by (simp add: int_text_def sg_def ds_def)
  obtain x xs where d: "ds = (48 + x) # xs" using digs_not_Nil [of 10 "nat \<bar>i\<bar>"]
    by (cases "digs 10 (nat \<bar>i\<bar>)") (auto simp: ds_def)
  have s: "num_sign (int_text i @ r) = sg" by (auto simp: num_sign_def t sg_def d)
  have q: "drop (length sg) (int_text i @ r) = ds @ r" by (simp add: t)
  have n: "num_digits (ds @ r) = ds" unfolding ds_def by (rule num_digits_rendered [OF assms(1)])
  have e: "drop (length ds) (ds @ r) = r" by simp
  have l: "\<not> 4300 < length ds" using assms(2) by (simp add: int_ok_def ds_def)
  have v: "(if sg = [] then int (int_of_digits ds) else - int (int_of_digits ds)) = i"
    unfolding ds_def int_of_digits_rendered by (simp add: sg_def)
  show ?thesis
    unfolding parse_number_def Let_def s q n e delim_cases(3) [OF assms(1)] prod.case
      delim_cases(4) [OF assms(1)] v
    using l d by simp
qed

subsection \<open>Reading back a rendered document\<close>

text \<open>What a document becomes: every object with its keys in order.\<close>

fun canon :: "json \<Rightarrow> json" where
  "canon (JArr xs) = JArr (map canon xs)"
| "canon (JObj kvs) = JObj (sort_key fst (map (\<lambda>(k, v). (k, canon v)) kvs))"
| "canon j = j"

text \<open>Documents the modules render: no surrogates in their text, no repeated keys, no floats.\<close>

fun wf_json :: "json \<Rightarrow> bool" where
  "wf_json JNull = True"
| "wf_json (JBool b) = True"
| "wf_json (JInt i) = int_ok i"
| "wf_json (JFloat s) = False"
| "wf_json (JStr s) = list_all is_scalar s"
| "wf_json (JArr xs) = list_all wf_json xs"
| "wf_json (JObj kvs) =
     (distinct (map fst kvs) \<and> list_all (\<lambda>(k, v). list_all is_scalar k \<and> wf_json v) kvs)"

lemma sort_key_map_fst:
  assumes "\<And>x. fst (h x) = fst x"
  shows "sort_key fst (map h xs) = map h (sort_key fst xs)"
proof (induction xs)
  case Nil
  then show ?case by simp
next
  case (Cons x xs)
  have "insort_key fst (h x) (map h ys) = map h (insort_key fst x ys)" for ys
    by (induction ys) (simp_all add: assms)
  with Cons show ?case by simp
qed

lemma dumps_JObj:
  "dumps (JObj kvs) = [123] @ joined (map (\<lambda>(k, v). quoted k @ [58] @ dumps v) (sort_key fst kvs)) @ [125]"
  by (simp add: sort_key_map_fst split_def comp_def)

lemma canon_JObj: "canon (JObj kvs) = JObj (map (\<lambda>(k, v). (k, canon v)) (sort_key fst kvs))"
  by (simp add: sort_key_map_fst case_prod_beta)

lemma int_text_Cons: "\<exists>c t. int_text i = c # t \<and> (c = 45 \<and> (\<exists>d u. t = d # u \<and> d \<in> {48..57}) \<or> c \<in> {48..57})"
proof -
  obtain x xs where d: "digs 10 (nat \<bar>i\<bar>) = x # xs" by (cases "digs 10 (nat \<bar>i\<bar>)") auto
  then have "x < 10" using digs_less [of 10 x "nat \<bar>i\<bar>"] by simp
  with d show ?thesis by (auto simp: int_text_def)
qed

lemma render_JObj:
  "render nl colon n (JObj kvs) =
     (if kvs = [] then [123, 125]
      else [123] @ nl (Suc n) @ joined_by (44 # nl (Suc n)) (map (\<lambda>(k, v). quoted k @ colon @ render nl colon (Suc n) v) (sort_key fst kvs))
             @ nl n @ [125])"
  by (simp add: sort_key_map_fst split_def comp_def)

lemma joined_by_comma: "joined_by [44] xs = joined xs"
  by (induction xs rule: joined.induct) auto

lemma dumps_render: "dumps j = render (\<lambda>_. []) [58] n j"
proof (induction j arbitrary: n)
  case (JArr xs)
  then show ?case by (auto simp: joined_by_comma intro!: arg_cong [of _ _ joined] map_cong)
next
  case (JObj kvs)
  then have "\<And>k v. (k, v) \<in> set kvs \<Longrightarrow> dumps v = render (\<lambda>_. []) [58] (Suc n) v" by fastforce
  then show ?case unfolding dumps_JObj render_JObj
    by (auto simp: joined_by_comma intro!: arg_cong [of _ _ joined] map_cong)
qed simp_all

lemma render_hd:
  assumes "wf_json j"
  obtains c t where "render nl colon n j = c # t" "\<not> is_ws c" "c \<noteq> 93" "c \<noteq> 125" "c \<noteq> 65279"
proof (cases j)
  case (JInt i)
  with int_text_Cons [of i] that show ?thesis by (fastforce simp: is_ws_def)
next
  case (JBool b)
  with that show ?thesis by (cases b) (simp_all add: is_ws_def lit_def)
next
  case (JArr xs)
  with that show ?thesis by (cases "xs = []") (simp_all add: is_ws_def)
next
  case (JObj kvs)
  with that show ?thesis by (cases "kvs = []") (simp_all add: is_ws_def)
qed (use assms that in \<open>auto simp: is_ws_def lit_def quoted_def split: if_splits\<close>)

lemma skip_ws_render: "wf_json j \<Longrightarrow> skip_ws (render nl colon n j @ r) = render nl colon n j @ r"
  by (erule render_hd [of _ nl colon n]) (simp add: skip_ws_def)

lemma skip_ws_append: "list_all is_ws ws \<Longrightarrow> skip_ws (ws @ s) = skip_ws s"
  by (simp add: skip_ws_def list_all_iff dropWhile_append2)

lemma literals_codes:
  "literals = [([110, 117, 108, 108], JNull), ([116, 114, 117, 101], JBool True),
     ([102, 97, 108, 115, 101], JBool False), ([78, 97, 78], JFloat (lit ''NaN'')),
     ([73, 110, 102, 105, 110, 105, 116, 121], JFloat (lit ''Infinity'')),
     ([45, 73, 110, 102, 105, 110, 105, 116, 121], JFloat (lit ''-Infinity''))]"
  by (simp add: literals_def lit_def)

lemma parse_literal_step:
  "w \<noteq> [] \<Longrightarrow> hd w \<noteq> c \<Longrightarrow> parse_literal ((w, j) # ws) (c # u) = parse_literal ws (c # u)"
  by (cases w) simp_all

lemma parse_literal_digit: "c \<in> {48..57} \<Longrightarrow> parse_literal literals (c # u) = None"
  unfolding literals_codes by (subst parse_literal_step, simp, simp)+ simp

lemma parse_literal_minus: "d \<in> {48..57} \<Longrightarrow> parse_literal literals (45 # d # u) = None"
  unfolding literals_codes by simp

lemma parse_literal_int: "parse_literal literals (int_text i @ r) = None"
proof -
  obtain c t where i: "int_text i = c # t"
    "c = 45 \<and> (\<exists>d u. t = d # u \<and> d \<in> {48..57}) \<or> c \<in> {48..57}"
    using int_text_Cons [of i] by (elim exE conjE)
  from i(2) show ?thesis
  proof
    assume "c = 45 \<and> (\<exists>d u. t = d # u \<and> d \<in> {48..57})"
    then show ?thesis by (auto simp: i(1) parse_literal_minus simp del: atLeastAtMost_iff)
  next
    assume "c \<in> {48..57}"
    then show ?thesis using i(1) by (simp only: append_Cons parse_literal_digit)
  qed
qed

lemma map_of_dict_put: "map_of (dict_put k v d) = (map_of d)(k \<mapsto> v)"
  by (induction k v d rule: dict_put.induct) auto

lemma dict_put_keys:
  "map fst (dict_put k v d) = (if k \<in> fst ` set d then map fst d else map fst d @ [k])"
  by (induction d rule: dict_put.induct) auto

lemma dict_put_fresh: "k \<notin> fst ` set d \<Longrightarrow> dict_put k v d = d @ [(k, v)]"
  by (induction k v d rule: dict_put.induct) auto

lemma joined_Cons: "joined (x # xs) = x @ (if xs = [] then [] else 44 # joined xs)"
  by (cases xs) simp_all

lemma joined_by_Cons: "joined_by sep (x # xs) = x @ (if xs = [] then [] else sep @ joined_by sep xs)"
  by (cases xs) simp_all

text \<open>
  Whatever the hook does with a repeated name, a hook that keeps pairs with distinct names reads
  back a document, however it is laid out.
\<close>

locale pairs_reader =
  fixes hook :: pairs_hook
  assumes keeps_distinct: "distinct (map fst pairs) \<Longrightarrow> hook pairs = Some pairs"
begin

lemma hook_Nil [simp]: "hook [] = Some []"
  by (rule keeps_distinct) simp

end

locale layout_reader = pairs_reader +
  fixes nl :: "nat \<Rightarrow> ustr" and gap :: ustr
  assumes nl_ws: "list_all is_ws (nl n)" and gap_ws: "list_all is_ws gap"
begin

definition rd :: "nat \<Rightarrow> json \<Rightarrow> ustr" where
  "rd = render nl (58 # gap)"

definition reads_back :: "json \<Rightarrow> bool" where
  "reads_back j \<longleftrightarrow> (\<forall>n r f. delim r \<longrightarrow> 2 * length (rd n j @ r) < f
     \<longrightarrow> parse_value hook f (rd n j @ r) = Some (canon j, r))"

lemma skip_nl [simp]: "skip_ws (nl n @ s) = skip_ws s" "skip_ws (gap @ s) = skip_ws s"
  by (simp_all add: skip_ws_append nl_ws gap_ws)

lemma skip_rd: "wf_json j \<Longrightarrow> skip_ws (rd n j @ r) = rd n j @ r"
  unfolding rd_def by (rule skip_ws_render)

lemma skip_punct [simp]: "c \<in> {44, 58, 93, 125} \<Longrightarrow> skip_ws (c # s) = c # s"
  by (auto simp: skip_ws_def is_ws_def)

lemma delim_nl: "delim (nl n @ c # r)" if "c = 93 \<or> c = 125"
  using that nl_ws [of n] by (cases "nl n") (auto simp: delim_def)

lemma parse_elems_rendered:
  assumes "xs \<noteq> []" and "\<forall>x \<in> set xs. wf_json x \<and> reads_back x"
    and "2 * length (joined_by (44 # nl k) (map (rd k) xs) @ nl n @ 93 # r) + 1 < f"
  shows "parse_elems hook f acc (joined_by (44 # nl k) (map (rd k) xs) @ nl n @ 93 # r) = Some (JArr (acc @ map canon xs), r)"
  using assms
proof (induction xs arbitrary: acc f)
  case Nil
  then show ?case by simp
next
  case (Cons x xs)
  let ?more = "joined_by (44 # nl k) (map (rd k) xs) @ nl n @ 93 # r"
  define rest where "rest = (if xs = [] then nl n @ 93 # r else 44 # nl k @ ?more)"
  have e: "joined_by (44 # nl k) (map (rd k) (x # xs)) @ nl n @ 93 # r = rd k x @ rest"
    by (simp add: joined_by_Cons rest_def)
  obtain f' where f: "f = Suc f'" using Cons.prems(3) by (cases f) auto
  have dl: "delim rest" using delim_nl [of 93 n r] by (simp add: rest_def delim_def)
  have fl: "2 * length (rd k x @ rest) < f'" using Cons.prems(3) unfolding e f by simp
  have v: "parse_value hook f' (rd k x @ rest) = Some (canon x, rest)"
    using Cons.prems(2) dl fl by (simp add: reads_back_def)
  show ?case
  proof (cases "xs = []")
    case True
    then show ?thesis unfolding e f using v by (simp add: rest_def)
  next
    case False
    then obtain y ys where xs: "xs = y # ys" by (cases xs) auto
    have sk: "skip_ws ?more = ?more"
      using skip_rd [of y k] Cons.prems(2) by (simp add: xs joined_by_Cons)
    have "parse_elems hook f' (acc @ [canon x]) ?more = Some (JArr ((acc @ [canon x]) @ map canon xs), r)"
      using Cons.prems(2) fl False by (intro Cons.IH) (simp_all add: rest_def)
    then show ?thesis unfolding e f using v sk False by (simp add: rest_def)
  qed
qed

lemma parse_members_rendered:
  assumes "kvs \<noteq> []" and "distinct (map fst (acc @ kvs))"
    and "\<forall>(k, x) \<in> set kvs. list_all is_scalar k \<and> wf_json x \<and> reads_back x"
    and "2 * length (joined_by (44 # nl d) (map (\<lambda>(k, v). quoted k @ (58 # gap) @ rd d v) kvs) @ nl n @ 125 # r) < f"
  shows "parse_members hook f acc (joined_by (44 # nl d) (map (\<lambda>(k, v). quoted k @ (58 # gap) @ rd d v) kvs) @ nl n @ 125 # r)
           = Some (JObj (acc @ map (\<lambda>(k, v). (k, canon v)) kvs), r)"
  using assms
proof (induction kvs arbitrary: acc f)
  case Nil
  then show ?case by simp
next
  case (Cons kx kvs)
  obtain k x where kx: "kx = (k, x)" by (cases kx)
  let ?m = "map (\<lambda>(k, v). quoted k @ (58 # gap) @ rd d v)"
  let ?more = "joined_by (44 # nl d) (?m kvs) @ nl n @ 125 # r"
  define rest where "rest = (if kvs = [] then nl n @ 125 # r else 44 # nl d @ ?more)"
  have e: "joined_by (44 # nl d) (?m (kx # kvs)) @ nl n @ 125 # r = 34 # concat (map esc_char k) @ 34 # 58 # gap @ rd d x @ rest"
    by (simp add: joined_by_Cons rest_def kx quoted_def)
  obtain f' where f: "f = Suc f'" using Cons.prems(4) by (cases f) auto
  have k: "list_all is_scalar k" "wf_json x" "reads_back x" using Cons.prems(3) by (auto simp: kx)
  have dl: "delim rest" using delim_nl [of 125 n r] by (simp add: rest_def delim_def)
  have fl: "2 * length (rd d x @ rest) < f'" using Cons.prems(4) unfolding e f by simp
  have v: "parse_value hook f' (rd d x @ rest) = Some (canon x, rest)"
    using k(3) dl fl by (simp add: reads_back_def)
  have st: "parse_str (concat (map esc_char k) @ 34 # 58 # gap @ rd d x @ rest) = Some (k, 58 # gap @ rd d x @ rest)"
    by (rule parse_str_quoted [OF k(1)])
  have put: "hook (acc @ [(k, canon x)]) = Some (acc @ [(k, canon x)])"
    using Cons.prems(2) by (intro keeps_distinct) (simp add: kx)
  show ?case
  proof (cases "kvs = []")
    case True
    then show ?thesis
      unfolding e f using v st put skip_rd [OF k(2)] by (simp add: kx rest_def)
  next
    case False
    have sk: "skip_ws ?more = ?more"
      using False by (cases kvs) (auto simp: joined_by_Cons quoted_def skip_ws_def is_ws_def)
    have "parse_members hook f' (acc @ [(k, canon x)]) ?more
        = Some (JObj ((acc @ [(k, canon x)]) @ map (\<lambda>(k, v). (k, canon v)) kvs), r)"
      using Cons.prems fl False by (intro Cons.IH) (auto simp: rest_def kx)
    then show ?thesis
      unfolding e f using v st put sk skip_rd [OF k(2)] False by (simp add: rest_def kx)
  qed
qed

text \<open>An object is delimited by its own brackets, whatever follows it.\<close>

lemma parse_object:
  assumes "wf_json (JObj kvs)" and "\<forall>(k, x) \<in> set kvs. reads_back x"
    and fl: "2 * length (rd n (JObj kvs) @ r) < f"
  shows "parse_value hook f (rd n (JObj kvs) @ r) = Some (canon (JObj kvs), r)"
proof -
  let ?s = "sort_key fst kvs" and ?m = "map (\<lambda>(k, v). quoted k @ (58 # gap) @ rd (Suc n) v)"
  let ?body = "joined_by (44 # nl (Suc n)) (?m ?s) @ nl n @ 125 # r"
  obtain f' where f: "f = Suc f'" using fl by (cases f) auto
  show ?thesis
  proof (cases ?s)
    case Nil
    then have "kvs = []" by (metis length_0_conv length_sort)
    then show ?thesis by (simp add: f rd_def)
  next
    case (Cons y ys)
    then have ne: "kvs \<noteq> []" by auto
    have t: "rd n (JObj kvs) @ r = 123 # nl (Suc n) @ ?body"
      using ne unfolding rd_def render_JObj by simp
    have wf: "\<forall>(k, x) \<in> set ?s. list_all is_scalar k \<and> wf_json x \<and> reads_back x"
      using assms by (fastforce simp: list_all_iff)
    have di: "distinct (map fst ?s)"
      using assms(1) by (simp add: distinct_map)
    have sk: "skip_ws ?body = ?body" and nz: "take 1 ?body \<noteq> [125]"
      by (auto simp: Cons joined_by_Cons quoted_def skip_ws_def is_ws_def case_prod_beta)
    have "parse_members hook f' [] ?body = Some (JObj ([] @ map (\<lambda>(k, v). (k, canon v)) ?s), r)"
      using fl Cons di wf unfolding t f by (intro parse_members_rendered) simp_all
    then show ?thesis
      using sk nz unfolding t canon_JObj f by simp
  qed
qed

lemma parse_array:
  assumes "wf_json (JArr xs)" and wf: "\<forall>x \<in> set xs. wf_json x \<and> reads_back x" and fl: "2 * length (rd n (JArr xs) @ r) < f"
  shows "parse_value hook f (rd n (JArr xs) @ r) = Some (canon (JArr xs), r)"
proof -
  obtain f' where f: "f = Suc f'" using fl by (cases f) auto
  show ?thesis
  proof (cases xs)
    case Nil
    then show ?thesis by (simp add: f rd_def)
  next
    case (Cons y ys)
    let ?body = "joined_by (44 # nl (Suc n)) (map (rd (Suc n)) xs) @ nl n @ 93 # r"
    have t: "rd n (JArr xs) @ r = 91 # nl (Suc n) @ ?body" by (simp add: rd_def Cons)
    have "wf_json y" using wf Cons by simp
    then obtain c t where y: "rd (Suc n) y = c # t" "\<not> is_ws c" "c \<noteq> 93"
      unfolding rd_def by (rule render_hd)
    have sk: "skip_ws ?body = ?body" "take 1 ?body \<noteq> [93]"
      using y by (simp_all add: Cons joined_by_Cons skip_ws_def)
    have "parse_elems hook f' [] ?body = Some (JArr ([] @ map canon xs), r)"
      using fl Cons unfolding t by (intro parse_elems_rendered wf) (simp_all add: f)
    then show ?thesis using sk unfolding t by (simp add: f)
  qed
qed

lemma wf_reads_back: "wf_json j \<Longrightarrow> reads_back j"
proof (induction j)
  case (JArr xs)
  then have "\<forall>x \<in> set xs. wf_json x \<and> reads_back x" by (simp add: list_all_iff)
  with JArr.prems show ?case unfolding reads_back_def [of "JArr xs"] by (blast intro: parse_array)
next
  case (JObj kvs)
  then have "\<forall>(k, x) \<in> set kvs. reads_back x" by (fastforce simp: list_all_iff)
  with JObj.prems show ?case unfolding reads_back_def [of "JObj kvs"] by (blast intro: parse_object)
next
  case (JInt i)
  show ?case unfolding reads_back_def
  proof (intro allI impI)
    fix n r f assume r: "delim r" and fl: "2 * length (rd n (JInt i) @ r) < f"
    then obtain f' where f: "f = Suc f'" by (cases f) auto
    obtain c t where i: "int_text i = c # t" "c = 45 \<or> c \<in> {48..57}"
      using int_text_Cons [of i] by (elim exE conjE) blast
    have "c \<noteq> 34" "c \<noteq> 123" "c \<noteq> 91" using i(2) by auto
    then have "parse_value hook f (c # t @ r)
        = (case parse_literal literals (int_text i @ r) of Some x \<Rightarrow> Some x
           | None \<Rightarrow> parse_number (int_text i @ r))"
      unfolding i(1) append_Cons by (simp add: f)
    then show "parse_value hook f (rd n (JInt i) @ r) = Some (canon (JInt i), r)"
      using parse_number_int [OF r, of i] JInt parse_literal_int [of i r] by (simp add: i rd_def)
  qed
next
  case (JStr s)
  then show ?case unfolding reads_back_def
    by (auto simp: less_iff_Suc_add parse_value_quoted rd_def simp del: parse_value.simps)
next
  case JNull
  then show ?case unfolding reads_back_def
    by (auto simp: less_iff_Suc_add literals_def lit_def rd_def)
next
  case (JBool b)
  show ?case unfolding reads_back_def
  proof (intro allI impI)
    fix n r f assume "delim r" and fl: "2 * length (rd n (JBool b) @ r) < f"
    then obtain f' where f: "f = Suc f'" by (cases f) auto
    then show "parse_value hook f (rd n (JBool b) @ r) = Some (canon (JBool b), r)"
      by (simp add: f literals_codes lit_def rd_def)
  qed
qed simp

text \<open>White space may follow.\<close>

lemma loads_with_laid_out:
  assumes wf: "wf_json j" and r: "list_all is_ws r"
  shows "loads_with hook (rd n j @ r) = Some (canon j)"
proof -
  obtain c t where h: "rd n j = c # t" "c \<noteq> 65279" unfolding rd_def by (rule render_hd [OF wf])
  have "delim r" using r by (cases r) (simp_all add: delim_def)
  then have "parse_value hook (2 * length (rd n j @ r) + 2) (rd n j @ r) = Some (canon j, r)"
    using wf_reads_back [OF wf] unfolding reads_back_def by (simp del: parse_value.simps)
  then show ?thesis
    using h(2) skip_rd [OF wf, of n r] skip_ws_append [OF r, of "[]"]
    by (simp add: loads_with_def h(1) skip_ws_def del: parse_value.simps)
qed

end

sublocale pairs_reader < compact: layout_reader hook "\<lambda>_. []" "[]"
  by unfold_locales simp_all

sublocale pairs_reader < indented: layout_reader hook "\<lambda>n. 10 # replicate (2 * n) 32" "[32]"
  by unfold_locales (simp_all add: is_ws_def list_all_iff)

context pairs_reader
begin

lemma loads_with_dumps: "wf_json j \<Longrightarrow> loads_with hook (dumps j) = Some (canon j)"
  using compact.loads_with_laid_out [of j "[]" 0] by (simp add: compact.rd_def dumps_render [of j 0])

lemma loads_with_indented:
  "wf_json j \<Longrightarrow> list_all is_ws r \<Longrightarrow> loads_with hook (dumps_indented j @ r) = Some (canon j)"
  using indented.loads_with_laid_out [of j r 0] by (simp add: indented.rd_def dumps_indented_def)

lemma loads_with_object:
  assumes wf: "wf_json (JObj kvs)" and r: "skip_ws r = []"
  shows "loads_with hook (dumps (JObj kvs) @ r) = Some (canon (JObj kvs))"
proof -
  have "list_all is_ws r" using r by (simp add: skip_ws_def list_all_iff)
  from compact.loads_with_laid_out [OF wf this, of 0] show ?thesis
    unfolding compact.rd_def dumps_render [of "JObj kvs" 0] .
qed

end

lemma foldl_dict_put:
  "distinct (map fst (d @ pairs)) \<Longrightarrow> foldl (\<lambda>d (k, v). dict_put k v d) d pairs = d @ pairs"
  by (induction pairs arbitrary: d) (auto simp: dict_put_fresh)

interpretation plain_reader: pairs_reader dict_pairs
  by unfold_locales (simp add: dict_pairs_def foldl_dict_put [of "[]", simplified])

lemmas loads_dumps = plain_reader.loads_with_dumps [folded loads_def]
lemmas loads_indented = plain_reader.loads_with_indented [folded loads_def]
lemmas loads_object = plain_reader.loads_with_object [folded loads_def]

text \<open>Looking a field up is the same before and after the keys are sorted.\<close>

lemma map_of_sort_key: "distinct (map fst kvs) \<Longrightarrow> map_of (sort_key fst kvs) = map_of kvs"
  by (rule map_of_eqI) (auto simp: distinct_map intro!: map_of_eq_Some_iff [THEN iffD2, symmetric])

definition canon_fields :: "(ustr \<times> json) list \<Rightarrow> (ustr \<times> json) list" where
  "canon_fields kvs = map (\<lambda>(k, v). (k, canon v)) (sort_key fst kvs)"

lemma canon_object: "canon (JObj kvs) = JObj (canon_fields kvs)"
  by (simp only: canon_JObj canon_fields_def)

lemma map_of_canon_fields:
  "distinct (map fst kvs) \<Longrightarrow> map_of (canon_fields kvs) k = map_option canon (map_of kvs k)"
  by (simp add: canon_fields_def map_of_map map_of_sort_key)

subsection \<open>Rendered text is ASCII\<close>

text \<open>No floating-point number, and every integer within the interpreter's limit of 4300 digits.\<close>

fun ints_ok :: "json \<Rightarrow> bool" where
  "ints_ok (JInt i) = int_ok i"
| "ints_ok (JFloat s) = False"
| "ints_ok (JArr xs) = list_all ints_ok xs"
| "ints_ok (JObj kvs) = list_all (\<lambda>(k, v). ints_ok v) kvs"
| "ints_ok j = True"

lemma wf_ints_ok: "wf_json j \<Longrightarrow> ints_ok j"
  by (induction j) (auto simp: list_all_iff)

lemma u4_ascii: "list_all (\<lambda>c. c < 128) (u4 n)"
proof -
  have "hex_code d < 128" if "d \<in> set (pad_digs 4 (digs 16 n))" for d
  proof -
    have "d < 16" using that digs_less [of 16 d n] by (auto simp: pad_digs_def)
    then show ?thesis by (simp add: hex_code_def)
  qed
  then show ?thesis by (simp add: u4_def list_all_iff)
qed

lemma esc_char_ascii: "list_all (\<lambda>c. c < 128) (esc_char c)"
  by (simp add: esc_char_def u4_ascii)

lemma quoted_ascii: "list_all (\<lambda>c. c < 128) (quoted s)"
  using esc_char_ascii by (simp add: quoted_def list_all_iff)

lemma int_text_ascii: "list_all (\<lambda>c. c < 128) (int_text i)"
proof -
  have "\<forall>d \<in> set (digs 10 (nat \<bar>i\<bar>)). 48 + d < 128"
    using digs_less [of 10 _ "nat \<bar>i\<bar>"] by force
  then show ?thesis by (auto simp: int_text_def list_all_iff)
qed

lemma joined_ascii: "\<forall>x \<in> set xs. list_all (\<lambda>c. c < 128) x \<Longrightarrow> list_all (\<lambda>c. c < 128) (joined xs)"
  by (induction xs rule: joined.induct) auto

lemma dumps_ascii: "ints_ok j \<Longrightarrow> list_all (\<lambda>c. c < 128) (dumps j)"
proof (induction j)
  case (JObj kvs)
  have "list_all (\<lambda>c. c < 128) (dumps v)" if "(k, v) \<in> set kvs" for k v
    using JObj.IH [OF that, of v] JObj.prems that by (auto simp: list_all_iff)
  then have "list_all (\<lambda>c. c < 128) (joined (map (\<lambda>(k, v). quoted k @ [58] @ dumps v) (sort_key fst kvs)))"
    by (intro joined_ascii) (auto simp: quoted_ascii)
  then show ?case unfolding dumps_JObj by simp
next
  case (JArr xs)
  then have "list_all (\<lambda>c. c < 128) (joined (map dumps xs))"
    by (intro joined_ascii) (auto simp: list_all_iff)
  then show ?case by simp
next
  case (JBool b)
  then show ?case by (simp add: lit_def)
qed (simp_all add: quoted_ascii int_text_ascii lit_def)

end
