(* ===== verification/PyText.thy ===== *)
theory PyText
  imports Json
begin

text \<open>
  The string operations of the language that the configuration and the trace validator use. What
  depends on the Unicode tables beyond ASCII, or on how the interpreter renders a value, is a field
  of the record \<open>py\<close>, an argument of every definition that uses it.
\<close>

record py =
  py_fold :: "nat \<Rightarrow> ustr"               \<comment> \<open>\<open>str.casefold\<close> of one code point above ASCII\<close>
  py_alnum :: "nat \<Rightarrow> bool"              \<comment> \<open>\<open>str.isalnum\<close> of one code point above ASCII\<close>
  py_repr :: "ustr \<Rightarrow> ustr"              \<comment> \<open>\<open>repr\<close> of a string, in messages only\<close>
  py_str_other :: "json \<Rightarrow> ustr"         \<comment> \<open>\<open>str\<close> of a float, a list or a dict\<close>
  py_float_json :: "ustr \<Rightarrow> ustr"        \<comment> \<open>how \<open>json.dumps\<close> writes the float of a literal\<close>
  py_float_int :: "ustr \<Rightarrow> int option"   \<comment> \<open>the integer a float literal is equal to\<close>
  py_json_failure :: "ustr \<Rightarrow> exn"       \<comment> \<open>what \<open>json.loads\<close> raises on a text it refuses\<close>

text \<open>\<open>str.isspace\<close>, and \<open>strip()\<close> without an argument.\<close>

definition is_space :: "nat \<Rightarrow> bool" where
  "is_space c \<longleftrightarrow> 9 \<le> c \<and> c \<le> 13 \<or> 28 \<le> c \<and> c \<le> 32 \<or> c = 133 \<or> c = 160 \<or> c = 5760
     \<or> 8192 \<le> c \<and> c \<le> 8202 \<or> c = 8232 \<or> c = 8233 \<or> c = 8239 \<or> c = 8287 \<or> c = 12288"

definition strip :: "ustr \<Rightarrow> ustr" where
  "strip s = rev (dropWhile is_space (rev (dropWhile is_space s)))"

lemma strip_Nil: "strip s = [] \<longleftrightarrow> list_all is_space s"
proof -
  have "strip s = [] \<longleftrightarrow> list_all is_space (dropWhile is_space s)"
    by (simp only: strip_def rev_is_Nil_conv dropWhile_eq_Nil_conv set_rev list_all_iff)
  also have "\<dots> \<longleftrightarrow> dropWhile is_space s = []"
    using hd_dropWhile [of is_space s] by (metis hd_in_set list.pred_inject(1) list_all_iff)
  finally show ?thesis by (simp only: dropWhile_eq_Nil_conv list_all_iff)
qed

lemma strip_idem: "strip (strip s) = strip s"
proof -
  have drop: "dropWhile is_space (strip s) = strip s"
  proof (cases "strip s")
    case (Cons c t)
    then have "rev (strip s) = rev t @ [c]" by simp
    define u where "u = dropWhile is_space s"
    have "rev (strip s) = dropWhile is_space (rev u)" by (simp add: strip_def u_def)
    then obtain pre where "rev u = pre @ rev (strip s)" by (metis takeWhile_dropWhile_id)
    then have "u = strip s @ rev pre" by (metis rev_append rev_rev_ident)
    then have "hd u = c" "u \<noteq> []" using Cons by simp_all
    then have "\<not> is_space c" using hd_dropWhile [of is_space s] by (metis u_def)
    then show ?thesis by (simp add: Cons)
  qed simp
  have "dropWhile is_space (rev (strip s)) = rev (strip s)"
    by (simp add: strip_def)
  with drop show ?thesis by (simp add: strip_def [of "strip s"])
qed

lemma strip_append_space: "is_space c \<Longrightarrow> strip (x @ [c]) = strip x"
  by (cases "\<forall>a \<in> set x. is_space a") (auto simp: strip_def dropWhile_append dest: set_dropWhileD)

lemma strip_decomp: "\<exists>a b. s = a @ strip s @ b \<and> list_all is_space a \<and> list_all is_space b"
proof -
  define u where "u = dropWhile is_space s"
  have "u = strip s @ rev (takeWhile is_space (rev u))"
    by (metis rev_append rev_rev_ident strip_def takeWhile_dropWhile_id u_def)
  moreover have "s = takeWhile is_space s @ u" by (simp add: u_def)
  ultimately have "s = takeWhile is_space s @ strip s @ rev (takeWhile is_space (rev u))" by metis
  moreover have "list_all is_space (takeWhile is_space xs)" for xs by (induction xs) auto
  ultimately show ?thesis by (metis list_all_rev)
qed

definition casefold :: "py \<Rightarrow> ustr \<Rightarrow> ustr" where
  "casefold py s = concat (map (\<lambda>c. if c < 128 then [if 65 \<le> c \<and> c \<le> 90 then c + 32 else c] else py_fold py c) s)"

definition is_alnum :: "py \<Rightarrow> nat \<Rightarrow> bool" where
  "is_alnum py c \<longleftrightarrow>
     (if c < 128 then 48 \<le> c \<and> c \<le> 57 \<or> 65 \<le> c \<and> c \<le> 90 \<or> 97 \<le> c \<and> c \<le> 122 else py_alnum py c)"

text \<open>\<open>sep.join(parts)\<close>, \<open>part in text\<close> and \<open>text.split(sep)\<close> for a one-character separator.\<close>

fun join_with :: "ustr \<Rightarrow> ustr list \<Rightarrow> ustr" where
  "join_with sep [] = []"
| "join_with sep [x] = x"
| "join_with sep (x # y # xs) = x @ sep @ join_with sep (y # xs)"

fun contains_text :: "ustr \<Rightarrow> ustr \<Rightarrow> bool" where
  "contains_text part [] \<longleftrightarrow> part = []"
| "contains_text part (c # s) \<longleftrightarrow> take (length part) (c # s) = part \<or> contains_text part s"

fun split_on :: "nat \<Rightarrow> ustr \<Rightarrow> ustr list" where
  "split_on sep [] = [[]]"
| "split_on sep (c # s) =
     (if c = sep then [] # split_on sep s
      else case split_on sep s of x # xs \<Rightarrow> (c # x) # xs | [] \<Rightarrow> [[c]])"

lemma contains_text_iff: "contains_text part s \<longleftrightarrow> (\<exists>a b. s = a @ part @ b)"
proof (induction part s rule: contains_text.induct)
  case (2 part c s)
  show ?case
  proof
    assume "contains_text part (c # s)"
    then consider "take (length part) (c # s) = part" | "\<exists>a b. s = a @ part @ b" using 2 by auto
    then show "\<exists>a b. c # s = a @ part @ b"
    proof cases
      case 1
      then show ?thesis by (metis append_Nil append_take_drop_id)
    next
      case 2
      then obtain a b where "c # s = (c # a) @ part @ b" by auto
      then show ?thesis by blast
    qed
  next
    assume "\<exists>a b. c # s = a @ part @ b"
    then obtain a b where e: "c # s = a @ part @ b" by blast
    show "contains_text part (c # s)"
    proof (cases a)
      case Nil
      then show ?thesis using e by (metis append_Nil append_eq_conv_conj contains_text.simps(2))
    next
      case (Cons d a')
      then have "s = a' @ part @ b" using e by simp
      then show ?thesis using 2 by auto
    qed
  qed
qed auto

lemma join_split: "join_with [sep] (split_on sep s) = s"
proof (induction s)
  case (Cons c s)
  show ?case
  proof (cases "split_on sep s")
    case Nil
    then show ?thesis by (cases s) (auto split: if_splits list.splits)
  next
    case (Cons x xs)
    with Cons.IH show ?thesis by (cases xs) auto
  qed
qed simp

text \<open>\<open>str.splitlines\<close>.\<close>

definition is_line_break :: "nat \<Rightarrow> bool" where
  "is_line_break c \<longleftrightarrow> c \<in> {10, 11, 12, 13, 28, 29, 30, 133, 8232, 8233}"

function splitlines :: "ustr \<Rightarrow> ustr list" where
  "splitlines s =
     (if s = [] then []
      else takeWhile (\<lambda>c. \<not> is_line_break c) s
             # (case dropWhile (\<lambda>c. \<not> is_line_break c) s of
                  [] \<Rightarrow> []
                | c # t \<Rightarrow> splitlines (if c = 13 \<and> take 1 t = [10] then drop 1 t else t)))"
  by pat_completeness auto
termination
proof (relation "measure length")
  fix s c and t :: ustr
  assume "dropWhile (\<lambda>c. \<not> is_line_break c) s = c # t"
  then have "length (c # t) \<le> length s" by (metis length_dropWhile_le)
  then show "(if c = 13 \<and> take 1 t = [10] then drop 1 t else t, s) \<in> measure length" by auto
qed simp

declare splitlines.simps [simp del]

text \<open>Equality of two JSON values as Python objects: a boolean equals the integer 0 or 1, and a
  float an integer of the same value. Two floats are compared by the interpreter.\<close>

definition int_like :: "py \<Rightarrow> json \<Rightarrow> int option" where
  "int_like py v = (case v of JInt i \<Rightarrow> Some i | JBool b \<Rightarrow> Some (if b then 1 else 0) | JFloat t \<Rightarrow> py_float_int py t | _ \<Rightarrow> None)"

definition equals_int :: "py \<Rightarrow> json \<Rightarrow> int \<Rightarrow> bool" where
  "equals_int py v i \<longleftrightarrow> int_like py v = Some i"

text \<open>\<open>str(value)\<close>.\<close>

fun py_str :: "py \<Rightarrow> json \<Rightarrow> ustr" where
  "py_str py JNull = lit ''None''"
| "py_str py (JBool b) = (if b then lit ''True'' else lit ''False'')"
| "py_str py (JInt i) = int_text i"
| "py_str py (JStr s) = s"
| "py_str py v = py_str_other py v"

text \<open>\<open>bool(value)\<close>; the truth of a float literal is an argument.\<close>

definition truthy :: "(ustr \<Rightarrow> bool) \<Rightarrow> json \<Rightarrow> bool" where
  "truthy float_true v =
     (case v of
        JNull \<Rightarrow> False | JBool b \<Rightarrow> b | JInt i \<Rightarrow> i \<noteq> 0 | JFloat t \<Rightarrow> float_true t
      | JStr s \<Rightarrow> s \<noteq> [] | JArr xs \<Rightarrow> xs \<noteq> [] | JObj d \<Rightarrow> d \<noteq> [])"

text \<open>A \<open>dict\<close> of strings is a list of pairs with distinct keys; \<open>fields - expected\<close> and its sorted
  rendering.\<close>

definition sorted_diff :: "ustr list \<Rightarrow> ustr list \<Rightarrow> ustr list" where
  "sorted_diff xs ys = sort (remdups (filter (\<lambda>x. x \<notin> set ys) xs))"

lemma sorted_diff_Nil: "sorted_diff xs ys = [] \<longleftrightarrow> set xs \<subseteq> set ys"
  by (auto simp: sorted_diff_def filter_empty_conv)

definition lookup_field :: "(ustr \<times> json) list \<Rightarrow> string \<Rightarrow> json res" where
  "lookup_field d name = or_raise KeyError (map_of d (lit name))"

abbreviation JText :: "string \<Rightarrow> json" where
  "JText s \<equiv> JStr (lit s)"

definition HEX_DIGITS :: "ustr" where
  "HEX_DIGITS = lit ''0123456789abcdef''"

end
