(* ===== verification/Ip.thy ===== *)
theory Ip
  imports PyText
begin

text \<open>
  \<open>ipaddress.ip_address\<close> of a string and \<open>str\<close> of the result, and the path normalisation of
  \<open>pathlib\<close>: the two library services the configuration rests on.
\<close>

datatype ip = IPv4 nat | IPv6 nat "ustr option"

definition ipv4_octet :: "ustr \<Rightarrow> nat option" where
  "ipv4_octet s =
     (if s = [] \<or> \<not> list_all is_digit s \<or> length s > 3 \<or> s \<noteq> [48] \<and> hd s = 48 then None
      else let n = int_of_digits s in if n > 255 then None else Some n)"

fun map_all :: "('a \<Rightarrow> 'b option) \<Rightarrow> 'a list \<Rightarrow> 'b list option" where
  "map_all f [] = Some []"
| "map_all f (x # xs) =
     (case f x of None \<Rightarrow> None | Some y \<Rightarrow> (case map_all f xs of None \<Rightarrow> None | Some ys \<Rightarrow> Some (y # ys)))"

definition ipv4_value :: "ustr \<Rightarrow> nat option" where
  "ipv4_value s =
     (if 47 \<in> set s then None
      else let octets = split_on 46 s in
           if length octets \<noteq> 4 then None else map_option (of_digs 256) (map_all ipv4_octet octets))"

definition ipv4_text :: "nat \<Rightarrow> ustr" where
  "ipv4_text n = join_with [46] (map (\<lambda>d. int_text (int d)) (pad_digs 4 (digs 256 n)))"

definition hextet :: "ustr \<Rightarrow> nat option" where
  "hextet s =
     (if s = [] \<or> length s > 4 then None else map_option (of_digs 16) (map_all hex_value s))"

definition hextet_text :: "nat \<Rightarrow> ustr" where
  "hextet_text n = map hex_code (digs 16 n)"

text \<open>The parts between the colons, with an IPv4 suffix turned into two hexadecimal parts.\<close>

definition ipv6_parts :: "ustr \<Rightarrow> ustr list option" where
  "ipv6_parts s =
     (let parts = split_on 58 s in
      if s = [] \<or> length s > 45 \<or> length parts < 3 then None
      else if 46 \<in> set (last parts)
      then map_option (\<lambda>v. butlast parts @ [hextet_text (v div 65536), hextet_text (v mod 65536)]) (ipv4_value (last parts))
      else Some parts)"

text \<open>The parts before and after the double colon, as the two counts of the library.\<close>

definition ipv6_layout :: "ustr list \<Rightarrow> (nat \<times> nat) option" where
  "ipv6_layout parts =
     (if length parts > 9 then None
      else case filter (\<lambda>i. parts ! i = []) [1..<length parts - 1] of
        [] \<Rightarrow> if length parts \<noteq> 8 \<or> hd parts = [] \<or> last parts = [] then None else Some (8, 0)
      | [skip_index] \<Rightarrow>
          (let parts_hi = (if hd parts = [] then skip_index - 1 else skip_index);
               parts_lo = (if last parts = [] then length parts - skip_index - 2 else length parts - skip_index - 1)
           in if hd parts = [] \<and> parts_hi \<noteq> 0 \<or> last parts = [] \<and> parts_lo \<noteq> 0 \<or> parts_hi + parts_lo > 7
              then None else Some (parts_hi, parts_lo))
      | _ \<Rightarrow> None)"

definition ipv6_value :: "ustr \<Rightarrow> nat option" where
  "ipv6_value s =
     (case ipv6_parts s of
        None \<Rightarrow> None
      | Some parts \<Rightarrow>
          (case ipv6_layout parts of
             None \<Rightarrow> None
           | Some (hi, lo) \<Rightarrow>
               (case (map_all hextet (take hi parts), map_all hextet (drop (length parts - lo) parts)) of
                  (Some hs, Some ls) \<Rightarrow> Some (of_digs 65536 (hs @ replicate (8 - (hi + lo)) 0 @ ls))
                | _ \<Rightarrow> None)))"

text \<open>The longest run of zero parts, the first among equals: its start and length.\<close>

fun zero_run :: "nat list \<Rightarrow> nat \<Rightarrow> nat \<Rightarrow> nat \<times> nat \<Rightarrow> nat \<times> nat" where
  "zero_run [] index len best = best"
| "zero_run (h # hs) index len best =
     (if h = 0
      then zero_run hs (Suc index) (Suc len) (if Suc len > snd best then (index - len, Suc len) else best)
      else zero_run hs (Suc index) 0 best)"

definition compress_hextets :: "nat list \<Rightarrow> ustr list" where
  "compress_hextets hs =
     (let (start, len) = zero_run hs 0 0 (0, 0); ts = map hextet_text hs in
      if len > 1
      then (if start = 0 then [[]] else []) @ take start ts @ [[]] @ drop (start + len) ts
             @ (if start + len = length hs then [[]] else [])
      else ts)"

definition ipv6_text :: "nat \<Rightarrow> ustr" where
  "ipv6_text n = join_with [58] (compress_hextets (pad_digs 8 (digs 65536 n)))"

definition ip_address :: "ustr \<Rightarrow> ip option" where
  "ip_address s =
     (case ipv4_value s of
        Some n \<Rightarrow> Some (IPv4 n)
      | None \<Rightarrow>
          if 47 \<in> set s then None
          else if 37 \<notin> set s then map_option (\<lambda>n. IPv6 n None) (ipv6_value s)
          else let addr = takeWhile (\<lambda>c. c \<noteq> 37) s; scope_id = drop (Suc (length addr)) s in
               if scope_id = [] \<or> 37 \<in> set scope_id then None
               else map_option (\<lambda>n. IPv6 n (Some scope_id)) (ipv6_value addr))"

text \<open>An IPv4-mapped address is shown with its last four bytes in dotted form.\<close>

fun ip_text :: "ip \<Rightarrow> ustr" where
  "ip_text (IPv4 n) = ipv4_text n"
| "ip_text (IPv6 n scope) =
     (if n div 2 ^ 32 = 65535 then ipv6_text 65535 @ [58] @ ipv4_text (n mod 2 ^ 32) else ipv6_text n)
     @ (case scope of None \<Rightarrow> [] | Some s \<Rightarrow> 37 # s)"

subsection \<open>Paths\<close>

definition is_absolute :: "ustr \<Rightarrow> bool" where
  "is_absolute s \<longleftrightarrow> take 1 s = [47]"

definition posix_path :: "ustr \<Rightarrow> ustr" where
  "posix_path s =
     (let root = (if take 1 s \<noteq> [47] then [] else if take 2 s = [47, 47] \<and> take 3 s \<noteq> [47, 47, 47] then [47, 47] else [47]);
          parts = filter (\<lambda>x. x \<noteq> [] \<and> x \<noteq> [46]) (split_on 47 s);
          text = root @ join_with [47] parts
      in if text = [] then [46] else text)"

end
