(* ===== verification/Ttlv.thy ===== *)
theory Ttlv
  imports Bytes Errors
begin

text \<open>
  The TTLV codec of \<open>atlaso/app/kmip/ttlv.py\<close>: the node type, child access, the encoder, the
  bounded recursive decoder and the tag allow-list check. The main results are that the decoder
  inverts the encoder, that it accepts only canonical encodings, and that everything it accepts
  lies within the nesting and node-count bounds.
\<close>

definition MAX_MESSAGE_BYTES :: nat where "MAX_MESSAGE_BYTES = 1048576"
definition MAX_NESTING_DEPTH :: nat where "MAX_NESTING_DEPTH = 16"
definition MAX_NODE_COUNT :: nat where "MAX_NODE_COUNT = 4096"

datatype ttlv_type =
    STRUCTURE
  | INTEGER
  | LONG_INTEGER
  | BIG_INTEGER
  | ENUMERATION
  | BOOLEAN
  | TEXT_STRING
  | BYTE_STRING
  | DATE_TIME
  | INTERVAL

fun type_code :: "ttlv_type \<Rightarrow> nat" where
  "type_code STRUCTURE = 1"
| "type_code INTEGER = 2"
| "type_code LONG_INTEGER = 3"
| "type_code BIG_INTEGER = 4"
| "type_code ENUMERATION = 5"
| "type_code BOOLEAN = 6"
| "type_code TEXT_STRING = 7"
| "type_code BYTE_STRING = 8"
| "type_code DATE_TIME = 9"
| "type_code INTERVAL = 10"

text \<open>\<open>TtlvType(n)\<close>: the member with that value, or ValueError.\<close>

definition type_of_code :: "nat \<Rightarrow> ttlv_type option" where
  "type_of_code n =
     (if n = 1 then Some STRUCTURE else if n = 2 then Some INTEGER
      else if n = 3 then Some LONG_INTEGER else if n = 4 then Some BIG_INTEGER
      else if n = 5 then Some ENUMERATION else if n = 6 then Some BOOLEAN
      else if n = 7 then Some TEXT_STRING else if n = 8 then Some BYTE_STRING
      else if n = 9 then Some DATE_TIME else if n = 10 then Some INTERVAL else None)"

lemma type_of_code_type_code [simp]: "type_of_code (type_code t) = Some t"
  by (cases t) (simp_all add: type_of_code_def)

lemma type_code_type_of_code: "type_of_code n = Some t \<Longrightarrow> type_code t = n"
  by (auto simp: type_of_code_def split: if_splits)

lemma type_code_less [simp]: "type_code t < 256"
  by (cases t) simp_all

text \<open>A node; its value is a tuple of nodes, an int, a bool, a str or bytes, whatever its type says.\<close>

datatype ttlv = Ttlv (tag: int) (ty: ttlv_type) (val: ttlv_value)
  and ttlv_value =
    VTuple "ttlv list"
  | VInt int
  | VBool bool
  | VStr ustr
  | VBytes bytes

definition children :: "ttlv \<Rightarrow> ttlv list res" where
  "children node =
     (if ty node \<noteq> STRUCTURE then Inl (TtlvError ''TTLV node is not a structure.'')
      else case val node of
          VTuple cs \<Rightarrow> Inr cs
        | _ \<Rightarrow> Inl AssertionError)"

definition children_tag :: "ttlv \<Rightarrow> int \<Rightarrow> ttlv list res" where
  "children_tag node t = bindE (children node) (\<lambda>cs. Inr (filter (\<lambda>c. tag c = t) cs))"

text \<open>\<open>child(tag, required=...)\<close>.\<close>

definition child :: "ttlv \<Rightarrow> int \<Rightarrow> bool \<Rightarrow> ttlv option res" where
  "child node t required =
     bindE (children_tag node t) (\<lambda>matches.
       if 1 < length matches
       then Inl (TtlvError (''TTLV tag '' @ hex08 t @ '' must not be duplicated.''))
       else case matches of
           [] \<Rightarrow> if required then Inl (TtlvError (''TTLV tag '' @ hex08 t @ '' is required.''))
                else Inr None
         | m # _ \<Rightarrow> Inr (Some m))"

definition structure_node :: "int \<Rightarrow> ttlv list \<Rightarrow> ttlv" where
  "structure_node t cs = Ttlv t STRUCTURE (VTuple cs)"

definition integer :: "int \<Rightarrow> int \<Rightarrow> ttlv" where
  "integer t v = Ttlv t INTEGER (VInt v)"

definition enumeration :: "int \<Rightarrow> int \<Rightarrow> ttlv" where
  "enumeration t v = Ttlv t ENUMERATION (VInt v)"

definition boolean :: "int \<Rightarrow> bool \<Rightarrow> ttlv" where
  "boolean t v = Ttlv t BOOLEAN (VBool v)"

definition text_string :: "int \<Rightarrow> ustr \<Rightarrow> ttlv" where
  "text_string t v = Ttlv t TEXT_STRING (VStr v)"

definition byte_string :: "int \<Rightarrow> bytes \<Rightarrow> ttlv" where
  "byte_string t v = Ttlv t BYTE_STRING (VBytes v)"

definition date_time :: "int \<Rightarrow> int \<Rightarrow> ttlv" where
  "date_time t v = Ttlv t DATE_TIME (VInt v)"

lemmas ttlv_builders = structure_node_def integer_def enumeration_def boolean_def text_string_def
  byte_string_def date_time_def

definition pad_len :: "nat \<Rightarrow> nat" where
  "pad_len n = (8 - n mod 8) mod 8"

text \<open>\<open>encode\<close> and \<open>_encoded_value\<close> call each other, as in the source.\<close>

fun encode :: "ttlv \<Rightarrow> bytes res"
  and encoded_value :: "ttlv_type \<Rightarrow> ttlv_value \<Rightarrow> bytes res" where
  "encode (Ttlv t y v) =
     (if t < 4325376 \<or> t > 4390911 then Inl (TtlvError ''Only standard KMIP tags are supported.'')
      else bindE (encoded_value y v) (\<lambda>value.
        if length value > MAX_MESSAGE_BYTES
        then Inl (TtlvError ''TTLV value exceeds the maximum size.'')
        else Inr (to_be 3 (nat t) @ [byte_of (type_code y)] @ to_be 4 (length value)
                    @ value @ replicate (pad_len (length value)) 0)))"
| "encoded_value y v =
     (if y = STRUCTURE
      then (case v of
          VTuple cs \<Rightarrow> bindE (mapE encode cs) (\<lambda>parts. Inr (concat parts))
        | _ \<Rightarrow> Inl (TtlvError ''TTLV structure value is invalid.''))
      else if y \<in> {INTEGER, ENUMERATION, INTERVAL}
      then (case v of
          VInt i \<Rightarrow> or_raise StructError (pack_signed 4 i)
        | _ \<Rightarrow> Inl (TtlvError ''TTLV 32-bit value is invalid.''))
      else if y \<in> {LONG_INTEGER, DATE_TIME}
      then (case v of
          VInt i \<Rightarrow> or_raise StructError (pack_signed 8 i)
        | _ \<Rightarrow> Inl (TtlvError ''TTLV 64-bit value is invalid.''))
      else if y = BOOLEAN
      then (case v of
          VBool b \<Rightarrow> or_raise StructError (pack_signed 8 (if b then 1 else 0))
        | _ \<Rightarrow> Inl (TtlvError ''TTLV boolean value is invalid.''))
      else if y = TEXT_STRING
      then (case v of
          VStr s \<Rightarrow> or_raise UnicodeEncodeError (utf8_encode s)
        | _ \<Rightarrow> Inl (TtlvError ''TTLV text value is invalid.''))
      else (case v of
          VBytes b \<Rightarrow> Inr b
        | _ \<Rightarrow> Inl (TtlvError ''TTLV byte value is invalid.'')))"

text \<open>The branches of \<open>_decode_one\<close> for a value that is not a structure.\<close>

definition decode_scalar :: "ttlv_type \<Rightarrow> nat \<Rightarrow> bytes \<Rightarrow> ttlv_value res" where
  "decode_scalar data_type len raw =
     (if data_type \<in> {INTEGER, ENUMERATION, INTERVAL}
      then (if len \<noteq> 4 then Inl (TtlvError ''TTLV 32-bit type must have length 4.'')
            else Inr (VInt (unpack_signed raw)))
      else if data_type \<in> {LONG_INTEGER, DATE_TIME}
      then (if len \<noteq> 8 then Inl (TtlvError ''TTLV 64-bit type must have length 8.'')
            else Inr (VInt (unpack_signed raw)))
      else if data_type = BOOLEAN
      then (if len \<noteq> 8 then Inl (TtlvError ''TTLV boolean must have length 8.'')
            else let numeric = unpack_signed raw in
                 if numeric \<notin> {0, 1} then Inl (TtlvError ''TTLV boolean must be zero or one.'')
                 else Inr (VBool (numeric \<noteq> 0)))
      else if data_type = TEXT_STRING
      then (case utf8_decode raw of
          None \<Rightarrow> Inl (TtlvError ''TTLV text string is not valid UTF-8.'')
        | Some s \<Rightarrow> Inr (VStr s))
      else Inr (VBytes raw))"

text \<open>
  \<open>_decode_one\<close>. The mutable node counter of \<open>_DecodeState\<close> is an argument and a result; the
  \<open>while\<close> loop over the children of a structure is \<open>decode_children\<close>.
\<close>

function (sequential) decode_one :: "bytes \<Rightarrow> nat \<Rightarrow> nat \<Rightarrow> nat \<Rightarrow> (ttlv \<times> nat \<times> nat) res"
  and decode_children :: "bytes \<Rightarrow> nat \<Rightarrow> nat \<Rightarrow> nat \<Rightarrow> (ttlv list \<times> nat) res" where
  "decode_one data offset depth nodes =
     (if depth > MAX_NESTING_DEPTH
      then Inl (TtlvError ''TTLV nesting exceeds the maximum depth.'')
      else if offset + 8 > length data then Inl (TtlvError ''TTLV header is truncated.'')
      else let t = from_be (take 3 (drop offset data)) in
      if t < 4325376 \<or> t > 4390911
      then Inl (TtlvError ''TTLV contains a non-standard KMIP tag.'')
      else case type_of_code (unat (data ! (offset + 3))) of
        None \<Rightarrow> Inl (TtlvError ''TTLV contains an unsupported type.'')
      | Some data_type \<Rightarrow>
      let len = from_be (take 4 (drop (offset + 4) data)) in
      if len > MAX_MESSAGE_BYTES then Inl (TtlvError ''TTLV value exceeds the maximum size.'')
      else let value_start = offset + 8;
               value_end = value_start + len;
               next_offset = value_start + (len + pad_len len) in
      if next_offset > length data then Inl (TtlvError ''TTLV value is truncated.'')
      else if list_ex (\<lambda>b. b \<noteq> 0) (take (next_offset - value_end) (drop value_end data))
      then Inl (TtlvError ''TTLV padding must be zero.'')
      else if nodes + 1 > MAX_NODE_COUNT
      then Inl (TtlvError ''TTLV node count exceeds the maximum.'')
      else let raw = take len (drop value_start data) in
      bindE
        (if data_type = STRUCTURE
         then bindE (decode_children raw 0 (depth + 1) (nodes + 1))
                (\<lambda>(cs, nodes'). Inr (VTuple cs, nodes'))
         else bindE (decode_scalar data_type len raw) (\<lambda>v. Inr (v, nodes + 1)))
        (\<lambda>(value, nodes'). Inr (Ttlv (int t) data_type value, next_offset, nodes')))"
| "decode_children raw child_offset depth nodes =
     (if child_offset < length raw
      then bindE (decode_one raw child_offset depth nodes) (\<lambda>(child, child_offset', nodes').
             bindE (decode_children raw child_offset' depth nodes') (\<lambda>(cs, nodes'').
               Inr (child # cs, nodes'')))
      else Inr ([], nodes))"
  by pat_completeness auto

text \<open>
  Every decoded node ends at least eight bytes further on, which is what makes the loop over the
  children stop.
\<close>

lemma decode_one_advances_dom:
  assumes "decode_one_decode_children_dom (Inl (data, offset, depth, nodes))"
    and "decode_one data offset depth nodes = Inr (n, offset', nodes')"
  shows "offset + 8 \<le> offset' \<and> offset' \<le> length data"
  using assms by (auto simp: decode_one.psimps Let_def bindE_Inr_iff split: if_splits option.splits)

termination decode_one
proof (relation "measure (\<lambda>x. case x of Inl (data, offset, _) \<Rightarrow> 2 * (length data - offset)
    | Inr (raw, offset, _) \<Rightarrow> 2 * (length raw - offset) + 1)", goal_cases)
  case 1
  then show ?case by simp
next
  case 2
  then show ?case by auto
next
  case 3
  then show ?case by auto
next
  case 4
  then show ?case by (auto dest!: decode_one_advances_dom)
qed

declare decode_one.simps [simp del] decode_children.simps [simp del]
declare encode.simps [simp del] encoded_value.simps [simp del]

definition decode :: "bytes \<Rightarrow> ttlv res" where
  "decode data =
     (if data = [] then Inl (TtlvError ''TTLV message is empty.'')
      else if length data > MAX_MESSAGE_BYTES + 8
      then Inl (TtlvError ''TTLV message exceeds the maximum size.'')
      else bindE (decode_one data 0 0 0) (\<lambda>(node, offset, nodes).
        if offset \<noteq> length data then Inl (TtlvError ''TTLV message contains trailing data.'')
        else Inr node))"

text \<open>\<open>", ".join(...)\<close> over the rendered tags.\<close>

fun join_comma :: "string list \<Rightarrow> string" where
  "join_comma [] = []"
| "join_comma [x] = x"
| "join_comma (x # y # xs) = x @ '', '' @ join_comma (y # xs)"

definition assert_only_tags :: "ttlv \<Rightarrow> int list \<Rightarrow> unit res" where
  "assert_only_tags node allowed =
     bindE (children node) (\<lambda>cs.
       let unexpected = sort (remdups (filter (\<lambda>t. t \<notin> set allowed) (map tag cs))) in
       if unexpected \<noteq> []
       then Inl (TtlvError (''TTLV structure contains unsupported tags: ''
                   @ join_comma (map hex08 unexpected) @ ''.''))
       else Inr ())"

subsection \<open>Nesting depth and node count\<close>

fun node_depth :: "ttlv \<Rightarrow> nat" where
  "node_depth (Ttlv t y v) =
     (case v of VTuple cs \<Rightarrow> foldr max (map (\<lambda>c. Suc (node_depth c)) cs) 0 | _ \<Rightarrow> 0)"

fun node_count :: "ttlv \<Rightarrow> nat" where
  "node_count (Ttlv t y v) = Suc (case v of VTuple cs \<Rightarrow> sum_list (map node_count cs) | _ \<Rightarrow> 0)"

declare node_depth.simps [simp del] node_count.simps [simp del]

lemma foldr_max_le: "foldr max xs (0 :: nat) \<le> n \<longleftrightarrow> (\<forall>x \<in> set xs. x \<le> n)"
  by (induction xs) auto

lemma node_depth_tuple_le:
  "node_depth (Ttlv t y (VTuple cs)) \<le> n \<longleftrightarrow> (\<forall>c \<in> set cs. Suc (node_depth c) \<le> n)"
  by (simp add: node_depth.simps foldr_max_le)

subsection \<open>Scalar values\<close>

lemma decode_scalar_encoded_value:
  assumes "y \<noteq> STRUCTURE" and "encoded_value y v = Inr raw"
  shows "decode_scalar y (length raw) raw = Inr v"
proof -
  have u: "0 < k \<Longrightarrow> pack_signed k i = Some raw \<Longrightarrow> unpack_signed raw = i" for k i
    by (rule unpack_pack_signed)
  note u = u [of 4, simplified] u [of 8, simplified]
  from assms show ?thesis
    by (cases y; cases v)
      (auto simp: encoded_value.simps decode_scalar_def length_pack_signed utf8_decode_encode Let_def
        dest: u split: if_splits)
qed

lemma encoded_value_decode_scalar:
  assumes "y \<noteq> STRUCTURE" and "decode_scalar y (length raw) raw = Inr v"
  shows "encoded_value y v = Inr raw"
proof -
  have b: "pack_signed 8 (if unpack_signed raw \<noteq> 0 then 1 else 0) = Some raw"
    if "length raw = 8" "unpack_signed raw = 0 \<or> unpack_signed raw = 1"
    using that pack_unpack_signed [of raw 8] by auto
  show ?thesis using assms b
    by (cases y) (auto simp: encoded_value.simps decode_scalar_def pack_unpack_signed
      utf8_encode_decode Let_def split: if_splits option.splits)
qed

subsection \<open>The decoder inverts the encoder\<close>

lemma encode_header:
  assumes "encode (Ttlv t y v) = Inr bs"
  obtains raw where "4325376 \<le> t" "t \<le> 4390911" "encoded_value y v = Inr raw"
    "length raw \<le> MAX_MESSAGE_BYTES"
    "bs = to_be 3 (nat t) @ [byte_of (type_code y)] @ to_be 4 (length raw)
            @ raw @ replicate (pad_len (length raw)) 0"
    "length bs = 8 + (length raw + pad_len (length raw))"
  using assms by (auto simp: encode.simps bindE_Inr_iff split: if_splits)

text \<open>The fields a header written by the encoder is read back as.\<close>

lemma decode_header_fields:
  assumes data: "data = pre @ (to_be 3 t @ [byte_of (type_code y)] @ to_be 4 len @ raw @ pad) @ post"
    and off: "offset = length pre" and len: "length raw = len" and plen: "length pad = pad_len len"
    and t: "t < 256 ^ 3" and l: "len < 256 ^ 4"
  shows "from_be (take 3 (drop offset data)) = t" "type_of_code (unat (data ! (offset + 3))) = Some y"
    "from_be (take 4 (drop (offset + 4) data)) = len"
    "take len (drop (offset + 8) data) = raw"
    "take (pad_len len) (drop (offset + 8 + len) data) = pad"
    "offset + 8 + (len + pad_len len) \<le> length data"
proof -
  have d: "drop offset data = to_be 3 t @ [byte_of (type_code y)] @ to_be 4 len @ raw @ pad @ post"
    by (simp add: data off)
  show "from_be (take 3 (drop offset data)) = t" using t by (simp add: d)
  have "data ! (offset + 3) = drop offset data ! 3"
    by (simp add: data off)
  then show "type_of_code (unat (data ! (offset + 3))) = Some y"
    by (simp add: d nth_append)
  have "drop (offset + k) data = drop k (drop offset data)" for k
    by (simp add: add.commute)
  note e = this
  have e8: "drop (offset + 8) data = raw @ pad @ post"
    by (simp add: e [of 8] d)
  show "from_be (take 4 (drop (offset + 4) data)) = len"
    using l by (simp add: e [of 4] d)
  show "take len (drop (offset + 8) data) = raw"
    using len by (simp add: e8)
  have "drop (offset + 8 + len) data = pad @ post"
    using e8 len by (metis append_eq_conv_conj drop_drop add.commute)
  then show "take (pad_len len) (drop (offset + 8 + len) data) = pad"
    using plen by simp
  show "offset + 8 + (len + pad_len len) \<le> length data"
    using len plen by (simp add: data off)
qed


lemma no_nonzero_padding: "\<not> list_ex (\<lambda>b :: byte. b \<noteq> 0) (replicate k 0)"
  by (induction k) simp_all

text \<open>What the decoder does on an encoded node, at any offset of any buffer.\<close>

definition decodes_at :: "ttlv \<Rightarrow> bool" where
  "decodes_at n \<longleftrightarrow> (\<forall>bs pre post depth nodes. encode n = Inr bs
     \<longrightarrow> depth + node_depth n \<le> MAX_NESTING_DEPTH \<longrightarrow> nodes + node_count n \<le> MAX_NODE_COUNT
     \<longrightarrow> decode_one (pre @ bs @ post) (length pre) depth nodes
          = Inr (n, length pre + length bs, nodes + node_count n))"

lemma encode_length_ge: "encode n = Inr bs \<Longrightarrow> 8 \<le> length bs"
  by (cases n) (auto elim: encode_header)

lemma decode_children_encoded:
  assumes "mapE encode cs = Inr parts" and "\<And>c. c \<in> set cs \<Longrightarrow> decodes_at c"
    and "\<And>c. c \<in> set cs \<Longrightarrow> depth + node_depth c \<le> MAX_NESTING_DEPTH"
    and "nodes + sum_list (map node_count cs) \<le> MAX_NODE_COUNT"
  shows "decode_children (pre @ concat parts) (length pre) depth nodes
           = Inr (cs, nodes + sum_list (map node_count cs))"
  using assms
proof (induction cs arbitrary: parts pre nodes)
  case Nil
  then show ?case by (simp add: decode_children.simps)
next
  case (Cons c cs)
  from Cons.prems(1) obtain bs rest where bs: "encode c = Inr bs" and rest: "mapE encode cs = Inr rest"
    and parts: "parts = bs # rest"
    by (auto simp: bindE_Inr_iff)
  have "decodes_at c" by (rule Cons.prems(2)) simp
  then have one: "decode_one (pre @ bs @ concat rest) (length pre) depth nodes
      = Inr (c, length pre + length bs, nodes + node_count c)"
    unfolding decodes_at_def using bs Cons.prems(3) [of c] Cons.prems(4) by simp
  have all: "decode_children ((pre @ bs) @ concat rest) (length (pre @ bs)) depth (nodes + node_count c)
      = Inr (cs, nodes + node_count c + sum_list (map node_count cs))"
    using Cons.prems by (intro Cons.IH [OF rest]) auto
  have "bs \<noteq> []" using encode_length_ge [OF bs] by auto
  then show ?case
    using one all
    by (subst decode_children.simps) (simp add: parts add.assoc)
qed

lemma encode_decodes_at: "decodes_at n"
proof (induction n rule: measure_induct_rule [of size])
  case (less n)
  obtain t y v where n: "n = Ttlv t y v" by (cases n)
  show ?case
    unfolding decodes_at_def
  proof (intro allI impI)
    fix bs pre post :: bytes and depth nodes
    assume enc: "encode n = Inr bs" and dep: "depth + node_depth n \<le> MAX_NESTING_DEPTH"
      and cnt: "nodes + node_count n \<le> MAX_NODE_COUNT"
    from enc obtain raw where t: "4325376 \<le> t" "t \<le> 4390911" and ev: "encoded_value y v = Inr raw"
      and small: "length raw \<le> MAX_MESSAGE_BYTES"
      and bs: "bs = to_be 3 (nat t) @ [byte_of (type_code y)] @ to_be 4 (length raw)
            @ raw @ replicate (pad_len (length raw)) 0"
      and lbs: "length bs = 8 + (length raw + pad_len (length raw))"
      unfolding n by (rule encode_header)
    have ml: "length raw < 256 ^ 4" using small by (simp add: MAX_MESSAGE_BYTES_def)
    have tl: "nat t < 256 ^ 3" using t by simp
    note f = decode_header_fields [of "pre @ bs @ post" pre "nat t" y "length raw" raw
        "replicate (pad_len (length raw)) 0" post "length pre", OF _ refl refl _ tl ml]
    have fields: "from_be (take 3 (drop (length pre) (pre @ bs @ post))) = nat t"
      "type_of_code (unat ((pre @ bs @ post) ! (length pre + 3))) = Some y"
      "from_be (take 4 (drop (length pre + 4) (pre @ bs @ post))) = length raw"
      "take (length raw) (drop (length pre + 8) (pre @ bs @ post)) = raw"
      "take (pad_len (length raw)) (drop (length pre + 8 + length raw) (pre @ bs @ post))
         = replicate (pad_len (length raw)) 0"
      "length pre + 8 + (length raw + pad_len (length raw)) \<le> length (pre @ bs @ post)"
      by (rule f; simp add: bs)+
    have valres: "(if y = STRUCTURE
         then bindE (decode_children raw 0 (depth + 1) (nodes + 1)) (\<lambda>(cs, nodes'). Inr (VTuple cs, nodes'))
         else bindE (decode_scalar y (length raw) raw) (\<lambda>v. Inr (v, nodes + 1)))
       = Inr (v, nodes + node_count n)"
    proof (cases "y = STRUCTURE")
      case True
      with ev obtain cs parts where v: "v = VTuple cs" and parts: "mapE encode cs = Inr parts"
        and raw: "raw = concat parts"
        by (auto simp: encoded_value.simps bindE_Inr_iff split: ttlv_value.splits)
      have "decodes_at c" if "c \<in> set cs" for c
        using size_list_estimation' [OF that order_refl, of size]
        by (intro less.IH) (simp add: n v)
      moreover have "depth + 1 + node_depth c \<le> MAX_NESTING_DEPTH" if "c \<in> set cs" for c
      proof -
        have "node_depth n \<le> MAX_NESTING_DEPTH - depth" using dep by simp
        then have "Suc (node_depth c) \<le> MAX_NESTING_DEPTH - depth"
          using that unfolding n v node_depth_tuple_le by blast
        then show ?thesis by simp
      qed
      ultimately have "decode_children ([] @ concat parts) (length ([] :: bytes)) (depth + 1) (nodes + 1)
          = Inr (cs, nodes + 1 + sum_list (map node_count cs))"
        using cnt by (intro decode_children_encoded [OF parts]) (auto simp: n v node_count.simps)
      then show ?thesis using True by (simp add: raw v n node_count.simps)
    next
      case False
      then have sc: "decode_scalar y (length raw) raw = Inr v"
        using ev by (rule decode_scalar_encoded_value)
      from False ev have "\<nexists>cs. v = VTuple cs"
        by (auto simp: encoded_value.simps split: if_splits)
      then have "node_count n = 1"
        by (cases v) (simp_all add: n node_count.simps)
      with False sc show ?thesis by simp
    qed
    have c1: "nodes + 1 \<le> MAX_NODE_COUNT" using cnt by (simp add: n node_count.simps)
    have d1: "depth \<le> MAX_NESTING_DEPTH" using dep by simp
    have t1: "\<not> nat t < 4325376" "\<not> 4390911 < nat t" using t by auto
    show "decode_one (pre @ bs @ post) (length pre) depth nodes
        = Inr (n, length pre + length bs, nodes + node_count n)"
      using fields c1 d1 small t t1 valres lbs no_nonzero_padding [of "pad_len (length raw)"]
      by (subst decode_one.simps) (simp add: Let_def n)
  qed
qed


text \<open>The decoder accepts canonical encodings only, and within its bounds.\<close>

lemma to_be_from_be_slice: "length (take k (drop i xs)) = k \<Longrightarrow> to_be k (from_be (take k (drop i xs))) = take k (drop i xs)"
  by (rule to_be_from_be)

lemma slice_split: "take (m + n) (drop i xs) = take m (drop i xs) @ take n (drop (i + m) xs)"
  by (simp add: take_add add.commute)

lemma zero_padding: "\<not> list_ex (\<lambda>b. b \<noteq> 0) xs \<Longrightarrow> xs = replicate (length xs) 0"
  by (induction xs) simp_all

lemma header_canonical:
  assumes len: "offset + 8 + (len + pad_len len) \<le> length data"
    and t: "t = from_be (take 3 (drop offset data))"
    and y: "type_of_code (unat (data ! (offset + 3))) = Some y"
    and l: "len = from_be (take 4 (drop (offset + 4) data))"
    and pad: "\<not> list_ex (\<lambda>b. b \<noteq> 0) (take (pad_len len) (drop (offset + 8 + len) data))"
  shows "to_be 3 t @ [byte_of (type_code y)] @ to_be 4 len @ take len (drop (offset + 8) data)
           @ replicate (pad_len len) 0
         = take (8 + (len + pad_len len)) (drop offset data)"
proof -
  have "take (pad_len len) (drop (offset + 8 + len) data) = replicate (pad_len len) 0"
    using zero_padding [OF pad] len by simp
  moreover have "to_be 3 t = take 3 (drop offset data)"
    using len unfolding t by (intro to_be_from_be_slice) simp
  moreover have "to_be 4 len = take 4 (drop (offset + 4) data)"
    using len unfolding l by (intro to_be_from_be_slice) simp
  moreover have "[byte_of (type_code y)] = take 1 (drop (offset + 3) data)"
    using len type_code_type_of_code [OF y] by (simp add: take_Suc_conv_app_nth)
  moreover have "take (8 + (len + pad_len len)) (drop offset data)
     = take 3 (drop offset data) @ take 1 (drop (offset + 3) data) @ take 4 (drop (offset + 4) data)
         @ take len (drop (offset + 8) data) @ take (pad_len len) (drop (offset + 8 + len) data)"
    using slice_split [of 3 "1 + (4 + (len + pad_len len))" offset data]
      slice_split [of 1 "4 + (len + pad_len len)" "offset + 3" data]
      slice_split [of 4 "len + pad_len len" "offset + 4" data]
      slice_split [of len "pad_len len" "offset + 8" data]
    by (simp add: add.assoc add.commute [of 4 offset])
  ultimately show ?thesis by simp
qed

lemma decode_one_InrE:
  assumes "decode_one data offset depth nodes = Inr (n, offset', nodes')"
  obtains t y len v where "depth \<le> MAX_NESTING_DEPTH" "t = from_be (take 3 (drop offset data))"
    "4325376 \<le> t" "t \<le> 4390911"
    "type_of_code (unat (data ! (offset + 3))) = Some y"
    "len = from_be (take 4 (drop (offset + 4) data))" "len \<le> MAX_MESSAGE_BYTES"
    "offset + 8 + (len + pad_len len) \<le> length data"
    "\<not> list_ex (\<lambda>b. b \<noteq> 0) (take (pad_len len) (drop (offset + 8 + len) data))"
    "nodes + 1 \<le> MAX_NODE_COUNT" "n = Ttlv (int t) y v" "offset' = offset + 8 + (len + pad_len len)"
    "if y = STRUCTURE
     then \<exists>cs. v = VTuple cs
       \<and> decode_children (take len (drop (offset + 8) data)) 0 (depth + 1) (nodes + 1) = Inr (cs, nodes')
     else decode_scalar y len (take len (drop (offset + 8) data)) = Inr v \<and> nodes' = nodes + 1"
  using assms
  by (subst (asm) decode_one.simps)
    (auto simp: Let_def bindE_Inr_iff not_less split: if_splits option.splits)


lemma decode_canonical:
  "decode_one data offset depth nodes = Inr (n, offset', nodes') \<Longrightarrow>
     encode n = Inr (take (offset' - offset) (drop offset data)) \<and> offset \<le> offset' \<and> offset' \<le> length data
     \<and> depth + node_depth n \<le> MAX_NESTING_DEPTH \<and> nodes' = nodes + node_count n \<and> nodes' \<le> MAX_NODE_COUNT"
  "decode_children raw offset depth nodes = Inr (cs, nodes') \<Longrightarrow> nodes \<le> MAX_NODE_COUNT \<Longrightarrow>
     (\<exists>parts. mapE encode cs = Inr parts \<and> concat parts = drop offset raw)
     \<and> (\<forall>c \<in> set cs. depth + node_depth c \<le> MAX_NESTING_DEPTH)
     \<and> nodes' = nodes + sum_list (map node_count cs) \<and> nodes' \<le> MAX_NODE_COUNT"
proof (induction data offset depth nodes and raw offset depth nodes
    arbitrary: n offset' nodes' and cs nodes' rule: decode_one_decode_children.induct)
  case (1 data offset depth nodes)
  from "1.prems" show ?case
  proof (rule decode_one_InrE)
    fix t y len v
    assume depth: "depth \<le> MAX_NESTING_DEPTH" and t: "t = from_be (take 3 (drop offset data))"
      "4325376 \<le> t" "t \<le> 4390911"
      and y: "type_of_code (unat (data ! (offset + 3))) = Some y"
      and l: "len = from_be (take 4 (drop (offset + 4) data))" "len \<le> MAX_MESSAGE_BYTES"
      and len: "offset + 8 + (len + pad_len len) \<le> length data"
      and pad: "\<not> list_ex (\<lambda>b. b \<noteq> 0) (take (pad_len len) (drop (offset + 8 + len) data))"
      and nc: "nodes + 1 \<le> MAX_NODE_COUNT" and n: "n = Ttlv (int t) y v"
      and off: "offset' = offset + 8 + (len + pad_len len)"
      and v: "if y = STRUCTURE
       then \<exists>cs. v = VTuple cs
         \<and> decode_children (take len (drop (offset + 8) data)) 0 (depth + 1) (nodes + 1) = Inr (cs, nodes')
       else decode_scalar y len (take len (drop (offset + 8) data)) = Inr v \<and> nodes' = nodes + 1"
    let ?raw = "take len (drop (offset + 8) data)"
    have lraw: "length ?raw = len" using len by simp
    have "encoded_value y v = Inr ?raw \<and> depth + node_depth n \<le> MAX_NESTING_DEPTH
        \<and> nodes' = nodes + node_count n \<and> nodes' \<le> MAX_NODE_COUNT"
    proof (cases "y = STRUCTURE")
      case True
      with v obtain cs where cs: "v = VTuple cs"
        "decode_children ?raw 0 (depth + 1) (nodes + 1) = Inr (cs, nodes')" by auto
      have "(\<exists>parts. mapE encode cs = Inr parts \<and> concat parts = drop 0 ?raw)
          \<and> (\<forall>c \<in> set cs. depth + 1 + node_depth c \<le> MAX_NESTING_DEPTH)
          \<and> nodes' = nodes + 1 + sum_list (map node_count cs) \<and> nodes' \<le> MAX_NODE_COUNT"
        using "1.IH" [of t y len "offset + 8" "offset + 8 + len" "offset + 8 + (len + pad_len len)"
            ?raw cs nodes'] depth len t y l nc pad True cs(2) by (simp add: not_less)
      then show ?thesis
        using depth node_depth_tuple_le [of "int t" y cs "MAX_NESTING_DEPTH - depth"]
        by (auto simp: True cs(1) n encoded_value.simps node_count.simps)
    next
      case False
      with v have "decode_scalar y (length ?raw) ?raw = Inr v" and nn: "nodes' = nodes + 1"
        unfolding lraw by auto
      then have ev: "encoded_value y v = Inr ?raw"
        using False by (intro encoded_value_decode_scalar)
      have "\<nexists>cs. v = VTuple cs"
        using False ev by (auto simp: encoded_value.simps split: if_splits)
      then have "node_count n = 1" "node_depth n = 0"
        by (cases v; simp add: n node_count.simps node_depth.simps)+
      with ev nn nc depth show ?thesis by simp
    qed
    then show ?thesis
      using header_canonical [OF len t(1) y l(1) pad] t(2,3) l(2) lraw off len
      by (simp add: n encode.simps)
  qed
next
  case (2 raw offset depth nodes)
  show ?case
  proof (cases "offset < length raw")
    case False
    with "2.prems" show ?thesis by (subst (asm) decode_children.simps) auto
  next
    case True
    with "2.prems"(1) obtain c off2 n2 ds where
      one: "decode_one raw offset depth nodes = Inr (c, off2, n2)"
      and rest: "decode_children raw off2 depth n2 = Inr (ds, nodes')" and cs: "cs = c # ds"
      by (subst (asm) decode_children.simps) (auto simp: bindE_Inr_iff)
    note o = "2.IH"(1) [OF True one]
    then have "n2 \<le> MAX_NODE_COUNT" by simp
    note r = "2.IH"(2) [OF True one refl refl rest this]
    from r obtain parts where "mapE encode ds = Inr parts" "concat parts = drop off2 raw" by blast
    moreover have "take (off2 - offset) (drop offset raw) @ drop off2 raw = drop offset raw"
      using o by (metis add_diff_cancel_left' append_take_drop_id drop_drop le_add_diff_inverse2)
    ultimately show ?thesis using o r cs by auto
  qed
qed


lemma padded_bound: "len \<le> MAX_MESSAGE_BYTES \<Longrightarrow> len + pad_len len \<le> MAX_MESSAGE_BYTES"
proof -
  assume l: "len \<le> MAX_MESSAGE_BYTES"
  define q r where "q = len div 8" and "r = len mod 8"
  have len: "len = 8 * q + r" and r: "r < 8" by (simp_all add: q_def r_def)
  have "pad_len len = (8 - r) mod 8" by (simp add: pad_len_def r_def)
  with l len r show ?thesis
    by (cases "r = 0") (auto simp: MAX_MESSAGE_BYTES_def)
qed

lemma encode_length_le: "encode n = Inr bs \<Longrightarrow> length bs \<le> MAX_MESSAGE_BYTES + 8"
  using padded_bound by (cases n) (fastforce elim: encode_header)

lemma decode_encode:
  assumes "encode n = Inr bs" and "node_depth n \<le> MAX_NESTING_DEPTH" and "node_count n \<le> MAX_NODE_COUNT"
  shows "decode bs = Inr n"
proof -
  have "decode_one ([] @ bs @ []) (length ([] :: bytes)) 0 0 = Inr (n, length ([] :: bytes) + length bs, 0 + node_count n)"
    using encode_decodes_at [of n] assms unfolding decodes_at_def by (metis add_0)
  moreover have "bs \<noteq> []" using encode_length_ge [OF assms(1)] by auto
  ultimately show ?thesis using encode_length_le [OF assms(1)] by (simp add: decode_def)
qed

lemma decode_Inr:
  assumes "decode bs = Inr n"
  shows "encode n = Inr bs" and "node_depth n \<le> MAX_NESTING_DEPTH" and "node_count n \<le> MAX_NODE_COUNT"
proof -
  from assms obtain nodes where "decode_one bs 0 0 0 = Inr (n, length bs, nodes)"
    by (auto simp: decode_def bindE_Inr_iff split: if_splits)
  from decode_canonical(1) [OF this] show "encode n = Inr bs" and "node_depth n \<le> MAX_NESTING_DEPTH"
    and "node_count n \<le> MAX_NODE_COUNT" by simp_all
qed

text \<open>Nodes within the decoder's bounds and their wire form: a codec in both directions.\<close>

definition wire :: "ttlv \<Rightarrow> bytes option" where
  "wire n = (if node_depth n \<le> MAX_NESTING_DEPTH \<and> node_count n \<le> MAX_NODE_COUNT
     then (case encode n of Inl e \<Rightarrow> None | Inr bs \<Rightarrow> Some bs) else None)"

definition unwire :: "bytes \<Rightarrow> ttlv option" where
  "unwire bs = (case decode bs of Inl e \<Rightarrow> None | Inr n \<Rightarrow> Some n)"

interpretation ttlv: codec wire unwire
proof unfold_locales
  fix n bs
  assume "wire n = Some bs"
  then show "unwire bs = Some n"
    using decode_encode by (auto simp: wire_def unwire_def split: if_splits sum.splits)
next
  fix n bs
  assume "unwire bs = Some n"
  then have "decode bs = Inr n" by (auto simp: unwire_def split: sum.splits)
  from decode_Inr [OF this] show "wire n = Some bs" by (simp add: wire_def)
qed

lemma decode_errors:
  "decode_one data offset depth nodes = Inl e \<Longrightarrow> is_ttlv_error e"
  "decode_children raw offset depth nodes = Inl e \<Longrightarrow> is_ttlv_error e"
proof (induction data offset depth nodes and raw offset depth nodes
    arbitrary: e and e rule: decode_one_decode_children.induct)
  case (1 data offset depth nodes)
  have "decode_scalar y len raw = Inl e' \<Longrightarrow> is_ttlv_error e'" for y len raw e'
    by (auto simp: decode_scalar_def Let_def split: if_splits option.splits)
  with 1 show ?case
    unfolding decode_one.simps [of data offset depth nodes]
    by (auto simp: Let_def bindE_Inl_iff bindE_Inr_iff split: if_splits option.splits)
next
  case (2 raw offset depth nodes)
  then show ?case
    unfolding decode_children.simps [of raw offset depth nodes]
    by (auto simp: bindE_Inl_iff split: if_splits)
qed

text \<open>
  C19: the decoder accepts a byte string as a node exactly when the string is the encoding of that
  node and the node is nested at most 16 deep and has at most 4096 nodes.
\<close>

theorem decode_exact:
  "decode bs = Inr n \<longleftrightarrow>
     encode n = Inr bs \<and> node_depth n \<le> MAX_NESTING_DEPTH \<and> node_count n \<le> MAX_NODE_COUNT"
  using decode_encode decode_Inr by blast

text \<open>Whatever bytes it is given, the decoder returns a node or raises TtlvError.\<close>

theorem decode_total: "(\<exists>n. decode bs = Inr n) \<or> (\<exists>m. decode bs = Inl (TtlvError m))"
proof (cases "decode bs")
  case (Inl e)
  then have "is_ttlv_error e"
    by (auto simp: decode_def bindE_Inl_iff split: if_splits dest: decode_errors(1))
  then show ?thesis using Inl by (cases e) auto
next
  case (Inr n)
  then show ?thesis by simp
qed

end
