(* ===== verification/World.thy ===== *)
theory World
  imports Json "HOL-Library.Product_Lexorder"
begin

text \<open>
  What the key store acts on: the files of the operational directory, the SQLite database behind
  one of them, the store object of the running process, and the counters that number the draws
  from the operating system's random source and clock and the durable effects.

  Code outside the repository is an argument: \<open>env\<close> holds AES-GCM and SHA-256 of the
  \<open>cryptography\<close> and \<open>hashlib\<close> packages, the random source, the clock (as the text
  \<open>datetime.now(UTC).isoformat()\<close> gives, and the seconds of \<open>time.time()\<close>), the seconds a stored
  timestamp stands for, the Unicode tables, and the outcome of each durable effect. The laws the proofs use are the fields of \<open>env_ok\<close>.
\<close>

subsection \<open>The data of the store\<close>

text \<open>The dataclass \<open>StoredKey\<close>.\<close>

record stored_key =
  k_provider_id :: ustr
  k_key_id :: ustr
  k_algorithm :: ustr
  k_length :: int
  k_name :: "ustr option"
  k_state :: ustr
  k_created_at :: ustr
  k_activated_at :: "ustr option"
  k_custom_attributes :: "(ustr \<times> ustr) list"

text \<open>The dataclass \<open>_KekEnvelope\<close>.\<close>

record kek_envelope =
  e_kek :: bytes
  e_generation :: int
  e_commitment :: ustr
  e_pending_generation :: "int option"
  e_pending_commitment :: "ustr option"

text \<open>A row of the table \<open>wrapped_keys\<close>.\<close>

record row =
  r_provider_id :: ustr
  r_key_id :: ustr
  r_algorithm :: ustr
  r_key_length :: int
  r_name :: "ustr option"
  r_state :: ustr
  r_created_at :: ustr
  r_activated_at :: "ustr option"
  r_nonce :: bytes
  r_ciphertext :: bytes
  r_aad_json :: ustr

text \<open>The database file: whether the schema script has created the tables, and their rows.\<close>

record database =
  schema_ready :: bool
  store_metadata :: "(ustr \<times> ustr) list"
  wrapped_keys :: "row list"

text \<open>
  The operational directory: the database, the KEK envelope, the sealed recovery master, SQLite's
  \<open>-wal\<close> and \<open>-journal\<close> files, the public trust document of an imported archive, the names of all
  other entries, and whether every entry is a regular file with one link.
\<close>

record disk =
  d_db :: "database option"
  d_kek :: "bytes option"
  d_recovery :: "bytes option"
  d_journal :: bool
  d_rollback :: bool
  d_trust :: "json option"
  d_others :: "ustr list"
  d_plain :: bool

text \<open>The object: an instance of \<open>WrappedKeyStore\<close>.\<close>

record store =
  s_read_only :: bool
  s_master_key :: bytes
  s_kek :: bytes
  s_envelope :: kek_envelope

record world =
  w_disk :: disk
  w_self :: store
  w_draw :: nat
  w_io :: nat

subsection \<open>The environment\<close>

text \<open>
  The outcome of replacing the envelope file: it succeeds, raises before or after the rename, or
  the machine stops before or after the rename. The outcome of a commit: it succeeds, raises with
  the transaction still open, or the machine stops before or after the commit point.
\<close>

datatype write_fault = W_Ok | W_Fail | W_FailLate | W_Lost | W_LostLate

datatype commit_fault = C_Ok | C_Fail | C_Lost | C_LostLate

record env =
  aes_encrypt :: "bytes \<Rightarrow> bytes \<Rightarrow> bytes \<Rightarrow> bytes \<Rightarrow> bytes"
  aes_decrypt :: "bytes \<Rightarrow> bytes \<Rightarrow> bytes \<Rightarrow> bytes \<Rightarrow> bytes option"
  sha256 :: "bytes \<Rightarrow> bytes"
  urandom :: "nat \<Rightarrow> nat \<Rightarrow> bytes"
  now_iso :: "nat \<Rightarrow> ustr"
  unix_time :: "nat \<Rightarrow> int"
  iso_timestamp :: "ustr \<Rightarrow> int option"
  uni :: "nat \<Rightarrow> nat"
  json_other :: "bytes \<Rightarrow> ustr option"
  write_fault_at :: "nat \<Rightarrow> write_fault"
  commit_fault_at :: "nat \<Rightarrow> commit_fault"

text \<open>
  What the code relies on: AES-GCM opens what it sealed under the same key, nonce and associated
  data; a SHA-256 digest has 32 bytes; the random source returns the number of bytes asked for;
  the clock renders as Unicode text.
\<close>

definition env_ok :: "env \<Rightarrow> bool" where
  "env_ok env \<longleftrightarrow>
     (\<forall>k n p a. aes_decrypt env k n (aes_encrypt env k n p a) a = Some p)
     \<and> (\<forall>m. length (sha256 env m) = 32)
     \<and> (\<forall>i n. length (urandom env i n) = n)
     \<and> (\<forall>i. list_all is_scalar (now_iso env i))"

lemma env_okD:
  assumes "env_ok env"
  shows "aes_decrypt env k n (aes_encrypt env k n p a) a = Some p"
    "length (sha256 env m) = 32" "length (urandom env i j) = j" "list_all is_scalar (now_iso env i)"
  using assms by (auto simp: env_ok_def)

text \<open>No effect fails.\<close>

definition fault_free :: "env \<Rightarrow> bool" where
  "fault_free env \<longleftrightarrow> (\<forall>i. write_fault_at env i = W_Ok) \<and> (\<forall>i. commit_fault_at env i = C_Ok)"

lemma fault_freeD:
  "fault_free env \<Longrightarrow> write_fault_at env i = W_Ok" "fault_free env \<Longrightarrow> commit_fault_at env i = C_Ok"
  by (auto simp: fault_free_def)

subsection \<open>State and exceptions\<close>

text \<open>A computation on a state \<open>'s\<close>; those of the key store act on the world above.\<close>

type_synonym ('s, 'a) sm = "'s \<Rightarrow> 'a res \<times> 's"

type_synonym 'a m = "(world, 'a) sm"

named_theorems m_defs \<open>the operations of the state-and-exception monad\<close>

definition returnM :: "'a \<Rightarrow> ('s, 'a) sm" where
  "returnM x w = (Inr x, w)"

definition raiseM :: "exn \<Rightarrow> ('s, 'a) sm" where
  "raiseM e w = (Inl e, w)"

definition bindM :: "('s, 'a) sm \<Rightarrow> ('a \<Rightarrow> ('s, 'b) sm) \<Rightarrow> ('s, 'b) sm" where
  "bindM m f w = (case m w of (Inl e, w') \<Rightarrow> (Inl e, w') | (Inr x, w') \<Rightarrow> f x w')"

definition liftM :: "'a res \<Rightarrow> ('s, 'a) sm" where
  "liftM r w = (r, w)"

definition getM :: "('s \<Rightarrow> 'a) \<Rightarrow> ('s, 'a) sm" where
  "getM f w = (Inr (f w), w)"

definition putM :: "('s \<Rightarrow> 's) \<Rightarrow> ('s, unit) sm" where
  "putM f w = (Inr (), f w)"

definition guardM :: "bool \<Rightarrow> exn \<Rightarrow> ('s, unit) sm" where
  "guardM b e w = (if b then Inr () else Inl e, w)"

text \<open>\<open>try: m except: h\<close>, where \<open>h\<close> decides what it catches by re-raising the rest.\<close>

definition catchM :: "('s, 'a) sm \<Rightarrow> (exn \<Rightarrow> ('s, 'a) sm) \<Rightarrow> ('s, 'a) sm" where
  "catchM m h w = (case m w of (Inl e, w') \<Rightarrow> h e w' | (Inr x, w') \<Rightarrow> (Inr x, w'))"

text \<open>The next value of the random source or the clock.\<close>

definition drawM :: "(nat \<Rightarrow> 'a) \<Rightarrow> 'a m" where
  "drawM g w = (Inr (g (w_draw w)), w\<lparr>w_draw := Suc (w_draw w)\<rparr>)"

primrec mapM :: "('a \<Rightarrow> ('s, 'b) sm) \<Rightarrow> 'a list \<Rightarrow> ('s, 'b list) sm" where
  "mapM f [] = returnM []"
| "mapM f (x # xs) = bindM (f x) (\<lambda>y. bindM (mapM f xs) (\<lambda>ys. returnM (y # ys)))"

lemmas m_simps [m_defs] = returnM_def raiseM_def liftM_def getM_def putM_def guardM_def drawM_def

lemma bindM_cong [fundef_cong]:
  assumes "w = w'" and "m w' = m' w'" and "\<And>x v. m' w' = (Inr x, v) \<Longrightarrow> f x v = g x v"
  shows "bindM m f w = bindM m' g w'"
  using assms by (auto simp: bindM_def split: prod.splits sum.splits)

lemma bindM_run [simp]:
  "m w = (Inr x, w') \<Longrightarrow> bindM m f w = f x w'"
  "m w = (Inl e, w') \<Longrightarrow> bindM m f w = (Inl e, w')"
  by (simp_all add: bindM_def)

lemma bindM_steps [simp]:
  "bindM (returnM x) f w = f x w"
  "bindM (raiseM e) f w = (Inl e, w)"
  "bindM (getM g) f w = f (g w) w"
  "bindM (putM h) f' w = f' () (h w)"
  "bindM (liftM (Inr x)) f w = f x w"
  "bindM (liftM (Inl e)) f w = (Inl e, w)"
  "bindM (guardM True e) f' w = f' () w"
  "bindM (guardM False e) f' w = (Inl e, w)"
  "bindM (bindM m k) f w = bindM m (\<lambda>x. bindM (k x) f) w"
  by (simp_all add: bindM_def m_defs split: prod.splits sum.splits)

lemma bindM_draw [simp]:
  "bindM (drawM d) f w = f (d (w_draw w)) (w\<lparr>w_draw := Suc (w_draw w)\<rparr>)"
  by (simp add: bindM_def drawM_def)

lemma bindM_unit [simp]:
  "bindM (returnM x) f = f x"
  "bindM (liftM (Inr x)) f = f x"
  "bindM (guardM True e) f' = f' ()"
  by (simp_all add: fun_eq_iff)

lemma bindM_Inr_iff:
  "bindM m f w = (Inr y, w'') \<longleftrightarrow> (\<exists>x w'. m w = (Inr x, w') \<and> f x w' = (Inr y, w''))"
  by (auto simp: bindM_def split: prod.splits sum.splits)

lemma bindM_cases:
  assumes "bindM m f w = (r, w'')"
  obtains (raised) e where "m w = (Inl e, w'')" "r = Inl e"
  | (went_on) x w' where "m w = (Inr x, w')" "f x w' = (r, w'')"
  using assms by (auto simp: bindM_def split: prod.splits sum.splits)

subsection \<open>Invariants of a computation\<close>

text \<open>
  A property of the world that a computation keeps whatever its outcome: the rules follow the
  structure of the code. The locale is interpreted for each invariant of the store.
\<close>

definition keeps :: "('s \<Rightarrow> bool) \<Rightarrow> ('s, 'a) sm \<Rightarrow> bool" where
  "keeps I m \<longleftrightarrow> (\<forall>w. I w \<longrightarrow> I (snd (m w)))"

lemma keepsI: "(\<And>w r w'. I w \<Longrightarrow> m w = (r, w') \<Longrightarrow> I w') \<Longrightarrow> keeps I m"
  unfolding keeps_def by (metis prod.collapse)

lemma keepsD: "keeps I m \<Longrightarrow> m w = (r, w') \<Longrightarrow> I w \<Longrightarrow> I w'"
  unfolding keeps_def by (metis snd_conv)

lemma keep_return: "keeps I (returnM x)"
  by (simp add: keeps_def returnM_def)

lemma keep_raise: "keeps I (raiseM e)"
  by (simp add: keeps_def raiseM_def)

lemma keep_lift: "keeps I (liftM r)"
  by (simp add: keeps_def liftM_def)

lemma keep_get: "keeps I (getM f)"
  by (simp add: keeps_def getM_def)

lemma keep_guard: "keeps I (guardM b e)"
  by (simp add: keeps_def guardM_def)

lemma keep_bind: "keeps I m \<Longrightarrow> (\<And>x. keeps I (f x)) \<Longrightarrow> keeps I (bindM m f)"
  by (rule keepsI) (auto elim!: bindM_cases dest: keepsD)

lemma keep_catch: "keeps I m \<Longrightarrow> (\<And>e. keeps I (h e)) \<Longrightarrow> keeps I (catchM m h)"
  by (rule keepsI) (auto simp: catchM_def dest: keepsD split: prod.splits sum.splits)

lemma keep_if: "keeps I m \<Longrightarrow> keeps I m' \<Longrightarrow> keeps I (if b then m else m')"
  by simp

lemma keep_option: "keeps I m \<Longrightarrow> (\<And>x. keeps I (f x)) \<Longrightarrow> keeps I (case y of None \<Rightarrow> m | Some x \<Rightarrow> f x)"
  by (cases y) simp_all

lemma keep_map: "(\<And>x. keeps I (f x)) \<Longrightarrow> keeps I (mapM f xs)"
  by (induction xs) (auto intro: keep_return keep_bind)

lemma keep_prod: "(\<And>a b. keeps I (f a b)) \<Longrightarrow> keeps I (case x of (a, b) \<Rightarrow> f a b)"
  by (cases x) simp

lemma keep_put: "(\<And>w. I w \<Longrightarrow> I (f w)) \<Longrightarrow> keeps I (putM f)"
  by (simp add: keeps_def putM_def)

lemmas keep_rules = keep_return keep_raise keep_lift keep_get keep_guard keep_bind keep_catch keep_if
  keep_option keep_map keep_prod

text \<open>A computation that raises from every world with the property, and keeps the property.\<close>

definition refuses :: "(world \<Rightarrow> bool) \<Rightarrow> 'a m \<Rightarrow> bool" where
  "refuses I m \<longleftrightarrow> (\<forall>w. I w \<longrightarrow> (\<exists>e w'. m w = (Inl e, w') \<and> I w'))"

locale world_invariant =
  fixes I :: "world \<Rightarrow> bool"
  assumes draw_keeps: "I w \<Longrightarrow> I (w\<lparr>w_draw := n\<rparr>)"
begin

lemma keeps_draw: "keeps I (drawM g)"
  by (simp add: keeps_def drawM_def draw_keeps)

lemma refuses_bind: "keeps I m \<Longrightarrow> (\<And>x. refuses I (f x)) \<Longrightarrow> refuses I (bindM m f)"
  unfolding refuses_def keeps_def bindM_def by (fastforce split: prod.splits sum.splits)

lemma refuses_now: "refuses I m \<Longrightarrow> refuses I (bindM m f)"
  unfolding refuses_def bindM_def by fastforce

lemmas keeps_rules = keep_rules [of I] keeps_draw

end

end
