(* ===== verification/Config.thy ===== *)
theory Config
  imports Ip Ttlv World
begin

text \<open>
  The service configuration (\<open>atlaso/app/kmip/server.py\<close>): from the JSON document to the record the
  server runs on, with the mapping of client certificates to provider namespaces. Reading a
  certificate file and decoding it is a parameter: the DER bytes it holds, or None where the file
  cannot be read or is no certificate.
\<close>

definition CONFIG_FIELDS :: "ustr list" where
  "CONFIG_FIELDS = map lit [''schema_version'', ''enabled'', ''listen'', ''tls'', ''store'', ''limits'', ''providers'',
     ''interop_trace_path'']"

definition PROVIDER_FIELDS :: "ustr list" where
  "PROVIDER_FIELDS = map lit [''id'', ''name'', ''client_fingerprints'', ''client_certificate_paths'']"

record provider =
  p_id :: ustr
  p_name :: ustr
  p_client_fingerprints :: "ustr list"

record service_limits =
  max_request_bytes :: int
  max_connections :: int
  idle_timeout_seconds :: int
  max_requests_per_connection :: int

record service_config =
  c_enabled :: bool
  c_listen_addresses :: "ustr list"
  c_port :: int
  c_certificate_path :: ustr
  c_private_key_path :: ustr
  c_ca_path :: ustr
  c_database_path :: ustr
  c_kek_path :: ustr
  c_limits :: service_limits
  c_providers :: "provider list"
  c_interop_trace_path :: "ustr option"

text \<open>A dict comprehension: a later pair replaces an earlier one with the same key.\<close>

definition fingerprint_providers :: "service_config \<Rightarrow> (ustr \<times> ustr) list" where
  "fingerprint_providers config =
     foldl (\<lambda>d (fingerprint, i). dict_put fingerprint i d) []
       (concat (map (\<lambda>provider. map (\<lambda>fingerprint. (fingerprint, p_id provider)) (p_client_fingerprints provider))
          (c_providers config)))"

text \<open>
  \<open>cert_der\<close> reads and decodes a certificate file: its DER encoding, or what reading it or the X.509 library
  raises. The \<open>InvalidVersion\<close> of the library is no \<open>ValueError\<close> and passes through.
\<close>

definition certificate_sha256 :: "env \<Rightarrow> (ustr \<Rightarrow> bytes res) \<Rightarrow> ustr \<Rightarrow> ustr res" where
  "certificate_sha256 env cert_der path =
     bindE (catchE (cert_der path) (\<lambda>e.
       Inl (if e = OSError \<or> is_value_error e then ConfigurationError (lit ''KMIP client certificate is invalid: '' @ path) else e))) (\<lambda>der.
       Inr (hex_of_bytes (sha256 env der)))"

definition config_error :: "string \<Rightarrow> exn" where
  "config_error m = ConfigurationError (lit m)"

definition fingerprint :: "py \<Rightarrow> json \<Rightarrow> ustr res" where
  "fingerprint py v =
     (case v of
        JStr s \<Rightarrow>
          (let normalized = casefold py (strip (filter (\<lambda>c. c \<noteq> 58) s)) in
           if length normalized \<noteq> 64 \<or> list_ex (\<lambda>c. c \<notin> set HEX_DIGITS) normalized
           then Inl (config_error ''KMIP client fingerprint must be a SHA-256 digest.'')
           else Inr normalized)
      | _ \<Rightarrow> Inl (config_error ''KMIP client fingerprint must be a string.''))"

definition exact_fields :: "(ustr \<times> json) list \<Rightarrow> ustr list \<Rightarrow> string \<Rightarrow> unit res" where
  "exact_fields d expected label =
     (let missing = sorted_diff expected (map fst d);
          extra = sorted_diff (map fst d) expected;
          details = (if missing \<noteq> [] then [lit ''missing '' @ join_with (lit '', '') missing] else [])
                  @ (if extra \<noteq> [] then [lit ''unexpected '' @ join_with (lit '', '') extra] else [])
      in if missing \<noteq> [] \<or> extra \<noteq> []
         then Inl (ConfigurationError (lit label @ lit '' fields are invalid: '' @ join_with (lit ''; '') details @ lit ''.''))
         else Inr ())"

definition path_value :: "json \<Rightarrow> string \<Rightarrow> ustr res" where
  "path_value v label =
     (case v of
        JStr s \<Rightarrow>
          if strip s = [] then Inl (config_error (label @ '' must be a nonempty absolute path.''))
          else if \<not> is_absolute s then Inl (config_error (label @ '' must be an absolute path.''))
          else Inr (posix_path s)
      | _ \<Rightarrow> Inl (config_error (label @ '' must be a nonempty absolute path.'')))"

definition config_integer :: "json \<Rightarrow> string \<Rightarrow> int res" where
  "config_integer v label = (case v of JInt i \<Rightarrow> Inr i | _ \<Rightarrow> Inl (config_error (label @ '' must be an integer.'')))"

text \<open>The fingerprints of a provider: the configured ones, then those of its certificate files.\<close>

definition provider_fingerprints :: "py \<Rightarrow> env \<Rightarrow> (ustr \<Rightarrow> bytes res) \<Rightarrow> json list \<Rightarrow> json list \<Rightarrow> ustr list res" where
  "provider_fingerprints py env cert_der configured certificate_paths =
     bindE (mapE (fingerprint py) configured) (\<lambda>listed.
     bindE (mapE (\<lambda>item. bindE (path_value item ''KMIP client certificate path'') (certificate_sha256 env cert_der))
              certificate_paths) (\<lambda>read.
       Inr (listed @ read)))"

definition parse_provider :: "py \<Rightarrow> env \<Rightarrow> (ustr \<Rightarrow> bytes res) \<Rightarrow> json \<Rightarrow> provider res" where
  "parse_provider py env cert_der v =
     (case v of
        JObj d \<Rightarrow>
          bindE (exact_fields d PROVIDER_FIELDS ''KMIP provider'') (\<lambda>_.
          bindE (lookup_field d ''id'') (\<lambda>raw_provider_id.
          bindE (case raw_provider_id of
                   JStr s \<Rightarrow> or_raise (config_error ''KMIP provider ID must be a UUID.'') (uuid_canon (uni env) s)
                 | _ \<Rightarrow> Inl (config_error ''KMIP provider ID must be a UUID string.'')) (\<lambda>provider_id.
          bindE (lookup_field d ''name'') (\<lambda>raw_name.
          bindE (case raw_name of
                   JStr s \<Rightarrow> Inr (strip s)
                 | _ \<Rightarrow> Inl (config_error ''KMIP provider name must be a string.'')) (\<lambda>name.
          bindE (guardE (name \<noteq> [] \<and> length name \<le> 120)
                   (config_error ''KMIP provider name must contain 1 to 120 characters.'')) (\<lambda>_.
          bindE (lookup_field d ''client_fingerprints'') (\<lambda>configured.
          bindE (lookup_field d ''client_certificate_paths'') (\<lambda>certificate_paths.
          bindE (case (configured, certificate_paths) of
                   (JArr xs, JArr ys) \<Rightarrow> provider_fingerprints py env cert_der xs ys
                 | _ \<Rightarrow> Inl (config_error ''KMIP provider client identities must be lists.'')) (\<lambda>fingerprints.
          bindE (guardE (fingerprints \<noteq> [])
                   (config_error ''KMIP provider requires at least one trusted client fingerprint.'')) (\<lambda>_.
          bindE (guardE (distinct fingerprints)
                   (config_error ''KMIP provider client fingerprints must be unique.'')) (\<lambda>_.
            Inr \<lparr>p_id = provider_id, p_name = name, p_client_fingerprints = sort fingerprints\<rparr>)))))))))))
      | _ \<Rightarrow> Inl (config_error ''KMIP provider must be an object.''))"

definition parse_address :: "json \<Rightarrow> ustr res" where
  "parse_address v =
     (case v of
        JStr s \<Rightarrow> bindE (or_raise (config_error ''KMIP listen address must be an IP address.'') (ip_address (strip s)))
                    (\<lambda>a. Inr (ip_text a))
      | _ \<Rightarrow> Inl (config_error ''KMIP listen address must be a string.''))"

definition parse_addresses :: "json \<Rightarrow> ustr list res" where
  "parse_addresses v =
     (case v of
        JArr xs \<Rightarrow>
          if xs = [] then Inl (config_error ''KMIP listen addresses must be a nonempty list.'')
          else if length xs > 32 then Inl (config_error ''KMIP listen addresses cannot contain more than 32 entries.'')
          else bindE (mapE parse_address xs) (\<lambda>addresses.
               bindE (guardE (distinct addresses) (config_error ''KMIP listen addresses must be unique.'')) (\<lambda>_.
                 Inr addresses))
      | _ \<Rightarrow> Inl (config_error ''KMIP listen addresses must be a nonempty list.''))"

definition parse_limits :: "(ustr \<times> json) list \<Rightarrow> service_limits res" where
  "parse_limits limits =
     bindE (bindE (lookup_field limits ''max_request_bytes'') (\<lambda>v. config_integer v ''KMIP max_request_bytes'')) (\<lambda>request_bytes.
     bindE (bindE (lookup_field limits ''max_connections'') (\<lambda>v. config_integer v ''KMIP max_connections'')) (\<lambda>connections.
     bindE (bindE (lookup_field limits ''idle_timeout_seconds'') (\<lambda>v. config_integer v ''KMIP idle_timeout_seconds'')) (\<lambda>idle.
     bindE (bindE (lookup_field limits ''max_requests_per_connection'') (\<lambda>v.
              config_integer v ''KMIP max_requests_per_connection'')) (\<lambda>requests.
     bindE (guardE (1024 \<le> request_bytes \<and> request_bytes \<le> int MAX_MESSAGE_BYTES)
              (config_error ''KMIP max_request_bytes must be between 1024 and 1048576.'')) (\<lambda>_.
     bindE (guardE (1 \<le> connections \<and> connections \<le> 256)
              (config_error ''KMIP max_connections must be between 1 and 256.'')) (\<lambda>_.
     bindE (guardE (1 \<le> idle \<and> idle \<le> 300)
              (config_error ''KMIP idle_timeout_seconds must be between 1 and 300.'')) (\<lambda>_.
     bindE (guardE (1 \<le> requests \<and> requests \<le> 1024)
              (config_error ''KMIP max_requests_per_connection must be between 1 and 1024.'')) (\<lambda>_.
       Inr \<lparr>max_request_bytes = request_bytes, max_connections = connections, idle_timeout_seconds = idle,
            max_requests_per_connection = requests\<rparr>))))))))"

definition parse_providers :: "py \<Rightarrow> env \<Rightarrow> (ustr \<Rightarrow> bytes res) \<Rightarrow> json \<Rightarrow> provider list res" where
  "parse_providers py env cert_der v =
     (case v of
        JArr xs \<Rightarrow>
          bindE (mapE (parse_provider py env cert_der) xs) (\<lambda>providers.
          bindE (guardE (distinct (map p_id providers)) (config_error ''KMIP provider IDs must be unique.'')) (\<lambda>_.
          bindE (guardE (distinct (concat (map p_client_fingerprints providers)))
                   (config_error ''A KMIP client fingerprint cannot map to multiple providers.'')) (\<lambda>_.
            Inr providers)))
      | _ \<Rightarrow> Inl (config_error ''KMIP providers must be a list.''))"

definition as_object :: "exn \<Rightarrow> json \<Rightarrow> (ustr \<times> json) list res" where
  "as_object e v = (case v of JObj d \<Rightarrow> Inr d | _ \<Rightarrow> Inl e)"

text \<open>The four sections of the document, each an object with exactly its fields.\<close>

definition parse_sections ::
  "(ustr \<times> json) list \<Rightarrow>
     ((ustr \<times> json) list \<times> (ustr \<times> json) list \<times> (ustr \<times> json) list \<times> (ustr \<times> json) list) res" where
  "parse_sections document =
     bindE (lookup_field document ''listen'') (\<lambda>listen. bindE (lookup_field document ''tls'') (\<lambda>tls.
     bindE (lookup_field document ''store'') (\<lambda>store. bindE (lookup_field document ''limits'') (\<lambda>limits.
     let not_objects = config_error ''KMIP listen, TLS, store, and limits must be objects.'' in
     bindE (as_object not_objects listen) (\<lambda>listen. bindE (as_object not_objects tls) (\<lambda>tls.
     bindE (as_object not_objects store) (\<lambda>store. bindE (as_object not_objects limits) (\<lambda>limits.
     bindE (exact_fields listen (map lit [''addresses'', ''port'']) ''KMIP listen'') (\<lambda>_.
     bindE (exact_fields tls (map lit [''certificate_path'', ''private_key_path'', ''ca_path'']) ''KMIP TLS'') (\<lambda>_.
     bindE (exact_fields store (map lit [''database_path'', ''kek_path'']) ''KMIP store'') (\<lambda>_.
     bindE (exact_fields limits (map lit [''max_request_bytes'', ''max_connections'', ''idle_timeout_seconds'',
              ''max_requests_per_connection'']) ''KMIP limits'') (\<lambda>_.
       Inr (listen, tls, store, limits)))))))))))))"

definition parse_config :: "py \<Rightarrow> env \<Rightarrow> (ustr \<Rightarrow> bytes res) \<Rightarrow> json \<Rightarrow> service_config res" where
  "parse_config py env cert_der v =
     bindE (as_object (config_error ''KMIP configuration must be an object.'') v) (\<lambda>document.
     bindE (exact_fields document CONFIG_FIELDS ''KMIP configuration'') (\<lambda>_.
     bindE (bindE (lookup_field document ''schema_version'') (\<lambda>x. config_integer x ''KMIP configuration schema_version'')) (\<lambda>schema_version.
     bindE (guardE (schema_version = 1) (config_error ''KMIP configuration schema_version must be 1.'')) (\<lambda>_.
     bindE (bindE (lookup_field document ''enabled'') (\<lambda>x. case x of JBool b \<Rightarrow> Inr b
              | _ \<Rightarrow> Inl (config_error ''KMIP enabled must be true or false.''))) (\<lambda>enabled.
     bindE (parse_sections document) (\<lambda>(listen, tls, store, limits).
     bindE (bindE (lookup_field listen ''addresses'') parse_addresses) (\<lambda>addresses.
     bindE (bindE (lookup_field listen ''port'') (\<lambda>x. config_integer x ''KMIP listen port'')) (\<lambda>port.
     bindE (guardE (1 \<le> port \<and> port \<le> 65535) (config_error ''KMIP listen port must be between 1 and 65535.'')) (\<lambda>_.
     bindE (parse_limits limits) (\<lambda>parsed_limits.
     bindE (bindE (lookup_field document ''providers'') (parse_providers py env cert_der)) (\<lambda>providers.
     bindE (bindE (lookup_field document ''interop_trace_path'') (\<lambda>x. case x of JStr s \<Rightarrow> Inr (strip s)
              | _ \<Rightarrow> Inl (config_error ''KMIP interop trace path must be a string.''))) (\<lambda>trace_value.
     bindE (bindE (lookup_field tls ''certificate_path'') (\<lambda>x. path_value x ''KMIP server certificate'')) (\<lambda>certificate_path.
     bindE (bindE (lookup_field tls ''private_key_path'') (\<lambda>x. path_value x ''KMIP server private key'')) (\<lambda>private_key_path.
     bindE (bindE (lookup_field tls ''ca_path'') (\<lambda>x. path_value x ''KMIP CA certificate'')) (\<lambda>ca_path.
     bindE (bindE (lookup_field store ''database_path'') (\<lambda>x. path_value x ''KMIP database'')) (\<lambda>database_path.
     bindE (bindE (lookup_field store ''kek_path'') (\<lambda>x. path_value x ''KMIP KEK envelope'')) (\<lambda>kek_path.
     bindE (if trace_value \<noteq> [] then bindE (path_value (JStr trace_value) ''KMIP interop trace'') (\<lambda>p. Inr (Some p))
            else Inr None) (\<lambda>trace_path.
       Inr \<lparr>c_enabled = enabled, c_listen_addresses = addresses, c_port = port, c_certificate_path = certificate_path,
            c_private_key_path = private_key_path, c_ca_path = ca_path, c_database_path = database_path,
            c_kek_path = kek_path, c_limits = parsed_limits, c_providers = providers,
            c_interop_trace_path = trace_path\<rparr>))))))))))))))))))"

text \<open>
  \<open>load_config\<close>: the outcome of reading the file as UTF-8 text is an argument. A failure that is neither an
  \<open>OSError\<close> nor a \<open>JSONDecodeError\<close> is not caught.
\<close>

definition load_config :: "py \<Rightarrow> env \<Rightarrow> (ustr \<Rightarrow> bytes res) \<Rightarrow> ustr res \<Rightarrow> service_config res" where
  "load_config py env cert_der file =
     bindE (catchE (bindE file (\<lambda>text. or_raise (py_json_failure py text) (loads text)))
              (\<lambda>e. Inl (case e of
                   OSError \<Rightarrow> config_error ''KMIP configuration could not be read.''
                 | JSONDecodeError m \<Rightarrow> config_error ''KMIP configuration could not be read.''
                 | _ \<Rightarrow> e)))
       (parse_config py env cert_der)"

end
