(* ===== verification/Store.thy ===== *)
theory Store
  imports World
begin

text \<open>
  The wrapped-key store (\<open>atlaso/app/kmip/store.py\<close>): the KEK envelope file, the commitment to the
  database it carries, the two-phase protocol that moves both together, and the operations on keys.

  A \<open>with self._connect()\<close> block reads the committed database into a view, changes the view, and
  commits it; an exception inside drops the view, which is the rollback. The lock makes the blocks
  of one object sequential.
\<close>

subsection \<open>Constants\<close>

definition STORE_SCHEMA_VERSION :: int where "STORE_SCHEMA_VERSION = 2"

definition KEK_ENVELOPE_FORMAT :: ustr where "KEK_ENVELOPE_FORMAT = lit ''atlaso-kmip-kek-v2''"

definition KEK_AAD :: bytes where "KEK_AAD = map byte_of (lit ''atlaso-kmip-kek-v2'')"

definition LEGACY_KEK_ENVELOPE_FORMAT :: ustr where
  "LEGACY_KEK_ENVELOPE_FORMAT = lit ''atlaso-kmip-kek-v1''"

definition LEGACY_KEK_AAD :: bytes where "LEGACY_KEK_AAD = map byte_of (lit ''atlaso-kmip-kek-v1'')"

definition STORE_COMMITMENT_FORMAT :: ustr where
  "STORE_COMMITMENT_FORMAT = lit ''atlaso-kmip-store-commitment-v1''"

definition KEY_AAD_FIELDS :: "ustr list" where
  "KEY_AAD_FIELDS =
     [lit ''schema_version'', lit ''provider_id'', lit ''key_id'', lit ''algorithm'', lit ''length'',
      lit ''name'', lit ''state'', lit ''created_at'', lit ''activated_at'']"

definition VSPHERE_CUSTOM_ATTRIBUTES :: "ustr list" where
  "VSPHERE_CUSTOM_ATTRIBUTES =
     [lit ''x-Component'', lit ''x-Identifier'', lit ''x-Vendor'', lit ''x-Product'',
      lit ''x-Product_Version'']"

definition MAX_CUSTOM_ATTRIBUTE_VALUE_BYTES :: nat where
  "MAX_CUSTOM_ATTRIBUTE_VALUE_BYTES = 512"

abbreviation (input) PRE_ACTIVE :: ustr where "PRE_ACTIVE \<equiv> lit ''Pre-Active''"
abbreviation (input) ACTIVE :: ustr where "ACTIVE \<equiv> lit ''Active''"

subsection \<open>The library calls\<close>

text \<open>\<open>AESGCM(key)\<close> refuses a key of another length, and each call a nonce outside 8 to 128 bytes.\<close>

definition aes_new :: "bytes \<Rightarrow> unit res" where
  "aes_new key = guardE (length key \<in> {16, 24, 32}) (ValueError ''AESGCM key must be 128, 192, or 256 bits.'')"

definition aes_nonce :: "bytes \<Rightarrow> unit res" where
  "aes_nonce nonce = guardE (8 \<le> length nonce \<and> length nonce \<le> 128) (ValueError ''Nonce must be between 8 and 128 bytes'')"

definition aes_seal :: "env \<Rightarrow> bytes \<Rightarrow> bytes \<Rightarrow> bytes \<Rightarrow> bytes \<Rightarrow> bytes res" where
  "aes_seal env key nonce plaintext aad =
     bindE (aes_new key) (\<lambda>_. bindE (aes_nonce nonce) (\<lambda>_. Inr (aes_encrypt env key nonce plaintext aad)))"

definition aes_open :: "env \<Rightarrow> bytes \<Rightarrow> bytes \<Rightarrow> bytes \<Rightarrow> bytes \<Rightarrow> bytes res" where
  "aes_open env key nonce ciphertext aad =
     bindE (aes_new key) (\<lambda>_. bindE (aes_nonce nonce) (\<lambda>_.
       or_raise InvalidTag (aes_decrypt env key nonce ciphertext aad)))"

definition utf8 :: "ustr \<Rightarrow> bytes res" where
  "utf8 s = or_raise UnicodeEncodeError (utf8_encode s)"

definition from_utf8 :: "bytes \<Rightarrow> ustr res" where
  "from_utf8 bs = or_raise (ValueError ''UnicodeDecodeError'') (utf8_decode bs)"

definition json_loads :: "ustr \<Rightarrow> json res" where
  "json_loads s = or_raise (ValueError ''JSONDecodeError'') (loads s)"

text \<open>\<open>json.dumps(x, separators=(",", ":"), sort_keys=True)\<close>; rendering an integer of more than 4300
  digits raises.\<close>

definition json_dumps :: "json \<Rightarrow> ustr res" where
  "json_dumps j = (if ints_ok j then Inr (dumps j) else Inl (ValueError ''Exceeds the limit for integer string conversion''))"

text \<open>
  \<open>json.loads\<close> on bytes guesses the encoding from the first bytes. Documents that begin like UTF-8
  are decoded here; the byte order marks, the wide encodings and the lenient surrogate handling of
  the rest are the environment's.
\<close>

definition json_text :: "env \<Rightarrow> bytes \<Rightarrow> ustr option" where
  "json_text env bs =
     (if 4 \<le> length bs \<and> bs ! 0 \<notin> {0, 0xef, 0xfe, 0xff} \<and> bs ! 1 \<noteq> 0 \<and> utf8_decode bs \<noteq> None
      then utf8_decode bs else json_other env bs)"

definition json_loads_bytes :: "env \<Rightarrow> bytes \<Rightarrow> json res" where
  "json_loads_bytes env bs =
     bindE (or_raise (ValueError ''UnicodeDecodeError'') (json_text env bs)) json_loads"

text \<open>\<open>str(uuid.uuid4())\<close> from sixteen random bytes: the version and the variant bits are set.\<close>

definition uuid4_text :: "bytes \<Rightarrow> ustr" where
  "uuid4_text bs =
     uuid_of_int (from_be (bs[6 := byte_of (unat (bs ! 6) mod 16 + 64),
                              8 := byte_of (unat (bs ! 8) mod 64 + 128)]))"

definition opt_str :: "ustr option \<Rightarrow> json" where
  "opt_str x = (case x of None \<Rightarrow> JNull | Some s \<Rightarrow> JStr s)"

definition opt_int :: "int option \<Rightarrow> json" where
  "opt_int x = (case x of None \<Rightarrow> JNull | Some i \<Rightarrow> JInt i)"

subsection \<open>Validation\<close>

definition validated_uuid :: "env \<Rightarrow> ustr \<Rightarrow> string \<Rightarrow> ustr res" where
  "validated_uuid env text label = or_raise (ValueError (label @ '' must be a UUID.'')) (uuid_canon (uni env) text)"

definition aad_document :: "stored_key \<Rightarrow> (ustr \<times> json) list" where
  "aad_document metadata =
     [(lit ''schema_version'', JInt STORE_SCHEMA_VERSION),
      (lit ''provider_id'', JStr (k_provider_id metadata)),
      (lit ''key_id'', JStr (k_key_id metadata)),
      (lit ''algorithm'', JStr (k_algorithm metadata)),
      (lit ''length'', JInt (k_length metadata)),
      (lit ''name'', opt_str (k_name metadata)),
      (lit ''state'', JStr (k_state metadata)),
      (lit ''created_at'', JStr (k_created_at metadata)),
      (lit ''activated_at'', opt_str (k_activated_at metadata))]
     @ (if k_custom_attributes metadata \<noteq> []
        then [(lit ''custom_attributes'',
               JObj (map (\<lambda>(k, v). (k, JStr v)) (k_custom_attributes metadata)))]
        else [])"

definition canonical_aad :: "stored_key \<Rightarrow> bytes res" where
  "canonical_aad metadata =
     bindE (guardE (map fst (aad_document metadata)
                = KEY_AAD_FIELDS @ (if k_custom_attributes metadata \<noteq> [] then [lit ''custom_attributes''] else []))
              AssertionError) (\<lambda>_.
     bindE (json_dumps (JObj (aad_document metadata))) utf8)"

text \<open>The loop over the pairs, with the \<open>normalized\<close> dictionary as its accumulator.\<close>

fun normalize_attributes :: "(ustr \<times> ustr) list \<Rightarrow> (ustr \<times> json) list \<Rightarrow> (ustr \<times> ustr) list res" where
  "normalize_attributes normalized [] = Inr normalized"
| "normalize_attributes normalized ((attribute, v) # pairs) =
     (case v of
        JStr s \<Rightarrow>
          if attribute \<notin> set VSPHERE_CUSTOM_ATTRIBUTES \<or> attribute \<in> fst ` set normalized
          then Inl (ValueError ''custom_attributes contains an unsupported or invalid entry.'')
          else bindE (utf8 s) (\<lambda>b.
            if length b > MAX_CUSTOM_ATTRIBUTE_VALUE_BYTES
            then Inl (ValueError ''custom_attributes contains an unsupported or invalid entry.'')
            else normalize_attributes (normalized @ [(attribute, s)]) pairs)
      | _ \<Rightarrow> Inl (ValueError ''custom_attributes contains an unsupported or invalid entry.''))"

definition validated_custom_attributes :: "(ustr \<times> json) list \<Rightarrow> (ustr \<times> ustr) list res" where
  "validated_custom_attributes pairs =
     bindE (guardE (length pairs \<le> length VSPHERE_CUSTOM_ATTRIBUTES)
              (ValueError ''custom_attributes contains too many entries.'')) (\<lambda>_.
     bindE (normalize_attributes [] pairs) (\<lambda>normalized. Inr (sort normalized)))"

definition master_key :: "env \<Rightarrow> ustr \<Rightarrow> bytes res" where
  "master_key env secrets_key =
     (if secrets_key = []
      then Inl (KeyStoreError ''ATLASO_SECRETS_KEY is required for the KMIP operational store.'')
      else bindE (utf8 secrets_key) (\<lambda>s.
        Inr (sha256 env (map byte_of (lit ''atlaso-kmip-master-v1'') @ [0] @ s))))"

definition name_ok :: "ustr option \<Rightarrow> bool" where
  "name_ok name = (case name of None \<Rightarrow> True | Some n \<Rightarrow> 1 \<le> length n \<and> length n \<le> 256)"

subsection \<open>The envelope file\<close>

definition decode_envelope_value :: "(ustr \<times> json) list \<Rightarrow> ustr \<Rightarrow> bytes res" where
  "decode_envelope_value envelope field =
     (case map_of envelope field of
        Some (JStr v) \<Rightarrow> or_raise (KeyStoreError ''KMIP KEK envelope is invalid.'') (b64decode v)
      | _ \<Rightarrow> Inl (KeyStoreError ''KMIP KEK envelope is invalid.''))"

definition envelope_payload :: "kek_envelope \<Rightarrow> json" where
  "envelope_payload envelope =
     JObj [(lit ''kek'', JStr (b64encode (e_kek envelope))),
           (lit ''generation'', JInt (e_generation envelope)),
           (lit ''commitment'', JStr (e_commitment envelope)),
           (lit ''pending_generation'', opt_int (e_pending_generation envelope)),
           (lit ''pending_commitment'', opt_str (e_pending_commitment envelope))]"

text \<open>The text of the envelope file, sealed with the given nonce.\<close>

definition envelope_file :: "env \<Rightarrow> bytes \<Rightarrow> kek_envelope \<Rightarrow> bytes \<Rightarrow> bytes res" where
  "envelope_file env master envelope nonce =
     bindE (bindE (json_dumps (envelope_payload envelope)) utf8) (\<lambda>plaintext.
     bindE (aes_seal env master nonce plaintext KEK_AAD) (\<lambda>ciphertext.
     bindE (json_dumps (JObj [(lit ''format'', JStr KEK_ENVELOPE_FORMAT),
                              (lit ''nonce'', JStr (b64encode nonce)),
                              (lit ''ciphertext'', JStr (b64encode ciphertext))])) (\<lambda>document.
       utf8 (document @ [10]))))"

text \<open>\<open>os.replace\<close> of the temporary file, with the outcome the environment gives this effect.\<close>

definition replace_kek :: "env \<Rightarrow> bytes \<Rightarrow> unit m" where
  "replace_kek env content w =
     (let w' = w\<lparr>w_io := Suc (w_io w)\<rparr>;
          replaced = w'\<lparr>w_disk := (w_disk w)\<lparr>d_kek := Some content\<rparr>\<rparr>
      in case write_fault_at env (w_io w) of
           W_Ok \<Rightarrow> (Inr (), replaced)
         | W_Fail \<Rightarrow> (Inl OSError, w')
         | W_FailLate \<Rightarrow> (Inl OSError, replaced)
         | W_Lost \<Rightarrow> (Inl PowerLoss, w')
         | W_LostLate \<Rightarrow> (Inl PowerLoss, replaced))"

definition write_kek_envelope :: "env \<Rightarrow> bytes \<Rightarrow> kek_envelope \<Rightarrow> unit m" where
  "write_kek_envelope env master envelope =
     bindM (drawM (\<lambda>i. urandom env i 12)) (\<lambda>nonce.
     bindM (liftM (envelope_file env master envelope nonce)) (\<lambda>content.
     bindM (drawM (\<lambda>i. urandom env i 16)) (\<lambda>temporary.
       replace_kek env content)))"

text \<open>The checks on the decrypted payload of a version 2 envelope.\<close>

definition load_payload :: "json \<Rightarrow> kek_envelope res" where
  "load_payload payload =
     (case payload of
        JObj p \<Rightarrow>
          (case map_of p (lit ''kek'') of
             Some (JStr encoded_kek) \<Rightarrow>
               bindE (or_raise (ValueError ''binascii.Error'') (b64decode encoded_kek)) (\<lambda>kek.
               case (map_of p (lit ''generation''), map_of p (lit ''commitment'')) of
                 (Some (JInt generation), Some (JStr commitment)) \<Rightarrow>
                   (if generation < 0 then Inl (KeyStoreError ''KMIP KEK envelope is invalid.'')
                    else case (map_of p (lit ''pending_generation''), map_of p (lit ''pending_commitment'')) of
                        (Some (JInt pg), Some (JStr pc)) \<Rightarrow>
                          if pg = generation + 1
                          then Inr \<lparr>e_kek = kek, e_generation = generation, e_commitment = commitment,
                                 e_pending_generation = Some pg, e_pending_commitment = Some pc\<rparr>
                          else Inl (KeyStoreError ''KMIP KEK envelope is invalid.'')
                      | (pg, pc) \<Rightarrow>
                          if pg \<in> {None, Some JNull} \<and> pc \<in> {None, Some JNull}
                          then Inr \<lparr>e_kek = kek, e_generation = generation, e_commitment = commitment,
                                 e_pending_generation = None, e_pending_commitment = None\<rparr>
                          else Inl (KeyStoreError ''KMIP KEK envelope is invalid.''))
               | _ \<Rightarrow> Inl (KeyStoreError ''KMIP KEK envelope is invalid.''))
           | _ \<Rightarrow> Inl (KeyStoreError ''KMIP KEK envelope is invalid.''))
      | _ \<Rightarrow> Inl (KeyStoreError ''KMIP KEK envelope is invalid.''))"

text \<open>The body of the \<open>try\<close> block that opens an existing envelope file. A list or an object in
  \<open>format\<close> is not hashable, and the membership test raises.\<close>

definition open_kek :: "env \<Rightarrow> bytes \<Rightarrow> bytes \<Rightarrow> kek_envelope res" where
  "open_kek env master_bytes content =
     bindE (from_utf8 content) (\<lambda>text. bindE (json_loads text) (\<lambda>document.
     case document of
       JObj envelope \<Rightarrow>
         (case map_of envelope (lit ''format'') of
            Some (JStr fmt) \<Rightarrow>
              (if fmt \<noteq> KEK_ENVELOPE_FORMAT \<and> fmt \<noteq> LEGACY_KEK_ENVELOPE_FORMAT
               then Inl (KeyStoreError ''KMIP KEK envelope format is unsupported.'')
               else
                 bindE (decode_envelope_value envelope (lit ''nonce'')) (\<lambda>nonce.
                 bindE (decode_envelope_value envelope (lit ''ciphertext'')) (\<lambda>ciphertext.
                 bindE (if fmt = LEGACY_KEK_ENVELOPE_FORMAT
                        then bindE (aes_open env master_bytes nonce ciphertext LEGACY_KEK_AAD) (\<lambda>kek.
                               Inr \<lparr>e_kek = kek, e_generation = 0, e_commitment = [],
                                 e_pending_generation = None, e_pending_commitment = None\<rparr>)
                        else bindE (aes_open env master_bytes nonce ciphertext KEK_AAD) (\<lambda>plaintext.
                             bindE (json_loads_bytes env plaintext) load_payload)) (\<lambda>state.
                 bindE (guardE (length (e_kek state) = 32) (KeyStoreError ''KMIP KEK envelope is invalid.'')) (\<lambda>_.
                   Inr state)))))
          | Some (JArr xs) \<Rightarrow> Inl TypeError
          | Some (JObj o') \<Rightarrow> Inl TypeError
          | _ \<Rightarrow> Inl (KeyStoreError ''KMIP KEK envelope format is unsupported.''))
     | _ \<Rightarrow> Inl (KeyStoreError ''KMIP KEK envelope format is unsupported.'')))"

definition kek_error :: "exn \<Rightarrow> exn" where
  "kek_error e =
     (if e = InvalidTag \<or> e = OSError \<or> is_value_error e
      then KeyStoreError ''KMIP KEK could not be opened with the configured appliance secrets key.''
      else e)"

text \<open>The master key: unsealed from the recovery file when there is one.\<close>

definition recovery_master :: "env \<Rightarrow> bytes \<Rightarrow> bytes option \<Rightarrow> bytes res" where
  "recovery_master env master_bytes recovery =
     (case recovery of
        None \<Rightarrow> Inr master_bytes
      | Some sealed \<Rightarrow>
          bindE (guardE (length sealed = 60) (KeyStoreError ''KMIP recovery custody is invalid.'')) (\<lambda>_.
          catchE (aes_open env master_bytes (take 12 sealed) (drop 12 sealed)
                    (map byte_of (lit ''atlaso-kmip-recovery-master-v1''))) (\<lambda>e.
            Inl (if e = InvalidTag \<or> e = OSError
                 then KeyStoreError ''KMIP recovery custody could not be authenticated.'' else e))))"

definition load_or_create_kek :: "env \<Rightarrow> ustr \<Rightarrow> bool \<Rightarrow> (bytes \<times> kek_envelope) m" where
  "load_or_create_kek env secrets_key read_only =
     bindM (liftM (master_key env secrets_key)) (\<lambda>secret_master.
     bindM (getM (d_recovery \<circ> w_disk)) (\<lambda>recovery.
     bindM (liftM (recovery_master env secret_master recovery)) (\<lambda>master_bytes.
     bindM (liftM (aes_new master_bytes)) (\<lambda>_.
     bindM (getM (d_kek \<circ> w_disk)) (\<lambda>file.
     case file of
       Some content \<Rightarrow>
         bindM (liftM (catchE (open_kek env master_bytes content) (\<lambda>e. Inl (kek_error e)))) (\<lambda>state.
           returnM (master_bytes, state))
     | None \<Rightarrow>
         bindM (guardM (\<not> read_only) (KeyStoreError ''KMIP read-only store is incomplete.'')) (\<lambda>_.
         bindM (drawM (\<lambda>i. urandom env i 32)) (\<lambda>kek.
         bindM (liftM (master_key env secrets_key)) (\<lambda>fresh_master.
         let state = \<lparr>e_kek = kek, e_generation = 0, e_commitment = [],
                      e_pending_generation = None, e_pending_commitment = None\<rparr> in
         bindM (write_kek_envelope env fresh_master state) (\<lambda>_.
           returnM (fresh_master, state))))))))))"

subsection \<open>The commitment to the database\<close>

definition row_document :: "row \<Rightarrow> json" where
  "row_document r =
     JObj [(lit ''provider_id'', JStr (r_provider_id r)),
           (lit ''key_id'', JStr (r_key_id r)),
           (lit ''algorithm'', JStr (r_algorithm r)),
           (lit ''key_length'', JInt (r_key_length r)),
           (lit ''name'', opt_str (r_name r)),
           (lit ''state'', JStr (r_state r)),
           (lit ''created_at'', JStr (r_created_at r)),
           (lit ''activated_at'', opt_str (r_activated_at r)),
           (lit ''nonce'', JStr (b64encode (r_nonce r))),
           (lit ''ciphertext'', JStr (b64encode (r_ciphertext r))),
           (lit ''aad_json'', JStr (r_aad_json r))]"

definition row_key :: "row \<Rightarrow> ustr \<times> ustr" where
  "row_key r = (r_provider_id r, r_key_id r)"

definition store_document :: "database \<Rightarrow> json" where
  "store_document db =
     JObj [(lit ''format'', JStr STORE_COMMITMENT_FORMAT),
           (lit ''metadata'', JArr (map (\<lambda>(n, v). JArr [JStr n, JStr v]) (sort_key fst (store_metadata db)))),
           (lit ''keys'', JArr (map row_document (sort_key row_key (wrapped_keys db))))]"

text \<open>A query on a database without its tables is an \<open>OperationalError\<close>.\<close>

definition store_commitment :: "env \<Rightarrow> database \<Rightarrow> ustr res" where
  "store_commitment env db =
     bindE (guardE (schema_ready db) OperationalError) (\<lambda>_.
     bindE (bindE (json_dumps (store_document db)) utf8) (\<lambda>b. Inr (hex_of_bytes (sha256 env b))))"

subsection \<open>The store object\<close>

definition empty_database :: database where
  "empty_database = \<lparr>schema_ready = False, store_metadata = [], wrapped_keys = []\<rparr>"

text \<open>\<open>_connect\<close>: the committed database as this connection sees it. A writable connection creates
  the file; a read-only one needs it.\<close>

definition connect :: "database m" where
  "connect =
     bindM (getM (s_read_only \<circ> w_self)) (\<lambda>read_only.
     bindM (getM (d_db \<circ> w_disk)) (\<lambda>file.
     case file of
       Some db \<Rightarrow> returnM db
     | None \<Rightarrow> if read_only then raiseM OperationalError else returnM empty_database))"

definition commit :: "env \<Rightarrow> database \<Rightarrow> unit m" where
  "commit env view w =
     (let w' = w\<lparr>w_io := Suc (w_io w)\<rparr>;
          committed = w'\<lparr>w_disk := (w_disk w)\<lparr>d_db := Some view\<rparr>\<rparr>
      in case commit_fault_at env (w_io w) of
           C_Ok \<Rightarrow> (Inr (), committed)
         | C_Fail \<Rightarrow> (Inl OperationalError, w')
         | C_Lost \<Rightarrow> (Inl PowerLoss, w')
         | C_LostLate \<Rightarrow> (Inl PowerLoss, committed))"

text \<open>\<open>executescript(STORE_SCHEMA_SQL)\<close>: the tables are created where they are missing.\<close>

definition create_tables :: "env \<Rightarrow> database \<Rightarrow> database m" where
  "create_tables env view =
     bindM (commit env (view\<lparr>schema_ready := True\<rparr>)) (\<lambda>_. returnM (view\<lparr>schema_ready := True\<rparr>))"

definition settled :: "bytes \<Rightarrow> int \<Rightarrow> ustr \<Rightarrow> kek_envelope" where
  "settled kek generation commitment =
     \<lparr>e_kek = kek, e_generation = generation, e_commitment = commitment,
      e_pending_generation = None, e_pending_commitment = None\<rparr>"

definition write_envelope :: "env \<Rightarrow> kek_envelope \<Rightarrow> unit m" where
  "write_envelope env envelope =
     bindM (getM (s_master_key \<circ> w_self)) (\<lambda>master.
     bindM (write_kek_envelope env master envelope) (\<lambda>_.
       putM (\<lambda>w. w\<lparr>w_self := (w_self w)\<lparr>s_envelope := envelope\<rparr>\<rparr>)))"

definition verify_store_commitment :: "env \<Rightarrow> database \<Rightarrow> unit m" where
  "verify_store_commitment env view =
     bindM (liftM (store_commitment env view)) (\<lambda>observed.
     bindM (getM w_self) (\<lambda>self.
     let envelope = s_envelope self; kek = s_kek self in
     if s_read_only self
     then guardM (\<not> (e_commitment envelope = [] \<or> e_pending_commitment envelope \<noteq> None
                     \<or> observed \<noteq> e_commitment envelope))
            (KeyStoreError ''KMIP read-only store integrity or transaction state is unavailable.'')
     else if e_commitment envelope = []
     then write_envelope env (settled kek (e_generation envelope) observed)
     else if observed = e_commitment envelope
     then (if e_pending_commitment envelope \<noteq> None
           then write_envelope env (settled kek (e_generation envelope) (e_commitment envelope))
           else returnM ())
     else if Some observed = e_pending_commitment envelope
     then (case e_pending_generation envelope of
             None \<Rightarrow> raiseM AssertionError
           | Some g \<Rightarrow> write_envelope env (settled kek g observed))
     else raiseM (KeyStoreError ''KMIP operational store rollback or integrity validation failed.'')))"

definition initialize :: "env \<Rightarrow> unit m" where
  "initialize env =
     bindM (getM (s_read_only \<circ> w_self)) (\<lambda>read_only.
     bindM connect (\<lambda>file.
     bindM (if read_only then returnM file else create_tables env file) (\<lambda>db.
     bindM (guardM (schema_ready db) OperationalError) (\<lambda>_.
     case map_of (store_metadata db) (lit ''schema_version'') of
       None \<Rightarrow>
         bindM (guardM (\<not> read_only) (KeyStoreError ''KMIP read-only store schema is incomplete.'')) (\<lambda>_.
         let view = db\<lparr>store_metadata := store_metadata db
                         @ [(lit ''schema_version'', int_text STORE_SCHEMA_VERSION)]\<rparr> in
         bindM (verify_store_commitment env view) (\<lambda>_. commit env view))
     | Some version \<Rightarrow>
         bindM (guardM (version = int_text STORE_SCHEMA_VERSION)
                  (KeyStoreError ''KMIP operational store schema version is unsupported.'')) (\<lambda>_.
           verify_store_commitment env db)))))"

text \<open>\<open>WrappedKeyStore(database_path, kek_path, secrets_key=..., read_only=...)\<close>.\<close>

definition init_store :: "env \<Rightarrow> ustr \<Rightarrow> bool \<Rightarrow> unit m" where
  "init_store env secrets_key read_only =
     bindM (getM w_disk) (\<lambda>d.
     bindM (guardM (\<not> (read_only \<and> (d_journal d \<or> d_rollback d)))
              (KeyStoreError ''KMIP offline snapshot requires settled SQLite journal state.'')) (\<lambda>_.
     bindM (guardM ((d_db d = None) = (d_kek d = None))
              (KeyStoreError ''KMIP operational store and KEK envelope must exist together.'')) (\<lambda>_.
     bindM (load_or_create_kek env secrets_key read_only) (\<lambda>(master, envelope).
     bindM (putM (\<lambda>w. w\<lparr>w_self := \<lparr>s_read_only = read_only, s_master_key = master,
                                    s_kek = e_kek envelope, s_envelope = envelope\<rparr>\<rparr>)) (\<lambda>_.
       initialize env)))))"

text \<open>\<open>except Exception\<close> does not see the machine stop; it rolls back, settles the envelope on the
  committed state and re-raises.\<close>

definition commit_mutation :: "env \<Rightarrow> database \<Rightarrow> unit m" where
  "commit_mutation env view =
     bindM (getM w_self) (\<lambda>self.
     let kek = s_kek self; generation = e_generation (s_envelope self);
         commitment = e_commitment (s_envelope self) in
     bindM (liftM (store_commitment env view)) (\<lambda>pending_commitment.
     bindM (write_envelope env \<lparr>e_kek = kek, e_generation = generation, e_commitment = commitment,
              e_pending_generation = Some (generation + 1),
              e_pending_commitment = Some pending_commitment\<rparr>) (\<lambda>_.
     bindM (catchM (commit env view) (\<lambda>e.
              if is_exception e
              then bindM (write_envelope env (settled kek generation commitment)) (\<lambda>_. raiseM e)
              else raiseM e)) (\<lambda>_.
       write_envelope env (settled kek (generation + 1) pending_commitment)))))"

subsection \<open>The operations\<close>

text \<open>The constraints of the table. SQLite's \<open>length\<close> of a text stops at its first NUL.\<close>

definition sqlite_length :: "ustr \<Rightarrow> nat" where
  "sqlite_length s = length (takeWhile (\<lambda>c. c \<noteq> 0) s)"

definition row_checks :: "row \<Rightarrow> bool" where
  "row_checks r \<longleftrightarrow>
     r_algorithm r = lit ''AES'' \<and> r_key_length r = 256
     \<and> (case r_name r of None \<Rightarrow> True | Some n \<Rightarrow> 1 \<le> sqlite_length n \<and> sqlite_length n \<le> 256)
     \<and> (r_state r = PRE_ACTIVE \<or> r_state r = ACTIVE) \<and> length (r_nonce r) = 12"

text \<open>Binding a text parameter encodes it as UTF-8.\<close>

definition row_binds :: "row \<Rightarrow> bool" where
  "row_binds r \<longleftrightarrow>
     list_all (list_all is_scalar)
       ([r_provider_id r, r_key_id r, r_algorithm r, r_state r, r_created_at r, r_aad_json r]
        @ (case r_name r of None \<Rightarrow> [] | Some n \<Rightarrow> [n])
        @ (case r_activated_at r of None \<Rightarrow> [] | Some t \<Rightarrow> [t]))"

definition insert_row :: "row \<Rightarrow> database \<Rightarrow> database res" where
  "insert_row r db =
     bindE (guardE (row_binds r) UnicodeEncodeError) (\<lambda>_.
     bindE (guardE (row_checks r \<and> row_key r \<notin> row_key ` set (wrapped_keys db)) IntegrityError) (\<lambda>_.
       Inr (db\<lparr>wrapped_keys := wrapped_keys db @ [r]\<rparr>)))"

definition row_of :: "stored_key \<Rightarrow> bytes \<Rightarrow> bytes \<Rightarrow> ustr \<Rightarrow> row" where
  "row_of metadata nonce ciphertext aad =
     \<lparr>r_provider_id = k_provider_id metadata, r_key_id = k_key_id metadata,
      r_algorithm = k_algorithm metadata, r_key_length = k_length metadata, r_name = k_name metadata,
      r_state = k_state metadata, r_created_at = k_created_at metadata,
      r_activated_at = k_activated_at metadata, r_nonce = nonce, r_ciphertext = ciphertext,
      r_aad_json = aad\<rparr>"

definition create_key :: "env \<Rightarrow> ustr \<Rightarrow> ustr option \<Rightarrow> (ustr \<times> ustr) list \<Rightarrow> stored_key m" where
  "create_key env provider_id name custom_attributes =
     bindM (liftM (validated_uuid env provider_id ''provider_id'')) (\<lambda>normalized_provider.
     bindM (liftM (validated_custom_attributes (map (\<lambda>(k, v). (k, JStr v)) custom_attributes))) (\<lambda>attributes.
     bindM (guardM (name_ok name) (ValueError ''name must contain 1 to 256 characters.'')) (\<lambda>_.
     bindM (drawM (\<lambda>i. uuid4_text (urandom env i 16))) (\<lambda>key_id.
     bindM (drawM (now_iso env)) (\<lambda>created_at.
     let metadata = \<lparr>k_provider_id = normalized_provider, k_key_id = key_id, k_algorithm = lit ''AES'',
           k_length = 256, k_name = name, k_state = PRE_ACTIVE, k_created_at = created_at,
           k_activated_at = None, k_custom_attributes = attributes\<rparr> in
     bindM (liftM (canonical_aad metadata)) (\<lambda>aad.
     bindM (drawM (\<lambda>i. urandom env i 32)) (\<lambda>plaintext.
     bindM (drawM (\<lambda>i. urandom env i 12)) (\<lambda>nonce.
     bindM (getM (s_kek \<circ> w_self)) (\<lambda>kek.
     bindM (liftM (aes_seal env kek nonce plaintext aad)) (\<lambda>ciphertext.
     bindM connect (\<lambda>db.
     bindM (verify_store_commitment env db) (\<lambda>_.
     bindM (liftM (from_utf8 aad)) (\<lambda>aad_json.
     bindM (liftM (insert_row (row_of metadata nonce ciphertext aad_json) db)) (\<lambda>view.
     bindM (commit_mutation env view) (\<lambda>_.
       returnM metadata)))))))))))))))"

definition select_row :: "env \<Rightarrow> database \<Rightarrow> ustr \<Rightarrow> ustr \<Rightarrow> row res" where
  "select_row env db provider_id key_id =
     bindE (validated_uuid env provider_id ''provider_id'') (\<lambda>normalized_provider.
     bindE (validated_uuid env key_id ''key_id'') (\<lambda>normalized_key.
       or_raise (KeyNotFoundError ''KMIP key was not found in the authenticated provider.'')
         (find (\<lambda>r. row_key r = (normalized_provider, normalized_key)) (wrapped_keys db))))"

definition row_attributes :: "row \<Rightarrow> (ustr \<times> ustr) list res" where
  "row_attributes r =
     catchE
       (bindE (json_loads (r_aad_json r)) (\<lambda>document.
        case document of
          JObj aad \<Rightarrow>
            (case map_of aad (lit ''custom_attributes'') of
               None \<Rightarrow> validated_custom_attributes []
             | Some (JObj raw) \<Rightarrow> validated_custom_attributes raw
             | Some _ \<Rightarrow> Inl (ValueError ''''))
        | _ \<Rightarrow> Inl (ValueError '''')))
       (\<lambda>e. Inl (if is_value_error e then KeyStoreError ''KMIP key metadata integrity validation failed.'' else e))"

definition row_metadata :: "row \<Rightarrow> stored_key res" where
  "row_metadata r =
     bindE (row_attributes r) (\<lambda>attributes.
       Inr \<lparr>k_provider_id = r_provider_id r, k_key_id = r_key_id r, k_algorithm = r_algorithm r,
            k_length = r_key_length r, k_name = r_name r, k_state = r_state r,
            k_created_at = r_created_at r, k_activated_at = r_activated_at r,
            k_custom_attributes = attributes\<rparr>)"

definition decrypt_row :: "env \<Rightarrow> bytes \<Rightarrow> row \<Rightarrow> (stored_key \<times> bytes) res" where
  "decrypt_row env kek r =
     bindE (row_metadata r) (\<lambda>metadata.
     bindE (canonical_aad metadata) (\<lambda>expected_aad.
     bindE (utf8 (r_aad_json r)) (\<lambda>aad.
     bindE (guardE (aad = expected_aad) (KeyStoreError ''KMIP key metadata integrity validation failed.'')) (\<lambda>_.
     bindE (catchE (aes_open env kek (r_nonce r) (r_ciphertext r) expected_aad) (\<lambda>e.
              Inl (if e = InvalidTag then KeyStoreError ''KMIP wrapped key integrity validation failed.'' else e))) (\<lambda>plaintext.
     bindE (guardE (length plaintext = 32) (KeyStoreError ''KMIP wrapped key length is invalid.'')) (\<lambda>_.
       Inr (metadata, plaintext)))))))"

text \<open>The opening every operation shares: connect, verify the commitment, select and decrypt.\<close>

definition read_key :: "env \<Rightarrow> ustr \<Rightarrow> ustr \<Rightarrow> (database \<times> stored_key \<times> bytes) m" where
  "read_key env provider_id key_id =
     bindM connect (\<lambda>db.
     bindM (verify_store_commitment env db) (\<lambda>_.
     bindM (liftM (select_row env db provider_id key_id)) (\<lambda>r.
     bindM (getM (s_kek \<circ> w_self)) (\<lambda>kek.
     bindM (liftM (decrypt_row env kek r)) (\<lambda>(metadata, plaintext).
       returnM (db, metadata, plaintext))))))"

definition get_key :: "env \<Rightarrow> ustr \<Rightarrow> ustr \<Rightarrow> (stored_key \<times> bytes) m" where
  "get_key env provider_id key_id =
     bindM (read_key env provider_id key_id) (\<lambda>(db, metadata, plaintext). returnM (metadata, plaintext))"

definition get_metadata :: "env \<Rightarrow> ustr \<Rightarrow> ustr \<Rightarrow> stored_key m" where
  "get_metadata env provider_id key_id =
     bindM (read_key env provider_id key_id) (\<lambda>(db, metadata, plaintext). returnM metadata)"

text \<open>The rows an \<open>UPDATE ... WHERE ... AND state = 'Pre-Active'\<close> touches.\<close>

definition activates :: "stored_key \<Rightarrow> row \<Rightarrow> bool" where
  "activates updated r \<longleftrightarrow>
     row_key r = (k_provider_id updated, k_key_id updated) \<and> r_state r = PRE_ACTIVE"

definition activated_row :: "stored_key \<Rightarrow> bytes \<Rightarrow> bytes \<Rightarrow> ustr \<Rightarrow> row \<Rightarrow> row" where
  "activated_row updated nonce ciphertext aad r =
     r\<lparr>r_state := k_state updated, r_activated_at := k_activated_at updated,
       r_nonce := nonce, r_ciphertext := ciphertext, r_aad_json := aad\<rparr>"

definition update_row :: "stored_key \<Rightarrow> bytes \<Rightarrow> bytes \<Rightarrow> ustr \<Rightarrow> database \<Rightarrow> database res" where
  "update_row updated nonce ciphertext aad db =
     (let change = activated_row updated nonce ciphertext aad;
          rows = map (\<lambda>r. if activates updated r then change r else r) (wrapped_keys db)
      in bindE (guardE (list_all (list_all is_scalar)
                  ([k_state updated, aad, k_provider_id updated, k_key_id updated]
                   @ (case k_activated_at updated of None \<Rightarrow> [] | Some t \<Rightarrow> [t]))) UnicodeEncodeError) (\<lambda>_.
         bindE (guardE (list_all (row_checks \<circ> change) (filter (activates updated) (wrapped_keys db)))
                  IntegrityError) (\<lambda>_.
         bindE (guardE (length (filter (activates updated) (wrapped_keys db)) = 1)
                  (KeyStateError ''KMIP key activation was not applied.'')) (\<lambda>_.
           Inr (db\<lparr>wrapped_keys := rows\<rparr>)))))"

definition activate_key :: "env \<Rightarrow> ustr \<Rightarrow> ustr \<Rightarrow> stored_key m" where
  "activate_key env provider_id key_id =
     bindM (read_key env provider_id key_id) (\<lambda>(db, metadata, plaintext).
     if k_state metadata = ACTIVE then returnM metadata
     else
       bindM (guardM (k_state metadata = PRE_ACTIVE)
                (KeyStateError ''KMIP key cannot be activated from its current state.'')) (\<lambda>_.
       bindM (drawM (now_iso env)) (\<lambda>activated_at.
       let updated = metadata\<lparr>k_state := ACTIVE, k_activated_at := Some activated_at\<rparr> in
       bindM (drawM (\<lambda>i. urandom env i 12)) (\<lambda>nonce.
       bindM (liftM (canonical_aad updated)) (\<lambda>new_aad.
       bindM (getM (s_kek \<circ> w_self)) (\<lambda>kek.
       bindM (liftM (aes_seal env kek nonce plaintext new_aad)) (\<lambda>ciphertext.
       bindM (liftM (from_utf8 new_aad)) (\<lambda>aad_json.
       bindM (liftM (update_row updated nonce ciphertext aad_json db)) (\<lambda>view.
       bindM (commit_mutation env view) (\<lambda>_.
         returnM updated))))))))))"

definition locate_matches :: "ustr \<Rightarrow> ustr option \<Rightarrow> ustr option \<Rightarrow> row \<Rightarrow> bool" where
  "locate_matches provider state name r \<longleftrightarrow>
     r_provider_id r = provider
     \<and> (case state of None \<Rightarrow> True | Some s \<Rightarrow> r_state r = s)
     \<and> (case name of None \<Rightarrow> True | Some n \<Rightarrow> r_name r = Some n)"

definition locate_keys :: "env \<Rightarrow> ustr \<Rightarrow> ustr option \<Rightarrow> ustr option \<Rightarrow> int \<Rightarrow> ustr list m" where
  "locate_keys env provider_id state name limit =
     bindM (liftM (validated_uuid env provider_id ''provider_id'')) (\<lambda>normalized_provider.
     bindM (guardM (state \<in> {None, Some PRE_ACTIVE, Some ACTIVE})
              (ValueError ''state is outside the supported KMIP lifecycle.'')) (\<lambda>_.
     bindM (guardM (1 \<le> limit \<and> limit \<le> 1024) (ValueError ''limit must be between 1 and 1024.'')) (\<lambda>_.
     bindM (guardM (name_ok name) (ValueError ''name must contain 1 to 256 characters.'')) (\<lambda>_.
     bindM connect (\<lambda>db.
     bindM (verify_store_commitment env db) (\<lambda>_.
     bindM (guardM (case name of None \<Rightarrow> True | Some n \<Rightarrow> list_all is_scalar n) UnicodeEncodeError) (\<lambda>_.
       returnM (take (nat limit)
         (map r_key_id (sort_key (\<lambda>r. (r_created_at r, r_key_id r))
            (filter (locate_matches normalized_provider state name) (wrapped_keys db))))))))))))"

record lifecycle =
  lc_pre_active :: int
  lc_active :: int
  lc_total :: int

definition no_keys :: lifecycle where
  "no_keys = \<lparr>lc_pre_active = 0, lc_active = 0, lc_total = 0\<rparr>"

text \<open>One row counted: \<open>setdefault\<close> for its provider, then the two increments.\<close>

definition count_key :: "stored_key \<Rightarrow> (ustr \<times> lifecycle) list \<Rightarrow> (ustr \<times> lifecycle) list" where
  "count_key metadata counts =
     (let provider = (case map_of counts (k_provider_id metadata) of None \<Rightarrow> no_keys | Some c \<Rightarrow> c);
          counted = (if k_state metadata = PRE_ACTIVE
                     then provider\<lparr>lc_pre_active := lc_pre_active provider + 1\<rparr>
                     else provider\<lparr>lc_active := lc_active provider + 1\<rparr>)
      in dict_put (k_provider_id metadata) (counted\<lparr>lc_total := lc_total counted + 1\<rparr>) counts)"

definition lifecycle_counts :: "env \<Rightarrow> ustr list \<Rightarrow> (ustr \<times> lifecycle) list m" where
  "lifecycle_counts env provider_ids =
     bindM (liftM (mapE (\<lambda>p. validated_uuid env p ''provider_id'') provider_ids)) (\<lambda>providers.
     bindM connect (\<lambda>db.
     bindM (verify_store_commitment env db) (\<lambda>_.
     bindM (getM (s_kek \<circ> w_self)) (\<lambda>kek.
     bindM (liftM (mapE (decrypt_row env kek) (sort_key row_key (wrapped_keys db)))) (\<lambda>keys.
       returnM (foldl (\<lambda>counts (metadata, plaintext). count_key metadata counts)
                  (foldl (\<lambda>d p. dict_put p no_keys d) [] providers) keys))))))"

definition close :: "unit m" where
  "close = putM (\<lambda>w. w\<lparr>w_self := (w_self w)\<lparr>s_master_key := [], s_kek := []\<rparr>\<rparr>)"

end
