(* ===== verification/StoreEnvelope.thy ===== *)
theory StoreEnvelope
  imports Store
begin

text \<open>
  The KEK envelope file and the documents the store hashes: an envelope that was written opens to
  the same envelope, rendering and hashing never raise on well-formed data, and two databases with
  the same commitment have the same contents or exhibit a SHA-256 collision.
\<close>

subsection \<open>Encoding rendered documents\<close>

lemma utf8_encode_ascii: "list_all (\<lambda>c. c < 128) s \<Longrightarrow> utf8_encode s = Some (map byte_of s)"
proof -
  assume a: "list_all (\<lambda>c. c < 128) s"
  then have "list_all is_scalar s" by (auto simp: list_all_iff is_scalar_def)
  moreover have "concat (map utf8_char s) = map byte_of s"
    using a by (induction s) (simp_all add: utf8_char_def)
  ultimately show ?thesis by (simp add: utf8_encode_def)
qed

lemma utf8_decode_ascii: "list_all (\<lambda>c. c < 128) s \<Longrightarrow> utf8_decode (map byte_of s) = Some s"
  by (rule utf8_decode_encode [OF utf8_encode_ascii])

lemma dumped_utf8:
  assumes "ints_ok j"
  shows "bindE (json_dumps j) utf8 = Inr (map byte_of (dumps j))"
    "from_utf8 (map byte_of (dumps j)) = Inr (dumps j)"
  using dumps_ascii [OF assms]
  by (simp_all add: json_dumps_def assms utf8_def utf8_encode_ascii from_utf8_def utf8_decode_ascii)

lemma dumped_utf8_inj:
  "ints_ok j \<Longrightarrow> ints_ok j' \<Longrightarrow> map byte_of (dumps j) = map byte_of (dumps j') \<Longrightarrow> dumps j = dumps j'"
  by (metis dumped_utf8(2) sum.inject(2))

lemma dumps_inj: "wf_json j \<Longrightarrow> wf_json j' \<Longrightarrow> dumps j = dumps j' \<Longrightarrow> canon j = canon j'"
  by (metis loads_dumps option.inject)

lemma b64encode_ascii: "list_all (\<lambda>c. c < 128) (b64encode bs)"
proof -
  have code: "b64_code d < 128" for d :: nat
    unfolding b64_code_def by auto
  show ?thesis by (induction bs rule: b64encode.induct) (simp_all add: code)
qed

lemma ascii_scalar: "list_all (\<lambda>c. c < 128) s \<Longrightarrow> list_all is_scalar s"
  by (auto simp: list_all_iff is_scalar_def)

lemmas b64encode_scalar [simp] = ascii_scalar [OF b64encode_ascii]

lemma b64encode_inj: "b64encode x = b64encode y \<Longrightarrow> x = y"
  by (metis b64decode_b64encode option.inject)

lemma lit_scalar_cong: "list_all (\<lambda>c. of_char c < (128::nat)) s \<Longrightarrow> list_all is_scalar (lit s)"
  by (rule ascii_scalar) (simp add: lit_def list_all_iff)

subsection \<open>The envelope opens again\<close>

definition envelope_ok :: "kek_envelope \<Rightarrow> bool" where
  "envelope_ok e \<longleftrightarrow>
     length (e_kek e) = 32 \<and> 0 \<le> e_generation e \<and> list_all is_scalar (e_commitment e)
     \<and> (case (e_pending_generation e, e_pending_commitment e) of
          (None, None) \<Rightarrow> True
        | (Some g, Some c) \<Rightarrow> g = e_generation e + 1 \<and> list_all is_scalar c
        | _ \<Rightarrow> False)"

lemma json_text_object:
  assumes "ints_ok (JObj (kv # kvs))"
  shows "json_text env (map byte_of (dumps (JObj (kv # kvs)))) = Some (dumps (JObj (kv # kvs)))"
proof -
  obtain x xs where s: "sort_key fst (kv # kvs) = x # xs" by (cases "sort_key fst (kv # kvs)") auto
  then obtain u where u: "dumps (JObj (kv # kvs)) = 123 # 34 # u"
    unfolding dumps_JObj by (cases x) (simp add: joined_Cons quoted_def)
  have "4 \<le> length (dumps (JObj (kv # kvs)))"
    unfolding dumps_JObj s by (cases x) (simp add: joined_Cons quoted_def)
  moreover have "byte_of 123 \<notin> {0, 0xef, 0xfe, 0xff}" "byte_of 34 \<noteq> 0" by (simp_all add: byte_of_def)
  ultimately show ?thesis
    using utf8_decode_ascii [OF dumps_ascii [OF assms]] unfolding json_text_def u by simp
qed

lemma payload_wf:
  assumes "envelope_ok e" and "ints_ok (envelope_payload e)"
  shows "wf_json (envelope_payload e)"
  using assms
  by (auto simp: envelope_payload_def envelope_ok_def opt_int_def opt_str_def lit_def is_scalar_def
      split: option.splits)

lemma load_payload_canon:
  assumes "envelope_ok e" and "ints_ok (envelope_payload e)"
  shows "load_payload (canon (envelope_payload e)) = Inr e"
proof -
  obtain kvs where k: "envelope_payload e = JObj kvs" and d: "distinct (map fst kvs)"
    and m: "map_of kvs (lit ''kek'') = Some (JStr (b64encode (e_kek e)))"
      "map_of kvs (lit ''generation'') = Some (JInt (e_generation e))"
      "map_of kvs (lit ''commitment'') = Some (JStr (e_commitment e))"
      "map_of kvs (lit ''pending_generation'') = Some (opt_int (e_pending_generation e))"
      "map_of kvs (lit ''pending_commitment'') = Some (opt_str (e_pending_commitment e))"
    by (simp add: envelope_payload_def)
  show ?thesis
    using assms(1) unfolding k canon_object
    by (auto simp: load_payload_def map_of_canon_fields [OF d] m b64decode_b64encode envelope_ok_def
        opt_int_def opt_str_def split: option.splits)
qed

lemma open_written:
  assumes env: "env_ok env" and e: "envelope_ok e" and m: "length master = 32"
    and w: "envelope_file env master e nonce = Inr content" and n: "length nonce = 12"
  shows "open_kek env master content = Inr e"
proof -
  let ?p = "map byte_of (dumps (envelope_payload e))"
  let ?c = "aes_encrypt env master nonce ?p KEK_AAD"
  define fields where "fields = [(lit ''format'', JStr KEK_ENVELOPE_FORMAT),
      (lit ''nonce'', JStr (b64encode nonce)), (lit ''ciphertext'', JStr (b64encode ?c))]"
  let ?d = "JObj fields"
  have df: "distinct (map fst fields)" by (simp add: fields_def)
  have i: "ints_ok (envelope_payload e)"
    using w by (auto simp: envelope_file_def json_dumps_def bindE_Inr_iff split: if_splits)
  have wf: "wf_json ?d"
    by (simp add: fields_def KEK_ENVELOPE_FORMAT_def lit_scalar_cong)
  then have ad: "list_all (\<lambda>c. c < 128) (dumps ?d @ [10])"
    using dumps_ascii [OF wf_ints_ok [OF wf]] by simp
  have "content = map byte_of (dumps ?d @ [10])"
    using w m n utf8_encode_ascii [OF ad] wf_ints_ok [OF wf]
    unfolding envelope_file_def dumped_utf8(1) [OF i] fields_def
    by (simp add: aes_seal_def aes_new_def aes_nonce_def json_dumps_def utf8_def)
  then have t: "from_utf8 content = Inr (dumps ?d @ [10])"
    using utf8_decode_ascii [OF ad] by (simp add: from_utf8_def)
  have l: "json_loads (dumps ?d @ [10]) = Inr (canon ?d)"
    using loads_object [OF wf, of "[10]"] by (simp add: json_loads_def skip_ws_def is_ws_def del: dumps.simps canon.simps)
  have p: "json_loads_bytes env ?p = Inr (canon (envelope_payload e))"
  proof -
    have "json_text env ?p = Some (dumps (envelope_payload e))"
      using i unfolding envelope_payload_def by (rule json_text_object)
    then show ?thesis
      using loads_dumps [OF payload_wf [OF e i]] by (simp add: json_loads_bytes_def json_loads_def)
  qed
  have "aes_open env master nonce ?c KEK_AAD = Inr ?p"
    using env_okD(1) [OF env] m n by (simp add: aes_open_def aes_new_def aes_nonce_def)
  then show ?thesis
    using e p load_payload_canon [OF e i]
    unfolding open_kek_def t bindE_simps l canon_object json.case
      decode_envelope_value_def map_of_canon_fields [OF df]
    by (simp add: fields_def b64decode_b64encode KEK_ENVELOPE_FORMAT_def
        LEGACY_KEK_ENVELOPE_FORMAT_def envelope_ok_def)
qed

subsection \<open>The commitment binds the database\<close>

definition row_ok :: "row \<Rightarrow> bool" where
  "row_ok r \<longleftrightarrow> row_checks r \<and> row_binds r"

text \<open>What SQLite enforces of the tables, and the schema version the store requires.\<close>

definition db_ok :: "database \<Rightarrow> bool" where
  "db_ok db \<longleftrightarrow>
     schema_ready db \<and> distinct (map fst (store_metadata db))
     \<and> list_all (\<lambda>(n, v). list_all is_scalar n \<and> list_all is_scalar v) (store_metadata db)
     \<and> map_of (store_metadata db) (lit ''schema_version'') = Some (int_text STORE_SCHEMA_VERSION)
     \<and> distinct (map row_key (wrapped_keys db)) \<and> list_all row_ok (wrapped_keys db)"

definition document_bytes :: "database \<Rightarrow> bytes" where
  "document_bytes db = map byte_of (dumps (store_document db))"

definition commitment :: "env \<Rightarrow> database \<Rightarrow> ustr" where
  "commitment env db = hex_of_bytes (sha256 env (document_bytes db))"

lemma row_document_wf: "row_ok r \<Longrightarrow> wf_json (row_document r)"
  by (auto simp: row_ok_def row_checks_def row_binds_def row_document_def opt_str_def int_ok_def
      lit_scalar_cong digs.simps split: option.splits)

lemma list_all_sort_key [simp]: "list_all P (sort_key f xs) = list_all P xs"
  by (simp add: list_all_iff)

lemma store_document_wf:
  assumes "db_ok db"
  shows "wf_json (store_document db)"
proof -
  have "list_all wf_json (map row_document (sort_key row_key (wrapped_keys db)))"
    using assms by (auto simp: db_ok_def list_all_iff row_document_wf)
  moreover have "list_all wf_json (map (\<lambda>(n, v). JArr [JStr n, JStr v]) (sort_key fst (store_metadata db)))"
    using assms by (auto simp: db_ok_def list_all_iff)
  ultimately show ?thesis
    by (simp add: store_document_def STORE_COMMITMENT_FORMAT_def lit_scalar_cong)
qed

lemma store_commitment_total: "db_ok db \<Longrightarrow> store_commitment env db = Inr (commitment env db)"
  using dumped_utf8(1) [OF wf_ints_ok [OF store_document_wf]]
  by (simp add: store_commitment_def commitment_def document_bytes_def db_ok_def)

lemma hex_of_bytes_Cons:
  "hex_of_bytes (b # bs) = hex_code (unat b div 16) # hex_code (unat b mod 16) # hex_of_bytes bs"
  by (simp add: hex_of_bytes_def)

lemma hex_code_inj: "x < 16 \<Longrightarrow> y < 16 \<Longrightarrow> hex_code x = hex_code y \<longleftrightarrow> x = y"
  by (metis hex_value_code option.inject)

lemma unat_nibbles: "unat (b :: byte) div 16 < 16" "unat b mod 16 < 16"
  using unat_byte_less [of b] by linarith+

lemma hex_of_bytes_inj: "hex_of_bytes xs = hex_of_bytes ys \<Longrightarrow> xs = ys"
proof (induction xs arbitrary: ys)
  case Nil
  then show ?case by (cases ys) (simp_all add: hex_of_bytes_Cons, simp add: hex_of_bytes_def)
next
  case (Cons x xs)
  then obtain y ys' where ys: "ys = y # ys'" by (cases ys) (simp_all add: hex_of_bytes_Cons, simp add: hex_of_bytes_def)
  with Cons.prems have q: "unat x div 16 = unat y div 16" "unat x mod 16 = unat y mod 16"
    and r: "hex_of_bytes xs = hex_of_bytes ys'"
    by (simp_all add: hex_of_bytes_Cons hex_code_inj unat_nibbles)
  from q have "unat x = unat y" by (metis div_mult_mod_eq)
  then have "x = y" by (rule word_unat_eq_iff [THEN iffD2])
  with Cons.IH [OF r] ys show ?case by simp
qed

lemma hex_of_bytes_length: "length (hex_of_bytes bs) = 2 * length bs"
  by (induction bs) (simp_all add: hex_of_bytes_Cons, simp add: hex_of_bytes_def)

lemma hex_of_bytes_scalar: "list_all is_scalar (hex_of_bytes bs)"
proof (induction bs)
  case (Cons b bs)
  have "is_scalar (hex_code d)" if "d < 16" for d :: nat
    using that by (simp add: is_scalar_def hex_code_def)
  with Cons show ?case by (simp add: hex_of_bytes_Cons unat_nibbles)
qed (simp add: hex_of_bytes_def)

lemma commitment_text:
  assumes "env_ok env"
  shows "commitment env db \<noteq> []" "list_all is_scalar (commitment env db)"
  using hex_of_bytes_length [of "sha256 env (document_bytes db)"] env_okD(2) [OF assms]
  by (auto simp: commitment_def hex_of_bytes_scalar)

lemma canon_opt_str [simp]: "canon (opt_str x) = opt_str x"
  by (simp add: opt_str_def split: option.splits)

lemma opt_str_inject [simp]: "opt_str x = opt_str y \<longleftrightarrow> x = y"
  by (auto simp: opt_str_def split: option.splits)

lemma canon_field_eq:
  assumes "canon (JObj xs) = canon (JObj ys)" and "distinct (map fst xs)" and "distinct (map fst ys)"
  shows "map_option canon (map_of xs k) = map_option canon (map_of ys k)"
proof -
  have "canon_fields xs = canon_fields ys" using assms(1) by (simp add: canon_object del: canon.simps)
  then show ?thesis using assms(2,3) by (metis map_of_canon_fields)
qed

lemma row_document_inj:
  assumes "canon (row_document r) = canon (row_document s)"
  shows "r = s"
proof -
  note eq = canon_field_eq [OF assms [unfolded row_document_def]]
  show ?thesis
    using eq [of "lit ''provider_id''"] eq [of "lit ''key_id''"] eq [of "lit ''algorithm''"]
      eq [of "lit ''key_length''"] eq [of "lit ''name''"] eq [of "lit ''state''"] eq [of "lit ''created_at''"]
      eq [of "lit ''activated_at''"] eq [of "lit ''nonce''"] eq [of "lit ''ciphertext''"] eq [of "lit ''aad_json''"]
    by (simp add: b64encode_inj)
qed

lemma store_document_inj:
  assumes "canon (store_document db) = canon (store_document db')"
  shows "sort_key row_key (wrapped_keys db) = sort_key row_key (wrapped_keys db')"
    and "sort_key fst (store_metadata db) = sort_key fst (store_metadata db')"
proof -
  note eq = canon_field_eq [OF assms [unfolded store_document_def]]
  have "map (canon \<circ> row_document) (sort_key row_key (wrapped_keys db))
      = map (canon \<circ> row_document) (sort_key row_key (wrapped_keys db'))"
    using eq [of "lit ''keys''"] by simp
  then show "sort_key row_key (wrapped_keys db) = sort_key row_key (wrapped_keys db')"
    by (rule map_injective) (simp add: inj_def row_document_inj)
  have "map (canon \<circ> (\<lambda>(n, v). JArr [JStr n, JStr v])) (sort_key fst (store_metadata db))
      = map (canon \<circ> (\<lambda>(n, v). JArr [JStr n, JStr v])) (sort_key fst (store_metadata db'))"
    using eq [of "lit ''metadata''"] by simp
  then show "sort_key fst (store_metadata db) = sort_key fst (store_metadata db')"
    by (rule map_injective) (auto simp: inj_def)
qed

lemma same_commitment:
  assumes "db_ok db" and "db_ok db'" and "commitment env db = commitment env db'"
  shows "(sort_key row_key (wrapped_keys db) = sort_key row_key (wrapped_keys db')
           \<and> sort_key fst (store_metadata db) = sort_key fst (store_metadata db'))
         \<or> (document_bytes db \<noteq> document_bytes db'
             \<and> sha256 env (document_bytes db) = sha256 env (document_bytes db'))"
proof (cases "dumps (store_document db) = dumps (store_document db')")
  case True
  then have "canon (store_document db) = canon (store_document db')"
    by (rule dumps_inj [OF store_document_wf [OF assms(1)] store_document_wf [OF assms(2)]])
  then show ?thesis using store_document_inj by blast
next
  case False
  then have "document_bytes db \<noteq> document_bytes db'" unfolding document_bytes_def
    using dumped_utf8_inj wf_ints_ok store_document_wf assms(1,2) by blast
  moreover have "sha256 env (document_bytes db) = sha256 env (document_bytes db')"
    using assms(3) hex_of_bytes_inj by (simp add: commitment_def)
  ultimately show ?thesis by blast
qed

end
