(* ===== verification/StoreCrash.thy ===== *)
theory StoreCrash
  imports StoreEnvelope
begin

text \<open>
  Crash consistency of the two-phase commit between the envelope file and the database: under
  every outcome of every durable effect, the envelope on disk and the envelope in memory vouch for
  the committed database, and the store can be opened again.
\<close>

definition opened :: "env \<Rightarrow> bytes \<Rightarrow> disk \<Rightarrow> kek_envelope \<Rightarrow> bool" where
  "opened env master d e \<longleftrightarrow> (\<exists>c. d_kek d = Some c \<and> open_kek env master c = Inr e)"

definition sound :: "bytes \<Rightarrow> kek_envelope \<Rightarrow> bool" where
  "sound kek e \<longleftrightarrow> envelope_ok e \<and> ints_ok (envelope_payload e) \<and> e_kek e = kek \<and> e_commitment e \<noteq> []"

text \<open>The envelope vouches for the database, as its settled or as its pending state.\<close>

definition covers :: "env \<Rightarrow> kek_envelope \<Rightarrow> database \<Rightarrow> bool" where
  "covers env e db \<longleftrightarrow>
     e_commitment e = commitment env db \<or> e_pending_commitment e = Some (commitment env db)"

definition kept :: "env \<Rightarrow> bytes \<Rightarrow> bytes \<Rightarrow> database \<Rightarrow> disk \<Rightarrow> bool" where
  "kept env master kek db d \<longleftrightarrow>
     d_db d = Some db \<and> db_ok db \<and> (\<exists>e. opened env master d e \<and> sound kek e \<and> covers env e db)"

definition held :: "env \<Rightarrow> bytes \<Rightarrow> bytes \<Rightarrow> database \<Rightarrow> store \<Rightarrow> bool" where
  "held env master kek db s \<longleftrightarrow>
     \<not> s_read_only s \<and> s_master_key s = master \<and> s_kek s = kek
     \<and> sound kek (s_envelope s) \<and> covers env (s_envelope s) db"

definition consistent :: "env \<Rightarrow> bytes \<Rightarrow> bytes \<Rightarrow> database \<Rightarrow> world \<Rightarrow> bool" where
  "consistent env master kek db w \<longleftrightarrow>
     length master = 32 \<and> kept env master kek db (w_disk w) \<and> held env master kek db (w_self w)"

text \<open>Everything on disk but the envelope file is as before.\<close>

definition same_files :: "world \<Rightarrow> world \<Rightarrow> bool" where
  "same_files w w' \<longleftrightarrow>
     d_db (w_disk w') = d_db (w_disk w) \<and> d_recovery (w_disk w') = d_recovery (w_disk w)
     \<and> d_journal (w_disk w') = d_journal (w_disk w)"

lemma same_files_refl [simp]: "same_files w w"
  by (simp add: same_files_def)

lemma same_files_trans: "same_files u v \<Longrightarrow> same_files v w \<Longrightarrow> same_files u w"
  by (simp add: same_files_def)

lemma same_files_draw [simp]: "same_files w (w'\<lparr>w_draw := n\<rparr>) = same_files w w'"
  by (simp add: same_files_def)

lemma same_filesD: "same_files w w' \<Longrightarrow> d_db (w_disk w') = d_db (w_disk w)"
  by (simp add: same_files_def)

subsection \<open>Writing the envelope\<close>

lemma replace_kek_outcome:
  assumes "replace_kek env content w = (r, w')"
  shows "w_self w' = w_self w"
    and "w_disk w' = (w_disk w)\<lparr>d_kek := Some content\<rparr> \<or> w_disk w' = w_disk w \<and> r \<noteq> Inr ()"
  using assms by (auto simp: replace_kek_def Let_def split: write_fault.splits)

lemma write_kek_outcome:
  assumes env: "env_ok env" and e: "envelope_ok e" and m: "length master = 32"
    and w: "write_kek_envelope env master e w = (r, w')"
  shows "w_self w' = w_self w" and "same_files w w'"
    and "opened env master (w_disk w') e \<and> ints_ok (envelope_payload e)
      \<or> w_disk w' = w_disk w \<and> r \<noteq> Inr ()"
proof -
  define nonce where "nonce = urandom env (w_draw w) 12"
  have n: "length nonce = 12" by (simp add: nonce_def env_okD [OF env])
  have "w_self w' = w_self w \<and> same_files w w' \<and> (opened env master (w_disk w') e \<and> ints_ok (envelope_payload e)
      \<or> w_disk w' = w_disk w \<and> r \<noteq> Inr ())"
  proof (cases "envelope_file env master e nonce")
    case (Inl x)
    with w show ?thesis by (auto simp: write_kek_envelope_def nonce_def)
  next
    case (Inr content)
    note o = open_written [OF env e m Inr n]
    have i: "ints_ok (envelope_payload e)"
      using Inr by (auto simp: envelope_file_def json_dumps_def bindE_Inr_iff split: if_splits)
    have "replace_kek env content (w\<lparr>w_draw := Suc (Suc (w_draw w))\<rparr>) = (r, w')"
      using w Inr by (simp add: write_kek_envelope_def nonce_def)
    from replace_kek_outcome [OF this] i o show ?thesis
      by (auto simp: opened_def same_files_def)
  qed
  then show "w_self w' = w_self w" and "same_files w w'"
    and "opened env master (w_disk w') e \<and> ints_ok (envelope_payload e)
      \<or> w_disk w' = w_disk w \<and> r \<noteq> Inr ()" by blast+
qed

lemma keptD:
  assumes "kept env master kek db d"
  shows "d_db d = Some db" "db_ok db"
  using assms by (auto simp: kept_def)

lemma write_envelope_outcome:
  assumes env: "env_ok env" and w: "consistent env master kek db w"
    and e: "envelope_ok e" "e_kek e = kek" "e_commitment e \<noteq> []" "covers env e db"
    and run: "write_envelope env e w = (r, w')"
  shows "consistent env master kek db w'" and "same_files w w'"
    and "r = Inr () \<Longrightarrow> opened env master (w_disk w') e \<and> sound kek e \<and> w_self w' = (w_self w)\<lparr>s_envelope := e\<rparr>"
proof -
  have m: "length master = 32" "s_master_key (w_self w) = master"
    using w by (auto simp: consistent_def held_def)
  obtain r1 w1 where r1: "write_kek_envelope env master e w = (r1, w1)" by fastforce
  note o = write_kek_outcome [OF env e(1) m(1) r1]
  have k: "kept env master kek db (w_disk w1)"
    using o(2,3) w e unfolding consistent_def kept_def sound_def by (auto dest: same_filesD)
  have r: "(r = r1 \<and> w' = w1 \<and> r1 \<noteq> Inr ()) \<or> (r1 = Inr () \<and> r = Inr () \<and> w' = w1\<lparr>w_self := (w_self w1)\<lparr>s_envelope := e\<rparr>\<rparr>)"
    using run r1 m(2) by (cases r1) (auto simp: write_envelope_def comp_def putM_def)
  show "consistent env master kek db w'"
    using r o k e w by (auto simp: consistent_def held_def sound_def)
  show "same_files w w'" using r o(2) by (auto simp: same_files_def)
  show "opened env master (w_disk w') e \<and> sound kek e \<and> w_self w' = (w_self w)\<lparr>s_envelope := e\<rparr>" if "r = Inr ()"
    using that r o e by (auto simp: sound_def)
qed

subsection \<open>Verifying\<close>

text \<open>In memory, the envelope is settled on the database.\<close>

definition settled_on :: "env \<Rightarrow> bytes \<Rightarrow> database \<Rightarrow> kek_envelope \<Rightarrow> bool" where
  "settled_on env kek db e \<longleftrightarrow> e = settled kek (e_generation e) (commitment env db)"

lemma settled_sel [simp]:
  "e_kek (settled k g c) = k" "e_generation (settled k g c) = g" "e_commitment (settled k g c) = c"
  "e_pending_generation (settled k g c) = None" "e_pending_commitment (settled k g c) = None"
  by (simp_all add: settled_def)

lemma settled_on_settled [simp]: "settled_on env kek db (settled kek g (commitment env db))"
  by (simp add: settled_on_def)

lemma settled_ok:
  "envelope_ok (settled kek g c) \<longleftrightarrow> length kek = 32 \<and> 0 \<le> g \<and> list_all is_scalar c"
  by (simp add: envelope_ok_def)

lemma sound_ok: "sound kek e \<Longrightarrow> length kek = 32 \<and> 0 \<le> e_generation e"
  by (auto simp: sound_def envelope_ok_def)

lemma pending_None_settled:
  assumes "sound kek e" and "e_pending_commitment e = None" and "e_commitment e = commitment env db"
  shows "settled_on env kek db e"
  using assms by (cases e) (auto simp: settled_on_def settled_def sound_def envelope_ok_def split: option.splits)

lemma pending_generation_Some:
  assumes "sound kek e" and "e_pending_commitment e = Some c"
  shows "e_pending_generation e = Some (e_generation e + 1)"
  using assms by (auto simp: sound_def envelope_ok_def split: option.splits)

lemma verify_outcome:
  assumes env: "env_ok env" and w: "consistent env master kek db w"
    and run: "verify_store_commitment env db w = (r, w')"
  shows "consistent env master kek db w'" and "same_files w w'"
    and "r = Inr () \<Longrightarrow> settled_on env kek db (s_envelope (w_self w'))"
    and "r = Inr () \<Longrightarrow> e_generation (s_envelope (w_self w'))
      \<in> {e_generation (s_envelope (w_self w)), e_generation (s_envelope (w_self w)) + 1}"
proof -
  let ?e = "s_envelope (w_self w)"
  have h: "held env master kek db (w_self w)" and ok: "db_ok db"
    using w by (auto simp: consistent_def kept_def)
  then have s: "sound kek ?e" and c: "covers env ?e db" by (auto simp: held_def)
  note ct = commitment_text [OF env, of db]
  note wr = write_envelope_outcome [OF env w]
  have n: "e_commitment ?e \<noteq> []" using s by (simp add: sound_def)
  have obs: "verify_store_commitment env db w =
      (if commitment env db = e_commitment ?e
       then (if e_pending_commitment ?e \<noteq> None
             then write_envelope env (settled kek (e_generation ?e) (e_commitment ?e)) else returnM ())
       else if Some (commitment env db) = e_pending_commitment ?e
       then (case e_pending_generation ?e of
             None \<Rightarrow> raiseM AssertionError
           | Some g \<Rightarrow> write_envelope env (settled kek g (commitment env db)))
       else raiseM (KeyStoreError ''KMIP operational store rollback or integrity validation failed.'')) w"
    using h n unfolding verify_store_commitment_def store_commitment_total [OF ok] held_def
    by (simp add: Let_def split: option.split)
  have base: "verify_store_commitment env db w =
      (if commitment env db = e_commitment ?e
       then (if e_pending_commitment ?e \<noteq> None
             then write_envelope env (settled kek (e_generation ?e) (commitment env db)) else returnM ()) w
       else write_envelope env (settled kek (e_generation ?e + 1) (commitment env db)) w)"
  proof (cases "commitment env db = e_commitment ?e")
    case False
    with c have p: "e_pending_commitment ?e = Some (commitment env db)" by (auto simp: covers_def)
    from pending_generation_Some [OF s p] show ?thesis unfolding obs p using False by simp
  qed (simp add: obs)
  have st: "envelope_ok (settled kek g (commitment env db))" "e_kek (settled kek g (commitment env db)) = kek"
    "e_commitment (settled kek g (commitment env db)) \<noteq> []"
    "covers env (settled kek g (commitment env db)) db" if "0 \<le> g" for g
    using that ct sound_ok [OF s] by (simp_all add: settled_ok covers_def)
  have "consistent env master kek db w' \<and> same_files w w'
      \<and> (r = Inr () \<longrightarrow> settled_on env kek db (s_envelope (w_self w'))
          \<and> e_generation (s_envelope (w_self w')) \<in> {e_generation ?e, e_generation ?e + 1})"
  proof (cases "commitment env db = e_commitment ?e \<and> e_pending_commitment ?e = None")
    case True
    then have "w' = w" using run unfolding base by (simp add: returnM_def)
    with True w pending_None_settled [OF s] show ?thesis by simp
  next
    case False
    then obtain g where gg: "g \<in> {e_generation ?e, e_generation ?e + 1}" and g: "0 \<le> g" "write_envelope env (settled kek g (commitment env db)) w = (r, w')"
      using run sound_ok [OF s] that [of "e_generation ?e"] that [of "e_generation ?e + 1"]
      unfolding base by (auto split: if_splits)
    from wr [OF st [OF g(1)] g(2)] gg show ?thesis by auto
  qed
  then show "consistent env master kek db w'" and "same_files w w'"
    and "r = Inr () \<Longrightarrow> settled_on env kek db (s_envelope (w_self w'))"
    and "r = Inr () \<Longrightarrow> e_generation (s_envelope (w_self w'))
      \<in> {e_generation (s_envelope (w_self w)), e_generation (s_envelope (w_self w)) + 1}" by simp_all
qed

subsection \<open>Committing\<close>

lemma commit_outcome:
  assumes "commit env view w = (r, w')"
  shows "w_self w' = w_self w" "d_kek (w_disk w') = d_kek (w_disk w)"
    "d_recovery (w_disk w') = d_recovery (w_disk w)" "d_journal (w_disk w') = d_journal (w_disk w)"
    "d_db (w_disk w') = Some view \<and> (r = Inr () \<or> r = Inl PowerLoss)
     \<or> d_db (w_disk w') = d_db (w_disk w) \<and> (r = Inl OperationalError \<or> r = Inl PowerLoss)"
  using assms by (auto simp: commit_def Let_def split: commit_fault.splits)

lemma commit_keeps:
  assumes w: "consistent env master kek db w" and ok: "db_ok view"
    and m: "covers env (s_envelope (w_self w)) view"
    and d: "opened env master (w_disk w) e" "sound kek e" "covers env e view"
    and run: "commit env view w = (r, w')"
  shows "r = Inr () \<Longrightarrow> consistent env master kek view w'"
    and "r = Inl PowerLoss \<Longrightarrow> consistent env master kek db w' \<or> consistent env master kek view w'"
    and "r \<noteq> Inr () \<Longrightarrow> r \<noteq> Inl PowerLoss \<Longrightarrow> r = Inl OperationalError \<and> consistent env master kek db w'"
proof -
  note o = commit_outcome [OF run]
  have same: "consistent env master kek db w'" if "d_db (w_disk w') = d_db (w_disk w)"
    using w that o by (auto simp: consistent_def kept_def opened_def)
  have new: "consistent env master kek view w'" if "d_db (w_disk w') = Some view"
    using w that o d m ok by (auto simp: consistent_def kept_def opened_def held_def)
  show "r = Inr () \<Longrightarrow> consistent env master kek view w'"
    and "r = Inl PowerLoss \<Longrightarrow> consistent env master kek db w' \<or> consistent env master kek view w'"
    and "r \<noteq> Inr () \<Longrightarrow> r \<noteq> Inl PowerLoss \<Longrightarrow> r = Inl OperationalError \<and> consistent env master kek db w'"
    using o(5) same new by auto
qed

lemma commit_mutation_run:
  assumes "db_ok view" and "held env master kek db (w_self w)"
    and g: "g = e_generation (s_envelope (w_self w))" and c: "c = e_commitment (s_envelope (w_self w))"
    and p: "p = \<lparr>e_kek = kek, e_generation = g, e_commitment = c,
              e_pending_generation = Some (g + 1), e_pending_commitment = Some (commitment env view)\<rparr>"
  shows "commit_mutation env view w =
     bindM (write_envelope env p) (\<lambda>_.
     bindM (catchM (commit env view) (\<lambda>e.
              if is_exception e
              then bindM (write_envelope env (settled kek g c)) (\<lambda>_. raiseM e)
              else raiseM e)) (\<lambda>_.
       write_envelope env (settled kek (g + 1) (commitment env view)))) w"
proof -
  have k: "s_kek (w_self w) = kek" using assms(2) by (simp add: held_def)
  show ?thesis
    unfolding commit_mutation_def g c p Let_def store_commitment_total [OF assms(1)] bindM_steps k ..
qed

text \<open>
  Every outcome of the two-phase commit leaves the store consistent on the old or on the new
  database; when it returns, on the new one, settled and with the next generation.
\<close>

lemma commit_mutation_outcome:
  assumes env: "env_ok env" and w: "consistent env master kek db w"
    and s: "settled_on env kek db (s_envelope (w_self w))" and ok: "db_ok view"
    and run: "commit_mutation env view w = (r, w')"
  shows "consistent env master kek db w' \<or> consistent env master kek view w'"
    and "r = Inr () \<Longrightarrow> consistent env master kek view w'
       \<and> s_envelope (w_self w') = settled kek (e_generation (s_envelope (w_self w)) + 1) (commitment env view)"
proof -
  define g where "g = e_generation (s_envelope (w_self w))"
  define c where "c = e_commitment (s_envelope (w_self w))"
  define p where "p = \<lparr>e_kek = kek, e_generation = g, e_commitment = c,
      e_pending_generation = Some (g + 1), e_pending_commitment = Some (commitment env view)\<rparr>"
  have h: "held env master kek db (w_self w)" using w by (simp add: consistent_def)
  then have sk: "sound kek (s_envelope (w_self w))" by (simp add: held_def)
  have cdb: "c = commitment env db" using s by (simp add: c_def settled_on_def) (metis settled_sel(3))
  note ct = commitment_text [OF env]
  have gk: "0 \<le> g" "length kek = 32" using sound_ok [OF sk] by (simp_all add: g_def)
  have pok: "envelope_ok p" "e_kek p = kek" "e_commitment p \<noteq> []" "covers env p db" "covers env p view"
    using gk ct by (simp_all add: p_def envelope_ok_def cdb covers_def)
  have sok: "envelope_ok (settled kek i (commitment env d))" "e_kek (settled kek i (commitment env d)) = kek"
    "e_commitment (settled kek i (commitment env d)) \<noteq> []" "covers env (settled kek i (commitment env d)) d"
    if "0 \<le> i" for i d
    using that gk ct by (simp_all add: settled_ok covers_def)
  note run' = run [unfolded commit_mutation_run [OF ok h g_def c_def p_def]]
  have "(consistent env master kek db w' \<or> consistent env master kek view w')
      \<and> (r = Inr () \<longrightarrow> consistent env master kek view w'
           \<and> s_envelope (w_self w') = settled kek (g + 1) (commitment env view))"
    using run'
  proof (cases rule: bindM_cases)
    case (raised e)
    with write_envelope_outcome(1) [OF env w pok(1-4) raised(1)] show ?thesis by simp
  next
    case (went_on u w1)
    note o1 = write_envelope_outcome [OF env w pok(1-4) went_on(1)]
    have m1: "covers env (s_envelope (w_self w1)) view" using o1(3) pok(5) by simp
    obtain r2 w2 where c2: "commit env view w1 = (r2, w2)" by fastforce
    note k2 = commit_keeps [OF o1(1) ok m1 _ _ pok(5) c2]
    have od: "opened env master (w_disk w1) p" "sound kek p" using o1(3) by simp_all
    show ?thesis
    proof (cases r2)
      case (Inr x)
      then have v: "consistent env master kek view w2" using k2(1) od by simp
      have "write_envelope env (settled kek (g + 1) (commitment env view)) w2 = (r, w')"
        using went_on(2) c2 Inr by (simp add: catchM_def bindM_def)
      from write_envelope_outcome [OF env v sok this] gk show ?thesis by auto
    next
      case (Inl x)
      show ?thesis
      proof (cases "x = PowerLoss")
        case True
        then show ?thesis using went_on(2) c2 Inl k2(2) od by (auto simp: catchM_def bindM_def raiseM_def)
      next
        case False
        then have x: "x = OperationalError" and d: "consistent env master kek db w2"
          using k2(3) od Inl by auto
        have "bindM (write_envelope env (settled kek g (commitment env db))) (\<lambda>_. raiseM x) w2 = (r, w')"
          using went_on(2) c2 Inl x by (auto simp: catchM_def bindM_def raiseM_def cdb split: prod.splits sum.splits)
        then show ?thesis
          by (cases rule: bindM_cases)
            (use write_envelope_outcome(1) [OF env d sok] gk in \<open>auto simp: raiseM_def\<close>)
      qed
    qed
  qed
  then show "consistent env master kek db w' \<or> consistent env master kek view w'"
    and "r = Inr () \<Longrightarrow> consistent env master kek view w'
       \<and> s_envelope (w_self w') = settled kek (e_generation (s_envelope (w_self w)) + 1) (commitment env view)"
    by (simp_all add: g_def)
qed

subsection \<open>Opening the store again\<close>

text \<open>From this effect on, nothing fails.\<close>

definition calm :: "env \<Rightarrow> nat \<Rightarrow> bool" where
  "calm env n \<longleftrightarrow> (\<forall>i \<ge> n. write_fault_at env i = W_Ok \<and> commit_fault_at env i = C_Ok)"

lemma calmD: "calm env n \<Longrightarrow> write_fault_at env n = W_Ok" "calm env n \<Longrightarrow> commit_fault_at env n = C_Ok"
  "calm env n \<Longrightarrow> calm env (Suc n)"
  by (auto simp: calm_def)

lemma envelope_file_total:
  assumes "ints_ok (envelope_payload e)" and "length master = 32" and "length nonce = 12"
  shows "\<exists>content. envelope_file env master e nonce = Inr content"
proof -
  let ?d = "JObj [(lit ''format'', JStr KEK_ENVELOPE_FORMAT), (lit ''nonce'', JStr (b64encode nonce)),
      (lit ''ciphertext'', JStr (b64encode (aes_encrypt env master nonce (map byte_of (dumps (envelope_payload e))) KEK_AAD)))]"
  have "ints_ok ?d" by simp
  then have "list_all (\<lambda>c. c < 128) (dumps ?d @ [10])" using dumps_ascii [of ?d] by simp
  from utf8_encode_ascii [OF this] show ?thesis
    using assms(2,3) unfolding envelope_file_def dumped_utf8(1) [OF assms(1)]
    by (simp add: aes_seal_def aes_new_def aes_nonce_def
        json_dumps_def utf8_def del: dumps.simps)
qed

lemma write_envelope_calm:
  assumes "env_ok env" and "ints_ok (envelope_payload e)" and "length (s_master_key (w_self w)) = 32"
    and "calm env (w_io w)"
  shows "\<exists>w'. write_envelope env e w = (Inr (), w') \<and> w_io w' = Suc (w_io w)"
proof -
  obtain c where "envelope_file env (s_master_key (w_self w)) e (urandom env (w_draw w) 12) = Inr c"
    using envelope_file_total assms(2,3) env_okD(3) [OF assms(1)] by blast
  then show ?thesis
    using calmD(1) [OF assms(4)]
    by (simp add: write_envelope_def write_kek_envelope_def replace_kek_def bindM_def m_defs)
qed

lemma payload_ints:
  "ints_ok (envelope_payload e) \<longleftrightarrow> int_ok (e_generation e)
     \<and> (case e_pending_generation e of None \<Rightarrow> True | Some g \<Rightarrow> int_ok g)"
  by (simp add: envelope_payload_def opt_int_def opt_str_def split: option.splits)

lemma verify_calm:
  assumes env: "env_ok env" and w: "consistent env master kek db w" and c: "calm env (w_io w)"
  shows "\<exists>w'. verify_store_commitment env db w = (Inr (), w')"
proof -
  let ?e = "s_envelope (w_self w)"
  have h: "held env master kek db (w_self w)" and ok: "db_ok db" and m: "length (s_master_key (w_self w)) = 32"
    using w by (auto simp: consistent_def kept_def held_def)
  then have s: "sound kek ?e" and cv: "covers env ?e db" by (auto simp: held_def)
  have i: "ints_ok (envelope_payload ?e)" "e_commitment ?e \<noteq> []" using s by (simp_all add: sound_def)
  have wr: "\<exists>w'. write_envelope env (settled kek g x) w = (Inr (), w')" if "int_ok g" for g x
    using write_envelope_calm [OF env _ m c, of "settled kek g x"] that by (auto simp: payload_ints)
  have ip: "e_pending_commitment ?e = Some y \<Longrightarrow> int_ok (e_generation ?e + 1)" for y
    using i(1) pending_generation_Some [OF s] by (auto simp: payload_ints)
  show ?thesis
  proof (cases "commitment env db = e_commitment ?e")
    case True
    then show ?thesis
      using h i wr [of "e_generation ?e"]
      by (auto simp: verify_store_commitment_def store_commitment_total [OF ok] held_def returnM_def payload_ints Let_def)
  next
    case False
    with cv have p: "e_pending_commitment ?e = Some (commitment env db)" by (auto simp: covers_def)
    then show ?thesis
      using h i wr [OF ip [OF p]] False pending_generation_Some [OF s p]
      by (auto simp: verify_store_commitment_def store_commitment_total [OF ok] held_def)
  qed
qed

definition master_of :: "env \<Rightarrow> ustr \<Rightarrow> disk \<Rightarrow> bytes res" where
  "master_of env secrets_key d =
     bindE (master_key env secrets_key) (\<lambda>m. recovery_master env m (d_recovery d))"

lemma load_existing:
  assumes "master_of env sk (w_disk w) = Inr master" and "length master = 32"
    and "opened env master (w_disk w) e"
  shows "load_or_create_kek env sk ro w = (Inr (master, e), w)"
  using assms
  by (auto simp: master_of_def opened_def load_or_create_kek_def bindE_Inr_iff aes_new_def returnM_def)

lemma reopen:
  assumes env: "env_ok env" and k: "kept env master kek db (w_disk w)" and m: "length master = 32"
    and mk: "master_of env sk (w_disk w) = Inr master" and c: "calm env (w_io w)"
  shows "\<exists>w'. init_store env sk False w = (Inr (), w') \<and> consistent env master kek db w'
           \<and> settled_on env kek db (s_envelope (w_self w'))"
proof -
  obtain e where e: "opened env master (w_disk w) e" "sound kek e" "covers env e db"
    and db: "d_db (w_disk w) = Some db" "db_ok db"
    using k by (auto simp: kept_def)
  define w1 where "w1 = w\<lparr>w_self := \<lparr>s_read_only = False, s_master_key = master,
      s_kek = e_kek e, s_envelope = e\<rparr>, w_io := Suc (w_io w), w_disk := (w_disk w)\<lparr>d_db := Some db\<rparr>\<rparr>"
  have ready: "db\<lparr>schema_ready := True\<rparr> = db" using db(2) by (simp add: db_ok_def)
  have kn: "d_kek (w_disk w) \<noteq> None" using e(1) by (auto simp: opened_def)
  have w1: "consistent env master kek db w1"
    using k m e by (simp add: consistent_def w1_def held_def sound_def kept_def opened_def)
  have i: "initialize env (w\<lparr>w_self := w_self w1\<rparr>) = verify_store_commitment env db w1"
    using db calmD(2) [OF c]
    by (simp add: initialize_def connect_def create_tables_def commit_def w1_def ready db_ok_def)
  have "init_store env sk False w = verify_store_commitment env db w1"
    unfolding i [symmetric]
    using db kn load_existing [OF mk m e(1), of False] by (simp add: init_store_def w1_def)
  then show ?thesis
    using verify_calm [OF env w1] calmD(3) [OF c] verify_outcome [OF env w1] by (auto simp: w1_def)
qed

end
