(* ===== verification/StoreKeys.thy ===== *)
theory StoreKeys
  imports StoreCrash
begin

text \<open>
  The operations on keys against their abstract specification: the store is a map from provider
  and key identifier to metadata and key material. A row sealed under the KEK decrypts to what was
  sealed, \<open>create_key\<close> adds one entry, \<open>activate_key\<close> changes the state of one entry and not its
  material, and nothing else changes the map.
\<close>

subsection \<open>Custom attributes\<close>

definition json_pairs :: "(ustr \<times> ustr) list \<Rightarrow> (ustr \<times> json) list" where
  "json_pairs = map (\<lambda>(k, v). (k, JStr v))"

definition attribute_ok :: "ustr \<times> ustr \<Rightarrow> bool" where
  "attribute_ok kv \<longleftrightarrow>
     fst kv \<in> set VSPHERE_CUSTOM_ATTRIBUTES
     \<and> (\<exists>b. utf8_encode (snd kv) = Some b \<and> length b \<le> MAX_CUSTOM_ATTRIBUTE_VALUE_BYTES)"

lemma normalize_attributes_Inr:
  "normalize_attributes acc pairs = Inr res \<longleftrightarrow>
     (\<exists>ps. pairs = json_pairs ps \<and> res = acc @ ps \<and> list_all attribute_ok ps \<and> distinct (map fst ps)
       \<and> fst ` set ps \<inter> fst ` set acc = {})"
proof (induction acc pairs arbitrary: res rule: normalize_attributes.induct)
  case (1 acc)
  then show ?case by (auto simp: json_pairs_def)
next
  case (2 acc a v pairs)
  show ?case
  proof (cases "\<exists>s b. v = JStr s \<and> attribute_ok (a, s) \<and> a \<notin> fst ` set acc")
    case True
    then obtain s b where v: "v = JStr s" "attribute_ok (a, s)" "a \<notin> fst ` set acc"
      and b: "utf8_encode s = Some b" "length b \<le> MAX_CUSTOM_ATTRIBUTE_VALUE_BYTES" "a \<in> set VSPHERE_CUSTOM_ATTRIBUTES"
      by (auto simp: attribute_ok_def)
    have step: "normalize_attributes acc ((a, v) # pairs) = normalize_attributes (acc @ [(a, s)]) pairs"
      using v b by (simp add: utf8_def)
    have "(a, v) # pairs = json_pairs ps \<and> res = acc @ ps \<and> list_all attribute_ok ps \<and> distinct (map fst ps)
        \<and> fst ` set ps \<inter> fst ` set acc = {}
      \<longleftrightarrow> (\<exists>qs. ps = (a, s) # qs \<and> pairs = json_pairs qs \<and> res = (acc @ [(a, s)]) @ qs \<and> list_all attribute_ok qs
        \<and> distinct (map fst qs) \<and> fst ` set qs \<inter> fst ` set (acc @ [(a, s)]) = {})" for ps
      using v by (cases ps) (auto simp: json_pairs_def image_iff)
    then show ?thesis
      unfolding step using "2.IH" [of s, OF v(1) _ _ ] v b by (auto simp: utf8_def)
  next
    case False
    then have "\<nexists>r. normalize_attributes acc ((a, v) # pairs) = Inr r"
      by (auto simp: attribute_ok_def utf8_def or_raise_def split: json.splits option.splits)
    moreover have "\<not> ((a, v) # pairs = json_pairs ps \<and> list_all attribute_ok ps
        \<and> fst ` set ps \<inter> fst ` set acc = {})" for ps
      using False by (cases ps) (auto simp: json_pairs_def)
    ultimately show ?thesis by auto
  qed
qed

definition attributes_ok :: "(ustr \<times> ustr) list \<Rightarrow> bool" where
  "attributes_ok attrs \<longleftrightarrow> list_all attribute_ok attrs \<and> distinct (map fst attrs) \<and> sorted attrs
     \<and> length attrs \<le> length VSPHERE_CUSTOM_ATTRIBUTES"

lemma validated_attributes:
  "validated_custom_attributes raw = Inr attrs \<longleftrightarrow>
     (\<exists>ps. raw = json_pairs ps \<and> attrs = sort ps \<and> attributes_ok attrs)"
proof -
  have "attributes_ok (sort ps) \<longleftrightarrow> list_all attribute_ok ps \<and> distinct (map fst ps)
      \<and> length ps \<le> length VSPHERE_CUSTOM_ATTRIBUTES" for ps :: "(ustr \<times> ustr) list"
  proof -
    have "distinct (map fst (sort ps)) \<longleftrightarrow> distinct (map fst ps)" by (simp add: distinct_map)
    then show ?thesis by (simp add: attributes_ok_def list_all_iff)
  qed
  then show ?thesis
    by (auto simp: validated_custom_attributes_def bindE_Inr_iff normalize_attributes_Inr json_pairs_def)
qed

lemma validated_attributes_again:
  "attributes_ok attrs \<Longrightarrow> validated_custom_attributes (json_pairs attrs) = Inr attrs"
  unfolding validated_attributes
  by (rule exI [of _ attrs]) (simp add: attributes_ok_def sort_key_id_if_sorted)

lemma attributes_scalar:
  assumes "attributes_ok attrs" and "(k, v) \<in> set attrs"
  shows "list_all is_scalar k" "list_all is_scalar v"
proof -
  have a: "attribute_ok (k, v)" using assms by (auto simp: attributes_ok_def list_all_iff)
  then show "list_all is_scalar k"
    by (auto simp: attribute_ok_def VSPHERE_CUSTOM_ATTRIBUTES_def lit_scalar_cong)
  from a show "list_all is_scalar v"
    by (auto simp: attribute_ok_def utf8_encode_def split: if_splits)
qed

lemma canon_json_pairs:
  assumes "attributes_ok attrs"
  shows "canon_fields (json_pairs attrs) = json_pairs attrs"
proof -
  have "sorted (map fst attrs)"
    unfolding sorted_map
    by (rule sorted_wrt_mono_rel [of _ "(\<le>)"])
      (use assms in \<open>auto simp: attributes_ok_def less_eq_prod_def\<close>)
  then have "sorted (map fst (json_pairs attrs))" by (simp add: json_pairs_def comp_def case_prod_beta)
  then have "sort_key fst (json_pairs attrs) = json_pairs attrs" by (rule sort_key_id_if_sorted)
  then show ?thesis by (simp add: canon_fields_def) (simp add: json_pairs_def case_prod_beta)
qed

subsection \<open>A sealed row decrypts\<close>

definition metadata_ok :: "stored_key \<Rightarrow> bool" where
  "metadata_ok m \<longleftrightarrow>
     list_all (list_all is_scalar) [k_provider_id m, k_key_id m, k_algorithm m, k_state m, k_created_at m]
     \<and> (case k_name m of None \<Rightarrow> True | Some n \<Rightarrow> list_all is_scalar n)
     \<and> (case k_activated_at m of None \<Rightarrow> True | Some t \<Rightarrow> list_all is_scalar t)
     \<and> k_length m = 256 \<and> attributes_ok (k_custom_attributes m)"

lemma aad_document_fields: "distinct (map fst (aad_document m))"
  by (simp add: aad_document_def)

lemma aad_document_attributes:
  "map_of (aad_document m) (lit ''custom_attributes'') =
     (if k_custom_attributes m = [] then None else Some (JObj (json_pairs (k_custom_attributes m))))"
  by (simp add: aad_document_def json_pairs_def)

lemma json_pairs_wf:
  assumes "attributes_ok attrs"
  shows "wf_json (JObj (json_pairs attrs))"
proof -
  have "distinct (map fst (json_pairs attrs))"
    using assms by (simp add: attributes_ok_def json_pairs_def comp_def case_prod_beta)
  then show ?thesis
    using attributes_scalar [OF assms] by (auto simp: json_pairs_def list_all_iff)
qed

lemma aad_document_wf:
  assumes "metadata_ok m"
  shows "wf_json (JObj (aad_document m))"
proof -
  define attrs where "attrs = JObj (json_pairs (k_custom_attributes m))"
  have doc: "aad_document m = take 9 (aad_document m)
      @ (if k_custom_attributes m \<noteq> [] then [(lit ''custom_attributes'', attrs)] else [])"
    by (simp add: aad_document_def attrs_def json_pairs_def)
  have "wf_json attrs" unfolding attrs_def
    using assms by (intro json_pairs_wf) (simp add: metadata_ok_def)
  moreover have "int_ok 256" "int_ok STORE_SCHEMA_VERSION"
    by (simp_all add: int_ok_def STORE_SCHEMA_VERSION_def digs.simps)
  then have "list_all (\<lambda>(k, v). list_all is_scalar k \<and> wf_json v) (take 9 (aad_document m))"
    using assms by (simp add: aad_document_def metadata_ok_def opt_str_def lit_scalar_cong split: option.splits)
  ultimately have "list_all (\<lambda>(k, v). list_all is_scalar k \<and> wf_json v) (aad_document m)"
    by (subst doc) (simp add: lit_scalar_cong)
  then show ?thesis using aad_document_fields by simp
qed

lemma canonical_aad_run:
  assumes "metadata_ok m"
  shows "canonical_aad m = Inr (map byte_of (dumps (JObj (aad_document m))))"
    "from_utf8 (map byte_of (dumps (JObj (aad_document m)))) = Inr (dumps (JObj (aad_document m)))"
    "utf8 (dumps (JObj (aad_document m))) = Inr (map byte_of (dumps (JObj (aad_document m))))"
proof -
  have i: "ints_ok (JObj (aad_document m))" by (rule wf_ints_ok [OF aad_document_wf [OF assms]])
  have "map fst (aad_document m)
      = KEY_AAD_FIELDS @ (if k_custom_attributes m \<noteq> [] then [lit ''custom_attributes''] else [])"
    by (simp add: aad_document_def KEY_AAD_FIELDS_def)
  then show "canonical_aad m = Inr (map byte_of (dumps (JObj (aad_document m))))"
    unfolding canonical_aad_def using dumped_utf8(1) [OF i] by simp
  show "from_utf8 (map byte_of (dumps (JObj (aad_document m)))) = Inr (dumps (JObj (aad_document m)))"
    by (rule dumped_utf8(2) [OF i])
  show "utf8 (dumps (JObj (aad_document m))) = Inr (map byte_of (dumps (JObj (aad_document m))))"
    using dumped_utf8(1) [OF i] i by (simp add: json_dumps_def del: ints_ok.simps)
qed

lemma row_attributes_sealed:
  assumes m: "metadata_ok m" and "r_aad_json r = dumps (JObj (aad_document m))"
  shows "row_attributes r = Inr (k_custom_attributes m)"
proof -
  have a: "attributes_ok (k_custom_attributes m)" using m by (simp add: metadata_ok_def)
  have l: "json_loads (r_aad_json r) = Inr (JObj (canon_fields (aad_document m)))"
    using loads_dumps [OF aad_document_wf [OF m]] assms(2)
    by (simp add: json_loads_def canon_object del: dumps.simps canon.simps)
  have f: "map_of (canon_fields (aad_document m)) (lit ''custom_attributes'') =
      (if k_custom_attributes m = [] then None else Some (JObj (json_pairs (k_custom_attributes m))))"
    unfolding map_of_canon_fields [OF aad_document_fields] aad_document_attributes
    by (simp add: canon_object canon_json_pairs [OF a] del: canon.simps)
  show ?thesis
  proof (cases "k_custom_attributes m = []")
    case True
    then show ?thesis using validated_attributes_again [OF a] by (simp add: row_attributes_def l f json_pairs_def)
  next
    case False
    then show ?thesis using validated_attributes_again [OF a] by (simp add: row_attributes_def l f)
  qed
qed

lemma decrypt_sealed:
  assumes env: "env_ok env" and m: "metadata_ok m"
    and len: "length kek = 32" "length pt = 32" "length nonce = 12"
    and c: "c = aes_encrypt env kek nonce pt (map byte_of (dumps (JObj (aad_document m))))"
  shows "decrypt_row env kek (row_of m nonce c (dumps (JObj (aad_document m)))) = Inr (m, pt)"
proof -
  let ?r = "row_of m nonce c (dumps (JObj (aad_document m)))"
  have "row_attributes ?r = Inr (k_custom_attributes m)"
    by (rule row_attributes_sealed [OF m]) (simp add: row_of_def)
  then have md: "row_metadata ?r = Inr m" by (simp add: row_metadata_def row_of_def)
  have op: "aes_open env kek nonce c (map byte_of (dumps (JObj (aad_document m)))) = Inr pt"
    using len env_okD(1) [OF env] by (simp add: aes_open_def aes_new_def aes_nonce_def c)
  show ?thesis
    using len op canonical_aad_run [OF m]
    unfolding decrypt_row_def md by (simp add: row_of_def del: dumps.simps)
qed

lemma row_attributes_ok:
  assumes "row_attributes r = Inr attrs"
  shows "attributes_ok attrs"
proof -
  from assms obtain doc where "(case doc of
          JObj aad \<Rightarrow>
            (case map_of aad (lit ''custom_attributes'') of
               None \<Rightarrow> validated_custom_attributes []
             | Some (JObj raw) \<Rightarrow> validated_custom_attributes raw
             | Some _ \<Rightarrow> Inl (ValueError ''''))
        | _ \<Rightarrow> Inl (ValueError '''')) = Inr attrs"
    unfolding row_attributes_def catchE_Inr_iff bindE_Inr_iff by blast
  then have "\<exists>raw. validated_custom_attributes raw = Inr attrs"
    by (cases doc) (auto split: json.split_asm option.split_asm)
  then show ?thesis by (auto simp: validated_attributes)
qed

lemma decrypt_row_Inr:
  assumes "decrypt_row env kek r = Inr (m, pt)"
  shows "k_provider_id m = r_provider_id r" "k_key_id m = r_key_id r" "k_state m = r_state r"
    "k_algorithm m = r_algorithm r" "k_length m = r_key_length r" "k_name m = r_name r"
    "k_created_at m = r_created_at r" "k_activated_at m = r_activated_at r"
    "attributes_ok (k_custom_attributes m)" "length pt = 32"
proof -
  from assms obtain attrs where "row_attributes r = Inr attrs" "length pt = 32" and m: "m =
     \<lparr>k_provider_id = r_provider_id r, k_key_id = r_key_id r, k_algorithm = r_algorithm r,
            k_length = r_key_length r, k_name = r_name r, k_state = r_state r,
            k_created_at = r_created_at r, k_activated_at = r_activated_at r,
            k_custom_attributes = attrs\<rparr>"
    by (auto simp: decrypt_row_def row_metadata_def bindE_Inr_iff)
  moreover from this(1) have "attributes_ok attrs" by (rule row_attributes_ok)
  ultimately show "k_provider_id m = r_provider_id r" "k_key_id m = r_key_id r" "k_state m = r_state r"
    "k_algorithm m = r_algorithm r" "k_length m = r_key_length r" "k_name m = r_name r"
    "k_created_at m = r_created_at r" "k_activated_at m = r_activated_at r"
    "attributes_ok (k_custom_attributes m)" "length pt = 32"
    by simp_all
qed

lemma decrypted_metadata_ok:
  assumes "row_ok r" and "decrypt_row env kek r = Inr (m, pt)"
  shows "metadata_ok m"
  using assms(1) decrypt_row_Inr [OF assms(2)]
  by (auto simp: metadata_ok_def row_ok_def row_binds_def row_checks_def split: option.splits)

subsection \<open>The abstract store\<close>

type_synonym key_map = "ustr \<times> ustr \<Rightarrow> (stored_key \<times> bytes) option"

definition contents :: "env \<Rightarrow> bytes \<Rightarrow> database \<Rightarrow> key_map" where
  "contents env kek db k =
     (case find (\<lambda>r. row_key r = k) (wrapped_keys db) of
        None \<Rightarrow> None
      | Some r \<Rightarrow> (case decrypt_row env kek r of Inl e \<Rightarrow> None | Inr x \<Rightarrow> Some x))"

definition keys_open :: "env \<Rightarrow> bytes \<Rightarrow> database \<Rightarrow> bool" where
  "keys_open env kek db \<longleftrightarrow> (\<forall>r \<in> set (wrapped_keys db). \<exists>x. decrypt_row env kek r = Inr x)"

definition key_of :: "stored_key \<Rightarrow> ustr \<times> ustr" where
  "key_of m = (k_provider_id m, k_key_id m)"

lemma find_map_key:
  assumes "\<And>r. row_key (f r) = row_key r"
  shows "find (\<lambda>r. row_key r = k) (map f xs) = map_option f (find (\<lambda>r. row_key r = k) xs)"
  by (induction xs) (simp_all add: assms)

lemma find_SomeD: "find P xs = Some x \<Longrightarrow> x \<in> set xs \<and> P x"
  by (auto simp: find_Some_iff)

lemma find_key_None: "find (\<lambda>r. row_key r = k) xs = None \<longleftrightarrow> k \<notin> row_key ` set xs"
  by (auto simp: find_None_iff)

text \<open>An entry of the map is a row of the table.\<close>

lemma contents_SomeE:
  assumes "contents env kek db k = Some x"
  obtains r where "r \<in> set (wrapped_keys db)" "row_key r = k" "decrypt_row env kek r = Inr x"
  using assms by (auto simp: contents_def dest!: find_SomeD split: option.splits sum.splits)

lemma contents_key_of: "contents env kek db k = Some (m, pt) \<Longrightarrow> key_of m = k"
  by (elim contents_SomeE) (auto simp: key_of_def row_key_def decrypt_row_Inr)

lemma contents_None:
  assumes "keys_open env kek db"
  shows "contents env kek db k = None \<longleftrightarrow> k \<notin> row_key ` set (wrapped_keys db)"
proof (cases "find (\<lambda>r. row_key r = k) (wrapped_keys db)")
  case None
  then show ?thesis by (simp add: contents_def) (simp add: find_key_None)
next
  case (Some r)
  then have "r \<in> set (wrapped_keys db)" "row_key r = k" by (auto dest: find_SomeD)
  with assms Some show ?thesis by (force simp: contents_def keys_open_def)
qed

lemma contents_row:
  assumes "db_ok db" and "r \<in> set (wrapped_keys db)" and "decrypt_row env kek r = Inr x"
  shows "contents env kek db (row_key r) = Some x"
proof -
  have d: "distinct (map row_key (wrapped_keys db))" using assms(1) by (simp add: db_ok_def)
  obtain s where s: "find (\<lambda>s. row_key s = row_key r) (wrapped_keys db) = Some s"
    using assms(2) by (cases "find (\<lambda>s. row_key s = row_key r) (wrapped_keys db)") (auto simp: find_None_iff)
  then have "s \<in> set (wrapped_keys db)" "row_key s = row_key r" by (auto simp: find_Some_iff)
  then have "s = r" using d assms(2) by (auto simp: distinct_map inj_on_def)
  with s assms(3) show ?thesis by (simp add: contents_def)
qed

subsection \<open>The two mutations of the table\<close>

lemma insert_row_contents:
  assumes env: "env_ok env" and ok: "db_ok db" "keys_open env kek db"
    and m: "k_length m = 256" "attributes_ok (k_custom_attributes m)"
    and len: "length kek = 32" "length pt = 32" "length nonce = 12"
    and c: "c = aes_encrypt env kek nonce pt (map byte_of (dumps (JObj (aad_document m))))"
    and ins: "insert_row (row_of m nonce c (dumps (JObj (aad_document m)))) db = Inr view"
  shows "db_ok view" "keys_open env kek view" "contents env kek db (key_of m) = None"
    "contents env kek view = (contents env kek db)(key_of m \<mapsto> (m, pt))" "metadata_ok m"
proof -
  let ?r = "row_of m nonce c (dumps (JObj (aad_document m)))"
  from ins have r: "row_ok ?r" "row_key ?r \<notin> row_key ` set (wrapped_keys db)"
    and view: "view = db\<lparr>wrapped_keys := wrapped_keys db @ [?r]\<rparr>"
    by (auto simp: insert_row_def bindE_Inr_iff row_ok_def)
  show mo: "metadata_ok m"
    using r(1) m by (auto simp: row_ok_def row_binds_def row_of_def metadata_ok_def split: option.splits)
  have k: "row_key ?r = key_of m" by (simp add: row_key_def row_of_def key_of_def)
  have d: "decrypt_row env kek ?r = Inr (m, pt)" by (rule decrypt_sealed [OF env mo len c])
  show "db_ok view" using ok r by (auto simp: db_ok_def view)
  show "keys_open env kek view" using ok d by (auto simp: keys_open_def view)
  show none: "contents env kek db (key_of m) = None" using r(2) k by (simp add: contents_None [OF ok(2)])
  show "contents env kek view = (contents env kek db)(key_of m \<mapsto> (m, pt))"
  proof
    fix x
    have "find (\<lambda>r. row_key r = key_of m) (wrapped_keys db) = None"
      using r(2) k by (simp add: find_key_None del: dumps.simps)
    then show "contents env kek view x = ((contents env kek db)(key_of m \<mapsto> (m, pt))) x"
      using k d by (auto simp: contents_def view find_append_list simp del: dumps.simps split: option.splits)
  qed
qed

lemma filter_eq_single: "distinct xs \<Longrightarrow> r \<in> set xs \<Longrightarrow> filter (\<lambda>s. s = r) xs = [r]"
proof (induction xs)
  case (Cons x xs)
  then show ?case by (cases "x = r") (auto simp: filter_empty_conv)
qed simp

lemma update_row_contents:
  assumes env: "env_ok env" and ok: "db_ok db" "keys_open env kek db"
    and was: "contents env kek db (key_of m) = Some (m, pt)" "k_state m = PRE_ACTIVE"
    and u: "u = m\<lparr>k_state := ACTIVE, k_activated_at := Some t\<rparr>" "list_all is_scalar t"
    and len: "length kek = 32" "length pt = 32" "length nonce = 12"
    and c: "c = aes_encrypt env kek nonce pt (map byte_of (dumps (JObj (aad_document u))))"
  obtains view where "update_row u nonce c (dumps (JObj (aad_document u))) db = Inr view"
    "db_ok view" "keys_open env kek view"
    "contents env kek view = (contents env kek db)(key_of m \<mapsto> (u, pt))"
proof -
  let ?f = "activated_row u nonce c (dumps (JObj (aad_document u)))"
  define g where "g = (\<lambda>r. if activates u r then ?f r else r)"
  let ?rows = "map g (wrapped_keys db)"
  obtain r where r: "r \<in> set (wrapped_keys db)" "row_key r = key_of m" "decrypt_row env kek r = Inr (m, pt)"
    using was(1) by (rule contents_SomeE)
  have rok: "row_ok r" using ok(1) r(1) by (simp add: db_ok_def list_all_iff)
  note dr = decrypt_row_Inr [OF r(3)]
  have mo: "metadata_ok u"
    using decrypted_metadata_ok [OF rok r(3)] u by (simp add: metadata_ok_def lit_scalar_cong)
  have aad: "list_all is_scalar (dumps (JObj (aad_document u)))"
    by (rule ascii_scalar [OF dumps_ascii [OF wf_ints_ok [OF aad_document_wf [OF mo]]]])
  have act: "activates u s \<longleftrightarrow> s = r" if "s \<in> set (wrapped_keys db)" for s
  proof -
    have "s = r" if "row_key s = row_key r"
      using \<open>s \<in> set (wrapped_keys db)\<close> r(1) that ok(1) by (auto simp: db_ok_def distinct_map inj_on_def)
    then show ?thesis using r(2) dr(3) was(2) by (auto simp: activates_def u key_of_def)
  qed
  have fr: "?f r = row_of u nonce c (dumps (JObj (aad_document u)))"
    using dr by (simp add: activated_row_def row_of_def u)
  have fok: "row_ok (?f r)"
    using rok u len aad by (auto simp: row_ok_def row_checks_def row_binds_def activated_row_def lit_scalar_cong
        split: option.splits)
  have key: "row_key (g s) = row_key s" for s by (simp add: g_def activated_row_def row_key_def)
  have fd: "decrypt_row env kek (?f r) = Inr (u, pt)"
    unfolding fr by (rule decrypt_sealed [OF env mo len c])
  have "filter (activates u) (wrapped_keys db) = filter (\<lambda>s. s = r) (wrapped_keys db)"
    using act by (auto intro: filter_cong)
  also have "\<dots> = [r]"
  proof -
    have "distinct (wrapped_keys db)" using ok(1) by (simp add: db_ok_def distinct_map)
    then show ?thesis using filter_eq_single [OF _ r(1)] by blast
  qed
  finally have fl: "filter (activates u) (wrapped_keys db) = [r]" .
  have run: "update_row u nonce c (dumps (JObj (aad_document u))) db = Inr (db\<lparr>wrapped_keys := ?rows\<rparr>)"
    using fok aad mo u fl
    by (simp add: update_row_def g_def row_ok_def metadata_ok_def lit_scalar_cong del: dumps.simps)
  have gok: "row_ok (g s)" "\<exists>x. decrypt_row env kek (g s) = Inr x" if "s \<in> set (wrapped_keys db)" for s
    using that act [OF that] fok fd ok by (auto simp: g_def db_ok_def list_all_iff keys_open_def)
  have "db_ok (db\<lparr>wrapped_keys := ?rows\<rparr>)"
    using ok(1) gok key by (simp add: db_ok_def list_all_iff comp_def)
  moreover have "keys_open env kek (db\<lparr>wrapped_keys := ?rows\<rparr>)"
    using gok by (auto simp: keys_open_def)
  moreover have "contents env kek (db\<lparr>wrapped_keys := ?rows\<rparr>) = (contents env kek db)(key_of m \<mapsto> (u, pt))"
  proof
    fix x
    have fm: "find (\<lambda>s. row_key s = x) ?rows = map_option g (find (\<lambda>s. row_key s = x) (wrapped_keys db))"
      by (rule find_map_key [OF key])
    show "contents env kek (db\<lparr>wrapped_keys := ?rows\<rparr>) x = ((contents env kek db)(key_of m \<mapsto> (u, pt))) x"
    proof (cases "x = key_of m")
      case True
      have "g r \<in> set ?rows" using r(1) by simp
      moreover have "decrypt_row env kek (g r) = Inr (u, pt)" using fd act [OF r(1)] by (simp add: g_def)
      ultimately show ?thesis
        using contents_row [OF \<open>db_ok (db\<lparr>wrapped_keys := ?rows\<rparr>)\<close>, of "g r" env kek] key [of r] r(2) True
        by (simp del: set_map)
    next
      case False
      have "g s = s" if "find (\<lambda>s. row_key s = x) (wrapped_keys db) = Some s" for s
        using find_SomeD [OF that] False act [of s] r(2) by (auto simp: g_def)
      then show ?thesis using False by (auto simp: contents_def fm split: option.splits)
    qed
  qed
  ultimately show ?thesis using run that by blast
qed

subsection \<open>Reading\<close>

definition lookup :: "env \<Rightarrow> bytes \<Rightarrow> database \<Rightarrow> ustr \<Rightarrow> ustr \<Rightarrow> (stored_key \<times> bytes) res" where
  "lookup env kek db provider_id key_id = bindE (select_row env db provider_id key_id) (decrypt_row env kek)"

lemma lookup_contents:
  assumes "keys_open env kek db"
  shows "lookup env kek db p k =
     (case (uuid_canon (uni env) p, uuid_canon (uni env) k) of
        (None, _) \<Rightarrow> Inl (ValueError ''provider_id must be a UUID.'')
      | (_, None) \<Rightarrow> Inl (ValueError ''key_id must be a UUID.'')
      | (Some pc, Some kc) \<Rightarrow>
          or_raise (KeyNotFoundError ''KMIP key was not found in the authenticated provider.'')
            (contents env kek db (pc, kc)))"
proof (cases "uuid_canon (uni env) p = None \<or> uuid_canon (uni env) k = None")
  case True
  then show ?thesis
    by (auto simp: lookup_def select_row_def validated_uuid_def split: option.splits)
next
  case False
  then obtain pc kc where c: "uuid_canon (uni env) p = Some pc" "uuid_canon (uni env) k = Some kc" by auto
  show ?thesis
  proof (cases "find (\<lambda>r. row_key r = (pc, kc)) (wrapped_keys db)")
    case None
    then show ?thesis by (simp add: lookup_def select_row_def validated_uuid_def c contents_def)
  next
    case (Some r)
    then obtain x where "decrypt_row env kek r = Inr x"
      using assms find_SomeD [OF Some] by (auto simp: keys_open_def)
    with Some show ?thesis by (simp add: lookup_def select_row_def validated_uuid_def c contents_def)
  qed
qed

lemma connect_consistent: "consistent env master kek db w \<Longrightarrow> connect w = (Inr db, w)"
  by (simp add: connect_def consistent_def kept_def returnM_def)

lemma held_kek: "consistent env master kek db w \<Longrightarrow> s_kek (w_self w) = kek"
  by (simp add: consistent_def held_def)

lemma read_key_run:
  assumes "env_ok env" and w: "consistent env master kek db w"
    and v: "verify_store_commitment env db w = (Inr (), w')"
  shows "read_key env p k w =
     (case lookup env kek db p k of Inl e \<Rightarrow> (Inl e, w') | Inr (m, pt) \<Rightarrow> (Inr (db, m, pt), w'))"
proof -
  have k: "s_kek (w_self w') = kek" by (rule held_kek [OF verify_outcome(1) [OF assms]])
  show ?thesis
    by (cases "select_row env db p k")
      (auto simp: read_key_def connect_consistent [OF w] v k lookup_def bindM_def m_defs split: sum.splits)
qed

lemma read_key_outcome:
  assumes env: "env_ok env" and w: "consistent env master kek db w"
    and run: "read_key env p k w = (r, w')"
  shows "consistent env master kek db w'" and "same_files w w'"
    and "r = Inr (db', m, pt) \<Longrightarrow> db' = db \<and> lookup env kek db p k = Inr (m, pt)
       \<and> settled_on env kek db (s_envelope (w_self w'))"
proof -
  obtain v w1 where v: "verify_store_commitment env db w = (v, w1)" by fastforce
  note o = verify_outcome [OF env w v]
  have "(w' = w1 \<and> v = Inr () \<and> (r = Inr (db', m, pt) \<longrightarrow> db' = db \<and> lookup env kek db p k = Inr (m, pt)))
      \<or> (w' = w1 \<and> (\<exists>e. r = Inl e))"
  proof (cases v)
    case (Inl e)
    then show ?thesis using run v connect_consistent [OF w] by (auto simp: read_key_def)
  next
    case (Inr u)
    then show ?thesis
      using run read_key_run [OF env w, of w1 p k] v by (auto split: sum.splits prod.splits)
  qed
  then show "consistent env master kek db w'" and "same_files w w'"
    and "r = Inr (db', m, pt) \<Longrightarrow> db' = db \<and> lookup env kek db p k = Inr (m, pt)
       \<and> settled_on env kek db (s_envelope (w_self w'))"
    using o by auto
qed

lemma get_key_calm:
  assumes "env_ok env" and w: "consistent env master kek db w" and "calm env (w_io w)"
  shows "\<exists>w'. get_key env p k w = (lookup env kek db p k, w') \<and> consistent env master kek db w'"
proof -
  obtain w1 where v: "verify_store_commitment env db w = (Inr (), w1)"
    using verify_calm [OF assms] by blast
  show ?thesis
    using read_key_run [OF assms(1) w v, of p k] verify_outcome(1) [OF assms(1) w v]
    by (auto simp: get_key_def bindM_def returnM_def split: sum.splits prod.splits)
qed

subsection \<open>Creating\<close>

lemma uuid4_scalar: "list_all is_scalar (uuid_of_int v)" if "v < 2 ^ 128"
proof -
  have v: "v < 16 ^ 32" using that by simp
  have h: "set (map hex_code (pad_digs 32 (digs 16 v))) \<subseteq> {48..57} \<union> {97..102}" by (rule uuid_digits(3) [OF v])
  then have n: "45 \<notin> set (map hex_code (pad_digs 32 (digs 16 v)))" by auto
  have "set (uuid_of_int v) \<subseteq> insert 45 ({48..57} \<union> {97..102})"
    unfolding uuid_of_int_def dashed_chars(2) [OF n] using h by blast
  then show ?thesis by (auto simp: list_all_iff is_scalar_def)
qed

lemma uuid4_canon:
  assumes "length bs = 16"
  shows "uuid_canon u (uuid4_text bs) = Some (uuid4_text bs)"
  unfolding uuid4_text_def
  by (rule uuid_canon_of_int) (use from_be_bound [of "bs[6 := _, 8 := _]"] assms in auto)

text \<open>What \<open>create_key\<close> does before it touches the store: the key and its sealed row.\<close>

definition new_key :: "env \<Rightarrow> ustr \<Rightarrow> ustr option \<Rightarrow> (ustr \<times> ustr) list \<Rightarrow> nat \<Rightarrow> stored_key" where
  "new_key env provider name attributes i =
     \<lparr>k_provider_id = provider, k_key_id = uuid4_text (urandom env i 16), k_algorithm = lit ''AES'',
      k_length = 256, k_name = name, k_state = PRE_ACTIVE, k_created_at = now_iso env (i + 1),
      k_activated_at = None, k_custom_attributes = attributes\<rparr>"

definition new_row :: "env \<Rightarrow> bytes \<Rightarrow> stored_key \<Rightarrow> nat \<Rightarrow> row" where
  "new_row env kek m i =
     (let aad = dumps (JObj (aad_document m))
      in row_of m (urandom env (i + 3) 12)
           (aes_encrypt env kek (urandom env (i + 3) 12) (urandom env (i + 2) 32) (map byte_of aad)) aad)"

definition after_draws :: "nat \<Rightarrow> world \<Rightarrow> world" where
  "after_draws n w = w\<lparr>w_draw := w_draw w + n\<rparr>"

lemma consistent_draws [simp]: "consistent env master kek db (after_draws n w) = consistent env master kek db w"
  by (simp add: consistent_def after_draws_def)

lemma after_draws_sel [simp]:
  "w_io (after_draws n w) = w_io w" "w_self (after_draws n w) = w_self w" "w_disk (after_draws n w) = w_disk w"
  by (simp_all add: after_draws_def)

lemma sealed_ints: "k_length m = 256 \<Longrightarrow> ints_ok (JObj (aad_document m))"
  by (auto simp: aad_document_def opt_str_def int_ok_def STORE_SCHEMA_VERSION_def digs.simps list_all_iff
      split: option.splits)

lemma canonical_aad_ints:
  assumes "k_length m = 256"
  shows "canonical_aad m = Inr (map byte_of (dumps (JObj (aad_document m))))"
  using dumped_utf8(1) [OF sealed_ints [OF assms]]
  unfolding canonical_aad_def by (simp add: aad_document_def KEY_AAD_FIELDS_def)

lemma create_key_run:
  assumes env: "env_ok env" and w: "consistent env master kek db w"
    and p: "uuid_canon (uni env) p = Some pc"
    and a: "validated_custom_attributes (json_pairs attrs) = Inr as" and n: "name_ok name"
    and m: "m = new_key env pc name as (w_draw w)"
  shows "create_key env p name attrs w =
     bindM (verify_store_commitment env db) (\<lambda>_.
     bindM (liftM (insert_row (new_row env kek m (w_draw w)) db)) (\<lambda>view.
     bindM (commit_mutation env view) (\<lambda>_. returnM m))) (after_draws 4 w)"
proof -
  have len: "k_length m = 256" by (simp add: m new_key_def)
  have k: "s_kek (w_self w) = kek" "length kek = 32"
    using w by (auto simp: consistent_def held_def dest: sound_ok)
  have d: "w\<lparr>w_draw := Suc (Suc (Suc (Suc (w_draw w))))\<rparr> = after_draws 4 w"
    by (simp add: after_draws_def eval_nat_numeral)
  have c: "connect (after_draws 4 w) = (Inr db, after_draws 4 w)"
    using w by (intro connect_consistent) simp
  have m': "\<lparr>k_provider_id = pc, k_key_id = uuid4_text (urandom env (w_draw w) 16), k_algorithm = lit ''AES'',
           k_length = 256, k_name = name, k_state = PRE_ACTIVE, k_created_at = now_iso env (Suc (w_draw w)),
           k_activated_at = None, k_custom_attributes = as\<rparr> = m"
    by (simp add: m new_key_def)
  have s: "aes_seal env kek (urandom env i 12) x y = Inr (aes_encrypt env kek (urandom env i 12) x y)" for i x y
    using k(2) env_okD(3) [OF env] by (simp add: aes_seal_def aes_new_def aes_nonce_def)
  have nr: "row_of m (urandom env (Suc (Suc (Suc (w_draw w)))) 12)
      (aes_encrypt env kek (urandom env (Suc (Suc (Suc (w_draw w)))) 12) (urandom env (Suc (Suc (w_draw w))) 32)
        (map byte_of (dumps (JObj (aad_document m))))) (dumps (JObj (aad_document m)))
      = new_row env kek m (w_draw w)"
    by (simp add: new_row_def Let_def eval_nat_numeral del: dumps.simps)
  show ?thesis
    unfolding create_key_def json_pairs_def [symmetric] Let_def
    by (simp add: a validated_uuid_def p n m' canonical_aad_ints [OF len] k s d c
        dumped_utf8(2) [OF sealed_ints [OF len]] nr del: dumps.simps)
qed

lemma create_key_refused:
  assumes "create_key env p name attrs w = (r, w')"
    and "uuid_canon (uni env) p = None \<or> (\<nexists>as. validated_custom_attributes (json_pairs attrs) = Inr as)
       \<or> \<not> name_ok name"
  shows "w' = w" and "\<exists>e. r = Inl e"
proof -
  have "\<exists>e. create_key env p name attrs w = (Inl e, w)"
  proof (cases "uuid_canon (uni env) p")
    case None
    then show ?thesis by (simp add: create_key_def validated_uuid_def)
  next
    case (Some pc)
    then show ?thesis using assms(2)
      by (cases "validated_custom_attributes (json_pairs attrs)")
        (auto simp: create_key_def validated_uuid_def json_pairs_def)
  qed
  then show "w' = w" and "\<exists>e. r = Inl e" using assms(1) by auto
qed

text \<open>
  Whatever the faults, the store ends consistent on the old database or on the one with the new
  key; when the key is returned, on the one with the key, one generation later.
\<close>

lemma create_key_outcome:
  assumes env: "env_ok env" and w: "consistent env master kek db w" "keys_open env kek db"
    and run: "create_key env p name attrs w = (r, w')"
  shows "\<exists>db'. consistent env master kek db' w' \<and> keys_open env kek db'
     \<and> (contents env kek db' = contents env kek db \<and> (\<forall>m. r \<noteq> Inr m)
        \<or> (\<exists>m pt. contents env kek db (key_of m) = None
             \<and> contents env kek db' = (contents env kek db)(key_of m \<mapsto> (m, pt))
             \<and> uuid_canon (uni env) p = Some (k_provider_id m) \<and> k_name m = name \<and> k_state m = PRE_ACTIVE
             \<and> uuid_canon (uni env) (k_key_id m) = Some (k_key_id m) \<and> length pt = 32 \<and> (\<forall>m'. r = Inr m' \<longrightarrow> m' = m)))"
proof (cases "uuid_canon (uni env) p = None \<or> (\<nexists>as. validated_custom_attributes (json_pairs attrs) = Inr as)
       \<or> \<not> name_ok name")
  case True
  from create_key_refused [OF run True] w show ?thesis by auto
next
  case False
  then obtain pc as where p: "uuid_canon (uni env) p = Some pc"
    and a: "validated_custom_attributes (json_pairs attrs) = Inr as" and n: "name_ok name" by auto
  define i where "i = w_draw w"
  define m where "m = new_key env pc name as (w_draw w)"
  have mk: "k_length m = 256" "k_provider_id m = pc" "k_name m = name" "k_state m = PRE_ACTIVE"
    "attributes_ok (k_custom_attributes m)" "uuid_canon (uni env) (k_key_id m) = Some (k_key_id m)"
    using a env_okD(3) [OF env] by (auto simp: m_def new_key_def validated_attributes uuid4_canon)
  have ok: "db_ok db" and len: "length kek = 32"
    using w(1) by (auto simp: consistent_def kept_def held_def dest: sound_ok)
  have w4: "consistent env master kek db (after_draws 4 w)" using w(1) by simp
  from run [unfolded create_key_run [OF env w(1) p a n m_def]]
  show ?thesis
  proof (cases rule: bindM_cases)
    case (raised e)
    with verify_outcome(1) [OF env w4 raised(1)] w(2) show ?thesis by auto
  next
    case (went_on u w1)
    note v = verify_outcome [OF env w4 went_on(1)]
    show ?thesis
    proof (cases "insert_row (new_row env kek m i) db")
      case (Inl e)
      then show ?thesis using went_on(2) v(1) w(2) by (auto simp: i_def)
    next
      case (Inr view)
      define pt where "pt = urandom env (i + 2) 32"
      have ptl: "length pt = 32" by (simp add: pt_def env_okD(3) [OF env])
      note ins = insert_row_contents [OF env ok w(2) mk(1,5) len ptl env_okD(3) [OF env] _
          Inr [unfolded new_row_def Let_def], folded pt_def, OF refl]
      have cm: "bindM (commit_mutation env view) (\<lambda>_. returnM m) w1 = (r, w')"
        using went_on(2) Inr by (simp add: i_def)
      obtain r2 w2 where c2: "commit_mutation env view w1 = (r2, w2)" by fastforce
      note o = commit_mutation_outcome [OF env v(1) v(3) ins(1) c2]
      have rw: "w' = w2 \<and> (\<forall>x. r = Inr x \<longrightarrow> x = m \<and> r2 = Inr ())"
        using cm c2 by (cases r2) (auto simp: returnM_def)
      have new: "\<exists>m pt. contents env kek db (key_of m) = None
             \<and> contents env kek view = (contents env kek db)(key_of m \<mapsto> (m, pt))
             \<and> uuid_canon (uni env) p = Some (k_provider_id m) \<and> k_name m = name \<and> k_state m = PRE_ACTIVE
             \<and> uuid_canon (uni env) (k_key_id m) = Some (k_key_id m) \<and> length pt = 32 \<and> (\<forall>m'. r = Inr m' \<longrightarrow> m' = m)"
        using ins(3,4) mk p ptl rw by (intro exI [of _ m] exI [of _ pt]) auto
      show ?thesis
      proof (cases "consistent env master kek view w2")
        case True
        then show ?thesis using new rw ins(2) by blast
      next
        case False
        then show ?thesis using o rw went_on(1) w(2) by auto
      qed
    qed
  qed
qed

subsection \<open>Activating\<close>

lemma lookup_Inr:
  assumes "keys_open env kek db" and "lookup env kek db p k = Inr (m, pt)"
  shows "contents env kek db (key_of m) = Some (m, pt)"
    "uuid_canon (uni env) p = Some (k_provider_id m)" "uuid_canon (uni env) k = Some (k_key_id m)"
proof -
  obtain pc kc where c: "uuid_canon (uni env) p = Some pc" "uuid_canon (uni env) k = Some kc"
    "contents env kek db (pc, kc) = Some (m, pt)"
    using assms(2) unfolding lookup_contents [OF assms(1)] by (auto split: option.splits)
  from c(3) have "key_of m = (pc, kc)" by (rule contents_key_of)
  with c show "contents env kek db (key_of m) = Some (m, pt)"
    "uuid_canon (uni env) p = Some (k_provider_id m)" "uuid_canon (uni env) k = Some (k_key_id m)"
    by (simp_all add: key_of_def)
qed

lemma contents_facts:
  assumes "db_ok db" and "contents env kek db k = Some (m, pt)"
  shows "length pt = 32" "k_state m = PRE_ACTIVE \<or> k_state m = ACTIVE" "k_length m = 256" "metadata_ok m"
proof -
  obtain r where r: "r \<in> set (wrapped_keys db)" "decrypt_row env kek r = Inr (m, pt)"
    using assms(2) by (rule contents_SomeE)
  have rok: "row_ok r" using assms(1) r(1) by (simp add: db_ok_def list_all_iff)
  show "length pt = 32" "k_state m = PRE_ACTIVE \<or> k_state m = ACTIVE" "k_length m = 256" "metadata_ok m"
    using decrypt_row_Inr [OF r(2)] rok decrypted_metadata_ok [OF rok r(2)] by (auto simp: row_ok_def row_checks_def)
qed

definition activated :: "stored_key \<Rightarrow> ustr \<Rightarrow> stored_key" where
  "activated m t = m\<lparr>k_state := ACTIVE, k_activated_at := Some t\<rparr>"

lemma activate_key_run:
  assumes env: "env_ok env" and w: "consistent env master kek db w'" "keys_open env kek db"
    and rd: "read_key env p k w = (Inr (db, m, pt), w')" and l: "lookup env kek db p k = Inr (m, pt)"
    and s: "k_state m = PRE_ACTIVE"
  obtains view where "db_ok view" "keys_open env kek view"
    "contents env kek view = (contents env kek db)(key_of m \<mapsto> (activated m (now_iso env (w_draw w')), pt))"
    "activate_key env p k w =
       bindM (commit_mutation env view) (\<lambda>_. returnM (activated m (now_iso env (w_draw w')))) (after_draws 2 w')"
proof -
  define t where "t = now_iso env (w_draw w')"
  define u where "u = m\<lparr>k_state := ACTIVE, k_activated_at := Some t\<rparr>"
  define nonce where "nonce = urandom env (Suc (w_draw w')) 12"
  define aad where "aad = dumps (JObj (aad_document u))"
  have ok: "db_ok db" and kl: "length kek = 32" and sk: "s_kek (w_self w') = kek"
    using w(1) by (auto simp: consistent_def kept_def held_def dest: sound_ok)
  note lk = lookup_Inr [OF w(2) l]
  note cf = contents_facts [OF ok lk(1)]
  have ul: "k_length u = 256" using cf(3) by (simp add: u_def)
  have nl: "length nonce = 12" by (simp add: nonce_def env_okD(3) [OF env])
  obtain view where v: "update_row u nonce (aes_encrypt env kek nonce pt (map byte_of aad)) aad db = Inr view"
    "db_ok view" "keys_open env kek view" "contents env kek view = (contents env kek db)(key_of m \<mapsto> (u, pt))"
    using update_row_contents [OF env ok w(2) lk(1) s u_def _ kl cf(1) nl refl] env_okD(4) [OF env]
    unfolding aad_def t_def by blast
  have seal: "aes_seal env kek nonce pt (map byte_of aad) = Inr (aes_encrypt env kek nonce pt (map byte_of aad))"
    using kl nl by (simp add: aes_seal_def aes_new_def aes_nonce_def)
  have "w'\<lparr>w_draw := Suc (Suc (w_draw w'))\<rparr> = after_draws 2 w'"
    by (simp add: after_draws_def eval_nat_numeral)
  then have "activate_key env p k w = bindM (commit_mutation env view) (\<lambda>_. returnM u) (after_draws 2 w')"
    unfolding activate_key_def
    by (simp add: rd s t_def [symmetric] u_def [symmetric] canonical_aad_ints [OF ul] aad_def [symmetric]
        nonce_def [symmetric] sk seal v(1) dumped_utf8(2) [OF sealed_ints [OF ul], folded aad_def]
        del: dumps.simps)
  moreover have "activated m t = u" by (simp add: activated_def u_def)
  ultimately show ?thesis using that v(2-4) by (simp add: t_def)
qed

text \<open>
  Activating changes one entry from pre-active to active, or nothing; the key material stays.
\<close>

lemma activate_key_outcome:
  assumes env: "env_ok env" and w: "consistent env master kek db w" "keys_open env kek db"
    and run: "activate_key env p k w = (r, w')"
  shows "\<exists>db'. consistent env master kek db' w' \<and> keys_open env kek db'
     \<and> (contents env kek db' = contents env kek db
          \<and> (\<forall>u. r = Inr u \<longrightarrow> k_state u = ACTIVE \<and> (\<exists>pt. lookup env kek db p k = Inr (u, pt)))
        \<or> (\<exists>m pt t. lookup env kek db p k = Inr (m, pt) \<and> k_state m = PRE_ACTIVE
             \<and> contents env kek db' = (contents env kek db)(key_of m \<mapsto> (activated m t, pt))
             \<and> (\<forall>u. r = Inr u \<longrightarrow> u = activated m t)))"
proof -
  obtain r1 w1 where rd: "read_key env p k w = (r1, w1)" by fastforce
  note o = read_key_outcome [OF env w(1) rd]
  show ?thesis
  proof (cases r1)
    case (Inl e)
    then show ?thesis using run rd o(1) w(2) by (auto simp: activate_key_def)
  next
    case (Inr x)
    obtain db1 m pt where x: "x = (db1, m, pt)" by (cases x)
    with o(3) Inr have db1: "db1 = db" and l: "lookup env kek db p k = Inr (m, pt)"
      and st: "settled_on env kek db (s_envelope (w_self w1))" by auto
    have ok: "db_ok db" using w(1) by (auto simp: consistent_def kept_def)
    show ?thesis
    proof (cases "k_state m = ACTIVE")
      case True
      then have "r = Inr m \<and> w' = w1"
        using run rd Inr x by (simp add: activate_key_def returnM_def)
      then show ?thesis using o(1) w(2) l True by auto
    next
      case False
      then have s: "k_state m = PRE_ACTIVE"
        using contents_facts(2) [OF ok lookup_Inr(1) [OF w(2) l]] by blast
      have rd': "read_key env p k w = (Inr (db, m, pt), w1)" using rd Inr x db1 by simp
      obtain view t where v: "db_ok view" "keys_open env kek view"
        "contents env kek view = (contents env kek db)(key_of m \<mapsto> (activated m t, pt))"
        "activate_key env p k w = bindM (commit_mutation env view) (\<lambda>_. returnM (activated m t)) (after_draws 2 w1)"
        using activate_key_run [OF env o(1) w(2) rd' l s] by blast
      obtain r2 w2 where c2: "commit_mutation env view (after_draws 2 w1) = (r2, w2)" by fastforce
      have cw: "consistent env master kek db (after_draws 2 w1)" using o(1) by simp
      note cm = commit_mutation_outcome [OF env cw _ v(1) c2]
      have rw: "w' = w2 \<and> (\<forall>x. r = Inr x \<longrightarrow> x = activated m t \<and> r2 = Inr ())"
        using run c2 unfolding v(4) by (cases r2) (auto simp: returnM_def)
      show ?thesis
      proof (cases "consistent env master kek view w2")
        case True
        then show ?thesis using rw v(2,3) l s by (intro exI [of _ view]) auto
      next
        case False
        then show ?thesis using cm st rw w(2) by (intro exI [of _ db]) auto
      qed
    qed
  qed
qed

subsection \<open>The operations that only read\<close>

lemma get_key_outcome:
  assumes "env_ok env" and "consistent env master kek db w" and "get_key env p k w = (r, w')"
  shows "consistent env master kek db w'" and "r = Inr x \<Longrightarrow> lookup env kek db p k = Inr x"
proof -
  obtain r1 w1 where rd: "read_key env p k w = (r1, w1)" by fastforce
  note o = read_key_outcome [OF assms(1,2) rd]
  have "w' = w1" "r = Inr x \<Longrightarrow> \<exists>db'. r1 = Inr (db', x)"
    using assms(3) rd by (cases r1; auto simp: get_key_def returnM_def split: prod.splits)+
  then show "consistent env master kek db w'" and "r = Inr x \<Longrightarrow> lookup env kek db p k = Inr x"
    using o by (cases x; auto)+
qed

lemma get_metadata_outcome:
  assumes "env_ok env" and "consistent env master kek db w" and "get_metadata env p k w = (r, w')"
  shows "consistent env master kek db w'" and "r = Inr m \<Longrightarrow> \<exists>pt. lookup env kek db p k = Inr (m, pt)"
proof -
  obtain r1 w1 where rd: "read_key env p k w = (r1, w1)" by fastforce
  note o = read_key_outcome [OF assms(1,2) rd]
  have "w' = w1" "r = Inr m \<Longrightarrow> \<exists>db' pt. r1 = Inr (db', m, pt)"
    using assms(3) rd by (cases r1; auto simp: get_metadata_def returnM_def split: prod.splits)+
  then show "consistent env master kek db w'" and "r = Inr m \<Longrightarrow> \<exists>pt. lookup env kek db p k = Inr (m, pt)"
    using o by auto
qed

end
