(* ===== verification/StoreLife.thy ===== *)
theory StoreLife
  imports StoreKeys
begin

text \<open>
  The life of a store across operations, faults, crashes and restarts, as a step relation on the
  running or stopped process, and the properties of the store as a whole: a key that was created
  keeps its material for ever, providers do not affect each other, a database that was tampered
  with is refused, and a store that can be opened answers.
\<close>

subsection \<open>Finding and counting\<close>

lemma locate_keys_outcome:
  assumes env: "env_ok env" and w: "consistent env master kek db w"
    and run: "locate_keys env p state name limit w = (r, w')"
  shows "consistent env master kek db w'"
    and "r = Inr ids \<Longrightarrow> \<exists>pc. uuid_canon (uni env) p = Some pc \<and> 1 \<le> limit \<and> limit \<le> 1024
       \<and> ids = take (nat limit) (map r_key_id (sort_key (\<lambda>r. (r_created_at r, r_key_id r))
           (filter (locate_matches pc state name) (wrapped_keys db))))"
proof -
  have "consistent env master kek db w' \<and> (r = Inr ids \<longrightarrow> (\<exists>pc. uuid_canon (uni env) p = Some pc
       \<and> 1 \<le> limit \<and> limit \<le> 1024 \<and> ids = take (nat limit) (map r_key_id (sort_key (\<lambda>r. (r_created_at r, r_key_id r))
           (filter (locate_matches pc state name) (wrapped_keys db))))))"
  proof (cases "uuid_canon (uni env) p = None \<or> state \<notin> {None, Some PRE_ACTIVE, Some ACTIVE}
      \<or> \<not> (1 \<le> limit \<and> limit \<le> 1024) \<or> \<not> name_ok name")
    case True
    have "\<exists>e. locate_keys env p state name limit w = (Inl e, w)"
    proof (cases "uuid_canon (uni env) p")
      case (Some pc)
      with True show ?thesis
        by (cases "state \<in> {None, Some PRE_ACTIVE, Some ACTIVE}"; cases "1 \<le> limit \<and> limit \<le> 1024"; cases "name_ok name")
          (auto simp: locate_keys_def validated_uuid_def bindM_def m_defs)
    qed (simp add: locate_keys_def validated_uuid_def)
    with run w show ?thesis by auto
  next
    case False
    then obtain pc where p: "uuid_canon (uni env) p = Some pc" and g: "state \<in> {None, Some PRE_ACTIVE, Some ACTIVE}"
      "1 \<le> limit \<and> limit \<le> 1024" "name_ok name" by auto
    have q: "locate_keys env p state name limit w =
       bindM (verify_store_commitment env db) (\<lambda>_.
       bindM (guardM (case name of None \<Rightarrow> True | Some n \<Rightarrow> list_all is_scalar n) UnicodeEncodeError) (\<lambda>_.
       returnM (take (nat limit) (map r_key_id (sort_key (\<lambda>r. (r_created_at r, r_key_id r))
            (filter (locate_matches pc state name) (wrapped_keys db))))))) w"
      unfolding locate_keys_def validated_uuid_def p or_raise_simps eqTrueI [OF g(1)] eqTrueI [OF g(2)] eqTrueI [OF g(3)]
      by (simp add: connect_consistent [OF w])
    from run [unfolded q] show ?thesis
    proof (cases rule: bindM_cases)
      case (raised e)
      then show ?thesis using verify_outcome(1) [OF env w raised(1)] by simp
    next
      case (went_on u w1)
      then show ?thesis
        using verify_outcome(1) [OF env w went_on(1)] p g
        by (auto simp: guardM_def bindM_def returnM_def split: if_splits)
    qed
  qed
  then show "consistent env master kek db w'"
    and "r = Inr ids \<Longrightarrow> \<exists>pc. uuid_canon (uni env) p = Some pc \<and> 1 \<le> limit \<and> limit \<le> 1024
       \<and> ids = take (nat limit) (map r_key_id (sort_key (\<lambda>r. (r_created_at r, r_key_id r))
           (filter (locate_matches pc state name) (wrapped_keys db))))"
    by blast+
qed

lemma lifecycle_counts_run:
  assumes "env_ok env" and w: "consistent env master kek db w"
    and ps: "mapE (\<lambda>p. validated_uuid env p ''provider_id'') provider_ids = Inr ps"
    and v: "verify_store_commitment env db w = (Inr (), w')"
  shows "lifecycle_counts env provider_ids w =
     bindM (liftM (mapE (decrypt_row env kek) (sort_key row_key (wrapped_keys db)))) (\<lambda>keys.
       returnM (foldl (\<lambda>counts (metadata, plaintext). count_key metadata counts)
                  (foldl (\<lambda>d p. dict_put p no_keys d) [] ps) keys)) w'"
proof -
  have k: "s_kek (w_self w') = kek" by (rule held_kek [OF verify_outcome(1) [OF assms(1) w v]])
  show ?thesis by (simp add: lifecycle_counts_def ps connect_consistent [OF w] v k)
qed

lemma lifecycle_counts_outcome:
  assumes env: "env_ok env" and w: "consistent env master kek db w"
    and run: "lifecycle_counts env provider_ids w = (r, w')"
  shows "consistent env master kek db w'"
proof (cases "mapE (\<lambda>p. validated_uuid env p ''provider_id'') provider_ids")
  case (Inl e)
  then show ?thesis using run w by (simp add: lifecycle_counts_def)
next
  case (Inr ps)
  obtain v w1 where v: "verify_store_commitment env db w = (v, w1)" by fastforce
  show ?thesis
  proof (cases v)
    case (Inl e)
    then show ?thesis
      using run v Inr verify_outcome(1) [OF env w v] connect_consistent [OF w] by (simp add: lifecycle_counts_def)
  next
    case (Inr u)
    then have v': "verify_store_commitment env db w = (Inr (), w1)" using v by simp
    have "w' = w1"
      using run unfolding lifecycle_counts_run [OF env w \<open>mapE _ _ = Inr ps\<close> v']
      by (auto simp: bindM_def liftM_def returnM_def split: sum.splits)
    then show ?thesis using verify_outcome(1) [OF env w v] by simp
  qed
qed

text \<open>The number of keys of a provider, by state.\<close>

definition tally :: "stored_key list \<Rightarrow> ustr \<Rightarrow> lifecycle" where
  "tally keys p =
     \<lparr>lc_pre_active = int (length (filter (\<lambda>m. k_provider_id m = p \<and> k_state m = PRE_ACTIVE) keys)),
      lc_active = int (length (filter (\<lambda>m. k_provider_id m = p \<and> k_state m \<noteq> PRE_ACTIVE) keys)),
      lc_total = int (length (filter (\<lambda>m. k_provider_id m = p) keys))\<rparr>"

definition plus :: "lifecycle \<Rightarrow> lifecycle \<Rightarrow> lifecycle" where
  "plus a b = \<lparr>lc_pre_active = lc_pre_active a + lc_pre_active b, lc_active = lc_active a + lc_active b,
     lc_total = lc_total a + lc_total b\<rparr>"

declare map_of_dict_put [simp]

lemma count_key_plus:
  "count_key m d = dict_put (k_provider_id m)
     (plus (case map_of d (k_provider_id m) of None \<Rightarrow> no_keys | Some c \<Rightarrow> c) (tally [m] (k_provider_id m))) d"
proof -
  have "(let counted = (if k_state m = PRE_ACTIVE then c\<lparr>lc_pre_active := lc_pre_active c + 1\<rparr>
           else c\<lparr>lc_active := lc_active c + 1\<rparr>) in counted\<lparr>lc_total := lc_total counted + 1\<rparr>)
      = plus c (tally [m] (k_provider_id m))" for c :: lifecycle
    by (cases c) (simp add: plus_def tally_def)
  then show ?thesis unfolding count_key_def by (simp add: Let_def)
qed

lemma map_of_count_key:
  "map_of (count_key m d) = (map_of d)(k_provider_id m \<mapsto>
     plus (case map_of d (k_provider_id m) of None \<Rightarrow> no_keys | Some c \<Rightarrow> c) (tally [m] (k_provider_id m)))"
  by (simp add: count_key_plus)

lemma plus_assoc: "plus (plus a b) c = plus a (plus b c)"
  by (simp add: plus_def)

lemma plus_no_keys [simp]: "plus a no_keys = a" "plus no_keys a = a"
  by (simp_all add: plus_def no_keys_def)

lemma tally_Cons: "tally (m # ms) p = plus (tally [m] p) (tally ms p)"
  by (simp add: tally_def plus_def)

lemma tally_other [simp]: "k_provider_id m \<noteq> p \<Longrightarrow> tally [m] p = no_keys"
  by (simp add: tally_def no_keys_def)

lemma tally_none: "p \<notin> k_provider_id ` set ms \<Longrightarrow> tally ms p = no_keys"
  by (auto simp: tally_def no_keys_def filter_empty_conv)

lemma map_of_counts:
  "map_of (foldl (\<lambda>d m. count_key m d) d ms) p =
     (case map_of d p of
        Some c \<Rightarrow> Some (plus c (tally ms p))
      | None \<Rightarrow> if p \<in> k_provider_id ` set ms then Some (tally ms p) else None)"
proof (induction ms arbitrary: d)
  case Nil
  then show ?case by (simp add: tally_none split: option.splits)
next
  case (Cons m ms)
  show ?case
    by (cases "k_provider_id m = p")
      (auto simp: Cons.IH map_of_count_key tally_Cons [of m ms] plus_assoc tally_none split: option.splits)
qed

lemma map_of_zeroes: "map_of (foldl (\<lambda>d p. dict_put p no_keys d) d ps) p =
     (if p \<in> set ps then Some no_keys else map_of d p)"
  by (induction ps arbitrary: d) auto

lemma mapE_decrypt:
  assumes "\<forall>r \<in> set rs. \<exists>x. decrypt_row env kek r = Inr x"
  shows "\<exists>keys. mapE (decrypt_row env kek) rs = Inr keys \<and> length keys = length rs
     \<and> (\<forall>i < length rs. decrypt_row env kek (rs ! i) = Inr (keys ! i))"
  using assms
proof (induction rs)
  case (Cons r rs)
  then obtain x keys where "decrypt_row env kek r = Inr x" "mapE (decrypt_row env kek) rs = Inr keys"
    "length keys = length rs" "\<forall>i < length rs. decrypt_row env kek (rs ! i) = Inr (keys ! i)" by auto
  then show ?case by (auto simp: nth_Cons less_Suc_eq_0_disj intro!: exI [of _ "x # keys"])
qed simp

subsection \<open>The operations as commands\<close>

datatype command =
    Create_key ustr "ustr option" "(ustr \<times> ustr) list"
  | Activate_key ustr ustr
  | Get_key ustr ustr
  | Get_metadata ustr ustr
  | Locate_keys ustr "ustr option" "ustr option" int
  | Lifecycle_counts "ustr list"

definition outcome :: "'a res \<times> world \<Rightarrow> exn option \<times> world" where
  "outcome rw = ((case fst rw of Inl e \<Rightarrow> Some e | Inr x \<Rightarrow> None), snd rw)"

fun exec :: "env \<Rightarrow> command \<Rightarrow> world \<Rightarrow> exn option \<times> world" where
  "exec env (Create_key p name attrs) w = outcome (create_key env p name attrs w)"
| "exec env (Activate_key p k) w = outcome (activate_key env p k w)"
| "exec env (Get_key p k) w = outcome (get_key env p k w)"
| "exec env (Get_metadata p k) w = outcome (get_metadata env p k w)"
| "exec env (Locate_keys p state name limit) w = outcome (locate_keys env p state name limit w)"
| "exec env (Lifecycle_counts ps) w = outcome (lifecycle_counts env ps w)"

text \<open>
  How the map of keys may change: an entry keeps its provider, identifier and material, and its
  metadata either stays or is the activated one; entries may be added.
\<close>

definition grows :: "key_map \<Rightarrow> key_map \<Rightarrow> bool" where
  "grows M M' \<longleftrightarrow> (\<forall>k m pt. M k = Some (m, pt) \<longrightarrow>
     (\<exists>m'. M' k = Some (m', pt) \<and> (m' = m \<or> k_state m = PRE_ACTIVE \<and> (\<exists>t. m' = activated m t))))"

lemma grows_refl [simp]: "grows M M"
  by (simp add: grows_def)

lemma grows_trans:
  assumes "grows M M'" and "grows M' M''"
  shows "grows M M''"
  unfolding grows_def
proof (intro allI impI)
  fix k m pt assume "M k = Some (m, pt)"
  then obtain m' where m': "M' k = Some (m', pt)" "m' = m \<or> k_state m = PRE_ACTIVE \<and> (\<exists>t. m' = activated m t)"
    using assms(1) unfolding grows_def by blast
  then obtain m'' where m'': "M'' k = Some (m'', pt)" "m'' = m' \<or> k_state m' = PRE_ACTIVE \<and> (\<exists>t. m'' = activated m' t)"
    using assms(2) unfolding grows_def by blast
  have "k_state (activated m t) \<noteq> PRE_ACTIVE" for t by (simp add: activated_def)
  with m' m'' show "\<exists>m'. M'' k = Some (m', pt) \<and> (m' = m \<or> k_state m = PRE_ACTIVE \<and> (\<exists>t. m' = activated m t))"
    by blast
qed

lemma grows_new: "M k = None \<Longrightarrow> grows M (M(k \<mapsto> x))"
  by (auto simp: grows_def)

lemma grows_activated: "M k = Some (m, pt) \<Longrightarrow> k_state m = PRE_ACTIVE \<Longrightarrow> grows M (M(k \<mapsto> (activated m t, pt)))"
  by (auto simp: grows_def)

text \<open>Only entries of one provider may change.\<close>

definition only_provider :: "ustr option \<Rightarrow> key_map \<Rightarrow> key_map \<Rightarrow> bool" where
  "only_provider p M M' \<longleftrightarrow> (\<forall>k. Some (fst k) \<noteq> p \<longrightarrow> M' k = M k)"

fun acting_provider :: "env \<Rightarrow> command \<Rightarrow> ustr option" where
  "acting_provider env (Create_key p name attrs) = uuid_canon (uni env) p"
| "acting_provider env (Activate_key p k) = uuid_canon (uni env) p"
| "acting_provider env _ = None"

text \<open>The store is running and holds this map; the files hold it.\<close>

definition running :: "env \<Rightarrow> bytes \<Rightarrow> bytes \<Rightarrow> key_map \<Rightarrow> world \<Rightarrow> bool" where
  "running env master kek M w \<longleftrightarrow>
     env_ok env \<and> (\<exists>db. consistent env master kek db w \<and> keys_open env kek db \<and> contents env kek db = M)"

definition stopped :: "env \<Rightarrow> bytes \<Rightarrow> bytes \<Rightarrow> key_map \<Rightarrow> world \<Rightarrow> bool" where
  "stopped env master kek M w \<longleftrightarrow>
     env_ok env \<and> length master = 32
     \<and> (\<exists>db. kept env master kek db (w_disk w) \<and> keys_open env kek db \<and> contents env kek db = M)"

lemma running_stopped: "running env master kek M w \<Longrightarrow> stopped env master kek M w"
  by (auto simp: running_def stopped_def consistent_def)

lemma runningI:
  "env_ok env \<Longrightarrow> consistent env master kek db w \<Longrightarrow> keys_open env kek db \<Longrightarrow> contents env kek db = M
     \<Longrightarrow> running env master kek M w"
  by (auto simp: running_def)

lemma runningE:
  assumes "running env master kek M w"
  obtains db where "env_ok env" "consistent env master kek db w" "keys_open env kek db" "contents env kek db = M"
  using assms by (auto simp: running_def)

lemma create_key_running:
  assumes "running env master kek M w" and "create_key env p name attrs w = (r, w')"
  obtains "running env master kek M w'" "\<forall>m. r \<noteq> Inr m"
  | m pt where "running env master kek (M(key_of m \<mapsto> (m, pt))) w'" "M (key_of m) = None"
      "uuid_canon (uni env) p = Some (k_provider_id m)" "k_name m = name" "k_state m = PRE_ACTIVE"
      "uuid_canon (uni env) (k_key_id m) = Some (k_key_id m)" "length pt = 32" "\<forall>m'. r = Inr m' \<longrightarrow> m' = m"
proof -
  obtain db where db: "env_ok env" "consistent env master kek db w" "keys_open env kek db" "contents env kek db = M"
    using assms(1) by (rule runningE)
  obtain db' where db': "consistent env master kek db' w'" "keys_open env kek db'"
    and o: "contents env kek db' = M \<and> (\<forall>m. r \<noteq> Inr m)
        \<or> (\<exists>m pt. M (key_of m) = None \<and> contents env kek db' = M(key_of m \<mapsto> (m, pt))
             \<and> uuid_canon (uni env) p = Some (k_provider_id m) \<and> k_name m = name \<and> k_state m = PRE_ACTIVE
             \<and> uuid_canon (uni env) (k_key_id m) = Some (k_key_id m) \<and> length pt = 32
             \<and> (\<forall>m'. r = Inr m' \<longrightarrow> m' = m))"
    using create_key_outcome [OF db(1-3) assms(2)] unfolding db(4) by blast
  note run = runningI [OF db(1) db']
  from o show ?thesis
    by (elim disjE exE conjE) (rule that(1) that(2), rule run; assumption)+
qed

lemma activate_key_running:
  assumes "running env master kek M w" and "activate_key env p k w = (r, w')"
  obtains "running env master kek M w'" "\<forall>u. r = Inr u \<longrightarrow> k_state u = ACTIVE \<and> (\<exists>pt. M (key_of u) = Some (u, pt)
        \<and> uuid_canon (uni env) p = Some (k_provider_id u) \<and> uuid_canon (uni env) k = Some (k_key_id u))"
  | m pt t where "running env master kek (M(key_of m \<mapsto> (activated m t, pt))) w'" "M (key_of m) = Some (m, pt)"
      "k_state m = PRE_ACTIVE" "uuid_canon (uni env) p = Some (k_provider_id m)"
      "uuid_canon (uni env) k = Some (k_key_id m)" "\<forall>u. r = Inr u \<longrightarrow> u = activated m t"
proof -
  obtain db where db: "env_ok env" "consistent env master kek db w" "keys_open env kek db" "contents env kek db = M"
    using assms(1) by (rule runningE)
  note lk = lookup_Inr [OF db(3), of p k, unfolded db(4)]
  obtain db' where db': "consistent env master kek db' w'" "keys_open env kek db'"
    and o: "contents env kek db' = M
          \<and> (\<forall>u. r = Inr u \<longrightarrow> k_state u = ACTIVE \<and> (\<exists>pt. lookup env kek db p k = Inr (u, pt)))
        \<or> (\<exists>m pt t. lookup env kek db p k = Inr (m, pt) \<and> k_state m = PRE_ACTIVE
             \<and> contents env kek db' = M(key_of m \<mapsto> (activated m t, pt))
             \<and> (\<forall>u. r = Inr u \<longrightarrow> u = activated m t))"
    using activate_key_outcome [OF db(1-3) assms(2)] unfolding db(4) by blast
  note run = runningI [OF db(1) db']
  from o show ?thesis
  proof (elim disjE exE conjE)
    assume "contents env kek db' = M"
      "\<forall>u. r = Inr u \<longrightarrow> k_state u = ACTIVE \<and> (\<exists>pt. lookup env kek db p k = Inr (u, pt))"
    then show ?thesis using lk by (intro that(1) run) blast+
  next
    fix m pt t
    assume "lookup env kek db p k = Inr (m, pt)" "k_state m = PRE_ACTIVE"
      "contents env kek db' = M(key_of m \<mapsto> (activated m t, pt))" "\<forall>u. r = Inr u \<longrightarrow> u = activated m t"
    then show ?thesis using lk by (intro that(2) run) blast+
  qed
qed

lemma reading_running:
  assumes "running env master kek M w"
  shows "get_key env p k w = (r, w') \<Longrightarrow> running env master kek M w'"
    "get_metadata env p k w = (r', w') \<Longrightarrow> running env master kek M w'"
    "locate_keys env p state name limit w = (r'', w') \<Longrightarrow> running env master kek M w'"
    "lifecycle_counts env ps w = (r4, w') \<Longrightarrow> running env master kek M w'"
proof -
  obtain db where db: "env_ok env" "consistent env master kek db w" "keys_open env kek db" "contents env kek db = M"
    using assms by (rule runningE)
  note run = runningI [OF db(1) _ db(3,4)]
  show "get_key env p k w = (r, w') \<Longrightarrow> running env master kek M w'"
    by (rule run [OF get_key_outcome(1) [OF db(1,2)]])
  show "get_metadata env p k w = (r', w') \<Longrightarrow> running env master kek M w'"
    by (rule run [OF get_metadata_outcome(1) [OF db(1,2)]])
  show "locate_keys env p state name limit w = (r'', w') \<Longrightarrow> running env master kek M w'"
    by (rule run [OF locate_keys_outcome(1) [OF db(1,2)]])
  show "lifecycle_counts env ps w = (r4, w') \<Longrightarrow> running env master kek M w'"
    by (rule run [OF lifecycle_counts_outcome [OF db(1,2)]])
qed

lemma outcome_run: "outcome (f w) = (x, w') \<Longrightarrow> \<exists>r. f w = (r, w')"
  by (cases "f w") (auto simp: outcome_def)

lemma exec_running:
  assumes run: "running env master kek M w" and ex: "exec env c w = (x, w')"
  shows "\<exists>M'. running env master kek M' w' \<and> grows M M' \<and> only_provider (acting_provider env c) M M'"
proof -
  have same: ?thesis if "running env master kek M w'"
    using that by (intro exI [of _ M]) (simp add: only_provider_def)
  show ?thesis
  proof (cases c)
    case (Create_key p name attrs)
    with ex obtain r where "create_key env p name attrs w = (r, w')" by (auto dest: outcome_run)
    from run this show ?thesis
    proof (rule create_key_running)
      fix m pt
      assume "running env master kek (M(key_of m \<mapsto> (m, pt))) w'" "M (key_of m) = None"
        "uuid_canon (uni env) p = Some (k_provider_id m)"
      then show ?thesis
        by (intro exI [of _ "M(key_of m \<mapsto> (m, pt))"])
          (auto simp: Create_key grows_new only_provider_def key_of_def)
    qed (rule same)
  next
    case (Activate_key p k)
    with ex obtain r where "activate_key env p k w = (r, w')" by (auto dest: outcome_run)
    from run this show ?thesis
    proof (rule activate_key_running)
      fix m pt t
      assume "running env master kek (M(key_of m \<mapsto> (activated m t, pt))) w'" "M (key_of m) = Some (m, pt)"
        "k_state m = PRE_ACTIVE" "uuid_canon (uni env) p = Some (k_provider_id m)"
      then show ?thesis
        by (intro exI [of _ "M(key_of m \<mapsto> (activated m t, pt))"])
          (auto simp: Activate_key grows_activated only_provider_def key_of_def)
    qed (rule same)
  next
    case (Get_key p k)
    with ex obtain r where "get_key env p k w = (r, w')" by (auto dest: outcome_run)
    then show ?thesis by (rule same [OF reading_running(1) [OF run]])
  next
    case (Get_metadata p k)
    with ex obtain r where "get_metadata env p k w = (r, w')" by (auto dest: outcome_run)
    then show ?thesis by (rule same [OF reading_running(2) [OF run]])
  next
    case (Locate_keys p state name limit)
    with ex obtain r where "locate_keys env p state name limit w = (r, w')" by (auto dest: outcome_run)
    then show ?thesis by (rule same [OF reading_running(3) [OF run]])
  next
    case (Lifecycle_counts ps)
    with ex obtain r where "lifecycle_counts env ps w = (r, w')" by (auto dest: outcome_run)
    then show ?thesis by (rule same [OF reading_running(4) [OF run]])
  qed
qed

subsection \<open>Starting under faults\<close>

lemma init_outcome:
  assumes env: "env_ok env" and k: "kept env master kek db (w_disk w)" and m: "length master = 32"
    and mk: "master_of env sk (w_disk w) = Inr master" and run: "init_store env sk False w = (r, w')"
  shows "kept env master kek db (w_disk w')" and "r = Inr () \<Longrightarrow> consistent env master kek db w'"
    and "d_recovery (w_disk w') = d_recovery (w_disk w)"
proof -
  obtain e where e: "opened env master (w_disk w) e" "sound kek e" "covers env e db"
    and db: "d_db (w_disk w) = Some db" "db_ok db"
    using k by (auto simp: kept_def)
  define w0 where "w0 = w\<lparr>w_self := \<lparr>s_read_only = False, s_master_key = master,
      s_kek = e_kek e, s_envelope = e\<rparr>\<rparr>"
  have ready: "db\<lparr>schema_ready := True\<rparr> = db" using db(2) by (simp add: db_ok_def)
  have kn: "d_kek (w_disk w) \<noteq> None" using e(1) by (auto simp: opened_def)
  have c0: "consistent env master kek db w0"
    using k m e by (simp add: consistent_def w0_def held_def sound_def)
  have "init_store env sk False w = initialize env w0"
    using db kn load_existing [OF mk m e(1), of False] by (simp add: init_store_def w0_def)
  also have "\<dots> = bindM (commit env db) (\<lambda>_. verify_store_commitment env db) w0"
    using db by (simp add: initialize_def connect_def create_tables_def ready w0_def db_ok_def)
  finally have run': "bindM (commit env db) (\<lambda>_. verify_store_commitment env db) w0 = (r, w')" using run by simp
  have step: "consistent env master kek db v \<and> d_recovery (w_disk v) = d_recovery (w_disk w)"
    if "commit env db w0 = (x, v)" for x v
    using commit_outcome [OF that] c0 by (auto simp: consistent_def kept_def opened_def w0_def)
  have "consistent env master kek db w' \<and> d_recovery (w_disk w') = d_recovery (w_disk w)"
    using run'
  proof (cases rule: bindM_cases)
    case (raised x)
    then show ?thesis using step by blast
  next
    case (went_on x v)
    note v = step [OF went_on(1)]
    from verify_outcome(1,2) [OF env conjunct1 [OF v] went_on(2)] v show ?thesis by (simp add: same_files_def)
  qed
  then show "kept env master kek db (w_disk w')" and "r = Inr () \<Longrightarrow> consistent env master kek db w'"
    and "d_recovery (w_disk w') = d_recovery (w_disk w)" by (simp_all add: consistent_def)
qed

text \<open>No operation touches the sealed recovery master.\<close>

interpretation files: world_invariant "\<lambda>w. d_recovery (w_disk w) = R" for R
  by unfold_locales simp

lemma effects_keep_recovery:
  "keeps (\<lambda>w. d_recovery (w_disk w) = R) (replace_kek env content)"
  "keeps (\<lambda>w. d_recovery (w_disk w) = R) (commit env view)"
  "keeps (\<lambda>w. d_recovery (w_disk w) = R) (putM (\<lambda>w. w\<lparr>w_self := f w\<rparr>))"
  by (auto simp: keeps_def replace_kek_def commit_def putM_def Let_def split: write_fault.splits commit_fault.splits)

lemmas recovery_rules = files.keeps_rules effects_keep_recovery

lemma store_keeps_recovery:
  "keeps (\<lambda>w. d_recovery (w_disk w) = R) connect"
  "keeps (\<lambda>w. d_recovery (w_disk w) = R) (write_envelope env e)"
  "keeps (\<lambda>w. d_recovery (w_disk w) = R) (verify_store_commitment env db)"
  "keeps (\<lambda>w. d_recovery (w_disk w) = R) (commit_mutation env db)"
  unfolding connect_def write_envelope_def write_kek_envelope_def verify_store_commitment_def
    commit_mutation_def Let_def
  by (intro recovery_rules)+

lemma outcome_keeps: "keeps I m \<Longrightarrow> outcome (m w) = (x, w') \<Longrightarrow> I w \<Longrightarrow> I w'"
  by (cases "m w") (auto simp: outcome_def dest: keepsD)

lemma operations_keep_recovery:
  "keeps (\<lambda>w. d_recovery (w_disk w) = R) (create_key env p name attrs)"
  "keeps (\<lambda>w. d_recovery (w_disk w) = R) (activate_key env p k)"
  "keeps (\<lambda>w. d_recovery (w_disk w) = R) (get_key env p k)"
  "keeps (\<lambda>w. d_recovery (w_disk w) = R) (get_metadata env p k)"
  "keeps (\<lambda>w. d_recovery (w_disk w) = R) (locate_keys env p st name' limit)"
  "keeps (\<lambda>w. d_recovery (w_disk w) = R) (lifecycle_counts env ps)"
  unfolding create_key_def get_key_def get_metadata_def activate_key_def read_key_def locate_keys_def
    lifecycle_counts_def Let_def
  by (intro recovery_rules store_keeps_recovery)+

lemma exec_recovery:
  assumes "exec env c w = (x, w')"
  shows "d_recovery (w_disk w') = d_recovery (w_disk w)"
  using assms
  by (cases c; simp only: exec.simps)
    (rule outcome_keeps [OF operations_keep_recovery(1) _ refl] outcome_keeps [OF operations_keep_recovery(2) _ refl]
      outcome_keeps [OF operations_keep_recovery(3) _ refl] outcome_keeps [OF operations_keep_recovery(4) _ refl]
      outcome_keeps [OF operations_keep_recovery(5) _ refl] outcome_keeps [OF operations_keep_recovery(6) _ refl],
      assumption)+

subsection \<open>The life of a store\<close>

text \<open>
  The process is up or down. Up, it executes operations; it goes down when the machine stops
  inside one, or at any moment between two. Down, it is started, which may fail.
\<close>

inductive life :: "env \<Rightarrow> ustr \<Rightarrow> bool \<times> world \<Rightarrow> bool \<times> world \<Rightarrow> bool" for env sk where
  operate: "exec env c w = (x, w') \<Longrightarrow> x \<noteq> Some PowerLoss \<Longrightarrow> life env sk (True, w) (True, w')"
| cut: "exec env c w = (Some PowerLoss, w') \<Longrightarrow> life env sk (True, w) (False, w')"
| stop: "life env sk (True, w) (False, w)"
| start: "init_store env sk False w = (Inr (), w') \<Longrightarrow> life env sk (False, w) (True, w')"
| start_failed: "init_store env sk False w = (Inl e, w') \<Longrightarrow> life env sk (False, w) (False, w')"

inductive_cases lifeE: "life env sk s s'"

text \<open>
  A system whose every step moves an abstract state forward along a preorder moves it forward
  along every run. Interpreted for the life of a store, where the abstract state is the map of keys.
\<close>

locale forward_simulation =
  fixes step :: "'s \<Rightarrow> 's \<Rightarrow> bool" and abs :: "'m \<Rightarrow> 's \<Rightarrow> bool" and le :: "'m \<Rightarrow> 'm \<Rightarrow> bool"
  assumes step_abs: "abs m s \<Longrightarrow> step s s' \<Longrightarrow> \<exists>m'. le m m' \<and> abs m' s'"
    and le_refl: "le m m"
    and le_trans: "le m m' \<Longrightarrow> le m' m'' \<Longrightarrow> le m m''"
begin

lemma run_abs: "step\<^sup>*\<^sup>* s s' \<Longrightarrow> abs m s \<Longrightarrow> \<exists>m'. le m m' \<and> abs m' s'"
proof (induction rule: rtranclp_induct)
  case base
  then show ?case using le_refl by blast
next
  case (step y z)
  then show ?case using step_abs le_trans by blast
qed

end

definition stores :: "env \<Rightarrow> ustr \<Rightarrow> bytes \<Rightarrow> bytes \<Rightarrow> key_map \<Rightarrow> bool \<times> world \<Rightarrow> bool" where
  "stores env sk master kek M s \<longleftrightarrow>
     master_of env sk (w_disk (snd s)) = Inr master
     \<and> (if fst s then running env master kek M (snd s) else stopped env master kek M (snd s))"

lemma master_of_cong:
  "d_recovery d' = d_recovery d \<Longrightarrow> master_of env sk d' = master_of env sk d"
  by (simp add: master_of_def)

lemma start_stores:
  assumes "stores env sk master kek M (False, w)" and "init_store env sk False w = (r, w')"
  shows "stores env sk master kek M (r = Inr (), w')"
proof -
  obtain db where db: "env_ok env" "length master = 32" "master_of env sk (w_disk w) = Inr master"
    "kept env master kek db (w_disk w)" "keys_open env kek db" "contents env kek db = M"
    using assms(1) by (auto simp: stores_def stopped_def)
  note o = init_outcome [OF db(1,4,2,3) assms(2)]
  have m: "master_of env sk (w_disk w') = Inr master" using db(3) master_of_cong [OF o(3)] by simp
  show ?thesis
  proof (cases "r = Inr ()")
    case True
    then have "running env master kek M w'" by (intro runningI [OF db(1) o(2) db(5,6)]) simp
    then show ?thesis using m True by (simp add: stores_def)
  next
    case False
    have "stopped env master kek M w'" using o(1) db by (auto simp: stopped_def)
    then show ?thesis using m False by (simp add: stores_def)
  qed
qed

lemma life_stores:
  assumes "stores env sk master kek M s" and "life env sk s s'"
  shows "\<exists>M'. grows M M' \<and> stores env sk master kek M' s'"
  using assms(2,1)
proof cases
  case (operate c w x w')
  then have r: "running env master kek M w" "master_of env sk (w_disk w) = Inr master"
    using assms(1) by (simp_all add: stores_def)
  from exec_running [OF r(1) operate(3)] obtain M' where "running env master kek M' w'" "grows M M'" by blast
  then show ?thesis using operate r(2) master_of_cong [OF exec_recovery [OF operate(3)]] by (auto simp: stores_def)
next
  case (cut c w w')
  then have r: "running env master kek M w" "master_of env sk (w_disk w) = Inr master"
    using assms(1) by (simp_all add: stores_def)
  from exec_running [OF r(1) cut(3)] obtain M' where "stopped env master kek M' w'" "grows M M'"
    using running_stopped by blast
  then show ?thesis using cut r(2) master_of_cong [OF exec_recovery [OF cut(3)]] by (auto simp: stores_def)
next
  case (stop w)
  then show ?thesis using assms(1) by (auto simp: stores_def dest: running_stopped intro!: exI [of _ M])
next
  case (start w w')
  then show ?thesis using start_stores [of env sk master kek M w] assms(1) by (auto intro!: exI [of _ M])
next
  case (start_failed w e w')
  then show ?thesis using start_stores [of env sk master kek M w "Inl e"] assms(1) by (auto intro!: exI [of _ M])
qed

interpretation store_life: forward_simulation "life env sk" "stores env sk master kek" grows
  for env sk master kek
  by unfold_locales (auto intro: life_stores grows_trans)

subsection \<open>Progress\<close>

interpretation clock: world_invariant "\<lambda>w. n \<le> w_io w" for n
  by unfold_locales simp

lemma effects_advance:
  "keeps (\<lambda>w. n \<le> w_io w) (replace_kek env content)"
  "keeps (\<lambda>w. n \<le> w_io w) (commit env view)"
  "keeps (\<lambda>w. n \<le> w_io w) (putM (\<lambda>w. w\<lparr>w_self := f w\<rparr>))"
  by (auto simp: keeps_def replace_kek_def commit_def putM_def Let_def split: write_fault.splits commit_fault.splits)

lemmas clock_rules = clock.keeps_rules effects_advance

lemma store_advances:
  "keeps (\<lambda>w. n \<le> w_io w) connect"
  "keeps (\<lambda>w. n \<le> w_io w) (write_envelope env e)"
  "keeps (\<lambda>w. n \<le> w_io w) (write_kek_envelope env master e)"
  "keeps (\<lambda>w. n \<le> w_io w) (verify_store_commitment env db)"
  "keeps (\<lambda>w. n \<le> w_io w) (commit_mutation env db)"
  unfolding connect_def write_envelope_def write_kek_envelope_def verify_store_commitment_def
    commit_mutation_def Let_def
  by (intro clock_rules)+

lemma init_advances: "keeps (\<lambda>w. n \<le> w_io w) (init_store env sk ro)"
  unfolding init_store_def load_or_create_kek_def initialize_def create_tables_def Let_def
  by (intro clock_rules store_advances)

lemma operations_advance:
  "keeps (\<lambda>w. n \<le> w_io w) (create_key env p name attrs)"
  "keeps (\<lambda>w. n \<le> w_io w) (activate_key env p k)"
  "keeps (\<lambda>w. n \<le> w_io w) (get_key env p k)"
  unfolding create_key_def get_key_def activate_key_def read_key_def Let_def
  by (intro clock_rules store_advances)+

lemma calm_after: "calm env (w_io w) \<Longrightarrow> keeps (\<lambda>v. w_io w \<le> w_io v) m \<Longrightarrow> m w = (r, w') \<Longrightarrow> calm env (w_io w')"
  using keepsD [of "\<lambda>v. w_io w \<le> w_io v" m w r w'] by (auto simp: calm_def)

lemma get_key_running:
  assumes "running env master kek M w" and "calm env (w_io w)"
    and "uuid_canon (uni env) p = Some pc" and "uuid_canon (uni env) k = Some kc"
  shows "fst (get_key env p k w) =
     or_raise (KeyNotFoundError ''KMIP key was not found in the authenticated provider.'') (M (pc, kc))"
proof -
  obtain db where db: "env_ok env" "consistent env master kek db w" "keys_open env kek db" "contents env kek db = M"
    using assms(1) by (rule runningE)
  show ?thesis
    using get_key_calm [OF db(1,2) assms(2), of p k] lookup_contents [OF db(3), of p k] assms(3,4)
    by (auto simp: db(4))
qed

lemma commit_mutation_calm:
  assumes env: "env_ok env" and w: "consistent env master kek db w"
    and s: "settled_on env kek db (s_envelope (w_self w))" and ok: "db_ok view"
    and c: "calm env (w_io w)" and i: "int_ok (e_generation (s_envelope (w_self w)) + 1)"
  shows "fst (commit_mutation env view w) = Inr ()"
proof -
  define g where "g = e_generation (s_envelope (w_self w))"
  define x where "x = e_commitment (s_envelope (w_self w))"
  define p where "p = \<lparr>e_kek = kek, e_generation = g, e_commitment = x,
      e_pending_generation = Some (g + 1), e_pending_commitment = Some (commitment env view)\<rparr>"
  have h: "held env master kek db (w_self w)" and m: "length (s_master_key (w_self w)) = 32"
    using w by (auto simp: consistent_def held_def)
  then have "sound kek (s_envelope (w_self w))" by (simp add: held_def)
  then have gi: "int_ok g" by (simp add: sound_def payload_ints g_def)
  obtain w1 where w1: "write_envelope env p w = (Inr (), w1)" "w_io w1 = Suc (w_io w)"
    using write_envelope_calm [OF env _ m c, of p] gi i by (auto simp: p_def payload_ints g_def)
  have m1: "s_master_key (w_self w1) = s_master_key (w_self w)"
    using w1(1) by (auto simp: write_envelope_def write_kek_envelope_def replace_kek_def bindM_def m_defs Let_def
        split: sum.splits write_fault.splits)
  obtain w2 where w2: "commit env view w1 = (Inr (), w2)" "w_io w2 = Suc (w_io w1)" "w_self w2 = w_self w1"
    using calmD(2) [OF calmD(3) [OF c]] by (simp add: commit_def w1(2))
  have c2: "calm env (w_io w2)" using c by (simp add: calm_def w1 w2)
  obtain w3 where "write_envelope env (settled kek (g + 1) (commitment env view)) w2 = (Inr (), w3)"
    using write_envelope_calm [OF env _ _ c2, of "settled kek (g + 1) (commitment env view)"] m m1 i
    by (auto simp: payload_ints w2 g_def)
  then show ?thesis
    unfolding commit_mutation_run [OF ok h g_def x_def p_def] using w1 w2 by (simp add: catchM_def bindM_def)
qed

lemma uuid_canon_scalar: "uuid_canon u s = Some c \<Longrightarrow> list_all is_scalar c"
  by (auto simp: uuid_canon_def Let_def nat_less_iff intro!: uuid4_scalar split: if_splits option.splits)

lemma uuid4_text_scalar: "length bs = 16 \<Longrightarrow> list_all is_scalar (uuid4_text bs)"
  unfolding uuid4_text_def
  by (rule uuid4_scalar) (use from_be_bound [of "bs[6 := _, 8 := _]"] in auto)

lemma new_row_inserts:
  assumes env: "env_ok env" and p: "list_all is_scalar pc" and n: "name_ok name"
    "\<forall>t. name = Some t \<longrightarrow> list_all is_scalar t \<and> sqlite_length t \<noteq> 0"
    and m: "m = new_key env pc name as i" and fresh: "key_of m \<notin> row_key ` set (wrapped_keys db)"
  shows "\<exists>view. insert_row (new_row env kek m i) db = Inr view"
proof -
  let ?r = "new_row env kek m i"
  have len: "k_length m = 256" by (simp add: m new_key_def)
  have sl: "sqlite_length t \<le> length t" for t by (simp add: sqlite_length_def length_takeWhile_le)
  have "list_all is_scalar (dumps (JObj (aad_document m)))"
    by (rule ascii_scalar [OF dumps_ascii [OF sealed_ints [OF len]]])
  then have b: "row_binds ?r"
    using p n(2) env_okD(3,4) [OF env]
    by (cases name) (simp_all add: row_binds_def new_row_def Let_def row_of_def m new_key_def lit_scalar_cong
        uuid4_text_scalar del: dumps.simps)
  have ck: "row_checks ?r"
    using n env_okD(3) [OF env] le_trans [OF sl]
    by (cases name) (simp_all add: row_checks_def new_row_def Let_def row_of_def m new_key_def name_ok_def Suc_le_eq)
  have "row_key ?r = key_of m" by (simp add: row_key_def new_row_def Let_def row_of_def key_of_def)
  then show ?thesis using b ck fresh by (simp add: insert_row_def)
qed

lemma create_key_calm:
  assumes run: "running env master kek M w" and c: "calm env (w_io w)"
    and p: "uuid_canon (uni env) p = Some pc" and a: "validated_custom_attributes (json_pairs attrs) = Inr as"
    and n: "name_ok name" "\<forall>t. name = Some t \<longrightarrow> list_all is_scalar t \<and> sqlite_length t \<noteq> 0"
    and fresh: "M (pc, uuid4_text (urandom env (w_draw w) 16)) = None"
    and i: "int_ok (e_generation (s_envelope (w_self w)) + 1)" "int_ok (e_generation (s_envelope (w_self w)) + 2)"
  shows "\<exists>m w'. create_key env p name attrs w = (Inr m, w')"
proof -
  obtain db where db: "env_ok env" "consistent env master kek db w" "keys_open env kek db" "contents env kek db = M"
    using run by (rule runningE)
  define m where "m = new_key env pc name as (w_draw w)"
  have w4: "consistent env master kek db (after_draws 4 w)" using db(2) by simp
  have c4: "calm env (w_io (after_draws 4 w))" using c by simp
  obtain w1 where v: "verify_store_commitment env db (after_draws 4 w) = (Inr (), w1)"
    using verify_calm [OF db(1) w4 c4] by blast
  note o = verify_outcome [OF db(1) w4 v]
  have c1: "calm env (w_io w1)" by (rule calm_after [OF c4 store_advances(4) v])
  have key: "key_of m = (pc, uuid4_text (urandom env (w_draw w) 16))" by (simp add: m_def key_of_def new_key_def)
  have nk: "key_of m \<notin> row_key ` set (wrapped_keys db)"
    using fresh contents_None [OF db(3), of "key_of m"] by (simp add: db(4) key)
  obtain view where ins: "insert_row (new_row env kek m (w_draw w)) db = Inr view"
    using new_row_inserts [OF db(1) uuid_canon_scalar [OF p] n m_def nk] by blast
  have ok: "db_ok db" and kl: "length kek = 32"
    using db(2) by (auto simp: consistent_def kept_def held_def dest: sound_ok)
  have "k_length m = 256" "attributes_ok (k_custom_attributes m)"
    using a by (auto simp: m_def new_key_def validated_attributes)
  from insert_row_contents(1) [OF db(1) ok db(3) this kl env_okD(3) [OF db(1)] env_okD(3) [OF db(1)] refl
      ins [unfolded new_row_def Let_def]]
  have vok: "db_ok view" .
  have "int_ok (e_generation (s_envelope (w_self w1)) + 1)" using o(4) i by (auto simp: add.assoc)
  from commit_mutation_calm [OF db(1) o(1) _ vok c1 this] o(3)
  have "fst (commit_mutation env view w1) = Inr ()" by simp
  then show ?thesis
    unfolding create_key_run [OF db(1,2) p a n(1) m_def]
    by (cases "commit_mutation env view w1") (simp add: v ins returnM_def)
qed

lemma get_key_found:
  assumes "running env master kek M w" and "get_key env p k w = (Inr (m, pt), w')"
  shows "M (key_of m) = Some (m, pt) \<and> uuid_canon (uni env) p = Some (k_provider_id m)
     \<and> uuid_canon (uni env) k = Some (k_key_id m)"
proof -
  obtain db where db: "env_ok env" "consistent env master kek db w" "keys_open env kek db" "contents env kek db = M"
    using assms(1) by (rule runningE)
  show ?thesis using lookup_Inr [OF db(3) get_key_outcome(2) [OF db(1,2) assms(2) refl]] by (simp add: db(4))
qed

lemma get_metadata_found:
  assumes "running env master kek M w" and "get_metadata env p k w = (Inr m, w')"
  shows "\<exists>pt. M (key_of m) = Some (m, pt) \<and> uuid_canon (uni env) p = Some (k_provider_id m)
     \<and> uuid_canon (uni env) k = Some (k_key_id m)"
proof -
  obtain db where db: "env_ok env" "consistent env master kek db w" "keys_open env kek db" "contents env kek db = M"
    using assms(1) by (rule runningE)
  show ?thesis using get_metadata_outcome(2) [OF db(1,2) assms(2) refl] lookup_Inr [OF db(3)] by (auto simp: db(4))
qed

end
