(* ===== verification/Protocol.thy ===== *)
theory Protocol
  imports Ttlv StoreLife
begin

text \<open>
  The operation dispatcher (\<open>atlaso/app/kmip/protocol.py\<close>): the KMIP numbers, the field readers, the
  eight operations of the vSphere key provider inside one provider namespace, and the batch loop
  that answers each item of a request with a success or a failure.
\<close>

subsection \<open>Numbers\<close>

datatype kmip_tag =
    ACTIVATION_DATE | ATTRIBUTE | ATTRIBUTE_NAME | ATTRIBUTE_VALUE | BATCH_COUNT | BATCH_ITEM
  | CRYPTOGRAPHIC_ALGORITHM | CRYPTOGRAPHIC_LENGTH | CRYPTOGRAPHIC_USAGE_MASK | KEY_BLOCK
  | KEY_FORMAT_TYPE | KEY_MATERIAL | KEY_VALUE | MAXIMUM_RESPONSE_SIZE | NAME | NAME_TYPE
  | NAME_VALUE | OBJECT_TYPE | OPERATION | PROTOCOL_VERSION | PROTOCOL_VERSION_MAJOR
  | PROTOCOL_VERSION_MINOR | QUERY_FUNCTION | REQUEST_HEADER | REQUEST_MESSAGE | REQUEST_PAYLOAD
  | RESPONSE_HEADER | RESPONSE_MESSAGE | RESPONSE_PAYLOAD | RESULT_MESSAGE | RESULT_REASON
  | RESULT_STATUS | STATE | SYMMETRIC_KEY | TEMPLATE_ATTRIBUTE | TIME_STAMP | UNIQUE_BATCH_ITEM_ID
  | UNIQUE_IDENTIFIER | VENDOR_IDENTIFICATION

text \<open>The members of \<open>Tag\<close>; every use of a tag is a use of its number.\<close>

fun tg :: "kmip_tag \<Rightarrow> int" where
  "tg ACTIVATION_DATE = 0x420001"
| "tg ATTRIBUTE = 0x420008"
| "tg ATTRIBUTE_NAME = 0x42000A"
| "tg ATTRIBUTE_VALUE = 0x42000B"
| "tg BATCH_COUNT = 0x42000D"
| "tg BATCH_ITEM = 0x42000F"
| "tg CRYPTOGRAPHIC_ALGORITHM = 0x420028"
| "tg CRYPTOGRAPHIC_LENGTH = 0x42002A"
| "tg CRYPTOGRAPHIC_USAGE_MASK = 0x42002C"
| "tg KEY_BLOCK = 0x420040"
| "tg KEY_FORMAT_TYPE = 0x420042"
| "tg KEY_MATERIAL = 0x420043"
| "tg KEY_VALUE = 0x420045"
| "tg MAXIMUM_RESPONSE_SIZE = 0x420050"
| "tg NAME = 0x420053"
| "tg NAME_TYPE = 0x420054"
| "tg NAME_VALUE = 0x420055"
| "tg OBJECT_TYPE = 0x420057"
| "tg OPERATION = 0x42005C"
| "tg PROTOCOL_VERSION = 0x420069"
| "tg PROTOCOL_VERSION_MAJOR = 0x42006A"
| "tg PROTOCOL_VERSION_MINOR = 0x42006B"
| "tg QUERY_FUNCTION = 0x420074"
| "tg REQUEST_HEADER = 0x420077"
| "tg REQUEST_MESSAGE = 0x420078"
| "tg REQUEST_PAYLOAD = 0x420079"
| "tg RESPONSE_HEADER = 0x42007A"
| "tg RESPONSE_MESSAGE = 0x42007B"
| "tg RESPONSE_PAYLOAD = 0x42007C"
| "tg RESULT_MESSAGE = 0x42007D"
| "tg RESULT_REASON = 0x42007E"
| "tg RESULT_STATUS = 0x42007F"
| "tg STATE = 0x42008D"
| "tg SYMMETRIC_KEY = 0x42008F"
| "tg TEMPLATE_ATTRIBUTE = 0x420091"
| "tg TIME_STAMP = 0x420092"
| "tg UNIQUE_BATCH_ITEM_ID = 0x420093"
| "tg UNIQUE_IDENTIFIER = 0x420094"
| "tg VENDOR_IDENTIFICATION = 0x42009D"

datatype operation =
    CREATE | LOCATE | GET | GET_ATTRIBUTES | GET_ATTRIBUTE_LIST | ACTIVATE | QUERY | DISCOVER_VERSIONS

fun operation_code :: "operation \<Rightarrow> int" where
  "operation_code CREATE = 0x01"
| "operation_code LOCATE = 0x08"
| "operation_code GET = 0x0A"
| "operation_code GET_ATTRIBUTES = 0x0B"
| "operation_code GET_ATTRIBUTE_LIST = 0x0C"
| "operation_code ACTIVATE = 0x12"
| "operation_code QUERY = 0x18"
| "operation_code DISCOVER_VERSIONS = 0x1E"

text \<open>The members in the order the class lists them, which is the order \<open>for operation in Operation\<close> visits.\<close>

definition all_operations :: "operation list" where
  "all_operations =
     [CREATE, LOCATE, GET, GET_ATTRIBUTES, GET_ATTRIBUTE_LIST, ACTIVATE, QUERY, DISCOVER_VERSIONS]"

definition operation_of :: "int \<Rightarrow> operation option" where
  "operation_of n = find (\<lambda>x. operation_code x = n) all_operations"

definition SUCCESS :: int where "SUCCESS = 0"
definition OPERATION_FAILED :: int where "OPERATION_FAILED = 1"

definition QUERY_OPERATIONS :: int where "QUERY_OPERATIONS = 1"
definition QUERY_OBJECTS :: int where "QUERY_OBJECTS = 2"
definition QUERY_SERVER_INFORMATION :: int where "QUERY_SERVER_INFORMATION = 3"

definition OBJECT_TYPE_SYMMETRIC_KEY :: int where "OBJECT_TYPE_SYMMETRIC_KEY = 2"
definition CRYPTOGRAPHIC_ALGORITHM_AES :: int where "CRYPTOGRAPHIC_ALGORITHM_AES = 3"
definition KEY_FORMAT_TYPE_RAW :: int where "KEY_FORMAT_TYPE_RAW = 1"
definition NAME_TYPE_UNINTERPRETED_TEXT_STRING :: int where "NAME_TYPE_UNINTERPRETED_TEXT_STRING = 1"
definition STATE_PRE_ACTIVE :: int where "STATE_PRE_ACTIVE = 1"
definition STATE_ACTIVE :: int where "STATE_ACTIVE = 2"
definition USAGE_ENCRYPT_DECRYPT :: int where "USAGE_ENCRYPT_DECRYPT = 0x0C"
definition MAX_BATCH_ITEMS :: int where "MAX_BATCH_ITEMS = 16"

definition SUPPORTED_PROTOCOL_VERSIONS :: "(int \<times> int) list" where
  "SUPPORTED_PROTOCOL_VERSIONS = [(1, 4), (1, 1)]"

definition ATTRIBUTE_TAGS :: "(ustr \<times> kmip_tag) list" where
  "ATTRIBUTE_TAGS =
     [(lit ''Activation Date'', ACTIVATION_DATE), (lit ''Cryptographic Algorithm'', CRYPTOGRAPHIC_ALGORITHM),
      (lit ''Cryptographic Length'', CRYPTOGRAPHIC_LENGTH),
      (lit ''Cryptographic Usage Mask'', CRYPTOGRAPHIC_USAGE_MASK), (lit ''Name'', NAME),
      (lit ''Object Type'', OBJECT_TYPE), (lit ''State'', STATE), (lit ''Unique Identifier'', UNIQUE_IDENTIFIER)]"

subsection \<open>Field readers\<close>

definition node_value :: "ttlv \<Rightarrow> ttlv_type \<Rightarrow> ttlv_value res" where
  "node_value node expected_type =
     (if ty node \<noteq> expected_type then Inl (ProtocolFailure INVALID_FIELD ''A KMIP field has the wrong TTLV type.'')
      else case val node of VTuple cs \<Rightarrow> Inl AssertionError | v \<Rightarrow> Inr v)"

definition integer_value :: "ttlv \<Rightarrow> ttlv_type \<Rightarrow> int res" where
  "integer_value node expected_type =
     bindE (node_value node expected_type) (\<lambda>v.
       case v of VInt i \<Rightarrow> Inr i
       | _ \<Rightarrow> Inl (ProtocolFailure INVALID_FIELD ''A KMIP numeric field is invalid.''))"

definition text_value :: "ttlv \<Rightarrow> ustr res" where
  "text_value node =
     bindE (node_value node TEXT_STRING) (\<lambda>v.
       case v of VStr s \<Rightarrow> Inr s
       | _ \<Rightarrow> Inl (ProtocolFailure INVALID_FIELD ''A KMIP text field is invalid.''))"

text \<open>\<open>except TtlvError as exc: raise ProtocolFailure(...)\<close>.\<close>

definition ttlv_as :: "result_reason \<Rightarrow> string \<Rightarrow> 'a res \<Rightarrow> 'a res" where
  "ttlv_as reason message r = catchE r (\<lambda>e. Inl (if is_ttlv_error e then ProtocolFailure reason message else e))"

definition required_child :: "ttlv \<Rightarrow> kmip_tag \<Rightarrow> ttlv res" where
  "required_child node t =
     bindE (ttlv_as MISSING_DATA ''A required KMIP field is missing.'' (child node (tg t) True)) (\<lambda>c.
       or_raise AssertionError c)"

definition optional_batch_item_id :: "ttlv \<Rightarrow> bytes option res" where
  "optional_batch_item_id node =
     bindE (child node (tg UNIQUE_BATCH_ITEM_ID) False) (\<lambda>c.
       case c of
         None \<Rightarrow> Inr None
       | Some n \<Rightarrow>
           (case (ty n, val n) of
              (BYTE_STRING, VBytes b) \<Rightarrow> Inr (Some b)
            | _ \<Rightarrow> Inl (ProtocolFailure INVALID_MESSAGE ''Unique Batch Item ID must be a Byte String.'')))"

definition only_tags :: "ttlv \<Rightarrow> kmip_tag list \<Rightarrow> unit res" where
  "only_tags node allowed = assert_only_tags node (map tg allowed)"

definition protocol_version :: "ttlv \<Rightarrow> (int \<times> int) res" where
  "protocol_version node =
     (if ty node \<noteq> STRUCTURE then Inl (ProtocolFailure INVALID_FIELD ''Protocol Version must be a structure.'')
      else
        bindE (ttlv_as INVALID_FIELD ''Protocol Version contains unsupported fields.''
                 (only_tags node [PROTOCOL_VERSION_MAJOR, PROTOCOL_VERSION_MINOR])) (\<lambda>_.
        bindE (required_child node PROTOCOL_VERSION_MAJOR) (\<lambda>major_node.
        bindE (integer_value major_node INTEGER) (\<lambda>major.
        bindE (required_child node PROTOCOL_VERSION_MINOR) (\<lambda>minor_node.
        bindE (integer_value minor_node INTEGER) (\<lambda>minor.
          Inr (major, minor)))))))"

definition version_node :: "int \<times> int \<Rightarrow> ttlv" where
  "version_node version =
     structure_node (tg PROTOCOL_VERSION)
       [integer (tg PROTOCOL_VERSION_MAJOR) (fst version), integer (tg PROTOCOL_VERSION_MINOR) (snd version)]"

definition attribute_node :: "ustr \<Rightarrow> ttlv \<Rightarrow> ttlv" where
  "attribute_node name v =
     structure_node (tg ATTRIBUTE)
       [text_string (tg ATTRIBUTE_NAME) name, Ttlv (tg ATTRIBUTE_VALUE) (ty v) (val v)]"

definition metadata_attribute :: "env \<Rightarrow> ustr \<Rightarrow> stored_key \<Rightarrow> ttlv res" where
  "metadata_attribute env name metadata =
     (if name = lit ''Cryptographic Algorithm''
      then Inr (attribute_node name (enumeration (tg ATTRIBUTE_VALUE) CRYPTOGRAPHIC_ALGORITHM_AES))
      else if name = lit ''Cryptographic Length''
      then Inr (attribute_node name (integer (tg ATTRIBUTE_VALUE) 256))
      else if name = lit ''Cryptographic Usage Mask''
      then Inr (attribute_node name (integer (tg ATTRIBUTE_VALUE) USAGE_ENCRYPT_DECRYPT))
      else if name = lit ''Object Type''
      then Inr (attribute_node name (enumeration (tg ATTRIBUTE_VALUE) OBJECT_TYPE_SYMMETRIC_KEY))
      else if name = lit ''State''
      then Inr (attribute_node name (enumeration (tg ATTRIBUTE_VALUE)
             (if k_state metadata = ACTIVE then STATE_ACTIVE else STATE_PRE_ACTIVE)))
      else if name = lit ''Unique Identifier''
      then Inr (attribute_node name (text_string (tg ATTRIBUTE_VALUE) (k_key_id metadata)))
      else if name = lit ''Activation Date''
      then (case k_activated_at metadata of
              None \<Rightarrow> Inl (ProtocolFailure INVALID_FIELD ''Activation Date is unavailable for a pre-active key.'')
            | Some t \<Rightarrow>
                bindE (or_raise (ValueError ''Invalid isoformat string'') (iso_timestamp env t)) (\<lambda>seconds.
                  Inr (attribute_node name (date_time (tg ATTRIBUTE_VALUE) seconds))))
      else if name = lit ''Name''
      then (case k_name metadata of
              None \<Rightarrow> Inl (ProtocolFailure INVALID_FIELD ''Name is unavailable for this key.'')
            | Some n \<Rightarrow>
                Inr (attribute_node name (structure_node (tg ATTRIBUTE_VALUE)
                  [text_string (tg NAME_VALUE) n,
                   enumeration (tg NAME_TYPE) NAME_TYPE_UNINTERPRETED_TEXT_STRING])))
      else case map_of (rev (k_custom_attributes metadata)) name of
             Some custom_value \<Rightarrow> Inr (attribute_node name (text_string (tg ATTRIBUTE_VALUE) custom_value))
           | None \<Rightarrow> Inl (ProtocolFailure INVALID_FIELD ''Requested KMIP attribute is unsupported.''))"

definition parse_name :: "ttlv \<Rightarrow> ustr res" where
  "parse_name node =
     (if ty node \<noteq> STRUCTURE then Inl (ProtocolFailure INVALID_FIELD ''Name must be a structure.'')
      else
        bindE (ttlv_as INVALID_FIELD ''Name contains unsupported fields.'' (only_tags node [NAME_VALUE, NAME_TYPE])) (\<lambda>_.
        bindE (bindE (required_child node NAME_VALUE) text_value) (\<lambda>name.
        bindE (bindE (required_child node NAME_TYPE) (\<lambda>n. integer_value n ENUMERATION)) (\<lambda>name_type.
        bindE (guardE (name_type = NAME_TYPE_UNINTERPRETED_TEXT_STRING)
                 (ProtocolFailure INVALID_FIELD ''Only Uninterpreted Text String names are supported.'')) (\<lambda>_.
        bindE (guardE (1 \<le> length name \<and> length name \<le> 256)
                 (ProtocolFailure INVALID_FIELD ''Name must contain 1 to 256 characters.'')) (\<lambda>_.
          Inr name))))))"

subsection \<open>Template attributes\<close>

datatype attribute_value = AInt int | AStr ustr

definition parse_attribute_value :: "ustr list \<Rightarrow> ustr \<Rightarrow> ttlv \<Rightarrow> attribute_value res" where
  "parse_attribute_value string_names name raw_value =
     (if name = lit ''Name'' then bindE (parse_name raw_value) (\<lambda>n. Inr (AStr n))
      else if name \<in> set string_names
      then
        bindE (text_value raw_value) (\<lambda>v.
        bindE (catchE (utf8 v) (\<lambda>e. Inl (if e = UnicodeEncodeError
                 then ProtocolFailure INVALID_FIELD ''Custom attribute value is not valid UTF-8 text.'' else e))) (\<lambda>b.
        bindE (guardE (length b \<le> MAX_CUSTOM_ATTRIBUTE_VALUE_BYTES)
                 (ProtocolFailure INVALID_FIELD ''Custom attribute values exceed the supported UTF-8 byte limit.'')) (\<lambda>_.
          Inr (AStr v))))
      else
        bindE (integer_value raw_value
                 (if name \<in> {lit ''Cryptographic Algorithm'', lit ''Object Type'', lit ''State''}
                  then ENUMERATION else INTEGER)) (\<lambda>i.
          Inr (AInt i)))"

fun parse_attributes ::
  "ustr list \<Rightarrow> ustr list \<Rightarrow> (ustr \<times> attribute_value) list \<Rightarrow> ttlv list \<Rightarrow> (ustr \<times> attribute_value) list res" where
  "parse_attributes allowed_names string_names result [] = Inr result"
| "parse_attributes allowed_names string_names result (attribute # rest) =
     (if ty attribute \<noteq> STRUCTURE then Inl (ProtocolFailure INVALID_FIELD ''Attribute must be a structure.'')
      else
        bindE (ttlv_as INVALID_FIELD ''Attribute contains unsupported fields.''
                 (only_tags attribute [ATTRIBUTE_NAME, ATTRIBUTE_VALUE])) (\<lambda>_.
        bindE (bindE (required_child attribute ATTRIBUTE_NAME) text_value) (\<lambda>name.
        bindE (guardE (name \<notin> fst ` set result)
                 (ProtocolFailure INVALID_FIELD ''Duplicate KMIP attributes are unsupported.'')) (\<lambda>_.
        bindE (guardE (name \<in> set allowed_names)
                 (ProtocolFailure INVALID_FIELD ''Create attribute is outside the allowlist.'')) (\<lambda>_.
        bindE (required_child attribute ATTRIBUTE_VALUE) (\<lambda>raw_value.
        bindE (parse_attribute_value string_names name raw_value) (\<lambda>v.
          parse_attributes allowed_names string_names (result @ [(name, v)]) rest)))))))"

definition parse_template_attributes ::
  "ttlv \<Rightarrow> ustr list \<Rightarrow> ustr list \<Rightarrow> (ustr \<times> attribute_value) list res" where
  "parse_template_attributes template allowed_names string_names =
     (if ty template \<noteq> STRUCTURE
      then Inl (ProtocolFailure INVALID_FIELD ''Template Attribute must be a structure.'')
      else
        bindE (ttlv_as INVALID_FIELD ''Template Attribute contains unsupported fields.''
                 (only_tags template [ATTRIBUTE])) (\<lambda>_.
        bindE (children_tag template (tg ATTRIBUTE)) (\<lambda>attributes.
          parse_attributes allowed_names string_names [] attributes)))"

definition unique_identifier :: "ttlv \<Rightarrow> ustr res" where
  "unique_identifier payload =
     bindE (bindE (required_child payload UNIQUE_IDENTIFIER) text_value) (\<lambda>v.
     bindE (guardE (v \<noteq> []) (ProtocolFailure INVALID_FIELD ''Unique Identifier must not be empty.'')) (\<lambda>_.
       Inr v))"

subsection \<open>The operations\<close>

text \<open>\<open>sorted(VSPHERE_CUSTOM_ATTRIBUTES)\<close>.\<close>

definition sorted_custom_names :: "ustr list" where
  "sorted_custom_names = sort VSPHERE_CUSTOM_ATTRIBUTES"

definition attribute_or :: "(ustr \<times> attribute_value) list \<Rightarrow> ustr \<Rightarrow> attribute_value option \<Rightarrow> attribute_value option" where
  "attribute_or attributes name fallback = (case map_of attributes name of Some v \<Rightarrow> Some v | None \<Rightarrow> fallback)"

text \<open>\<open>assert name is None or isinstance(name, str)\<close>.\<close>

definition name_attribute :: "(ustr \<times> attribute_value) list \<Rightarrow> ustr option res" where
  "name_attribute attributes =
     (case map_of attributes (lit ''Name'') of
        None \<Rightarrow> Inr None | Some (AStr s) \<Rightarrow> Inr (Some s) | Some (AInt i) \<Rightarrow> Inl AssertionError)"

definition custom_attributes_of :: "(ustr \<times> attribute_value) list \<Rightarrow> (ustr \<times> ustr) list" where
  "custom_attributes_of attributes =
     concat (map (\<lambda>n. case map_of attributes n of Some (AStr s) \<Rightarrow> [(n, s)] | _ \<Rightarrow> []) sorted_custom_names)"

definition create_request :: "ttlv \<Rightarrow> (ustr option \<times> (ustr \<times> ustr) list) res" where
  "create_request payload =
     bindE (ttlv_as INVALID_FIELD ''Create contains unsupported fields.''
              (only_tags payload [OBJECT_TYPE, TEMPLATE_ATTRIBUTE])) (\<lambda>_.
     bindE (bindE (required_child payload OBJECT_TYPE) (\<lambda>n. integer_value n ENUMERATION)) (\<lambda>object_type.
     bindE (guardE (object_type = OBJECT_TYPE_SYMMETRIC_KEY)
              (ProtocolFailure INVALID_FIELD ''Only Symmetric Key objects are supported.'')) (\<lambda>_.
     bindE (bindE (required_child payload TEMPLATE_ATTRIBUTE) (\<lambda>t.
              parse_template_attributes t
                ([lit ''Cryptographic Algorithm'', lit ''Cryptographic Length'', lit ''Cryptographic Usage Mask'',
                  lit ''Name''] @ VSPHERE_CUSTOM_ATTRIBUTES) VSPHERE_CUSTOM_ATTRIBUTES)) (\<lambda>attributes.
     bindE (guardE (map_of attributes (lit ''Cryptographic Algorithm'') = Some (AInt CRYPTOGRAPHIC_ALGORITHM_AES))
              (ProtocolFailure INVALID_FIELD ''Only AES keys are supported.'')) (\<lambda>_.
     bindE (guardE (map_of attributes (lit ''Cryptographic Length'') = Some (AInt 256))
              (ProtocolFailure INVALID_FIELD ''Only AES-256 keys are supported.'')) (\<lambda>_.
     bindE (guardE (attribute_or attributes (lit ''Cryptographic Usage Mask'') (Some (AInt USAGE_ENCRYPT_DECRYPT))
                = Some (AInt USAGE_ENCRYPT_DECRYPT))
              (ProtocolFailure INVALID_FIELD ''Only Encrypt and Decrypt key usage is supported.'')) (\<lambda>_.
     bindE (name_attribute attributes) (\<lambda>name.
       Inr (name, custom_attributes_of attributes)))))))))"

definition op_create :: "env \<Rightarrow> ustr \<Rightarrow> ttlv \<Rightarrow> ttlv list m" where
  "op_create env provider_id payload =
     bindM (liftM (create_request payload)) (\<lambda>(name, custom_attributes).
     bindM (create_key env provider_id name custom_attributes) (\<lambda>metadata.
       returnM [enumeration (tg OBJECT_TYPE) OBJECT_TYPE_SYMMETRIC_KEY,
                text_string (tg UNIQUE_IDENTIFIER) (k_key_id metadata)]))"

definition op_activate :: "env \<Rightarrow> ustr \<Rightarrow> ttlv \<Rightarrow> ttlv list m" where
  "op_activate env provider_id payload =
     bindM (liftM (ttlv_as INVALID_FIELD ''Activate contains unsupported fields.''
              (only_tags payload [UNIQUE_IDENTIFIER]))) (\<lambda>_.
     bindM (liftM (unique_identifier payload)) (\<lambda>key_id.
     bindM (activate_key env provider_id key_id) (\<lambda>_.
       returnM [text_string (tg UNIQUE_IDENTIFIER) key_id])))"

definition key_block :: "bytes \<Rightarrow> ttlv" where
  "key_block plaintext =
     structure_node (tg SYMMETRIC_KEY)
       [structure_node (tg KEY_BLOCK)
          [enumeration (tg KEY_FORMAT_TYPE) KEY_FORMAT_TYPE_RAW,
           structure_node (tg KEY_VALUE) [byte_string (tg KEY_MATERIAL) plaintext],
           enumeration (tg CRYPTOGRAPHIC_ALGORITHM) CRYPTOGRAPHIC_ALGORITHM_AES,
           integer (tg CRYPTOGRAPHIC_LENGTH) 256]]"

definition get_request :: "ttlv \<Rightarrow> ustr res" where
  "get_request payload =
     bindE (ttlv_as INVALID_FIELD ''Get contains unsupported fields.''
              (only_tags payload [UNIQUE_IDENTIFIER, KEY_FORMAT_TYPE])) (\<lambda>_.
     bindE (child payload (tg KEY_FORMAT_TYPE) False) (\<lambda>format_node.
     bindE (case format_node of
              None \<Rightarrow> Inr ()
            | Some n \<Rightarrow>
                bindE (integer_value n ENUMERATION) (\<lambda>fmt.
                  guardE (fmt = KEY_FORMAT_TYPE_RAW)
                    (ProtocolFailure KEY_FORMAT_TYPE_NOT_SUPPORTED ''Only Raw symmetric key format is supported.''))) (\<lambda>_.
       unique_identifier payload)))"

definition op_get :: "env \<Rightarrow> ustr \<Rightarrow> ttlv \<Rightarrow> ttlv list m" where
  "op_get env provider_id payload =
     bindM (liftM (get_request payload)) (\<lambda>key_id.
     bindM (get_key env provider_id key_id) (\<lambda>(metadata, plaintext).
     bindM (guardM (k_state metadata \<in> {PRE_ACTIVE, ACTIVE})
              (ProtocolFailure INVALID_FIELD ''Only Pre-Active or Active KMIP keys may be retrieved.'')) (\<lambda>_.
       returnM [enumeration (tg OBJECT_TYPE) OBJECT_TYPE_SYMMETRIC_KEY,
                text_string (tg UNIQUE_IDENTIFIER) (k_key_id metadata), key_block plaintext])))"

definition attribute_names :: "stored_key \<Rightarrow> ustr list" where
  "attribute_names metadata =
     [lit ''Cryptographic Algorithm'', lit ''Cryptographic Length'', lit ''Cryptographic Usage Mask'',
      lit ''Object Type'', lit ''State'', lit ''Unique Identifier'']
     @ (if k_name metadata \<noteq> None then [lit ''Name''] else [])
     @ (if k_activated_at metadata \<noteq> None then [lit ''Activation Date''] else [])
     @ filter (\<lambda>n. n \<in> fst ` set (k_custom_attributes metadata)) sorted_custom_names"

definition op_get_attribute_list :: "env \<Rightarrow> ustr \<Rightarrow> ttlv \<Rightarrow> ttlv list m" where
  "op_get_attribute_list env provider_id payload =
     bindM (liftM (ttlv_as INVALID_FIELD ''Get Attribute List contains unsupported fields.''
              (only_tags payload [UNIQUE_IDENTIFIER]))) (\<lambda>_.
     bindM (liftM (unique_identifier payload)) (\<lambda>key_id.
     bindM (get_metadata env provider_id key_id) (\<lambda>metadata.
       returnM (text_string (tg UNIQUE_IDENTIFIER) (k_key_id metadata)
                # map (text_string (tg ATTRIBUTE_NAME)) (attribute_names metadata)))))"

definition present_name :: "stored_key \<Rightarrow> ustr \<Rightarrow> bool" where
  "present_name metadata name \<longleftrightarrow>
     (name \<notin> set VSPHERE_CUSTOM_ATTRIBUTES
        \<and> \<not> (k_name metadata = None \<and> name = lit ''Name'')
        \<and> \<not> (k_activated_at metadata = None \<and> name = lit ''Activation Date''))
     \<or> name \<in> fst ` set (k_custom_attributes metadata)"

definition op_get_attributes :: "env \<Rightarrow> ustr \<Rightarrow> ttlv \<Rightarrow> ttlv list m" where
  "op_get_attributes env provider_id payload =
     bindM (liftM (ttlv_as INVALID_FIELD ''Get Attributes contains unsupported fields.''
              (only_tags payload [UNIQUE_IDENTIFIER, ATTRIBUTE_NAME]))) (\<lambda>_.
     bindM (liftM (unique_identifier payload)) (\<lambda>key_id.
     bindM (get_metadata env provider_id key_id) (\<lambda>metadata.
     bindM (liftM (bindE (children_tag payload (tg ATTRIBUTE_NAME)) (mapE text_value))) (\<lambda>requested.
     let names = (if requested = [] then attribute_names metadata else requested) in
     bindM (guardM (distinct names
                \<and> list_all (\<lambda>n. n \<in> fst ` set ATTRIBUTE_TAGS \<or> n \<in> set VSPHERE_CUSTOM_ATTRIBUTES) names)
              (ProtocolFailure INVALID_FIELD ''Requested attributes are invalid.'')) (\<lambda>_.
     bindM (liftM (mapE (\<lambda>n. metadata_attribute env n metadata) (filter (present_name metadata) names))) (\<lambda>attributes.
       returnM (text_string (tg UNIQUE_IDENTIFIER) (k_key_id metadata) # attributes)))))))"

text \<open>What a Locate payload asks for: nothing can match, or the state and name to search by.\<close>

definition locate_request :: "ttlv \<Rightarrow> (ustr option \<times> ustr option) option res" where
  "locate_request payload =
     bindE (ttlv_as INVALID_FIELD ''Locate contains unsupported fields.''
              (only_tags payload [MAXIMUM_RESPONSE_SIZE, ATTRIBUTE])) (\<lambda>_.
     bindE (children_tag payload (tg ATTRIBUTE)) (\<lambda>attributes.
     if attributes = [] then Inr (Some (None, None))
     else
       bindE (parse_template_attributes (structure_node (tg TEMPLATE_ATTRIBUTE) attributes)
                [lit ''Cryptographic Algorithm'', lit ''Cryptographic Length'', lit ''Name'',
                 lit ''Object Type'', lit ''State''] []) (\<lambda>filters.
       if attribute_or filters (lit ''Cryptographic Algorithm'') (Some (AInt CRYPTOGRAPHIC_ALGORITHM_AES))
            \<noteq> Some (AInt CRYPTOGRAPHIC_ALGORITHM_AES)
          \<or> attribute_or filters (lit ''Cryptographic Length'') (Some (AInt 256)) \<noteq> Some (AInt 256)
          \<or> attribute_or filters (lit ''Object Type'') (Some (AInt OBJECT_TYPE_SYMMETRIC_KEY))
            \<noteq> Some (AInt OBJECT_TYPE_SYMMETRIC_KEY)
          \<or> map_of filters (lit ''State'') \<notin> {None, Some (AInt STATE_PRE_ACTIVE), Some (AInt STATE_ACTIVE)}
       then Inr None
       else
         bindE (name_attribute filters) (\<lambda>name.
           Inr (Some (if map_of filters (lit ''State'') = Some (AInt STATE_PRE_ACTIVE) then Some PRE_ACTIVE
                      else if map_of filters (lit ''State'') = Some (AInt STATE_ACTIVE) then Some ACTIVE
                      else None, name))))))"

definition op_locate :: "env \<Rightarrow> ustr \<Rightarrow> ttlv \<Rightarrow> ttlv list m" where
  "op_locate env provider_id payload =
     bindM (liftM (locate_request payload)) (\<lambda>query.
     case query of
       None \<Rightarrow> returnM []
     | Some (state, name) \<Rightarrow>
         bindM (locate_keys env provider_id state name 1024) (\<lambda>ids.
           returnM (map (text_string (tg UNIQUE_IDENTIFIER)) ids)))"

definition query_function :: "int \<Rightarrow> ttlv list res" where
  "query_function f =
     (if f = QUERY_OPERATIONS
      then Inr (map (\<lambda>x. enumeration (tg OPERATION) (operation_code x)) all_operations)
      else if f = QUERY_OBJECTS then Inr [enumeration (tg OBJECT_TYPE) OBJECT_TYPE_SYMMETRIC_KEY]
      else if f = QUERY_SERVER_INFORMATION then Inr [text_string (tg VENDOR_IDENTIFICATION) (lit ''Atlaso'')]
      else Inl (ProtocolFailure OPERATION_NOT_SUPPORTED ''Query Function is outside the supported contract.''))"

definition op_query :: "ttlv \<Rightarrow> ttlv list res" where
  "op_query payload =
     bindE (ttlv_as INVALID_FIELD ''Query contains unsupported fields.'' (only_tags payload [QUERY_FUNCTION])) (\<lambda>_.
     bindE (children_tag payload (tg QUERY_FUNCTION)) (\<lambda>nodes.
     bindE (mapE (\<lambda>n. integer_value n ENUMERATION) nodes) (\<lambda>requested.
     bindE (guardE (requested \<noteq> []) (ProtocolFailure MISSING_DATA ''Query Function is required.'')) (\<lambda>_.
     bindE (guardE (distinct requested)
              (ProtocolFailure INVALID_FIELD ''Query Function must not be duplicated.'')) (\<lambda>_.
     bindE (mapE query_function requested) (\<lambda>parts.
       Inr (concat parts)))))))"

definition op_discover_versions :: "ttlv \<Rightarrow> ttlv list res" where
  "op_discover_versions payload =
     bindE (ttlv_as INVALID_FIELD ''Discover Versions contains unsupported fields.''
              (only_tags payload [PROTOCOL_VERSION])) (\<lambda>_.
     bindE (children_tag payload (tg PROTOCOL_VERSION)) (\<lambda>nodes.
     bindE (mapE protocol_version nodes) (\<lambda>offered.
       Inr (map version_node
              (if offered = [] then SUPPORTED_PROTOCOL_VERSIONS
               else filter (\<lambda>v. v \<in> set offered) SUPPORTED_PROTOCOL_VERSIONS)))))"

definition dispatch_operation :: "env \<Rightarrow> ustr \<Rightarrow> operation \<Rightarrow> ttlv \<Rightarrow> ttlv list m" where
  "dispatch_operation env provider_id operation payload =
     bindM (guardM (ty payload = STRUCTURE)
              (ProtocolFailure INVALID_FIELD ''Request Payload must be a structure.'')) (\<lambda>_.
     case operation of
       QUERY \<Rightarrow> liftM (op_query payload)
     | DISCOVER_VERSIONS \<Rightarrow> liftM (op_discover_versions payload)
     | CREATE \<Rightarrow> op_create env provider_id payload
     | ACTIVATE \<Rightarrow> op_activate env provider_id payload
     | GET \<Rightarrow> op_get env provider_id payload
     | GET_ATTRIBUTES \<Rightarrow> op_get_attributes env provider_id payload
     | GET_ATTRIBUTE_LIST \<Rightarrow> op_get_attribute_list env provider_id payload
     | LOCATE \<Rightarrow> op_locate env provider_id payload)"

subsection \<open>The batch loop\<close>

definition id_node :: "bytes option \<Rightarrow> ttlv list" where
  "id_node batch_item_id =
     (case batch_item_id of None \<Rightarrow> [] | Some b \<Rightarrow> [byte_string (tg UNIQUE_BATCH_ITEM_ID) b])"

definition failed_batch :: "int \<Rightarrow> result_reason \<Rightarrow> string \<Rightarrow> bytes option \<Rightarrow> ttlv" where
  "failed_batch operation_value reason message batch_item_id =
     structure_node (tg BATCH_ITEM)
       ([enumeration (tg OPERATION) operation_value] @ id_node batch_item_id
        @ [enumeration (tg RESULT_STATUS) OPERATION_FAILED,
           enumeration (tg RESULT_REASON) (reason_code reason),
           text_string (tg RESULT_MESSAGE) (lit message)])"

definition success_batch :: "operation \<Rightarrow> bytes option \<Rightarrow> ttlv list \<Rightarrow> ttlv" where
  "success_batch operation batch_item_id result =
     structure_node (tg BATCH_ITEM)
       ([enumeration (tg OPERATION) (operation_code operation)] @ id_node batch_item_id
        @ [enumeration (tg RESULT_STATUS) SUCCESS, structure_node (tg RESPONSE_PAYLOAD) result])"

text \<open>The \<open>except\<close> clauses of the loop, in their order; any other exception leaves the loop.\<close>

definition batch_failure :: "exn \<Rightarrow> (result_reason \<times> string) option" where
  "batch_failure e =
     (case e of
        TtlvError m \<Rightarrow> Some (INVALID_MESSAGE, ''Batch Item contains invalid TTLV.'')
      | KeyNotFoundError m \<Rightarrow> Some (ITEM_NOT_FOUND, ''KMIP key was not found in the authenticated provider.'')
      | KeyStateError m \<Rightarrow> Some (INVALID_FIELD, ''KMIP key state is invalid.'')
      | KeyStoreError m \<Rightarrow> Some (GENERAL_FAILURE, ''KMIP operational store request failed.'')
      | ProtocolFailure r m \<Rightarrow> Some (r, m)
      | _ \<Rightarrow> None)"

definition answer_failure :: "int \<Rightarrow> bytes option \<Rightarrow> exn \<Rightarrow> ttlv m" where
  "answer_failure operation_value batch_item_id e =
     (case batch_failure e of
        Some (reason, message) \<Rightarrow> returnM (failed_batch operation_value reason message batch_item_id)
      | None \<Rightarrow> raiseM e)"

text \<open>The first pass: how often each well-formed batch item id occurs.\<close>

fun batch_id_counts :: "ttlv list \<Rightarrow> (bytes \<times> int) list \<Rightarrow> (bytes \<times> int) list res" where
  "batch_id_counts [] counts = Inr counts"
| "batch_id_counts (item # items) counts =
     (case optional_batch_item_id item of
        Inl e \<Rightarrow> if is_protocol_failure e \<or> is_ttlv_error e then batch_id_counts items counts else Inl e
      | Inr None \<Rightarrow> batch_id_counts items counts
      | Inr (Some b) \<Rightarrow>
          batch_id_counts items
            (dict_put b ((case map_of counts b of None \<Rightarrow> 0 | Some n \<Rightarrow> n) + 1) counts))"

text \<open>The part of the loop body after the operation value is known.\<close>

definition run_item :: "env \<Rightarrow> ustr \<Rightarrow> (bytes \<times> int) list \<Rightarrow> int \<Rightarrow> ttlv \<Rightarrow> int \<Rightarrow> bytes option \<Rightarrow> ttlv m" where
  "run_item env provider_id counts batch_count item operation_value batch_item_id =
     bindM (guardM (\<not> (batch_count > 1 \<and> batch_item_id = None))
              (ProtocolFailure INVALID_MESSAGE ''Unique Batch Item ID is required for multi-item requests.'')) (\<lambda>_.
     bindM (liftM (case batch_item_id of
              None \<Rightarrow> Inr ()
            | Some b \<Rightarrow> bindE (or_raise KeyError (map_of counts b)) (\<lambda>n.
                guardE (\<not> n > 1)
                  (ProtocolFailure INVALID_MESSAGE ''Unique Batch Item IDs must be unique within the request.'')))) (\<lambda>_.
     bindM (liftM (or_raise (ProtocolFailure OPERATION_NOT_SUPPORTED ''Operation is outside the supported contract.'')
              (operation_of operation_value))) (\<lambda>operation.
     bindM (liftM (required_child item REQUEST_PAYLOAD)) (\<lambda>payload.
     bindM (dispatch_operation env provider_id operation payload) (\<lambda>result.
       returnM (success_batch operation batch_item_id result))))))"

definition process_item :: "env \<Rightarrow> ustr \<Rightarrow> (bytes \<times> int) list \<Rightarrow> int \<Rightarrow> ttlv \<Rightarrow> ttlv m" where
  "process_item env provider_id counts batch_count item =
     (if ty item \<noteq> STRUCTURE
      then answer_failure 0 None (ProtocolFailure INVALID_MESSAGE ''Batch Item must be a structure.'')
      else case optional_batch_item_id item of
        Inl e \<Rightarrow> answer_failure 0 None e
      | Inr batch_item_id \<Rightarrow>
          (case bindE (only_tags item [OPERATION, UNIQUE_BATCH_ITEM_ID, REQUEST_PAYLOAD]) (\<lambda>_.
                bindE (required_child item OPERATION) (\<lambda>n. integer_value n ENUMERATION)) of
             Inl e \<Rightarrow> answer_failure 0 batch_item_id e
           | Inr operation_value \<Rightarrow>
               catchM (run_item env provider_id counts batch_count item operation_value batch_item_id)
                 (answer_failure operation_value batch_item_id)))"

text \<open>The checks on the message and its header: the version, the items, and the batch count.\<close>

definition check_request :: "ttlv \<Rightarrow> ((int \<times> int) \<times> ttlv list \<times> int) res" where
  "check_request request =
     bindE (guardE (tag request = tg REQUEST_MESSAGE \<and> ty request = STRUCTURE)
              (ProtocolFailure INVALID_MESSAGE ''Root TTLV must be Request Message.'')) (\<lambda>_.
     bindE (ttlv_as INVALID_MESSAGE ''Request Message contains unsupported fields.''
              (only_tags request [REQUEST_HEADER, BATCH_ITEM])) (\<lambda>_.
     bindE (required_child request REQUEST_HEADER) (\<lambda>header.
     bindE (guardE (ty header = STRUCTURE)
              (ProtocolFailure INVALID_MESSAGE ''Request Header must be a structure.'')) (\<lambda>_.
     bindE (ttlv_as INVALID_MESSAGE ''Request Header contains unsupported fields.''
              (only_tags header [PROTOCOL_VERSION, MAXIMUM_RESPONSE_SIZE, BATCH_COUNT])) (\<lambda>_.
     bindE (bindE (required_child header PROTOCOL_VERSION) protocol_version) (\<lambda>request_version.
     bindE (guardE (request_version \<in> set SUPPORTED_PROTOCOL_VERSIONS)
              (ProtocolFailure INVALID_MESSAGE ''The requested KMIP protocol version is not supported.'')) (\<lambda>_.
     bindE (children_tag request (tg BATCH_ITEM)) (\<lambda>batch_items.
     bindE (bindE (required_child header BATCH_COUNT) (\<lambda>n. integer_value n INTEGER)) (\<lambda>batch_count.
     bindE (guardE (batch_count = int (length batch_items) \<and> 1 \<le> batch_count \<and> batch_count \<le> MAX_BATCH_ITEMS)
              (ProtocolFailure INVALID_MESSAGE ''KMIP Batch Count is invalid.'')) (\<lambda>_.
       Inr (request_version, batch_items, batch_count)))))))))))"

definition response_message :: "int \<times> int \<Rightarrow> int \<Rightarrow> ttlv list \<Rightarrow> ttlv" where
  "response_message version seconds responses =
     structure_node (tg RESPONSE_MESSAGE)
       (structure_node (tg RESPONSE_HEADER)
          [version_node version, date_time (tg TIME_STAMP) seconds,
           integer (tg BATCH_COUNT) (int (length responses))]
        # responses)"

definition dispatch :: "env \<Rightarrow> ustr \<Rightarrow> ttlv \<Rightarrow> ttlv m" where
  "dispatch env provider_id request =
     bindM (liftM (check_request request)) (\<lambda>(request_version, batch_items, batch_count).
     bindM (liftM (batch_id_counts batch_items [])) (\<lambda>counts.
     bindM (mapM (process_item env provider_id counts batch_count) batch_items) (\<lambda>responses.
     bindM (drawM (unix_time env)) (\<lambda>seconds.
       returnM (response_message request_version seconds responses)))))"

text \<open>Distinct tags have distinct codes; proofs compare tags by name.\<close>

lemma tg_eq: "tg a = tg b \<longleftrightarrow> a = b"
  by (cases a; simp; cases b; simp)

declare tg.simps [simp del] tg_eq [simp]

end
