(* ===== verification/Diagnostics.thy ===== *)
theory Diagnostics
  imports Protocol
begin

text \<open>
  What the server writes to its log about a request (\<open>atlaso/app/kmip/server.py\<close>): bounded
  projections of tags, types, allow-listed names and numeric protocol fields.
\<close>

definition ATTRIBUTE_DIAGNOSTIC_TYPES :: "(ustr \<times> ttlv_type) list" where
  "ATTRIBUTE_DIAGNOSTIC_TYPES =
     [(lit ''Cryptographic Algorithm'', ENUMERATION), (lit ''Cryptographic Length'', INTEGER),
      (lit ''Cryptographic Usage Mask'', INTEGER), (lit ''Object Type'', ENUMERATION), (lit ''State'', ENUMERATION)]"

definition ATTRIBUTE_DIAGNOSTIC_NAMES :: "ustr list" where
  "ATTRIBUTE_DIAGNOSTIC_NAMES = map fst ATTRIBUTE_DIAGNOSTIC_TYPES
     @ map lit [''Activation Date'', ''Name'', ''Unique Identifier'', ''x-Component'', ''x-Identifier'', ''x-Name'',
         ''x-Product'', ''x-Product_Version'', ''x-Vendor'']"

text \<open>The children a diagnostic looks at: the tuple of a node cut at a bound.\<close>

definition tuple_prefix :: "nat \<Rightarrow> ttlv \<Rightarrow> ttlv list" where
  "tuple_prefix n node = (case val node of VTuple cs \<Rightarrow> take n cs | _ \<Rightarrow> [])"

fun is_tuple :: "ttlv_value \<Rightarrow> bool" where
  "is_tuple (VTuple cs) = True"
| "is_tuple _ = False"

fun is_str :: "ttlv_value \<Rightarrow> bool" where
  "is_str (VStr s) = True"
| "is_str _ = False"

fun is_int :: "ttlv_value \<Rightarrow> bool" where
  "is_int (VInt i) = True"
| "is_int _ = False"

fun int_of_value :: "ttlv_value \<Rightarrow> int option" where
  "int_of_value (VInt i) = Some i"
| "int_of_value _ = None"

definition numeric_child_value :: "ttlv \<Rightarrow> int \<Rightarrow> ttlv_type \<Rightarrow> int option" where
  "numeric_child_value node t expected_type =
     (if ty node \<noteq> STRUCTURE \<or> \<not> is_tuple (val node) then None
      else case find (\<lambda>c. tag c = t \<and> ty c = expected_type \<and> is_int (val c)) (tuple_prefix 16 node) of
        Some c \<Rightarrow> int_of_value (val c)
      | None \<Rightarrow> None)"

definition field_shape :: "ttlv list \<Rightarrow> (int \<times> nat) list" where
  "field_shape cs = map (\<lambda>c. (tag c, type_code (ty c))) cs"

definition find_structure :: "kmip_tag \<Rightarrow> ttlv list \<Rightarrow> ttlv option" where
  "find_structure t cs = find (\<lambda>c. tag c = tg t \<and> ty c = STRUCTURE) cs"

record attribute_shape =
  a_fields :: "(int \<times> nat) list"
  a_name :: ustr
  a_numeric_value :: "int option"

text \<open>The label of an attribute: its name where the name is allow-listed, else \<open>unsupported\<close>.\<close>

definition attribute_label :: "ttlv list \<Rightarrow> ustr" where
  "attribute_label cs =
     (case find (\<lambda>c. tag c = tg ATTRIBUTE_NAME \<and> ty c = TEXT_STRING \<and> is_str (val c)) cs of
        Some (Ttlv t y (VStr name)) \<Rightarrow> if name \<in> set ATTRIBUTE_DIAGNOSTIC_NAMES then name else lit ''unsupported''
      | _ \<Rightarrow> lit ''unsupported'')"

definition attribute_shape_of :: "ttlv \<Rightarrow> attribute_shape" where
  "attribute_shape_of attribute =
     (let cs = tuple_prefix 16 attribute; label = attribute_label cs in
      \<lparr>a_fields = field_shape cs, a_name = label,
       a_numeric_value = (case map_of ATTRIBUTE_DIAGNOSTIC_TYPES label of
           Some expected_type \<Rightarrow> numeric_child_value attribute (tg ATTRIBUTE_VALUE) expected_type
         | None \<Rightarrow> None)\<rparr>)"

definition template_attribute_shape :: "ttlv \<Rightarrow> attribute_shape list" where
  "template_attribute_shape payload =
     (if ty payload \<noteq> STRUCTURE \<or> \<not> is_tuple (val payload) then []
      else case find_structure TEMPLATE_ATTRIBUTE (tuple_prefix 16 payload) of
        None \<Rightarrow> []
      | Some template \<Rightarrow>
          map attribute_shape_of
            (filter (\<lambda>a. tag a = tg ATTRIBUTE \<and> ty a = STRUCTURE) (tuple_prefix 16 template)))"

record request_shape =
  header_fields :: "(int \<times> nat) list"
  shape_version :: "(int option \<times> int option) option"
  operations :: "int list"
  batch_fields :: "(int \<times> nat) list list"
  payload_fields :: "(int \<times> nat) list list"
  template_attributes :: "attribute_shape list list"

definition payload_of :: "ttlv \<Rightarrow> ttlv option" where
  "payload_of item = find_structure REQUEST_PAYLOAD (tuple_prefix 16 item)"

text \<open>The loop over the items stops after \<open>MAX_BATCH_ITEMS\<close> of them.\<close>

definition dispatch_request_shape :: "ttlv \<Rightarrow> request_shape" where
  "dispatch_request_shape request =
     (if ty request = STRUCTURE \<and> is_tuple (val request)
      then let root_children = tuple_prefix (nat MAX_BATCH_ITEMS + 1) request;
               header = find_structure REQUEST_HEADER root_children;
               items = take (nat MAX_BATCH_ITEMS)
                         (filter (\<lambda>c. tag c = tg BATCH_ITEM \<and> ty c = STRUCTURE) root_children)
           in \<lparr>header_fields = (case header of None \<Rightarrow> [] | Some h \<Rightarrow> field_shape (tuple_prefix 16 h)),
               shape_version = (case header of None \<Rightarrow> None
                 | Some h \<Rightarrow> map_option (\<lambda>v. (numeric_child_value v (tg PROTOCOL_VERSION_MAJOR) INTEGER,
                     numeric_child_value v (tg PROTOCOL_VERSION_MINOR) INTEGER))
                     (find_structure PROTOCOL_VERSION (tuple_prefix 16 h))),
               operations = List.map_filter (\<lambda>item. numeric_child_value item (tg OPERATION) ENUMERATION) items,
               batch_fields = map (\<lambda>item. field_shape (tuple_prefix 16 item)) items,
               payload_fields = map (\<lambda>item. case payload_of item of None \<Rightarrow> [] | Some p \<Rightarrow> field_shape (tuple_prefix 16 p)) items,
               template_attributes = map (\<lambda>item. case payload_of item of None \<Rightarrow> [] | Some p \<Rightarrow> template_attribute_shape p) items\<rparr>
      else \<lparr>header_fields = [], shape_version = None, operations = [], batch_fields = [], payload_fields = [],
            template_attributes = []\<rparr>)"

text \<open>The log lines, as values: a rejected request, an unexpected failure, and the failed items of a response.\<close>

record failed_item =
  i_operation :: "int option"
  i_status :: int
  i_reason :: "int option"

datatype log =
    Unmapped_certificate
  | Rejected_request int request_shape
  | Dispatch_failed string request_shape
  | Failed_items "failed_item list" request_shape
  | Request_failed

text \<open>\<open>type(error).__name__\<close>.\<close>

fun exn_class :: "exn \<Rightarrow> string" where
  "exn_class (TtlvError m) = ''TtlvError''"
| "exn_class (ProtocolFailure r m) = ''ProtocolFailure''"
| "exn_class (KeyStoreError m) = ''KeyStoreError''"
| "exn_class (KeyNotFoundError m) = ''KeyNotFoundError''"
| "exn_class (KeyStateError m) = ''KeyStateError''"
| "exn_class (ConfigurationError m) = ''ConfigurationError''"
| "exn_class (TraceValidationError m) = ''TraceValidationError''"
| "exn_class RecoveryError = ''RecoveryError''"
| "exn_class LegacyStoreError = ''LegacyStoreError''"
| "exn_class (JSONDecodeError m) = ''JSONDecodeError''"
| "exn_class (ValueError m) = ''ValueError''"
| "exn_class UnicodeEncodeError = ''UnicodeEncodeError''"
| "exn_class StructError = ''error''"
| "exn_class OverflowError = ''OverflowError''"
| "exn_class AssertionError = ''AssertionError''"
| "exn_class TypeError = ''TypeError''"
| "exn_class KeyError = ''KeyError''"
| "exn_class IndexError = ''IndexError''"
| "exn_class AttributeError = ''AttributeError''"
| "exn_class RecursionError = ''RecursionError''"
| "exn_class InvalidTag = ''InvalidTag''"
| "exn_class InvalidVersion = ''InvalidVersion''"
| "exn_class IntegrityError = ''IntegrityError''"
| "exn_class OperationalError = ''OperationalError''"
| "exn_class OSError = ''OSError''"
| "exn_class PowerLoss = ''SystemExit''"

definition log_dispatch_failure :: "ttlv \<Rightarrow> exn \<Rightarrow> log" where
  "log_dispatch_failure request error =
     (case error of
        ProtocolFailure reason message \<Rightarrow> Rejected_request (reason_code reason) (dispatch_request_shape request)
      | _ \<Rightarrow> Dispatch_failed (exn_class error) (dispatch_request_shape request))"

definition failed_item_of :: "ttlv \<Rightarrow> failed_item option" where
  "failed_item_of item =
     (case numeric_child_value item (tg RESULT_STATUS) ENUMERATION of
        None \<Rightarrow> None
      | Some status \<Rightarrow>
          if status = SUCCESS then None
          else Some \<lparr>i_operation = numeric_child_value item (tg OPERATION) ENUMERATION, i_status = status,
                     i_reason = numeric_child_value item (tg RESULT_REASON) ENUMERATION\<rparr>)"

definition log_response_failures :: "ttlv \<Rightarrow> ttlv \<Rightarrow> log list" where
  "log_response_failures request response =
     (if ty response \<noteq> STRUCTURE \<or> \<not> is_tuple (val response) then []
      else let failed_items = take (nat MAX_BATCH_ITEMS) (List.map_filter failed_item_of
                 (filter (\<lambda>c. tag c = tg BATCH_ITEM \<and> ty c = STRUCTURE) (tuple_prefix (nat MAX_BATCH_ITEMS + 1) response)))
           in if failed_items = [] then [] else [Failed_items failed_items (dispatch_request_shape request)])"

subsection \<open>Nothing else is written\<close>

text \<open>
  What a log line may depend on: tags, types, the numbers of the protocol's own numeric fields and the
  allow-listed attribute names. \<open>redact\<close> erases everything else.
\<close>

definition NUMERIC_TAGS :: "kmip_tag list" where
  "NUMERIC_TAGS = [PROTOCOL_VERSION_MAJOR, PROTOCOL_VERSION_MINOR, OPERATION, ATTRIBUTE_VALUE, RESULT_STATUS, RESULT_REASON]"

fun redact :: "ttlv \<Rightarrow> ttlv" where
  "redact (Ttlv t y v) = Ttlv t y
     (case v of
        VTuple cs \<Rightarrow> VTuple (map redact cs)
      | VBytes b \<Rightarrow> VBytes []
      | VStr s \<Rightarrow> VStr (if t = tg ATTRIBUTE_NAME \<and> s \<in> set ATTRIBUTE_DIAGNOSTIC_NAMES then s else [])
      | VBool b \<Rightarrow> VBool False
      | VInt i \<Rightarrow> VInt (if t \<in> set (map tg NUMERIC_TAGS) then i else 0))"

declare redact.simps [simp del]

text \<open>An exception with its message erased; the class and the code of a protocol failure are kept.\<close>

fun silenced :: "exn \<Rightarrow> exn" where
  "silenced (TtlvError m) = TtlvError []"
| "silenced (ProtocolFailure r m) = ProtocolFailure r []"
| "silenced (KeyStoreError m) = KeyStoreError []"
| "silenced (KeyNotFoundError m) = KeyNotFoundError []"
| "silenced (KeyStateError m) = KeyStateError []"
| "silenced (ConfigurationError m) = ConfigurationError []"
| "silenced (TraceValidationError m) = TraceValidationError []"
| "silenced (JSONDecodeError m) = JSONDecodeError []"
| "silenced (ValueError m) = ValueError []"
| "silenced e = e"

lemma redact_sel [simp]:
  "tag (redact x) = tag x" "ty (redact x) = ty x" "is_tuple (val (redact x)) = is_tuple (val x)"
  "is_str (val (redact x)) = is_str (val x)"
  "is_int (val (redact x)) = is_int (val x)"
  by (cases x; simp add: redact.simps split: ttlv_value.split)+

lemma redact_int: "tag x \<in> set (map tg NUMERIC_TAGS) \<Longrightarrow> int_of_value (val (redact x)) = int_of_value (val x)"
  by (cases x) (simp add: redact.simps split: ttlv_value.split)

lemma redact_prefix [simp]: "tuple_prefix n (redact x) = map redact (tuple_prefix n x)"
  by (cases x) (simp add: tuple_prefix_def redact.simps take_map split: ttlv_value.split)

lemma find_map: "find P (map f xs) = map_option f (find (\<lambda>x. P (f x)) xs)"
  by (induction xs) auto

lemma find_structure_redact [simp]: "find_structure t (map redact cs) = map_option redact (find_structure t cs)"
  by (simp add: find_structure_def find_map)

lemma field_shape_redact [simp]: "field_shape (map redact cs) = field_shape cs"
  by (simp add: field_shape_def comp_def)

lemma numeric_redact [simp]:
  "t \<in> set NUMERIC_TAGS \<Longrightarrow> numeric_child_value (redact x) (tg t) y = numeric_child_value x (tg t) y"
proof (cases "find (\<lambda>c. tag c = tg t \<and> ty c = y \<and> is_int (val c)) (tuple_prefix 16 x)")
  case None
  then show ?thesis by (simp add: numeric_child_value_def find_map)
next
  case (Some c)
  then have c: "tag c = tg t" by (auto simp: find_Some_iff)
  assume "t \<in> set NUMERIC_TAGS"
  then have "int_of_value (val (redact c)) = int_of_value (val c)" by (simp add: redact_int c)
  with Some show ?thesis by (simp add: numeric_child_value_def find_map)
qed

lemma attribute_label_redact [simp]: "attribute_label (map redact cs) = attribute_label cs"
proof -
  have e: "[] \<notin> set ATTRIBUTE_DIAGNOSTIC_NAMES"
    by (simp add: ATTRIBUTE_DIAGNOSTIC_NAMES_def ATTRIBUTE_DIAGNOSTIC_TYPES_def)
  define P where P: "P = (\<lambda>c. tag c = tg ATTRIBUTE_NAME \<and> ty c = TEXT_STRING \<and> is_str (val c))"
  show ?thesis
  proof (cases "find P cs")
    case None
    then show ?thesis by (simp add: attribute_label_def find_map P)
  next
    case (Some c)
    then have p: "P c" by (auto simp: find_Some_iff)
    from p obtain t s where c: "c = Ttlv t TEXT_STRING (VStr s)" "t = tg ATTRIBUTE_NAME"
      by (cases c; cases "val c") (auto simp: P)
    then show ?thesis using Some e by (simp add: attribute_label_def find_map P redact.simps)
  qed
qed

lemma attribute_shape_redact [simp]: "attribute_shape_of (redact a) = attribute_shape_of a"
  by (simp add: attribute_shape_of_def Let_def NUMERIC_TAGS_def split: option.split)

lemma template_redact [simp]: "template_attribute_shape (redact p) = template_attribute_shape p"
  by (simp add: template_attribute_shape_def filter_map comp_def split: option.split)

lemma payload_redact [simp]: "payload_of (redact item) = map_option redact (payload_of item)"
  by (simp add: payload_of_def)

lemma shape_redact: "dispatch_request_shape (redact r) = dispatch_request_shape r"
  by (simp add: dispatch_request_shape_def Let_def filter_map comp_def take_map List.map_filter_def NUMERIC_TAGS_def
      option.map_comp option.case_eq_if option.map_sel)

lemma failed_item_redact [simp]: "failed_item_of (redact item) = failed_item_of item"
  by (simp add: failed_item_of_def NUMERIC_TAGS_def split: option.split)

text \<open>
  C34: the log discloses nothing of a request or a response but its shape. The line written for a
  rejected request, for an unexpected failure and for failed items is the same when every text, byte
  string, boolean and number is erased, except the numbers of the protocol version, operation,
  attribute value, status and reason fields and the allow-listed attribute names, and when the message of the
  exception, whatever its class, is erased: only its class, or the code of a protocol failure, is written.
\<close>

theorem log_redacted:
  "log_dispatch_failure (redact request) (silenced error) = log_dispatch_failure request error
   \<and> log_response_failures (redact request) (redact response) = log_response_failures request response"
  by (cases error) (simp_all add: log_dispatch_failure_def log_response_failures_def shape_redact Let_def filter_map comp_def
      List.map_filter_def)

text \<open>
  The log of a request is bounded whatever its size: at most 16 items, 16 fields of the header, of
  each item and of each payload, and 16 attributes of 16 fields each.
\<close>

theorem log_bounded:
  "length (header_fields (dispatch_request_shape r)) \<le> 16 \<and> length (operations (dispatch_request_shape r)) \<le> 16
   \<and> length (batch_fields (dispatch_request_shape r)) \<le> 16
   \<and> list_all (\<lambda>fs. length fs \<le> 16) (batch_fields (dispatch_request_shape r) @ payload_fields (dispatch_request_shape r))
   \<and> list_all (\<lambda>as. length as \<le> 16 \<and> list_all (\<lambda>a. length (a_fields a) \<le> 16) as) (template_attributes (dispatch_request_shape r))"
proof -
  have p: "length (tuple_prefix n x) \<le> n" for n x
    by (simp add: tuple_prefix_def split: ttlv_value.split)
  have f: "length (field_shape (tuple_prefix n x)) \<le> n" for n x
    using p by (simp add: field_shape_def)
  have t: "length (template_attribute_shape x) \<le> 16 \<and> list_all (\<lambda>a. length (a_fields a) \<le> 16) (template_attribute_shape x)" for x
    using le_trans [OF length_filter_le p] f
    by (auto simp: template_attribute_shape_def attribute_shape_of_def Let_def list_all_iff split: option.split)
  show ?thesis
    using f t
    by (auto simp: dispatch_request_shape_def Let_def List.map_filter_def list_all_iff MAX_BATCH_ITEMS_def min_le_iff_disj
        intro!: le_trans [OF length_filter_le] split: option.split)
qed

end
