(* ===== verification/Trace.thy ===== *)
theory Trace
  imports PyText Store
begin

text \<open>
  The interoperability trace validator (\<open>atlaso/app/kmip/trace.py\<close>): a trace is a sequence of JSON lines,
  each of which must carry exactly the metadata fields of the contract, with values from the contract's
  lists and no field whose name suggests key material or a credential.
\<close>

definition TRACE_SCHEMA_VERSION :: int where "TRACE_SCHEMA_VERSION = 1"

definition REQUIRED_FIELDS :: "ustr list" where
  "REQUIRED_FIELDS = map lit [''schema_version'', ''timestamp'', ''connection_id'', ''client_cert_sha256'', ''provider_id'',
     ''protocol_version'', ''operation'', ''object_type'', ''algorithm'', ''key_length'', ''key_format_type'',
     ''attribute_names'', ''result_status'', ''result_reason'', ''request_digest'']"

definition FORBIDDEN_FIELD_FRAGMENTS :: "ustr list" where
  "FORBIDDEN_FIELD_FRAGMENTS = map lit [''credential'', ''keyblock'', ''keybytes'', ''keymaterial'', ''password'',
     ''privatekey'', ''rawpayload'', ''secret'']"

definition CONTRACT_FIELDS :: "ustr list" where
  "CONTRACT_FIELDS = map lit [''schema_version'', ''contract_id'', ''target'', ''status'', ''promotion_gate'', ''transport'',
     ''protocol_versions'', ''objects'', ''algorithms'', ''candidate_operations'', ''candidate_attributes'',
     ''result_statuses'', ''result_reasons'', ''explicitly_unsupported'', ''sources'']"

record trace_summary =
  t_contract_id :: ustr
  t_contract_sha256 :: ustr
  t_event_count :: nat
  t_operations :: "(ustr \<times> nat) list"
  t_protocol_versions :: "ustr list"
  t_providers :: "ustr list"
  t_result_statuses :: "(ustr \<times> nat) list"

subsection \<open>The contract\<close>

definition trace_error :: "string \<Rightarrow> exn" where
  "trace_error m = TraceValidationError (lit m)"

text \<open>\<open>contract.get(field)\<close>.\<close>

definition get_field :: "(ustr \<times> json) list \<Rightarrow> string \<Rightarrow> json" where
  "get_field d name = (case map_of d (lit name) of None \<Rightarrow> JNull | Some v \<Rightarrow> v)"

definition nonblank :: "json \<Rightarrow> bool" where
  "nonblank v \<longleftrightarrow> (case v of JStr s \<Rightarrow> strip s \<noteq> [] | _ \<Rightarrow> False)"

definition unique_names :: "json \<Rightarrow> bool" where
  "unique_names v \<longleftrightarrow> (case v of JArr xs \<Rightarrow> xs \<noteq> [] \<and> list_all nonblank xs \<and> distinct xs | _ \<Rightarrow> False)"

definition positive_lengths :: "json \<Rightarrow> bool" where
  "positive_lengths v \<longleftrightarrow>
     (case v of
        JArr xs \<Rightarrow> xs \<noteq> [] \<and> list_all (\<lambda>x. case x of JInt i \<Rightarrow> i > 0 | _ \<Rightarrow> False) xs \<and> distinct xs
      | _ \<Rightarrow> False)"

definition algorithm_ok :: "ustr \<Rightarrow> json \<Rightarrow> bool" where
  "algorithm_ok name algorithm \<longleftrightarrow> strip name \<noteq> [] \<and>
     (case algorithm of
        JObj d \<Rightarrow> set (map fst d) = {lit ''lengths'', lit ''key_format_types''}
                  \<and> positive_lengths (get_field d ''lengths'') \<and> unique_names (get_field d ''key_format_types'')
      | _ \<Rightarrow> False)"

definition transport_ok :: "py \<Rightarrow> json \<Rightarrow> bool" where
  "transport_ok py transport \<longleftrightarrow>
     (case transport of
        JObj d \<Rightarrow> get_field d ''encoding'' = JStr (lit ''TTLV'') \<and> get_field d ''mutual_tls_required'' = JBool True
                  \<and> equals_int py (get_field d ''port'') 5696
      | _ \<Rightarrow> False)"

text \<open>Membership of a value in a set of strings: a list or a dict cannot be hashed.\<close>

definition in_string_set :: "json \<Rightarrow> ustr list \<Rightarrow> bool res" where
  "in_string_set v names =
     (case v of JArr xs \<Rightarrow> Inl TypeError | JObj d \<Rightarrow> Inl TypeError | JStr s \<Rightarrow> Inr (s \<in> set names) | _ \<Rightarrow> Inr False)"

definition contract_detail :: "(ustr \<times> json) list \<Rightarrow> ustr" where
  "contract_detail contract =
     (let missing = sorted_diff CONTRACT_FIELDS (map fst contract); extra = sorted_diff (map fst contract) CONTRACT_FIELDS
      in join_with (lit ''; '')
           ((if missing \<noteq> [] then [lit ''missing '' @ join_with (lit '', '') missing] else [])
            @ (if extra \<noteq> [] then [lit ''unexpected '' @ join_with (lit '', '') extra] else [])))"

definition NAME_LISTS :: "string list" where
  "NAME_LISTS = [''protocol_versions'', ''objects'', ''candidate_operations'', ''candidate_attributes'', ''result_statuses'',
     ''result_reasons'']"

definition validate_contract :: "py \<Rightarrow> (ustr \<times> json) list \<Rightarrow> (ustr \<times> json) list res" where
  "validate_contract py contract =
     bindE (guardE (set (map fst contract) = set CONTRACT_FIELDS)
              (TraceValidationError (lit ''KMIP contract fields are invalid: '' @ contract_detail contract @ lit ''.''))) (\<lambda>_.
     bindE (guardE (equals_int py (get_field contract ''schema_version'') 1)
              (trace_error ''KMIP contract schema_version must be 1.'')) (\<lambda>_.
     bindE (in_string_set (get_field contract ''status'') (map lit [''candidate-unverified'', ''observed''])) (\<lambda>known.
     bindE (guardE known (trace_error ''KMIP contract status is invalid.'')) (\<lambda>_.
     bindE (mapE (\<lambda>field. guardE (unique_names (get_field contract field))
              (trace_error (''KMIP contract '' @ field @ '' must be a non-empty list of unique names.''))) NAME_LISTS) (\<lambda>_.
     bindE (case get_field contract ''algorithms'' of
              JObj d \<Rightarrow> if d = [] then Inl (trace_error ''KMIP contract algorithms must be a non-empty object.'') else Inr d
            | _ \<Rightarrow> Inl (trace_error ''KMIP contract algorithms must be a non-empty object.'')) (\<lambda>algorithms.
     bindE (mapE (\<lambda>(name, algorithm). guardE (algorithm_ok name algorithm)
              (TraceValidationError (lit ''KMIP contract algorithm '' @ py_repr py name @ lit '' is invalid.''))) algorithms) (\<lambda>_.
     bindE (guardE (transport_ok py (get_field contract ''transport''))
              (trace_error ''KMIP contract transport must require mutual TLS TTLV on TCP 5696.'')) (\<lambda>_.
       Inr contract))))))))"

text \<open>The contract file: its text as read, decoded and validated.\<close>

definition load_contract :: "py \<Rightarrow> ustr res \<Rightarrow> (ustr \<times> json) list res" where
  "load_contract py file =
     bindE (bindE file (\<lambda>text. or_raise (py_json_failure py text) (loads text))) (\<lambda>v.
     case v of
       JObj contract \<Rightarrow> validate_contract py contract
     | _ \<Rightarrow> Inl (trace_error ''KMIP contract must be a JSON object.''))"

text \<open>The checked-in contract, \<open>contracts/vcf_9_1.json\<close>.\<close>

definition vcf_9_1 :: "(ustr \<times> json) list" where
  "vcf_9_1 =
     [(lit ''schema_version'', JInt 1),
      (lit ''contract_id'', JText ''atlaso-vcf-9.1-kmip-candidate-v1''),
      (lit ''target'', JObj [(lit ''product'', JText ''VMware Cloud Foundation''), (lit ''version'', JText ''9.1'')]),
      (lit ''status'', JText ''candidate-unverified''),
      (lit ''promotion_gate'', JText ''A redacted VCF 9.1 acceptance trace must pass this contract and the recovery drill in issue #172.''),
      (lit ''transport'', JObj [(lit ''port'', JInt 5696), (lit ''encoding'', JText ''TTLV''), (lit ''tls_minimum'', JText ''TLSv1.2''), (lit ''mutual_tls_required'', JBool True)]),
      (lit ''protocol_versions'', JArr (map JText [''1.1'', ''1.4''])),
      (lit ''objects'', JArr (map JText [''Symmetric Key''])),
      (lit ''algorithms'', JObj [(lit ''AES'', JObj [(lit ''lengths'', JArr [JInt 256]), (lit ''key_format_types'', JArr [JText ''Raw''])])]),
      (lit ''candidate_operations'', JArr (map JText [''Discover Versions'', ''Query'', ''Create'',
         ''Activate'', ''Get'', ''Get Attribute List'', ''Get Attributes'', ''Locate''])),
      (lit ''candidate_attributes'', JArr (map JText [''Activation Date'', ''Cryptographic Algorithm'',
         ''Cryptographic Length'', ''Cryptographic Usage Mask'', ''Name'', ''Object Type'', ''State'',
         ''Unique Identifier'', ''x-Component'', ''x-Identifier'', ''x-Product'', ''x-Product_Version'',
         ''x-Vendor''])),
      (lit ''result_statuses'', JArr (map JText [''Success'', ''Operation Failed''])),
      (lit ''result_reasons'', JArr (map JText [''Item Not Found'', ''Invalid Message'',
         ''Operation Not Supported'', ''Missing Data'', ''Invalid Field'', ''Key Format Type Not Supported'',
         ''Cryptographic Failure'', ''Permission Denied'', ''General Failure''])),
      (lit ''explicitly_unsupported'', JObj [(lit ''operations'', JArr (map JText [''Archive'', ''Certify'',
         ''Create Key Pair'', ''Decrypt'', ''Derive Key'', ''Encrypt'', ''MAC'', ''MAC Verify'',
         ''Obtain Lease'', ''Poll'', ''Re-Key'', ''Re-Key Key Pair'', ''Recover'', ''Register'', ''Revoke'',
         ''Sign'', ''Signature Verify''])), (lit ''objects'', JArr (map JText [''Certificate'',
         ''Opaque Object'', ''Private Key'', ''Public Key'', ''Secret Data'', ''Split Key'', ''Template'']))]),
      (lit ''sources'', JArr [JObj [(lit ''title'', JText ''OASIS KMIP Specification Version 1.1''), (lit ''url'', JText ''https://docs.oasis-open.org/kmip/spec/v1.1/os/kmip-spec-v1.1-os.html'')],
        JObj [(lit ''title'', JText ''OASIS KMIP Specification Version 1.4''), (lit ''url'', JText ''https://docs.oasis-open.org/kmip/spec/v1.4/kmip-spec-v1.4.html'')],
        JObj [(lit ''title'', JText ''OASIS KMIP Profiles Version 1.4''), (lit ''url'', JText ''https://docs.oasis-open.org/kmip/profiles/v1.4/kmip-profiles-v1.4.html'')],
        JObj [(lit ''title'', JText ''Broadcom vSphere Web Services API CryptoManagerKmip''), (lit ''url'', JText ''https://developer.broadcom.com/xapis/vsphere-web-services-api/latest/vim.encryption.CryptoManagerKmip.html'')]])]"

subsection \<open>Events\<close>

definition normalized_field :: "py \<Rightarrow> ustr \<Rightarrow> ustr" where
  "normalized_field py v = filter (is_alnum py) (casefold py v)"

definition secret_field :: "py \<Rightarrow> ustr \<Rightarrow> bool" where
  "secret_field py key \<longleftrightarrow> list_ex (\<lambda>fragment. contains_text fragment (normalized_field py key)) FORBIDDEN_FIELD_FRAGMENTS"

function reject_secret_fields :: "py \<Rightarrow> ustr \<Rightarrow> json \<Rightarrow> unit res" where
  "reject_secret_fields py location v =
     (case v of
        JObj d \<Rightarrow>
          bindE (mapE (\<lambda>(key, child).
            bindE (guardE (\<not> secret_field py key)
                     (TraceValidationError (location @ lit '' contains forbidden secret-bearing field '' @ py_repr py key @ lit ''.''))) (\<lambda>_.
              reject_secret_fields py (location @ lit ''.'' @ key) child)) d) (\<lambda>_. Inr ())
      | JArr xs \<Rightarrow>
          bindE (mapE (\<lambda>(index, child).
              reject_secret_fields py (location @ lit ''['' @ int_text (int index) @ lit '']'') child)
            (zip [0..<length xs] xs)) (\<lambda>_. Inr ())
      | _ \<Rightarrow> Inr ())"
  by pat_completeness auto
termination
proof (relation "measure (\<lambda>(py, location, v). size v)", goal_cases)
  case 1
  then show ?case by simp
next
  case (2 py location v xs z index child)
  then have "child \<in> set xs" by (metis set_zip_rightD)
  then have "size child < Suc (size_list size xs)" by (simp add: less_Suc_eq_le size_list_estimation')
  with 2 show ?case by simp
next
  case (3 py location v d z key child)
  then have "(key, child) \<in> set d" by simp
  then have "size child < Suc (size_list (size_prod (\<lambda>_. 0) size) d)" by (induction d) auto
  with 3 show ?case by simp
qed

declare reject_secret_fields.simps [simp del]

definition line_error :: "nat \<Rightarrow> string \<Rightarrow> exn" where
  "line_error line m = TraceValidationError (lit ''line '' @ int_text (int line) @ lit '': '' @ lit m)"

definition require_sha256 :: "py \<Rightarrow> json \<Rightarrow> string \<Rightarrow> nat \<Rightarrow> ustr res" where
  "require_sha256 py v field line =
     (let text = py_str py v in
      if length text \<noteq> 64 \<or> list_ex (\<lambda>c. c \<notin> set HEX_DIGITS) text
      then Inl (line_error line (field @ '' must be a lowercase SHA-256 digest.''))
      else Inr text)"

text \<open>A list of the contract; the validator has checked that it is one.\<close>

definition contract_names :: "(ustr \<times> json) list \<Rightarrow> string \<Rightarrow> json list res" where
  "contract_names contract field =
     bindE (lookup_field contract field) (\<lambda>v. case v of JArr xs \<Rightarrow> Inr xs | _ \<Rightarrow> Inl TypeError)"

text \<open>The part of \<open>_validate_event\<close> on the cryptographic parameters.\<close>

definition validate_algorithm :: "(ustr \<times> json) list \<Rightarrow> nat \<Rightarrow> json \<Rightarrow> json \<Rightarrow> json \<Rightarrow> json \<Rightarrow> unit res" where
  "validate_algorithm contract line operation algorithm key_length key_format_type =
     bindE (guardE (\<not> (operation = JStr (lit ''Create'')
                 \<and> (algorithm = JNull \<or> key_length = JNull \<or> key_format_type = JNull)))
              (line_error line ''Create must record algorithm, key_length, and key_format_type.'')) (\<lambda>_.
     if algorithm = JNull
     then guardE (key_length = JNull \<and> key_format_type = JNull)
            (line_error line ''key_length and key_format_type require an algorithm.'')
     else
       bindE (bindE (lookup_field contract ''algorithms'') (\<lambda>v. case v of JObj d \<Rightarrow> Inr d | _ \<Rightarrow> Inl TypeError)) (\<lambda>algorithms.
       bindE (case algorithm of
                JArr xs \<Rightarrow> Inl TypeError | JObj d \<Rightarrow> Inl TypeError
              | JStr s \<Rightarrow> Inr (case map_of algorithms s of Some v \<Rightarrow> v | None \<Rightarrow> JNull)
              | _ \<Rightarrow> Inr JNull) (\<lambda>found.
       bindE (case found of JObj d \<Rightarrow> Inr d | _ \<Rightarrow> Inl (line_error line ''algorithm is outside the contract.'')) (\<lambda>algorithm_contract.
       bindE (contract_names algorithm_contract ''lengths'') (\<lambda>lengths.
       bindE (guardE ((case key_length of JInt i \<Rightarrow> True | _ \<Rightarrow> False) \<and> key_length \<in> set lengths)
                (line_error line ''key_length is outside the contract.'')) (\<lambda>_.
       bindE (contract_names algorithm_contract ''key_format_types'') (\<lambda>key_format_types.
         guardE (key_format_type \<in> set key_format_types)
           (line_error line ''key_format_type is outside the contract.''))))))))"

text \<open>The attribute names of an event, each of them allow-listed.\<close>

definition validate_attributes :: "(ustr \<times> json) list \<Rightarrow> nat \<Rightarrow> json \<Rightarrow> unit res" where
  "validate_attributes contract line attributes =
     (case attributes of
        JArr xs \<Rightarrow>
          bindE (guardE (list_all (\<lambda>x. case x of JStr s \<Rightarrow> True | _ \<Rightarrow> False) xs)
                   (line_error line ''attribute_names must be a list of names.'')) (\<lambda>_.
          bindE (contract_names contract ''candidate_attributes'') (\<lambda>candidates.
          let names = concat (map (\<lambda>x. case x of JStr s \<Rightarrow> [s] | _ \<Rightarrow> []) xs);
              unsupported = sorted_diff names (concat (map (\<lambda>x. case x of JStr s \<Rightarrow> [s] | _ \<Rightarrow> []) candidates))
          in guardE (unsupported = [])
               (TraceValidationError (lit ''line '' @ int_text (int line) @ lit '': attributes are outside the candidate allowlist: ''
                  @ join_with (lit '', '') unsupported @ lit ''.''))))
      | _ \<Rightarrow> Inl (line_error line ''attribute_names must be a list of names.''))"

definition validate_fields :: "nat \<Rightarrow> (ustr \<times> json) list \<Rightarrow> unit res" where
  "validate_fields line event =
     (let missing = sorted_diff REQUIRED_FIELDS (map fst event); extra = sorted_diff (map fst event) REQUIRED_FIELDS in
      bindE (guardE (missing = []) (TraceValidationError (lit ''line '' @ int_text (int line) @ lit '': missing fields: ''
               @ join_with (lit '', '') missing @ lit ''.''))) (\<lambda>_.
        guardE (extra = []) (TraceValidationError (lit ''line '' @ int_text (int line) @ lit '': unexpected fields: ''
               @ join_with (lit '', '') extra @ lit ''.''))))"

definition allowed :: "(ustr \<times> json) list \<Rightarrow> (ustr \<times> json) list \<Rightarrow> nat \<Rightarrow> string \<Rightarrow> string \<Rightarrow> string \<Rightarrow> unit res" where
  "allowed contract event line field names message =
     bindE (lookup_field event field) (\<lambda>v. bindE (contract_names contract names) (\<lambda>xs.
       guardE (v \<in> set xs) (line_error line message)))"

definition allowed_or_null :: "(ustr \<times> json) list \<Rightarrow> (ustr \<times> json) list \<Rightarrow> nat \<Rightarrow> string \<Rightarrow> string \<Rightarrow> string \<Rightarrow> unit res" where
  "allowed_or_null contract event line field names message =
     bindE (lookup_field event field) (\<lambda>v.
       if v = JNull then Inr () else bindE (contract_names contract names) (\<lambda>xs. guardE (v \<in> set xs) (line_error line message)))"

definition TEXT_FIELDS :: "string list" where
  "TEXT_FIELDS = [''timestamp'', ''connection_id'', ''provider_id'', ''operation'']"

definition validate_event :: "py \<Rightarrow> (ustr \<times> json) list \<Rightarrow> nat \<Rightarrow> (ustr \<times> json) list \<Rightarrow> unit res" where
  "validate_event py contract line event =
     bindE (reject_secret_fields py (lit ''line '' @ int_text (int line)) (JObj event)) (\<lambda>_.
     bindE (validate_fields line event) (\<lambda>_.
     bindE (bindE (lookup_field event ''schema_version'') (\<lambda>v. guardE (equals_int py v TRACE_SCHEMA_VERSION)
              (line_error line ''schema_version must be 1.''))) (\<lambda>_.
     bindE (bindE (lookup_field event ''client_cert_sha256'') (\<lambda>v. require_sha256 py v ''client_cert_sha256'' line)) (\<lambda>_.
     bindE (bindE (lookup_field event ''request_digest'') (\<lambda>v. require_sha256 py v ''request_digest'' line)) (\<lambda>_.
     bindE (allowed contract event line ''protocol_version'' ''protocol_versions'' ''protocol_version is outside the contract.'') (\<lambda>_.
     bindE (allowed contract event line ''operation'' ''candidate_operations'' ''operation is outside the candidate allowlist.'') (\<lambda>_.
     bindE (allowed_or_null contract event line ''object_type'' ''objects'' ''object_type is outside the contract.'') (\<lambda>_.
     bindE (lookup_field event ''operation'') (\<lambda>operation. bindE (lookup_field event ''algorithm'') (\<lambda>algorithm.
     bindE (lookup_field event ''key_length'') (\<lambda>key_length. bindE (lookup_field event ''key_format_type'') (\<lambda>key_format_type.
     bindE (validate_algorithm contract line operation algorithm key_length key_format_type) (\<lambda>_.
     bindE (bindE (lookup_field event ''attribute_names'') (validate_attributes contract line)) (\<lambda>_.
     bindE (allowed contract event line ''result_status'' ''result_statuses'' ''result_status is outside the contract.'') (\<lambda>_.
     bindE (mapE (\<lambda>field. bindE (lookup_field event field) (\<lambda>v. guardE (nonblank v)
              (line_error line (field @ '' must be a non-empty string.'')))) TEXT_FIELDS) (\<lambda>_.
       allowed_or_null contract event line ''result_reason'' ''result_reasons''
         ''result_reason must be null or an allowlisted KMIP reason.''))))))))))))))))"

subsection \<open>The trace\<close>

text \<open>The loop over the lines; \<open>enumerate(lines, start=1)\<close>.\<close>

fun trace_events :: "py \<Rightarrow> (ustr \<times> json) list \<Rightarrow> nat \<Rightarrow> ustr list \<Rightarrow> (ustr \<times> json) list list res" where
  "trace_events py contract line_number [] = Inr []"
| "trace_events py contract line_number (raw_line # lines) =
     (if strip raw_line = [] then trace_events py contract (Suc line_number) lines
      else
        bindE (case loads raw_line of
                 Some v \<Rightarrow> Inr v
               | None \<Rightarrow> (case py_json_failure py raw_line of
                   JSONDecodeError m \<Rightarrow> Inl (TraceValidationError (lit ''line '' @ int_text (int line_number)
                     @ lit '': invalid JSON: '' @ m @ lit ''.''))
                 | e \<Rightarrow> Inl e)) (\<lambda>v.
        bindE (case v of JObj event \<Rightarrow> Inr event
               | _ \<Rightarrow> Inl (line_error line_number ''each event must be a JSON object.'')) (\<lambda>event.
        bindE (validate_event py contract line_number event) (\<lambda>_.
        bindE (trace_events py contract (Suc line_number) lines) (\<lambda>events.
          Inr (event # events))))))"

text \<open>\<open>dict(sorted(Counter(xs).items()))\<close> and \<open>sorted({...})\<close>.\<close>

definition sorted_counts :: "ustr list \<Rightarrow> (ustr \<times> nat) list" where
  "sorted_counts xs = map (\<lambda>x. (x, count_list xs x)) (sort (remdups xs))"

fun float_texts :: "py \<Rightarrow> json \<Rightarrow> json" where
  "float_texts py (JFloat t) = JFloat (py_float_json py t)"
| "float_texts py (JArr xs) = JArr (map (float_texts py) xs)"
| "float_texts py (JObj d) = JObj (map (\<lambda>(k, v). (k, float_texts py v)) d)"
| "float_texts py v = v"

definition field_texts :: "py \<Rightarrow> string \<Rightarrow> (ustr \<times> json) list list \<Rightarrow> ustr list" where
  "field_texts py field events = map (\<lambda>event. py_str py (get_field event field)) events"

definition validate_trace ::
  "py \<Rightarrow> env \<Rightarrow> (ustr \<times> json) list res \<Rightarrow> bytes option \<Rightarrow> ustr list \<Rightarrow> trace_summary res" where
  "validate_trace py env selected contract_bytes lines =
     bindE selected (\<lambda>contract.
     bindE (trace_events py contract 1 lines) (\<lambda>events.
     bindE (guardE (events \<noteq> []) (trace_error ''trace must contain at least one event.'')) (\<lambda>_.
     bindE (case contract_bytes of
              Some (b # bs) \<Rightarrow> Inr (b # bs)
            | _ \<Rightarrow> utf8 (dumps (float_texts py (JObj contract)))) (\<lambda>serialized_contract.
       Inr \<lparr>t_contract_id = py_str py (get_field contract ''contract_id''),
            t_contract_sha256 = hex_of_bytes (sha256 env serialized_contract),
            t_event_count = length events,
            t_operations = sorted_counts (field_texts py ''operation'' events),
            t_protocol_versions = sort (remdups (field_texts py ''protocol_version'' events)),
            t_providers = sort (remdups (field_texts py ''provider_id'' events)),
            t_result_statuses = sorted_counts (field_texts py ''result_status'' events)\<rparr>))))"

text \<open>\<open>selected_contract\<close>: a contract passed by the caller is validated, else the checked-in file is loaded.\<close>

definition selected_contract :: "py \<Rightarrow> ustr res \<Rightarrow> (ustr \<times> json) list option \<Rightarrow> (ustr \<times> json) list res" where
  "selected_contract py file contract =
     (case contract of Some c \<Rightarrow> validate_contract py c | None \<Rightarrow> load_contract py file)"

end
