(* ===== verification/TraceWriter.thy ===== *)
theory TraceWriter
  imports Trace Protocol
begin

text \<open>
  The acceptance trace the server appends to when it is enabled (\<open>InteropTraceWriter\<close> of
  \<open>atlaso/app/kmip/server.py\<close>): one line of metadata per batch item, written only if the validator
  of \<open>Trace\<close> accepts it.
\<close>

fun OPERATION_NAMES :: "operation \<Rightarrow> ustr" where
  "OPERATION_NAMES CREATE = lit ''Create''"
| "OPERATION_NAMES LOCATE = lit ''Locate''"
| "OPERATION_NAMES GET = lit ''Get''"
| "OPERATION_NAMES GET_ATTRIBUTES = lit ''Get Attributes''"
| "OPERATION_NAMES GET_ATTRIBUTE_LIST = lit ''Get Attribute List''"
| "OPERATION_NAMES ACTIVATE = lit ''Activate''"
| "OPERATION_NAMES QUERY = lit ''Query''"
| "OPERATION_NAMES DISCOVER_VERSIONS = lit ''Discover Versions''"

fun RESULT_REASON_NAMES :: "result_reason \<Rightarrow> ustr" where
  "RESULT_REASON_NAMES ITEM_NOT_FOUND = lit ''Item Not Found''"
| "RESULT_REASON_NAMES INVALID_MESSAGE = lit ''Invalid Message''"
| "RESULT_REASON_NAMES OPERATION_NOT_SUPPORTED = lit ''Operation Not Supported''"
| "RESULT_REASON_NAMES MISSING_DATA = lit ''Missing Data''"
| "RESULT_REASON_NAMES INVALID_FIELD = lit ''Invalid Field''"
| "RESULT_REASON_NAMES KEY_FORMAT_TYPE_NOT_SUPPORTED = lit ''Key Format Type Not Supported''"
| "RESULT_REASON_NAMES GENERAL_FAILURE = lit ''General Failure''"

text \<open>\<open>ResultReason(value)\<close>.\<close>

definition reason_of :: "int \<Rightarrow> result_reason option" where
  "reason_of v = find (\<lambda>r. reason_code r = v)
     [ITEM_NOT_FOUND, INVALID_MESSAGE, OPERATION_NOT_SUPPORTED, MISSING_DATA, INVALID_FIELD, KEY_FORMAT_TYPE_NOT_SUPPORTED,
      GENERAL_FAILURE]"

subsection \<open>What is recorded of an item\<close>

definition trace_operation :: "ttlv \<Rightarrow> (ustr \<times> int) res" where
  "trace_operation item =
     bindE (child item (tg OPERATION) False) (\<lambda>node.
       Inr (case (case node of Some n \<Rightarrow> val n | None \<Rightarrow> VInt 0) of
              VInt v \<Rightarrow> (case operation_of v of None \<Rightarrow> (lit ''Unknown'', v) | Some op \<Rightarrow> (OPERATION_NAMES op, v))
            | _ \<Rightarrow> (lit ''Unknown'', 0)))"

text \<open>
  The walks over an item keep a stack whose top is the head of the list here, the end of the list in
  the source: \<open>stack.extend(node.children())\<close> pushes the children in order.
\<close>

fun node_weight :: "ttlv \<Rightarrow> nat" where
  "node_weight (Ttlv t y v) = Suc (case v of VTuple cs \<Rightarrow> sum_list (map node_weight cs) | _ \<Rightarrow> 0)"

definition stack_weight :: "ttlv list \<Rightarrow> nat" where
  "stack_weight stack = sum_list (map node_weight stack)"

lemma stack_weight_step:
  "stack_weight stack < stack_weight (node # stack)"
  "children node = Inr cs \<Longrightarrow> stack_weight (rev cs @ stack) < stack_weight (node # stack)"
proof -
  show "stack_weight stack < stack_weight (node # stack)" by (cases node) (simp add: stack_weight_def)
  have "sum_list (map node_weight (rev cs)) = sum_list (map node_weight cs)" by (induction cs) auto
  then show "children node = Inr cs \<Longrightarrow> stack_weight (rev cs @ stack) < stack_weight (node # stack)"
    by (cases node) (auto simp: stack_weight_def children_def split: if_splits ttlv_value.splits)
qed

function object_type_walk :: "ttlv list \<Rightarrow> ustr option res" where
  "object_type_walk [] = Inr None"
| "object_type_walk (node # stack) =
     (if tag node = tg OBJECT_TYPE \<and> val node = VInt 2 then Inr (Some (lit ''Symmetric Key''))
      else if ty node = STRUCTURE then bindE (children node) (\<lambda>cs. object_type_walk (rev cs @ stack))
      else object_type_walk stack)"
  by pat_completeness auto
termination by (relation "measure stack_weight") (auto simp: stack_weight_step)

definition trace_object_type :: "ttlv \<Rightarrow> ustr option res" where
  "trace_object_type item = object_type_walk [item]"

function attribute_names_walk :: "ttlv list \<Rightarrow> ustr list \<Rightarrow> ustr list res" where
  "attribute_names_walk [] names = Inr names"
| "attribute_names_walk (node # stack) names =
     (let names' = (case val node of VStr s \<Rightarrow> if tag node = tg ATTRIBUTE_NAME then List.insert s names else names | _ \<Rightarrow> names)
      in if ty node = STRUCTURE then bindE (children node) (\<lambda>cs. attribute_names_walk (rev cs @ stack) names')
         else attribute_names_walk stack names')"
  by pat_completeness auto
termination by (relation "measure (stack_weight \<circ> fst)") (auto simp: stack_weight_step)

definition trace_attribute_names :: "ttlv \<Rightarrow> ustr list res" where
  "trace_attribute_names item = bindE (attribute_names_walk [item] []) (\<lambda>names. Inr (sort names))"

text \<open>A missing or repeated Attribute Name or Attribute Value skips the attribute with everything below it.\<close>

function parameters_walk :: "ttlv list \<Rightarrow> (ustr \<times> ttlv_value) list \<Rightarrow> (ustr \<times> ttlv_value) list res" where
  "parameters_walk [] values = Inr values"
| "parameters_walk (node # stack) values =
     (if tag node = tg ATTRIBUTE \<and> ty node = STRUCTURE
      then case bindE (child node (tg ATTRIBUTE_NAME) True) (\<lambda>name. bindE (child node (tg ATTRIBUTE_VALUE) True) (\<lambda>v.
                  Inr (name, v))) of
             Inl e \<Rightarrow> if is_ttlv_error e then parameters_walk stack values else Inl e
           | Inr (name, v) \<Rightarrow>
               bindE (children node) (\<lambda>cs. parameters_walk (rev cs @ stack)
                 (case (name, v) of
                    (Some (Ttlv t y (VStr s)), Some a) \<Rightarrow> dict_put s (val a) values
                  | _ \<Rightarrow> values))
      else if ty node = STRUCTURE then bindE (children node) (\<lambda>cs. parameters_walk (rev cs @ stack) values)
      else parameters_walk stack values)"
  by pat_completeness auto
termination by (relation "measure (stack_weight \<circ> fst)") (auto simp: stack_weight_step)

definition cryptographic_parameters :: "ttlv \<Rightarrow> ustr \<Rightarrow> (ustr option \<times> int option \<times> ustr option) res" where
  "cryptographic_parameters item operation =
     (if operation \<noteq> lit ''Create'' then Inr (None, None, None)
      else bindE (parameters_walk [item] []) (\<lambda>values.
        let aes = (map_of values (lit ''Cryptographic Algorithm'') = Some (VInt CRYPTOGRAPHIC_ALGORITHM_AES)) in
        Inr (if aes then Some (lit ''AES'') else None,
             case map_of values (lit ''Cryptographic Length'') of Some (VInt n) \<Rightarrow> Some n | _ \<Rightarrow> None,
             if aes then Some (lit ''Raw'') else None)))"

subsection \<open>The line of an item\<close>

text \<open>An assertion that a required child is an integer: \<open>isinstance(True, int)\<close> holds.\<close>

definition is_number :: "ttlv_value \<Rightarrow> bool" where
  "is_number v \<longleftrightarrow> (case v of VInt i \<Rightarrow> True | VBool b \<Rightarrow> True | _ \<Rightarrow> False)"

definition number_ok :: "ttlv_value \<Rightarrow> bool" where
  "number_ok v \<longleftrightarrow> (case v of VInt i \<Rightarrow> int_ok i | _ \<Rightarrow> True)"

fun number_text :: "ttlv_value \<Rightarrow> ustr" where
  "number_text (VInt i) = int_text i"
| "number_text (VBool b) = lit (if b then ''True'' else ''False'')"
| "number_text _ = []"

definition number_child :: "ttlv \<Rightarrow> kmip_tag \<Rightarrow> ttlv_value res" where
  "number_child node t =
     bindE (child node (tg t) True) (\<lambda>c. case c of
        None \<Rightarrow> Inl AssertionError
      | Some n \<Rightarrow> if is_number (val n) then Inr (val n) else Inl AssertionError)"

definition required_node :: "ttlv \<Rightarrow> kmip_tag \<Rightarrow> ttlv res" where
  "required_node node t =
     bindE (child node (tg t) True) (\<lambda>c. case c of None \<Rightarrow> Inl AssertionError | Some n \<Rightarrow> Inr n)"

text \<open>\<open>f"{major.value}.{minor.value}"\<close>: both children are looked up before either is checked to be an integer;
  an integer of more than 4300 digits cannot be rendered.\<close>

definition trace_version :: "ttlv \<Rightarrow> ustr res" where
  "trace_version request =
     bindE (required_node request REQUEST_HEADER) (\<lambda>header.
     bindE (required_node header PROTOCOL_VERSION) (\<lambda>version.
     bindE (required_node version PROTOCOL_VERSION_MAJOR) (\<lambda>major.
     bindE (required_node version PROTOCOL_VERSION_MINOR) (\<lambda>minor.
     bindE (guardE (is_number (val major) \<and> is_number (val minor)) AssertionError) (\<lambda>_.
     bindE (guardE (number_ok (val major) \<and> number_ok (val minor)) (ValueError ''Exceeds the limit for integer string conversion'')) (\<lambda>_.
       Inr (number_text (val major) @ lit ''.'' @ number_text (val minor))))))))"

text \<open>The reason of a failed item; \<open>True\<close> equals 1 there too.\<close>

definition reason_text :: "ttlv \<Rightarrow> ustr option res" where
  "reason_text response_item =
     bindE (child response_item (tg RESULT_REASON) False) (\<lambda>node.
       Inr (case node of
              None \<Rightarrow> None
            | Some n \<Rightarrow> (case val n of
                VInt v \<Rightarrow> map_option RESULT_REASON_NAMES (reason_of v)
              | VBool b \<Rightarrow> map_option RESULT_REASON_NAMES (reason_of (if b then 1 else 0))
              | _ \<Rightarrow> None)))"

text \<open>What identifies a connection and a request in the trace.\<close>

record trace_id =
  connection_id :: ustr
  client_cert_sha256 :: ustr
  trace_provider_id :: ustr

text \<open>The event of an item, in the order of the dict; \<open>digest\<close> is the SHA-256 of the request.\<close>

definition trace_event ::
  "trace_id \<Rightarrow> ustr \<Rightarrow> ustr \<Rightarrow> ustr \<Rightarrow> ttlv \<Rightarrow> ttlv \<Rightarrow> (ustr \<times> json) list res" where
  "trace_event ident timestamp version digest request_item response_item =
     bindE (trace_operation request_item) (\<lambda>(operation_name, operation_value).
     bindE (cryptographic_parameters request_item operation_name) (\<lambda>(algorithm, key_length, key_format_type).
     bindE (number_child response_item RESULT_STATUS) (\<lambda>status.
     bindE (reason_text response_item) (\<lambda>reason.
     bindE (trace_object_type request_item) (\<lambda>object_type.
     bindE (trace_attribute_names request_item) (\<lambda>names.
       Inr [(lit ''schema_version'', JInt 1), (lit ''timestamp'', JStr timestamp),
            (lit ''connection_id'', JStr (connection_id ident)),
            (lit ''client_cert_sha256'', JStr (client_cert_sha256 ident)),
            (lit ''provider_id'', JStr (trace_provider_id ident)), (lit ''protocol_version'', JStr version),
            (lit ''operation'', JStr operation_name), (lit ''object_type'', opt_str object_type),
            (lit ''algorithm'', opt_str algorithm), (lit ''key_length'', opt_int key_length),
            (lit ''key_format_type'', opt_str key_format_type), (lit ''attribute_names'', JArr (map JStr names)),
            (lit ''result_status'', JStr (lit (if status = VInt SUCCESS \<or> status = VBool False then ''Success'' else ''Operation Failed''))),
            (lit ''result_reason'', opt_str reason), (lit ''request_digest'', JStr digest)]))))))"

text \<open>The loop over the items; a line the validator refuses is left out.\<close>

definition trace_line ::
  "py \<Rightarrow> env \<Rightarrow> ustr res \<Rightarrow> (ustr \<times> json) list \<Rightarrow> ustr list res" where
  "trace_line py env contract_file event =
     bindE (json_dumps (JObj event)) (\<lambda>rendered.
       case validate_trace py env (selected_contract py contract_file None) None [rendered] of
         Inr s \<Rightarrow> Inr [rendered]
       | Inl (TraceValidationError m) \<Rightarrow> Inr []
       | Inl e \<Rightarrow> Inl e)"

fun trace_lines ::
  "py \<Rightarrow> env \<Rightarrow> ustr res \<Rightarrow> trace_id \<Rightarrow> ustr \<Rightarrow> ustr \<Rightarrow> ustr \<Rightarrow> ttlv list \<Rightarrow> ttlv list \<Rightarrow> ustr list res" where
  "trace_lines py env contract_file ident timestamp version digest [] [] = Inr []"
| "trace_lines py env contract_file ident timestamp version digest (q # qs) (r # rs) =
     bindE (trace_event ident timestamp version digest q r) (\<lambda>event.
     bindE (trace_line py env contract_file event) (\<lambda>line.
     bindE (trace_lines py env contract_file ident timestamp version digest qs rs) (\<lambda>lines.
       Inr (line @ lines))))"
| "trace_lines py env contract_file ident timestamp version digest _ _ =
     Inl (ValueError ''zip() arguments have different lengths'')"

text \<open>\<open>record\<close>, up to the append: the clock is read once, after the header has been taken apart.\<close>

definition trace_record ::
  "py \<Rightarrow> env \<Rightarrow> ustr res \<Rightarrow> trace_id \<Rightarrow> ttlv \<Rightarrow> ttlv \<Rightarrow> bytes \<Rightarrow> ustr list m" where
  "trace_record py env contract_file ident request response request_bytes =
     bindM (liftM (children_tag request (tg BATCH_ITEM))) (\<lambda>request_items.
     bindM (liftM (children_tag response (tg BATCH_ITEM))) (\<lambda>response_items.
     bindM (liftM (trace_version request)) (\<lambda>version.
     bindM (drawM (now_iso env)) (\<lambda>now.
       liftM (trace_lines py env contract_file ident (replace_all (lit ''+00:00'') (lit ''Z'') now) version
         (hex_of_bytes (sha256 env request_bytes)) request_items response_items)))))"

end
