(* ===== verification/Server.thy ===== *)
theory Server
  imports Config Diagnostics TraceWriter
begin

text \<open>
  One connection of the KMIP server (\<open>KmipRequestHandler\<close> of \<open>atlaso/app/kmip/server.py\<close>): the
  authenticated certificate selects the provider, requests are framed from the byte stream,
  dispatched, traced and answered until the peer stops, an error occurs or the limit is reached.

  The socket is a list of what the peer's side will deliver; the faults of sending and of appending to
  the trace file are functions of the number of draws made so far.
\<close>

subsection \<open>The socket\<close>

text \<open>What \<open>recv\<close> meets next: bytes (no bytes: the peer closed) or an \<open>OSError\<close>, of which \<open>TimeoutError\<close> is one.\<close>

datatype packet = Chunk bytes | Fails

fun recv :: "nat \<Rightarrow> packet list \<Rightarrow> bytes res \<times> packet list" where
  "recv n [] = (Inr [], [])"
| "recv n (Fails # ps) = (Inl OSError, ps)"
| "recv n (Chunk b # ps) = (Inr (take n b), if length b \<le> n then ps else Chunk (drop n b) # ps)"

function receive_loop :: "packet list \<Rightarrow> nat \<Rightarrow> bytes \<Rightarrow> bytes res \<times> packet list" where
  "receive_loop ps wanted result =
     (if length result < wanted
      then (case recv (wanted - length result) ps of
              (Inl e, ps') \<Rightarrow> (Inl e, ps')
            | (Inr chunk, ps') \<Rightarrow>
                if chunk = []
                then (if result = [] then Inr [] else Inl (TtlvError ''KMIP connection closed during a message.''), ps')
                else receive_loop ps' wanted (result @ chunk))
      else (Inr result, ps))"
  by pat_completeness auto
termination
  by (relation "measure (\<lambda>(ps, wanted, result). wanted - length result)") (auto simp: neq_Nil_conv)

declare receive_loop.simps [simp del]

definition receive_exact :: "packet list \<Rightarrow> nat \<Rightarrow> bytes res \<times> packet list" where
  "receive_exact ps wanted = receive_loop ps wanted []"

subsection \<open>A connection\<close>

record session =
  n_world :: world
  n_incoming :: "packet list"
  n_sent :: "bytes list"
  n_trace :: "ustr list"
  n_log :: "log list"

text \<open>
  The outcome of appending lines to the trace file: written, failed before anything was written, or
  written and then failed to be made durable. The outcome of \<open>sendall\<close>: all bytes, or an \<open>OSError\<close>
  after some of them.
\<close>

datatype append_outcome = Appended | Append_failed | Append_failed_late
datatype send_outcome = Sent | Cut nat

record host =
  append_at :: "nat \<Rightarrow> append_outcome"
  send_at :: "nat \<Rightarrow> send_outcome"
  contract_file :: "ustr res"

text \<open>What the TLS layer reports of the peer: whether the handshake ended, and its certificate.\<close>

record peer =
  handshake_ok :: bool
  peer_der :: "bytes option"

definition padded :: "nat \<Rightarrow> nat" where
  "padded n = n + (8 - n mod 8) mod 8"

text \<open>The framing of one request: \<open>None\<close> when the peer closed between two requests.\<close>

definition read_request :: "nat \<Rightarrow> packet list \<Rightarrow> (bytes \<times> ttlv) option res \<times> packet list" where
  "read_request max_bytes ps =
     (case receive_exact ps 8 of
        (Inl e, ps') \<Rightarrow> (Inl e, ps')
      | (Inr header, ps') \<Rightarrow>
          if header = [] then (Inr None, ps')
          else if take 3 header \<noteq> to_be 3 (nat (tg REQUEST_MESSAGE))
          then (Inl (TtlvError ''KMIP root tag must be Request Message.''), ps')
          else if unat (header ! 3) \<noteq> type_code STRUCTURE
          then (Inl (TtlvError ''KMIP Request Message must be a structure.''), ps')
          else let padded_length = padded (from_be (take 4 (drop 4 header))) in
            if max_bytes < 8 + padded_length
            then (Inl (TtlvError ''KMIP request exceeds the configured maximum size.''), ps')
            else case receive_exact ps' padded_length of
                (Inl e, ps'') \<Rightarrow> (Inl e, ps'')
              | (Inr body, ps'') \<Rightarrow>
                  if length body \<noteq> padded_length then (Inl (TtlvError ''KMIP request is truncated.''), ps'')
                  else (bindE (decode (header @ body)) (\<lambda>request. Inr (Some (header @ body, request))), ps''))"

text \<open>\<open>trace_writer.record\<close>, with its effect on the file.\<close>

definition record_trace :: "py \<Rightarrow> env \<Rightarrow> host \<Rightarrow> trace_id \<Rightarrow> ttlv \<Rightarrow> ttlv \<Rightarrow> bytes \<Rightarrow> session \<Rightarrow> unit res \<times> session" where
  "record_trace py env host ident request response request_bytes s =
     (case trace_record py env (contract_file host) ident request response request_bytes (n_world s) of
        (Inl e, w) \<Rightarrow> (Inl e, s\<lparr>n_world := w\<rparr>)
      | (Inr lines, w) \<Rightarrow>
          if lines = [] then (Inr (), s\<lparr>n_world := w\<rparr>)
          else case append_at host (w_draw w) of
              Appended \<Rightarrow> (Inr (), s\<lparr>n_world := w, n_trace := n_trace s @ lines\<rparr>)
            | Append_failed \<Rightarrow> (Inl OSError, s\<lparr>n_world := w\<rparr>)
            | Append_failed_late \<Rightarrow> (Inl OSError, s\<lparr>n_world := w, n_trace := n_trace s @ lines\<rparr>))"

definition sendall :: "host \<Rightarrow> bytes \<Rightarrow> session \<Rightarrow> unit res \<times> session" where
  "sendall host bs s =
     (case send_at host (w_draw (n_world s)) of
        Sent \<Rightarrow> (Inr (), s\<lparr>n_sent := n_sent s @ [bs]\<rparr>)
      | Cut k \<Rightarrow> (Inl OSError, s\<lparr>n_sent := n_sent s @ [take k bs]\<rparr>))"

text \<open>The body of the loop from the dispatch on: \<open>True\<close> goes on to the next request, \<open>False\<close> returns.\<close>

definition answer_request ::
  "py \<Rightarrow> env \<Rightarrow> host \<Rightarrow> bool \<Rightarrow> trace_id \<Rightarrow> bytes \<Rightarrow> ttlv \<Rightarrow> session \<Rightarrow> bool res \<times> session" where
  "answer_request py env host traced ident request_bytes request s =
     (case dispatch env (trace_provider_id ident) request (n_world s) of
        (Inl e, w) \<Rightarrow>
          (if is_protocol_failure e then Inr False else Inl e,
           s\<lparr>n_world := w, n_log := n_log s @ (if is_exception e then [log_dispatch_failure request e] else [])\<rparr>)
      | (Inr response, w) \<Rightarrow>
          let s1 = s\<lparr>n_world := w, n_log := n_log s @ log_response_failures request response\<rparr> in
          case encode response of
            Inl e \<Rightarrow> (Inl e, s1)
          | Inr response_bytes \<Rightarrow>
              (case (if traced then record_trace py env host ident request response request_bytes s1 else (Inr (), s1)) of
                 (Inl e, s2) \<Rightarrow> (Inl e, s2)
               | (Inr _, s2) \<Rightarrow>
                   (case sendall host response_bytes s2 of
                      (Inl e, s3) \<Rightarrow> (Inl e, s3)
                    | (Inr _, s3) \<Rightarrow> (Inr True, s3))))"

definition serve_request ::
  "py \<Rightarrow> env \<Rightarrow> host \<Rightarrow> nat \<Rightarrow> bool \<Rightarrow> trace_id \<Rightarrow> session \<Rightarrow> bool res \<times> session" where
  "serve_request py env host max_bytes traced ident s =
     (case read_request max_bytes (n_incoming s) of
        (Inl e, ps) \<Rightarrow> (Inl e, s\<lparr>n_incoming := ps\<rparr>)
      | (Inr None, ps) \<Rightarrow> (Inr False, s\<lparr>n_incoming := ps\<rparr>)
      | (Inr (Some (request_bytes, request)), ps) \<Rightarrow>
          answer_request py env host traced ident request_bytes request (s\<lparr>n_incoming := ps\<rparr>))"

text \<open>What \<open>except (ConnectionError, OSError, TimeoutError, TtlvError)\<close> catches.\<close>

definition ends_connection :: "exn \<Rightarrow> bool" where
  "ends_connection e \<longleftrightarrow> e = OSError \<or> is_ttlv_error e"

fun serve_loop ::
  "py \<Rightarrow> env \<Rightarrow> host \<Rightarrow> nat \<Rightarrow> bool \<Rightarrow> trace_id \<Rightarrow> nat \<Rightarrow> session \<Rightarrow> unit res \<times> session" where
  "serve_loop py env host max_bytes traced ident 0 s = (Inr (), s)"
| "serve_loop py env host max_bytes traced ident (Suc n) s =
     (case serve_request py env host max_bytes traced ident s of
        (Inr True, s') \<Rightarrow> serve_loop py env host max_bytes traced ident n s'
      | (Inr False, s') \<Rightarrow> (Inr (), s')
      | (Inl e, s') \<Rightarrow> (if ends_connection e then Inr () else Inl e, s'))"

text \<open>
  \<open>handle\<close>. A certificate that is missing or empty, and one that no provider is mapped to, ends the
  connection before a byte is read.
\<close>

definition handle :: "py \<Rightarrow> env \<Rightarrow> host \<Rightarrow> service_config \<Rightarrow> peer \<Rightarrow> session \<Rightarrow> unit res \<times> session" where
  "handle py env host config peer s =
     (if \<not> handshake_ok peer \<or> peer_der peer = None \<or> peer_der peer = Some [] then (Inr (), s)
      else let fingerprint = hex_of_bytes (sha256 env (the (peer_der peer))) in
        case map_of (fingerprint_providers config) fingerprint of
          None \<Rightarrow> (Inr (), s\<lparr>n_log := n_log s @ [Unmapped_certificate]\<rparr>)
        | Some provider_id \<Rightarrow>
            serve_loop py env host (nat (max_request_bytes (c_limits config))) (c_interop_trace_path config \<noteq> None)
              \<lparr>connection_id = uuid4_text (urandom env (w_draw (n_world s)) 16), client_cert_sha256 = fingerprint,
               trace_provider_id = provider_id\<rparr>
              (nat (max_requests_per_connection (c_limits config)))
              (s\<lparr>n_world := (n_world s)\<lparr>w_draw := Suc (w_draw (n_world s))\<rparr>\<rparr>))"

text \<open>The thread of a connection: \<open>handle_error\<close> records that a request failed, and nothing of the failure.\<close>

definition serve_connection :: "py \<Rightarrow> env \<Rightarrow> host \<Rightarrow> service_config \<Rightarrow> peer \<Rightarrow> session \<Rightarrow> session" where
  "serve_connection py env host config peer s =
     (case handle py env host config peer s of
        (Inl e, s') \<Rightarrow> if is_exception e then s'\<lparr>n_log := n_log s' @ [Request_failed]\<rparr> else s'
      | (Inr _, s') \<Rightarrow> s')"

end
