(* ===== verification/StoreProps.thy ===== *)
theory StoreProps
  imports StoreLife
begin

text \<open>
  The properties of the wrapped-key store, each applied at a concrete store: an empty store in a
  small environment, and the same store after its first key.
\<close>

subsection \<open>A concrete store\<close>

definition demo_env :: env where
  "demo_env = \<lparr>aes_encrypt = (\<lambda>k n p a. p @ replicate 16 0), aes_decrypt = (\<lambda>k n c a. Some (take (length c - 16) c)),
     sha256 = (\<lambda>m. to_be 32 (length m)), urandom = (\<lambda>i n. replicate n (byte_of i)),
     now_iso = (\<lambda>i. lit ''2026-01-01T00:00:00+00:00''), unix_time = (\<lambda>i. 1767225600),
     iso_timestamp = (\<lambda>t. Some 1767225600), uni = (\<lambda>c. 63), json_other = (\<lambda>b. None),
     write_fault_at = (\<lambda>i. W_Ok), commit_fault_at = (\<lambda>i. C_Ok)\<rparr>"

definition demo_secret :: ustr where "demo_secret = lit ''demo''"

definition demo_master :: bytes where
  "demo_master = sha256 demo_env (map byte_of (lit ''atlaso-kmip-master-v1'') @ [0] @ map byte_of demo_secret)"

definition demo_kek :: bytes where "demo_kek = replicate 32 7"

definition demo_db :: database where
  "demo_db = \<lparr>schema_ready = True,
     store_metadata = [(lit ''schema_version'', int_text STORE_SCHEMA_VERSION)], wrapped_keys = []\<rparr>"

definition demo_envelope :: kek_envelope where
  "demo_envelope = settled demo_kek 0 (commitment demo_env demo_db)"

definition demo_file :: bytes where
  "demo_file = (case envelope_file demo_env demo_master demo_envelope (replicate 12 0) of Inr c \<Rightarrow> c | Inl e \<Rightarrow> [])"

definition demo_world :: world where
  "demo_world = \<lparr>w_disk = \<lparr>d_db = Some demo_db, d_kek = Some demo_file, d_recovery = None, d_journal = False, d_rollback = False,
       d_trust = None, d_others = [], d_plain = True\<rparr>,
     w_self = \<lparr>s_read_only = False, s_master_key = demo_master, s_kek = demo_kek, s_envelope = demo_envelope\<rparr>,
     w_draw = 0, w_io = 0\<rparr>"

definition demo_provider :: ustr where "demo_provider = uuid_of_int 1"

lemma demo_env_ok: "env_ok demo_env"
  by (auto simp: env_ok_def demo_env_def lit_scalar_cong)

lemma demo_calm: "calm demo_env n"
  by (simp add: calm_def demo_env_def)

lemma demo_master_of: "master_of demo_env demo_secret (w_disk demo_world) = Inr demo_master"
proof -
  have "list_all (\<lambda>c. c < 128) demo_secret" by (simp add: demo_secret_def lit_def)
  from utf8_encode_ascii [OF this] show ?thesis
    by (simp add: master_of_def master_key_def recovery_master_def demo_world_def utf8_def demo_master_def demo_secret_def)
qed

lemma demo_master_length: "length demo_master = 32"
  by (simp add: demo_master_def env_okD [OF demo_env_ok])

lemma demo_db_ok: "db_ok demo_db"
  by (simp add: db_ok_def demo_db_def lit_scalar_cong ascii_scalar [OF int_text_ascii])

lemma demo_sound: "sound demo_kek demo_envelope"
  using commitment_text [OF demo_env_ok, of demo_db]
  by (simp add: sound_def demo_envelope_def settled_ok payload_ints demo_kek_def int_ok_def digs.simps)

lemma demo_opened: "open_kek demo_env demo_master demo_file = Inr demo_envelope"
proof -
  have i: "ints_ok (envelope_payload demo_envelope)" "envelope_ok demo_envelope"
    using demo_sound by (simp_all add: sound_def)
  obtain c where c: "envelope_file demo_env demo_master demo_envelope (replicate 12 0) = Inr c"
    using envelope_file_total [OF i(1) demo_master_length, of "replicate 12 0"] by auto
  then show ?thesis
    using open_written [OF demo_env_ok i(2) demo_master_length c] by (simp add: demo_file_def)
qed

lemma demo_running: "running demo_env demo_master demo_kek Map.empty demo_world"
proof (rule runningI [OF demo_env_ok])
  show "consistent demo_env demo_master demo_kek demo_db demo_world"
    using demo_sound demo_opened demo_db_ok demo_master_length
    by (auto simp: consistent_def kept_def held_def opened_def covers_def demo_world_def)
       (simp_all add: demo_envelope_def)
  show "keys_open demo_env demo_kek demo_db" by (simp add: keys_open_def demo_db_def)
  show "contents demo_env demo_kek demo_db = Map.empty" by (rule ext) (simp add: contents_def demo_db_def)
qed

lemma demo_provider_canon: "uuid_canon u demo_provider = Some demo_provider"
  unfolding demo_provider_def by (rule uuid_canon_of_int) simp

lemma demo_no_attributes: "validated_custom_attributes (json_pairs []) = Inr []"
  by (simp add: validated_attributes_again attributes_ok_def)

definition demo_created :: "stored_key res \<times> world" where
  "demo_created = create_key demo_env demo_provider (Some (lit ''vm-1'')) [] demo_world"

lemma demo_create_succeeds: "\<exists>m w'. demo_created = (Inr m, w')"
  unfolding demo_created_def
  by (rule create_key_calm [OF demo_running demo_calm demo_provider_canon demo_no_attributes])
    (simp_all add: name_ok_def lit_scalar_cong sqlite_length_def lit_def demo_world_def demo_envelope_def
      int_ok_def digs.simps is_scalar_def)

definition demo_world1 :: world where
  "demo_world1 = snd demo_created"

definition demo_key :: stored_key where
  "demo_key = projr (fst demo_created)"

lemma demo_create: "create_key demo_env demo_provider (Some (lit ''vm-1'')) [] demo_world = (Inr demo_key, demo_world1)"
  using demo_create_succeeds by (auto simp: demo_key_def demo_world1_def demo_created_def)

lemma demo_running1:
  "\<exists>pt. running demo_env demo_master demo_kek [key_of demo_key \<mapsto> (demo_key, pt)] demo_world1
     \<and> k_provider_id demo_key = demo_provider \<and> k_state demo_key = PRE_ACTIVE \<and> length pt = 32"
  by (rule create_key_running [OF demo_running demo_create]) (auto simp: demo_provider_canon)

lemma demo_stores:
  "\<exists>pt. stores demo_env demo_secret demo_master demo_kek [key_of demo_key \<mapsto> (demo_key, pt)] (True, demo_world1)"
proof -
  have "exec demo_env (Create_key demo_provider (Some (lit ''vm-1'')) []) demo_world = (None, demo_world1)"
    by (simp add: demo_create outcome_def)
  from master_of_cong [OF exec_recovery [OF this]]
  have "master_of demo_env demo_secret (w_disk demo_world1) = Inr demo_master" using demo_master_of by simp
  then show ?thesis using demo_running1 by (auto simp: stores_def)
qed

subsection \<open>Generations\<close>

abbreviation generation :: "world \<Rightarrow> int" where
  "generation w \<equiv> e_generation (s_envelope (w_self w))"

lemma create_key_generation:
  assumes env: "env_ok env" and w: "consistent env master kek db w" "keys_open env kek db"
    and run: "create_key env p name attrs w = (Inr m, w')"
  shows "generation w' \<in> {generation w + 1, generation w + 2}"
proof -
  have "\<not> (uuid_canon (uni env) p = None \<or> (\<nexists>as. validated_custom_attributes (json_pairs attrs) = Inr as)
       \<or> \<not> name_ok name)"
    using create_key_refused(2) [OF run] by blast
  then obtain pc as where p: "uuid_canon (uni env) p = Some pc"
    and a: "validated_custom_attributes (json_pairs attrs) = Inr as" and n: "name_ok name" by auto
  define n where "n = new_key env pc name as (w_draw w)"
  have w4: "consistent env master kek db (after_draws 4 w)" using w(1) by simp
  from run [unfolded create_key_run [OF env w(1) p a n n_def]] obtain w1 view where
    v: "verify_store_commitment env db (after_draws 4 w) = (Inr (), w1)"
    and i: "insert_row (new_row env kek n (w_draw w)) db = Inr view"
    and c: "commit_mutation env view w1 = (Inr (), w')"
    by (auto simp: bindM_Inr_iff liftM_def returnM_def)
  note o = verify_outcome [OF env w4 v]
  have "db_ok view"
  proof -
    have ok: "db_ok db" and kl: "length kek = 32"
      using w(1) by (auto simp: consistent_def kept_def held_def dest: sound_ok)
    have "k_length n = 256" "attributes_ok (k_custom_attributes n)"
      using a by (auto simp: n_def new_key_def validated_attributes)
    from insert_row_contents(1) [OF env ok w(2) this kl env_okD(3) [OF env] env_okD(3) [OF env] refl
        i [unfolded new_row_def Let_def]] show ?thesis .
  qed
  from commit_mutation_outcome(2) [OF env o(1) o(3) this c] o(4) show ?thesis by auto
qed

lemma activate_key_calm:
  assumes run: "running env master kek M w" and c: "calm env (w_io w)"
    and p: "uuid_canon (uni env) p = Some pc" "uuid_canon (uni env) k = Some kc" and m: "M (pc, kc) = Some (m, pt)"
    and i: "int_ok (generation w + 1)" "int_ok (generation w + 2)"
  shows "\<exists>u w'. activate_key env p k w = (Inr u, w')"
proof -
  obtain db where db: "env_ok env" "consistent env master kek db w" "keys_open env kek db" "contents env kek db = M"
    using run by (rule runningE)
  have l: "lookup env kek db p k = Inr (m, pt)" unfolding lookup_contents [OF db(3)] by (simp add: p db(4) m)
  obtain w1 where v: "verify_store_commitment env db w = (Inr (), w1)" using verify_calm [OF db(1,2) c] by blast
  note o = verify_outcome [OF db(1,2) v]
  have c1: "calm env (w_io w1)" by (rule calm_after [OF c store_advances(4) v])
  have rd: "read_key env p k w = (Inr (db, m, pt), w1)" using read_key_run [OF db(1,2) v, of p k] l by simp
  show ?thesis
  proof (cases "k_state m = ACTIVE")
    case True
    then show ?thesis using rd by (simp add: activate_key_def returnM_def)
  next
    case False
    have "db_ok db" using db(2) by (auto simp: consistent_def kept_def)
    with False have s: "k_state m = PRE_ACTIVE" using contents_facts(2) lookup_Inr(1) [OF db(3) l] by blast
    obtain view t where vw: "db_ok view"
      "activate_key env p k w = bindM (commit_mutation env view) (\<lambda>_. returnM (activated m t)) (after_draws 2 w1)"
      using activate_key_run [OF db(1) o(1) db(3) rd l s] by blast
    have g: "int_ok (generation (after_draws 2 w1) + 1)" using o(4) i by (auto simp: add.assoc)
    have w2: "consistent env master kek db (after_draws 2 w1)" using o(1) by simp
    have "fst (commit_mutation env view (after_draws 2 w1)) = Inr ()"
      by (rule commit_mutation_calm [OF db(1) w2 _ vw(1) _ g]) (use o(3) c1 in simp_all)
    then show ?thesis unfolding vw(2) by (cases "commit_mutation env view (after_draws 2 w1)") (simp add: returnM_def)
  qed
qed

subsection \<open>Durability and restart\<close>

text \<open>
  C2: a key that the store holds is never lost and its material never changes. Along every run of
  operations, failed writes and commits, power losses, restarts and failed restarts, the files keep
  an entry for it with the same 32 bytes, and with the same metadata or, once activated, the
  activated metadata.
\<close>

theorem key_never_lost:
  assumes "stores env sk master kek M s" and "(life env sk)\<^sup>*\<^sup>* s s'" and "M k = Some (m, pt)"
  shows "\<exists>M' m'. stores env sk master kek M' s' \<and> M' k = Some (m', pt)
           \<and> (m' = m \<or> k_state m = PRE_ACTIVE \<and> (\<exists>t. m' = activated m t))"
  using store_life.run_abs [OF assms(2,1)] assms(3) unfolding grows_def by blast

theorem key_never_lost_witness:
  "\<exists>pt M' m'. stores demo_env demo_secret demo_master demo_kek M' (False, demo_world1)
     \<and> M' (key_of demo_key) = Some (m', pt)
     \<and> (m' = demo_key \<or> k_state demo_key = PRE_ACTIVE \<and> (\<exists>t. m' = activated demo_key t))"
proof -
  obtain pt where s: "stores demo_env demo_secret demo_master demo_kek [key_of demo_key \<mapsto> (demo_key, pt)]
      (True, demo_world1)" using demo_stores by blast
  have "(life demo_env demo_secret)\<^sup>*\<^sup>* (True, demo_world1) (False, demo_world1)"
    by (rule r_into_rtranclp) (rule life.stop)
  from key_never_lost [OF s this, of "key_of demo_key" demo_key pt] show ?thesis by auto
qed

text \<open>
  C3: after any such history the store can be started again once the faults stop, with the KEK
  unchanged, and then answers every read from the map of keys: the stored key, or KeyNotFoundError.
\<close>

theorem restart_serves:
  assumes "stores env sk master kek M (False, w)" and "calm env (w_io w)"
  shows "\<exists>w'. init_store env sk False w = (Inr (), w') \<and> s_kek (w_self w') = kek
     \<and> (\<forall>p k pc kc. uuid_canon (uni env) p = Some pc \<and> uuid_canon (uni env) k = Some kc
          \<longrightarrow> fst (get_key env p k w') =
                or_raise (KeyNotFoundError ''KMIP key was not found in the authenticated provider.'') (M (pc, kc)))"
proof -
  obtain db where db: "env_ok env" "length master = 32" "master_of env sk (w_disk w) = Inr master"
    "kept env master kek db (w_disk w)" "keys_open env kek db" "contents env kek db = M"
    using assms(1) by (auto simp: stores_def stopped_def)
  obtain w' where i: "init_store env sk False w = (Inr (), w')" "consistent env master kek db w'"
    using reopen [OF db(1,4,2,3) assms(2)] by blast
  have "running env master kek M w'" by (rule runningI [OF db(1) i(2) db(5,6)])
  moreover have "calm env (w_io w')" by (rule calm_after [OF assms(2) init_advances i(1)])
  ultimately show ?thesis using i get_key_running held_kek [OF i(2)] by blast
qed

theorem restart_serves_witness:
  "\<exists>w'. init_store demo_env demo_secret False demo_world1 = (Inr (), w') \<and> s_kek (w_self w') = demo_kek"
proof -
  obtain pt where "stores demo_env demo_secret demo_master demo_kek [key_of demo_key \<mapsto> (demo_key, pt)]
      (True, demo_world1)" using demo_stores by blast
  then have "stores demo_env demo_secret demo_master demo_kek [key_of demo_key \<mapsto> (demo_key, pt)] (False, demo_world1)"
    by (auto simp: stores_def intro: running_stopped)
  from restart_serves [OF this demo_calm] show ?thesis by blast
qed

subsection \<open>The operations\<close>

text \<open>
  C4: creating a key is atomic under every fault of the envelope file and of the database: the
  running store ends with the map it had, or with exactly one fresh pre-active entry of the
  caller's provider added, with 32 bytes of material; and if the key is returned, it was added.
\<close>

theorem create_key_atomic:
  assumes "running env master kek M w" and "create_key env p name attrs w = (r, w')"
  shows "(running env master kek M w' \<and> (\<forall>m. r \<noteq> Inr m))
     \<or> (\<exists>m pt. running env master kek (M(key_of m \<mapsto> (m, pt))) w' \<and> M (key_of m) = None
          \<and> uuid_canon (uni env) p = Some (k_provider_id m) \<and> k_name m = name \<and> k_state m = PRE_ACTIVE
          \<and> length pt = 32 \<and> (\<forall>m'. r = Inr m' \<longrightarrow> m' = m))"
  using assms by (rule create_key_running) blast+

theorem create_key_atomic_witness:
  "(running demo_env demo_master demo_kek Map.empty demo_world1 \<and> (\<forall>m. Inr demo_key \<noteq> (Inr m :: stored_key res)))
     \<or> (\<exists>m pt. running demo_env demo_master demo_kek [key_of m \<mapsto> (m, pt)] demo_world1
          \<and> uuid_canon (uni demo_env) demo_provider = Some (k_provider_id m) \<and> length pt = 32 \<and> m = demo_key)"
  using create_key_atomic [OF demo_running demo_create] by fastforce

text \<open>
  C5: a created key reads back. When \<open>create_key\<close> returns and no fault follows, \<open>get_key\<close> with the
  same provider and the returned identifier returns the same metadata and 32 bytes of material.
\<close>

theorem create_then_get:
  assumes "running env master kek M w" and "create_key env p name attrs w = (Inr m, w')"
    and "calm env (w_io w')"
  shows "\<exists>pt. fst (get_key env p (k_key_id m) w') = Inr (m, pt) \<and> length pt = 32"
proof -
  obtain pt where "running env master kek (M(key_of m \<mapsto> (m, pt))) w'" "length pt = 32"
    "uuid_canon (uni env) p = Some (k_provider_id m)" "uuid_canon (uni env) (k_key_id m) = Some (k_key_id m)"
    using assms(1,2) by (rule create_key_running) auto
  then show ?thesis
    using get_key_running [OF _ assms(3)] by (auto simp: key_of_def)
qed

theorem create_then_get_witness:
  "\<exists>pt. fst (get_key demo_env demo_provider (k_key_id demo_key) demo_world1) = Inr (demo_key, pt) \<and> length pt = 32"
  by (rule create_then_get [OF demo_running demo_create demo_calm])

text \<open>
  \<open>get_key\<close> under any faults changes no key, and returns only a key of the canonical form of the
  provider it was asked for, under the identifier it was asked for, exactly as stored.
\<close>

theorem get_key_sound:
  assumes "running env master kek M w" and "get_key env p k w = (r, w')"
  shows "running env master kek M w'
     \<and> (\<forall>m pt. r = Inr (m, pt) \<longrightarrow> M (key_of m) = Some (m, pt)
          \<and> uuid_canon (uni env) p = Some (k_provider_id m) \<and> uuid_canon (uni env) k = Some (k_key_id m))"
  using reading_running(1) [OF assms] get_key_found [OF assms(1)] assms(2) by blast

theorem get_key_sound_witness:
  "running demo_env demo_master demo_kek Map.empty (snd (get_key demo_env demo_provider demo_provider demo_world))"
  using get_key_sound [OF demo_running, of demo_provider demo_provider
      "fst (get_key demo_env demo_provider demo_provider demo_world)"
      "snd (get_key demo_env demo_provider demo_provider demo_world)"] by simp

lemma activate_active:
  assumes "env_ok env" "consistent env master kek db w" and "calm env (w_io w)"
    and "lookup env kek db p k = Inr (u, pt)" and "k_state u = ACTIVE"
  shows "fst (activate_key env p k w) = Inr u"
proof -
  obtain w1 where v: "verify_store_commitment env db w = (Inr (), w1)"
    using verify_calm [OF assms(1-3)] by blast
  show ?thesis
    using read_key_run [OF assms(1,2) v, of p k] assms(4,5) by (simp add: activate_key_def returnM_def)
qed

text \<open>
  Activation keeps the key. When \<open>activate_key\<close> returns, the returned metadata is active and
  differs from what was stored at most in the state and the activation time, the material read
  afterwards is the material stored before, every other entry is unchanged, and activating again
  returns the same metadata.
\<close>

theorem activate_key_correct:
  assumes "running env master kek M w" and "activate_key env p k w = (Inr u, w')" and "calm env (w_io w')"
  shows "\<exists>m pt. M (key_of u) = Some (m, pt) \<and> k_state u = ACTIVE
     \<and> (u = m \<or> k_state m = PRE_ACTIVE \<and> (\<exists>t. u = activated m t))
     \<and> running env master kek (M(key_of u \<mapsto> (u, pt))) w'
     \<and> fst (get_key env p k w') = Inr (u, pt) \<and> fst (activate_key env p k w') = Inr u"
proof -
  have after: "fst (get_key env p k w') = Inr (u, pt) \<and> fst (activate_key env p k w') = Inr u"
    if r: "running env master kek (M(key_of u \<mapsto> (u, pt))) w'" and c: "uuid_canon (uni env) p = Some (k_provider_id u)"
      "uuid_canon (uni env) k = Some (k_key_id u)" "k_state u = ACTIVE" for pt
  proof -
    obtain db where db: "env_ok env" "consistent env master kek db w'" "keys_open env kek db"
      "contents env kek db = M(key_of u \<mapsto> (u, pt))" using r by (rule runningE)
    have l: "lookup env kek db p k = Inr (u, pt)"
      unfolding lookup_contents [OF db(3)] using c by (simp add: db(4) key_of_def)
    show ?thesis
      using activate_active [OF db(1,2) assms(3) l c(3)] get_key_calm [OF db(1,2) assms(3), of p k] l by auto
  qed
  from assms(1,2) show ?thesis
  proof (rule activate_key_running)
    assume r: "running env master kek M w'" and "\<forall>v. Inr u = (Inr v :: stored_key res) \<longrightarrow> k_state v = ACTIVE
        \<and> (\<exists>pt. M (key_of v) = Some (v, pt) \<and> uuid_canon (uni env) p = Some (k_provider_id v)
        \<and> uuid_canon (uni env) k = Some (k_key_id v))"
    then obtain pt where u: "M (key_of u) = Some (u, pt)" "k_state u = ACTIVE"
      "uuid_canon (uni env) p = Some (k_provider_id u)" "uuid_canon (uni env) k = Some (k_key_id u)" by auto
    then have "M(key_of u \<mapsto> (u, pt)) = M" by auto
    then show ?thesis using u r after [of pt] by auto
  next
    fix m pt t
    assume r: "running env master kek (M(key_of m \<mapsto> (activated m t, pt))) w'" and m: "M (key_of m) = Some (m, pt)"
      "k_state m = PRE_ACTIVE" "uuid_canon (uni env) p = Some (k_provider_id m)"
      "uuid_canon (uni env) k = Some (k_key_id m)" and "\<forall>v. Inr u = (Inr v :: stored_key res) \<longrightarrow> v = activated m t"
    then have u: "u = activated m t" by simp
    have k: "key_of u = key_of m" "k_state u = ACTIVE" "k_provider_id u = k_provider_id m" "k_key_id u = k_key_id m"
      by (simp_all add: u activated_def key_of_def)
    have "running env master kek (M(key_of u \<mapsto> (u, pt))) w'" using r by (simp only: k(1)) (simp only: u)
    with m k after [of pt] show ?thesis using u by auto
  qed
qed

lemma demo_generation1: "generation demo_world1 \<in> {1, 2}"
proof -
  obtain db where "env_ok demo_env" "consistent demo_env demo_master demo_kek db demo_world" "keys_open demo_env demo_kek db"
    using demo_running by (rule runningE)
  from create_key_generation [OF this demo_create] show ?thesis by (simp add: demo_world_def demo_envelope_def)
qed

lemma demo_key_canon: "uuid_canon (uni demo_env) (k_key_id demo_key) = Some (k_key_id demo_key)"
  by (rule create_key_running [OF demo_running demo_create]) auto

theorem activate_key_correct_witness:
  "\<exists>u pt w'. activate_key demo_env demo_provider (k_key_id demo_key) demo_world1 = (Inr u, w')
     \<and> k_state u = ACTIVE \<and> fst (get_key demo_env demo_provider (k_key_id demo_key) w') = Inr (u, pt)"
proof -
  obtain pt where r: "running demo_env demo_master demo_kek [key_of demo_key \<mapsto> (demo_key, pt)] demo_world1"
    and k: "k_provider_id demo_key = demo_provider" using demo_running1 by blast
  have m: "[key_of demo_key \<mapsto> (demo_key, pt)] (demo_provider, k_key_id demo_key) = Some (demo_key, pt)"
    by (simp add: key_of_def k)
  have i: "int_ok (generation demo_world1 + 1)" "int_ok (generation demo_world1 + 2)"
  proof -
    have "int_ok 2" "int_ok 3" "int_ok 4" by (simp_all add: int_ok_def digs.simps)
    then show "int_ok (generation demo_world1 + 1)" "int_ok (generation demo_world1 + 2)"
      using demo_generation1 by auto
  qed
  obtain u w' where a: "activate_key demo_env demo_provider (k_key_id demo_key) demo_world1 = (Inr u, w')"
    using activate_key_calm [OF r demo_calm demo_provider_canon demo_key_canon m i] by blast
  from activate_key_correct [OF r a demo_calm] a show ?thesis by blast
qed

text \<open>
  C20: providers are isolated. Whatever operation runs and whatever fails inside it, the entries of
  every provider other than the one the operation names are unchanged, and no entry of any provider
  disappears or changes its material.
\<close>

theorem provider_isolation:
  assumes "running env master kek M w" and "exec env c w = (x, w')"
  shows "\<exists>M'. running env master kek M' w' \<and> grows M M'
     \<and> (\<forall>k. Some (fst k) \<noteq> acting_provider env c \<longrightarrow> M' k = M k)"
  using exec_running [OF assms] unfolding only_provider_def .

theorem provider_isolation_witness:
  "\<exists>pt M'. running demo_env demo_master demo_kek M' (snd (exec demo_env (Activate_key demo_provider (k_key_id demo_key)) demo_world1))
     \<and> grows [key_of demo_key \<mapsto> (demo_key, pt)] M'"
  using demo_running1 provider_isolation [of demo_env demo_master demo_kek _ demo_world1 "Activate_key demo_provider (k_key_id demo_key)"
      "fst (exec demo_env (Activate_key demo_provider (k_key_id demo_key)) demo_world1)"
      "snd (exec demo_env (Activate_key demo_provider (k_key_id demo_key)) demo_world1)"]
  by (metis prod.collapse)

subsection \<open>Tampering\<close>

text \<open>
  C21: the commitment binds the database. Two databases within the schema that have the same
  commitment hold the same rows and the same metadata, or their two serialized documents are a
  SHA-256 collision.
\<close>

theorem commitment_binds:
  assumes "db_ok db" and "db_ok db'" and "store_commitment env db = store_commitment env db'"
  shows "(sort_key row_key (wrapped_keys db) = sort_key row_key (wrapped_keys db')
           \<and> sort_key fst (store_metadata db) = sort_key fst (store_metadata db'))
         \<or> (document_bytes db \<noteq> document_bytes db'
             \<and> sha256 env (document_bytes db) = sha256 env (document_bytes db'))"
  using same_commitment [OF assms(1,2)] assms(3) store_commitment_total assms(1,2) by (metis sum.inject(2))

text \<open>Two databases that differ, under a hash that does not tell them apart.\<close>

definition demo_noted :: "string \<Rightarrow> database" where
  "demo_noted note = demo_db\<lparr>store_metadata := store_metadata demo_db @ [(lit ''note'', lit note)]\<rparr>"

lemma demo_noted_ok: "list_all (\<lambda>c. of_char c < (128::nat)) note \<Longrightarrow> db_ok (demo_noted note)"
  using demo_db_ok by (auto simp: db_ok_def demo_noted_def demo_db_def lit_scalar_cong)

definition weak_env :: env where
  "weak_env = demo_env\<lparr>sha256 := (\<lambda>m. replicate 32 0)\<rparr>"

theorem commitment_binds_witness:
  "store_commitment weak_env (demo_noted ''a'') = store_commitment weak_env (demo_noted ''b'')
     \<and> store_metadata (demo_noted ''a'') \<noteq> store_metadata (demo_noted ''b'')
     \<and> document_bytes (demo_noted ''a'') \<noteq> document_bytes (demo_noted ''b'')
     \<and> sha256 weak_env (document_bytes (demo_noted ''a'')) = sha256 weak_env (document_bytes (demo_noted ''b''))"
proof -
  have ok: "db_ok (demo_noted ''a'')" "db_ok (demo_noted ''b'')" by (rule demo_noted_ok, simp)+
  have same: "store_commitment weak_env (demo_noted ''a'') = store_commitment weak_env (demo_noted ''b'')"
    using ok by (simp add: store_commitment_total commitment_def weak_env_def)
  have m: "set (store_metadata (demo_noted ''a'')) \<noteq> set (store_metadata (demo_noted ''b''))"
  proof -
    have "(lit ''note'', lit ''b'') \<notin> set (store_metadata (demo_noted ''a''))" by (simp add: demo_noted_def demo_db_def lit_def)
    moreover have "(lit ''note'', lit ''b'') \<in> set (store_metadata (demo_noted ''b''))" by (simp add: demo_noted_def)
    ultimately show ?thesis by metis
  qed
  then have "sort_key fst (store_metadata (demo_noted ''a'')) \<noteq> sort_key fst (store_metadata (demo_noted ''b''))"
    by (metis set_sort)
  then show ?thesis using commitment_binds [OF ok same] same m by auto
qed

lemma verify_tampered:
  assumes "db_ok db'" and "\<not> s_read_only (w_self w)" and "e_commitment (s_envelope (w_self w)) \<noteq> []"
    and "\<not> covers env (s_envelope (w_self w)) db'"
  shows "verify_store_commitment env db' w =
     (Inl (KeyStoreError ''KMIP operational store rollback or integrity validation failed.''), w)"
  using assms
  by (auto simp: verify_store_commitment_def store_commitment_total Let_def covers_def raiseM_def)

definition tampered :: "database \<Rightarrow> store \<Rightarrow> disk \<Rightarrow> world \<Rightarrow> bool" where
  "tampered db' s d w \<longleftrightarrow> w_self w = s \<and> w_disk w = d \<and> d_db d = Some db'"

interpretation tamper: world_invariant "tampered db' s d" for db' s d
  by unfold_locales (simp add: tampered_def)

lemma refuses_connect: "refuses (tampered db' s d) (f db') \<Longrightarrow> refuses (tampered db' s d) (bindM connect f)"
  unfolding refuses_def by (auto simp: tampered_def connect_def)

lemma operations_refuse:
  assumes v: "refuses (tampered db' s d) (verify_store_commitment env db')"
  shows "refuses (tampered db' s d) (create_key env p name attrs)"
    "refuses (tampered db' s d) (activate_key env p k)"
    "refuses (tampered db' s d) (get_key env p k)"
    "refuses (tampered db' s d) (get_metadata env p k)"
    "refuses (tampered db' s d) (locate_keys env p st name limit)"
    "refuses (tampered db' s d) (lifecycle_counts env ps)"
proof -
  have r: "refuses (tampered db' s d) (read_key env p k)"
    unfolding read_key_def by (rule tamper.refuses_bind tamper.keeps_rules refuses_connect tamper.refuses_now [OF v])+
  show "refuses (tampered db' s d) (activate_key env p k)" "refuses (tampered db' s d) (get_key env p k)"
    "refuses (tampered db' s d) (get_metadata env p k)"
    unfolding activate_key_def get_key_def get_metadata_def by (rule tamper.refuses_now [OF r])+
  show "refuses (tampered db' s d) (create_key env p name attrs)"
    "refuses (tampered db' s d) (locate_keys env p st name limit)"
    "refuses (tampered db' s d) (lifecycle_counts env ps)"
    unfolding create_key_def locate_keys_def lifecycle_counts_def Let_def
    by (rule tamper.refuses_bind tamper.keeps_rules refuses_connect tamper.refuses_now [OF v])+
qed

lemma outcome_refuses: "refuses I m \<Longrightarrow> I w \<Longrightarrow> outcome (m w) = (x, w') \<Longrightarrow> x \<noteq> None \<and> I w'"
  unfolding refuses_def outcome_def by fastforce

lemma exec_refuses:
  assumes v: "refuses (tampered db' s d) (verify_store_commitment env db')" and t: "tampered db' s d w"
    and e: "exec env c w = (x, w')"
  shows "x \<noteq> None \<and> tampered db' s d w'"
proof -
  note r = operations_refuse [OF v, THEN outcome_refuses, OF t]
  show ?thesis
    using e by (cases c; simp only: exec.simps) (erule r)+
qed

text \<open>
  C6: a rolled back or altered database is refused. When the database file no longer matches what
  the envelope of the running store vouches for, every operation raises, nothing is written to any
  file, and the store object is unchanged.
\<close>

theorem rollback_refused:
  assumes "held env master kek db (w_self w)" and "d_db (w_disk w) = Some db'" and "db_ok db'"
    and "\<not> covers env (s_envelope (w_self w)) db'" and "exec env c w = (x, w')"
  shows "x \<noteq> None \<and> w_disk w' = w_disk w \<and> w_self w' = w_self w"
proof -
  have s: "\<not> s_read_only (w_self w)" "e_commitment (s_envelope (w_self w)) \<noteq> []"
    using assms(1) by (auto simp: held_def sound_def)
  have "refuses (tampered db' (w_self w) (w_disk w)) (verify_store_commitment env db')"
    using verify_tampered [OF assms(3), of _ env] s assms(4) by (auto simp: refuses_def tampered_def)
  moreover have "tampered db' (w_self w) (w_disk w) w" using assms(2) by (simp add: tampered_def)
  ultimately show ?thesis using exec_refuses [OF _ _ assms(5)] by (auto simp: tampered_def)
qed

definition demo_altered_db :: database where
  "demo_altered_db = demo_db\<lparr>store_metadata := (lit ''note'', []) # store_metadata demo_db\<rparr>"

definition demo_altered :: world where
  "demo_altered = demo_world\<lparr>w_disk := (w_disk demo_world)\<lparr>d_db := Some demo_altered_db\<rparr>\<rparr>"

lemma demo_document_lengths:
  "length (dumps (store_document demo_db)) = 90" "length (dumps (store_document demo_altered_db)) = 102"
  by code_simp+

lemma demo_altered_commitment: "commitment demo_env demo_altered_db \<noteq> commitment demo_env demo_db"
proof
  assume "commitment demo_env demo_altered_db = commitment demo_env demo_db"
  then have "to_be 32 102 = to_be 32 90"
    using hex_of_bytes_inj by (fastforce simp: commitment_def document_bytes_def demo_env_def demo_document_lengths)
  then have "from_be (to_be 32 102) = from_be (to_be 32 90)" by simp
  then show False by simp
qed

theorem rollback_refused_witness:
  "fst (exec demo_env (Get_key demo_provider demo_provider) demo_altered) \<noteq> None
     \<and> w_disk (snd (exec demo_env (Get_key demo_provider demo_provider) demo_altered)) = w_disk demo_altered"
proof -
  have h: "held demo_env demo_master demo_kek demo_db (w_self demo_altered)"
    using demo_sound by (simp add: held_def covers_def demo_altered_def demo_world_def) (simp add: demo_envelope_def)
  have d: "d_db (w_disk demo_altered) = Some demo_altered_db" by (simp add: demo_altered_def)
  have ok: "db_ok demo_altered_db"
    by (simp add: db_ok_def demo_altered_db_def demo_db_def lit_scalar_cong ascii_scalar [OF int_text_ascii])
  have n: "\<not> covers demo_env (s_envelope (w_self demo_altered)) demo_altered_db"
    using demo_altered_commitment by (auto simp: covers_def demo_altered_def demo_world_def demo_envelope_def)
  show ?thesis
    using rollback_refused [OF h d ok n, of "Get_key demo_provider demo_provider"
        "fst (exec demo_env (Get_key demo_provider demo_provider) demo_altered)"
        "snd (exec demo_env (Get_key demo_provider demo_provider) demo_altered)"] by simp
qed

subsection \<open>The envelope file\<close>

text \<open>
  The envelope file round-trips. When writing an envelope returns, opening the store's directory
  with the same secret yields the same master key and exactly that envelope: KEK, generation,
  commitment and pending transaction.
\<close>

theorem kek_envelope_roundtrip:
  assumes "env_ok env" and "envelope_ok e" and "length master = 32"
    and "master_of env sk (w_disk w) = Inr master" and "write_kek_envelope env master e w = (Inr (), w')"
  shows "load_or_create_kek env sk read_only w' = (Inr (master, e), w')"
proof -
  note o = write_kek_outcome [OF assms(1,2,3,5)]
  have "master_of env sk (w_disk w') = Inr master"
    using o(2) assms(4) master_of_cong [of "w_disk w'" "w_disk w"] by (simp add: same_files_def)
  then show ?thesis using load_existing [OF _ assms(3)] o(3) by blast
qed

theorem kek_envelope_roundtrip_witness:
  "\<exists>w'. write_kek_envelope demo_env demo_master demo_envelope demo_world = (Inr (), w')
     \<and> load_or_create_kek demo_env demo_secret True w' = (Inr (demo_master, demo_envelope), w')"
proof -
  have i: "ints_ok (envelope_payload demo_envelope)" "envelope_ok demo_envelope"
    using demo_sound by (simp_all add: sound_def)
  obtain c where "envelope_file demo_env demo_master demo_envelope (urandom demo_env (w_draw demo_world) 12) = Inr c"
    using envelope_file_total [OF i(1) demo_master_length] env_okD(3) [OF demo_env_ok] by blast
  then obtain w' where w: "write_kek_envelope demo_env demo_master demo_envelope demo_world = (Inr (), w')"
    using calmD(1) [OF demo_calm] by (simp add: write_kek_envelope_def replace_kek_def)
  from kek_envelope_roundtrip [OF demo_env_ok i(2) demo_master_length demo_master_of w] w show ?thesis by blast
qed

subsection \<open>Finding and counting\<close>

definition matches :: "ustr option \<Rightarrow> ustr option \<Rightarrow> stored_key \<Rightarrow> bool" where
  "matches state name m \<longleftrightarrow> (state = None \<or> state = Some (k_state m)) \<and> (name = None \<or> name = k_name m)"

lemma row_matches:
  assumes "decrypt_row env kek r = Inr (m, pt)"
  shows "locate_matches pc state name r \<longleftrightarrow> k_provider_id m = pc \<and> matches state name m"
  using decrypt_row_Inr [OF assms] by (auto simp: locate_matches_def matches_def split: option.splits)

lemma located_rows:
  assumes ok: "db_ok db" and op: "keys_open env kek db"
    and rs: "rs = filter (locate_matches pc state name) (wrapped_keys db)"
  shows "distinct (map r_key_id rs)"
    and "r \<in> set rs \<Longrightarrow> \<exists>m pt. contents env kek db (pc, r_key_id r) = Some (m, pt) \<and> matches state name m
       \<and> k_created_at m = r_created_at r"
    and "contents env kek db (pc, i) = Some (m, pt) \<Longrightarrow> matches state name m \<Longrightarrow> i \<in> r_key_id ` set rs"
proof -
  have prov: "r_provider_id r = pc" if "r \<in> set rs" for r using that rs by (auto simp: locate_matches_def)
  have d: "distinct (map row_key (wrapped_keys db))" using ok by (simp add: db_ok_def)
  then have "inj_on row_key (set rs)" using rs by (auto simp: distinct_map inj_on_def)
  then have "inj_on r_key_id (set rs)" using prov by (auto simp: inj_on_def row_key_def)
  moreover have "distinct rs" using d rs by (simp add: distinct_map)
  ultimately show "distinct (map r_key_id rs)" by (simp add: distinct_map)
  show "\<exists>m pt. contents env kek db (pc, r_key_id r) = Some (m, pt) \<and> matches state name m
       \<and> k_created_at m = r_created_at r" if r: "r \<in> set rs"
  proof -
    have w: "r \<in> set (wrapped_keys db)" "locate_matches pc state name r" using r rs by auto
    obtain m pt where x: "decrypt_row env kek r = Inr (m, pt)" using op w(1) by (force simp: keys_open_def)
    have "row_key r = (pc, r_key_id r)" using prov [OF r] by (simp add: row_key_def)
    then show ?thesis
      using contents_row [OF ok w(1) x] w(2) row_matches [OF x] decrypt_row_Inr(7) [OF x] by auto
  qed
  show "i \<in> r_key_id ` set rs" if c: "contents env kek db (pc, i) = Some (m, pt)" "matches state name m"
  proof -
    obtain r where r: "r \<in> set (wrapped_keys db)" "row_key r = (pc, i)" "decrypt_row env kek r = Inr (m, pt)"
      using c(1) by (rule contents_SomeE)
    then have "locate_matches pc state name r"
      using row_matches [OF r(3)] c(2) decrypt_row_Inr(1) [OF r(3)] by (simp add: row_key_def)
    then show ?thesis using r rs by (auto simp: row_key_def)
  qed
qed

lemma sorted_cut:
  assumes "sorted (map f xs)" "x \<in> set (take n xs)" "y \<in> set (drop n xs)"
  shows "f x \<le> f y"
proof -
  have "sorted (map f (take n xs) @ map f (drop n xs))" using assms(1) by (simp flip: map_append)
  then show ?thesis using assms(2,3) by (auto simp: sorted_append)
qed

text \<open>
  C22: locating returns at most \<open>limit\<close> (at most 1024) distinct identifiers, all of keys of the
  caller's provider that match the requested state and name, in order of creation time and
  identifier. A matching key is left out only when \<open>limit\<close> keys are returned and none of them comes
  after it in that order: the oldest are kept.
\<close>

theorem locate_keys_correct:
  assumes "running env master kek M w" and "locate_keys env p state name limit w = (Inr ids, w')"
  shows "\<exists>pc. uuid_canon (uni env) p = Some pc \<and> int (length ids) \<le> limit \<and> limit \<le> 1024 \<and> distinct ids
     \<and> (\<forall>i \<in> set ids. \<exists>m pt. M (pc, i) = Some (m, pt) \<and> matches state name m)
     \<and> sorted (map (\<lambda>i. (k_created_at (fst (the (M (pc, i)))), i)) ids)
     \<and> (\<forall>j m pt. M (pc, j) = Some (m, pt) \<and> matches state name m \<and> j \<notin> set ids
         \<longrightarrow> int (length ids) = limit \<and> (\<forall>i \<in> set ids. (k_created_at (fst (the (M (pc, i)))), i) \<le> (k_created_at m, j)))"
proof -
  obtain db where db: "env_ok env" "consistent env master kek db w" "keys_open env kek db" "contents env kek db = M"
    using assms(1) by (rule runningE)
  have ok: "db_ok db" using db(2) by (auto simp: consistent_def kept_def)
  obtain pc where pc: "uuid_canon (uni env) p = Some pc" "1 \<le> limit" "limit \<le> 1024"
    and ids: "ids = take (nat limit) (map r_key_id (sort_key (\<lambda>r. (r_created_at r, r_key_id r))
           (filter (locate_matches pc state name) (wrapped_keys db))))"
    using locate_keys_outcome(2) [OF db(1,2) assms(2)] by blast
  define rs where "rs = filter (locate_matches pc state name) (wrapped_keys db)"
  define ss where "ss = sort_key (\<lambda>r. (r_created_at r, r_key_id r)) rs"
  note lr = located_rows [OF ok db(3) rs_def, unfolded db(4)]
  have set: "set ss = set rs" and sorted: "sorted (map (\<lambda>r. (r_created_at r, r_key_id r)) ss)" by (simp_all add: ss_def)
  have ids': "ids = map r_key_id (take (nat limit) ss)" by (simp add: ids ss_def rs_def take_map)
  have key: "M (pc, r_key_id r) \<noteq> None \<and> k_created_at (fst (the (M (pc, r_key_id r)))) = r_created_at r" if "r \<in> set ss" for r
    using lr(2) [of r] that set by auto
  have 1: "int (length ids) \<le> limit" using pc(2) by (simp add: ids')
  have "distinct (map r_key_id ss)" using lr(1) set by (simp add: distinct_map ss_def)
  then have 2: "distinct ids" unfolding ids' take_map [symmetric] by (rule distinct_take)
  have 3: "\<forall>i \<in> set ids. \<exists>m pt. M (pc, i) = Some (m, pt) \<and> matches state name m"
    using lr(2) set by (fastforce simp: ids' dest!: in_set_takeD)
  have "sorted (map (\<lambda>r. (r_created_at r, r_key_id r)) (take (nat limit) ss))"
    unfolding take_map [symmetric] by (rule sorted_wrt_take) (rule sorted)
  then have 4: "sorted (map (\<lambda>i. (k_created_at (fst (the (M (pc, i)))), i)) ids)"
    unfolding ids' map_map comp_def using key in_set_takeD by (metis (no_types, lifting) map_cong)
  have 5: "int (length ids) = limit \<and> (\<forall>i \<in> set ids. (k_created_at (fst (the (M (pc, i)))), i) \<le> (k_created_at m, j))"
    if j: "M (pc, j) = Some (m, pt)" "matches state name m" "j \<notin> set ids" for j m pt
  proof -
    obtain r where r: "r \<in> set ss" "j = r_key_id r" "r \<notin> set (take (nat limit) ss)"
      using lr(3) [OF j(1,2)] set j(3) by (auto simp: ids')
    then have d: "r \<in> set (drop (nat limit) ss)" by (metis UnE append_take_drop_id set_append)
    have "(r_created_at q, r_key_id q) \<le> (r_created_at r, r_key_id r)" if "q \<in> set (take (nat limit) ss)" for q
      using sorted_cut [OF sorted that d] .
    then have "\<forall>i \<in> set ids. (k_created_at (fst (the (M (pc, i)))), i) \<le> (k_created_at m, j)"
      using key in_set_takeD j(1) r(1,2) unfolding ids' by (fastforce dest: in_set_takeD)
    moreover have "nat limit < length ss" using d by (metis drop_all empty_iff empty_set not_le)
    ultimately show ?thesis using pc(2) by (simp add: ids')
  qed
  show ?thesis using pc(1,3) 1 2 3 4 5 by blast
qed

lemma locate_keys_calm:
  assumes "env_ok env" "consistent env master kek db w" "calm env (w_io w)"
    and "uuid_canon (uni env) p = Some pc" and "1 \<le> limit" "limit \<le> 1024"
  shows "\<exists>ids w'. locate_keys env p None None limit w = (Inr ids, w')"
proof -
  obtain w1 where "verify_store_commitment env db w = (Inr (), w1)" using verify_calm [OF assms(1-3)] by blast
  then show ?thesis
    using assms(4-6) connect_consistent [OF assms(2)]
    by (simp add: locate_keys_def validated_uuid_def name_ok_def returnM_def)
qed

theorem locate_keys_correct_witness:
  "\<exists>w'. locate_keys demo_env demo_provider None None 5 demo_world1 = (Inr [k_key_id demo_key], w')"
proof -
  obtain pt where r: "running demo_env demo_master demo_kek [key_of demo_key \<mapsto> (demo_key, pt)] demo_world1"
    and "k_provider_id demo_key = demo_provider" using demo_running1 by blast
  then have k: "key_of demo_key = (demo_provider, k_key_id demo_key)" by (simp add: key_of_def)
  from r obtain db where "env_ok demo_env" "consistent demo_env demo_master demo_kek db demo_world1" by (rule runningE)
  then obtain ids w' where l: "locate_keys demo_env demo_provider None None 5 demo_world1 = (Inr ids, w')"
    using locate_keys_calm [OF _ _ demo_calm demo_provider_canon, of demo_master demo_kek db demo_world1 5] by auto
  from locate_keys_correct [OF r l] have "distinct ids" "set ids \<subseteq> {k_key_id demo_key}"
    "k_key_id demo_key \<notin> set ids \<longrightarrow> length ids = 5"
    by (auto simp: demo_provider_canon k matches_def split: if_splits)
  then have "ids = [k_key_id demo_key]" by (cases ids; cases "tl ids") auto
  with l show ?thesis by blast
qed

text \<open>The keys a listing of the table yields are the entries of the map, each once.\<close>

lemma listed_keys:
  assumes ok: "db_ok db" and "mapE (decrypt_row env kek) (sort_key row_key (wrapped_keys db)) = Inr keys"
  shows "distinct (map (key_of \<circ> fst) keys)"
    and "contents env kek db k = Some (m, pt) \<longleftrightarrow> (m, pt) \<in> set keys \<and> key_of m = k"
proof -
  let ?rs = "sort_key row_key (wrapped_keys db)"
  have all: "\<forall>r \<in> set ?rs. \<exists>x. decrypt_row env kek r = Inr x"
    using mapE_Inr_all [OF assms(2)] by blast
  obtain ks where "mapE (decrypt_row env kek) ?rs = Inr ks" "length ks = length ?rs"
    "\<forall>i < length ?rs. decrypt_row env kek (?rs ! i) = Inr (ks ! i)"
    using mapE_decrypt [OF all] by blast
  with assms(2) have k: "length keys = length ?rs" "\<And>i. i < length ?rs \<Longrightarrow> decrypt_row env kek (?rs ! i) = Inr (keys ! i)"
    by auto
  have key: "key_of (fst x) = row_key r" if "decrypt_row env kek r = Inr x" for r x
    using that by (cases x) (auto simp: key_of_def row_key_def decrypt_row_Inr)
  have "map (key_of \<circ> fst) keys = map row_key ?rs"
    using k(1) key [OF k(2)] by (intro nth_equalityI) simp_all
  moreover have "distinct (map row_key ?rs)" using ok by (simp add: db_ok_def distinct_map)
  ultimately show "distinct (map (key_of \<circ> fst) keys)" by simp
  show "contents env kek db k = Some (m, pt) \<longleftrightarrow> (m, pt) \<in> set keys \<and> key_of m = k"
  proof
    assume c: "contents env kek db k = Some (m, pt)"
    then obtain r where "r \<in> set ?rs" "decrypt_row env kek r = Inr (m, pt)" by (auto elim: contents_SomeE)
    then show "(m, pt) \<in> set keys \<and> key_of m = k"
      using mapE_Inr_all [OF assms(2)] contents_key_of [OF c] by force
  next
    assume c: "(m, pt) \<in> set keys \<and> key_of m = k"
    then obtain r where r: "r \<in> set (wrapped_keys db)" "decrypt_row env kek r = Inr (m, pt)"
      using mapE_Inr_set [OF assms(2)] by force
    then show "contents env kek db k = Some (m, pt)" using contents_row [OF ok] key [OF r(2)] c by auto
  qed
qed

lemma count_card:
  assumes "distinct (map key_of ms)"
  shows "length (filter P ms) = card (key_of ` {m \<in> set ms. P m})"
proof -
  have d: "distinct ms" "inj_on key_of (set ms)" using assms by (simp_all add: distinct_map)
  have "length (filter P ms) = card {m \<in> set ms. P m}" using d(1) by (simp add: distinct_length_filter Int_def conj_commute)
  also have "\<dots> = card (key_of ` {m \<in> set ms. P m})"
    using d(2) by (intro card_image [symmetric]) (auto simp: inj_on_def)
  finally show ?thesis .
qed

definition keys_where :: "key_map \<Rightarrow> (stored_key \<Rightarrow> bool) \<Rightarrow> (ustr \<times> ustr) set" where
  "keys_where M P = {k. \<exists>m pt. M k = Some (m, pt) \<and> P m}"

text \<open>
  The lifecycle counts are the numbers of keys. For every provider reported, the three figures
  are the numbers of its pre-active keys, of its other keys, and of all its keys; a provider is
  reported exactly when it was asked for or has a key.
\<close>

theorem lifecycle_counts_correct:
  assumes "running env master kek M w" and "lifecycle_counts env provider_ids w = (Inr counts, w')"
  shows "map_of counts q =
     (if (\<exists>p \<in> set provider_ids. uuid_canon (uni env) p = Some q) \<or> keys_where M (\<lambda>m. k_provider_id m = q) \<noteq> {}
      then Some \<lparr>lc_pre_active = int (card (keys_where M (\<lambda>m. k_provider_id m = q \<and> k_state m = PRE_ACTIVE))),
                 lc_active = int (card (keys_where M (\<lambda>m. k_provider_id m = q \<and> k_state m \<noteq> PRE_ACTIVE))),
                 lc_total = int (card (keys_where M (\<lambda>m. k_provider_id m = q)))\<rparr>
      else None)"
proof -
  obtain db where db: "env_ok env" "consistent env master kek db w" "keys_open env kek db" "contents env kek db = M"
    using assms(1) by (rule runningE)
  have ok: "db_ok db" using db(2) by (auto simp: consistent_def kept_def)
  obtain ps where ps: "mapE (\<lambda>p. validated_uuid env p ''provider_id'') provider_ids = Inr ps"
    using assms(2) by (cases "mapE (\<lambda>p. validated_uuid env p ''provider_id'') provider_ids")
      (auto simp: lifecycle_counts_def)
  obtain w1 where v: "verify_store_commitment env db w = (Inr (), w1)"
    using assms(2) ps connect_consistent [OF db(2)]
    by (cases "verify_store_commitment env db w"; cases "fst (verify_store_commitment env db w)")
      (auto simp: lifecycle_counts_def)
  obtain keys where keys: "mapE (decrypt_row env kek) (sort_key row_key (wrapped_keys db)) = Inr keys"
    and counts: "counts = foldl (\<lambda>counts (metadata, plaintext). count_key metadata counts)
                  (foldl (\<lambda>d p. dict_put p no_keys d) [] ps) keys"
    using assms(2) unfolding lifecycle_counts_run [OF db(1,2) ps v]
    by (auto simp: bindM_Inr_iff liftM_def returnM_def)
  define ms where "ms = map fst keys"
  have "foldl (\<lambda>counts (metadata, plaintext). count_key metadata counts) d ks
      = foldl (\<lambda>d m. count_key m d) d (map fst ks)" for d and ks :: "(stored_key \<times> bytes) list"
    by (induction ks arbitrary: d) auto
  then have c: "counts = foldl (\<lambda>d m. count_key m d) (foldl (\<lambda>d p. dict_put p no_keys d) [] ps) ms"
    by (simp add: counts ms_def)
  have dm: "distinct (map key_of ms)" using listed_keys(1) [OF ok keys] by (simp add: ms_def comp_def)
  have kw: "keys_where M P = key_of ` {m \<in> set ms. P m}" for P
    using listed_keys(2) [OF ok keys] unfolding db(4) by (force simp: keys_where_def ms_def)
  have t: "tally ms q = \<lparr>lc_pre_active = int (card (keys_where M (\<lambda>m. k_provider_id m = q \<and> k_state m = PRE_ACTIVE))),
                 lc_active = int (card (keys_where M (\<lambda>m. k_provider_id m = q \<and> k_state m \<noteq> PRE_ACTIVE))),
                 lc_total = int (card (keys_where M (\<lambda>m. k_provider_id m = q)))\<rparr>"
    unfolding tally_def count_card [OF dm] kw ..
  have p: "q \<in> set ps \<longleftrightarrow> (\<exists>p \<in> set provider_ids. uuid_canon (uni env) p = Some q)"
    using mapE_Inr_set [OF ps] mapE_Inr_all [OF ps] by (force simp: validated_uuid_def)
  have h: "q \<in> k_provider_id ` set ms \<longleftrightarrow> keys_where M (\<lambda>m. k_provider_id m = q) \<noteq> {}"
    by (auto simp: kw)
  show ?thesis
    unfolding c map_of_counts map_of_zeroes by (simp add: p [symmetric] h [symmetric] t [symmetric])
qed

theorem lifecycle_counts_correct_witness:
  "\<exists>counts w'. lifecycle_counts demo_env [demo_provider] demo_world = (Inr counts, w')
     \<and> map_of counts demo_provider = Some \<lparr>lc_pre_active = 0, lc_active = 0, lc_total = 0\<rparr>"
proof -
  obtain w1 where v: "verify_store_commitment demo_env demo_db demo_world = (Inr (), w1)"
    and c: "consistent demo_env demo_master demo_kek demo_db demo_world"
  proof -
    obtain db where db: "consistent demo_env demo_master demo_kek db demo_world" using demo_running by (rule runningE)
    then have "db = demo_db" by (auto simp: consistent_def kept_def demo_world_def)
    with db verify_calm [OF demo_env_ok db demo_calm] that show ?thesis by blast
  qed
  have ps: "mapE (\<lambda>p. validated_uuid demo_env p ''provider_id'') [demo_provider] = Inr [demo_provider]"
    by (simp add: validated_uuid_def demo_provider_canon)
  obtain counts w' where l: "lifecycle_counts demo_env [demo_provider] demo_world = (Inr counts, w')"
    unfolding lifecycle_counts_run [OF demo_env_ok c ps v] by (simp add: demo_db_def returnM_def)
  from lifecycle_counts_correct [OF demo_running l, of demo_provider] l show ?thesis
    by (simp add: keys_where_def demo_provider_canon)
qed

subsection \<open>The first start\<close>

definition no_files :: "disk \<Rightarrow> bool" where
  "no_files d \<longleftrightarrow> d_db d = None \<and> d_kek d = None \<and> d_recovery d = None"

lemma first_load:
  assumes "no_files (w_disk w)" and "master_key env sk = Inr master" and "length master = 32"
  shows "load_or_create_kek env sk False w =
     bindM (write_kek_envelope env master (settled (urandom env (w_draw w) 32) 0 []))
       (\<lambda>_. returnM (master, settled (urandom env (w_draw w) 32) 0 [])) (after_draws 1 w)"
  using assms
  by (simp add: no_files_def load_or_create_kek_def recovery_master_def aes_new_def after_draws_def settled_def
      Let_def)

text \<open>
  The rest of the start, once the first envelope is written: the tables, the schema version, the
  first commitment.
\<close>

lemma first_initialize:
  assumes env: "env_ok env" and ml: "length master = 32" and kl: "length kek = 32"
    and s: "w_self w = \<lparr>s_read_only = False, s_master_key = master, s_kek = kek, s_envelope = settled kek 0 []\<rparr>"
    and dn: "d_db (w_disk w) = None" and c: "calm env (w_io w)"
  shows "\<exists>w'. initialize env w = (Inr (), w') \<and> running env master kek Map.empty w'"
proof -
  define w2 where "w2 = w\<lparr>w_io := Suc (w_io w),
      w_disk := (w_disk w)\<lparr>d_db := Some (empty_database\<lparr>schema_ready := True\<rparr>)\<rparr>\<rparr>"
  define e1 where "e1 = settled kek 0 (commitment env demo_db)"
  have e1: "envelope_ok e1" "ints_ok (envelope_payload e1)" "sound kek e1"
    using commitment_text [OF env] kl
    by (simp_all add: e1_def settled_ok payload_ints sound_def int_ok_def digs.simps)
  have run: "initialize env w = bindM (write_envelope env e1) (\<lambda>_. commit env demo_db) w2"
  proof -
    have "initialize env w = bindM (verify_store_commitment env demo_db) (\<lambda>_. commit env demo_db) w2"
      using dn calmD(2) [OF c] s
      by (simp add: initialize_def connect_def create_tables_def commit_def w2_def empty_database_def demo_db_def Let_def)
    moreover have "verify_store_commitment env demo_db w2 = write_envelope env e1 w2"
      by (simp add: verify_store_commitment_def store_commitment_total [OF demo_db_ok] w2_def s Let_def e1_def)
    ultimately show ?thesis by (simp add: bindM_def)
  qed
  have c2: "calm env (w_io w2)" using c by (simp add: calm_def w2_def)
  obtain w3 where w3: "write_envelope env e1 w2 = (Inr (), w3)" "w_io w3 = Suc (w_io w2)"
    using write_envelope_calm [OF env e1(2) _ c2] ml s by (auto simp: w2_def)
  obtain w4 where w4: "commit env demo_db w3 = (Inr (), w4)"
    using calmD(2) [OF calmD(3) [OF c2]] by (simp add: commit_def w3(2))
  obtain w' where x: "write_kek_envelope env master e1 w2 = (Inr (), w')"
    and w': "w3 = w'\<lparr>w_self := (w_self w')\<lparr>s_envelope := e1\<rparr>\<rparr>"
    using w3(1) s by (auto simp: write_envelope_def w2_def bindM_Inr_iff getM_def putM_def)
  note o = write_kek_outcome [OF env e1(1) ml x] and o4 = commit_outcome [OF w4]
  have "consistent env master kek demo_db w4"
    using o o4 w' e1(3) ml demo_db_ok s
    by (auto simp: consistent_def kept_def held_def opened_def covers_def w2_def) (auto simp: e1_def)
  moreover have "keys_open env kek demo_db" "contents env kek demo_db = Map.empty"
    by (auto simp: keys_open_def contents_def demo_db_def)
  ultimately have "running env master kek Map.empty w4" by (rule runningI [OF env])
  then show ?thesis using run w3 w4 by auto
qed

text \<open>
  A first start on an empty directory without faults creates a store that runs with no keys,
  under the master key of the secret and a fresh KEK of 32 bytes.
\<close>

theorem first_start:
  assumes "env_ok env" and "no_files (w_disk w)" and "master_key env sk = Inr master" and "calm env (w_io w)"
  shows "\<exists>w'. init_store env sk False w = (Inr (), w')
     \<and> running env master (urandom env (w_draw w) 32) Map.empty w'"
proof -
  define kek where "kek = urandom env (w_draw w) 32"
  have kl: "length kek = 32" by (simp add: kek_def env_okD(3) [OF assms(1)])
  have ml: "length master = 32"
    using assms(3) env_okD(2) [OF assms(1)] by (auto simp: master_key_def bindE_Inr_iff split: if_splits)
  define e0 where "e0 = settled kek 0 []"
  have e0: "envelope_ok e0" "ints_ok (envelope_payload e0)"
    by (simp_all add: e0_def settled_ok payload_ints kl int_ok_def digs.simps)
  obtain c0 where "envelope_file env master e0 (urandom env (Suc (w_draw w)) 12) = Inr c0"
    using envelope_file_total [OF e0(2) ml] env_okD(3) [OF assms(1)] by blast
  then obtain w1 where w1: "write_kek_envelope env master e0 (after_draws 1 w) = (Inr (), w1)"
    "w_io w1 = Suc (w_io w)"
    using calmD(1) [OF assms(4)] by (simp add: write_kek_envelope_def replace_kek_def after_draws_def)
  note o1 = write_kek_outcome [OF assms(1) e0(1) ml w1(1)]
  have dn: "d_db (w_disk w1) = None" "d_db (w_disk w) = None" "d_kek (w_disk w) = None"
    using o1(2) assms(2) by (auto simp: same_files_def no_files_def)
  define w2 where "w2 = w1\<lparr>w_self := \<lparr>s_read_only = False, s_master_key = master, s_kek = kek, s_envelope = e0\<rparr>\<rparr>"
  have "load_or_create_kek env sk False w = (Inr (master, e0), w1)"
    unfolding first_load [OF assms(2,3) ml] using w1(1) by (simp add: e0_def kek_def returnM_def)
  then have "init_store env sk False w = initialize env w2"
    using dn by (simp add: init_store_def w2_def) (simp add: e0_def)
  moreover have "\<exists>w'. initialize env w2 = (Inr (), w') \<and> running env master kek Map.empty w'"
    by (rule first_initialize [OF assms(1) ml kl])
      (use dn w1(2) calmD(3) [OF assms(4)] in \<open>simp_all add: w2_def e0_def\<close>)
  ultimately show ?thesis by (simp add: kek_def)
qed

definition demo_empty :: world where
  "demo_empty = demo_world\<lparr>w_disk := \<lparr>d_db = None, d_kek = None, d_recovery = None, d_journal = False, d_rollback = False,
       d_trust = None, d_others = [], d_plain = True\<rparr>\<rparr>"

lemma demo_master_key: "master_key demo_env demo_secret = Inr demo_master"
  using demo_master_of by (simp add: master_of_def recovery_master_def demo_world_def bindE_Inr_iff)

theorem first_start_witness:
  "\<exists>w'. init_store demo_env demo_secret False demo_empty = (Inr (), w')"
proof -
  have "no_files (w_disk demo_empty)" by (simp add: no_files_def demo_empty_def)
  from first_start [OF demo_env_ok this demo_master_key demo_calm] show ?thesis by blast
qed

text \<open>
  A first start that loses power after the envelope file is in place and before the database
  file exists leaves a directory that no later start accepts, with whatever secret: it raises
  KeyStoreError and changes nothing.
\<close>

theorem first_start_interrupted:
  assumes "env_ok env" and "no_files (w_disk w)" and "master_key env sk = Inr master"
    and "write_fault_at env (w_io w) = W_LostLate"
  shows "\<exists>w1. init_store env sk False w = (Inl PowerLoss, w1)
     \<and> (\<forall>w2 sk'. w_disk w2 = w_disk w1 \<longrightarrow> init_store env sk' False w2
          = (Inl (KeyStoreError ''KMIP operational store and KEK envelope must exist together.''), w2))"
proof -
  have ml: "length master = 32"
    using assms(3) env_okD(2) [OF assms(1)] by (auto simp: master_key_def bindE_Inr_iff split: if_splits)
  define e0 where "e0 = settled (urandom env (w_draw w) 32) 0 []"
  have "ints_ok (envelope_payload e0)" by (simp add: e0_def payload_ints int_ok_def digs.simps)
  then obtain c0 where c: "envelope_file env master e0 (urandom env (Suc (w_draw w)) 12) = Inr c0"
    using envelope_file_total [OF _ ml] env_okD(3) [OF assms(1)] by blast
  define w1 where "w1 = w\<lparr>w_draw := w_draw w + 3, w_io := Suc (w_io w), w_disk := (w_disk w)\<lparr>d_kek := Some c0\<rparr>\<rparr>"
  have "load_or_create_kek env sk False w = (Inl PowerLoss, w1)"
    unfolding first_load [OF assms(2,3) ml] e0_def [symmetric] using c assms(4)
    by (simp add: write_kek_envelope_def replace_kek_def after_draws_def w1_def eval_nat_numeral bindM_def m_defs)
  then have "init_store env sk False w = (Inl PowerLoss, w1)"
    using assms(2) by (simp add: init_store_def no_files_def)
  moreover have "init_store env sk' False w2
      = (Inl (KeyStoreError ''KMIP operational store and KEK envelope must exist together.''), w2)"
    if "w_disk w2 = w_disk w1" for w2 sk'
    using that assms(2) by (simp add: init_store_def no_files_def w1_def)
  ultimately show ?thesis by blast
qed

definition demo_cut_env :: env where
  "demo_cut_env = demo_env\<lparr>write_fault_at := (\<lambda>i. if i = 0 then W_LostLate else W_Ok)\<rparr>"

theorem first_start_interrupted_witness:
  "\<exists>w1. init_store demo_cut_env demo_secret False demo_empty = (Inl PowerLoss, w1)"
proof -
  have n: "no_files (w_disk demo_empty)" by (simp add: no_files_def demo_empty_def)
  have e: "env_ok demo_cut_env" using demo_env_ok by (simp add: env_ok_def demo_cut_env_def)
  have m: "master_key demo_cut_env demo_secret = Inr demo_master"
  proof -
    have "master_key demo_cut_env = master_key demo_env" by (rule ext) (simp add: master_key_def demo_cut_env_def)
    then show ?thesis by (simp add: demo_master_key)
  qed
  have f: "write_fault_at demo_cut_env (w_io demo_empty) = W_LostLate"
    by (simp add: demo_cut_env_def demo_empty_def demo_world_def)
  from first_start_interrupted [OF e n m f] show ?thesis by blast
qed

end
