(* ===== verification/ProtocolProps.thy ===== *)
theory ProtocolProps
  imports Protocol StoreProps
begin

text \<open>
  The properties of the dispatcher: what a batch does to the map of keys of the store, what a
  response may disclose, and how each item of a request is answered.
\<close>

subsection \<open>One operation in a provider namespace\<close>

text \<open>
  What every step taken for one provider keeps: the store runs on a map that has grown from \<open>M\<close>,
  only in that provider's entries.
\<close>

definition serves :: "env \<Rightarrow> bytes \<Rightarrow> bytes \<Rightarrow> ustr \<Rightarrow> key_map \<Rightarrow> world \<Rightarrow> bool" where
  "serves env master kek p M w \<longleftrightarrow>
     (\<exists>M'. running env master kek M' w \<and> grows M M' \<and> only_provider (uuid_canon (uni env) p) M M')"

lemma running_draw: "running env master kek M w \<Longrightarrow> running env master kek M (w\<lparr>w_draw := n\<rparr>)"
  by (auto simp: running_def consistent_def)

interpretation namespace: world_invariant "serves env master kek p M" for env master kek p M
  by unfold_locales (auto simp: serves_def intro: running_draw)

lemma servesI: "running env master kek M w \<Longrightarrow> serves env master kek p M w"
  by (auto simp: serves_def only_provider_def)

lemma only_provider_trans:
  "only_provider p M M' \<Longrightarrow> only_provider q M' M'' \<Longrightarrow> q = p \<or> q = None \<Longrightarrow> only_provider p M M''"
  by (auto simp: only_provider_def)

lemma exec_serves:
  assumes "acting_provider env c = uuid_canon (uni env) p \<or> acting_provider env c = None"
    and "\<And>w. exec env c w = outcome (f w)"
  shows "keeps (serves env master kek p M) f"
proof (rule keepsI)
  fix w r w' assume "serves env master kek p M w" and f: "f w = (r, w')"
  then obtain M1 where M1: "running env master kek M1 w" "grows M M1" "only_provider (uuid_canon (uni env) p) M M1"
    by (auto simp: serves_def)
  have "exec env c w = (fst (outcome (r, w')), w')" by (simp add: assms(2) f outcome_def)
  from exec_running [OF M1(1) this] obtain M2 where M2: "running env master kek M2 w'" "grows M1 M2"
    "only_provider (acting_provider env c) M1 M2" by blast
  show "serves env master kek p M w'"
    using M2(1) grows_trans [OF M1(2) M2(2)] only_provider_trans [OF M1(3) M2(3) assms(1)] by (auto simp: serves_def)
qed

lemma store_serves:
  "keeps (serves env master kek p M) (create_key env p name attrs)"
  "keeps (serves env master kek p M) (activate_key env p k)"
  "keeps (serves env master kek p M) (get_key env p k)"
  "keeps (serves env master kek p M) (get_metadata env p k)"
  "keeps (serves env master kek p M) (locate_keys env p state n limit)"
  by (rule exec_serves [of env "Create_key p name attrs"], simp_all)
    (rule exec_serves [of env "Activate_key p k"], simp_all,
     rule exec_serves [of env "Get_key p k"], simp_all,
     rule exec_serves [of env "Get_metadata p k"], simp_all,
     rule exec_serves [of env "Locate_keys p state n limit"], simp_all)

lemmas serve_rules = namespace.keeps_rules store_serves

lemma operation_serves: "keeps (serves env master kek p M) (dispatch_operation env p op payload)"
  unfolding dispatch_operation_def op_create_def op_activate_def op_get_def op_get_attributes_def Let_def
    op_get_attribute_list_def op_locate_def
  by (cases op) (simp_all, (intro serve_rules)+)

lemma process_item_serves: "keeps (serves env master kek p M) (process_item env p counts n item)"
  unfolding process_item_def run_item_def answer_failure_def
  by (auto intro!: serve_rules operation_serves split: sum.split)

lemma dispatch_serves: "keeps (serves env master kek p M) (dispatch env p request)"
  unfolding dispatch_def by (intro serve_rules process_item_serves)

subsection \<open>What a node discloses\<close>

text \<open>The byte strings a node holds anywhere under the Key Material tag.\<close>

fun materials :: "ttlv \<Rightarrow> bytes list" where
  "materials (Ttlv t y v) =
     (case v of VTuple cs \<Rightarrow> concat (map materials cs)
      | VBytes b \<Rightarrow> if t = tg KEY_MATERIAL then [b] else []
      | _ \<Rightarrow> [])"

definition owned :: "env \<Rightarrow> ustr \<Rightarrow> key_map \<Rightarrow> bytes set" where
  "owned env p M = {pt. \<exists>pc k m. uuid_canon (uni env) p = Some pc \<and> M (pc, k) = Some (m, pt)}"

lemma owned_grows: "grows M M' \<Longrightarrow> owned env p M \<subseteq> owned env p M'"
  unfolding owned_def grows_def by blast

declare materials.simps [simp del]

lemma materials_builders [simp]:
  "materials (structure_node t cs) = concat (map materials cs)"
  "materials (enumeration t i) = []"
  "materials (integer t i) = []"
  "materials (text_string t s) = []"
  "materials (date_time t i) = []"
  "materials (byte_string t b) = (if t = tg KEY_MATERIAL then [b] else [])"
  by (simp_all add: ttlv_builders materials.simps)

lemma materials_attribute [simp]:
  "materials (attribute_node name (enumeration t i)) = []"
  "materials (attribute_node name (integer t i)) = []"
  "materials (attribute_node name (text_string t s)) = []"
  "materials (attribute_node name (date_time t i)) = []"
  "materials (attribute_node name (structure_node t cs)) = concat (map materials cs)"
  by (simp_all add: attribute_node_def ttlv_builders materials.simps)

lemma metadata_attribute_materials: "metadata_attribute env n m = Inr x \<Longrightarrow> materials x = []"
  unfolding metadata_attribute_def by (auto simp: bindE_Inr_iff split: if_splits option.splits)

lemma version_materials [simp]: "materials (version_node v) = []"
  by (simp add: version_node_def)

lemma concat_Nil: "(\<And>x. x \<in> set xs \<Longrightarrow> f x = []) \<Longrightarrow> concat (map f xs) = []"
  by (induction xs) auto

lemma query_function_materials: "query_function f = Inr xs \<Longrightarrow> x \<in> set xs \<Longrightarrow> materials x = []"
  unfolding query_function_def by (auto split: if_splits)

lemma query_materials: "op_query payload = Inr xs \<Longrightarrow> x \<in> set xs \<Longrightarrow> materials x = []"
  unfolding op_query_def by (auto simp: bindE_Inr_iff) (metis mapE_Inr_set query_function_materials)

lemma discover_materials: "op_discover_versions payload = Inr xs \<Longrightarrow> x \<in> set xs \<Longrightarrow> materials x = []"
  unfolding op_discover_versions_def by (auto simp: bindE_Inr_iff split: if_splits)

lemma attributes_materials:
  "mapE (\<lambda>n. metadata_attribute env n m) ns = Inr xs \<Longrightarrow> x \<in> set xs \<Longrightarrow> materials x = []"
  by (metis (mono_tags, lifting) mapE_Inr_set metadata_attribute_materials)

text \<open>Every operation but Get answers without key material.\<close>

lemma operation_no_materials:
  assumes "dispatch_operation env p op payload w = (Inr xs, w')" and "op \<noteq> GET" and "x \<in> set xs"
  shows "materials x = []"
  using assms
  by (cases op)
    (auto simp: dispatch_operation_def bindM_Inr_iff liftM_def guardM_def returnM_def op_create_def op_activate_def
      op_get_attribute_list_def op_get_attributes_def op_locate_def Let_def
      split: if_splits option.splits intro: query_materials discover_materials attributes_materials)

lemma get_materials:
  assumes "running env master kek M w" and "dispatch_operation env p GET payload w = (Inr xs, w')" and "x \<in> set xs"
  shows "set (materials x) \<subseteq> owned env p M"
proof -
  obtain k m pt where k: "get_key env p k w = (Inr (m, pt), w')"
    and x: "x \<in> {enumeration (tg OBJECT_TYPE) OBJECT_TYPE_SYMMETRIC_KEY,
             text_string (tg UNIQUE_IDENTIFIER) (k_key_id m), key_block pt}"
    using assms(2,3)
    by (auto simp: dispatch_operation_def bindM_Inr_iff liftM_def guardM_def returnM_def op_get_def split: if_splits)
  have "pt \<in> owned env p M"
    using get_key_found [OF assms(1) k] by (auto simp: owned_def key_of_def)
  with x show ?thesis by (auto simp: key_block_def)
qed

lemma operation_discloses:
  assumes "running env master kek M w" and "dispatch_operation env p op payload w = (Inr xs, w')" and "x \<in> set xs"
  shows "set (materials x) \<subseteq> owned env p M"
  using get_materials operation_no_materials assms by (cases "op = GET") fastforce+

lemma failed_batch_materials [simp]: "materials (failed_batch v r m i) = []"
  by (cases i) (simp_all add: failed_batch_def id_node_def)

lemma success_batch_materials [simp]: "materials (success_batch op i xs) = concat (map materials xs)"
  by (cases i) (simp_all add: success_batch_def id_node_def)

text \<open>An item is answered by a failure, or by the success of the operation it names.\<close>

lemma answer_failure_run:
  "answer_failure v i e w = (Inr x, w') \<Longrightarrow> \<exists>r m. batch_failure e = Some (r, m) \<and> x = failed_batch v r m i \<and> w' = w"
  by (auto simp: answer_failure_def returnM_def raiseM_def split: option.splits)

lemma run_item_run:
  assumes "run_item env p counts n item v i w = (Inr x, w')"
  obtains op payload xs where "operation_of v = Some op" "required_child item REQUEST_PAYLOAD = Inr payload"
    "dispatch_operation env p op payload w = (Inr xs, w')" "x = success_batch op i xs"
  using assms unfolding run_item_def
  by (auto simp: bindM_Inr_iff liftM_def guardM_def returnM_def split: if_splits)

lemma process_item_run:
  assumes "process_item env p counts n item w = (Inr x, w')"
  obtains (failed) v r m i where "x = failed_batch v r m i"
  | (succeeded) v i op payload xs where "operation_of v = Some op" "optional_batch_item_id item = Inr i"
      "dispatch_operation env p op payload w = (Inr xs, w')" "x = success_batch op i xs"
proof (cases "ty item \<noteq> STRUCTURE \<or> (\<exists>e. optional_batch_item_id item = Inl e)
    \<or> (\<exists>e. bindE (only_tags item [OPERATION, UNIQUE_BATCH_ITEM_ID, REQUEST_PAYLOAD]) (\<lambda>_.
                bindE (required_child item OPERATION) (\<lambda>n. integer_value n ENUMERATION)) = Inl e)")
  case True
  with assms show ?thesis
    by (auto simp: process_item_def dest!: answer_failure_run intro: failed split: if_splits sum.splits)
next
  case False
  then obtain i v where iv: "optional_batch_item_id item = Inr i"
    "bindE (only_tags item [OPERATION, UNIQUE_BATCH_ITEM_ID, REQUEST_PAYLOAD]) (\<lambda>_.
                bindE (required_child item OPERATION) (\<lambda>n. integer_value n ENUMERATION)) = Inr v"
    by (metis sum.exhaust)
  with False assms have c: "catchM (run_item env p counts n item v i) (answer_failure v i) w = (Inr x, w')"
    by (simp add: process_item_def)
  then show ?thesis
  proof (cases "run_item env p counts n item v i w")
    case (Pair r u)
    show ?thesis
    proof (cases r)
      case (Inl e)
      with c Pair have "answer_failure v i e u = (Inr x, w')" by (simp add: catchM_def)
      then show ?thesis by (auto dest!: answer_failure_run intro: failed)
    next
      case (Inr y)
      with c Pair have "run_item env p counts n item v i w = (Inr x, w')" by (simp add: catchM_def)
      then show ?thesis by (rule run_item_run) (rule succeeded [OF _ iv(1)])
    qed
  qed
qed

lemma process_item_discloses:
  assumes "running env master kek M w" and "process_item env p counts n item w = (Inr x, w')"
  shows "set (materials x) \<subseteq> owned env p M"
  using assms(2)
proof (rule process_item_run)
  fix v i op payload xs
  assume "dispatch_operation env p op payload w = (Inr xs, w')" "x = success_batch op i xs"
  with operation_discloses [OF assms(1)] show ?thesis by fastforce
qed simp

lemma mapM_Inr_Cons:
  "mapM f (x # xs) w = (Inr ys, w'') \<longleftrightarrow>
     (\<exists>y ys' w'. f x w = (Inr y, w') \<and> mapM f xs w' = (Inr ys', w'') \<and> ys = y # ys')"
  by (auto simp: bindM_Inr_iff returnM_def)

lemma batch_discloses:
  assumes "running env master kek M w" and "mapM (process_item env p counts n) items w = (Inr xs, w')"
  shows "\<exists>M'. running env master kek M' w' \<and> grows M M' \<and> only_provider (uuid_canon (uni env) p) M M'
     \<and> (\<forall>x \<in> set xs. set (materials x) \<subseteq> owned env p M')"
  using assms
proof (induction items arbitrary: M w xs)
  case Nil
  then show ?case by (auto simp: returnM_def only_provider_def)
next
  case (Cons item items)
  obtain y ys w1 where y: "process_item env p counts n item w = (Inr y, w1)"
    and ys: "mapM (process_item env p counts n) items w1 = (Inr ys, w')" and xs: "xs = y # ys"
    using Cons.prems(2) unfolding mapM_Inr_Cons by blast
  obtain M1 where M1: "running env master kek M1 w1" "grows M M1" "only_provider (uuid_canon (uni env) p) M M1"
    using keepsD [OF process_item_serves y servesI [OF Cons.prems(1)]] by (auto simp: serves_def)
  obtain M2 where M2: "running env master kek M2 w'" "grows M1 M2" "only_provider (uuid_canon (uni env) p) M1 M2"
    "\<forall>x \<in> set ys. set (materials x) \<subseteq> owned env p M2"
    using Cons.IH [OF M1(1) ys] by blast
  have "set (materials y) \<subseteq> owned env p M2"
    using process_item_discloses [OF Cons.prems(1) y] owned_grows [OF M1(2)] owned_grows [OF M2(2)] by blast
  then show ?case
    using M2 grows_trans [OF M1(2) M2(2)] only_provider_trans [OF M1(3) M2(3)] by (auto simp: xs)
qed

lemma dispatch_run:
  assumes "dispatch env p request w = (Inr resp, w')"
  obtains version items counts responses u where
    "check_request request = Inr (version, items, int (length items))" "batch_id_counts items [] = Inr counts"
    "mapM (process_item env p counts (int (length items))) items w = (Inr responses, u)"
    "resp = response_message version (unix_time env (w_draw u)) responses" "w' = u\<lparr>w_draw := Suc (w_draw u)\<rparr>"
proof -
  obtain version items n where c: "check_request request = Inr (version, items, n)"
    using assms by (cases "check_request request") (auto simp: dispatch_def)
  then have n: "n = int (length items)" by (auto simp: check_request_def bindE_Inr_iff)
  with assms c show thesis
    by (auto simp: dispatch_def bindM_Inr_iff liftM_def drawM_def returnM_def intro: that [OF c [unfolded n]])
qed

lemma dispatch_discloses:
  assumes "running env master kek M w" and "dispatch env p request w = (Inr response, w')"
  shows "\<exists>M'. running env master kek M' w' \<and> grows M M' \<and> only_provider (uuid_canon (uni env) p) M M'
     \<and> set (materials response) \<subseteq> owned env p M'"
  using assms(2)
proof (rule dispatch_run)
  fix version items counts responses u
  assume m: "mapM (process_item env p counts (int (length items))) items w = (Inr responses, u)"
    and r: "response = response_message version (unix_time env (w_draw u)) responses" "w' = u\<lparr>w_draw := Suc (w_draw u)\<rparr>"
  from batch_discloses [OF assms(1) m] obtain M' where M': "running env master kek M' u" "grows M M'"
    "only_provider (uuid_canon (uni env) p) M M'" "\<forall>x \<in> set responses. set (materials x) \<subseteq> owned env p M'" by blast
  then show ?thesis using running_draw [OF M'(1)] by (auto simp: r response_message_def)
qed

subsection \<open>A batch in the store\<close>

text \<open>
  A request acts only in the namespace of the provider it was authenticated for. Whatever the
  message is and whatever fails, the store keeps running on a map of keys in which no entry
  disappeared or changed its material and in which every entry of another provider is as before.
\<close>

theorem dispatch_isolated:
  assumes "running env master kek M w" and "dispatch env p request w = (r, w')"
  shows "\<exists>M'. running env master kek M' w' \<and> grows M M'
     \<and> (\<forall>k. Some (fst k) \<noteq> uuid_canon (uni env) p \<longrightarrow> M' k = M k)"
  using keepsD [OF dispatch_serves assms(2) servesI [OF assms(1)]] unfolding serves_def only_provider_def .

theorem dispatch_isolated_witness:
  "\<exists>M'. running demo_env demo_master demo_kek M'
     (snd (dispatch demo_env demo_provider (integer (tg REQUEST_MESSAGE) 1) demo_world))"
  using dispatch_isolated [OF demo_running, of demo_provider "integer (tg REQUEST_MESSAGE) 1"
      "fst (dispatch demo_env demo_provider (integer (tg REQUEST_MESSAGE) 1) demo_world)"
      "snd (dispatch demo_env demo_provider (integer (tg REQUEST_MESSAGE) 1) demo_world)"] by auto

text \<open>
  C23: no response discloses key material of another provider. Every byte string that the response
  holds under a Key Material tag, at any depth, is the material of a key that the store holds for
  the authenticated provider.
\<close>

theorem dispatch_discloses_own_keys:
  assumes "running env master kek M w" and "dispatch env p request w = (Inr response, w')"
  shows "\<exists>M'. running env master kek M' w' \<and> grows M M' \<and> set (materials response) \<subseteq> owned env p M'"
  using dispatch_discloses [OF assms] by blast

subsection \<open>How the items are answered\<close>

definition requested_id :: "ttlv \<Rightarrow> bytes option" where
  "requested_id item = (case optional_batch_item_id item of Inl e \<Rightarrow> None | Inr i \<Rightarrow> i)"

lemma batch_ids [simp]:
  "optional_batch_item_id (failed_batch v r m i) = Inr i"
  "optional_batch_item_id (success_batch op i xs) = Inr i"
  by (cases i; simp add: optional_batch_item_id_def failed_batch_def success_batch_def id_node_def child_def
      children_tag_def children_def ttlv_builders)+

lemma process_item_id:
  assumes "process_item env p counts n item w = (Inr x, w')"
  shows "tag x = tg BATCH_ITEM \<and> optional_batch_item_id x = Inr (requested_id item)"
proof -
  have f: "tag x = tg BATCH_ITEM \<and> optional_batch_item_id x = Inr i" if "x = failed_batch v r m i" for x v r m i
    by (simp add: that) (simp add: failed_batch_def ttlv_builders)
  have s: "tag x = tg BATCH_ITEM \<and> optional_batch_item_id x = Inr i" if "x = success_batch v i xs" for x v i xs
    by (simp add: that) (simp add: success_batch_def ttlv_builders)
  have "ty item \<noteq> STRUCTURE \<Longrightarrow> requested_id item = None"
    by (simp add: requested_id_def optional_batch_item_id_def child_def children_tag_def children_def)
  with assms f s show ?thesis
    by (auto simp: process_item_def requested_id_def catchM_def dest!: answer_failure_run elim!: run_item_run
        split: if_splits sum.splits prod.splits)
qed

lemma mapM_list_all2:
  assumes "\<And>x w y w'. f x w = (Inr y, w') \<Longrightarrow> P x y"
  shows "mapM f xs w = (Inr ys, w') \<Longrightarrow> list_all2 P xs ys"
  by (induction xs arbitrary: w ys) (auto simp: mapM_Inr_Cons returnM_def simp del: mapM.simps(2) intro: assms)

lemma check_request_bounds:
  "check_request request = Inr (version, items, n) \<Longrightarrow>
     version \<in> set SUPPORTED_PROTOCOL_VERSIONS \<and> n = int (length items) \<and> 1 \<le> length items \<and> length items \<le> 16
     \<and> children_tag request (tg BATCH_ITEM) = Inr items"
  by (auto simp: check_request_def bindE_Inr_iff MAX_BATCH_ITEMS_def)

text \<open>
  C24: every item of an accepted request is answered, in order, under its own Unique Batch Item ID.
  A response has the version of the request, which is a supported one, its Batch Count is the number
  of items, between 1 and 16, and the response item at each position echoes the identifier of the
  request item there.
\<close>

theorem dispatch_answers_every_item:
  assumes "dispatch env p request w = (Inr response, w')"
  shows "\<exists>version items responses seconds.
     check_request request = Inr (version, items, int (length items))
     \<and> version \<in> {(1, 4), (1, 1)} \<and> 1 \<le> length items \<and> length items \<le> 16
     \<and> response = response_message version seconds responses
     \<and> list_all2 (\<lambda>item x. tag x = tg BATCH_ITEM \<and> optional_batch_item_id x = Inr (requested_id item)) items responses"
  using assms
proof (rule dispatch_run)
  fix version items counts responses u
  assume c: "check_request request = Inr (version, items, int (length items))"
    and m: "mapM (process_item env p counts (int (length items))) items w = (Inr responses, u)"
    and r: "response = response_message version (unix_time env (w_draw u)) responses"
  have "list_all2 (\<lambda>item x. tag x = tg BATCH_ITEM \<and> optional_batch_item_id x = Inr (requested_id item)) items responses"
    by (rule mapM_list_all2 [OF _ m]) (rule process_item_id)
  then show ?thesis using c r check_request_bounds [OF c] by (auto simp: SUPPORTED_PROTOCOL_VERSIONS_def)
qed

subsection \<open>Requests with one item\<close>

definition single_request :: "operation \<Rightarrow> ttlv list \<Rightarrow> ttlv" where
  "single_request op payload =
     structure_node (tg REQUEST_MESSAGE)
       [structure_node (tg REQUEST_HEADER) [version_node (1, 4), integer (tg BATCH_COUNT) 1],
        structure_node (tg BATCH_ITEM)
          [enumeration (tg OPERATION) (operation_code op), structure_node (tg REQUEST_PAYLOAD) payload]]"

text \<open>Finding the fields of a node that is built from its children.\<close>

lemma reads_node [simp]:
  "children (structure_node t cs) = Inr cs"
  "children_tag (structure_node t cs) s = Inr (filter (\<lambda>c. tag c = s) cs)"
  "tag (structure_node t cs) = t" "tag (integer t i) = t" "tag (enumeration t i) = t" "tag (text_string t x) = t"
  "tag (byte_string t b) = t" "tag (date_time t i) = t" "tag (version_node v) = tg PROTOCOL_VERSION"
  "ty (structure_node t cs) = STRUCTURE" "ty (version_node v) = STRUCTURE"
  by (simp_all add: children_tag_def children_def ttlv_builders version_node_def)

lemma reads_scalar [simp]:
  "integer_value (integer t i) INTEGER = Inr i"
  "integer_value (enumeration t i) ENUMERATION = Inr i"
  "text_value (text_string t x) = Inr x"
  by (simp_all add: integer_value_def text_value_def node_value_def ttlv_builders)

lemma only_tags_node [simp]:
  "list_all (\<lambda>c. tag c \<in> set (map tg allowed)) cs \<Longrightarrow> only_tags (structure_node t cs) allowed = Inr ()"
  by (simp add: only_tags_def assert_only_tags_def list_all_iff filter_empty_conv)

lemma only_tags_Inr_iff:
  "only_tags node allowed = Inr () \<longleftrightarrow> (\<exists>cs. children node = Inr cs \<and> (\<forall>c \<in> set cs. tag c \<in> tg ` set allowed))"
  by (auto simp: only_tags_def assert_only_tags_def Let_def bindE_Inr_iff filter_empty_conv split: if_splits)

lemma ttlv_as_Inr [simp]: "ttlv_as r m (Inr x) = Inr x"
  by (simp add: ttlv_as_def)

lemma required_child_node [simp]:
  "filter (\<lambda>c. tag c = tg t) cs = [c] \<Longrightarrow> required_child (structure_node s cs) t = Inr c"
  by (simp add: required_child_def child_def)

lemma protocol_version_node [simp]: "protocol_version (version_node v) = Inr v"
  by (cases v) (simp add: protocol_version_def version_node_def)

lemma operation_of_code [simp]: "operation_of (operation_code op) = Some op"
  by (cases op) (simp_all add: operation_of_def all_operations_def)

lemma check_single:
  "check_request (single_request op payload) = Inr ((1, 4),
     [structure_node (tg BATCH_ITEM)
        [enumeration (tg OPERATION) (operation_code op), structure_node (tg REQUEST_PAYLOAD) payload]], 1)"
  by (simp add: check_request_def single_request_def SUPPORTED_PROTOCOL_VERSIONS_def MAX_BATCH_ITEMS_def)

lemma no_batch_id:
  "optional_batch_item_id (structure_node (tg BATCH_ITEM)
     [enumeration (tg OPERATION) i, structure_node (tg REQUEST_PAYLOAD) payload]) = Inr None"
  by (simp add: optional_batch_item_id_def child_def)

definition item_answer :: "operation \<Rightarrow> ttlv list res \<times> world \<Rightarrow> ttlv res \<times> world" where
  "item_answer op rw =
     (case rw of
        (Inr xs, w') \<Rightarrow> (Inr (success_batch op None xs), w')
      | (Inl e, w') \<Rightarrow> (case batch_failure e of
            Some (reason, message) \<Rightarrow> (Inr (failed_batch (operation_code op) reason message None), w')
          | None \<Rightarrow> (Inl e, w')))"

lemma process_single:
  "process_item env p [] 1 (structure_node (tg BATCH_ITEM)
        [enumeration (tg OPERATION) (operation_code op), structure_node (tg REQUEST_PAYLOAD) payload]) w =
     item_answer op (dispatch_operation env p op (structure_node (tg REQUEST_PAYLOAD) payload) w)"
  by (simp add: process_item_def no_batch_id run_item_def catchM_def bindM_def liftM_def guardM_def returnM_def
      raiseM_def item_answer_def answer_failure_def split: sum.split prod.split option.split)

lemma dispatch_single:
  "dispatch env p (single_request op payload) w =
     (case item_answer op (dispatch_operation env p op (structure_node (tg REQUEST_PAYLOAD) payload) w) of
        (Inr x, w') \<Rightarrow> (Inr (response_message (1, 4) (unix_time env (w_draw w')) [x]), w'\<lparr>w_draw := Suc (w_draw w')\<rparr>)
      | (Inl e, w') \<Rightarrow> (Inl e, w'))"
  by (simp add: dispatch_def check_single no_batch_id process_single bindM_def liftM_def drawM_def returnM_def
      split: sum.split prod.split)

lemma get_request_single [simp]:
  "get_request (structure_node t [text_string (tg UNIQUE_IDENTIFIER) u]) =
     (if u = [] then Inl (ProtocolFailure INVALID_FIELD ''Unique Identifier must not be empty.'') else Inr u)"
  by (simp add: get_request_def child_def unique_identifier_def)

lemma get_single:
  "u \<noteq> [] \<Longrightarrow> dispatch_operation env p GET (structure_node t [text_string (tg UNIQUE_IDENTIFIER) u]) =
     bindM (get_key env p u) (\<lambda>(metadata, plaintext).
     bindM (guardM (k_state metadata \<in> {PRE_ACTIVE, ACTIVE})
              (ProtocolFailure INVALID_FIELD ''Only Pre-Active or Active KMIP keys may be retrieved.'')) (\<lambda>_.
       returnM [enumeration (tg OBJECT_TYPE) OBJECT_TYPE_SYMMETRIC_KEY,
                text_string (tg UNIQUE_IDENTIFIER) (k_key_id metadata), key_block plaintext]))"
  by (simp add: dispatch_operation_def op_get_def)

subsection \<open>Create and Get\<close>

text \<open>
  A client that creates a key can fetch it. When a Create request is answered with success and
  no fault follows, the answer names a Unique Identifier for which a Get request of the same provider
  is answered with success, that identifier and a Raw AES key block of 32 bytes.
\<close>

theorem create_get_exchange:
  assumes "running env master kek M w" and "calm env (w_io w)"
    and "dispatch env p (single_request CREATE payload) w
           = (Inr (response_message version s [success_batch CREATE None xs]), w1)"
  shows "\<exists>u pt s' w2. xs = [enumeration (tg OBJECT_TYPE) OBJECT_TYPE_SYMMETRIC_KEY, text_string (tg UNIQUE_IDENTIFIER) u]
     \<and> length pt = 32
     \<and> dispatch env p (single_request GET [text_string (tg UNIQUE_IDENTIFIER) u]) w1
         = (Inr (response_message (1, 4) s' [success_batch GET None
              [enumeration (tg OBJECT_TYPE) OBJECT_TYPE_SYMMETRIC_KEY, text_string (tg UNIQUE_IDENTIFIER) u,
               key_block pt]]), w2)"
proof -
  obtain rw where rw: "rw = dispatch_operation env p CREATE (structure_node (tg REQUEST_PAYLOAD) payload) w" by blast
  have "\<exists>w0. rw = (Inr xs, w0) \<and> w1 = w0\<lparr>w_draw := Suc (w_draw w0)\<rparr>"
    using assms(3) unfolding dispatch_single rw [symmetric]
    by (auto simp: item_answer_def response_message_def success_batch_def failed_batch_def id_node_def ttlv_builders
        split: prod.splits sum.splits option.splits)
  then obtain w0 name attrs m where c: "create_key env p name attrs w = (Inr m, w0)"
    and xs: "xs = [enumeration (tg OBJECT_TYPE) OBJECT_TYPE_SYMMETRIC_KEY, text_string (tg UNIQUE_IDENTIFIER) (k_key_id m)]"
    and w1: "w1 = w0\<lparr>w_draw := Suc (w_draw w0)\<rparr>"
    by (auto simp: rw dispatch_operation_def op_create_def bindM_Inr_iff liftM_def guardM_def returnM_def)
  obtain pt where r: "running env master kek (M(key_of m \<mapsto> (m, pt))) w0" "length pt = 32"
    and k: "uuid_canon (uni env) p = Some (k_provider_id m)" "uuid_canon (uni env) (k_key_id m) = Some (k_key_id m)"
      "k_state m = PRE_ACTIVE"
    using assms(1) c by (rule create_key_running) auto
  have "calm env (w_io w0)" by (rule calm_after [OF assms(2) operations_advance(1) c])
  then have "fst (get_key env p (k_key_id m) w1) = Inr (m, pt)"
    using get_key_running [OF running_draw [OF r(1), of "Suc (w_draw w0)"] _ k(1,2)] by (simp add: w1 key_of_def)
  then obtain w2 where "get_key env p (k_key_id m) w1 = (Inr (m, pt), w2)"
    by (cases "get_key env p (k_key_id m) w1") auto
  then have "dispatch_operation env p GET (structure_node t [text_string (tg UNIQUE_IDENTIFIER) (k_key_id m)]) w1 =
      (Inr [enumeration (tg OBJECT_TYPE) OBJECT_TYPE_SYMMETRIC_KEY,
        text_string (tg UNIQUE_IDENTIFIER) (k_key_id m), key_block pt], w2)" for t
    by (simp add: get_single [OF uuid_canon_nonempty [OF k(2)]] k(3) returnM_def)
  then have "dispatch env p (single_request GET [text_string (tg UNIQUE_IDENTIFIER) (k_key_id m)]) w1 =
      (Inr (response_message (1, 4) (unix_time env (w_draw w2)) [success_batch GET None
         [enumeration (tg OBJECT_TYPE) OBJECT_TYPE_SYMMETRIC_KEY,
          text_string (tg UNIQUE_IDENTIFIER) (k_key_id m), key_block pt]]), w2\<lparr>w_draw := Suc (w_draw w2)\<rparr>)"
    by (simp add: dispatch_single item_answer_def)
  then show ?thesis using r(2) xs by blast
qed

subsection \<open>Duplicate identifiers\<close>

lemma batch_id_counts_map:
  "batch_id_counts items counts = Inr counts' \<Longrightarrow>
     map_of counts' b = (let n = int (length (filter (\<lambda>i. optional_batch_item_id i = Inr (Some b)) items)) in
       case map_of counts b of None \<Rightarrow> if n = 0 then None else Some n | Some m \<Rightarrow> Some (m + n))"
  by (induction items counts rule: batch_id_counts.induct)
    (auto simp: Let_def split: sum.splits option.splits if_splits)

lemma reader_errors:
  "only_tags item ts = Inl e \<Longrightarrow> is_ttlv_error e \<or> e = AssertionError"
  "required_child item t = Inl e \<Longrightarrow> is_protocol_failure e \<or> e = AssertionError"
  "integer_value item y = Inl e \<Longrightarrow> is_protocol_failure e \<or> e = AssertionError"
  by (auto simp: only_tags_def assert_only_tags_def children_def bindE_Inl_iff required_child_def ttlv_as_def catchE_def
      child_def children_tag_def integer_value_def node_value_def Let_def
      split: if_splits ttlv_value.splits sum.splits list.splits option.splits)

lemma item_head_errors:
  assumes "bindE (only_tags item ts) (\<lambda>_. bindE (required_child item OPERATION) (\<lambda>n. integer_value n ENUMERATION)) = Inl e"
  shows "e = AssertionError \<or> (\<exists>r m. batch_failure e = Some (r, m))"
proof -
  have "is_ttlv_error e \<or> is_protocol_failure e \<or> e = AssertionError"
    using assms by (auto simp: bindE_Inl_iff dest: reader_errors)
  then show ?thesis by (cases e) (simp_all add: batch_failure_def)
qed

lemma answer_failure_handled:
  "batch_failure e = Some (r, m) \<Longrightarrow> answer_failure v i e w = (Inr (failed_batch v r m i), w)"
  "answer_failure v i AssertionError w = (Inl AssertionError, w)"
  by (simp_all add: answer_failure_def returnM_def raiseM_def batch_failure_def)

text \<open>
  Items that share a Unique Batch Item ID are not executed. In a batch where an identifier occurs
  more than once, processing an item that carries it leaves the store as it is and answers with a
  failure under that identifier.
\<close>

theorem duplicate_ids_not_executed:
  assumes "batch_id_counts items [] = Inr counts" and "optional_batch_item_id item = Inr (Some b)"
    and "1 < length (filter (\<lambda>i. optional_batch_item_id i = Inr (Some b)) items)"
    and "process_item env p counts n item w = (r, w')"
  shows "w' = w \<and> (r = Inl AssertionError \<or> (\<exists>v reason m. r = Inr (failed_batch v reason m (Some b))))"
proof -
  obtain k where k: "map_of counts b = Some k" "1 < k"
    using batch_id_counts_map [OF assms(1), of b] assms(3)
    by (cases "filter (\<lambda>i. optional_batch_item_id i = Inr (Some b)) items") (auto simp: Let_def)
  have "run_item env p counts n item v (Some b) w =
      (Inl (ProtocolFailure INVALID_MESSAGE ''Unique Batch Item IDs must be unique within the request.''), w)" for v
    using k by (simp add: run_item_def)
  moreover have "ty item = STRUCTURE"
    using assms(2) by (auto simp: optional_batch_item_id_def child_def children_tag_def children_def bindE_Inr_iff split: if_splits)
  ultimately have p: "process_item env p counts n item w =
      (case bindE (only_tags item [OPERATION, UNIQUE_BATCH_ITEM_ID, REQUEST_PAYLOAD]) (\<lambda>_.
                bindE (required_child item OPERATION) (\<lambda>n. integer_value n ENUMERATION)) of
         Inl e \<Rightarrow> answer_failure 0 (Some b) e w
       | Inr v \<Rightarrow> (Inr (failed_batch v INVALID_MESSAGE
           ''Unique Batch Item IDs must be unique within the request.'' (Some b)), w))"
    using assms(2) by (simp add: process_item_def catchM_def answer_failure_def batch_failure_def returnM_def split: sum.split)
  show ?thesis
  proof (cases "bindE (only_tags item [OPERATION, UNIQUE_BATCH_ITEM_ID, REQUEST_PAYLOAD]) (\<lambda>_.
                bindE (required_child item OPERATION) (\<lambda>n. integer_value n ENUMERATION))")
    case (Inl e)
    with p assms(4) have r: "answer_failure 0 (Some b) e w = (r, w')" by simp
    from item_head_errors [OF Inl] show ?thesis
    proof (elim disjE exE)
      assume "e = AssertionError"
      with r show ?thesis by (simp add: answer_failure_handled)
    next
      fix reason m assume "batch_failure e = Some (reason, m)"
      with r have "r = Inr (failed_batch 0 reason m (Some b))" "w' = w" by (simp_all add: answer_failure_handled)
      then show ?thesis by blast
    qed
  next
    case (Inr v)
    then show ?thesis using p assms(4) by auto
  qed
qed

subsection \<open>Attribute lists\<close>

lemma list_all2_mapE:
  assumes "mapE f xs = Inr ys" and "\<And>x y. f x = Inr y \<Longrightarrow> P x y"
  shows "list_all2 P xs ys"
  using assms(1) by (induction xs arbitrary: ys) (auto simp: bindE_Inr_iff intro: assms(2))

lemma metadata_attribute_node: "metadata_attribute env n m = Inr y \<Longrightarrow> \<exists>v. y = attribute_node n v"
  unfolding metadata_attribute_def by (auto simp: bindE_Inr_iff split: if_splits option.splits)

definition standard_names :: "stored_key \<Rightarrow> ustr list" where
  "standard_names m =
     [lit ''Cryptographic Algorithm'', lit ''Cryptographic Length'', lit ''Cryptographic Usage Mask'',
      lit ''Object Type'', lit ''State'', lit ''Unique Identifier'']
     @ (if k_name m \<noteq> None then [lit ''Name''] else [])
     @ (if k_activated_at m \<noteq> None then [lit ''Activation Date''] else [])"

lemma attribute_names_split:
  "attribute_names m = standard_names m @ filter (\<lambda>n. n \<in> fst ` set (k_custom_attributes m)) sorted_custom_names"
  by (simp add: attribute_names_def standard_names_def)

lemma standard_names:
  "distinct (standard_names m)" "set (standard_names m) \<subseteq> fst ` set ATTRIBUTE_TAGS"
  "fst ` set ATTRIBUTE_TAGS \<inter> set VSPHERE_CUSTOM_ATTRIBUTES = {}"
  by (auto simp: standard_names_def ATTRIBUTE_TAGS_def VSPHERE_CUSTOM_ATTRIBUTES_def lit_def split: if_splits)

lemma custom_names:
  "set sorted_custom_names = set VSPHERE_CUSTOM_ATTRIBUTES" "distinct sorted_custom_names"
  by (simp_all add: sorted_custom_names_def) (simp add: VSPHERE_CUSTOM_ATTRIBUTES_def lit_def)

lemma standard_present: "list_all (present_name m) (standard_names m)"
  by (cases "k_name m"; cases "k_activated_at m")
    (simp_all add: standard_names_def present_name_def VSPHERE_CUSTOM_ATTRIBUTES_def)

lemma present_names: "filter (present_name m) (attribute_names m) = attribute_names m"
proof -
  have "present_name m n" if "n \<in> set (attribute_names m)" for n
    using that standard_present [of m] by (auto simp: attribute_names_split list_all_iff present_name_def)
  then show ?thesis by (simp add: filter_id_conv)
qed

lemma attribute_names_valid:
  "distinct (attribute_names m)
   \<and> list_all (\<lambda>n. n \<in> fst ` set ATTRIBUTE_TAGS \<or> n \<in> set VSPHERE_CUSTOM_ATTRIBUTES) (attribute_names m)"
  using standard_names(1,2) [of m] standard_names(3) custom_names unfolding attribute_names_split list_all_iff by auto

lemma custom_attribute_present: "n \<in> fst ` set xs \<Longrightarrow> \<exists>v. map_of (rev xs) n = Some v"
  by (metis (no_types, lifting) domD dom_map_of_conv_image_fst set_rev)

lemma metadata_attribute_total:
  assumes "n \<in> set (attribute_names m)" and "\<And>t. k_activated_at m = Some t \<Longrightarrow> iso_timestamp env t \<noteq> None"
  shows "\<exists>y. metadata_attribute env n m = Inr y"
proof (cases "n \<in> set (standard_names m)")
  case True
  then show ?thesis using assms(2)
    by (auto simp: standard_names_def metadata_attribute_def lit_def split: if_splits)
next
  case False
  with assms(1) have n: "n \<in> fst ` set (k_custom_attributes m)" "n \<in> set VSPHERE_CUSTOM_ATTRIBUTES"
    by (auto simp: attribute_names_split custom_names)
  then have "n \<notin> fst ` set ATTRIBUTE_TAGS" using standard_names(3) by blast
  then show ?thesis using custom_attribute_present [OF n(1)]
    by (auto simp: ATTRIBUTE_TAGS_def metadata_attribute_def)
qed

text \<open>
  Get Attribute List and Get Attributes agree. Where Get Attribute List names the attributes of a
  key, Get Attributes with the same payload, which then requests no attribute by name, returns the same
  identifier and one attribute for each of those names, in the same order, provided the stored
  activation times are ISO timestamps.
\<close>

theorem attribute_list_agrees:
  assumes "running env master kek M w"
    and "\<And>k m pt t. M k = Some (m, pt) \<Longrightarrow> k_activated_at m = Some t \<Longrightarrow> iso_timestamp env t \<noteq> None"
    and "op_get_attribute_list env p payload w = (Inr xs, w')"
  shows "\<exists>u names ys. xs = text_string (tg UNIQUE_IDENTIFIER) u # map (text_string (tg ATTRIBUTE_NAME)) names
     \<and> op_get_attributes env p payload w = (Inr (text_string (tg UNIQUE_IDENTIFIER) u # ys), w')
     \<and> list_all2 (\<lambda>n y. \<exists>v. y = attribute_node n v) names ys"
proof -
  obtain k m where g: "only_tags payload [UNIQUE_IDENTIFIER] = Inr ()" "unique_identifier payload = Inr k"
    "get_metadata env p k w = (Inr m, w')"
    and xs: "xs = text_string (tg UNIQUE_IDENTIFIER) (k_key_id m)
                # map (text_string (tg ATTRIBUTE_NAME)) (attribute_names m)"
    using assms(3) by (auto simp: op_get_attribute_list_def bindM_Inr_iff liftM_def returnM_def ttlv_as_def catchE_def
        split: sum.splits if_splits)
  obtain cs where cs: "children payload = Inr cs" and t: "\<forall>c \<in> set cs. tag c = tg UNIQUE_IDENTIFIER"
    using g(1) by (auto simp: only_tags_Inr_iff)
  have o: "only_tags payload [UNIQUE_IDENTIFIER, ATTRIBUTE_NAME] = Inr ()" "children_tag payload (tg ATTRIBUTE_NAME) = Inr []"
    using t by (auto simp: only_tags_Inr_iff cs children_tag_def filter_empty_conv)
  have "\<exists>y. metadata_attribute env n m = Inr y" if "n \<in> set (attribute_names m)" for n
    by (rule metadata_attribute_total [OF that]) (use get_metadata_found [OF assms(1) g(3)] assms(2) in blast)
  then obtain f where f: "\<And>n. n \<in> set (attribute_names m) \<Longrightarrow> metadata_attribute env n m = Inr (f n)" by metis
  have ys: "mapE (\<lambda>n. metadata_attribute env n m) (attribute_names m) = Inr (map f (attribute_names m))"
    by (rule mapE_total) (rule f)
  have "op_get_attributes env p payload w =
      (Inr (text_string (tg UNIQUE_IDENTIFIER) (k_key_id m) # map f (attribute_names m)), w')"
    by (simp add: op_get_attributes_def o g ys present_names attribute_names_valid Let_def returnM_def)
  moreover have "list_all2 (\<lambda>n y. \<exists>v. y = attribute_node n v) (attribute_names m) (map f (attribute_names m))"
    by (rule list_all2_mapE [OF ys]) (rule metadata_attribute_node)
  ultimately show ?thesis using xs by blast
qed

subsection \<open>What leaves the loop\<close>

lemma mapM_Inl:
  "mapM f xs w = (Inl e, w') \<Longrightarrow> \<exists>x \<in> set xs. \<exists>v. f x v = (Inl e, w')"
  by (induction xs arbitrary: w) (auto simp: returnM_def elim!: bindM_cases)

lemma process_item_escape: "process_item env p counts n item w = (Inl e, w') \<Longrightarrow> batch_failure e = None"
  by (auto simp: process_item_def catchM_def answer_failure_def returnM_def raiseM_def
      split: if_splits sum.splits prod.splits option.splits)

lemma counts_escape: "batch_id_counts items counts = Inl e \<Longrightarrow> batch_failure e = None"
proof (induction items counts rule: batch_id_counts.induct)
  case (2 item items counts)
  have "optional_batch_item_id item = Inl e \<Longrightarrow> \<not> (is_protocol_failure e \<or> is_ttlv_error e) \<Longrightarrow> batch_failure e = None"
    by (auto simp: optional_batch_item_id_def child_def children_tag_def children_def bindE_Inl_iff batch_failure_def
        split: if_splits ttlv_value.splits ttlv_type.splits option.splits list.splits)
  with 2 show ?case by (auto split: sum.splits option.splits if_splits)
qed simp

lemma unanswered_classes: "batch_failure e = None \<Longrightarrow> \<not> is_ttlv_error e \<and> \<not> is_key_store_error e \<and> \<not> is_protocol_failure e"
  by (cases e) (simp_all add: batch_failure_def)

text \<open>
  C26: a request is refused as a whole only for its header, before the store is touched, or, its header
  accepted, for an exception that is neither a TTLV error nor a store error (a missing key, a wrong
  state, a store failure) nor a protocol failure. So those failures never cost the other items of a
  batch their answers.
\<close>

theorem dispatch_refusals:
  assumes "dispatch env p request w = (Inl e, w')"
  shows "(check_request request = Inl e \<and> w' = w)
     \<or> (\<exists>x. check_request request = Inr x) \<and> \<not> is_ttlv_error e \<and> \<not> is_key_store_error e \<and> \<not> is_protocol_failure e"
proof (cases "check_request request")
  case (Inl e')
  with assms show ?thesis by (simp add: dispatch_def)
next
  case (Inr x)
  with assms have "batch_failure e = None"
    by (cases x) (auto simp: dispatch_def liftM_def drawM_def returnM_def elim!: bindM_cases
        dest!: mapM_Inl dest: process_item_escape counts_escape)
  with Inr show ?thesis using unanswered_classes by blast
qed


theorem dispatch_refusals_witness:
  "dispatch demo_env demo_provider (integer (tg REQUEST_MESSAGE) 1) demo_world
     = (Inl (ProtocolFailure INVALID_MESSAGE ''Root TTLV must be Request Message.''), demo_world)
   \<and> check_request (integer (tg REQUEST_MESSAGE) 1) = Inl (ProtocolFailure INVALID_MESSAGE ''Root TTLV must be Request Message.'')"
proof -
  have c: "check_request (integer (tg REQUEST_MESSAGE) 1) =
      Inl (ProtocolFailure INVALID_MESSAGE ''Root TTLV must be Request Message.'')"
    by (simp add: check_request_def ttlv_builders)
  then have "dispatch demo_env demo_provider (integer (tg REQUEST_MESSAGE) 1) demo_world =
      (Inl (ProtocolFailure INVALID_MESSAGE ''Root TTLV must be Request Message.''), demo_world)"
    by (simp add: dispatch_def)
  from this dispatch_refusals [OF this] show ?thesis by simp
qed

text \<open>
  An identifier that is no UUID aborts the whole request. A Get for a Unique Identifier that is
  not a UUID does not get a failed batch item: the ValueError of the store leaves the dispatcher.
\<close>

theorem malformed_identifier_aborts:
  assumes "running env master kek M w" and "calm env (w_io w)" and "uuid_canon (uni env) p = Some pc"
    and "k \<noteq> []" and "uuid_canon (uni env) k = None"
  shows "fst (dispatch env p (single_request GET [text_string (tg UNIQUE_IDENTIFIER) k]) w)
     = Inl (ValueError ''key_id must be a UUID.'')"
proof -
  obtain db where db: "env_ok env" "consistent env master kek db w" "keys_open env kek db"
    using assms(1) by (rule runningE)
  have "fst (get_key env p k w) = Inl (ValueError ''key_id must be a UUID.'')"
    using get_key_calm [OF db(1,2) assms(2), of p k] lookup_contents [OF db(3), of p k] assms(3,5) by auto
  then obtain w1 where "get_key env p k w = (Inl (ValueError ''key_id must be a UUID.''), w1)"
    by (cases "get_key env p k w") auto
  then show ?thesis by (simp add: dispatch_single get_single [OF assms(4)] item_answer_def batch_failure_def)
qed

theorem malformed_identifier_aborts_witness:
  "fst (dispatch demo_env demo_provider (single_request GET [text_string (tg UNIQUE_IDENTIFIER) (lit ''x'')]) demo_world)
     = Inl (ValueError ''key_id must be a UUID.'')"
  by (rule malformed_identifier_aborts [OF demo_running demo_calm demo_provider_canon])
    (simp_all add: uuid_canon_def Let_def replace_all.simps strip_chars_def lit_def)

text \<open>
  Query advertises exactly what the dispatcher runs: the operation codes listed for the Operations
  function are the codes for which an operation is found, each once.
\<close>

theorem query_operations_exact:
  "\<exists>codes. fst (dispatch_operation env p QUERY
        (structure_node t [enumeration (tg QUERY_FUNCTION) QUERY_OPERATIONS]) w) = Inr (map (enumeration (tg OPERATION)) codes)
     \<and> distinct codes \<and> (\<forall>n. n \<in> set codes \<longleftrightarrow> operation_of n \<noteq> None)"
proof (intro exI conjI)
  show "fst (dispatch_operation env p QUERY
        (structure_node t [enumeration (tg QUERY_FUNCTION) QUERY_OPERATIONS]) w)
      = Inr (map (enumeration (tg OPERATION)) (map operation_code all_operations))"
    by (simp add: dispatch_operation_def op_query_def query_function_def liftM_def)
  show "distinct (map operation_code all_operations)" by (simp add: all_operations_def)
  show "\<forall>n. n \<in> set (map operation_code all_operations) \<longleftrightarrow> operation_of n \<noteq> None"
    by (auto simp: operation_of_def find_None_iff)
qed

subsection \<open>A concrete exchange\<close>

definition demo_payload :: "ttlv list" where
  "demo_payload =
     [enumeration (tg OBJECT_TYPE) OBJECT_TYPE_SYMMETRIC_KEY,
      structure_node (tg TEMPLATE_ATTRIBUTE)
        [attribute_node (lit ''Cryptographic Algorithm'') (enumeration (tg ATTRIBUTE_VALUE) CRYPTOGRAPHIC_ALGORITHM_AES),
         attribute_node (lit ''Cryptographic Length'') (integer (tg ATTRIBUTE_VALUE) 256),
         attribute_node (lit ''Name'') (structure_node (tg ATTRIBUTE_VALUE)
           [text_string (tg NAME_VALUE) (lit ''vm-1''),
            enumeration (tg NAME_TYPE) NAME_TYPE_UNINTERPRETED_TEXT_STRING])]]"

lemma tag_attribute_node [simp]: "tag (attribute_node n v) = tg ATTRIBUTE" "ty (attribute_node n v) = STRUCTURE"
  by (simp_all add: attribute_node_def)

lemma attribute_node_values [simp]:
  "attribute_node n (enumeration t i) = structure_node (tg ATTRIBUTE) [text_string (tg ATTRIBUTE_NAME) n, enumeration (tg ATTRIBUTE_VALUE) i]"
  "attribute_node n (integer t i) = structure_node (tg ATTRIBUTE) [text_string (tg ATTRIBUTE_NAME) n, integer (tg ATTRIBUTE_VALUE) i]"
  "attribute_node n (structure_node t cs) = structure_node (tg ATTRIBUTE) [text_string (tg ATTRIBUTE_NAME) n, structure_node (tg ATTRIBUTE_VALUE) cs]"
  by (simp_all add: attribute_node_def ttlv_builders)

lemma demo_create_request:
  "create_request (structure_node t demo_payload) = Inr (Some (lit ''vm-1''), [])"
  by (simp add: create_request_def demo_payload_def parse_template_attributes_def parse_attribute_value_def
      parse_name_def attribute_or_def name_attribute_def custom_attributes_of_def concat_Nil custom_names
      VSPHERE_CUSTOM_ATTRIBUTES_def NAME_TYPE_UNINTERPRETED_TEXT_STRING_def)

definition demo_result :: "ttlv list" where
  "demo_result = [enumeration (tg OBJECT_TYPE) OBJECT_TYPE_SYMMETRIC_KEY,
     text_string (tg UNIQUE_IDENTIFIER) (k_key_id demo_key)]"

lemma demo_dispatch_create:
  "dispatch demo_env demo_provider (single_request CREATE demo_payload) demo_world =
     (Inr (response_message (1, 4) 1767225600 [success_batch CREATE None demo_result]),
      demo_world1\<lparr>w_draw := Suc (w_draw demo_world1)\<rparr>)"
proof -
  have "dispatch_operation demo_env demo_provider CREATE (structure_node t demo_payload) demo_world =
      (Inr demo_result, demo_world1)" for t
    by (simp add: dispatch_operation_def op_create_def demo_create_request demo_create returnM_def demo_result_def)
  then show ?thesis by (simp add: dispatch_single item_answer_def) (simp add: demo_env_def)
qed

theorem create_get_exchange_witness:
  "\<exists>u pt s' w2. demo_result = [enumeration (tg OBJECT_TYPE) OBJECT_TYPE_SYMMETRIC_KEY, text_string (tg UNIQUE_IDENTIFIER) u]
     \<and> length pt = 32
     \<and> dispatch demo_env demo_provider (single_request GET [text_string (tg UNIQUE_IDENTIFIER) u])
           (demo_world1\<lparr>w_draw := Suc (w_draw demo_world1)\<rparr>)
         = (Inr (response_message (1, 4) s' [success_batch GET None
              [enumeration (tg OBJECT_TYPE) OBJECT_TYPE_SYMMETRIC_KEY, text_string (tg UNIQUE_IDENTIFIER) u,
               key_block pt]]), w2)"
  by (rule create_get_exchange [OF demo_running demo_calm demo_dispatch_create])

theorem dispatch_discloses_own_keys_witness:
  "\<exists>M' w'. running demo_env demo_master demo_kek M' w'
     \<and> set (materials (response_message (1, 4) 1767225600 [success_batch CREATE None demo_result]))
         \<subseteq> owned demo_env demo_provider M'"
  using dispatch_discloses_own_keys [OF demo_running demo_dispatch_create] by blast

theorem dispatch_answers_every_item_witness:
  "\<exists>version items. check_request (single_request CREATE demo_payload) = Inr (version, items, int (length items))
     \<and> version \<in> {(1, 4), (1, 1)} \<and> 1 \<le> length items"
  using dispatch_answers_every_item [OF demo_dispatch_create] by blast

definition demo_item :: ttlv where
  "demo_item = structure_node (tg BATCH_ITEM) [enumeration (tg OPERATION) (operation_code QUERY),
     byte_string (tg UNIQUE_BATCH_ITEM_ID) [1]]"

lemma demo_item_id: "optional_batch_item_id demo_item = Inr (Some [1])"
  by (simp add: optional_batch_item_id_def child_def demo_item_def) (simp add: byte_string_def)

theorem duplicate_ids_not_executed_witness:
  "snd (process_item demo_env demo_provider [([1], 2)] 2 demo_item demo_world) = demo_world"
proof -
  have "batch_id_counts [demo_item, demo_item] [] = Inr [([1], 2)]" by (simp add: demo_item_id)
  from duplicate_ids_not_executed [OF this demo_item_id, of demo_env demo_provider 2 demo_world
      "fst (process_item demo_env demo_provider [([1], 2)] 2 demo_item demo_world)"
      "snd (process_item demo_env demo_provider [([1], 2)] 2 demo_item demo_world)"]
  show ?thesis by (simp add: demo_item_id)
qed

theorem attribute_list_agrees_witness:
  "\<exists>u names ys w'. op_get_attributes demo_env demo_provider
       (structure_node (tg REQUEST_PAYLOAD) [text_string (tg UNIQUE_IDENTIFIER) (k_key_id demo_key)]) demo_world1
       = (Inr (text_string (tg UNIQUE_IDENTIFIER) u # ys), w')
     \<and> list_all2 (\<lambda>n y. \<exists>v. y = attribute_node n v) names ys"
proof -
  obtain pt where r: "running demo_env demo_master demo_kek [key_of demo_key \<mapsto> (demo_key, pt)] demo_world1"
    and p: "k_provider_id demo_key = demo_provider" using demo_running1 by blast
  have "fst (get_key demo_env demo_provider (k_key_id demo_key) demo_world1) = Inr (demo_key, pt)"
    using get_key_running [OF r demo_calm demo_provider_canon demo_key_canon] by (simp add: key_of_def p)
  then obtain w' where "get_metadata demo_env demo_provider (k_key_id demo_key) demo_world1 = (Inr demo_key, w')"
    by (auto simp: get_metadata_def get_key_def bindM_def returnM_def split: prod.splits sum.splits)
  then have l: "op_get_attribute_list demo_env demo_provider
      (structure_node (tg REQUEST_PAYLOAD) [text_string (tg UNIQUE_IDENTIFIER) (k_key_id demo_key)]) demo_world1 =
      (Inr (text_string (tg UNIQUE_IDENTIFIER) (k_key_id demo_key)
          # map (text_string (tg ATTRIBUTE_NAME)) (attribute_names demo_key)), w')"
    using uuid_canon_nonempty [OF demo_key_canon]
    by (simp add: op_get_attribute_list_def unique_identifier_def returnM_def)
  from attribute_list_agrees [OF r _ l] show ?thesis by (auto simp: demo_env_def)
qed

end
