(* ===== verification/ConfigProps.thy ===== *)
theory ConfigProps
  imports Config StoreProps
begin

text \<open>
  The properties of the configuration: the bounds an accepted document obeys, that parsing fails only
  with \<open>ConfigurationError\<close> or what loading a certificate raises, and that the certificate map authorizes exactly the listed fingerprints.
\<close>

lemma exact_fields_Inr: "exact_fields d fs l = Inr () \<longleftrightarrow> set (map fst d) = set fs"
  by (auto simp: exact_fields_def Let_def sorted_diff_Nil)

lemma exact_fields_run:
  "list_all (\<lambda>x. x \<in> set fs) (map fst d) \<Longrightarrow> list_all (\<lambda>x. x \<in> fst ` set d) fs \<Longrightarrow> exact_fields d fs l = Inr ()"
  by (auto simp: exact_fields_Inr list_all_iff)

lemma exact_fields_Inl: "exact_fields d fs l = Inl e \<Longrightarrow> \<exists>m. e = ConfigurationError m"
  by (auto simp: exact_fields_def Let_def split: if_splits)

lemma lookup_field_total:
  assumes "set (map fst d) = set fs" and "lit n \<in> set fs"
  shows "\<exists>v. lookup_field d n = Inr v \<and> map_of d (lit n) = Some v"
  using assms by (auto simp: lookup_field_def or_raise_def domIff dom_map_of_conv_image_fst [symmetric] split: option.splits)

text \<open>Computations that fail with a configuration error only, or with what loading a certificate raises and
  the code does not catch.\<close>

definition config_only :: "(ustr \<Rightarrow> bytes res) \<Rightarrow> 'a res \<Rightarrow> bool" where
  "config_only cd r \<longleftrightarrow> (\<forall>e. r = Inl e \<longrightarrow> (\<exists>m. e = ConfigurationError m)
     \<or> (\<exists>path. cd path = Inl e \<and> e \<noteq> OSError \<and> \<not> is_value_error e))"

lemma config_only_intros [intro!]:
  "config_only cd (Inr x)"
  "config_only cd (Inl (config_error s))"
  "config_only cd (guardE b (config_error s))"
  "config_only cd (or_raise (config_error s) y)"
  by (auto simp: config_only_def config_error_def)

lemma config_only_bind: "config_only cd m \<Longrightarrow> (\<And>x. m = Inr x \<Longrightarrow> config_only cd (f x)) \<Longrightarrow> config_only cd (bindE m f)"
  by (cases m) (auto simp: config_only_def)

lemma config_only_map: "(\<And>x. x \<in> set xs \<Longrightarrow> config_only cd (f x)) \<Longrightarrow> config_only cd (mapE f xs)"
  by (induction xs) (auto intro!: config_only_bind)

lemma config_only_exact: "config_only cd (exact_fields d fs l)"
  by (auto simp: config_only_def dest: exact_fields_Inl)

lemma config_only_lookup: "set (map fst d) = set fs \<Longrightarrow> lit n \<in> set fs \<Longrightarrow> config_only cd (lookup_field d n)"
  using lookup_field_total by (fastforce simp: config_only_def)

lemma config_only_readers:
  "config_only cd (path_value v l)" "config_only cd (config_integer v l)" "config_only cd (fingerprint py v)"
  "config_only cd (certificate_sha256 env cd p)" "config_only cd (parse_address v)" "config_only cd (as_object (config_error s) v)"
  by (auto simp: path_value_def config_integer_def fingerprint_def certificate_sha256_def parse_address_def as_object_def
      Let_def config_only_def config_error_def bindE_Inl_iff bindE_Inr_iff catchE_Inr_iff catchE_Inl_iff split: json.splits if_splits option.splits)

lemmas config_rules = config_only_bind config_only_map config_only_exact config_only_readers

lemma config_only_provider: "config_only cd (parse_provider py env cd v)"
proof (cases v)
  case (JObj d)
  show ?thesis unfolding parse_provider_def JObj json.case
  proof (rule config_only_bind [OF config_only_exact], goal_cases)
    case (1 u)
    then have d: "set (map fst d) = set PROVIDER_FIELDS" by (simp add: exact_fields_Inr)
    have l: "config_only cd (lookup_field d n)" if "n \<in> {''id'', ''name'', ''client_fingerprints'', ''client_certificate_paths''}" for n
      by (rule config_only_lookup [OF d]) (use that in \<open>auto simp: PROVIDER_FIELDS_def\<close>)
    show ?case by (auto intro!: config_rules l simp: provider_fingerprints_def split: json.split)
  qed
qed (auto simp: parse_provider_def)

lemma config_only_providers: "config_only cd (parse_providers py env cd v)"
  by (cases v) (auto simp: parse_providers_def intro!: config_rules config_only_provider)

lemma config_only_addresses: "config_only cd (parse_addresses v)"
  by (cases v) (auto simp: parse_addresses_def intro!: config_rules)

definition LIMIT_FIELDS :: "ustr list" where
  "LIMIT_FIELDS = map lit [''max_request_bytes'', ''max_connections'', ''idle_timeout_seconds'', ''max_requests_per_connection'']"

lemma config_only_limits:
  assumes "set (map fst d) = set LIMIT_FIELDS"
  shows "config_only cd (parse_limits d)"
proof -
  have l: "config_only cd (lookup_field d n)"
    if "n \<in> {''max_request_bytes'', ''max_connections'', ''idle_timeout_seconds'', ''max_requests_per_connection''}" for n
    by (rule config_only_lookup [OF assms]) (use that in \<open>auto simp: LIMIT_FIELDS_def\<close>)
  show ?thesis by (auto simp: parse_limits_def intro!: config_rules l)
qed

lemma config_only_sections:
  assumes "set (map fst document) = set CONFIG_FIELDS"
  shows "config_only cd (parse_sections document)"
proof -
  have l: "config_only cd (lookup_field document n)" if "n \<in> {''listen'', ''tls'', ''store'', ''limits''}" for n
    by (rule config_only_lookup [OF assms]) (use that in \<open>auto simp: CONFIG_FIELDS_def\<close>)
  show ?thesis by (auto simp: parse_sections_def Let_def intro!: config_rules l)
qed

lemma parse_sections_Inr:
  "parse_sections document = Inr (listen, tls, store, limits) \<Longrightarrow>
     set (map fst listen) = set (map lit [''addresses'', ''port'']) \<and>
     set (map fst tls) = set (map lit [''certificate_path'', ''private_key_path'', ''ca_path'']) \<and>
     set (map fst store) = set (map lit [''database_path'', ''kek_path'']) \<and> set (map fst limits) = set LIMIT_FIELDS"
  by (auto simp: parse_sections_def Let_def bindE_Inr_iff exact_fields_Inr LIMIT_FIELDS_def)

text \<open>
  C38: parsing a configuration either accepts it or raises \<open>ConfigurationError\<close>: no document, whatever
  its shape, makes it fail in another way, but for an exception that loading a certificate file raises and that is
  neither an \<open>OSError\<close> nor a \<open>ValueError\<close>, which passes through.
\<close>

theorem parse_config_fails_closed:
  "(\<exists>config. parse_config py env cert_der v = Inr config) \<or> (\<exists>m. parse_config py env cert_der v = Inl (ConfigurationError m))
   \<or> (\<exists>e path. parse_config py env cert_der v = Inl e \<and> cert_der path = Inl e \<and> e \<noteq> OSError \<and> \<not> is_value_error e)"
proof -
  have "config_only cert_der (parse_config py env cert_der v)"
    unfolding parse_config_def
  proof (rule config_only_bind [OF config_only_readers(6)], rule config_only_bind [OF config_only_exact], goal_cases)
    case (1 document u)
    then have d: "set (map fst document) = set CONFIG_FIELDS" by (simp add: exact_fields_Inr)
    have l: "config_only cert_der (lookup_field document n)"
      if "n \<in> {''schema_version'', ''enabled'', ''providers'', ''interop_trace_path''}" for n
      by (rule config_only_lookup [OF d]) (use that in \<open>auto simp: CONFIG_FIELDS_def\<close>)
    show ?case
      by (auto intro!: config_rules l config_only_sections [OF d] config_only_addresses config_only_providers
          config_only_limits config_only_lookup dest!: parse_sections_Inr split: json.split)
  qed
  then show ?thesis by (cases "parse_config py env cert_der v") (auto simp: config_only_def)
qed

subsection \<open>What an accepted configuration guarantees\<close>

definition is_digest :: "ustr \<Rightarrow> bool" where
  "is_digest s \<longleftrightarrow> length s = 64 \<and> set s \<subseteq> set HEX_DIGITS"

lemma fingerprint_digest: "fingerprint py v = Inr s \<Longrightarrow> is_digest s"
  by (auto simp: fingerprint_def Let_def is_digest_def list_ex_iff split: json.splits if_splits)

lemma HEX_DIGITS_set: "set HEX_DIGITS = {48..57} \<union> {97..102}"
proof -
  have e: "HEX_DIGITS = [48..<58] @ [97..<103]" by (simp add: HEX_DIGITS_def lit_def upt_rec)
  show ?thesis unfolding e set_append set_upt by auto
qed

lemma hex_of_bytes_digits: "set (hex_of_bytes bs) \<subseteq> set HEX_DIGITS"
proof
  fix x assume "x \<in> set (hex_of_bytes bs)"
  then have "\<exists>b :: byte. x = hex_code (unat b div 16) \<or> x = hex_code (unat b mod 16)"
    by (simp add: hex_of_bytes_def) blast
  then have "\<exists>d < 16. x = hex_code d" using unat_nibbles by blast
  then show "x \<in> set HEX_DIGITS" using hex_code_range by (auto simp: HEX_DIGITS_set)
qed

lemma certificate_digest: "env_ok env \<Longrightarrow> certificate_sha256 env cd p = Inr s \<Longrightarrow> is_digest s"
proof -
  assume env: "env_ok env" and "certificate_sha256 env cd p = Inr s"
  then obtain der where s: "s = hex_of_bytes (sha256 env der)" by (auto simp: certificate_sha256_def bindE_Inr_iff)
  then show ?thesis using hex_of_bytes_length env_okD(2) [OF env] hex_of_bytes_digits by (auto simp: is_digest_def s)
qed

definition provider_ok :: "env \<Rightarrow> provider \<Rightarrow> bool" where
  "provider_ok env p \<longleftrightarrow> uuid_canon (uni env) (p_id p) = Some (p_id p) \<and> 1 \<le> length (p_name p) \<and> length (p_name p) \<le> 120
     \<and> p_client_fingerprints p \<noteq> [] \<and> distinct (p_client_fingerprints p) \<and> sorted (p_client_fingerprints p)
     \<and> list_all is_digest (p_client_fingerprints p)"

lemma provider_fingerprints_digest:
  "env_ok env \<Longrightarrow> provider_fingerprints py env cd xs ys = Inr fs \<Longrightarrow> list_all is_digest fs"
  by (auto simp: provider_fingerprints_def bindE_Inr_iff list_all_iff dest!: mapE_Inr_set
      dest: fingerprint_digest certificate_digest)

lemma parse_provider_ok:
  assumes "env_ok env" and "parse_provider py env cd v = Inr p"
  shows "provider_ok env p"
  using assms(2) provider_fingerprints_digest [OF assms(1)]
  by (cases v) (auto simp: parse_provider_def provider_ok_def list_all_iff Suc_le_eq uuid_canon_idem
      elim!: bindE_InrE split: json.splits)

lemma parse_providers_ok:
  assumes "parse_providers py env cd v = Inr ps"
  shows "distinct (map p_id ps) \<and> distinct (concat (map p_client_fingerprints ps)) \<and> (env_ok env \<longrightarrow> list_all (provider_ok env) ps)"
  using assms
  by (auto simp: parse_providers_def bindE_Inr_iff list_all_iff dest: mapE_Inr_set intro: parse_provider_ok split: json.splits)

lemma parse_addresses_ok: "parse_addresses v = Inr xs \<Longrightarrow> xs \<noteq> [] \<and> length xs \<le> 32 \<and> distinct xs"
  by (auto simp: parse_addresses_def bindE_Inr_iff dest: mapE_Inr_length split: json.splits if_splits)

definition limits_ok :: "service_limits \<Rightarrow> bool" where
  "limits_ok l \<longleftrightarrow> 1024 \<le> max_request_bytes l \<and> max_request_bytes l \<le> int MAX_MESSAGE_BYTES
     \<and> 1 \<le> max_connections l \<and> max_connections l \<le> 256 \<and> 1 \<le> idle_timeout_seconds l \<and> idle_timeout_seconds l \<le> 300
     \<and> 1 \<le> max_requests_per_connection l \<and> max_requests_per_connection l \<le> 1024"

lemma parse_limits_ok: "parse_limits d = Inr l \<Longrightarrow> limits_ok l"
  by (auto simp: parse_limits_def bindE_Inr_iff limits_ok_def MAX_MESSAGE_BYTES_def)

lemma posix_path_absolute: "is_absolute s \<Longrightarrow> is_absolute (posix_path s)"
  by (auto simp: is_absolute_def posix_path_def Let_def)

lemma path_value_absolute: "path_value v l = Inr p \<Longrightarrow> is_absolute p"
  by (auto simp: path_value_def intro: posix_path_absolute split: json.splits if_splits)

lemma parse_config_Inr:
  assumes "parse_config py env cd v = Inr c"
  obtains ps as ls where "parse_providers py env cd ps = Inr (c_providers c)"
    "parse_addresses as = Inr (c_listen_addresses c)" "parse_limits ls = Inr (c_limits c)"
    "1 \<le> c_port c" "c_port c \<le> 65535"
    "list_all is_absolute [c_certificate_path c, c_private_key_path c, c_ca_path c, c_database_path c, c_kek_path c]"
    "\<forall>p. c_interop_trace_path c = Some p \<longrightarrow> is_absolute p"
  using assms unfolding parse_config_def
  by (auto simp: bindE_Inr_iff split: if_splits dest!: path_value_absolute)

text \<open>
  C39: an accepted configuration is within its bounds: 1 to 32 distinct addresses, a TCP port, absolute
  paths, a request limit no larger than a TTLV message, connection, timeout and request limits in their
  ranges, and providers with distinct canonical UUIDs, a name of 1 to 120 characters and at least one
  client fingerprint, each a lower-case SHA-256 digest.
\<close>

theorem parse_config_bounds:
  assumes "env_ok env" and "parse_config py env cert_der v = Inr c"
  shows "1 \<le> c_port c \<and> c_port c \<le> 65535
     \<and> c_listen_addresses c \<noteq> [] \<and> length (c_listen_addresses c) \<le> 32 \<and> distinct (c_listen_addresses c)
     \<and> list_all is_absolute [c_certificate_path c, c_private_key_path c, c_ca_path c, c_database_path c, c_kek_path c]
     \<and> limits_ok (c_limits c) \<and> distinct (map p_id (c_providers c)) \<and> list_all (provider_ok env) (c_providers c)"
  using assms(2)
proof (rule parse_config_Inr)
  fix ps as ls
  assume "parse_providers py env cert_der ps = Inr (c_providers c)" "parse_addresses as = Inr (c_listen_addresses c)"
    "parse_limits ls = Inr (c_limits c)" "1 \<le> c_port c" "c_port c \<le> 65535"
    "list_all is_absolute [c_certificate_path c, c_private_key_path c, c_ca_path c, c_database_path c, c_kek_path c]"
  then show ?thesis
    using parse_providers_ok [of py env cert_der ps] parse_addresses_ok [of as] parse_limits_ok [of ls] assms(1) by blast
qed

lemma fold_dict_put: "map_of (foldl (\<lambda>d (f, i). dict_put f i d) d xs) = map_of (rev xs @ d)"
proof (induction xs arbitrary: d)
  case (Cons x xs)
  then show ?case by (cases x) (simp add: map_add_def fun_eq_iff split: option.split)
qed simp

lemma map_of_rev_distinct: "distinct (map fst xs) \<Longrightarrow> map_of (rev xs) k = Some v \<longleftrightarrow> (k, v) \<in> set xs"
  by (metis distinct_rev map_of_eq_Some_iff rev_map set_rev)

lemma fingerprint_providers_iff:
  assumes "distinct (concat (map p_client_fingerprints (c_providers c)))"
  shows "map_of (fingerprint_providers c) f = Some i \<longleftrightarrow>
     (\<exists>p \<in> set (c_providers c). p_id p = i \<and> f \<in> set (p_client_fingerprints p))"
proof -
  define xs where "xs = concat (map (\<lambda>p. map (\<lambda>f. (f, p_id p)) (p_client_fingerprints p)) (c_providers c))"
  have "map fst xs = concat (map p_client_fingerprints (c_providers c))"
    by (simp add: xs_def map_concat comp_def)
  then have "map_of (rev xs) f = Some i \<longleftrightarrow> (f, i) \<in> set xs" using assms by (metis map_of_rev_distinct)
  then show ?thesis
    unfolding fingerprint_providers_def xs_def [symmetric] fold_dict_put by (auto simp: xs_def)
qed

text \<open>
  An accepted configuration authorizes exactly the clients it lists: a certificate fingerprint maps to
  a provider id if and only if a provider with that id lists it, so a fingerprint opens at most one
  provider namespace, and an unlisted one opens none.
\<close>

theorem certificate_map_exact:
  assumes "parse_config py env cert_der v = Inr c"
  shows "map_of (fingerprint_providers c) f = Some i \<longleftrightarrow>
     (\<exists>p \<in> set (c_providers c). p_id p = i \<and> f \<in> set (p_client_fingerprints p))"
proof -
  have "distinct (concat (map p_client_fingerprints (c_providers c)))"
    using assms by (rule parse_config_Inr) (auto dest: parse_providers_ok)
  then show ?thesis by (rule fingerprint_providers_iff)
qed

subsection \<open>A concrete configuration\<close>

definition demo_py :: py where
  "demo_py = \<lparr>py_fold = (\<lambda>c. [c]), py_alnum = (\<lambda>c. False), py_repr = (\<lambda>s. s), py_str_other = (\<lambda>v. []),
     py_float_json = (\<lambda>t. t), py_float_int = (\<lambda>t. None), py_json_failure = (\<lambda>t. JSONDecodeError [])\<rparr>"

definition demo_certificate :: "ustr \<Rightarrow> bytes res" where
  "demo_certificate path = (if path = lit ''/c'' then Inr [0] else Inl OSError)"

definition demo_provider_document :: json where
  "demo_provider_document = JObj
     [(lit ''client_certificate_paths'', JArr [JText ''/c'']), (lit ''client_fingerprints'', JArr []),
      (lit ''id'', JStr demo_provider), (lit ''name'', JText ''vc'')]"

definition demo_document :: json where
  "demo_document = JObj
     [(lit ''enabled'', JBool True), (lit ''interop_trace_path'', JText ''''),
      (lit ''limits'', JObj [(lit ''idle_timeout_seconds'', JInt 30), (lit ''max_connections'', JInt 2),
         (lit ''max_request_bytes'', JInt 4096), (lit ''max_requests_per_connection'', JInt 8)]),
      (lit ''listen'', JObj [(lit ''addresses'', JArr [JText ''0.0.0.0'']), (lit ''port'', JInt 5696)]),
      (lit ''providers'', JArr [demo_provider_document]), (lit ''schema_version'', JInt 1),
      (lit ''store'', JObj [(lit ''database_path'', JText ''/d''), (lit ''kek_path'', JText ''/e'')]),
      (lit ''tls'', JObj [(lit ''ca_path'', JText ''/c''), (lit ''certificate_path'', JText ''/a''),
         (lit ''private_key_path'', JText ''/b'')])]"

definition demo_config_provider :: provider where
  "demo_config_provider = \<lparr>p_id = demo_provider, p_name = lit ''vc'',
     p_client_fingerprints = [hex_of_bytes (sha256 demo_env [0])]\<rparr>"

definition demo_config :: service_config where
  "demo_config = \<lparr>c_enabled = True, c_listen_addresses = [lit ''0.0.0.0''], c_port = 5696, c_certificate_path = lit ''/a'',
     c_private_key_path = lit ''/b'', c_ca_path = lit ''/c'', c_database_path = lit ''/d'', c_kek_path = lit ''/e'',
     c_limits = \<lparr>max_request_bytes = 4096, max_connections = 2, idle_timeout_seconds = 30, max_requests_per_connection = 8\<rparr>,
     c_providers = [demo_config_provider], c_interop_trace_path = None\<rparr>"

lemma lit_Cons: "lit (c # s) = of_char c # lit s"
  by (simp add: lit_def)

lemma demo_paths:
  "c \<in> {CHR ''a'', CHR ''b'', CHR ''c'', CHR ''d'', CHR ''e''} \<Longrightarrow> path_value (JStr (lit [CHR ''/'', c])) l = Inr (lit [CHR ''/'', c])"
  by (auto simp: path_value_def strip_def is_space_def is_absolute_def posix_path_def lit_def)

lemma demo_provider_parsed: "parse_provider demo_py demo_env demo_certificate demo_provider_document = Inr demo_config_provider"
  by (simp add: parse_provider_def demo_provider_document_def exact_fields_run PROVIDER_FIELDS_def lookup_field_def
      demo_provider_canon provider_fingerprints_def demo_paths certificate_sha256_def demo_certificate_def demo_config_provider_def)
    (simp add: strip_def is_space_def lit_def)

lemma demo_address: "parse_address (JText ''0.0.0.0'') = Inr (lit ''0.0.0.0'')"
  by (simp add: parse_address_def strip_def is_space_def lit_def ip_address_def ipv4_value_def ipv4_octet_def is_digit_def
      int_of_digits_def of_digs_def ipv4_text_def pad_digs_def digs.simps int_text_def numeral_3_eq_3)

lemma demo_config_parsed: "parse_config demo_py demo_env demo_certificate demo_document = Inr demo_config"
  by (simp add: parse_config_def demo_document_def as_object_def exact_fields_run CONFIG_FIELDS_def lookup_field_def
      config_integer_def parse_sections_def parse_addresses_def demo_address parse_limits_def parse_providers_def
      demo_provider_parsed demo_paths demo_config_def MAX_MESSAGE_BYTES_def Let_def)
    (simp add: strip_def lit_def demo_config_provider_def)

theorem parse_config_bounds_witness:
  "limits_ok (c_limits demo_config) \<and> list_all (provider_ok demo_env) (c_providers demo_config)"
  using parse_config_bounds [OF demo_env_ok demo_config_parsed] by blast

theorem certificate_map_exact_witness:
  "map_of (fingerprint_providers demo_config) (hex_of_bytes (sha256 demo_env [0])) = Some demo_provider"
  using certificate_map_exact [OF demo_config_parsed, of "hex_of_bytes (sha256 demo_env [0])" demo_provider]
  by (simp add: demo_config_def demo_config_provider_def)

end
