(* ===== verification/TraceProps.thy ===== *)
theory TraceProps
  imports Trace ConfigProps
begin

text \<open>
  The properties of the trace validator: an accepted trace carries only contract metadata, and its
  summary counts every event once.
\<close>

text \<open>The field names a JSON value uses, at any depth.\<close>

fun json_keys :: "json \<Rightarrow> ustr list" where
  "json_keys (JObj d) = map fst d @ concat (map (\<lambda>(k, v). json_keys v) d)"
| "json_keys (JArr xs) = concat (map json_keys xs)"
| "json_keys _ = []"

lemma mapE_unit_iff: "bindE (mapE f xs) (\<lambda>_. Inr ()) = Inr () \<longleftrightarrow> (\<forall>x \<in> set xs. \<exists>y. f x = Inr y)"
  by (induction xs) (auto simp: bindE_Inr_iff)

lemma ball_pair_cong:
  "(\<And>a b. (a, b) \<in> S \<Longrightarrow> A a \<Longrightarrow> P a b \<longleftrightarrow> Q a b) \<Longrightarrow> (\<forall>(a, b) \<in> S. A a \<and> P a b) \<longleftrightarrow> (\<forall>(a, b) \<in> S. A a \<and> Q a b)"
  by blast

lemma json_keys_obj:
  "k \<in> set (json_keys (JObj d)) \<longleftrightarrow> (\<exists>c. (k, c) \<in> set d) \<or> (\<exists>j c. (j, c) \<in> set d \<and> k \<in> set (json_keys c))"
proof -
  have "k \<in> set (map fst d) \<longleftrightarrow> (\<exists>c. (k, c) \<in> set d)" by force
  moreover have "k \<in> set (concat (map (\<lambda>(j, c). json_keys c) d)) \<longleftrightarrow> (\<exists>j c. (j, c) \<in> set d \<and> k \<in> set (json_keys c))"
    by force
  ultimately show ?thesis by simp
qed

lemma reject_secret_fields_iff:
  "reject_secret_fields py location v = Inr () \<longleftrightarrow> (\<forall>k \<in> set (json_keys v). \<not> secret_field py k)"
proof (induction py location v rule: reject_secret_fields.induct)
  case (1 py location v)
  show ?case
  proof (cases v)
    case (JObj d)
    have ih: "reject_secret_fields py (location @ lit ''.'' @ k) c = Inr () \<longleftrightarrow> (\<forall>k \<in> set (json_keys c). \<not> secret_field py k)"
      if "(k, c) \<in> set d" "\<not> secret_field py k" for k c
      by (rule "1.IH"(2) [OF JObj that(1) refl]) (use that(2) in simp)
    have "reject_secret_fields py location v = Inr () \<longleftrightarrow>
        (\<forall>(k, c) \<in> set d. \<not> secret_field py k \<and> reject_secret_fields py (location @ lit ''.'' @ k) c = Inr ())"
      by (subst reject_secret_fields.simps) (simp only: JObj json.case mapE_unit_iff, auto simp: bindE_Inr_iff)
    also have "\<dots> \<longleftrightarrow> (\<forall>(k, c) \<in> set d. \<not> secret_field py k \<and> (\<forall>k \<in> set (json_keys c). \<not> secret_field py k))"
      by (rule ball_pair_cong) (rule ih)
    also have "\<dots> \<longleftrightarrow> (\<forall>k \<in> set (json_keys v). \<not> secret_field py k)"
      unfolding JObj Ball_def json_keys_obj split_paired_All case_prod_conv by blast
    finally show ?thesis .
  next
    case (JArr xs)
    have ih: "reject_secret_fields py (location @ lit ''['' @ int_text (int i) @ lit '']'') c = Inr ()
        \<longleftrightarrow> (\<forall>k \<in> set (json_keys c). \<not> secret_field py k)"
      if "(i, c) \<in> set (zip [0..<length xs] xs)" for i c
      by (rule "1.IH"(1) [OF JArr that refl])
    have z: "set xs = snd ` set (zip [0..<length xs] xs)"
      by (metis length_map length_upt map_snd_zip minus_nat.diff_0 set_map)
    have "reject_secret_fields py location v = Inr () \<longleftrightarrow>
        (\<forall>(i, c) \<in> set (zip [0..<length xs] xs).
           reject_secret_fields py (location @ lit ''['' @ int_text (int i) @ lit '']'') c = Inr ())"
      by (subst reject_secret_fields.simps) (simp only: JArr json.case mapE_unit_iff, auto)
    also have "\<dots> \<longleftrightarrow> (\<forall>(i, c) \<in> set (zip [0..<length xs] xs). \<forall>k \<in> set (json_keys c). \<not> secret_field py k)"
      by (rule ball_cong) (auto simp: ih)
    also have "\<dots> \<longleftrightarrow> (\<forall>k \<in> set (json_keys v). \<not> secret_field py k)" by (fastforce simp: JArr z)
    finally show ?thesis .
  qed (simp_all add: reject_secret_fields.simps)
qed

text \<open>What an accepted event is.\<close>

definition contract_list :: "(ustr \<times> json) list \<Rightarrow> string \<Rightarrow> json set" where
  "contract_list contract field = (case get_field contract field of JArr xs \<Rightarrow> set xs | _ \<Rightarrow> {})"

text \<open>The parameters the contract has for an algorithm.\<close>

definition contract_algorithm :: "(ustr \<times> json) list \<Rightarrow> json \<Rightarrow> (ustr \<times> json) list \<Rightarrow> bool" where
  "contract_algorithm contract algorithm parameters \<longleftrightarrow>
     (\<exists>name algorithms. algorithm = JStr name \<and> get_field contract ''algorithms'' = JObj algorithms
        \<and> map_of algorithms name = Some (JObj parameters))"

definition event_ok :: "py \<Rightarrow> (ustr \<times> json) list \<Rightarrow> (ustr \<times> json) list \<Rightarrow> bool" where
  "event_ok py contract event \<longleftrightarrow>
     set (map fst event) = set REQUIRED_FIELDS
     \<and> (\<forall>k \<in> set (json_keys (JObj event)). \<not> secret_field py k)
     \<and> equals_int py (get_field event ''schema_version'') TRACE_SCHEMA_VERSION
     \<and> list_all (\<lambda>field. nonblank (get_field event field)) TEXT_FIELDS
     \<and> is_digest (py_str py (get_field event ''client_cert_sha256''))
     \<and> is_digest (py_str py (get_field event ''request_digest''))
     \<and> get_field event ''protocol_version'' \<in> contract_list contract ''protocol_versions''
     \<and> get_field event ''operation'' \<in> contract_list contract ''candidate_operations''
     \<and> get_field event ''object_type'' \<in> insert JNull (contract_list contract ''objects'')
     \<and> (if get_field event ''algorithm'' = JNull
        then get_field event ''key_length'' = JNull \<and> get_field event ''key_format_type'' = JNull
          \<and> get_field event ''operation'' \<noteq> JText ''Create''
        else \<exists>parameters. contract_algorithm contract (get_field event ''algorithm'') parameters
          \<and> (\<exists>i. get_field event ''key_length'' = JInt i) \<and> get_field event ''key_length'' \<in> contract_list parameters ''lengths''
          \<and> get_field event ''key_format_type'' \<in> contract_list parameters ''key_format_types'')
     \<and> (\<exists>xs. get_field event ''attribute_names'' = JArr xs \<and> set xs \<subseteq> contract_list contract ''candidate_attributes'')
     \<and> get_field event ''result_status'' \<in> contract_list contract ''result_statuses''
     \<and> get_field event ''result_reason'' \<in> insert JNull (contract_list contract ''result_reasons'')"

lemma lookup_get: "lookup_field d n = Inr v \<Longrightarrow> get_field d n = v"
  by (auto simp: lookup_field_def get_field_def split: option.splits)

lemma contract_names_list: "contract_names contract f = Inr xs \<Longrightarrow> contract_list contract f = set xs"
  by (auto simp: contract_names_def contract_list_def elim!: bindE_InrE dest!: lookup_get split: json.splits)

lemma allowed_ok:
  "allowed contract event line f n m = Inr () \<Longrightarrow> get_field event f \<in> contract_list contract n"
  by (auto simp: allowed_def bindE_Inr_iff dest: lookup_get contract_names_list)

lemma allowed_or_null_ok:
  "allowed_or_null contract event line f n m = Inr () \<Longrightarrow> get_field event f \<in> insert JNull (contract_list contract n)"
  by (auto simp: allowed_or_null_def bindE_Inr_iff dest: lookup_get contract_names_list split: if_splits)

lemma require_sha256_ok: "require_sha256 py v f l = Inr t \<Longrightarrow> is_digest (py_str py v)"
  by (auto simp: require_sha256_def Let_def is_digest_def list_ex_iff split: if_splits)

lemma validate_fields_ok: "validate_fields line event = Inr () \<Longrightarrow> set (map fst event) = set REQUIRED_FIELDS"
  by (auto simp: validate_fields_def Let_def bindE_Inr_iff sorted_diff_Nil)

lemma string_names: "set (concat (map (\<lambda>x. case x of JStr s \<Rightarrow> [s] | _ \<Rightarrow> []) xs)) = {s. JStr s \<in> set xs}"
  by (induction xs) (auto split: json.splits)

lemma validate_attributes_ok:
  assumes "validate_attributes contract line v = Inr ()"
  shows "\<exists>xs. v = JArr xs \<and> set xs \<subseteq> contract_list contract ''candidate_attributes''"
proof -
  obtain xs candidates where v: "v = JArr xs" and t: "list_all (\<lambda>x. case x of JStr s \<Rightarrow> True | _ \<Rightarrow> False) xs"
    and c: "contract_names contract ''candidate_attributes'' = Inr candidates"
    and s: "set (concat (map (\<lambda>x. case x of JStr s \<Rightarrow> [s] | _ \<Rightarrow> []) xs))
        \<subseteq> set (concat (map (\<lambda>x. case x of JStr s \<Rightarrow> [s] | _ \<Rightarrow> []) candidates))"
    using assms by (cases v) (auto simp: validate_attributes_def Let_def bindE_Inr_iff sorted_diff_Nil)
  have "x \<in> set candidates" if "x \<in> set xs" for x
  proof -
    from that t have "case x of JStr s \<Rightarrow> True | _ \<Rightarrow> False" by (auto simp: list_all_iff)
    then obtain u where "x = JStr u" by (cases x) auto
    with that s show ?thesis unfolding string_names by blast
  qed
  then show ?thesis using v contract_names_list [OF c] by blast
qed

lemma validate_algorithm_ok:
  assumes "validate_algorithm contract line operation algorithm key_length key_format_type = Inr ()"
  shows "if algorithm = JNull then key_length = JNull \<and> key_format_type = JNull \<and> operation \<noteq> JText ''Create''
    else \<exists>parameters. contract_algorithm contract algorithm parameters
      \<and> (\<exists>i. key_length = JInt i) \<and> key_length \<in> contract_list parameters ''lengths''
      \<and> key_format_type \<in> contract_list parameters ''key_format_types''"
proof (cases "algorithm = JNull")
  case True
  then show ?thesis using assms by (auto simp: validate_algorithm_def bindE_Inr_iff)
next
  case False
  from assms False obtain table d found parameters lengths formats where p: "lookup_field contract ''algorithms'' = Inr table"
    "(case table of JObj d \<Rightarrow> Inr d | _ \<Rightarrow> Inl TypeError) = Inr d"
    "(case algorithm of JArr xs \<Rightarrow> Inl TypeError | JObj d \<Rightarrow> Inl TypeError
        | JStr s \<Rightarrow> Inr (case map_of d s of Some v \<Rightarrow> v | None \<Rightarrow> JNull) | _ \<Rightarrow> Inr JNull) = Inr found"
    "(case found of JObj d \<Rightarrow> Inr d | _ \<Rightarrow> Inl (line_error line ''algorithm is outside the contract.'')) = Inr parameters"
    "contract_names parameters ''lengths'' = Inr lengths" "contract_names parameters ''key_format_types'' = Inr formats"
    and k: "(case key_length of JInt i \<Rightarrow> True | _ \<Rightarrow> False) \<and> key_length \<in> set lengths" "key_format_type \<in> set formats"
    unfolding validate_algorithm_def by (simp only: if_False bindE_Inr_iff guardE_Inr_iff) blast
  have "table = JObj d" using p(2) by (cases table) simp_all
  moreover have "found = JObj parameters" using p(4) by (cases found) simp_all
  ultimately have "contract_algorithm contract algorithm parameters"
    using p(1,3) by (cases algorithm) (auto simp: contract_algorithm_def dest!: lookup_get split: option.splits)
  moreover have "\<exists>i. key_length = JInt i" using k(1) by (cases key_length) auto
  ultimately show ?thesis using False k contract_names_list [OF p(5)] contract_names_list [OF p(6)] by auto
qed

lemma validate_event_ok:
  assumes "validate_event py contract line event = Inr ()"
  shows "event_ok py contract event"
proof -
  obtain c d where
    "reject_secret_fields py (lit ''line '' @ int_text (int line)) (JObj event) = Inr ()" "validate_fields line event = Inr ()"
    "require_sha256 py (get_field event ''client_cert_sha256'') ''client_cert_sha256'' line = Inr c"
    "require_sha256 py (get_field event ''request_digest'') ''request_digest'' line = Inr d"
    "allowed contract event line ''protocol_version'' ''protocol_versions'' ''protocol_version is outside the contract.'' = Inr ()"
    "allowed contract event line ''operation'' ''candidate_operations'' ''operation is outside the candidate allowlist.'' = Inr ()"
    "allowed_or_null contract event line ''object_type'' ''objects'' ''object_type is outside the contract.'' = Inr ()"
    "validate_attributes contract line (get_field event ''attribute_names'') = Inr ()"
    "allowed contract event line ''result_status'' ''result_statuses'' ''result_status is outside the contract.'' = Inr ()"
    "allowed_or_null contract event line ''result_reason'' ''result_reasons''
         ''result_reason must be null or an allowlisted KMIP reason.'' = Inr ()"
    "equals_int py (get_field event ''schema_version'') TRACE_SCHEMA_VERSION"
    "validate_algorithm contract line (get_field event ''operation'') (get_field event ''algorithm'')
       (get_field event ''key_length'') (get_field event ''key_format_type'') = Inr ()"
    "list_all (\<lambda>field. nonblank (get_field event field)) TEXT_FIELDS"
    using assms unfolding validate_event_def by (elim bindE_InrE) (auto simp: TEXT_FIELDS_def bindE_Inr_iff dest!: lookup_get)
  note f = this
  show ?thesis
    unfolding event_ok_def
    using f(1,11,13) validate_fields_ok [OF f(2)] require_sha256_ok [OF f(3)] require_sha256_ok [OF f(4)] allowed_ok [OF f(5)]
      allowed_ok [OF f(6)] allowed_or_null_ok [OF f(7)] validate_attributes_ok [OF f(8)] allowed_ok [OF f(9)]
      allowed_or_null_ok [OF f(10)] validate_algorithm_ok [OF f(12)]
    by (simp only: reject_secret_fields_iff)
qed

lemma trace_events_ok:
  assumes "trace_events py contract n lines = Inr events"
  shows "list_all2 (\<lambda>line event. loads line = Some (JObj event) \<and> event_ok py contract event)
    (filter (\<lambda>line. strip line \<noteq> []) lines) events"
  using assms
proof (induction py contract n lines arbitrary: events rule: trace_events.induct)
  case (2 py contract n line lines)
  show ?case
  proof (cases "strip line = []")
    case True
    with 2 show ?thesis by simp
  next
    case False
    with "2.prems" obtain event events' where "loads line = Some (JObj event)" "validate_event py contract n event = Inr ()"
      "trace_events py contract (Suc n) lines = Inr events'" "events = event # events'"
      by (auto elim!: bindE_InrE split: option.splits json.splits exn.splits)
    with 2 False show ?thesis by (auto intro: validate_event_ok)
  qed
qed simp

lemma sum_counts: "sum_list (map snd (sorted_counts xs)) = length xs"
proof -
  have "sum_list (map snd (sorted_counts xs)) = (\<Sum>x \<in> set xs. count_list xs x)"
    by (simp add: sorted_counts_def comp_def sum_list_distinct_conv_sum_set)
  then show ?thesis by (simp add: sum_count_set)
qed

lemma validate_contract_same: "validate_contract py c = Inr c' \<Longrightarrow> c' = c"
  by (auto simp: validate_contract_def elim!: bindE_InrE)

lemma validate_contract_again: "validate_contract py c = Inr c' \<Longrightarrow> validate_contract py c' = Inr c'"
  using validate_contract_same by metis

lemma selected_contract_valid: "selected_contract py file contract = Inr c \<Longrightarrow> validate_contract py c = Inr c"
  by (auto simp: selected_contract_def load_contract_def dest: validate_contract_again elim!: bindE_InrE
      split: option.splits json.splits)

text \<open>
  C33: an accepted trace carries only contract metadata. Every line that is not blank is an event of the
  current schema version with exactly the required fields; no field name at any depth names a secret; time,
  connection, provider and operation are texts that are not blank and the digests are SHA-256 digests;
  operation, version, object type, attribute names, status and reason are taken from the lists of a valid
  contract; and algorithm, key length and key format are null, which a Create may not have, or an algorithm of
  the contract with a length and a format it lists. The summary counts every event once by operation and once
  by status.
\<close>

theorem trace_accepts_contract_metadata:
  assumes "validate_trace py env (selected_contract py file contract) contract_bytes lines = Inr s"
  shows "\<exists>c events. selected_contract py file contract = Inr c \<and> validate_contract py c = Inr c
     \<and> list_all2 (\<lambda>line event. loads line = Some (JObj event) \<and> event_ok py c event)
         (filter (\<lambda>line. strip line \<noteq> []) lines) events
     \<and> events \<noteq> [] \<and> t_event_count s = length events
     \<and> sum_list (map snd (t_operations s)) = length events \<and> sum_list (map snd (t_result_statuses s)) = length events"
proof -
  obtain c events where c: "selected_contract py file contract = Inr c" and e: "trace_events py c 1 lines = Inr events"
    "events \<noteq> []" and s: "t_event_count s = length events" "t_operations s = sorted_counts (field_texts py ''operation'' events)"
    "t_result_statuses s = sorted_counts (field_texts py ''result_status'' events)"
    using assms by (auto simp: validate_trace_def elim!: bindE_InrE)
  show ?thesis
    using c selected_contract_valid [OF c] trace_events_ok [OF e(1)] e(2) s
    by (intro exI [of _ c] exI [of _ events]) (simp add: sum_counts field_texts_def)
qed

subsection \<open>The checked-in contract and one event\<close>

lemma vcf_contract_valid: "validate_contract py vcf_9_1 = Inr vcf_9_1"
  by (simp add: validate_contract_def vcf_9_1_def get_field_def CONTRACT_FIELDS_def equals_int_def int_like_def in_string_set_def
      NAME_LISTS_def unique_names_def nonblank_def positive_lengths_def algorithm_ok_def transport_ok_def insert_commute strip_Nil lit_Cons is_space_def)

definition demo_event :: "(ustr \<times> json) list" where
  "demo_event =
     [(lit ''algorithm'', JNull), (lit ''attribute_names'', JArr []),
      (lit ''client_cert_sha256'', JStr (replicate 64 97)), (lit ''connection_id'', JText ''c''),
      (lit ''key_format_type'', JNull), (lit ''key_length'', JNull), (lit ''object_type'', JNull),
      (lit ''operation'', JText ''Query''), (lit ''protocol_version'', JText ''1.4''), (lit ''provider_id'', JText ''p''),
      (lit ''request_digest'', JStr (replicate 64 98)), (lit ''result_reason'', JNull),
      (lit ''result_status'', JText ''Success''), (lit ''schema_version'', JInt 1), (lit ''timestamp'', JText ''t'')]"

lemma list_all_replicate: "list_all P (replicate n c) \<longleftrightarrow> n = 0 \<or> P c"
  by (induction n) auto

lemma demo_event_read: "loads (dumps (JObj demo_event)) = Some (JObj demo_event)"
proof -
  have "wf_json (JObj demo_event)" 
    by (simp add: demo_event_def int_ok_def digs.simps list_all_replicate lit_scalar_cong is_scalar_def)
  moreover have "canon (JObj demo_event) = JObj demo_event"
    by (simp add: canon_JObj sort_key_id_if_sorted demo_event_def lit_Cons)
  ultimately show ?thesis by (simp only: loads_dumps)
qed

lemma demo_event_fields:
  "map_of demo_event (lit ''operation'') = Some (JText ''Query'')" "map_of demo_event (lit ''algorithm'') = Some JNull"
  "map_of demo_event (lit ''key_length'') = Some JNull" "map_of demo_event (lit ''key_format_type'') = Some JNull"
  "map_of demo_event (lit ''attribute_names'') = Some (JArr [])" "map_of demo_event (lit ''object_type'') = Some JNull"
  "map_of demo_event (lit ''result_reason'') = Some JNull" "map_of demo_event (lit ''result_status'') = Some (JText ''Success'')"
  "map_of demo_event (lit ''protocol_version'') = Some (JText ''1.4'')" "map_of demo_event (lit ''schema_version'') = Some (JInt 1)"
  "map_of demo_event (lit ''client_cert_sha256'') = Some (JStr (replicate 64 97))"
  "map_of demo_event (lit ''request_digest'') = Some (JStr (replicate 64 98))"
  "map_of demo_event (lit ''connection_id'') = Some (JText ''c'')" "map_of demo_event (lit ''provider_id'') = Some (JText ''p'')"
  "map_of demo_event (lit ''timestamp'') = Some (JText ''t'')"
  by (simp_all add: demo_event_def)

lemma vcf_lists:
  "contract_names vcf_9_1 ''protocol_versions'' = Inr [JText ''1.1'', JText ''1.4'']"
  "JText ''Query'' \<in> contract_list vcf_9_1 ''candidate_operations''"
  by (simp_all add: vcf_9_1_def contract_names_def contract_list_def get_field_def lookup_field_def)

lemma demo_event_secret_free: "reject_secret_fields demo_py l (JObj demo_event) = Inr ()"
proof -
  have "list_all (\<lambda>k. \<not> secret_field demo_py k) (json_keys (JObj demo_event))" by code_simp
  then show ?thesis by (simp only: reject_secret_fields_iff list_all_iff)
qed

lemma nonblank_lit: "\<not> is_space (of_char c) \<Longrightarrow> nonblank (JStr (lit (c # s)))"
  by (simp add: nonblank_def strip_Nil lit_Cons)

lemma demo_event_valid: "validate_event demo_py vcf_9_1 n demo_event = Inr ()"
proof -
  have f: "validate_fields n demo_event = Inr ()"
    by (simp add: validate_fields_def Let_def sorted_diff_Nil demo_event_def REQUIRED_FIELDS_def)
  have d: "require_sha256 demo_py (JStr (replicate 64 c)) fl n = Inr (replicate 64 c)" if "c \<in> set HEX_DIGITS" for c fl
    using that by (simp add: require_sha256_def Let_def list_ex_iff)
  have h: "97 \<in> set HEX_DIGITS" "98 \<in> set HEX_DIGITS" by (simp_all add: HEX_DIGITS_set)
  show ?thesis
    by (simp add: validate_event_def demo_event_secret_free f lookup_field_def demo_event_fields d h allowed_def allowed_or_null_def
      vcf_lists validate_algorithm_def validate_attributes_def equals_int_def int_like_def TRACE_SCHEMA_VERSION_def
      TEXT_FIELDS_def nonblank_lit is_space_def contract_names_def vcf_9_1_def sorted_diff_def)
qed

theorem trace_accepts_contract_metadata_witness:
  "\<exists>events. events \<noteq> [] \<and> list_all2 (\<lambda>line event. loads line = Some (JObj event) \<and> event_ok demo_py vcf_9_1 event)
     (filter (\<lambda>line. strip line \<noteq> []) [dumps (JObj demo_event)]) events"
proof -
  have l: "strip (dumps (JObj demo_event)) \<noteq> []"
    by (simp add: strip_Nil is_space_def)
  have "\<exists>s. validate_trace demo_py demo_env (selected_contract demo_py (Inl OSError) (Some vcf_9_1)) (Some [0]) [dumps (JObj demo_event)] = Inr s"
    using l by (simp add: validate_trace_def selected_contract_def vcf_contract_valid demo_event_read demo_event_valid del: dumps.simps)
  then obtain s where s: "validate_trace demo_py demo_env (selected_contract demo_py (Inl OSError) (Some vcf_9_1)) (Some [0])
      [dumps (JObj demo_event)] = Inr s" ..
  have c: "selected_contract demo_py (Inl OSError) (Some vcf_9_1) = Inr vcf_9_1"
    by (simp add: selected_contract_def vcf_contract_valid)
  show ?thesis
    using trace_accepts_contract_metadata [OF s] unfolding c by blast
qed

end
