(* ===== verification/ServerProps.thy ===== *)
theory ServerProps
  imports Server ProtocolProps TraceProps
begin

text \<open>
  The properties of a connection: what reaches the handler depends only on the byte stream, an
  unmapped certificate reaches nothing, a mapped one acts in its own namespace, and every line of the
  trace is one the validator accepts.
\<close>

subsection \<open>The byte stream\<close>

text \<open>The bytes the peer delivers before it closes or fails, and whether it fails.\<close>

fun stream :: "packet list \<Rightarrow> bytes \<times> bool" where
  "stream [] = ([], False)"
| "stream (Fails # ps) = ([], True)"
| "stream (Chunk b # ps) = (if b = [] then ([], False) else (b @ fst (stream ps), snd (stream ps)))"

text \<open>Reading \<open>n\<close> bytes of a stream.\<close>

definition read_stream :: "nat \<Rightarrow> bytes \<times> bool \<Rightarrow> bytes res" where
  "read_stream n s =
     (if n \<le> length (fst s) then Inr (take n (fst s))
      else if snd s then Inl OSError
      else if fst s = [] then Inr []
      else Inl (TtlvError ''KMIP connection closed during a message.''))"

lemma recv_stream:
  assumes "recv n ps = (r, ps')" and "0 < n"
  shows "(\<exists>chunk. r = Inr chunk \<and> chunk \<noteq> [] \<and> length chunk \<le> n \<and> fst (stream ps) = chunk @ fst (stream ps')
            \<and> snd (stream ps) = snd (stream ps'))
       \<or> r = Inr [] \<and> stream ps = ([], False) \<or> r = Inl OSError \<and> stream ps = ([], True)"
  using assms by (cases "(n, ps)" rule: recv.cases) (auto split: if_splits)

lemma receive_loop_stream:
  assumes "receive_loop ps n acc = (r, ps')"
  shows "length acc \<le> n \<Longrightarrow> r = read_stream n (acc @ fst (stream ps), snd (stream ps))
     \<and> (n \<le> length acc + length (fst (stream ps)) \<longrightarrow>
          stream ps' = (drop (n - length acc) (fst (stream ps)), snd (stream ps)))"
  using assms
proof (induction ps n acc arbitrary: r ps' rule: receive_loop.induct)
  case (1 ps n acc)
  show ?case
  proof (cases "length acc < n")
    case False
    with 1 show ?thesis by (simp add: receive_loop.simps read_stream_def)
  next
    case True
    obtain q qs where q: "recv (n - length acc) ps = (q, qs)" by fastforce
    from recv_stream [OF q] True consider
      chunk where "q = Inr chunk" "chunk \<noteq> []" "length chunk \<le> n - length acc" "fst (stream ps) = chunk @ fst (stream qs)"
        "snd (stream ps) = snd (stream qs)"
      | "q = Inr []" "stream ps = ([], False)" | "q = Inl OSError" "stream ps = ([], True)" by auto
    then show ?thesis
    proof cases
      case 1
      have l: "receive_loop qs n (acc @ chunk) = (r, ps')"
        using "1.prems"(2) True q 1 by (simp add: receive_loop.simps [of ps])
      from "1.IH" [OF True q [symmetric] 1(1,2) _ l] True 1 show ?thesis by (auto simp: prod_eq_iff)
    qed (use "1.prems" True q in \<open>auto simp: receive_loop.simps [of ps] read_stream_def\<close>)
  qed
qed

lemma receive_exact_stream:
  assumes "receive_exact ps n = (r, ps')"
  shows "r = read_stream n (stream ps)"
    and "n \<le> length (fst (stream ps)) \<Longrightarrow> stream ps' = (drop n (fst (stream ps)), snd (stream ps))"
  using receive_loop_stream [OF assms [unfolded receive_exact_def]] by simp_all

text \<open>
  A message is reassembled exactly, however the network cuts it: the read returns the next bytes of
  the stream and leaves the rest, and when the stream is too short it fails or reports a clean end.
\<close>

theorem receive_exact_reassembles:
  "fst (receive_exact ps n) = read_stream n (stream ps)
   \<and> (length (fst (stream ps)) < n \<or> stream (snd (receive_exact ps n)) = (drop n (fst (stream ps)), snd (stream ps)))"
  using receive_exact_stream(1) [OF prod.collapse [symmetric]] receive_exact_stream(2) [OF prod.collapse [symmetric]]
  by (cases "length (fst (stream ps)) < n") simp_all

text \<open>The same for a whole request, and for a connection.\<close>

lemma read_request_stream:
  assumes "stream ps = stream qs"
  shows "fst (read_request m ps) = fst (read_request m qs)"
    and "fst (read_request m ps) = Inr (Some x) \<Longrightarrow> stream (snd (read_request m ps)) = stream (snd (read_request m qs))"
proof -
  obtain r ps1 where 1: "receive_exact ps 8 = (r, ps1)" by fastforce
  obtain q qs1 where 2: "receive_exact qs 8 = (q, qs1)" by fastforce
  have rq: "q = r" using receive_exact_stream(1) [OF 1] receive_exact_stream(1) [OF 2] assms by simp
  have s1: "stream ps1 = stream qs1" if "r = Inr h" "h \<noteq> []" for h
    using receive_exact_stream [OF 1] receive_exact_stream(2) [OF 2] assms that by (auto simp: read_stream_def split: if_splits)
  define k where "k = (case r of Inr h \<Rightarrow> padded (from_be (take 4 (drop 4 h))) | _ \<Rightarrow> 0)"
  obtain b ps2 where 3: "receive_exact ps1 k = (b, ps2)" by fastforce
  obtain c qs2 where 4: "receive_exact qs1 k = (c, qs2)" by fastforce
  have bc: "c = b" if "r = Inr h" "h \<noteq> []" for h
    using receive_exact_stream(1) [OF 3] receive_exact_stream(1) [OF 4] s1 [OF that] by simp
  have s2: "stream ps2 = stream qs2" if "r = Inr h" "h \<noteq> []" "b = Inr body" "length body = k" for h body
  proof -
    have "k \<le> length (fst (stream ps1))"
      using receive_exact_stream(1) [OF 3] that(3,4) by (auto simp: read_stream_def split: if_splits)
    then show ?thesis
      using receive_exact_stream(2) [OF 3] receive_exact_stream(2) [OF 4] s1 [OF that(1,2)] by simp
  qed
  have k: "padded (from_be (take 4 (drop 4 h))) = k" if "r = Inr h" for h by (simp add: k_def that)
  show "fst (read_request m ps) = fst (read_request m qs)"
    using rq bc by (cases r) (auto simp: read_request_def 1 2 Let_def k 3 4 split: sum.splits)
  show "fst (read_request m ps) = Inr (Some x) \<Longrightarrow> stream (snd (read_request m ps)) = stream (snd (read_request m qs))"
    using rq bc s2 by (cases r) (auto simp: read_request_def 1 2 Let_def k 3 4 bindE_Inr_iff split: sum.splits if_splits)
qed

text \<open>The answer to a request does not read the socket.\<close>

lemma record_trace_incoming:
  "record_trace py env host ident request response bs (s\<lparr>n_incoming := ps\<rparr>)
     = map_prod id (\<lambda>s. s\<lparr>n_incoming := ps\<rparr>) (record_trace py env host ident request response bs s)"
  by (simp add: record_trace_def split: prod.split sum.split append_outcome.split)

lemma sendall_incoming:
  "sendall host bs (s\<lparr>n_incoming := ps\<rparr>) = map_prod id (\<lambda>s. s\<lparr>n_incoming := ps\<rparr>) (sendall host bs s)"
  by (simp add: sendall_def split: send_outcome.split)

lemma answer_request_incoming:
  "answer_request py env host traced ident bs request (s\<lparr>n_incoming := ps\<rparr>)
     = map_prod id (\<lambda>s. s\<lparr>n_incoming := ps\<rparr>) (answer_request py env host traced ident bs request s)"
proof -
  have e: "s\<lparr>n_incoming := ps, n_world := w, n_log := l\<rparr> = (s\<lparr>n_world := w, n_log := l\<rparr>)\<lparr>n_incoming := ps\<rparr>" for w l by simp
  show ?thesis
    by (auto simp: answer_request_def Let_def e record_trace_incoming sendall_incoming split: prod.splits sum.splits)
qed

lemma serve_loop_stream:
  assumes "stream ps = stream qs"
  shows "map_prod id (\<lambda>s. s\<lparr>n_incoming := []\<rparr>) (serve_loop py env host m traced ident n (s\<lparr>n_incoming := ps\<rparr>))
    = map_prod id (\<lambda>s. s\<lparr>n_incoming := []\<rparr>) (serve_loop py env host m traced ident n (s\<lparr>n_incoming := qs\<rparr>))"
  using assms
proof (induction n arbitrary: s ps qs)
  case (Suc n)
  obtain r ps1 where 1: "read_request m ps = (r, ps1)" by fastforce
  with read_request_stream(1) [OF Suc.prems, of m] obtain qs1 where 2: "read_request m qs = (r, qs1)"
    by (metis fst_conv prod.exhaust)
  show ?case
  proof (cases "\<exists>bs request. r = Inr (Some (bs, request))")
    case False
    then show ?thesis
      by (auto simp: serve_request_def 1 2 split: sum.split option.split bool.split)
  next
    case True
    then obtain bs request where r: "r = Inr (Some (bs, request))" by blast
    with read_request_stream(2) [OF Suc.prems, of m] 1 2 have s1: "stream ps1 = stream qs1" by simp
    obtain a u where a: "answer_request py env host traced ident bs request s = (a, u)" by fastforce
    show ?thesis
      using Suc.IH [OF s1, of u]
      by (simp add: serve_request_def 1 2 r answer_request_incoming a split: sum.split bool.split)
  qed
qed simp

text \<open>
  What a client obtains depends on its bytes alone. However the network cuts the same byte stream
  into pieces, the handler ends in the same way with the same store, the same responses, the same
  trace and the same log.
\<close>

theorem handle_ignores_fragmentation:
  assumes "stream ps = stream qs"
  shows "map_prod id (\<lambda>s. s\<lparr>n_incoming := []\<rparr>) (handle py env host config peer (s\<lparr>n_incoming := ps\<rparr>))
    = map_prod id (\<lambda>s. s\<lparr>n_incoming := []\<rparr>) (handle py env host config peer (s\<lparr>n_incoming := qs\<rparr>))"
proof -
  have e: "s\<lparr>n_incoming := ps, n_world := w\<rparr> = (s\<lparr>n_world := w\<rparr>)\<lparr>n_incoming := ps\<rparr>" for w ps by simp
  show ?thesis
    using serve_loop_stream [OF assms] by (simp add: handle_def Let_def e split: option.split)
qed

subsection \<open>Who is served\<close>

text \<open>
  C28: only a mapped certificate is served. Without a completed handshake, without a certificate, or
  with a certificate whose fingerprint no provider is configured with, the connection ends without an
  error, without reading a byte and without touching the store, the trace or the socket; at most the
  refusal is logged.
\<close>

theorem unmapped_client_reaches_nothing:
  assumes "\<not> handshake_ok peer \<or> peer_der peer = None \<or> peer_der peer = Some []
    \<or> map_of (fingerprint_providers config) (hex_of_bytes (sha256 env (the (peer_der peer)))) = None"
  shows "\<exists>l. handle py env host config peer s = (Inr (), s\<lparr>n_log := n_log s @ l\<rparr>) \<and> set l \<subseteq> {Unmapped_certificate}"
proof (cases "\<not> handshake_ok peer \<or> peer_der peer = None \<or> peer_der peer = Some []")
  case True
  then show ?thesis by (intro exI [of _ "[]"]) (simp add: handle_def)
next
  case False
  with assms show ?thesis by (intro exI [of _ "[Unmapped_certificate]"]) (auto simp: handle_def Let_def)
qed

subsection \<open>What a connection does\<close>

text \<open>
  A relation between the session before and after, established for one request, holds for the
  connection. It is interpreted for the namespace of the provider and for the lines of the trace.
\<close>

locale connection_relation =
  fixes R :: "session \<Rightarrow> session \<Rightarrow> bool"
    and py :: py and env :: env and host :: host and traced :: bool and ident :: trace_id
  assumes reading: "R s (s\<lparr>n_incoming := ps\<rparr>)"
    and compose: "R s t \<Longrightarrow> R t u \<Longrightarrow> R s u"
    and answering: "answer_request py env host traced ident bs request s = (r, t) \<Longrightarrow> R s t"
begin

lemma unchanged: "R s s"
  using reading [of s "n_incoming s"] by simp

lemma serving:
  assumes "serve_request py env host m traced ident s = (r, t)"
  shows "R s t"
proof -
  obtain q ps where q: "read_request m (n_incoming s) = (q, ps)" by fastforce
  show ?thesis
    using assms q reading [of s ps] answering compose [OF reading [of s ps]]
    by (auto simp: serve_request_def split: sum.splits option.splits prod.splits)
qed

lemma looping: "serve_loop py env host m traced ident n s = (r, t) \<Longrightarrow> R s t"
proof (induction n arbitrary: s)
  case 0
  then show ?case using unchanged by simp
next
  case (Suc n)
  obtain q u where q: "serve_request py env host m traced ident s = (q, u)" by fastforce
  with Suc show ?case using serving [OF q] compose [OF serving [OF q]] by (auto split: sum.splits bool.splits)
qed

end

text \<open>The effects of recording and of sending.\<close>

lemma trace_record_world:
  assumes "trace_record py env file ident request response bs w = (r, w')"
  obtains i where "w' = w\<lparr>w_draw := i\<rparr>"
proof -
  have "w' = w \<or> (\<exists>i. w' = w\<lparr>w_draw := i\<rparr>)"
    using assms unfolding trace_record_def by (auto simp: liftM_def drawM_def elim!: bindM_cases)
  with that [of "w_draw w"] that show thesis by auto
qed

lemma record_trace_effect:
  assumes "record_trace py env host ident request response bs s = (r, t)"
  obtains i lines where "t = s\<lparr>n_world := (n_world s)\<lparr>w_draw := i\<rparr>, n_trace := n_trace s @ lines\<rparr>"
    "lines \<noteq> [] \<Longrightarrow> \<exists>w. trace_record py env (contract_file host) ident request response bs (n_world s) = (Inr lines, w)"
proof -
  obtain q w where q: "trace_record py env (contract_file host) ident request response bs (n_world s) = (q, w)" by fastforce
  then obtain i where i: "w = (n_world s)\<lparr>w_draw := i\<rparr>" by (rule trace_record_world)
  show thesis
    using assms q that [of "[]" i] that [of "case q of Inr lines \<Rightarrow> lines | Inl _ \<Rightarrow> []" i]
    by (auto simp: record_trace_def i split: sum.splits if_splits append_outcome.splits)
qed

lemma sendall_effect:
  assumes "sendall host bs s = (r, t)"
  obtains k where "t = s\<lparr>n_sent := n_sent s @ [take k bs]\<rparr>"
proof -
  have "t = s\<lparr>n_sent := n_sent s @ [take (length bs) bs]\<rparr> \<or> (\<exists>k. t = s\<lparr>n_sent := n_sent s @ [take k bs]\<rparr>)"
    using assms by (auto simp: sendall_def split: send_outcome.splits)
  with that show thesis by blast
qed

subsection \<open>The namespace of a connection\<close>

text \<open>Bytes that were cut from the encoding of a response that holds only keys of a provider.\<close>

definition discloses_own :: "env \<Rightarrow> ustr \<Rightarrow> key_map \<Rightarrow> bytes \<Rightarrow> bool" where
  "discloses_own env p M b \<longleftrightarrow>
     (\<exists>response bs k. encode response = Inr bs \<and> b = take k bs \<and> set (materials response) \<subseteq> owned env p M)"

lemma discloses_own_grows: "discloses_own env p M b \<Longrightarrow> grows M M' \<Longrightarrow> discloses_own env p M' b"
  unfolding discloses_own_def using owned_grows by blast

definition in_namespace :: "env \<Rightarrow> bytes \<Rightarrow> bytes \<Rightarrow> ustr \<Rightarrow> session \<Rightarrow> session \<Rightarrow> bool" where
  "in_namespace env master kek p s t \<longleftrightarrow>
     (\<exists>new. n_sent t = n_sent s @ new
        \<and> (\<forall>M. running env master kek M (n_world s) \<longrightarrow>
             (\<exists>M'. running env master kek M' (n_world t) \<and> grows M M' \<and> only_provider (uuid_canon (uni env) p) M M'
                \<and> (\<forall>b \<in> set new. discloses_own env p M' b))))"

lemma in_namespace_quiet:
  assumes "n_sent t = n_sent s"
    and "\<And>M. running env master kek M (n_world s) \<Longrightarrow> \<exists>M'. running env master kek M' (n_world t) \<and> grows M M'
        \<and> only_provider (uuid_canon (uni env) p) M M'"
  shows "in_namespace env master kek p s t"
  using assms unfolding in_namespace_def by (intro exI [of _ "[]"]) auto

lemma in_namespace_trans:
  assumes "in_namespace env master kek p s t" and "in_namespace env master kek p t u"
  shows "in_namespace env master kek p s u"
proof -
  obtain new where new: "n_sent t = n_sent s @ new"
    "\<And>M. running env master kek M (n_world s) \<Longrightarrow> \<exists>M'. running env master kek M' (n_world t) \<and> grows M M'
       \<and> only_provider (uuid_canon (uni env) p) M M' \<and> (\<forall>b \<in> set new. discloses_own env p M' b)"
    using assms(1) unfolding in_namespace_def by blast
  obtain more where more: "n_sent u = n_sent t @ more"
    "\<And>M. running env master kek M (n_world t) \<Longrightarrow> \<exists>M'. running env master kek M' (n_world u) \<and> grows M M'
       \<and> only_provider (uuid_canon (uni env) p) M M' \<and> (\<forall>b \<in> set more. discloses_own env p M' b)"
    using assms(2) unfolding in_namespace_def by blast
  have "\<exists>M'. running env master kek M' (n_world u) \<and> grows M M' \<and> only_provider (uuid_canon (uni env) p) M M'
      \<and> (\<forall>b \<in> set (new @ more). discloses_own env p M' b)" if "running env master kek M (n_world s)" for M
  proof -
    from new(2) [OF that] obtain M1 where 1: "running env master kek M1 (n_world t)" "grows M M1"
      "only_provider (uuid_canon (uni env) p) M M1" "\<forall>b \<in> set new. discloses_own env p M1 b" by blast
    from more(2) [OF 1(1)] obtain M2 where 2: "running env master kek M2 (n_world u)" "grows M1 M2"
      "only_provider (uuid_canon (uni env) p) M1 M2" "\<forall>b \<in> set more. discloses_own env p M2 b" by blast
    then show ?thesis
      using 1(4) discloses_own_grows [OF _ 2(2)] grows_trans [OF 1(2) 2(2)] only_provider_trans [OF 1(3) 2(3)]
      by (intro exI [of _ M2]) auto
  qed
  then show ?thesis using new(1) more(1) unfolding in_namespace_def by (intro exI [of _ "new @ more"]) auto
qed

lemma in_namespace_draw:
  "n_sent t = n_sent s \<Longrightarrow> n_world t = (n_world s)\<lparr>w_draw := i\<rparr> \<Longrightarrow> in_namespace env master kek p s t"
  by (rule in_namespace_quiet) (auto intro: running_draw simp: only_provider_def)

lemma in_namespace_same: "n_sent t = n_sent s \<Longrightarrow> n_world t = n_world s \<Longrightarrow> in_namespace env master kek p s t"
  by (rule in_namespace_draw [where i = "w_draw (n_world s)"]) simp_all

text \<open>The effect of an answered request.\<close>

lemma answer_effect:
  assumes d: "dispatch env (trace_provider_id ident) request (n_world s) = (Inr response, w)"
    and a: "answer_request py env host traced ident bs request s = (r, t)"
  obtains i lines new where "n_world t = w\<lparr>w_draw := i\<rparr>" "n_trace t = n_trace s @ lines" "n_sent t = n_sent s @ new"
    "lines \<noteq> [] \<Longrightarrow> \<exists>w'. trace_record py env (contract_file host) ident request response bs w = (Inr lines, w')"
    "new = [] \<or> (\<exists>k response_bytes. encode response = Inr response_bytes \<and> new = [take k response_bytes])"
proof (cases "encode response")
  case (Inl e)
  with d a show thesis
    by (intro that [where i = "w_draw w" and lines = "[]" and new = "[]"]) (auto simp: answer_request_def Let_def)
next
  case (Inr response_bytes)
  define s1 where "s1 = s\<lparr>n_world := w, n_log := n_log s @ log_response_failures request response\<rparr>"
  obtain q s2 where q: "(if traced then record_trace py env host ident request response bs s1 else (Inr (), s1)) = (q, s2)"
    by fastforce
  have "\<exists>i lines. s2 = s1\<lparr>n_world := w\<lparr>w_draw := i\<rparr>, n_trace := n_trace s1 @ lines\<rparr> \<and> (lines \<noteq> [] \<longrightarrow>
      (\<exists>w'. trace_record py env (contract_file host) ident request response bs w = (Inr lines, w')))"
  proof (cases traced)
    case True
    with q have "record_trace py env host ident request response bs s1 = (q, s2)" by simp
    then show ?thesis by (rule record_trace_effect) (auto simp: s1_def)
  next
    case False
    with q show ?thesis by (intro exI [of _ "w_draw w"] exI [of _ "[]"]) (auto simp: s1_def)
  qed
  then obtain i lines where s2: "s2 = s1\<lparr>n_world := w\<lparr>w_draw := i\<rparr>, n_trace := n_trace s1 @ lines\<rparr>"
    and l: "lines \<noteq> [] \<Longrightarrow> \<exists>w'. trace_record py env (contract_file host) ident request response bs w = (Inr lines, w')"
    by blast
  have ar: "(r, t) = (case q of Inl e \<Rightarrow> (Inl e, s2) | Inr _ \<Rightarrow> (case sendall host response_bytes s2 of
      (Inl e, s3) \<Rightarrow> (Inl e, s3) | (Inr _, s3) \<Rightarrow> (Inr True, s3)))"
    using a unfolding answer_request_def d Let_def Inr prod.case sum.case s1_def [symmetric] q by simp
  show thesis
  proof (cases q)
    case (Inl e)
    with ar show thesis by (intro that [where i = i and lines = lines and new = "[]"]) (auto simp: s2 s1_def intro: l)
  next
    case q': (Inr u)
    obtain z s3 where z: "sendall host response_bytes s2 = (z, s3)" by fastforce
    then obtain k where k: "s3 = s2\<lparr>n_sent := n_sent s2 @ [take k response_bytes]\<rparr>" by (rule sendall_effect)
    from ar z q' have "t = s3" by (auto split: sum.splits)
    with k show thesis
      by (intro that [where i = i and lines = lines and new = "[take k response_bytes]"]) (auto simp: s2 s1_def Inr intro: l)
  qed
qed

lemma answer_raised:
  assumes "dispatch env (trace_provider_id ident) request (n_world s) = (Inl e, w)"
    and "answer_request py env host traced ident bs request s = (r, t)"
  shows "n_world t = w \<and> n_trace t = n_trace s \<and> n_sent t = n_sent s"
  using assms by (auto simp: answer_request_def)

lemma answer_in_namespace:
  assumes "answer_request py env host traced ident bs request s = (r, t)"
  shows "in_namespace env master kek (trace_provider_id ident) s t"
proof -
  let ?p = "trace_provider_id ident"
  obtain q w where q: "dispatch env ?p request (n_world s) = (q, w)" by fastforce
  show ?thesis
  proof (cases q)
    case (Inl e)
    show ?thesis
    proof (rule in_namespace_quiet)
      show "n_sent t = n_sent s" using answer_raised [OF q [unfolded Inl] assms] by simp
      show "\<exists>M'. running env master kek M' (n_world t) \<and> grows M M' \<and> only_provider (uuid_canon (uni env) ?p) M M'"
        if "running env master kek M (n_world s)" for M
        using keepsD [OF dispatch_serves q servesI [OF that]] answer_raised [OF q [unfolded Inl] assms] by (auto simp: serves_def)
    qed
  next
    case (Inr response)
    from answer_effect [OF q [unfolded Inr] assms] obtain i new where i: "n_world t = w\<lparr>w_draw := i\<rparr>" "n_sent t = n_sent s @ new"
      "new = [] \<or> (\<exists>k response_bytes. encode response = Inr response_bytes \<and> new = [take k response_bytes])" by metis
    have "\<exists>M'. running env master kek M' (n_world t) \<and> grows M M' \<and> only_provider (uuid_canon (uni env) ?p) M M'
        \<and> (\<forall>b \<in> set new. discloses_own env ?p M' b)" if "running env master kek M (n_world s)" for M
    proof -
      from dispatch_discloses [OF that q [unfolded Inr]] obtain M' where M': "running env master kek M' w" "grows M M'"
        "only_provider (uuid_canon (uni env) ?p) M M'" "set (materials response) \<subseteq> owned env ?p M'" by blast
      then show ?thesis
        using i running_draw [OF M'(1)] by (intro exI [of _ M']) (force simp: discloses_own_def)
    qed
    then show ?thesis using i(2) unfolding in_namespace_def by blast
  qed
qed

interpretation provider_space: connection_relation "in_namespace env master kek (trace_provider_id ident)" py env host traced ident
  for env master kek ident py host traced
  by unfold_locales (auto intro: in_namespace_same in_namespace_trans answer_in_namespace)

lemma mapped_in_namespace:
  assumes "running env master kek M (n_world s)"
    and "map_of (fingerprint_providers config) (hex_of_bytes (sha256 env (the (peer_der peer)))) = Some p"
    and "handle py env host config peer s = (r, t)"
  shows "\<exists>M' new. running env master kek M' (n_world t) \<and> grows M M'
     \<and> only_provider (uuid_canon (uni env) p) M M'
     \<and> n_sent t = n_sent s @ new \<and> (\<forall>b \<in> set new. discloses_own env p M' b)"
proof (cases "\<not> handshake_ok peer \<or> peer_der peer = None \<or> peer_der peer = Some []")
  case True
  with assms(1,3) show ?thesis by (intro exI [of _ M] exI [of _ "[]"]) (auto simp: handle_def only_provider_def)
next
  case False
  define w where "w = (n_world s)\<lparr>w_draw := Suc (w_draw (n_world s))\<rparr>"
  obtain c f where "serve_loop py env host (nat (max_request_bytes (c_limits config))) (c_interop_trace_path config \<noteq> None)
      \<lparr>connection_id = c, client_cert_sha256 = f, trace_provider_id = p\<rparr>
      (nat (max_requests_per_connection (c_limits config))) (s\<lparr>n_world := w\<rparr>) = (r, t)"
    using assms(2,3) False by (auto simp: handle_def Let_def w_def)
  from provider_space.looping [OF this] have "in_namespace env master kek p (s\<lparr>n_world := w\<rparr>) t" by simp
  moreover have "running env master kek M (n_world (s\<lparr>n_world := w\<rparr>))" using running_draw [OF assms(1)] by (simp add: w_def)
  ultimately show ?thesis unfolding in_namespace_def by fastforce
qed

text \<open>
  C27: a connection acts only for the provider its certificate is mapped to. Whatever the client sends,
  whatever fails and however often it asks, the store keeps running on a map in which no key of another
  provider changed and no key was lost, and every byte sent is part of the encoding of a response whose
  key material, at any depth, belongs to that provider.
\<close>

theorem connection_isolated:
  assumes "running env master kek M (n_world s)"
    and "map_of (fingerprint_providers config) (hex_of_bytes (sha256 env (the (peer_der peer)))) = Some p"
    and "handle py env host config peer s = (r, t)"
  shows "\<exists>M' new. running env master kek M' (n_world t) \<and> grows M M'
     \<and> (\<forall>k. Some (fst k) \<noteq> uuid_canon (uni env) p \<longrightarrow> M' k = M k)
     \<and> n_sent t = n_sent s @ new \<and> (\<forall>b \<in> set new. discloses_own env p M' b)"
  using mapped_in_namespace [OF assms] unfolding only_provider_def .

subsection \<open>The framing of requests\<close>

lemma padded_pad_len: "padded n = n + pad_len n"
  by (simp add: padded_def pad_len_def)

lemma framed:
  assumes "encode request = Inr bs"
  shows "8 \<le> length bs" "take 3 bs = to_be 3 (nat (tag request))" "unat (bs ! 3) = type_code (ty request)"
    "length bs = 8 + padded (from_be (take 4 (drop 4 bs)))" "4325376 \<le> tag request \<and> tag request \<le> 4390911"
proof -
  obtain v where bs: "bs = to_be 3 (nat (tag request)) @ [byte_of (type_code (ty request))] @ to_be 4 (length v) @ v
      @ replicate (pad_len (length v)) 0" "length v \<le> MAX_MESSAGE_BYTES" "4325376 \<le> tag request" "tag request \<le> 4390911"
    using assms by (cases request) (auto elim: encode_header)
  have v: "from_be (take 4 (drop 4 bs)) = length v"
    using bs(2) by (simp add: bs(1) MAX_MESSAGE_BYTES_def)
  show "8 \<le> length bs" "take 3 bs = to_be 3 (nat (tag request))" "unat (bs ! 3) = type_code (ty request)"
    by (simp_all add: bs(1) nth_append)
  show "length bs = 8 + padded (from_be (take 4 (drop 4 bs)))"
    unfolding v by (simp add: bs(1) padded_pad_len)
  show "4325376 \<le> tag request \<and> tag request \<le> 4390911" using bs by simp
qed

lemma read_request_delivers:
  "fst (read_request m ps) = Inr (Some (bs, request))
     \<and> stream (snd (read_request m ps)) = (drop (length bs) (fst (stream ps)), snd (stream ps)) \<longleftrightarrow>
     take (length bs) (fst (stream ps)) = bs \<and> length bs \<le> m \<and> decode bs = Inr request
     \<and> tag request = tg REQUEST_MESSAGE \<and> ty request = STRUCTURE"
  (is "?L \<longleftrightarrow> ?R")
proof -
  obtain h ps1 where 1: "receive_exact ps 8 = (h, ps1)" by fastforce
  note s1 = receive_exact_stream [OF 1]
  have t3: "to_be 3 (nat t) = to_be 3 (nat (tg REQUEST_MESSAGE)) \<longleftrightarrow> t = tg REQUEST_MESSAGE"
    if "4325376 \<le> t" "t \<le> 4390911" for t
  proof
    assume "to_be 3 (nat t) = to_be 3 (nat (tg REQUEST_MESSAGE))"
    then have "from_be (to_be 3 (nat t)) = from_be (to_be 3 (nat (tg REQUEST_MESSAGE)))" by simp
    with that show "t = tg REQUEST_MESSAGE" by (simp add: tg.simps)
  qed simp
  have ty1: "type_code y = type_code STRUCTURE \<longleftrightarrow> y = STRUCTURE" for y by (cases y) simp_all
  show ?thesis
  proof
    assume L: ?L
    then obtain header body ps2 where h: "h = Inr header" "header \<noteq> []" and
      c: "take 3 header = to_be 3 (nat (tg REQUEST_MESSAGE))" "unat (header ! 3) = type_code STRUCTURE"
        "8 + padded (from_be (take 4 (drop 4 header))) \<le> m" and
      2: "receive_exact ps1 (padded (from_be (take 4 (drop 4 header)))) = (Inr body, ps2)" and
      l: "length body = padded (from_be (take 4 (drop 4 header)))" and d: "decode (header @ body) = Inr request" "bs = header @ body"
      by (auto simp: read_request_def 1 Let_def bindE_Inr_iff not_less split: sum.splits if_splits prod.splits)
    have 8: "8 \<le> length (fst (stream ps))" "header = take 8 (fst (stream ps))" "length header = 8"
      using s1(1) h by (auto simp: read_stream_def split: if_splits)
    have "length body \<le> length (fst (stream ps1))" "body = take (length body) (fst (stream ps1))"
      using receive_exact_stream(1) [OF 2] l by (auto simp: read_stream_def split: if_splits)
    then have b: "take (8 + length body) (fst (stream ps)) = header @ body"
      using s1(2) 8 by (simp add: take_add)
    have e: "encode request = Inr bs" using decode_Inr [OF d(1)] d(2) by simp
    note f = framed [OF e]
    have th: "take 3 bs = take 3 header" "bs ! 3 = header ! 3" using 8(3) by (simp_all add: d(2) nth_append)
    have "to_be 3 (nat (tag request)) = to_be 3 (nat (tg REQUEST_MESSAGE))" using f(2) th(1) c(1) by simp
    then have "tag request = tg REQUEST_MESSAGE" using t3 f(5) by blast
    moreover have "ty request = STRUCTURE" using f(3) th(2) c(2) ty1 by metis
    ultimately show ?R using b c(3) d 8(3) l by simp
  next
    assume R: ?R
    then have e: "encode request = Inr bs" using decode_Inr by blast
    note f = framed [OF e]
    have n: "length bs \<le> length (fst (stream ps))" using arg_cong [of _ _ length, OF conjunct1 [OF R]] by simp
    have "take 8 bs = take 8 (take (length bs) (fst (stream ps)))" using R by simp
    also have "\<dots> = take 8 (fst (stream ps))" using f(1) by (simp add: min_absorb1)
    finally have h: "h = Inr (take 8 bs)" "stream ps1 = (drop 8 (fst (stream ps)), snd (stream ps))"
      using s1 f(1) n by (simp_all add: read_stream_def)
    define k where "k = padded (from_be (take 4 (drop 4 bs)))"
    have lk: "length bs = 8 + k" unfolding k_def by (rule f(4))
    obtain b ps2 where 2: "receive_exact ps1 k = (b, ps2)" by fastforce
    have "drop 8 (take (8 + k) (fst (stream ps))) = drop 8 bs" using R lk by simp
    then have "take k (drop 8 (fst (stream ps))) = drop 8 bs" by (simp add: drop_take)
    moreover have kl: "k \<le> length (fst (stream ps)) - 8" using n lk by linarith
    ultimately have b: "b = Inr (drop 8 bs)"
      using receive_exact_stream(1) [OF 2] h(2) by (simp add: read_stream_def)
    have hk: "take 4 (drop 4 (take 8 bs)) = take 4 (drop 4 bs)" by (simp add: take_drop)
    have "stream ps2 = (drop (length bs) (fst (stream ps)), snd (stream ps))"
      using receive_exact_stream(2) [OF 2] h(2) kl lk by (simp add: add.commute)
    then show ?L
      using R f(1,2,3) lk by (auto simp: read_request_def 1 h Let_def hk k_def [symmetric] 2 b)
  qed
qed

text \<open>
  C30: the server takes exactly the well-formed requests off the stream. It delivers bytes and a node if
  and only if the stream begins with those bytes, they fit the configured maximum and they are the
  canonical encoding, within the codec's bounds, of a structure tagged Request Message; the next
  request is read from where they end.
\<close>

theorem read_request_exact:
  "fst (read_request m ps) = Inr (Some (bs, request))
     \<and> stream (snd (read_request m ps)) = (drop (length bs) (fst (stream ps)), snd (stream ps)) \<longleftrightarrow>
     take (length bs) (fst (stream ps)) = bs \<and> length bs \<le> m \<and> decode bs = Inr request
     \<and> tag request = tg REQUEST_MESSAGE \<and> ty request = STRUCTURE"
  by (rule read_request_delivers)

lemma answer_sends_one:
  assumes "answer_request py env host traced ident bs request s = (r, t)"
  shows "length (n_sent t) \<le> Suc (length (n_sent s))"
proof -
  obtain q w where q: "dispatch env (trace_provider_id ident) request (n_world s) = (q, w)" by fastforce
  show ?thesis
  proof (cases q)
    case (Inl e)
    then show ?thesis using answer_raised [OF q [unfolded Inl] assms] by simp
  next
    case (Inr response)
    show ?thesis by (rule answer_effect [OF q [unfolded Inr] assms]) auto
  qed
qed

lemma loop_sends: "serve_loop py env host m traced ident n s = (r, t) \<Longrightarrow> length (n_sent t) \<le> n + length (n_sent s)"
proof (induction n arbitrary: s)
  case (Suc n)
  obtain q u where q: "serve_request py env host m traced ident s = (q, u)" by fastforce
  then have "length (n_sent u) \<le> Suc (length (n_sent s))"
    using answer_sends_one by (fastforce simp: serve_request_def split: prod.splits sum.splits option.splits)
  with Suc q show ?case by (fastforce split: sum.splits bool.splits)
qed simp

lemma handle_cases:
  assumes "handle py env host config peer s = (r, t)"
  obtains l where "t = s\<lparr>n_log := l\<rparr>"
  | ident i where "serve_loop py env host (nat (max_request_bytes (c_limits config))) (c_interop_trace_path config \<noteq> None)
      ident (nat (max_requests_per_connection (c_limits config))) (s\<lparr>n_world := (n_world s)\<lparr>w_draw := i\<rparr>\<rparr>) = (r, t)"
proof -
  show thesis
    using assms that(1) [of "n_log s"] that by (auto simp: handle_def Let_def split: if_splits option.splits)
qed

text \<open>
  A connection is bounded. Under a configuration the loader accepts, whatever the client sends, the
  handler sends at most 1024 responses, and at most as many as the configured number of requests.
\<close>

theorem connection_bounded:
  assumes "parse_config py env certificates document = Inr config" and "handle py env host config peer s = (r, t)"
  shows "length (n_sent t) \<le> length (n_sent s) + nat (max_requests_per_connection (c_limits config))
    \<and> max_requests_per_connection (c_limits config) \<le> 1024"
proof
  show "length (n_sent t) \<le> length (n_sent s) + nat (max_requests_per_connection (c_limits config))"
    using assms(2) by (rule handle_cases) (use loop_sends in \<open>fastforce+\<close>)
  show "max_requests_per_connection (c_limits config) \<le> 1024"
    by (rule parse_config_Inr [OF assms(1)]) (auto dest!: parse_limits_ok simp: limits_ok_def)
qed

subsection \<open>The trace\<close>

text \<open>A trace file that is empty or that the validator accepts.\<close>

definition trace_ok :: "py \<Rightarrow> env \<Rightarrow> ustr res \<Rightarrow> ustr list \<Rightarrow> bool" where
  "trace_ok py env file lines \<longleftrightarrow>
     lines = [] \<or> (\<exists>s. validate_trace py env (selected_contract py file None) None lines = Inr s)"

text \<open>Two computations that succeed together, with the same value; their errors may differ.\<close>

definition agree :: "'a res \<Rightarrow> 'a res \<Rightarrow> bool" where
  "agree a b \<longleftrightarrow> (\<forall>x. a = Inr x \<longleftrightarrow> b = Inr x)"

lemma agree_refl: "agree a a"
  by (simp add: agree_def)

lemma agree_raise: "agree (Inl e) (Inl e')"
  by (simp add: agree_def)

lemma agree_bind: "agree a b \<Longrightarrow> (\<And>x. agree (f x) (g x)) \<Longrightarrow> agree (bindE a f) (bindE b g)"
  by (auto simp: agree_def bindE_Inr_iff)

lemma agree_guard: "agree (guardE b e) (guardE b e')"
  by (simp add: agree_def)

lemma agree_map: "(\<And>x. agree (f x) (g x)) \<Longrightarrow> agree (mapE f xs) (mapE g xs)"
  by (induction xs) (auto intro: agree_bind agree_refl)

lemma agree_if: "agree a b \<Longrightarrow> agree c d \<Longrightarrow> agree (if t then a else c) (if t then b else d)"
  by simp

lemma agree_object:
  "(\<And>d. agree (f d) (g d)) \<Longrightarrow> agree a b \<Longrightarrow>
     agree (case v of JObj d \<Rightarrow> f d | _ \<Rightarrow> a) (case v of JObj d \<Rightarrow> g d | _ \<Rightarrow> b)"
  by (cases v) simp_all

lemma agree_array:
  "(\<And>d. agree (f d) (g d)) \<Longrightarrow> agree a b \<Longrightarrow>
     agree (case v of JArr d \<Rightarrow> f d | _ \<Rightarrow> a) (case v of JArr d \<Rightarrow> g d | _ \<Rightarrow> b)"
  by (cases v) simp_all

lemma agree_let: "agree (f v) (g v) \<Longrightarrow> agree (Let v f) (Let v g)"
  by simp

lemma agree_secret: "agree (reject_secret_fields py l v) (reject_secret_fields py l' v)"
  unfolding agree_def by (metis old.unit.exhaust reject_secret_fields_iff)

lemmas agree_rules = agree_refl agree_raise agree_bind agree_guard agree_map agree_if agree_object agree_array agree_let
  agree_secret

text \<open>The number of a line only appears in messages.\<close>

lemma validate_event_line: "agree (validate_event py contract n event) (validate_event py contract m event)"
  unfolding validate_event_def validate_fields_def require_sha256_def allowed_def allowed_or_null_def validate_algorithm_def
    validate_attributes_def
  by (intro agree_rules)

definition line_ok :: "py \<Rightarrow> (ustr \<times> json) list \<Rightarrow> ustr \<Rightarrow> bool" where
  "line_ok py contract line \<longleftrightarrow>
     strip line = [] \<or> (\<exists>event. loads line = Some (JObj event) \<and> validate_event py contract 1 event = Inr ())"

lemma validate_event_any: "validate_event py contract n event = Inr () \<longleftrightarrow> validate_event py contract 1 event = Inr ()"
  using validate_event_line [of py contract n event 1] by (simp add: agree_def)

lemma trace_events_iff:
  "(\<exists>events. trace_events py contract n lines = Inr events) \<longleftrightarrow> list_all (line_ok py contract) lines"
proof (induction lines arbitrary: n)
  case (Cons line lines)
  show ?case
  proof (cases "strip line = [] \<or> (\<exists>event. loads line = Some (JObj event))")
    case True
    then show ?thesis
      using Cons.IH [of "Suc n"] by (auto simp: line_ok_def bindE_Inr_iff validate_event_any [of py contract n])
  next
    case False
    then show ?thesis
      by (auto simp: line_ok_def bindE_Inr_iff split: option.splits json.splits exn.splits)
  qed
qed simp

lemma trace_events_Nil:
  "trace_events py contract n lines = Inr events \<Longrightarrow> events = [] \<longleftrightarrow> list_all (\<lambda>line. strip line = []) lines"
  by (induction lines arbitrary: n events) (auto simp: bindE_Inr_iff split: if_splits)

lemma validate_trace_iff:
  "(\<exists>s. validate_trace py env sel bs lines = Inr s) \<longleftrightarrow>
     (\<exists>contract. sel = Inr contract \<and> list_all (line_ok py contract) lines \<and> \<not> list_all (\<lambda>line. strip line = []) lines
        \<and> (\<exists>b. (case bs of Some (b # bs) \<Rightarrow> Inr (b # bs) | _ \<Rightarrow> utf8 (dumps (float_texts py (JObj contract)))) = Inr b))"
proof (cases sel)
  case (Inr contract)
  show ?thesis
    using trace_events_iff [of py contract 1 lines] trace_events_Nil [of py contract 1 lines]
    unfolding validate_trace_def Inr bindE_simps by (auto simp: bindE_Inr_iff)
qed (simp add: validate_trace_def)

lemma trace_ok_append:
  assumes "trace_ok py env file xs" and "trace_ok py env file ys"
  shows "trace_ok py env file (xs @ ys)"
  using assms unfolding trace_ok_def validate_trace_iff by (cases "xs = []"; cases "ys = []") auto

lemma trace_line_ok: "trace_line py env file event = Inr lines \<Longrightarrow> trace_ok py env file lines"
  by (auto simp: trace_line_def trace_ok_def elim!: bindE_InrE split: sum.splits exn.splits)

lemma trace_lines_ok:
  "trace_lines py env file ident timestamp version digest qs rs = Inr lines \<Longrightarrow> trace_ok py env file lines"
proof (induction qs arbitrary: rs lines)
  case Nil
  then show ?case by (cases rs) (simp_all add: trace_ok_def)
next
  case (Cons q qs)
  then show ?case
    by (cases rs) (auto elim!: bindE_InrE intro: trace_ok_append trace_line_ok)
qed

definition traces_ok :: "py \<Rightarrow> env \<Rightarrow> host \<Rightarrow> session \<Rightarrow> session \<Rightarrow> bool" where
  "traces_ok py env host s t \<longleftrightarrow> (\<exists>new. n_trace t = n_trace s @ new \<and> trace_ok py env (contract_file host) new)"

lemma traces_ok_same: "n_trace t = n_trace s \<Longrightarrow> traces_ok py env host s t"
  by (simp add: traces_ok_def trace_ok_def)

lemma traces_ok_trans: "traces_ok py env host s t \<Longrightarrow> traces_ok py env host t u \<Longrightarrow> traces_ok py env host s u"
  unfolding traces_ok_def by (metis append.assoc trace_ok_append)

lemma answer_traces_ok:
  assumes "answer_request py env host traced ident bs request s = (r, t)"
  shows "traces_ok py env host s t"
proof -
  obtain q w where q: "dispatch env (trace_provider_id ident) request (n_world s) = (q, w)" by fastforce
  show ?thesis
  proof (cases q)
    case (Inl e)
    then show ?thesis using answer_raised [OF q [unfolded Inl] assms] by (simp add: traces_ok_same)
  next
    case (Inr response)
    show ?thesis
    proof (rule answer_effect [OF q [unfolded Inr] assms])
      fix lines
      assume t: "n_trace t = n_trace s @ lines"
        and l: "lines \<noteq> [] \<Longrightarrow> \<exists>w'. trace_record py env (contract_file host) ident request response bs w = (Inr lines, w')"
      have "trace_ok py env (contract_file host) lines"
      proof (cases "lines = []")
        case False
        with l show ?thesis by (auto simp: trace_record_def bindM_Inr_iff liftM_def drawM_def intro: trace_lines_ok)
      qed (simp add: trace_ok_def)
      with t show ?thesis by (auto simp: traces_ok_def)
    qed
  qed
qed

interpretation evidence: connection_relation "traces_ok py env host" py env host traced ident
  for py env host traced ident
  by unfold_locales (auto intro: traces_ok_same traces_ok_trans answer_traces_ok)

text \<open>
  C32: the acceptance trace stays valid evidence. If the trace file is empty or accepted by the validator
  before a connection, it is so after it, whatever the client sent; so every recorded line has exactly
  the metadata fields of the checked-in contract.
\<close>

theorem trace_stays_valid:
  assumes "trace_ok py env (contract_file host) (n_trace s)" and "handle py env host config peer s = (r, t)"
  shows "trace_ok py env (contract_file host) (n_trace t)"
proof -
  have "traces_ok py env host s t"
    using assms(2)
  proof (rule handle_cases)
    fix ident i
    assume "serve_loop py env host (nat (max_request_bytes (c_limits config))) (c_interop_trace_path config \<noteq> None) ident
      (nat (max_requests_per_connection (c_limits config))) (s\<lparr>n_world := (n_world s)\<lparr>w_draw := i\<rparr>\<rparr>) = (r, t)"
    from evidence.looping [OF this] show ?thesis by (simp add: traces_ok_def)
  qed (simp add: traces_ok_same)
  with assms(1) show ?thesis by (auto simp: traces_ok_def intro: trace_ok_append)
qed

subsection \<open>Every request is answered\<close>

text \<open>A request on the wire: the canonical encoding of a Request Message within a size.\<close>

definition wire_request :: "nat \<Rightarrow> ttlv \<Rightarrow> bytes \<Rightarrow> bool" where
  "wire_request m request bs \<longleftrightarrow>
     decode bs = Inr request \<and> length bs \<le> m \<and> tag request = tg REQUEST_MESSAGE \<and> ty request = STRUCTURE"

lemma read_wire_request:
  assumes "wire_request m request bs" and "stream ps = (bs @ rest, f)"
  obtains ps' where "read_request m ps = (Inr (Some (bs, request)), ps')" "stream ps' = (rest, f)"
proof -
  have "fst (read_request m ps) = Inr (Some (bs, request))
      \<and> stream (snd (read_request m ps)) = (drop (length bs) (fst (stream ps)), snd (stream ps))"
    unfolding read_request_delivers using assms by (simp add: wire_request_def)
  then show thesis using that [of "snd (read_request m ps)"] assms(2) by (simp add: prod_eq_iff)
qed

lemma read_nothing: "stream ps = ([], False) \<Longrightarrow> \<exists>ps'. read_request m ps = (Inr None, ps')"
  using receive_exact_stream(1) [of ps 8] by (cases "receive_exact ps 8") (auto simp: read_request_def read_stream_def)

lemma loop_answers:
  assumes "\<And>i. send_at host i = Sent"
    and "list_all2 (wire_request m) requests bss" and "length requests \<le> n"
    and "mapM (dispatch env (trace_provider_id ident)) requests (n_world s) = (Inr responses, w)"
    and "mapE encode responses = Inr out" and "stream (n_incoming s) = (concat bss, False)"
  shows "\<exists>t. serve_loop py env host m False ident n s = (Inr (), t) \<and> n_sent t = n_sent s @ out \<and> n_world t = w
     \<and> n_trace t = n_trace s"
  using assms(2-6)
proof (induction requests arbitrary: bss n s responses out)
  case Nil
  then show ?case
    using read_nothing [of "n_incoming s" m] by (cases n) (auto simp: returnM_def serve_request_def)
next
  case (Cons request requests)
  obtain bs bss' where bss: "bss = bs # bss'" "wire_request m request bs" "list_all2 (wire_request m) requests bss'"
    using Cons.prems(1) by (auto simp: list_all2_Cons1)
  obtain n' where n: "n = Suc n'" "length requests \<le> n'" using Cons.prems(2) by (cases n) auto
  obtain response more u where d: "dispatch env (trace_provider_id ident) request (n_world s) = (Inr response, u)"
    "mapM (dispatch env (trace_provider_id ident)) requests u = (Inr more, w)" "responses = response # more"
    using Cons.prems(3) unfolding mapM_Inr_Cons by blast
  obtain b out' where b: "encode response = Inr b" "mapE encode more = Inr out'" "out = b # out'"
    using Cons.prems(4) d(3) by (auto simp: bindE_Inr_iff)
  obtain ps where ps: "read_request m (n_incoming s) = (Inr (Some (bs, request)), ps)" "stream ps = (concat bss', False)"
    using read_wire_request [OF bss(2), of "n_incoming s" "concat bss'" False] Cons.prems(5) bss(1) by auto
  define s' where "s' = s\<lparr>n_incoming := ps, n_world := u, n_log := n_log s @ log_response_failures request response,
      n_sent := n_sent s @ [b]\<rparr>"
  have "serve_request py env host m False ident s = (Inr True, s')"
    by (simp add: serve_request_def ps(1) answer_request_def d(1) b(1) Let_def sendall_def assms(1) s'_def)
  moreover from Cons.IH [OF bss(3) n(2) _ b(2), of s'] d(2) ps(2)
  have "\<exists>t. serve_loop py env host m False ident n' s' = (Inr (), t) \<and> n_sent t = n_sent s' @ out' \<and> n_world t = w
      \<and> n_trace t = n_trace s'" by (simp add: s'_def)
  ultimately show ?case by (auto simp: n(1) s'_def b(3))
qed

text \<open>
  C29: a mapped client is served while no acceptance trace is configured and the socket takes what is sent. When its
  stream is a sequence of well-formed requests, no longer than the limits allow, that the dispatcher answers with
  responses that can be encoded, then the handler answers each with the encoding of its response, in order, acting on the store as the dispatcher does in sequence, and ends without an error;
  this holds however the stream is cut into pieces.
\<close>

theorem connection_answers_requests:
  assumes "handshake_ok peer" and "peer_der peer = Some der" and "der \<noteq> []"
    and "map_of (fingerprint_providers config) (hex_of_bytes (sha256 env der)) = Some p"
    and "c_interop_trace_path config = None" and "\<And>i. send_at host i = Sent"
    and "list_all2 (wire_request (nat (max_request_bytes (c_limits config)))) requests bss"
    and "length requests \<le> nat (max_requests_per_connection (c_limits config))"
    and "mapM (dispatch env p) requests ((n_world s)\<lparr>w_draw := Suc (w_draw (n_world s))\<rparr>) = (Inr responses, w)"
    and "mapE encode responses = Inr out" and "stream (n_incoming s) = (concat bss, False)"
  shows "\<exists>t. handle py env host config peer s = (Inr (), t) \<and> n_sent t = n_sent s @ out \<and> n_world t = w"
proof -
  let ?ident = "\<lparr>connection_id = uuid4_text (urandom env (w_draw (n_world s)) 16),
      client_cert_sha256 = hex_of_bytes (sha256 env der), trace_provider_id = p\<rparr>"
  from loop_answers [OF assms(6,7,8), of env ?ident "s\<lparr>n_world := (n_world s)\<lparr>w_draw := Suc (w_draw (n_world s))\<rparr>\<rparr>"
      responses w out py] assms(9-11)
  obtain t where "serve_loop py env host (nat (max_request_bytes (c_limits config))) False ?ident
      (nat (max_requests_per_connection (c_limits config))) (s\<lparr>n_world := (n_world s)\<lparr>w_draw := Suc (w_draw (n_world s))\<rparr>\<rparr>)
      = (Inr (), t)" "n_sent t = n_sent s @ out" "n_world t = w" by auto
  then show ?thesis using assms(1-5) by (auto simp: handle_def Let_def)
qed

subsection \<open>A concrete connection\<close>

definition demo_host :: host where
  "demo_host = \<lparr>append_at = (\<lambda>i. Appended), send_at = (\<lambda>i. Sent), contract_file = Inr (dumps (JObj vcf_9_1))\<rparr>"

definition demo_peer :: peer where
  "demo_peer = \<lparr>handshake_ok = True, peer_der = Some [0]\<rparr>"

definition demo_session :: "packet list \<Rightarrow> session" where
  "demo_session ps = \<lparr>n_world = demo_world, n_incoming = ps, n_sent = [], n_trace = [], n_log = []\<rparr>"

definition demo_request :: ttlv where
  "demo_request = single_request DISCOVER_VERSIONS []"

definition demo_response :: ttlv where
  "demo_response = response_message (1, 4) 1767225600
     [success_batch DISCOVER_VERSIONS None (map version_node SUPPORTED_PROTOCOL_VERSIONS)]"

lemma demo_discover:
  "dispatch demo_env p demo_request w = (Inr demo_response, w\<lparr>w_draw := Suc (w_draw w)\<rparr>)"
  by (simp add: demo_request_def demo_response_def dispatch_single item_answer_def dispatch_operation_def op_discover_versions_def
      liftM_def children_def children_tag_def structure_node_def demo_env_def bindE_def only_tags_def assert_only_tags_def ttlv_as_def)

lemma demo_request_encodes: "\<exists>bs. encode demo_request = Inr bs \<and> length bs \<le> 4096"
  by (simp add: demo_request_def single_request_def ttlv_builders encode.simps encoded_value.simps pack_signed_def signed_fits_def pad_len_def MAX_MESSAGE_BYTES_def SUCCESS_def version_node_def tg.simps)

lemma demo_response_encodes: "\<exists>bs. encode demo_response = Inr bs"
  by (simp add: demo_response_def response_message_def success_batch_def id_node_def SUPPORTED_PROTOCOL_VERSIONS_def
     ttlv_builders encode.simps encoded_value.simps pack_signed_def signed_fits_def pad_len_def MAX_MESSAGE_BYTES_def SUCCESS_def version_node_def tg.simps)

lemma demo_mapped: "map_of (fingerprint_providers demo_config) (hex_of_bytes (sha256 demo_env [0])) = Some demo_provider"
  by (simp add: fingerprint_providers_def demo_config_def demo_config_provider_def)

theorem handle_ignores_fragmentation_witness:
  "map_prod id (\<lambda>s. s\<lparr>n_incoming := []\<rparr>) (handle demo_py demo_env demo_host demo_config demo_peer (demo_session [Chunk [66, 0]]))
    = map_prod id (\<lambda>s. s\<lparr>n_incoming := []\<rparr>)
        (handle demo_py demo_env demo_host demo_config demo_peer (demo_session [Chunk [66], Chunk [0]]))"
  using handle_ignores_fragmentation [of "[Chunk [66, 0]]" "[Chunk [66], Chunk [0]]" demo_py demo_env demo_host demo_config
      demo_peer "demo_session []"]
  by (simp add: demo_session_def)

theorem unmapped_client_reaches_nothing_witness:
  "\<exists>l. handle demo_py demo_env demo_host demo_config (demo_peer\<lparr>peer_der := None\<rparr>) (demo_session [Chunk [66]])
     = (Inr (), (demo_session [Chunk [66]])\<lparr>n_log := l\<rparr>) \<and> set l \<subseteq> {Unmapped_certificate}"
  using unmapped_client_reaches_nothing [of "demo_peer\<lparr>peer_der := None\<rparr>" demo_config demo_env demo_py demo_host
      "demo_session [Chunk [66]]"]
  by (simp add: demo_session_def)

theorem connection_isolated_witness:
  "\<exists>M' new. running demo_env demo_master demo_kek M'
      (n_world (snd (handle demo_py demo_env demo_host demo_config demo_peer (demo_session [Chunk [66]]))))
    \<and> (\<forall>b \<in> set new. discloses_own demo_env demo_provider M' b)"
proof -
  have r: "running demo_env demo_master demo_kek Map.empty (n_world (demo_session [Chunk [66]]))"
    using demo_running by (simp add: demo_session_def)
  have m: "map_of (fingerprint_providers demo_config) (hex_of_bytes (sha256 demo_env (the (peer_der demo_peer)))) = Some demo_provider"
    by (simp add: demo_peer_def demo_mapped)
  show ?thesis
    using connection_isolated [OF r m, of demo_py demo_host
        "fst (handle demo_py demo_env demo_host demo_config demo_peer (demo_session [Chunk [66]]))"
        "snd (handle demo_py demo_env demo_host demo_config demo_peer (demo_session [Chunk [66]]))"] by auto
qed

theorem connection_bounded_witness:
  "length (n_sent (snd (handle demo_py demo_env demo_host demo_config demo_peer (demo_session [Chunk [66]])))) \<le> 8"
  using connection_bounded [OF demo_config_parsed, of demo_host demo_peer "demo_session [Chunk [66]]"
      "fst (handle demo_py demo_env demo_host demo_config demo_peer (demo_session [Chunk [66]]))"
      "snd (handle demo_py demo_env demo_host demo_config demo_peer (demo_session [Chunk [66]]))"]
  by (simp add: demo_session_def) (simp add: demo_config_def)

theorem trace_stays_valid_witness:
  "\<exists>bs. encode demo_request = Inr bs
     \<and> trace_ok demo_py demo_env (contract_file demo_host)
         (n_trace (snd (handle demo_py demo_env demo_host (demo_config\<lparr>c_interop_trace_path := Some (lit ''/trace'')\<rparr>) demo_peer (demo_session [Chunk bs]))))"
proof -
  obtain bs where bs: "encode demo_request = Inr bs" using demo_request_encodes by blast
  let ?run = "handle demo_py demo_env demo_host (demo_config\<lparr>c_interop_trace_path := Some (lit ''/trace'')\<rparr>) demo_peer (demo_session [Chunk bs])"
  show ?thesis
    using bs trace_stays_valid [of demo_py demo_env demo_host "demo_session [Chunk bs]"
        "demo_config\<lparr>c_interop_trace_path := Some (lit ''/trace'')\<rparr>" demo_peer "fst ?run" "snd ?run"]
    by (simp add: trace_ok_def demo_session_def)
qed

theorem connection_answers_requests_witness:
  "\<exists>bs out t. encode demo_request = Inr bs \<and> encode demo_response = Inr out
     \<and> handle demo_py demo_env demo_host demo_config demo_peer (demo_session [Chunk bs]) = (Inr (), t) \<and> n_sent t = [out]"
proof -
  obtain bs where bs: "encode demo_request = Inr bs" "length bs \<le> 4096" using demo_request_encodes by blast
  obtain out where out: "encode demo_response = Inr out" using demo_response_encodes by blast
  have d: "decode bs = Inr demo_request"
    using bs(1) by (intro decode_encode) (simp_all add: demo_request_def single_request_def ttlv_builders version_node_def
        node_depth.simps node_count.simps MAX_NESTING_DEPTH_def MAX_NODE_COUNT_def)
  have "wire_request 4096 demo_request bs"
    using d bs(2) by (simp add: wire_request_def) (simp add: demo_request_def single_request_def structure_node_def)
  then have w: "list_all2 (wire_request (nat (max_request_bytes (c_limits demo_config)))) [demo_request] [bs]"
    by (simp add: demo_config_def)
  have e: "bs \<noteq> []" using encode_length_ge [OF bs(1)] by auto
  have s: "stream (n_incoming (demo_session [Chunk bs])) = (concat [bs], False)" using e by (simp add: demo_session_def)
  have "\<exists>t. handle demo_py demo_env demo_host demo_config demo_peer (demo_session [Chunk bs]) = (Inr (), t)
      \<and> n_sent t = n_sent (demo_session [Chunk bs]) @ [out]
      \<and> n_world t = demo_world\<lparr>w_draw := Suc (Suc (w_draw demo_world))\<rparr>"
    by (rule connection_answers_requests [OF _ _ _ demo_mapped _ _ w _ _ _ s])
      (simp_all add: demo_peer_def demo_host_def demo_discover demo_session_def returnM_def out, simp_all add: demo_config_def out)
  then show ?thesis using bs(1) out by (auto simp: demo_session_def)
qed

end
