(* ===== verification/Appliance.thy ===== *)
theory Appliance
  imports ServerProps
begin

text \<open>
  The whole process over time: connections, power losses and restarts as a step relation, and the
  abstract map of keys that it implements.
\<close>

text \<open>
  The process of the service together with its store. While it is up it serves requests of any of its
  authenticated connections, in any order, or a whole connection; the machine may stop inside one or
  between two; it is started again, which may fail.
\<close>

inductive appliance :: "py \<Rightarrow> env \<Rightarrow> host \<Rightarrow> service_config \<Rightarrow> ustr \<Rightarrow> bool \<times> world \<Rightarrow> bool \<times> world \<Rightarrow> bool"
  for py env host config sk where
  serves: "handle py env host config peer s = (r, t) \<Longrightarrow> r \<noteq> Inl PowerLoss
     \<Longrightarrow> appliance py env host config sk (True, n_world s) (True, n_world t)"
| cut: "handle py env host config peer s = (Inl PowerLoss, t)
     \<Longrightarrow> appliance py env host config sk (True, n_world s) (False, n_world t)"
| request: "map_of (fingerprint_providers config) (client_cert_sha256 ident) = Some (trace_provider_id ident)
     \<Longrightarrow> serve_request py env host m traced ident s = (r, t) \<Longrightarrow> r \<noteq> Inl PowerLoss
     \<Longrightarrow> appliance py env host config sk (True, n_world s) (True, n_world t)"
| request_cut: "map_of (fingerprint_providers config) (client_cert_sha256 ident) = Some (trace_provider_id ident)
     \<Longrightarrow> serve_request py env host m traced ident s = (Inl PowerLoss, t)
     \<Longrightarrow> appliance py env host config sk (True, n_world s) (False, n_world t)"
| stop: "appliance py env host config sk (True, w) (False, w)"
| start: "init_store env sk False w = (Inr (), w') \<Longrightarrow> appliance py env host config sk (False, w) (True, w')"
| start_failed: "init_store env sk False w = (Inl e, w') \<Longrightarrow> appliance py env host config sk (False, w) (False, w')"

text \<open>
  The specification: a map of keys that only grows, and only in the namespaces of the configured
  providers.
\<close>

definition configured :: "env \<Rightarrow> service_config \<Rightarrow> ustr set" where
  "configured env config = {q. \<exists>p \<in> set (c_providers config). uuid_canon (uni env) (p_id p) = Some q}"

definition grows_within :: "env \<Rightarrow> service_config \<Rightarrow> key_map \<Rightarrow> key_map \<Rightarrow> bool" where
  "grows_within env config M M' \<longleftrightarrow> grows M M' \<and> (\<forall>k. fst k \<notin> configured env config \<longrightarrow> M' k = M k)"

lemma grows_within_refl: "grows_within env config M M"
  by (simp add: grows_within_def)

lemma grows_within_trans: "grows_within env config M M' \<Longrightarrow> grows_within env config M' M'' \<Longrightarrow> grows_within env config M M''"
  by (auto simp: grows_within_def intro: grows_trans)

lemma mapped_configured:
  assumes "map_of (fingerprint_providers config) f = Some p" and "uuid_canon (uni env) p = Some q"
  shows "q \<in> configured env config"
proof -
  have "(f, p) \<in> set (concat (map (\<lambda>p. map (\<lambda>f. (f, p_id p)) (p_client_fingerprints p)) (c_providers config)))"
    using assms(1) unfolding fingerprint_providers_def fold_dict_put by (auto dest: map_of_SomeD)
  then show ?thesis using assms(2) by (auto simp: configured_def)
qed

text \<open>No connection touches the sealed recovery master.\<close>

lemma dispatch_recovery: "keeps (\<lambda>w. d_recovery (w_disk w) = R) (dispatch env p request)"
proof -
  have o: "keeps (\<lambda>w. d_recovery (w_disk w) = R) (dispatch_operation env p op payload)" for op payload
    unfolding dispatch_operation_def op_create_def op_activate_def op_get_def op_get_attributes_def Let_def
      op_get_attribute_list_def op_locate_def
    by (cases op) (simp_all, (intro recovery_rules operations_keep_recovery)+)
  have "keeps (\<lambda>w. d_recovery (w_disk w) = R) (process_item env p counts n item)" for counts n item
    unfolding process_item_def run_item_def answer_failure_def by (auto intro!: recovery_rules o split: sum.split)
  then show ?thesis unfolding dispatch_def by (intro recovery_rules)
qed

definition same_recovery :: "session \<Rightarrow> session \<Rightarrow> bool" where
  "same_recovery s t \<longleftrightarrow> d_recovery (w_disk (n_world t)) = d_recovery (w_disk (n_world s))"

lemma answer_recovery:
  assumes "answer_request py env host traced ident bs request s = (r, t)"
  shows "same_recovery s t"
proof -
  obtain q w where q: "dispatch env (trace_provider_id ident) request (n_world s) = (q, w)" by fastforce
  have w: "d_recovery (w_disk w) = d_recovery (w_disk (n_world s))" by (rule keepsD [OF dispatch_recovery q]) simp
  show ?thesis
  proof (cases q)
    case (Inl e)
    then show ?thesis using answer_raised [OF q [unfolded Inl] assms] w by (simp add: same_recovery_def)
  next
    case (Inr response)
    show ?thesis by (rule answer_effect [OF q [unfolded Inr] assms]) (simp add: same_recovery_def w)
  qed
qed

interpretation recovery_file: connection_relation same_recovery py env host traced ident for py env host traced ident
  by unfold_locales (auto simp: same_recovery_def dest: answer_recovery [unfolded same_recovery_def])

lemma handle_recovery: "handle py env host config peer s = (r, t) \<Longrightarrow> same_recovery s t"
  by (erule handle_cases) (auto simp: same_recovery_def dest!: recovery_file.looping)

text \<open>One connection refines the growth of the map.\<close>

lemma provider_grows:
  assumes "map_of (fingerprint_providers config) f = Some p" and "grows M M'" and "only_provider (uuid_canon (uni env) p) M M'"
  shows "grows_within env config M M'"
  using assms mapped_configured [OF assms(1), of env] by (force simp: grows_within_def only_provider_def)

lemma request_grows:
  assumes "running env master kek M (n_world s)"
    and "map_of (fingerprint_providers config) (client_cert_sha256 ident) = Some (trace_provider_id ident)"
    and "serve_request py env host m traced ident s = (r, t)"
  shows "\<exists>M'. running env master kek M' (n_world t) \<and> grows_within env config M M'"
  using provider_space.serving [OF assms(3), of master kek] assms(1) provider_grows [OF assms(2), of M _ env]
  unfolding in_namespace_def by blast

lemma handle_grows:
  assumes "running env master kek M (n_world s)" and "handle py env host config peer s = (r, t)"
  shows "\<exists>M'. running env master kek M' (n_world t) \<and> grows_within env config M M'"
proof (cases "handshake_ok peer \<and> peer_der peer \<noteq> None \<and> peer_der peer \<noteq> Some []
    \<and> map_of (fingerprint_providers config) (hex_of_bytes (sha256 env (the (peer_der peer)))) \<noteq> None")
  case False
  then have "n_world t = n_world s" using assms(2) by (auto simp: handle_def Let_def split: option.splits if_splits)
  then show ?thesis using assms(1) grows_within_refl by auto
next
  case True
  then obtain p where p: "map_of (fingerprint_providers config) (hex_of_bytes (sha256 env (the (peer_der peer)))) = Some p" by auto
  from mapped_in_namespace [OF assms(1) p assms(2)] obtain M' where
    "running env master kek M' (n_world t)" "grows M M'" "only_provider (uuid_canon (uni env) p) M M'" by blast
  then show ?thesis
    using provider_grows [OF p] by blast
qed

lemma step_stores:
  assumes "stores env sk master kek M (True, n_world u)" and "same_recovery u t"
    and "running env master kek M (n_world u) \<Longrightarrow> \<exists>M'. running env master kek M' (n_world t) \<and> grows_within env config M M'"
  shows "\<exists>M'. grows_within env config M M' \<and> stores env sk master kek M' (up, n_world t)"
proof -
  have r: "running env master kek M (n_world u)" "master_of env sk (w_disk (n_world u)) = Inr master"
    using assms(1) by (simp_all add: stores_def)
  obtain M' where "running env master kek M' (n_world t)" "grows_within env config M M'" using assms(3) [OF r(1)] by blast
  then show ?thesis
    using r(2) master_of_cong [OF assms(2) [unfolded same_recovery_def], of env sk] running_stopped by (auto simp: stores_def)
qed

lemma appliance_stores:
  assumes "stores env sk master kek M s" and "appliance py env host config sk s s'"
  shows "\<exists>M'. grows_within env config M M' \<and> stores env sk master kek M' s'"
  using assms(2,1)
proof cases
  case (serves peer u r t)
  have "stores env sk master kek M (True, n_world u)" using assms(1) serves(1) by simp
  from step_stores [OF this handle_recovery [OF serves(3)] handle_grows [OF _ serves(3)]] show ?thesis using serves(2) by blast
next
  case (cut peer u t)
  have "stores env sk master kek M (True, n_world u)" using assms(1) cut(1) by simp
  from step_stores [OF this handle_recovery [OF cut(3)] handle_grows [OF _ cut(3)]] show ?thesis using cut(2) by blast
next
  case (request ident m traced u r t)
  have "stores env sk master kek M (True, n_world u)" using assms(1) request(1) by simp
  from step_stores [OF this recovery_file.serving [OF request(4)] request_grows [OF _ request(3,4)]] show ?thesis using request(2) by blast
next
  case (request_cut ident m traced u t)
  have "stores env sk master kek M (True, n_world u)" using assms(1) request_cut(1) by simp
  from step_stores [OF this recovery_file.serving [OF request_cut(4)] request_grows [OF _ request_cut(3,4)]] show ?thesis using request_cut(2) by blast
next
  case (stop w)
  then show ?thesis
    using assms(1) grows_within_refl running_stopped by (auto simp: stores_def intro!: exI [of _ M])
next
  case (start w w')
  then show ?thesis
    using start_stores [of env sk master kek M w] assms(1) grows_within_refl by (auto intro!: exI [of _ M])
next
  case (start_failed w e w')
  then show ?thesis
    using start_stores [of env sk master kek M w "Inl e"] assms(1) grows_within_refl by (auto intro!: exI [of _ M])
qed

interpretation appliance_life: forward_simulation "appliance py env host config sk" "stores env sk master kek" "grows_within env config"
  for py env host config sk master kek
  by unfold_locales (auto intro: appliance_stores grows_within_refl grows_within_trans)

end
