(* ===== verification/Listener.thy ===== *)
theory Listener
  imports Config
begin

text \<open>
  The connection slots of \<open>KmipTcpServer\<close> and \<open>KmipTcpServerGroup\<close> (\<open>atlaso/app/kmip/server.py\<close>):
  a bounded semaphore that every listener and every connection thread of the process shares. Each
  operation below is one step that no other thread interrupts; the steps of different connections
  interleave freely.
\<close>

text \<open>A connection between its slot's acquisition and release: accepted, wrapped for TLS, in its thread.\<close>

datatype phase = Accepted | Wrapped | Serving

record slots =
  bound :: nat
  free :: nat
  connections :: "(nat \<times> phase) list"

text \<open>\<open>threading.BoundedSemaphore\<close>.\<close>

definition acquire :: "slots \<Rightarrow> slots option" where
  "acquire s = (if free s = 0 then None else Some (s\<lparr>free := free s - 1\<rparr>))"

definition release :: "slots \<Rightarrow> slots res" where
  "release s = (if bound s \<le> free s then Inl (ValueError ''Semaphore released too many times'')
                else Inr (s\<lparr>free := Suc (free s)\<rparr>))"

definition new_slots :: "service_config \<Rightarrow> slots" where
  "new_slots config = \<lparr>bound = nat (max_connections (c_limits config)), free = nat (max_connections (c_limits config)),
     connections = []\<rparr>"

definition enter :: "nat \<Rightarrow> phase \<Rightarrow> slots \<Rightarrow> slots" where
  "enter c p s = s\<lparr>connections := dict_put c p (connections s)\<rparr>"

definition leave :: "nat \<Rightarrow> slots \<Rightarrow> slots" where
  "leave c s = s\<lparr>connections := filter (\<lambda>x. fst x \<noteq> c) (connections s)\<rparr>"

text \<open>
  \<open>get_request\<close>: a connection that finds no slot is closed with a \<open>ConnectionAbortedError\<close>, an
  \<open>OSError\<close>, which the accept loop ignores. A wrap that fails gives the slot back and re-raises.
\<close>

definition get_request_acquire :: "nat \<Rightarrow> slots \<Rightarrow> unit res \<times> slots" where
  "get_request_acquire c s =
     (case acquire s of None \<Rightarrow> (Inl OSError, s) | Some s' \<Rightarrow> (Inr (), enter c Accepted s'))"

definition give_back :: "nat \<Rightarrow> exn \<Rightarrow> slots \<Rightarrow> unit res \<times> slots" where
  "give_back c e s = (case release s of Inl e' \<Rightarrow> (Inl e', s) | Inr s' \<Rightarrow> (Inl e, leave c s'))"

definition get_request_wrap :: "nat \<Rightarrow> exn option \<Rightarrow> slots \<Rightarrow> unit res \<times> slots" where
  "get_request_wrap c failure s =
     (case failure of None \<Rightarrow> (Inr (), enter c Wrapped s) | Some e \<Rightarrow> give_back c e s)"

text \<open>\<open>process_request\<close>: the thread is started, or the slot is given back and the failure re-raised.\<close>

definition process_request :: "nat \<Rightarrow> exn option \<Rightarrow> slots \<Rightarrow> unit res \<times> slots" where
  "process_request c failure s =
     (case failure of None \<Rightarrow> (Inr (), enter c Serving s) | Some e \<Rightarrow> give_back c e s)"

text \<open>\<open>process_request_thread\<close>: whatever the handler does, \<open>finally\<close> gives the slot back.\<close>

definition process_request_thread_end :: "nat \<Rightarrow> slots \<Rightarrow> unit res \<times> slots" where
  "process_request_thread_end c s =
     (case release s of Inl e \<Rightarrow> (Inl e, s) | Inr s' \<Rightarrow> (Inr (), leave c s'))"

inductive slot_step :: "slots \<Rightarrow> unit res \<Rightarrow> slots \<Rightarrow> bool" where
  accept: "map_of (connections s) c = None \<Longrightarrow> get_request_acquire c s = (r, s') \<Longrightarrow> slot_step s r s'"
| wrap: "map_of (connections s) c = Some Accepted \<Longrightarrow> get_request_wrap c failure s = (r, s') \<Longrightarrow> slot_step s r s'"
| start: "map_of (connections s) c = Some Wrapped \<Longrightarrow> process_request c failure s = (r, s') \<Longrightarrow> slot_step s r s'"
| finish: "map_of (connections s) c = Some Serving \<Longrightarrow> process_request_thread_end c s = (r, s') \<Longrightarrow> slot_step s r s'"

inductive slot_run :: "slots \<Rightarrow> slots \<Rightarrow> bool" where
  stay: "slot_run s s"
| move: "slot_run s t \<Longrightarrow> slot_step t r u \<Longrightarrow> slot_run s u"

subsection \<open>Every slot is accounted for\<close>

definition slots_ok :: "slots \<Rightarrow> bool" where
  "slots_ok s \<longleftrightarrow> distinct (map fst (connections s)) \<and> free s + length (connections s) = bound s"

lemma enter_fresh [simp]:
  "map_of (connections s) c = None \<Longrightarrow> slots_ok (enter c p (s\<lparr>free := f\<rparr>)) \<longleftrightarrow>
     distinct (map fst (connections s)) \<and> f + Suc (length (connections s)) = bound s"
  by (simp add: slots_ok_def enter_def map_of_eq_None_iff dict_put_fresh)

lemma enter_again [simp]:
  assumes "map_of (connections s) c = Some q"
  shows "slots_ok (enter c p s) \<longleftrightarrow> slots_ok s"
proof -
  have c: "c \<in> fst ` set (connections s)" using assms map_of_SomeD by force
  then have k: "map fst (dict_put c p (connections s)) = map fst (connections s)" by (simp add: dict_put_keys)
  then have "length (dict_put c p (connections s)) = length (connections s)" by (metis length_map)
  with k show ?thesis by (simp add: slots_ok_def enter_def)
qed

lemma leave_one:
  assumes "slots_ok s" and "map_of (connections s) c = Some q"
  shows "release s = Inr (s\<lparr>free := Suc (free s)\<rparr>)" "slots_ok (leave c (s\<lparr>free := Suc (free s)\<rparr>))"
proof -
  have c: "(c, q) \<in> set (connections s)" using assms(2) by (rule map_of_SomeD)
  then have n: "0 < length (connections s)" by (cases "connections s") auto
  then have "\<not> bound s \<le> free s" using assms(1) unfolding slots_ok_def by linarith
  then show "release s = Inr (s\<lparr>free := Suc (free s)\<rparr>)" by (simp add: release_def)
  have "length (filter (\<lambda>x. fst x \<noteq> c) (connections s)) = length (filter (\<lambda>k. k \<noteq> c) (map fst (connections s)))"
    by (simp add: filter_map comp_def)
  also have "\<dots> = length (remove1 c (map fst (connections s)))"
    using assms(1) by (simp add: slots_ok_def distinct_remove1_removeAll removeAll_filter_not_eq eq_commute)
  also have "\<dots> = length (connections s) - 1"
    using c by (subst length_remove1) force
  finally show "slots_ok (leave c (s\<lparr>free := Suc (free s)\<rparr>))"
    using assms(1) Suc_pred [OF n] by (auto simp: slots_ok_def leave_def distinct_map inj_on_def)
qed

lemma give_back_ok:
  assumes "slots_ok s" and "map_of (connections s) c = Some q" and "give_back c e s = (r, s')"
  shows "slots_ok s' \<and> bound s' = bound s \<and> r = Inl e"
  using leave_one [OF assms(1,2)] assms(3) by (auto simp: give_back_def leave_def)

lemma slot_step_ok: "slot_step s r s' \<Longrightarrow> slots_ok s \<Longrightarrow> slots_ok s' \<and> bound s' = bound s"
proof (induction rule: slot_step.induct)
  case (accept s c r s')
  then show ?case
    by (cases "free s = 0") (auto simp: get_request_acquire_def acquire_def slots_ok_def [of s], simp_all add: enter_def slots_ok_def)
next
  case (wrap s c failure r s')
  then show ?case
    using give_back_ok [of s c Accepted] by (auto simp: get_request_wrap_def split: option.splits) (simp add: enter_def)
next
  case (start s c failure r s')
  then show ?case
    using give_back_ok [of s c Wrapped] by (auto simp: process_request_def split: option.splits) (simp add: enter_def)
next
  case (finish s c r s')
  then show ?case
    using leave_one [of s c Serving] by (auto simp: process_request_thread_end_def leave_def)
qed

lemma slot_run_ok: "slot_run s t \<Longrightarrow> slots_ok s \<Longrightarrow> slots_ok t \<and> bound t = bound s"
  by (induction rule: slot_run.induct) (auto dest: slot_step_ok)

lemma new_slots_ok: "slots_ok (new_slots config)" "bound (new_slots config) = nat (max_connections (c_limits config))"
  by (simp_all add: slots_ok_def new_slots_def)

text \<open>
  C31: the connection limit is exact. However accepts, failed wraps, failed thread starts and ending
  threads of all listeners interleave, the free slots and the open connections add up to the configured
  maximum, a new connection is refused exactly when that many are open, and no thread ever releases the
  semaphore beyond its bound.
\<close>

theorem slots_conserved:
  assumes "slot_run (new_slots config) s"
  shows "free s + length (connections s) = nat (max_connections (c_limits config))
    \<and> (acquire s = None \<longleftrightarrow> length (connections s) = nat (max_connections (c_limits config)))
    \<and> (\<forall>c. map_of (connections s) c \<noteq> None \<longrightarrow> release s = Inr (s\<lparr>free := Suc (free s)\<rparr>))"
proof -
  have s: "slots_ok s" "bound s = nat (max_connections (c_limits config))"
    using slot_run_ok [OF assms new_slots_ok(1)] new_slots_ok(2) by auto
  then show ?thesis using leave_one(1) [OF s(1)] by (auto simp: slots_ok_def acquire_def)
qed

lemma slot_run_trans: "slot_run t u \<Longrightarrow> slot_run s t \<Longrightarrow> slot_run s u"
  by (induction rule: slot_run.induct) (auto intro: slot_run.move)

lemma enter_map [simp]: "map_of (connections (enter c p s)) c = Some p"
proof -
  have "map_of (dict_put c p d) c = Some p" for d :: "(nat \<times> phase) list"
    by (induction c p d rule: dict_put.induct) auto
  then show ?thesis by (simp add: enter_def)
qed

lemma leave_enter [simp]: "leave c (enter c p s) = leave c s"
proof -
  have "filter (\<lambda>x. fst x \<noteq> c) (dict_put c p d) = filter (\<lambda>x. fst x \<noteq> c) d" for d :: "(nat \<times> phase) list"
    by (induction c p d rule: dict_put.induct) auto
  then show ?thesis by (simp add: leave_def enter_def)
qed

text \<open>From any state with an open connection, that connection can run to its end.\<close>

lemma finish_one:
  assumes "slots_ok s" and "map_of (connections s) c = Some p"
  shows "slot_run s (leave c (s\<lparr>free := Suc (free s)\<rparr>))"
proof -
  have fin: "slot_step t (Inr ()) (leave c (t\<lparr>free := Suc (free t)\<rparr>))" if "slots_ok t" "map_of (connections t) c = Some Serving" for t
    using leave_one(1) [OF that] that(2) by (intro slot_step.finish [of t c]) (simp_all add: process_request_thread_end_def)
  have wr: "slot_step t (Inr ()) (enter c Wrapped t)" if "map_of (connections t) c = Some Accepted" for t
    using that by (intro slot_step.wrap [of t c None]) (simp_all add: get_request_wrap_def)
  have st: "slot_step t (Inr ()) (enter c Serving t)" if "map_of (connections t) c = Some Wrapped" for t
    using that by (intro slot_step.start [of t c None]) (simp_all add: process_request_def)
  have e: "leave c ((enter c q t)\<lparr>free := f\<rparr>) = leave c (t\<lparr>free := f\<rparr>)" for q t f
  proof -
    have "(enter c q t)\<lparr>free := f\<rparr> = enter c q (t\<lparr>free := f\<rparr>)" by (simp add: enter_def)
    then show ?thesis by simp
  qed
  have fe: "free (enter c q t) = free t" for q t by (simp add: enter_def)
  have serving: "slot_run (enter c Serving t) (leave c (t\<lparr>free := Suc (free t)\<rparr>))" if "slots_ok (enter c Serving t)" for t
    using slot_run.move [OF slot_run.stay fin [OF that]] by (simp add: e fe)
  have wrapped: "slot_run (enter c Wrapped t) (leave c (t\<lparr>free := Suc (free t)\<rparr>))" if "slots_ok (enter c Wrapped t)" for t
  proof -
    have "slots_ok (enter c Serving (enter c Wrapped t))" using that enter_again [of "enter c Wrapped t" c] by simp
    from serving [OF this] show ?thesis
      using slot_run_trans [OF _ slot_run.move [OF slot_run.stay st [of "enter c Wrapped t"]]] by (simp add: e fe)
  qed
  show ?thesis
  proof (cases p)
    case Accepted
    then show ?thesis
      using slot_run_trans [OF wrapped [of s] slot_run.move [OF slot_run.stay wr [of s]]] assms by simp
  next
    case Wrapped
    then show ?thesis
      using slot_run_trans [OF serving [of s] slot_run.move [OF slot_run.stay st [of s]]] assms by simp
  next
    case Serving
    then show ?thesis using slot_run.move [OF slot_run.stay fin [OF assms(1)]] assms(2) by simp
  qed
qed

text \<open>
  No slot is lost. From every state the process can reach, the open connections can end, and when
  they have the semaphore is back at the configured maximum.
\<close>

theorem slots_recover:
  assumes "slot_run (new_slots config) s"
  shows "\<exists>t. slot_run s t \<and> connections t = [] \<and> free t = nat (max_connections (c_limits config))"
proof -
  have "slots_ok s \<Longrightarrow> \<exists>t. slot_run s t \<and> connections t = []" for s
  proof (induction "length (connections s)" arbitrary: s rule: less_induct)
    case less
    show ?case
    proof (cases "connections s")
      case Nil
      then show ?thesis using slot_run.stay by blast
    next
      case (Cons x xs)
      obtain c p where x: "x = (c, p)" by fastforce
      then have m: "map_of (connections s) c = Some p" using Cons by simp
      let ?t = "leave c (s\<lparr>free := Suc (free s)\<rparr>)"
      have "length (connections ?t) < length (connections s)" using Cons x by (simp add: leave_def le_imp_less_Suc)
      from less.hyps [OF this leave_one(2) [OF less.prems m]] show ?thesis
        using slot_run_trans finish_one [OF less.prems m] by blast
    qed
  qed
  moreover have "slots_ok s" using slot_run_ok [OF assms new_slots_ok(1)] by simp
  ultimately obtain t where t: "slot_run s t" "connections t = []" by blast
  from slot_run_ok [OF slot_run_trans [OF t(1) assms] new_slots_ok(1)] t show ?thesis
    using new_slots_ok(2) by (intro exI [of _ t]) (simp add: slots_ok_def)
qed

subsection \<open>A concrete run\<close>

definition demo_limits :: service_config where
  "demo_limits = \<lparr>c_enabled = True, c_listen_addresses = [], c_port = 5696, c_certificate_path = [], c_private_key_path = [],
     c_ca_path = [], c_database_path = [], c_kek_path = [],
     c_limits = \<lparr>max_request_bytes = 4096, max_connections = 1, idle_timeout_seconds = 30, max_requests_per_connection = 8\<rparr>,
     c_providers = [], c_interop_trace_path = None\<rparr>"

lemma demo_slot_run: "slot_run (new_slots demo_limits) \<lparr>bound = 1, free = 0, connections = [(7, Accepted)]\<rparr>"
  by (rule slot_run.move [OF slot_run.stay slot_step.accept [of _ 7 "Inr ()"]])
    (simp_all add: new_slots_def demo_limits_def get_request_acquire_def acquire_def enter_def)

theorem slots_conserved_witness:
  "acquire \<lparr>bound = 1, free = 0, connections = [(7, Accepted)]\<rparr> = None"
  using slots_conserved [OF demo_slot_run] by (simp add: demo_limits_def)

theorem slots_recover_witness:
  "\<exists>t. slot_run \<lparr>bound = 1, free = 0, connections = [(7, Accepted)]\<rparr> t \<and> connections t = [] \<and> free t = 1"
  using slots_recover [OF demo_slot_run] by (simp add: demo_limits_def)

end
