(* ===== verification/Service.thy ===== *)
theory Service
  imports Config Store
begin

text \<open>
  The command of the service (\<open>main\<close>, \<open>check_config\<close>, \<open>tls_context\<close> and \<open>_load_secrets_key\<close> of
  \<open>atlaso/app/kmip/server.py\<close>): validating a configuration, reporting the key counts of a store, and
  deciding whether to serve. What the operating system and the \<open>ssl\<close> module report is an argument.
\<close>

record system =
  environ :: "ustr \<Rightarrow> ustr option"
  read_text :: "ustr \<Rightarrow> ustr res"
  is_file :: "ustr \<Rightarrow> bool"
  load_tls :: "service_config \<Rightarrow> unit res"
  stdin :: ustr

definition tls_context :: "system \<Rightarrow> service_config \<Rightarrow> unit res" where
  "tls_context sys config =
     bindE (mapE (\<lambda>(path, label). guardE (is_file sys path)
                    (ConfigurationError (lit label @ lit '' does not exist: '' @ path)))
              [(c_certificate_path config, ''KMIP server certificate''), (c_private_key_path config, ''KMIP server private key''),
               (c_ca_path config, ''KMIP CA certificate'')]) (\<lambda>_.
       load_tls sys config)"

text \<open>Both store files, or neither.\<close>

definition store_exists :: "bool m" where
  "store_exists =
     bindM (getM w_disk) (\<lambda>d.
     bindM (guardM ((d_db d \<noteq> None) = (d_kek d \<noteq> None))
              (config_error ''KMIP operational store and KEK envelope must exist together.'')) (\<lambda>_.
       returnM (d_db d \<noteq> None)))"

definition check_config :: "env \<Rightarrow> system \<Rightarrow> service_config \<Rightarrow> ustr \<Rightarrow> unit m" where
  "check_config env sys config secrets_key =
     bindM (liftM (tls_context sys config)) (\<lambda>_.
     bindM store_exists (\<lambda>database_exists.
       if database_exists then bindM (init_store env secrets_key False) (\<lambda>_. close) else returnM ()))"

text \<open>\<open>rstrip("\r\n")\<close>.\<close>

definition rstrip_newlines :: "ustr \<Rightarrow> ustr" where
  "rstrip_newlines s = rev (dropWhile (\<lambda>c. c = 13 \<or> c = 10) (rev s))"

definition env_text :: "system \<Rightarrow> string \<Rightarrow> ustr" where
  "env_text sys name = (case environ sys (lit name) of None \<Rightarrow> [] | Some v \<Rightarrow> v)"

definition load_secrets_key :: "system \<Rightarrow> ustr res" where
  "load_secrets_key sys =
     (let credential_path = strip (env_text sys ''ATLASO_SECRETS_KEY_FILE'') in
      if credential_path = [] then Inr (env_text sys ''ATLASO_SECRETS_KEY'')
      else catchE (bindE (read_text sys credential_path) (\<lambda>t. Inr (rstrip_newlines t)))
             (\<lambda>e. Inl (if e = OSError then config_error ''KMIP runtime credential is unavailable.'' else e)))"

definition stdin_secrets_key :: "system \<Rightarrow> ustr res" where
  "stdin_secrets_key sys =
     (let secrets_key = take 4097 (stdin sys); stripped = rstrip_newlines secrets_key in
      if secrets_key = [] \<or> 4096 < length secrets_key \<or> stripped = []
      then Inl (config_error ''KMIP status credential is unavailable.'') else Inr stripped)"

record arguments =
  config_text :: "ustr res"
  check :: bool
  status :: bool
  status_secret_stdin :: bool

text \<open>What the command does once the arguments are read: it prints a document, or goes on to serve.\<close>

datatype reply = Prints json | Serves service_config ustr

definition lifecycle_json :: "lifecycle \<Rightarrow> json" where
  "lifecycle_json c = JObj [(lit ''pre_active'', JInt (lc_pre_active c)), (lit ''active'', JInt (lc_active c)),
     (lit ''total'', JInt (lc_total c))]"

definition status_document :: "service_config \<Rightarrow> string \<Rightarrow> (ustr \<times> lifecycle) list \<Rightarrow> json" where
  "status_document config store_status counts =
     JObj [(lit ''status'', JText ''available''),
           (lit ''runtime_state'', JText (if c_enabled config then ''configured'' else ''disabled'')),
           (lit ''store_status'', JText store_status),
           (lit ''providers'', JObj (map (\<lambda>(p, c). (p, lifecycle_json c)) counts))]"

definition status_report :: "env \<Rightarrow> service_config \<Rightarrow> ustr \<Rightarrow> reply m" where
  "status_report env config secrets_key =
     bindM store_exists (\<lambda>database_exists.
       if \<not> database_exists
       then returnM (Prints (status_document config ''empty''
              (foldl (\<lambda>d p. dict_put (p_id p) no_keys d) [] (c_providers config))))
       else
         bindM (init_store env secrets_key False) (\<lambda>_.
         bindM (catchM (lifecycle_counts env (map p_id (c_providers config))) (\<lambda>e. bindM close (\<lambda>_. raiseM e))) (\<lambda>counts.
         bindM close (\<lambda>_.
           returnM (Prints (status_document config ''healthy'' counts))))))"

definition run_command :: "py \<Rightarrow> env \<Rightarrow> system \<Rightarrow> (ustr \<Rightarrow> bytes res) \<Rightarrow> arguments \<Rightarrow> reply m" where
  "run_command py env sys certificates args =
     bindM (liftM (load_config py env certificates (config_text args))) (\<lambda>config.
     bindM (guardM (\<not> (check args \<and> status args))
              (config_error ''KMIP check and status modes are mutually exclusive.'')) (\<lambda>_.
     bindM (guardM (status_secret_stdin args \<longrightarrow> status args)
              (config_error ''KMIP stdin credentials require status mode.'')) (\<lambda>_.
     bindM (liftM (if status_secret_stdin args then stdin_secrets_key sys else load_secrets_key sys)) (\<lambda>secrets_key.
       if check args
       then bindM (check_config env sys config secrets_key) (\<lambda>_.
              returnM (Prints (JObj [(lit ''atlaso_kmip'', JText ''configuration valid'')])))
       else if status args then status_report env config secrets_key
       else bindM (guardM (c_enabled config) (config_error ''KMIP service configuration is disabled.'')) (\<lambda>_.
              returnM (Serves config secrets_key))))))"

text \<open>
  \<open>main\<close> up to the construction of the server: the failures its \<open>except\<close> clause names become exit
  code 2, the rest are raised; \<open>ssl.SSLError\<close> is an \<open>OSError\<close>.
\<close>

datatype ended = Exit int | Served service_config ustr

definition main :: "py \<Rightarrow> env \<Rightarrow> system \<Rightarrow> (ustr \<Rightarrow> bytes res) \<Rightarrow> arguments \<Rightarrow> (ended \<times> json option) m" where
  "main py env sys certificates args =
     catchM (bindM (run_command py env sys certificates args) (\<lambda>c. returnM (case c of
               Prints j \<Rightarrow> (Exit 0, Some j) | Serves config secrets_key \<Rightarrow> (Served config secrets_key, None))))
       (\<lambda>e. if is_value_error e \<or> is_key_store_error e \<or> e = OSError then returnM (Exit 2, None) else raiseM e)"

end
