(* ===== verification/ServiceProps.thy ===== *)
theory ServiceProps
  imports ConfigProps Service
begin

text \<open>
  The properties of the command: inspecting a missing store creates nothing, and serving requires an
  enabled, accepted configuration.
\<close>

subsection \<open>What the command may do\<close>

text \<open>A store that does not exist is not opened.\<close>

lemma store_absent:
  assumes "d_db (w_disk w) = None \<or> d_kek (w_disk w) = None"
  shows "store_exists w = (if d_db (w_disk w) = None \<and> d_kek (w_disk w) = None then Inr False
     else Inl (config_error ''KMIP operational store and KEK envelope must exist together.''), w)"
  using assms by (auto simp: store_exists_def bindM_def getM_def guardM_def returnM_def)

lemma inspection_disk:
  assumes "d_db (w_disk w) = None \<or> d_kek (w_disk w) = None"
  shows "check_config env sys config secrets_key w = (r, w') \<Longrightarrow> w' = w"
    "status_report env config secrets_key w = (r', w') \<Longrightarrow> w' = w"
  using assms
  by (auto simp: check_config_def status_report_def bindM_def liftM_def store_absent [OF assms] returnM_def split: sum.splits if_splits)

text \<open>
  Inspecting creates nothing. When the database or the key envelope does not exist, \<open>--check\<close> and
  \<open>--status\<close> leave the files as they are, whatever the configuration, the credential and the outcome:
  they never initialise a store.
\<close>

theorem inspection_creates_nothing:
  assumes "check args \<or> status args" and "d_db (w_disk w) = None \<or> d_kek (w_disk w) = None"
    and "main py env sys certificates args w = (r, w')"
  shows "w' = w"
  using assms(3,1)
  by (auto dest!: inspection_disk [OF assms(2)] simp: main_def run_command_def catchM_def bindM_def liftM_def guardM_def returnM_def raiseM_def
      split: sum.splits prod.splits if_splits)

lemma Served_only:
  assumes "main py env sys certificates args w = (Inr (Served config key, printed), w')"
  shows "run_command py env sys certificates args w = (Inr (Serves config key), w') \<and> printed = None"
  using assms by (auto simp: main_def catchM_def bindM_def returnM_def raiseM_def split: sum.splits prod.splits reply.splits if_splits)

text \<open>
  The service is started only on its own terms: when \<open>main\<close> goes on to serve, neither inspection mode
  was asked for, the configuration is one \<open>parse_config\<close> accepts and is enabled, nothing has been printed
  and nothing has been touched.
\<close>

theorem main_serves_enabled:
  assumes "main py env sys certificates args w = (Inr (Served config key, printed), w')"
  shows "\<not> check args \<and> \<not> status args \<and> c_enabled config \<and> printed = None \<and> w' = w
     \<and> (\<exists>text v. config_text args = Inr text \<and> loads text = Some v \<and> parse_config py env certificates v = Inr config)"
  using Served_only [OF assms]
  by (auto simp: run_command_def bindM_Inr_iff liftM_def guardM_def returnM_def load_config_def status_report_def store_exists_def
      bindE_Inr_iff catchE_Inr_iff split: if_splits)

subsection \<open>A concrete command\<close>

definition demo_system :: system where
  "demo_system = \<lparr>environ = (\<lambda>n. None), read_text = (\<lambda>p. Inl OSError), is_file = (\<lambda>p. True), load_tls = (\<lambda>c. Inr ()),
     stdin = lit ''key''\<rparr>"

definition demo_arguments :: "bool \<Rightarrow> arguments" where
  "demo_arguments c = \<lparr>config_text = Inr (dumps demo_document), check = c, status = False, status_secret_stdin = False\<rparr>"

lemma demo_document_read: "loads (dumps demo_document) = Some demo_document"
proof -
  have s: "list_all is_scalar demo_provider" unfolding demo_provider_def by (rule uuid4_scalar) simp
  have "wf_json demo_document"
    by (simp add: demo_document_def demo_provider_document_def s int_ok_def digs.simps lit_scalar_cong)
  moreover have "canon demo_document = demo_document"
    by (simp add: demo_document_def demo_provider_document_def canon_JObj sort_key_id_if_sorted lit_Cons)
  ultimately show ?thesis by (simp only: loads_dumps)
qed

lemma demo_serves: "main demo_py demo_env demo_system demo_certificate (demo_arguments False) demo_world
    = (Inr (Served demo_config [], None), demo_world)"
  by (simp add: main_def run_command_def catchM_def load_config_def demo_arguments_def demo_document_read demo_config_parsed
      load_secrets_key_def env_text_def demo_system_def strip_def returnM_def del: dumps.simps)
    (simp add: demo_config_def guardM_def returnM_def)

theorem inspection_creates_nothing_witness:
  "snd (main demo_py demo_env demo_system demo_certificate (demo_arguments True)
       (demo_world\<lparr>w_disk := \<lparr>d_db = None, d_kek = None, d_recovery = None, d_journal = False, d_rollback = False,
       d_trust = None, d_others = [], d_plain = True\<rparr>\<rparr>))
     = demo_world\<lparr>w_disk := \<lparr>d_db = None, d_kek = None, d_recovery = None, d_journal = False, d_rollback = False,
       d_trust = None, d_others = [], d_plain = True\<rparr>\<rparr>"
  by (rule inspection_creates_nothing [OF _ _ prod.collapse [symmetric]]) (simp_all add: demo_arguments_def)

theorem main_serves_enabled_witness:
  "c_enabled demo_config \<and> (\<exists>v. loads (dumps demo_document) = Some v
     \<and> parse_config demo_py demo_env demo_certificate v = Inr demo_config)"
  using main_serves_enabled [OF demo_serves] by (auto simp: demo_arguments_def)

end
