(* ===== verification/Recovery.thy ===== *)
theory Recovery
  imports PublicCertificate
begin

text \<open>
  Recovery archives (\<open>atlaso/app/kmip/recovery.py\<close>): the encrypted bundle of a key store, its
  validation, and the candidate directory built from it. Scrypt and the SQLite driver's treatment of
  values of an unexpected type are arguments.

  The directory a candidate is built in is the \<open>disk\<close> of a world, so that the store's own operations
  run on it. A file is created whole or not at all.
\<close>

subsection \<open>Code outside the repository\<close>

text \<open>
  \<open>scrypt\<close> takes the salt and the password. \<open>hooked_failure\<close> is what \<open>json.loads\<close> with the pairs hook
  raises on a text it refuses: \<open>JSONDecodeError\<close>, the hook's \<open>RecoveryError\<close>, a plain \<open>ValueError\<close>
  for an overlong integer. \<open>bind_text\<close> and \<open>bind_integer\<close> give what a text or an integer column stores
  for a value of another type, or the exception of the driver or of a constraint.
\<close>

record recovery_env =
  base :: env
  scrypt :: "bytes \<Rightarrow> bytes \<Rightarrow> bytes"
  load_pem :: pem_loader
  hooked_failure :: "ustr \<Rightarrow> exn"
  bind_text :: "json \<Rightarrow> ustr res"
  bind_integer :: "json \<Rightarrow> int res"

subsection \<open>Constants\<close>

definition MAGIC :: bytes where
  "MAGIC = map byte_of (lit ''ATLASO-KMIP-RECOVERY'') @ [0, 1]"

definition MAX_ARCHIVE_BYTES :: nat where
  "MAX_ARCHIVE_BYTES = 32 * 1024 * 1024"

definition AAD :: bytes where
  "AAD = MAGIC @ map byte_of (lit ''scrypt:N=32768,r=8,p=1;AES-256-GCM'')"

definition FIELDS :: "string list" where
  "FIELDS = [''provider_id'', ''key_id'', ''algorithm'', ''key_length'', ''name'', ''state'',
             ''created_at'', ''activated_at'', ''nonce'', ''ciphertext'', ''aad_json'']"

definition RECOVERY_MASTER_AAD :: bytes where
  "RECOVERY_MASTER_AAD = map byte_of (lit ''atlaso-kmip-recovery-master-v1'')"

subsection \<open>Values read from JSON\<close>

text \<open>\<open>set(value) == names\<close> for a dictionary.\<close>

definition has_fields :: "(ustr \<times> json) list \<Rightarrow> string list \<Rightarrow> bool" where
  "has_fields d names \<longleftrightarrow> fst ` set d = set (map lit names)"

text \<open>\<open>value[name]\<close>: only a dictionary has string subscripts.\<close>

definition subscript :: "json \<Rightarrow> string \<Rightarrow> json res" where
  "subscript v name = (case v of JObj d \<Rightarrow> lookup_field d name | _ \<Rightarrow> Inl TypeError)"

text \<open>\<open>value in texts\<close> for a set of strings: a list or a dictionary is not hashable.\<close>

definition member_of :: "json \<Rightarrow> ustr list \<Rightarrow> bool res" where
  "member_of v texts =
     (case v of JStr s \<Rightarrow> Inr (s \<in> set texts) | JArr _ \<Rightarrow> Inl TypeError | JObj _ \<Rightarrow> Inl TypeError | _ \<Rightarrow> Inr False)"

definition text_length :: "json \<Rightarrow> nat option" where
  "text_length v = (case v of JStr s \<Rightarrow> Some (length s) | _ \<Rightarrow> None)"

text \<open>\<open>base64.b64decode(value, validate=True)\<close>.\<close>

definition decoded :: "json \<Rightarrow> bytes res" where
  "decoded v = (case v of JStr s \<Rightarrow> or_raise (ValueError ''binascii.Error'') (b64decode s) | _ \<Rightarrow> Inl TypeError)"

definition json_pairs_hook :: pairs_hook where
  "json_pairs_hook pairs = (if distinct (map fst pairs) then Some pairs else None)"

subsection \<open>The encrypted archive\<close>

definition derive :: "recovery_env \<Rightarrow> json \<Rightarrow> bytes \<Rightarrow> bytes res" where
  "derive renv passphrase salt =
     (case passphrase of
        JStr p \<Rightarrow>
          bindE (utf8 p) (\<lambda>b.
          bindE (guardE (12 \<le> length b \<and> length b \<le> 1024) RecoveryError) (\<lambda>_.
            Inr (scrypt renv salt b)))
      | _ \<Rightarrow> Inl RecoveryError)"

definition encrypt :: "recovery_env \<Rightarrow> json \<Rightarrow> json \<Rightarrow> bytes m" where
  "encrypt renv snapshot passphrase =
     bindM (liftM (bindE (json_dumps snapshot) utf8)) (\<lambda>plaintext.
     bindM (guardM (length plaintext \<le> MAX_ARCHIVE_BYTES - 128) RecoveryError) (\<lambda>_.
     bindM (drawM (\<lambda>i. urandom (base renv) i 16)) (\<lambda>salt.
     bindM (drawM (\<lambda>i. urandom (base renv) i 12)) (\<lambda>nonce.
     bindM (liftM (derive renv passphrase salt)) (\<lambda>key.
     bindM (liftM (aes_seal (base renv) key nonce plaintext AAD)) (\<lambda>sealed.
       returnM (MAGIC @ salt @ nonce @ sealed)))))))"

definition SNAPSHOT_FIELDS :: "string list" where
  "SNAPSHOT_FIELDS = [''schema'', ''keys'', ''metadata'', ''kek'', ''master'', ''trust'']"

subsection \<open>Public trust\<close>

definition TRUST_FIELDS :: "string list" where
  "TRUST_FIELDS = [''providers'', ''vcenters'', ''certificates'']"

definition PROVIDER_ROW :: "string list" where
  "PROVIDER_ROW = [''id'', ''name'', ''description'', ''enabled'']"

definition VCENTER_ROW :: "string list" where
  "VCENTER_ROW = [''id'', ''provider_id'', ''name'', ''hostname'', ''description'', ''enabled'']"

definition CERTIFICATE_ROW :: "string list" where
  "CERTIFICATE_ROW = [''id'', ''trusted_vcenter_id'', ''certificate_pem'', ''fingerprint_sha256'']"

definition trust_rows :: "json \<Rightarrow> string \<Rightarrow> json list res" where
  "trust_rows trust kind =
     bindE (subscript trust kind) (\<lambda>rows.
     case rows of
       JArr xs \<Rightarrow> bindE (guardE (length xs \<le> 10000) RecoveryError) (\<lambda>_. Inr xs)
     | _ \<Rightarrow> Inl RecoveryError)"

text \<open>A row of any kind: a dictionary with exactly the fields, under a new canonical identifier.\<close>

definition trust_row :: "recovery_env \<Rightarrow> string list \<Rightarrow> ustr list \<Rightarrow> json \<Rightarrow> ((ustr \<times> json) list \<times> ustr) res" where
  "trust_row renv names ids v =
     (case v of
        JObj row \<Rightarrow>
          bindE (guardE (has_fields row names) RecoveryError) (\<lambda>_.
          bindE (lookup_field row ''id'') (\<lambda>identifier.
          case identifier of
            JStr s \<Rightarrow>
              bindE (or_raise (ValueError ''badly formed hexadecimal UUID string'') (uuid_canon (uni (base renv)) s)) (\<lambda>c.
              bindE (guardE (c = s \<and> s \<notin> set ids) RecoveryError) (\<lambda>_. Inr (row, s)))
          | _ \<Rightarrow> Inl RecoveryError))
      | _ \<Rightarrow> Inl RecoveryError)"

text \<open>The label of a provider or a vCenter, which is returned for the checks of its uniqueness.\<close>

definition trust_label :: "(ustr \<times> json) list \<Rightarrow> ustr res" where
  "trust_label row =
     bindE (lookup_field row ''enabled'') (\<lambda>enabled.
     bindE (lookup_field row ''name'') (\<lambda>name.
     case (enabled, name) of
       (JBool b, JStr s) \<Rightarrow>
         bindE (guardE (1 \<le> length s \<and> length s \<le> 120) RecoveryError) (\<lambda>_.
         bindE (lookup_field row ''description'') (\<lambda>description.
         bindE (guardE (case text_length description of None \<Rightarrow> False | Some n \<Rightarrow> n \<le> 4096) RecoveryError) (\<lambda>_.
           Inr s)))
     | _ \<Rightarrow> Inl RecoveryError))"

definition provider_row :: "recovery_env \<Rightarrow> ustr list \<times> ustr list \<Rightarrow> json \<Rightarrow> (ustr list \<times> ustr list) res" where
  "provider_row renv s v =
     (case s of (ids, names) \<Rightarrow>
       bindE (trust_row renv PROVIDER_ROW ids v) (\<lambda>(row, identifier).
       bindE (trust_label row) (\<lambda>name.
       bindE (guardE (name \<notin> set names) RecoveryError) (\<lambda>_.
         Inr (identifier # ids, name # names)))))"

definition vcenter_row ::
  "recovery_env \<Rightarrow> ustr list \<Rightarrow> ustr list \<times> (ustr \<times> ustr) list \<Rightarrow> json \<Rightarrow> (ustr list \<times> (ustr \<times> ustr) list) res" where
  "vcenter_row renv providers s v =
     (case s of (ids, names) \<Rightarrow>
       bindE (trust_row renv VCENTER_ROW ids v) (\<lambda>(row, identifier).
       bindE (trust_label row) (\<lambda>name.
       bindE (lookup_field row ''provider_id'') (\<lambda>provider_id.
       bindE (member_of provider_id providers) (\<lambda>known.
       bindE (lookup_field row ''hostname'') (\<lambda>hostname.
       case provider_id of
         JStr p \<Rightarrow>
           bindE (guardE (known \<and> (case text_length hostname of None \<Rightarrow> False | Some n \<Rightarrow> n \<le> 253)) RecoveryError) (\<lambda>_.
           bindE (guardE ((p, name) \<notin> set names) RecoveryError) (\<lambda>_.
             Inr (identifier # ids, (p, name) # names)))
       | _ \<Rightarrow> Inl RecoveryError))))))"

definition certificate_row ::
  "recovery_env \<Rightarrow> ustr list \<Rightarrow> ustr list \<times> ustr list \<Rightarrow> json \<Rightarrow> (ustr list \<times> ustr list) res" where
  "certificate_row renv vcenters s v =
     (case s of (ids, fingerprints) \<Rightarrow>
       bindE (trust_row renv CERTIFICATE_ROW ids v) (\<lambda>(row, identifier).
       bindE (lookup_field row ''trusted_vcenter_id'') (\<lambda>trusted_vcenter_id.
       bindE (member_of trusted_vcenter_id vcenters) (\<lambda>known.
       bindE (guardE known RecoveryError) (\<lambda>_.
       bindE (lookup_field row ''certificate_pem'') (\<lambda>certificate_pem.
       bindE (case certificate_pem of
                JStr pem \<Rightarrow> parse_public_certificate (load_pem renv) None pem
              | _ \<Rightarrow> Inl AttributeError) (\<lambda>cert.
       bindE (lookup_field row ''fingerprint_sha256'') (\<lambda>fingerprint.
       bindE (guardE (fingerprint = JStr (pc_fingerprint_sha256 cert)
                      \<and> pc_fingerprint_sha256 cert \<notin> set fingerprints) RecoveryError) (\<lambda>_.
         Inr (identifier # ids, pc_fingerprint_sha256 cert # fingerprints))))))))))"

definition trust_error :: "exn \<Rightarrow> exn" where
  "trust_error e =
     (if is_value_error e \<or> e = TypeError \<or> e = KeyError \<or> e = AttributeError then RecoveryError else e)"

definition validate_trust :: "recovery_env \<Rightarrow> json \<Rightarrow> unit res" where
  "validate_trust renv trust =
     (case trust of
        JObj d \<Rightarrow>
          bindE (guardE (has_fields d TRUST_FIELDS) RecoveryError) (\<lambda>_.
          catchE
            (bindE (trust_rows trust ''providers'') (\<lambda>providers.
             bindE (foldE (provider_row renv) ([], []) providers) (\<lambda>(provider_ids, names).
             bindE (trust_rows trust ''vcenters'') (\<lambda>vcenters.
             bindE (foldE (vcenter_row renv provider_ids) ([], []) vcenters) (\<lambda>(vcenter_ids, scoped_names).
             bindE (trust_rows trust ''certificates'') (\<lambda>certificates.
             bindE (foldE (certificate_row renv vcenter_ids) ([], []) certificates) (\<lambda>_.
               Inr ())))))))
            (\<lambda>e. Inl (trust_error e)))
      | _ \<Rightarrow> Inl RecoveryError)"

subsection \<open>Opening an archive\<close>

definition is_unicode_error :: "exn \<Rightarrow> bool" where
  "is_unicode_error e \<longleftrightarrow> e = UnicodeEncodeError \<or> e = ValueError ''UnicodeDecodeError''"

fun is_decode_error :: "exn \<Rightarrow> bool" where
  "is_decode_error (JSONDecodeError m) = True"
| "is_decode_error _ = False"

definition snapshot_checks :: "recovery_env \<Rightarrow> json \<Rightarrow> (ustr \<times> json) list res" where
  "snapshot_checks renv v =
     (case v of
        JObj snapshot \<Rightarrow>
          bindE (guardE (has_fields snapshot SNAPSHOT_FIELDS) RecoveryError) (\<lambda>_.
          bindE (lookup_field snapshot ''schema'') (\<lambda>schema.
          bindE (guardE (schema = JInt 1) RecoveryError) (\<lambda>_.
          bindE (lookup_field snapshot ''trust'') (\<lambda>trust.
          bindE (validate_trust renv trust) (\<lambda>_.
          bindE (lookup_field snapshot ''keys'') (\<lambda>keys.
          bindE (lookup_field snapshot ''metadata'') (\<lambda>metadata.
          case (keys, metadata) of
            (JArr ks, JArr ms) \<Rightarrow> Inr snapshot
          | _ \<Rightarrow> Inl RecoveryError)))))))
      | _ \<Rightarrow> Inl RecoveryError)"

definition decrypt :: "recovery_env \<Rightarrow> bytes \<Rightarrow> json \<Rightarrow> (ustr \<times> json) list res" where
  "decrypt renv archive passphrase =
     bindE (guardE (length MAGIC + 44 \<le> length archive \<and> length archive \<le> MAX_ARCHIVE_BYTES) RecoveryError) (\<lambda>_.
     bindE (guardE (take (length MAGIC) archive = MAGIC) RecoveryError) (\<lambda>_.
     let body = drop (length MAGIC) archive; salt = take 16 body; nonce = take 12 (drop 16 body) in
     catchE
       (bindE (derive renv passphrase salt) (\<lambda>key.
        bindE (aes_open (base renv) key nonce (drop 28 body) AAD) (\<lambda>plaintext.
        bindE (or_raise (ValueError ''UnicodeDecodeError'') (json_text (base renv) plaintext)) (\<lambda>text.
        bindE (or_raise (hooked_failure renv text) (loads_with json_pairs_hook text)) (\<lambda>snapshot.
          snapshot_checks renv snapshot)))))
       (\<lambda>e. Inl (if e = InvalidTag \<or> is_unicode_error e \<or> is_decode_error e then RecoveryError else e))))"

subsection \<open>Capturing a store\<close>

text \<open>\<open>{row["id"] for row in trust["providers"]}\<close>.\<close>

definition trust_provider_ids :: "json \<Rightarrow> ustr list res" where
  "trust_provider_ids trust =
     bindE (subscript trust ''providers'') (\<lambda>rows.
     case rows of
       JArr xs \<Rightarrow> mapE (\<lambda>row. bindE (subscript row ''id'') (\<lambda>i. case i of JStr s \<Rightarrow> Inr s | _ \<Rightarrow> Inl TypeError)) xs
     | _ \<Rightarrow> Inl TypeError)"

definition snapshot_document :: "json list \<Rightarrow> (ustr \<times> ustr) list \<Rightarrow> bytes \<Rightarrow> bytes \<Rightarrow> json \<Rightarrow> (ustr \<times> json) list" where
  "snapshot_document rows metadata kek master trust =
     [(lit ''schema'', JInt 1), (lit ''keys'', JArr rows),
      (lit ''metadata'', JArr (map (\<lambda>(n, v). JArr [JStr n, JStr v]) metadata)),
      (lit ''kek'', JStr (b64encode kek)), (lit ''master'', JStr (b64encode master)), (lit ''trust'', trust)]"

text \<open>The rows come in the order of their keys; \<open>row_document\<close> is the row as a dictionary with its
  two byte strings in base 64.\<close>

definition capture :: "recovery_env \<Rightarrow> json \<Rightarrow> (ustr \<times> json) list m" where
  "capture renv trust =
     bindM (liftM (validate_trust renv trust)) (\<lambda>_.
     bindM connect (\<lambda>db.
     bindM (verify_store_commitment (base renv) db) (\<lambda>_.
     bindM (liftM (trust_provider_ids trust)) (\<lambda>provider_ids.
     bindM (liftM (mapE (\<lambda>r. bindE (guardE (r_provider_id r \<in> set provider_ids) RecoveryError) (\<lambda>_. Inr (row_document r)))
                     (sort_key row_key (wrapped_keys db)))) (\<lambda>rows.
     bindM (getM (d_kek \<circ> w_disk)) (\<lambda>file.
     bindM (liftM (or_raise OSError file)) (\<lambda>kek.
     bindM (getM (s_master_key \<circ> w_self)) (\<lambda>master.
       returnM (snapshot_document rows (sort_key fst (store_metadata db)) kek master trust)))))))))"

subsection \<open>Building a candidate\<close>

definition is_empty_directory :: "disk \<Rightarrow> bool" where
  "is_empty_directory d \<longleftrightarrow>
     d_db d = None \<and> d_kek d = None \<and> d_recovery d = None \<and> \<not> d_journal d \<and> \<not> d_rollback d
     \<and> d_trust d = None \<and> d_others d = []"

text \<open>\<open>_exclusive_file\<close>: the file must not exist; the outcome is the one the environment gives this effect.\<close>

definition exclusive_file :: "env \<Rightarrow> (disk \<Rightarrow> bool) \<Rightarrow> (disk \<Rightarrow> disk) \<Rightarrow> unit m" where
  "exclusive_file env exists create w =
     (if exists (w_disk w) then (Inl OSError, w)
      else
        let w' = w\<lparr>w_io := Suc (w_io w)\<rparr>; created = w'\<lparr>w_disk := create (w_disk w)\<rparr>
        in case write_fault_at env (w_io w) of
             W_Ok \<Rightarrow> (Inr (), created)
           | W_Fail \<Rightarrow> (Inl OSError, w')
           | W_FailLate \<Rightarrow> (Inl OSError, created)
           | W_Lost \<Rightarrow> (Inl PowerLoss, w')
           | W_LostLate \<Rightarrow> (Inl PowerLoss, created))"

text \<open>An effect on the files that changes none of their contents: \<open>os.fsync\<close>.\<close>

definition flush_files :: "env \<Rightarrow> unit m" where
  "flush_files env w =
     (case write_fault_at env (w_io w) of
        W_Ok \<Rightarrow> Inr () | W_Fail \<Rightarrow> Inl OSError | W_FailLate \<Rightarrow> Inl OSError | _ \<Rightarrow> Inl PowerLoss,
      w\<lparr>w_io := Suc (w_io w)\<rparr>)"

text \<open>Binding a parameter: text is encoded as UTF-8, an integer has to fit 64 bits.\<close>

definition column_text :: "recovery_env \<Rightarrow> json \<Rightarrow> ustr res" where
  "column_text renv v =
     (case v of
        JStr s \<Rightarrow> bindE (guardE (list_all is_scalar s) UnicodeEncodeError) (\<lambda>_. Inr s)
      | _ \<Rightarrow> bind_text renv v)"

definition column_optional :: "recovery_env \<Rightarrow> json \<Rightarrow> ustr option res" where
  "column_optional renv v = (if v = JNull then Inr None else bindE (column_text renv v) (\<lambda>s. Inr (Some s)))"

definition column_integer :: "recovery_env \<Rightarrow> json \<Rightarrow> int res" where
  "column_integer renv v =
     (case v of
        JInt i \<Rightarrow> bindE (guardE (- (2 ^ 63) \<le> i \<and> i < 2 ^ 63) OverflowError) (\<lambda>_. Inr i)
      | _ \<Rightarrow> bind_integer renv v)"

text \<open>The two parameters of an inserted metadata pair: any sequence of two values, a string included.\<close>

definition metadata_pair :: "json \<Rightarrow> (json \<times> json) res" where
  "metadata_pair v =
     (case v of
        JArr [n, x] \<Rightarrow> Inr (n, x)
      | JStr [a, b] \<Rightarrow> Inr (JStr [a], JStr [b])
      | _ \<Rightarrow> Inl OperationalError)"

definition insert_metadata :: "recovery_env \<Rightarrow> database \<Rightarrow> json \<Rightarrow> database res" where
  "insert_metadata renv db v =
     bindE (metadata_pair v) (\<lambda>(n, x).
     bindE (column_text renv n) (\<lambda>name.
     bindE (column_text renv x) (\<lambda>text.
     bindE (guardE (name \<notin> fst ` set (store_metadata db)) IntegrityError) (\<lambda>_.
       Inr (db\<lparr>store_metadata := store_metadata db @ [(name, text)]\<rparr>)))))"

definition candidate_row :: "recovery_env \<Rightarrow> ustr list \<Rightarrow> json \<Rightarrow> row res" where
  "candidate_row renv provider_ids v =
     (case v of
        JObj d \<Rightarrow>
          bindE (guardE (has_fields d FIELDS) RecoveryError) (\<lambda>_.
          bindE (bindE (lookup_field d ''provider_id'') (\<lambda>p. member_of p provider_ids)) (\<lambda>known.
          bindE (guardE known RecoveryError) (\<lambda>_.
          bindE (bindE (lookup_field d ''nonce'') decoded) (\<lambda>nonce.
          bindE (bindE (lookup_field d ''ciphertext'') decoded) (\<lambda>ciphertext.
          bindE (bindE (lookup_field d ''provider_id'') (column_text renv)) (\<lambda>provider_id.
          bindE (bindE (lookup_field d ''key_id'') (column_text renv)) (\<lambda>key_id.
          bindE (bindE (lookup_field d ''algorithm'') (column_text renv)) (\<lambda>algorithm.
          bindE (bindE (lookup_field d ''key_length'') (column_integer renv)) (\<lambda>key_length.
          bindE (bindE (lookup_field d ''name'') (column_optional renv)) (\<lambda>name.
          bindE (bindE (lookup_field d ''state'') (column_text renv)) (\<lambda>state.
          bindE (bindE (lookup_field d ''created_at'') (column_text renv)) (\<lambda>created_at.
          bindE (bindE (lookup_field d ''activated_at'') (column_optional renv)) (\<lambda>activated_at.
          bindE (bindE (lookup_field d ''aad_json'') (column_text renv)) (\<lambda>aad_json.
            Inr \<lparr>r_provider_id = provider_id, r_key_id = key_id, r_algorithm = algorithm, r_key_length = key_length,
                 r_name = name, r_state = state, r_created_at = created_at, r_activated_at = activated_at,
                 r_nonce = nonce, r_ciphertext = ciphertext, r_aad_json = aad_json\<rparr>))))))))))))))
      | _ \<Rightarrow> Inl RecoveryError)"

text \<open>The transaction on the new database.\<close>

definition candidate_database :: "recovery_env \<Rightarrow> json \<Rightarrow> json \<Rightarrow> ustr list \<Rightarrow> database \<Rightarrow> database res" where
  "candidate_database renv metadata keys provider_ids db =
     (case (metadata, keys) of
        (JArr ms, JArr ks) \<Rightarrow>
          bindE (foldE (insert_metadata renv) db ms) (\<lambda>db'.
          foldE (\<lambda>d v. bindE (candidate_row renv provider_ids v) (\<lambda>r. insert_row r d)) db' ks)
      | _ \<Rightarrow> Inl TypeError)"

definition is_sqlite_error :: "exn \<Rightarrow> bool" where
  "is_sqlite_error e \<longleftrightarrow> e = IntegrityError \<or> e = OperationalError"

definition candidate_error :: "exn \<Rightarrow> exn" where
  "candidate_error e =
     (if is_value_error e \<or> e = TypeError \<or> e = KeyError \<or> is_sqlite_error e \<or> is_key_store_error e
      then RecoveryError else e)"

text \<open>The files of the candidate, each created exclusively, and the rows of its database.\<close>

definition write_candidate :: "recovery_env \<Rightarrow> (ustr \<times> json) list \<Rightarrow> ustr \<Rightarrow> (bytes \<times> ustr list) m" where
  "write_candidate renv snapshot secrets_key =
     bindM (liftM (bindE (lookup_field snapshot ''master'') decoded)) (\<lambda>master.
     bindM (liftM (bindE (lookup_field snapshot ''kek'') decoded)) (\<lambda>kek.
     bindM (guardM (length master = 32 \<and> length kek \<le> 8192) RecoveryError) (\<lambda>_.
     bindM (exclusive_file (base renv) (\<lambda>d. d_kek d \<noteq> None) (\<lambda>d. d\<lparr>d_kek := Some kek\<rparr>)) (\<lambda>_.
     bindM (drawM (\<lambda>i. urandom (base renv) i 12)) (\<lambda>nonce.
     bindM (liftM (master_key (base renv) secrets_key)) (\<lambda>target_master.
     bindM (liftM (aes_seal (base renv) target_master nonce master RECOVERY_MASTER_AAD)) (\<lambda>sealed.
     bindM (exclusive_file (base renv) (\<lambda>d. d_recovery d \<noteq> None) (\<lambda>d. d\<lparr>d_recovery := Some (nonce @ sealed)\<rparr>)) (\<lambda>_.
     bindM (liftM (lookup_field snapshot ''trust'')) (\<lambda>trust.
     bindM (exclusive_file (base renv) (\<lambda>d. d_trust d \<noteq> None) (\<lambda>d. d\<lparr>d_trust := Some trust\<rparr>)) (\<lambda>_.
     bindM (exclusive_file (base renv) (\<lambda>d. d_db d \<noteq> None) (\<lambda>d. d\<lparr>d_db := Some empty_database\<rparr>)) (\<lambda>_.
     bindM (create_tables (base renv) empty_database) (\<lambda>db.
     bindM (liftM (lookup_field snapshot ''metadata'')) (\<lambda>metadata.
     bindM (liftM (trust_provider_ids trust)) (\<lambda>provider_ids.
     bindM (liftM (lookup_field snapshot ''keys'')) (\<lambda>keys.
     bindM (liftM (candidate_database renv metadata keys provider_ids db)) (\<lambda>view.
     bindM (commit (base renv) view) (\<lambda>_.
       returnM (kek, provider_ids))))))))))))))))))"

text \<open>The candidate is opened as a read-only store, which authenticates every key, and has to be settled.\<close>

definition authenticate_candidate :: "recovery_env \<Rightarrow> bytes \<Rightarrow> ustr list \<Rightarrow> ustr \<Rightarrow> unit m" where
  "authenticate_candidate renv kek provider_ids secrets_key =
     bindM (init_store (base renv) secrets_key True) (\<lambda>_.
     bindM (catchM (lifecycle_counts (base renv) provider_ids) (\<lambda>e. bindM close (\<lambda>_. raiseM e))) (\<lambda>_.
     bindM close (\<lambda>_.
     bindM (getM (d_kek \<circ> w_disk)) (\<lambda>file.
     bindM (guardM (file = Some kek) RecoveryError) (\<lambda>_.
       flush_files (base renv))))))"

definition build_candidate :: "recovery_env \<Rightarrow> (ustr \<times> json) list \<Rightarrow> ustr \<Rightarrow> unit m" where
  "build_candidate renv snapshot secrets_key =
     bindM (liftM (bindE (lookup_field snapshot ''trust'') (validate_trust renv))) (\<lambda>_.
     bindM (getM w_disk) (\<lambda>directory.
     bindM (guardM (is_empty_directory directory) RecoveryError) (\<lambda>_.
     catchM
       (bindM (write_candidate renv snapshot secrets_key) (\<lambda>(kek, provider_ids).
          authenticate_candidate renv kek provider_ids secrets_key))
       (\<lambda>e. raiseM (candidate_error e)))))"

subsection \<open>Exporting\<close>

text \<open>The \<open>export\<close> action of the helper (\<open>main\<close> of \<open>recovery_runtime.py\<close>): the store is opened read-only and
  closed whatever happens.\<close>

definition export_store :: "recovery_env \<Rightarrow> ustr \<Rightarrow> json \<Rightarrow> json \<Rightarrow> bytes m" where
  "export_store renv secrets_key trust passphrase =
     bindM (init_store (base renv) secrets_key True) (\<lambda>_.
     bindM (catchM (bindM (capture renv trust) (\<lambda>snapshot. encrypt renv (JObj snapshot) passphrase))
              (\<lambda>e. bindM close (\<lambda>_. raiseM e))) (\<lambda>archive.
     bindM close (\<lambda>_.
       returnM archive)))"

end
