(* ===== verification/RecoveryArchive.thy ===== *)
theory RecoveryArchive
  imports Recovery StoreLife
begin

text \<open>
  Recovery archives read back: the checks do not depend on the order of names in a document, an
  encrypted snapshot decrypts to itself, and what an accepted trust document looks like.
\<close>

subsection \<open>Reading fields of a rendered document\<close>

lemma lookup_canon:
  assumes "distinct (map fst d)"
  shows "lookup_field (canon_fields d) name = bindE (lookup_field d name) (\<lambda>v. Inr (canon v))"
  by (cases "map_of d (lit name)") (simp_all add: lookup_field_def map_of_canon_fields [OF assms])

lemma canon_fields_fst [simp]: "fst ` set (canon_fields d) = fst ` set d"
  by (force simp: canon_fields_def image_iff)

lemma has_fields_canon [simp]: "has_fields (canon_fields d) names = has_fields d names"
  by (simp add: has_fields_def)

lemma wf_json_object: "wf_json (JObj d) \<Longrightarrow> distinct (map fst d)"
  by simp

lemma lookup_wf: "wf_json (JObj d) \<Longrightarrow> lookup_field d name = Inr v \<Longrightarrow> wf_json v"
  by (auto simp: lookup_field_def list_all_iff dest!: map_of_SomeD)

declare canon.simps(2) [simp del] canon_object [simp] wf_json.simps(7) [simp del]

lemmas lookup_canon_wf = lookup_canon [OF wf_json_object]

lemma canon_leaf [simp]:
  "canon v = JStr s \<longleftrightarrow> v = JStr s" "canon v = JBool b \<longleftrightarrow> v = JBool b" "canon v = JInt i \<longleftrightarrow> v = JInt i"
  "canon v = JNull \<longleftrightarrow> v = JNull"
  by (cases v; simp)+

lemma json_case_iff:
  "(case v of JStr s \<Rightarrow> f s | _ \<Rightarrow> Inl e) = Inr y \<longleftrightarrow> (\<exists>s. v = JStr s \<and> f s = Inr y)"
  "(case v of JObj d \<Rightarrow> g d | _ \<Rightarrow> Inl e) = Inr y \<longleftrightarrow> (\<exists>d. v = JObj d \<and> g d = Inr y)"
  "(case v of JArr xs \<Rightarrow> h xs | _ \<Rightarrow> Inl e) = Inr y \<longleftrightarrow> (\<exists>xs. v = JArr xs \<and> h xs = Inr y)"
  by (cases v; simp)+

lemma json_pair_iff:
  "(case (a, b) of (JArr xs, JArr ys) \<Rightarrow> f xs ys | _ \<Rightarrow> Inl e) = Inr z
     \<longleftrightarrow> (\<exists>xs ys. a = JArr xs \<and> b = JArr ys \<and> f xs ys = Inr z)"
  by (cases a; cases b) simp_all

lemma case_canon_text:
  "(case canon v of JStr s \<Rightarrow> f s | _ \<Rightarrow> x) = (case v of JStr s \<Rightarrow> f s | _ \<Rightarrow> x)"
  by (cases v) simp_all

lemma member_canon [simp]: "member_of (canon v) xs = member_of v xs"
  by (cases v) (simp_all add: member_of_def)

lemma text_length_canon [simp]: "text_length (canon v) = text_length v"
  by (cases v) (simp_all add: text_length_def)

lemma decoded_canon [simp]: "decoded (canon v) = decoded v"
  by (cases v) (simp_all add: decoded_def)

lemma trust_rows_canon:
  assumes "wf_json (JObj d)"
  shows "trust_rows (JObj (canon_fields d)) kind = bindE (trust_rows (JObj d) kind) (\<lambda>xs. Inr (map canon xs))"
proof (cases "lookup_field d kind")
  case (Inr v)
  then show ?thesis using lookup_canon_wf [OF assms, of kind]
    by (cases v) (simp_all add: trust_rows_def subscript_def guardE_def)
qed (simp add: trust_rows_def subscript_def lookup_canon_wf [OF assms])

lemma trust_row_canon:
  assumes "wf_json v"
  shows "trust_row renv names ids (canon v)
    = bindE (trust_row renv names ids v) (\<lambda>(d, i). Inr (canon_fields d, i))"
proof (cases v)
  case (JObj d)
  note lk = lookup_canon_wf [OF assms [unfolded JObj]]
  show ?thesis
  proof (cases "lookup_field d ''id''")
    case (Inr i)
    then show ?thesis using JObj lk
      by (cases i) (auto simp: trust_row_def guardE_def bindE_def split: sum.splits)
  qed (use JObj lk in \<open>auto simp: trust_row_def guardE_def bindE_def\<close>)
qed (simp_all add: trust_row_def)

lemma trust_row_object:
  "trust_row renv names ids v = Inr (d, i) \<Longrightarrow> v = JObj d \<and> has_fields d names \<and> lookup_field d ''id'' = Inr (JStr i)
     \<and> uuid_canon (uni (base renv)) i = Some i \<and> i \<notin> set ids"
  by (auto simp: trust_row_def bindE_Inr_iff json_case_iff)

lemma trust_label_canon:
  assumes "wf_json (JObj d)"
  shows "trust_label (canon_fields d) = trust_label d"
  unfolding trust_label_def lookup_canon_wf [OF assms]
  by (cases "lookup_field d ''enabled''"; cases "lookup_field d ''name''"; cases "lookup_field d ''description''")
    (auto split: json.splits)

lemma provider_row_canon: "wf_json v \<Longrightarrow> provider_row renv s (canon v) = provider_row renv s v"
  by (cases s, cases "trust_row renv PROVIDER_ROW (fst s) v")
    (auto simp: provider_row_def trust_row_canon trust_label_canon dest!: trust_row_object)

lemma vcenter_row_canon:
  assumes "wf_json v"
  shows "vcenter_row renv ps s (canon v) = vcenter_row renv ps s v"
proof (cases s)
  case s: (Pair ids names)
  show ?thesis
  proof (cases "trust_row renv VCENTER_ROW ids v")
    case (Inr x)
    then obtain d i where x: "x = (d, i)" and v: "v = JObj d" using trust_row_object by (cases x) blast
    note wf = assms [unfolded v]
    show ?thesis using Inr
      by (simp add: vcenter_row_def s trust_row_canon [OF assms] x trust_label_canon [OF wf] lookup_canon_wf [OF wf])
        (cases "lookup_field d ''provider_id''"; cases "lookup_field d ''hostname''";
          simp add: case_canon_text cong: json.case_cong)
  qed (simp add: vcenter_row_def s trust_row_canon [OF assms])
qed

lemma certificate_row_canon:
  assumes "wf_json v"
  shows "certificate_row renv vs s (canon v) = certificate_row renv vs s v"
proof (cases s)
  case s: (Pair ids fingerprints)
  show ?thesis
  proof (cases "trust_row renv CERTIFICATE_ROW ids v")
    case (Inr x)
    then obtain d i where x: "x = (d, i)" and v: "v = JObj d" using trust_row_object by (cases x) blast
    note wf = assms [unfolded v]
    show ?thesis using Inr
      by (simp add: certificate_row_def s trust_row_canon [OF assms] x lookup_canon_wf [OF wf])
        (cases "lookup_field d ''trusted_vcenter_id''"; cases "lookup_field d ''certificate_pem''";
          cases "lookup_field d ''fingerprint_sha256''"; simp add: case_canon_text)
  qed (simp add: certificate_row_def s trust_row_canon [OF assms])
qed

lemma foldE_canon:
  assumes "\<And>s x. x \<in> set xs \<Longrightarrow> f s (canon x) = f s x"
  shows "foldE f s (map canon xs) = foldE f s xs"
  using assms by (induction xs arbitrary: s) (auto simp: bindE_def split: sum.splits)

text \<open>The order of names in a document makes no difference to the checks.\<close>

lemma validate_trust_canon:
  assumes "wf_json trust"
  shows "validate_trust renv (canon trust) = validate_trust renv trust"
proof (cases trust)
  case (JObj d)
  note wf = assms [unfolded JObj]
  have rows: "wf_json x" if "trust_rows (JObj d) kind = Inr xs" "x \<in> set xs" for kind xs x
    using that lookup_wf [OF wf, of kind]
    by (auto simp: trust_rows_def subscript_def bindE_Inr_iff list_all_iff json_case_iff)
  have f: "foldE (provider_row renv) s (map canon xs) = foldE (provider_row renv) s xs"
    "foldE (vcenter_row renv ps) s' (map canon xs) = foldE (vcenter_row renv ps) s' xs"
    "foldE (certificate_row renv vs) s'' (map canon xs) = foldE (certificate_row renv vs) s'' xs"
    if "trust_rows (JObj d) kind = Inr xs" for kind xs s s' s'' ps vs
    by (rule foldE_canon, simp add: rows [OF that] provider_row_canon vcenter_row_canon certificate_row_canon)+
  show ?thesis
    by (cases "trust_rows (JObj d) ''providers''"; cases "trust_rows (JObj d) ''vcenters''";
        cases "trust_rows (JObj d) ''certificates''")
      (simp_all add: JObj validate_trust_def trust_rows_canon [OF wf] f)
qed (simp_all add: validate_trust_def)

subsection \<open>The archive opens again\<close>

text \<open>
  What the code relies on beyond the store's environment: Scrypt derives the length it is asked for,
  and AES-GCM appends a tag of sixteen bytes.
\<close>

definition recovery_ok :: "recovery_env \<Rightarrow> bool" where
  "recovery_ok renv \<longleftrightarrow>
     env_ok (base renv) \<and> (\<forall>s p. length (scrypt renv s p) = 32)
     \<and> (\<forall>k n p a. length (aes_encrypt (base renv) k n p a) = length p + 16)"

lemma recovery_okD:
  assumes "recovery_ok renv"
  shows "env_ok (base renv)" "length (scrypt renv s p) = 32"
    "length (aes_encrypt (base renv) k n p' a) = length p' + 16"
  using assms by (simp_all add: recovery_ok_def)

interpretation unique_reader: pairs_reader json_pairs_hook
  by unfold_locales (simp add: json_pairs_hook_def)

lemma length_MAGIC: "length MAGIC = 22"
  by (simp add: MAGIC_def)

lemma encrypt_Inr:
  assumes "encrypt renv snapshot passphrase w = (Inr archive, w')"
  obtains plaintext salt nonce key where "bindE (json_dumps snapshot) utf8 = Inr plaintext"
    "length plaintext \<le> MAX_ARCHIVE_BYTES - 128" "salt = urandom (base renv) (w_draw w) 16"
    "nonce = urandom (base renv) (Suc (w_draw w)) 12" "derive renv passphrase salt = Inr key"
    "archive = MAGIC @ salt @ nonce @ aes_encrypt (base renv) key nonce plaintext AAD"
  using assms unfolding encrypt_def
  by (auto simp: bindM_Inr_iff liftM_def guardM_def drawM_def returnM_def aes_seal_def bindE_Inr_iff split: if_splits)

lemma derive_length: "recovery_ok renv \<Longrightarrow> derive renv passphrase salt = Inr key \<Longrightarrow> length key = 32"
  by (auto simp: derive_def json_case_iff bindE_Inr_iff recovery_okD)

lemma snapshot_checks_iff:
  "snapshot_checks renv v = Inr s \<longleftrightarrow> v = JObj s \<and> has_fields s SNAPSHOT_FIELDS \<and> lookup_field s ''schema'' = Inr (JInt 1)
     \<and> (\<exists>trust. lookup_field s ''trust'' = Inr trust \<and> validate_trust renv trust = Inr ())
     \<and> (\<exists>ks. lookup_field s ''keys'' = Inr (JArr ks)) \<and> (\<exists>ms. lookup_field s ''metadata'' = Inr (JArr ms))"
  unfolding snapshot_checks_def json_case_iff bindE_Inr_iff json_pair_iff guardE_Inr_iff by auto

lemma snapshot_checks_canon:
  assumes "wf_json (JObj s)" and "snapshot_checks renv (JObj s) = Inr s"
  shows "snapshot_checks renv (canon (JObj s)) = Inr (canon_fields s)"
proof -
  from assms(2) obtain trust ks ms where f: "has_fields s SNAPSHOT_FIELDS" "lookup_field s ''schema'' = Inr (JInt 1)"
    "lookup_field s ''trust'' = Inr trust" "validate_trust renv trust = Inr ()"
    "lookup_field s ''keys'' = Inr (JArr ks)" "lookup_field s ''metadata'' = Inr (JArr ms)"
    by (auto simp: snapshot_checks_iff)
  then show ?thesis
    using lookup_canon_wf [OF assms(1)] validate_trust_canon [OF lookup_wf [OF assms(1) f(3)]]
    by (simp add: snapshot_checks_iff)
qed

lemma decrypt_encrypted:
  assumes ok: "recovery_ok renv" and wf: "wf_json (JObj (kv # kvs))"
    and s: "snapshot_checks renv (JObj (kv # kvs)) = Inr (kv # kvs)"
    and run: "encrypt renv (JObj (kv # kvs)) passphrase w = (Inr archive, w')"
  shows "decrypt renv archive passphrase = Inr (canon_fields (kv # kvs))"
proof -
  let ?s = "JObj (kv # kvs)"
  from run obtain plaintext salt nonce key where e: "bindE (json_dumps ?s) utf8 = Inr plaintext"
    "length plaintext \<le> MAX_ARCHIVE_BYTES - 128" "salt = urandom (base renv) (w_draw w) 16"
    "nonce = urandom (base renv) (Suc (w_draw w)) 12" "derive renv passphrase salt = Inr key"
    "archive = MAGIC @ salt @ nonce @ aes_encrypt (base renv) key nonce plaintext AAD"
    by (rule encrypt_Inr)
  have p: "plaintext = map byte_of (dumps ?s)" using e(1) dumped_utf8(1) [OF wf_ints_ok [OF wf]] by simp
  note l = env_okD(3) [OF recovery_okD(1) [OF ok]]
  have len: "length salt = 16" "length nonce = 12" by (simp_all add: e l)
  have size: "length archive = 22 + 28 + length plaintext + 16"
    by (simp add: e(6) len length_MAGIC recovery_okD(3) [OF ok])
  have body: "drop (length MAGIC) archive = salt @ nonce @ aes_encrypt (base renv) key nonce plaintext AAD"
    by (simp add: e(6))
  have op: "aes_open (base renv) key nonce (aes_encrypt (base renv) key nonce plaintext AAD) AAD = Inr plaintext"
    using derive_length [OF ok e(5)] len env_okD(1) [OF recovery_okD(1) [OF ok]]
    by (simp add: aes_open_def aes_new_def aes_nonce_def)
  have cut: "take (length MAGIC) archive = MAGIC" "take 16 (drop (length MAGIC) archive) = salt"
    "take 12 (drop 16 (drop (length MAGIC) archive)) = nonce"
    "drop 28 (drop (length MAGIC) archive) = aes_encrypt (base renv) key nonce plaintext AAD"
    unfolding body by (simp_all add: e(6) len)
  have fits: "length MAGIC + 44 \<le> length archive \<and> length archive \<le> MAX_ARCHIVE_BYTES"
    using size e(2) by (simp add: length_MAGIC MAX_ARCHIVE_BYTES_def)
  have "json_text (base renv) plaintext = Some (dumps ?s)"
    unfolding p by (rule json_text_object [OF wf_ints_ok [OF wf]])
  then show ?thesis
    using op snapshot_checks_canon [OF wf s] unique_reader.loads_with_dumps [OF wf]
    unfolding decrypt_def Let_def cut eqTrueI [OF fits] by (simp add: e(5) del: dumps.simps canon_object)
qed

subsection \<open>What accepted trust looks like\<close>

definition text_field :: "string \<Rightarrow> (ustr \<times> json) list \<Rightarrow> ustr" where
  "text_field name d = (case map_of d (lit name) of Some (JStr s) \<Rightarrow> s | _ \<Rightarrow> [])"

lemma text_field_lookup: "lookup_field d name = Inr (JStr s) \<Longrightarrow> text_field name d = s"
  by (simp add: lookup_field_def text_field_def)

lemma trust_label_name: "trust_label d = Inr s \<Longrightarrow> text_field ''name'' d = s"
proof -
  assume "trust_label d = Inr s"
  then obtain e n where "lookup_field d ''name'' = Inr n"
    "(case (e, n) of (JBool b, JStr s) \<Rightarrow>
         bindE (guardE (1 \<le> length s \<and> length s \<le> 120) RecoveryError) (\<lambda>_.
         bindE (lookup_field d ''description'') (\<lambda>description.
         bindE (guardE (case text_length description of None \<Rightarrow> False | Some n \<Rightarrow> n \<le> 4096) RecoveryError) (\<lambda>_.
           Inr s)))
     | _ \<Rightarrow> Inl RecoveryError) = Inr s"
    unfolding trust_label_def bindE_Inr_iff by blast
  then show ?thesis by (cases e; cases n) (auto simp: bindE_Inr_iff text_field_lookup)
qed

lemma member_of_True: "member_of v xs = Inr b \<Longrightarrow> b \<Longrightarrow> \<exists>s. v = JStr s \<and> s \<in> set xs"
  by (cases v) (auto simp: member_of_def)

lemma provider_fold:
  assumes "foldE (provider_row renv) ([], []) xs = Inr (ids, names)"
  shows "\<exists>ds. xs = map JObj ds \<and> ids = rev (map (text_field ''id'') ds) \<and> names = rev (map (text_field ''name'') ds)
     \<and> distinct ids \<and> distinct names \<and> (\<forall>d \<in> set ds. has_fields d PROVIDER_ROW
        \<and> lookup_field d ''id'' = Inr (JStr (text_field ''id'' d))) \<and> (\<forall>i \<in> set ids. uuid_canon (uni (base renv)) i = Some i)"
proof -
  define P where "P xs s \<longleftrightarrow> (\<exists>ds. xs = map JObj ds \<and> fst s = rev (map (text_field ''id'') ds)
     \<and> snd s = rev (map (text_field ''name'') ds) \<and> distinct (fst s) \<and> distinct (snd s)
     \<and> (\<forall>d \<in> set ds. has_fields d PROVIDER_ROW \<and> lookup_field d ''id'' = Inr (JStr (text_field ''id'' d)))
     \<and> (\<forall>i \<in> set (fst s). uuid_canon (uni (base renv)) i = Some i))" for xs and s :: "ustr list \<times> ustr list"
  have "P xs (ids, names)"
  proof (rule foldE_invariant [OF assms])
    show "P [] ([], [])" by (simp add: P_def)
    fix s x s' ys zs assume p: "P ys s" and r: "provider_row renv s x = Inr s'"
    obtain d i n where t: "trust_row renv PROVIDER_ROW (fst s) x = Inr (d, i)" and n: "trust_label d = Inr n"
      "n \<notin> set (snd s)" and s': "s' = (i # fst s, n # snd s)"
      using r by (cases s) (auto simp: provider_row_def bindE_Inr_iff split: prod.splits)
    from p obtain ds where ds: "ys = map JObj ds" "fst s = rev (map (text_field ''id'') ds)"
      "snd s = rev (map (text_field ''name'') ds)" "distinct (fst s)" "distinct (snd s)"
      "\<forall>d \<in> set ds. has_fields d PROVIDER_ROW \<and> lookup_field d ''id'' = Inr (JStr (text_field ''id'' d))"
      "\<forall>i \<in> set (fst s). uuid_canon (uni (base renv)) i = Some i"
      by (auto simp: P_def)
    note o = trust_row_object [OF t]
    have "text_field ''id'' d = i" using o by (simp add: text_field_lookup)
    then show "P (ys @ [x]) s'"
      unfolding P_def using ds o n trust_label_name [OF n(1)] by (intro exI [of _ "ds @ [d]"]) (auto simp: s')
  qed
  then show ?thesis by (simp add: P_def)
qed

lemma vcenter_fold:
  assumes "foldE (vcenter_row renv ps) ([], []) xs = Inr (ids, names)"
  shows "\<exists>ds. xs = map JObj ds \<and> ids = rev (map (text_field ''id'') ds)
     \<and> names = rev (map (\<lambda>d. (text_field ''provider_id'' d, text_field ''name'' d)) ds)
     \<and> distinct ids \<and> distinct names \<and> (\<forall>d \<in> set ds. text_field ''provider_id'' d \<in> set ps)"
proof -
  define P where "P xs s \<longleftrightarrow> (\<exists>ds. xs = map JObj ds \<and> fst s = rev (map (text_field ''id'') ds)
     \<and> snd s = rev (map (\<lambda>d. (text_field ''provider_id'' d, text_field ''name'' d)) ds)
     \<and> distinct (fst s) \<and> distinct (snd s) \<and> (\<forall>d \<in> set ds. text_field ''provider_id'' d \<in> set ps))"
    for xs and s :: "ustr list \<times> (ustr \<times> ustr) list"
  have "P xs (ids, names)"
  proof (rule foldE_invariant [OF assms])
    show "P [] ([], [])" by (simp add: P_def)
    fix s x s' ys zs assume p: "P ys s" and r: "vcenter_row renv ps s x = Inr s'"
    obtain d i n q where t: "trust_row renv VCENTER_ROW (fst s) x = Inr (d, i)" and n: "trust_label d = Inr n"
      and q: "lookup_field d ''provider_id'' = Inr (JStr q)" "q \<in> set ps" "(q, n) \<notin> set (snd s)"
      and s': "s' = (i # fst s, (q, n) # snd s)"
      using r by (cases s) (auto simp: vcenter_row_def bindE_Inr_iff json_case_iff member_of_def split: prod.splits)
    from p obtain ds where ds: "ys = map JObj ds" "fst s = rev (map (text_field ''id'') ds)"
      "snd s = rev (map (\<lambda>d. (text_field ''provider_id'' d, text_field ''name'' d)) ds)" "distinct (fst s)" "distinct (snd s)"
      "\<forall>d \<in> set ds. text_field ''provider_id'' d \<in> set ps"
      by (auto simp: P_def)
    note o = trust_row_object [OF t]
    have "text_field ''id'' d = i" "text_field ''provider_id'' d = q" using o q by (simp_all add: text_field_lookup)
    then show "P (ys @ [x]) s'"
      unfolding P_def using ds o q trust_label_name [OF n] by (intro exI [of _ "ds @ [d]"]) (auto simp: s')
  qed
  then show ?thesis by (simp add: P_def)
qed

lemma certificate_fold:
  assumes "foldE (certificate_row renv vs) ([], []) xs = Inr (ids, fingerprints)"
  shows "\<exists>ds. xs = map JObj ds \<and> ids = rev (map (text_field ''id'') ds)
     \<and> fingerprints = rev (map (text_field ''fingerprint_sha256'') ds) \<and> distinct ids \<and> distinct fingerprints
     \<and> (\<forall>d \<in> set ds. text_field ''trusted_vcenter_id'' d \<in> set vs \<and> (\<exists>c. parse_public_certificate (load_pem renv) None
          (text_field ''certificate_pem'' d) = Inr c \<and> text_field ''fingerprint_sha256'' d = pc_fingerprint_sha256 c))"
proof -
  define P where "P xs s \<longleftrightarrow> (\<exists>ds. xs = map JObj ds \<and> fst s = rev (map (text_field ''id'') ds)
     \<and> snd s = rev (map (text_field ''fingerprint_sha256'') ds) \<and> distinct (fst s) \<and> distinct (snd s)
     \<and> (\<forall>d \<in> set ds. text_field ''trusted_vcenter_id'' d \<in> set vs \<and> (\<exists>c. parse_public_certificate (load_pem renv) None
          (text_field ''certificate_pem'' d) = Inr c \<and> text_field ''fingerprint_sha256'' d = pc_fingerprint_sha256 c)))"
    for xs and s :: "ustr list \<times> ustr list"
  have "P xs (ids, fingerprints)"
  proof (rule foldE_invariant [OF assms])
    show "P [] ([], [])" by (simp add: P_def)
    fix s x s' ys zs assume p: "P ys s" and r: "certificate_row renv vs s x = Inr s'"
    obtain d i v pem c where t: "trust_row renv CERTIFICATE_ROW (fst s) x = Inr (d, i)"
      and v: "lookup_field d ''trusted_vcenter_id'' = Inr (JStr v)" "v \<in> set vs"
      and c: "lookup_field d ''certificate_pem'' = Inr (JStr pem)" "parse_public_certificate (load_pem renv) None pem = Inr c"
      "lookup_field d ''fingerprint_sha256'' = Inr (JStr (pc_fingerprint_sha256 c))" "pc_fingerprint_sha256 c \<notin> set (snd s)"
      and s': "s' = (i # fst s, pc_fingerprint_sha256 c # snd s)"
      using r by (cases s) (auto simp: certificate_row_def bindE_Inr_iff json_case_iff split: prod.splits dest!: member_of_True)
    from p obtain ds where ds: "ys = map JObj ds" "fst s = rev (map (text_field ''id'') ds)"
      "snd s = rev (map (text_field ''fingerprint_sha256'') ds)" "distinct (fst s)" "distinct (snd s)"
      "\<forall>d \<in> set ds. text_field ''trusted_vcenter_id'' d \<in> set vs \<and> (\<exists>c. parse_public_certificate (load_pem renv) None
          (text_field ''certificate_pem'' d) = Inr c \<and> text_field ''fingerprint_sha256'' d = pc_fingerprint_sha256 c)"
      by (auto simp: P_def)
    note o = trust_row_object [OF t]
    have "text_field ''id'' d = i" "text_field ''trusted_vcenter_id'' d = v" "text_field ''certificate_pem'' d = pem"
      "text_field ''fingerprint_sha256'' d = pc_fingerprint_sha256 c" using o v c by (simp_all add: text_field_lookup)
    then show "P (ys @ [x]) s'"
      unfolding P_def using ds o v c by (intro exI [of _ "ds @ [d]"]) (auto simp: s')
  qed
  then show ?thesis by (simp add: P_def)
qed

text \<open>Every identifier that a row enters is canonical.\<close>

lemma canonical_ids:
  assumes "foldE f s xs = Inr s'" "\<forall>i \<in> set (fst s). uuid_canon (uni (base renv)) i = Some i"
    and "\<And>s x s'. f s x = Inr s' \<Longrightarrow> \<exists>names d i. trust_row renv names (fst s) x = Inr (d, i) \<and> fst s' = i # fst s"
  shows "\<forall>i \<in> set (fst s'). uuid_canon (uni (base renv)) i = Some i"
  using assms(1,2)
proof (induction xs arbitrary: s)
  case (Cons x xs)
  then obtain t where t: "f s x = Inr t" "foldE f t xs = Inr s'" by (auto simp: bindE_Inr_iff)
  from assms(3) [OF t(1)] obtain names d i where "trust_row renv names (fst s) x = Inr (d, i)" "fst t = i # fst s" by blast
  then have "\<forall>i \<in> set (fst t). uuid_canon (uni (base renv)) i = Some i" using trust_row_object Cons.prems(2) by force
  then show ?case by (rule Cons.IH [OF t(2)])
qed simp

lemma rows_canonical:
  "foldE (provider_row renv) ([], []) xs = Inr s \<Longrightarrow> i \<in> set (fst s) \<Longrightarrow> uuid_canon (uni (base renv)) i = Some i"
  "foldE (vcenter_row renv ps) ([], []) xs = Inr t \<Longrightarrow> i \<in> set (fst t) \<Longrightarrow> uuid_canon (uni (base renv)) i = Some i"
  "foldE (certificate_row renv vs) ([], []) xs = Inr s \<Longrightarrow> i \<in> set (fst s) \<Longrightarrow> uuid_canon (uni (base renv)) i = Some i"
proof -
  have p: "\<exists>names d i. trust_row renv names (fst s) x = Inr (d, i) \<and> fst s' = i # fst s" if "provider_row renv s x = Inr s'" for s x s'
    using that by (cases s) (auto simp: provider_row_def bindE_Inr_iff split: prod.splits, blast)
  have v: "\<exists>names d i. trust_row renv names (fst s) x = Inr (d, i) \<and> fst s' = i # fst s" if "vcenter_row renv ps s x = Inr s'" for s x s'
    using that by (cases s) (auto simp: vcenter_row_def bindE_Inr_iff json_case_iff split: prod.splits, blast)
  have c: "\<exists>names d i. trust_row renv names (fst s) x = Inr (d, i) \<and> fst s' = i # fst s" if "certificate_row renv vs s x = Inr s'" for s x s'
    using that by (cases s) (auto simp: certificate_row_def bindE_Inr_iff json_case_iff split: prod.splits, blast)
  show "uuid_canon (uni (base renv)) i = Some i" if r: "foldE (provider_row renv) ([], []) xs = Inr s" "i \<in> set (fst s)"
    using canonical_ids [OF r(1) _ p] r(2) by simp
  show "uuid_canon (uni (base renv)) i = Some i" if r: "foldE (vcenter_row renv ps) ([], []) xs = Inr t" "i \<in> set (fst t)"
    using canonical_ids [OF r(1) _ v] r(2) by simp
  show "uuid_canon (uni (base renv)) i = Some i" if r: "foldE (certificate_row renv vs) ([], []) xs = Inr s" "i \<in> set (fst s)"
    using canonical_ids [OF r(1) _ c] r(2) by simp
qed

text \<open>The rows of the three kinds in an accepted document.\<close>

definition trust_graph ::
  "json \<Rightarrow> (ustr \<times> json) list list \<Rightarrow> (ustr \<times> json) list list \<Rightarrow> (ustr \<times> json) list list \<Rightarrow> bool" where
  "trust_graph trust providers vcenters certificates \<longleftrightarrow>
     subscript trust ''providers'' = Inr (JArr (map JObj providers))
     \<and> subscript trust ''vcenters'' = Inr (JArr (map JObj vcenters))
     \<and> subscript trust ''certificates'' = Inr (JArr (map JObj certificates))"

lemma trust_rows_Inr: "trust_rows trust kind = Inr xs \<longleftrightarrow> subscript trust kind = Inr (JArr xs) \<and> length xs \<le> 10000"
  by (auto simp: trust_rows_def bindE_Inr_iff json_case_iff)

lemma validate_trust_Inr:
  assumes "validate_trust renv trust = Inr ()"
  obtains ps vs cs where "trust_graph trust ps vs cs"
    "foldE (provider_row renv) ([], []) (map JObj ps) = Inr (rev (map (text_field ''id'') ps), rev (map (text_field ''name'') ps))"
    "foldE (vcenter_row renv (rev (map (text_field ''id'') ps))) ([], []) (map JObj vs)
       = Inr (rev (map (text_field ''id'') vs), rev (map (\<lambda>d. (text_field ''provider_id'' d, text_field ''name'' d)) vs))"
    "foldE (certificate_row renv (rev (map (text_field ''id'') vs))) ([], []) (map JObj cs)
       = Inr (rev (map (text_field ''id'') cs), rev (map (text_field ''fingerprint_sha256'') cs))"
proof -
  from assms obtain p v c pids pnames vids vnames cids fps where
    rows: "trust_rows trust ''providers'' = Inr p" "foldE (provider_row renv) ([], []) p = Inr (pids, pnames)"
    "trust_rows trust ''vcenters'' = Inr v" "foldE (vcenter_row renv pids) ([], []) v = Inr (vids, vnames)"
    "trust_rows trust ''certificates'' = Inr c" "foldE (certificate_row renv vids) ([], []) c = Inr (cids, fps)"
    by (auto simp: validate_trust_def json_case_iff bindE_Inr_iff catchE_Inr_iff split: prod.splits)
  from provider_fold [OF rows(2)] obtain ps where ps: "p = map JObj ps" "pids = rev (map (text_field ''id'') ps)"
    "pnames = rev (map (text_field ''name'') ps)" by blast
  from vcenter_fold [OF rows(4)] obtain vs where vs: "v = map JObj vs" "vids = rev (map (text_field ''id'') vs)"
    "vnames = rev (map (\<lambda>d. (text_field ''provider_id'' d, text_field ''name'' d)) vs)" by blast
  from certificate_fold [OF rows(6)] obtain cs where cs: "c = map JObj cs" "cids = rev (map (text_field ''id'') cs)"
    "fps = rev (map (text_field ''fingerprint_sha256'') cs)" by blast
  show thesis
  proof (rule that)
    show "trust_graph trust ps vs cs"
      using rows(1,3,5) by (simp add: trust_graph_def trust_rows_Inr ps(1) vs(1) cs(1))
  qed (use rows ps vs cs in simp_all)
qed

lemma trust_provider_ids_graph:
  assumes "trust_graph trust ps vs cs" and "\<forall>d \<in> set ps. lookup_field d ''id'' = Inr (JStr (text_field ''id'' d))"
  shows "trust_provider_ids trust = Inr (map (text_field ''id'') ps)"
proof -
  have "mapE (\<lambda>row. bindE (subscript row ''id'') (\<lambda>i. case i of JStr s \<Rightarrow> Inr s | _ \<Rightarrow> Inl TypeError)) (map JObj ps)
      = Inr (map (text_field ''id'') ps)"
    using assms(2) by (induction ps) (simp_all add: subscript_def)
  with assms(1) show ?thesis by (simp add: trust_provider_ids_def trust_graph_def)
qed

text \<open>The identifiers of the providers of an accepted document: the same in every rendering, and canonical.\<close>

lemma validated_provider_ids:
  assumes "validate_trust renv trust = Inr ()"
  obtains ids where "trust_provider_ids trust = Inr ids" "\<forall>i \<in> set ids. uuid_canon (uni (base renv)) i = Some i"
proof -
  from assms obtain ps vs cs where g: "trust_graph trust ps vs cs"
    and f: "foldE (provider_row renv) ([], []) (map JObj ps) = Inr (rev (map (text_field ''id'') ps), rev (map (text_field ''name'') ps))"
    by (rule validate_trust_Inr)
  from provider_fold [OF f] have ds: "\<forall>d \<in> set ps. lookup_field d ''id'' = Inr (JStr (text_field ''id'' d))"
    "\<forall>i \<in> set (map (text_field ''id'') ps). uuid_canon (uni (base renv)) i = Some i"
    using inj_map_eq_map [of JObj] by (auto simp: inj_def)
  show thesis by (rule that [OF trust_provider_ids_graph [OF g ds(1)] ds(2)])
qed

lemma trust_provider_ids_canon:
  assumes "wf_json trust" and "validate_trust renv trust = Inr ()"
  shows "trust_provider_ids (canon trust) = trust_provider_ids trust"
proof -
  from assms(2) obtain d where t: "trust = JObj d" by (auto simp: validate_trust_def json_case_iff)
  note wf = assms(1) [unfolded t]
  have row: "bindE (subscript (canon x) ''id'') (\<lambda>i. case i of JStr s \<Rightarrow> Inr s | _ \<Rightarrow> Inl TypeError)
      = bindE (subscript x ''id'') (\<lambda>i. case i of JStr s \<Rightarrow> Inr s | _ \<Rightarrow> Inl TypeError)" if "wf_json x" for x
  proof (cases x)
    case (JObj e)
    show ?thesis using lookup_canon_wf [OF that [unfolded JObj], of "''id''"]
      by (cases "lookup_field e ''id''") (simp_all add: JObj subscript_def case_canon_text)
  qed (simp_all add: subscript_def)
  show ?thesis
  proof (cases "lookup_field d ''providers''")
    case (Inr v)
    show ?thesis
    proof (cases v)
      case (JArr xs)
      then have "\<forall>x \<in> set xs. wf_json x" using lookup_wf [OF wf Inr] by (simp add: list_all_iff)
      then have "mapE (\<lambda>row. bindE (subscript row ''id'') (\<lambda>i. case i of JStr s \<Rightarrow> Inr s | _ \<Rightarrow> Inl TypeError)) (map canon xs)
        = mapE (\<lambda>row. bindE (subscript row ''id'') (\<lambda>i. case i of JStr s \<Rightarrow> Inr s | _ \<Rightarrow> Inl TypeError)) xs"
        by (induction xs) (simp_all add: row)
      then show ?thesis
        using lookup_canon_wf [OF wf, of "''providers''"] Inr JArr by (simp add: t trust_provider_ids_def subscript_def)
    qed (use lookup_canon_wf [OF wf, of "''providers''"] Inr in \<open>simp_all add: t trust_provider_ids_def subscript_def\<close>)
  qed (use lookup_canon_wf [OF wf, of "''providers''"] in \<open>simp add: t trust_provider_ids_def subscript_def\<close>)
qed

end
