(* ===== verification/RecoveryProps.thy ===== *)
theory RecoveryProps
  imports RecoveryArchive StoreProps
begin

text \<open>
  The properties of recovery archives: an archive is taken whole or refused, accepted trust is a
  consistent graph, and the store built from the archive of another store holds exactly its keys.
\<close>

subsection \<open>Rows and tables read back\<close>

lemma row_fields_distinct: "row_document r = JObj d \<Longrightarrow> distinct (map fst d)"
  by (auto simp: row_document_def)

lemma candidate_row_captured:
  assumes r: "row_ok r" and p: "r_provider_id r \<in> set ids"
  shows "candidate_row renv ids (canon (row_document r)) = Inr r"
proof -
  obtain d where d: "row_document r = JObj d" by (simp add: row_document_def)
  note lk = lookup_canon [OF row_fields_distinct [OF d]]
  have f: "has_fields d FIELDS" using d by (auto simp: row_document_def has_fields_def FIELDS_def)
  have l: "lookup_field d ''provider_id'' = Inr (JStr (r_provider_id r))" "lookup_field d ''key_id'' = Inr (JStr (r_key_id r))"
    "lookup_field d ''algorithm'' = Inr (JStr (r_algorithm r))" "lookup_field d ''key_length'' = Inr (JInt (r_key_length r))"
    "lookup_field d ''name'' = Inr (opt_str (r_name r))" "lookup_field d ''state'' = Inr (JStr (r_state r))"
    "lookup_field d ''created_at'' = Inr (JStr (r_created_at r))" "lookup_field d ''activated_at'' = Inr (opt_str (r_activated_at r))"
    "lookup_field d ''nonce'' = Inr (JStr (b64encode (r_nonce r)))"
    "lookup_field d ''ciphertext'' = Inr (JStr (b64encode (r_ciphertext r)))" "lookup_field d ''aad_json'' = Inr (JStr (r_aad_json r))"
    using d by (auto simp: row_document_def lookup_field_def)
  have o: "column_optional renv (opt_str x) = Inr x" if "\<forall>s. x = Some s \<longrightarrow> list_all is_scalar s" for x
    using that by (cases x) (simp_all add: opt_str_def column_optional_def column_text_def)
  have s: "column_text renv (JStr x) = Inr x"
    if "x \<in> {r_provider_id r, r_key_id r, r_algorithm r, r_state r, r_created_at r, r_aad_json r}" for x
    using r that by (auto simp: row_ok_def row_binds_def column_text_def)
  have on: "column_optional renv (opt_str (r_name r)) = Inr (r_name r)"
    "column_optional renv (opt_str (r_activated_at r)) = Inr (r_activated_at r)"
    using r by (auto intro!: o simp: row_ok_def row_binds_def split: option.splits)
  have k: "column_integer renv (JInt (r_key_length r)) = Inr (r_key_length r)"
    using r by (simp add: column_integer_def row_ok_def row_checks_def)
  show ?thesis
    unfolding d canon_object candidate_row_def json.case lk
    by (simp add: f l p s on k member_of_def decoded_def b64decode_b64encode)
qed

lemma insert_rows:
  assumes "distinct (map row_key (wrapped_keys db @ rs))" and "list_all row_ok rs" and "\<forall>r \<in> set rs. r_provider_id r \<in> set ids"
  shows "foldE (\<lambda>d v. bindE (candidate_row renv ids v) (\<lambda>r. insert_row r d)) db (map (canon \<circ> row_document) rs)
    = Inr (db\<lparr>wrapped_keys := wrapped_keys db @ rs\<rparr>)"
  using assms
proof (induction rs arbitrary: db)
  case (Cons r rs)
  have "insert_row r db = Inr (db\<lparr>wrapped_keys := wrapped_keys db @ [r]\<rparr>)"
    using Cons.prems by (auto simp: insert_row_def row_ok_def)
  then show ?case using Cons.prems Cons.IH [of "db\<lparr>wrapped_keys := wrapped_keys db @ [r]\<rparr>"]
    by (simp add: candidate_row_captured)
qed simp

lemma insert_pairs:
  assumes "distinct (map fst (store_metadata db @ ms))" and "list_all (\<lambda>(n, v). list_all is_scalar n \<and> list_all is_scalar v) ms"
  shows "foldE (insert_metadata renv) db (map (\<lambda>(n, v). JArr [JStr n, JStr v]) ms)
    = Inr (db\<lparr>store_metadata := store_metadata db @ ms\<rparr>)"
  using assms
proof (induction ms arbitrary: db)
  case (Cons m ms)
  obtain n v where m: "m = (n, v)" by (cases m)
  have "insert_metadata renv db (JArr [JStr n, JStr v]) = Inr (db\<lparr>store_metadata := store_metadata db @ [(n, v)]\<rparr>)"
    using Cons.prems by (auto simp: insert_metadata_def metadata_pair_def column_text_def m)
  then show ?case using Cons.prems Cons.IH [of "db\<lparr>store_metadata := store_metadata db @ [(n, v)]\<rparr>"] by (simp add: m)
qed simp

text \<open>The database of a snapshot is the captured one with its rows in order.\<close>

definition in_order :: "database \<Rightarrow> database" where
  "in_order db = \<lparr>schema_ready = True, store_metadata = sort_key fst (store_metadata db),
     wrapped_keys = sort_key row_key (wrapped_keys db)\<rparr>"

lemma sort_key_twice [simp]: "sort_key f (sort_key f xs) = sort_key f xs"
  by (rule sort_key_id_if_sorted) simp

lemma in_order_commitment: "commitment env (in_order db) = commitment env db"
  by (simp add: commitment_def document_bytes_def store_document_def in_order_def)

lemma distinct_map_sort: "distinct (map f (sort_key g xs)) = distinct (map f xs)"
  by (simp add: distinct_map)

lemma in_order_ok: "db_ok db \<Longrightarrow> db_ok (in_order db)"
  by (simp add: db_ok_def in_order_def distinct_map_sort map_of_sort_key)

lemma find_unique:
  assumes "distinct (map row_key rs)" and "set rs' = set rs"
  shows "find (\<lambda>r. row_key r = k) rs' = find (\<lambda>r. row_key r = k) rs"
proof (cases "find (\<lambda>r. row_key r = k) rs")
  case None
  then have "find (\<lambda>r. row_key r = k) rs' = None" using assms(2) by (simp add: find_None_iff)
  with None show ?thesis by simp
next
  case (Some r)
  note r = find_SomeD [OF Some]
  then have "find (\<lambda>r. row_key r = k) rs' \<noteq> None" using assms(2) by (auto simp: find_None_iff)
  then obtain r' where r': "find (\<lambda>r. row_key r = k) rs' = Some r'" by auto
  from find_SomeD [OF this] r assms have "r' = r" by (auto simp: distinct_map inj_on_def)
  with Some r' show ?thesis by simp
qed

lemma in_order_contents:
  assumes "db_ok db"
  shows "contents env kek (in_order db) = contents env kek db" "keys_open env kek (in_order db) = keys_open env kek db"
proof -
  have "find (\<lambda>r. row_key r = k) (wrapped_keys (in_order db)) = find (\<lambda>r. row_key r = k) (wrapped_keys db)" for k
    using assms by (intro find_unique) (simp_all add: db_ok_def in_order_def)
  then show "contents env kek (in_order db) = contents env kek db" by (simp add: fun_eq_iff contents_def)
  show "keys_open env kek (in_order db) = keys_open env kek db" by (simp add: keys_open_def in_order_def)
qed

lemma candidate_database_captured:
  assumes db: "db_ok db" and p: "\<forall>r \<in> set (wrapped_keys db). r_provider_id r \<in> set ids"
  shows "candidate_database renv (canon (JArr (map (\<lambda>(n, v). JArr [JStr n, JStr v]) (sort_key fst (store_metadata db)))))
      (canon (JArr (map row_document (sort_key row_key (wrapped_keys db))))) ids (empty_database\<lparr>schema_ready := True\<rparr>)
    = Inr (in_order db)"
proof -
  have c: "map (canon \<circ> (\<lambda>(n, v). JArr [JStr n, JStr v])) ms = map (\<lambda>(n, v). JArr [JStr n, JStr v]) ms" for ms
    by (induction ms) auto
  let ?db = "empty_database\<lparr>schema_ready := True\<rparr>"
  have m: "foldE (insert_metadata renv) ?db (map (\<lambda>(n, v). JArr [JStr n, JStr v]) (sort_key fst (store_metadata db)))
      = Inr (?db\<lparr>store_metadata := sort_key fst (store_metadata db)\<rparr>)"
    using insert_pairs [of ?db "sort_key fst (store_metadata db)" renv] db
    by (simp add: db_ok_def empty_database_def distinct_map_sort)
  let ?db1 = "?db\<lparr>store_metadata := sort_key fst (store_metadata db)\<rparr>"
  have "foldE (\<lambda>d v. bindE (candidate_row renv ids v) (\<lambda>r. insert_row r d)) ?db1 (map (canon \<circ> row_document) (sort_key row_key (wrapped_keys db)))
      = Inr (?db1\<lparr>wrapped_keys := sort_key row_key (wrapped_keys db)\<rparr>)"
    using insert_rows [of ?db1 "sort_key row_key (wrapped_keys db)" ids renv] db p
    by (simp add: db_ok_def empty_database_def distinct_map_sort)
  then show ?thesis using m by (simp add: candidate_database_def c in_order_def empty_database_def)
qed

subsection \<open>A store opened read-only\<close>

definition readable :: "env \<Rightarrow> bytes \<Rightarrow> bytes \<Rightarrow> database \<Rightarrow> disk \<Rightarrow> bool" where
  "readable env master kek db d \<longleftrightarrow>
     d_db d = Some db \<and> db_ok db \<and> \<not> d_journal d \<and> \<not> d_rollback d
     \<and> (\<exists>e. opened env master d e \<and> sound kek e \<and> settled_on env kek db e)"

definition reader :: "bytes \<Rightarrow> bytes \<Rightarrow> kek_envelope \<Rightarrow> store" where
  "reader master kek e = \<lparr>s_read_only = True, s_master_key = master, s_kek = kek, s_envelope = e\<rparr>"

lemma settled_onD:
  assumes "settled_on env kek db e"
  shows "e_kek e = kek" "e_commitment e = commitment env db" "e_pending_commitment e = None"
  using arg_cong [OF assms [unfolded settled_on_def], of e_kek] arg_cong [OF assms [unfolded settled_on_def], of e_commitment]
    arg_cong [OF assms [unfolded settled_on_def], of e_pending_commitment] by simp_all

lemma readable_kept: "readable env master kek db d \<Longrightarrow> kept env master kek db d"
  by (auto simp: readable_def kept_def covers_def dest: settled_onD(2))

text \<open>What a read-only open proves: the envelope opens and is settled on the database.\<close>

lemma verify_read_only:
  assumes "db_ok db" and "s_read_only (w_self w)"
  shows "verify_store_commitment env db w =
    (if e_commitment (s_envelope (w_self w)) = [] \<or> e_pending_commitment (s_envelope (w_self w)) \<noteq> None
        \<or> commitment env db \<noteq> e_commitment (s_envelope (w_self w))
     then (Inl (KeyStoreError ''KMIP read-only store integrity or transaction state is unavailable.''), w) else (Inr (), w))"
  using assms by (simp add: verify_store_commitment_def store_commitment_total guardM_def Let_def)

lemma init_read_only:
  assumes r: "readable env master kek db (w_disk w)" and m: "length master = 32" "master_of env sk (w_disk w) = Inr master"
  obtains e where "init_store env sk True w = (Inr (), w\<lparr>w_self := reader master kek e\<rparr>)"
    "opened env master (w_disk w) e" "sound kek e" "settled_on env kek db e"
proof -
  from r obtain e where db: "d_db (w_disk w) = Some db" "db_ok db" "\<not> d_journal (w_disk w)" "\<not> d_rollback (w_disk w)"
    and e: "opened env master (w_disk w) e" "sound kek e" "settled_on env kek db e"
    by (auto simp: readable_def)
  have kn: "d_kek (w_disk w) \<noteq> None" using e(1) by (auto simp: opened_def)
  have sch: "schema_ready db" "map_of (store_metadata db) (lit ''schema_version'') = Some (int_text STORE_SCHEMA_VERSION)"
    using db(2) by (simp_all add: db_ok_def)
  have nz: "e_commitment e \<noteq> []" using e(2) by (simp add: sound_def)
  let ?w = "w\<lparr>w_self := reader master kek e\<rparr>"
  have "verify_store_commitment env db ?w = (Inr (), ?w)"
    using verify_read_only [OF db(2), of ?w env] settled_onD [OF e(3)] nz by (simp add: reader_def)
  then have "init_store env sk True w = (Inr (), ?w)"
    using db kn load_existing [OF m(2,1) e(1), of True] settled_onD(1) [OF e(3)] sch
    by (simp add: init_store_def reader_def initialize_def connect_def)
  then show thesis using e by (rule that)
qed

lemma counts_read_only:
  assumes db: "d_db (w_disk w) = Some db" "db_ok db" and s: "w_self w = reader master kek e"
    and e: "sound kek e" "settled_on env kek db e" and k: "keys_open env kek db"
    and p: "\<forall>i \<in> set ids. uuid_canon (uni env) i = Some i"
  shows "\<exists>counts. lifecycle_counts env ids w = (Inr counts, w)"
proof -
  have "mapE (\<lambda>p. validated_uuid env p ''provider_id'') ids = Inr (map (\<lambda>i. i) ids)"
    by (rule mapE_total) (simp add: validated_uuid_def p)
  moreover have "e_commitment e \<noteq> []" using e(1) by (simp add: sound_def)
  then have "verify_store_commitment env db w = (Inr (), w)"
    using verify_read_only [OF db(2), of w env] settled_onD [OF e(2)] by (simp add: s reader_def)
  moreover have "\<exists>keys. mapE (decrypt_row env kek) rs = Inr keys" if "set rs \<subseteq> set (wrapped_keys db)" for rs
    using that k by (induction rs) (auto simp: keys_open_def)
  then obtain keys where "mapE (decrypt_row env kek) (sort_key row_key (wrapped_keys db)) = Inr keys" by force
  ultimately show ?thesis
    using db by (simp add: lifecycle_counts_def connect_def s reader_def returnM_def)
qed

text \<open>What a successful read-only open says of the files.\<close>

lemma init_read_only_Inr:
  assumes k: "kept env master kek db (w_disk w)" and m: "length master = 32" "master_of env sk (w_disk w) = Inr master"
    and run: "init_store env sk True w = (Inr (), w')"
  shows "readable env master kek db (w_disk w)"
proof -
  from k obtain e where db: "d_db (w_disk w) = Some db" "db_ok db"
    and e: "opened env master (w_disk w) e" "sound kek e" by (auto simp: kept_def)
  have kn: "d_kek (w_disk w) \<noteq> None" using e(1) by (auto simp: opened_def)
  have sch: "schema_ready db" "map_of (store_metadata db) (lit ''schema_version'') = Some (int_text STORE_SCHEMA_VERSION)"
    using db(2) by (simp_all add: db_ok_def)
  have j: "\<not> (d_journal (w_disk w) \<or> d_rollback (w_disk w))"
    using run by (auto simp: init_store_def bindM_Inr_iff guardM_def getM_def split: if_splits)
  let ?w = "w\<lparr>w_self := reader master kek e\<rparr>"
  have ek: "e_kek e = kek" using e(2) by (simp add: sound_def)
  have "init_store env sk True w = verify_store_commitment env db ?w"
    using db kn load_existing [OF m(2,1) e(1), of True] ek sch j
    by (simp add: init_store_def reader_def initialize_def connect_def)
  with run have v: "verify_store_commitment env db ?w = (Inr (), w')" by simp
  have "e_commitment e = commitment env db" "e_pending_commitment e = None"
    using v verify_read_only [OF db(2), of ?w env] by (auto simp: reader_def split: if_splits)
  then have "settled_on env kek db e" by (intro pending_None_settled [OF e(2)])
  with db e j show ?thesis by (auto simp: readable_def)
qed

subsection \<open>From one store to another\<close>

lemma capture_Inr:
  assumes run: "capture renv trust w = (Inr snapshot, w')"
    and db: "d_db (w_disk w) = Some db" "db_ok db" and s: "s_read_only (w_self w)"
  obtains ids kek_file where "validate_trust renv trust = Inr ()" "trust_provider_ids trust = Inr ids"
    "\<forall>r \<in> set (wrapped_keys db). r_provider_id r \<in> set ids" "d_kek (w_disk w) = Some kek_file" "w' = w"
    "snapshot = snapshot_document (map row_document (sort_key row_key (wrapped_keys db)))
       (sort_key fst (store_metadata db)) kek_file (s_master_key (w_self w)) trust"
proof -
  have c: "connect w = (Inr db, w)" using db by (simp add: connect_def returnM_def)
  have v: "w1 = w" if "verify_store_commitment (base renv) db w = (x, w1)" for x w1
    using that verify_read_only [OF db(2) s, of "base renv"] by (simp split: if_splits)
  from run obtain ids rows kek_file where t: "validate_trust renv trust = Inr ()" and i: "trust_provider_ids trust = Inr ids"
    and r: "mapE (\<lambda>r. bindE (guardE (r_provider_id r \<in> set ids) RecoveryError) (\<lambda>_. Inr (row_document r)))
        (sort_key row_key (wrapped_keys db)) = Inr rows" and k: "d_kek (w_disk w) = Some kek_file"
    and o: "w' = w" "snapshot = snapshot_document rows (sort_key fst (store_metadata db)) kek_file (s_master_key (w_self w)) trust"
    unfolding capture_def by (auto simp: bindM_Inr_iff liftM_def getM_def returnM_def c dest!: v)
  have "mapE (\<lambda>r. bindE (guardE (r_provider_id r \<in> set ids) RecoveryError) (\<lambda>_. Inr (row_document r))) rs = Inr ys
    \<Longrightarrow> ys = map row_document rs \<and> (\<forall>r \<in> set rs. r_provider_id r \<in> set ids)" for rs ys
    by (induction rs arbitrary: ys) (auto simp: bindE_Inr_iff)
  from this [OF r] show thesis using t i k o by (intro that) auto
qed

text \<open>Writing the candidate without faults.\<close>

lemma exclusive_file_calm:
  assumes "calm env (w_io w)" and "\<not> exists (w_disk w)"
  shows "exclusive_file env exists create w = (Inr (), w\<lparr>w_io := Suc (w_io w), w_disk := create (w_disk w)\<rparr>)"
  using assms by (simp add: exclusive_file_def calmD Let_def)

lemma commit_calm:
  "calm env (w_io w) \<Longrightarrow> commit env view w = (Inr (), w\<lparr>w_io := Suc (w_io w), w_disk := (w_disk w)\<lparr>d_db := Some view\<rparr>\<rparr>)"
  by (simp add: commit_def calmD Let_def)

definition candidate_disk :: "disk \<Rightarrow> database \<Rightarrow> bytes \<Rightarrow> bytes \<Rightarrow> json \<Rightarrow> disk" where
  "candidate_disk d db kek sealed trust =
     d\<lparr>d_kek := Some kek, d_recovery := Some sealed, d_trust := Some trust, d_db := Some db\<rparr>"

lemma write_candidate_calm:
  assumes calm: "calm (base renv) (w_io w)" and d: "is_empty_directory (w_disk w)" and ok: "recovery_ok renv"
    and s: "lookup_field s ''master'' = Inr (JStr (b64encode master))" "lookup_field s ''kek'' = Inr (JStr (b64encode kek))"
      "lookup_field s ''trust'' = Inr trust" "lookup_field s ''metadata'' = Inr metadata" "lookup_field s ''keys'' = Inr keys"
    and m: "length master = 32" "length kek \<le> 8192" and t: "trust_provider_ids trust = Inr ids"
    and db: "candidate_database renv metadata keys ids (empty_database\<lparr>schema_ready := True\<rparr>) = Inr db"
    and sk: "master_key (base renv) sk = Inr target"
  shows "\<exists>nonce n. write_candidate renv s sk w = (Inr (kek, ids),
      w\<lparr>w_disk := candidate_disk (w_disk w) db kek (nonce @ aes_encrypt (base renv) target nonce master RECOVERY_MASTER_AAD) trust,
        w_draw := Suc (w_draw w), w_io := n\<rparr>) \<and> length nonce = 12 \<and> calm (base renv) n"
proof -
  define nonce where "nonce = urandom (base renv) (w_draw w) 12"
  have ln: "length nonce = 12" by (simp add: nonce_def env_okD(3) [OF recovery_okD(1) [OF ok]])
  have lt: "length target = 32" using sk env_okD(2) [OF recovery_okD(1) [OF ok]]
    by (auto simp: master_key_def bindE_Inr_iff split: if_splits)
  have seal: "aes_seal (base renv) target nonce master RECOVERY_MASTER_AAD
      = Inr (aes_encrypt (base renv) target nonce master RECOVERY_MASTER_AAD)"
    using ln lt by (simp add: aes_seal_def aes_new_def aes_nonce_def)
  have c: "calm (base renv) (Suc n)" if "calm (base renv) n" for n using that by (simp add: calm_def)
  note e = d [unfolded is_empty_directory_def]
  have "write_candidate renv s sk w = (Inr (kek, ids),
      w\<lparr>w_disk := candidate_disk (w_disk w) db kek (nonce @ aes_encrypt (base renv) target nonce master RECOVERY_MASTER_AAD) trust,
        w_draw := Suc (w_draw w), w_io := w_io w + 6\<rparr>)"
    using e calm unfolding write_candidate_def create_tables_def
    by (simp add: s decoded_def b64decode_b64encode m exclusive_file_calm commit_calm c sk seal nonce_def [symmetric] t db
        returnM_def candidate_disk_def)
  moreover have "calm (base renv) (w_io w + 6)" using calm by (simp add: calm_def)
  ultimately show ?thesis using ln by blast
qed

lemma authenticate_calm:
  assumes calm: "calm (base renv) (w_io w)" and r: "readable (base renv) master kek db (w_disk w)"
    and m: "length master = 32" "master_of (base renv) sk (w_disk w) = Inr master"
    and k: "keys_open (base renv) kek db" "\<forall>i \<in> set ids. uuid_canon (uni (base renv)) i = Some i"
    and f: "d_kek (w_disk w) = Some kek_file"
  shows "\<exists>w'. authenticate_candidate renv kek_file ids sk w = (Inr (), w') \<and> w_disk w' = w_disk w \<and> calm (base renv) (w_io w')
    \<and> w_draw w' = w_draw w"
proof -
  obtain e where e: "init_store (base renv) sk True w = (Inr (), w\<lparr>w_self := reader master kek e\<rparr>)"
    "opened (base renv) master (w_disk w) e" "sound kek e" "settled_on (base renv) kek db e"
    by (rule init_read_only [OF r m])
  let ?w = "w\<lparr>w_self := reader master kek e\<rparr>"
  have "d_db (w_disk ?w) = Some db" "db_ok db" using r by (simp_all add: readable_def)
  from counts_read_only [OF this _ e(3,4) k, of master] obtain counts where
    "lifecycle_counts (base renv) ids ?w = (Inr counts, ?w)" by auto
  then show ?thesis
    using calmD [OF calm] f
    by (simp add: authenticate_candidate_def e(1) catchM_def close_def flush_files_def)
qed

lemma snapshot_lookup:
  "lookup_field (snapshot_document rows ms kek master trust) ''schema'' = Inr (JInt 1)"
  "lookup_field (snapshot_document rows ms kek master trust) ''keys'' = Inr (JArr rows)"
  "lookup_field (snapshot_document rows ms kek master trust) ''metadata''
     = Inr (JArr (map (\<lambda>(n, v). JArr [JStr n, JStr v]) ms))"
  "lookup_field (snapshot_document rows ms kek master trust) ''kek'' = Inr (JStr (b64encode kek))"
  "lookup_field (snapshot_document rows ms kek master trust) ''master'' = Inr (JStr (b64encode master))"
  "lookup_field (snapshot_document rows ms kek master trust) ''trust'' = Inr trust"
  "has_fields (snapshot_document rows ms kek master trust) SNAPSHOT_FIELDS"
  by (auto simp: snapshot_document_def lookup_field_def has_fields_def SNAPSHOT_FIELDS_def)

lemma snapshot_wf:
  assumes "db_ok db" and "wf_json trust"
  shows "wf_json (JObj (snapshot_document (map row_document (sort_key row_key (wrapped_keys db)))
     (sort_key fst (store_metadata db)) kek master trust))"
proof -
  have "list_all wf_json (map row_document (sort_key row_key (wrapped_keys db)))"
    "list_all wf_json (map (\<lambda>(n, v). JArr [JStr n, JStr v]) (sort_key fst (store_metadata db)))"
    using assms(1) by (auto simp: db_ok_def list_all_iff row_document_wf)
  with assms(2) show ?thesis
    by (simp add: snapshot_document_def wf_json.simps int_ok_def digs.simps lit_scalar_cong)
qed

lemma sealed_master:
  assumes ok: "recovery_ok renv" and sk: "master_key (base renv) sk = Inr target" and n: "length nonce = 12"
    and m: "length master = 32" and d: "d_recovery d = Some (nonce @ aes_encrypt (base renv) target nonce master RECOVERY_MASTER_AAD)"
  shows "master_of (base renv) sk d = Inr master"
proof -
  have "length target = 32" using sk env_okD(2) [OF recovery_okD(1) [OF ok]]
    by (auto simp: master_key_def bindE_Inr_iff split: if_splits)
  then have "aes_open (base renv) target nonce (aes_encrypt (base renv) target nonce master RECOVERY_MASTER_AAD)
      RECOVERY_MASTER_AAD = Inr master"
    using n env_okD(1) [OF recovery_okD(1) [OF ok]] by (simp add: aes_open_def aes_new_def aes_nonce_def)
  then show ?thesis
    using n m by (simp add: master_of_def sk recovery_master_def d recovery_okD(3) [OF ok] RECOVERY_MASTER_AAD_def)
qed

text \<open>A snapshot of a store, as it is read from the archive.\<close>

definition captured :: "recovery_env \<Rightarrow> bytes \<Rightarrow> bytes \<Rightarrow> database \<Rightarrow> disk \<Rightarrow> bytes \<Rightarrow> json \<Rightarrow> ustr list \<Rightarrow> (ustr \<times> json) list \<Rightarrow> bool" where
  "captured renv master kek db d kek_file trust ids s \<longleftrightarrow>
     recovery_ok renv \<and> readable (base renv) master kek db d \<and> keys_open (base renv) kek db \<and> length master = 32
     \<and> d_kek d = Some kek_file \<and> length kek_file \<le> 8192
     \<and> wf_json trust \<and> validate_trust renv trust = Inr () \<and> trust_provider_ids trust = Inr ids
     \<and> (\<forall>r \<in> set (wrapped_keys db). r_provider_id r \<in> set ids)
     \<and> s = snapshot_document (map row_document (sort_key row_key (wrapped_keys db)))
         (sort_key fst (store_metadata db)) kek_file master trust"

lemma capturedD:
  assumes "captured renv master kek db d kek_file trust ids s"
  shows "recovery_ok renv" "readable (base renv) master kek db d" "keys_open (base renv) kek db" "length master = 32"
    "length kek_file \<le> 8192" "db_ok db" "wf_json (JObj s)" "snapshot_checks renv (JObj s) = Inr s"
    "\<forall>r \<in> set (wrapped_keys db). r_provider_id r \<in> set ids"
  using assms snapshot_wf [of db trust kek_file master] by (auto simp: captured_def readable_def snapshot_checks_iff snapshot_lookup)

lemma captured_lookups:
  assumes c: "captured renv master kek db d kek_file trust ids s"
  shows "lookup_field (canon_fields s) ''master'' = Inr (JStr (b64encode master))"
    "lookup_field (canon_fields s) ''kek'' = Inr (JStr (b64encode kek_file))" "lookup_field (canon_fields s) ''trust'' = Inr (canon trust)"
    "lookup_field (canon_fields s) ''metadata'' = Inr (canon (JArr (map (\<lambda>(n, v). JArr [JStr n, JStr v]) (sort_key fst (store_metadata db)))))"
    "lookup_field (canon_fields s) ''keys'' = Inr (canon (JArr (map row_document (sort_key row_key (wrapped_keys db)))))"
    "validate_trust renv (canon trust) = Inr ()" "trust_provider_ids (canon trust) = Inr ids"
    "\<forall>i \<in> set ids. uuid_canon (uni (base renv)) i = Some i"
proof -
  have s: "s = snapshot_document (map row_document (sort_key row_key (wrapped_keys db)))
      (sort_key fst (store_metadata db)) kek_file master trust" using c by (simp add: captured_def)
  note lk = lookup_canon_wf [OF capturedD(7) [OF c]]
  show "lookup_field (canon_fields s) ''master'' = Inr (JStr (b64encode master))"
    "lookup_field (canon_fields s) ''kek'' = Inr (JStr (b64encode kek_file))" "lookup_field (canon_fields s) ''trust'' = Inr (canon trust)"
    "lookup_field (canon_fields s) ''metadata'' = Inr (canon (JArr (map (\<lambda>(n, v). JArr [JStr n, JStr v]) (sort_key fst (store_metadata db)))))"
    "lookup_field (canon_fields s) ''keys'' = Inr (canon (JArr (map row_document (sort_key row_key (wrapped_keys db)))))"
    unfolding lk by (simp_all add: s snapshot_lookup)
  have t: "wf_json trust" "validate_trust renv trust = Inr ()" "trust_provider_ids trust = Inr ids" using c by (simp_all add: captured_def)
  then show "validate_trust renv (canon trust) = Inr ()" "trust_provider_ids (canon trust) = Inr ids"
    using validate_trust_canon [OF t(1)] trust_provider_ids_canon [OF t(1,2)] by simp_all
  show "\<forall>i \<in> set ids. uuid_canon (uni (base renv)) i = Some i"
    using validated_provider_ids [OF t(2)] t(3) by (metis sum.inject(2))
qed

text \<open>The files of a candidate are a store of the captured database under the appliance's own credential.\<close>

lemma candidate_holds:
  assumes c: "captured renv master kek db d kek_file trust ids s" and e: "is_empty_directory d'"
    and sk: "master_key (base renv) sk = Inr target" and n: "length nonce = 12"
    and f: "f = candidate_disk d' (in_order db) kek_file (nonce @ aes_encrypt (base renv) target nonce master RECOVERY_MASTER_AAD) t"
  shows "master_of (base renv) sk f = Inr master" "readable (base renv) master kek (in_order db) f" "d_kek f = Some kek_file"
proof -
  from c obtain e where ev: "opened (base renv) master d e" "sound kek e" "settled_on (base renv) kek db e" and k: "d_kek d = Some kek_file"
    by (auto simp: readable_def captured_def)
  show "master_of (base renv) sk f = Inr master"
    by (rule sealed_master [OF capturedD(1) [OF c] sk n capturedD(4) [OF c]]) (simp add: f candidate_disk_def)
  have so: "settled_on (base renv) kek (in_order db) e" using ev(3) by (simp add: settled_on_def in_order_commitment)
  show "readable (base renv) master kek (in_order db) f"
    using e ev(1,2) so in_order_ok [OF capturedD(6) [OF c]] k by (auto simp: readable_def opened_def f candidate_disk_def is_empty_directory_def)
  show "d_kek f = Some kek_file" by (simp add: f candidate_disk_def)
qed

lemma candidate_stores:
  assumes c: "captured renv master kek db d kek_file trust ids s" and d: "w_disk v = f"
    and m: "master_of (base renv) sk f = Inr master" "readable (base renv) master kek (in_order db) f"
  shows "stores (base renv) sk master kek (contents (base renv) kek db) (False, v)"
  using m(1) readable_kept [OF m(2)] in_order_contents [OF capturedD(6) [OF c]] capturedD(3,4) [OF c] recovery_okD(1) [OF capturedD(1) [OF c]] d
  by (auto simp: stores_def stopped_def)

text \<open>Without faults it is built, under another appliance's credential.\<close>

lemma build_captured:
  assumes c: "captured renv master kek db d kek_file trust ids s"
    and v: "is_empty_directory (w_disk v)" "calm (base renv) (w_io v)" and sk: "master_key (base renv) sk = Inr target"
  shows "\<exists>v' nonce. build_candidate renv (canon_fields s) sk v = (Inr (), v') \<and> length nonce = 12 \<and> calm (base renv) (w_io v')
     \<and> w_draw v' = Suc (w_draw v) \<and> w_disk v' = candidate_disk (w_disk v) (in_order db) kek_file
         (nonce @ aes_encrypt (base renv) target nonce master RECOVERY_MASTER_AAD) (canon trust)"
proof -
  note l = captured_lookups [OF c] and cd = capturedD [OF c]
  from write_candidate_calm [OF v(2,1) cd(1) l(1-5) cd(4,5) l(7) candidate_database_captured [OF cd(6,9)] sk]
  obtain nonce n where w: "write_candidate renv (canon_fields s) sk v = (Inr (kek_file, ids),
      v\<lparr>w_disk := candidate_disk (w_disk v) (in_order db) kek_file
           (nonce @ aes_encrypt (base renv) target nonce master RECOVERY_MASTER_AAD) (canon trust),
        w_draw := Suc (w_draw v), w_io := n\<rparr>)" (is "_ = (_, ?v)") and n: "length nonce = 12" "calm (base renv) n"
    by blast
  note h = candidate_holds [OF c v(1) sk n(1), of "w_disk ?v" "canon trust", simplified]
  have ca: "calm (base renv) (w_io ?v)" using n(2) by simp
  from authenticate_calm [OF ca _ cd(4) _ in_order_contents(2) [OF cd(6), THEN iffD2, OF cd(3)] l(8), of sk kek_file] h
  obtain v' where "authenticate_candidate renv kek_file ids sk ?v = (Inr (), v')" "w_disk v' = w_disk ?v" "calm (base renv) (w_io v')"
      "w_draw v' = w_draw ?v" by auto
  then show ?thesis
    using v(1) n(1) by (intro exI [of _ v'] exI [of _ nonce]) (simp add: build_candidate_def l(3,6) w catchM_def)
qed

text \<open>What the archive of a stopped store says.\<close>

lemma exported_captured:
  assumes ok: "recovery_ok renv" and src: "stores (base renv) sk master kek M (False, w)"
    and exp: "export_store renv sk trust passphrase w = (Inr archive, w1)" and wf: "wf_json trust"
    and fl: "d_kek (w_disk w) = Some kek_file" "length kek_file \<le> 8192"
  obtains db ids s where "captured renv master kek db (w_disk w) kek_file trust ids s" "contents (base renv) kek db = M"
    "decrypt renv archive passphrase = Inr (canon_fields s)"
proof -
  from src obtain db where m: "length master = 32" "master_of (base renv) sk (w_disk w) = Inr master"
    and db: "kept (base renv) master kek db (w_disk w)" "keys_open (base renv) kek db" "contents (base renv) kek db = M"
    by (auto simp: stores_def stopped_def)
  from exp obtain w2 where "init_store (base renv) sk True w = (Inr (), w2)" by (auto simp: export_store_def bindM_Inr_iff)
  from init_read_only_Inr [OF db(1) m this] have r: "readable (base renv) master kek db (w_disk w)" .
  obtain e where i: "init_store (base renv) sk True w = (Inr (), w\<lparr>w_self := reader master kek e\<rparr>)"
    by (rule init_read_only [OF r m])
  let ?w = "w\<lparr>w_self := reader master kek e\<rparr>"
  from exp obtain s w3 w4 where c: "capture renv trust ?w = (Inr s, w3)" and en: "encrypt renv (JObj s) passphrase w3 = (Inr archive, w4)"
    by (auto simp: export_store_def i bindM_Inr_iff catchM_def raiseM_def returnM_def close_def putM_def split: prod.splits sum.splits)
  have o: "d_db (w_disk ?w) = Some db" "db_ok db" "s_read_only (w_self ?w)"
    using r by (simp_all add: readable_def reader_def)
  from c o obtain ids file' where t: "validate_trust renv trust = Inr ()" "trust_provider_ids trust = Inr ids"
    and p: "\<forall>r \<in> set (wrapped_keys db). r_provider_id r \<in> set ids" and f: "d_kek (w_disk ?w) = Some file'"
    and s: "s = snapshot_document (map row_document (sort_key row_key (wrapped_keys db)))
       (sort_key fst (store_metadata db)) file' (s_master_key (w_self ?w)) trust"
    by (rule capture_Inr)
  have cap: "captured renv master kek db (w_disk w) kek_file trust ids s"
    using ok r db(2) m(1) fl wf t p s f by (simp add: captured_def reader_def)
  then obtain kv kvs where cons: "s = kv # kvs" by (simp add: captured_def snapshot_document_def)
  from decrypt_encrypted [OF ok capturedD(7) [OF cap, unfolded cons] capturedD(8) [OF cap, unfolded cons] en [unfolded cons]]
  have "decrypt renv archive passphrase = Inr (canon_fields s)" by (simp add: cons)
  with cap db(3) show thesis by (rule that)
qed

subsection \<open>The properties\<close>

text \<open>
  C7: The keys of a store survive export and import: the archive the \<open>export\<close> action writes for a stopped
  store opens with its passphrase, and the candidate built from it in an empty directory, under the
  credential of another appliance and without faults, is a store of exactly the same keys, which the
  appliance's service can start on.
\<close>

theorem exported_keys_recovered:
  assumes ok: "recovery_ok renv" and src: "stores (base renv) sk master kek M (False, w)"
    and exp: "export_store renv sk trust passphrase w = (Inr archive, w1)" and wf: "wf_json trust"
    and fl: "d_kek (w_disk w) = Some kek_file" "length kek_file \<le> 8192"
    and v: "is_empty_directory (w_disk v)" "calm (base renv) (w_io v)" and target: "master_key (base renv) sk' = Inr target"
  shows "\<exists>snapshot v'. decrypt renv archive passphrase = Inr snapshot \<and> build_candidate renv snapshot sk' v = (Inr (), v')
     \<and> stores (base renv) sk' master kek M (False, v')"
proof -
  obtain db ids s where c: "captured renv master kek db (w_disk w) kek_file trust ids s" "contents (base renv) kek db = M"
    and de: "decrypt renv archive passphrase = Inr (canon_fields s)"
    by (rule exported_captured [OF ok src exp wf fl])
  from build_captured [OF c(1) v target] obtain v' nonce where b: "build_candidate renv (canon_fields s) sk' v = (Inr (), v')"
    and n: "length nonce = 12" and d: "w_disk v' = candidate_disk (w_disk v) (in_order db) kek_file
        (nonce @ aes_encrypt (base renv) target nonce master RECOVERY_MASTER_AAD) (canon trust)" by blast
  from candidate_stores [OF c(1) refl candidate_holds(1,2) [OF c(1) v(1) target n d]] c(2) de b show ?thesis by auto
qed

subsection \<open>A concrete export\<close>

text \<open>The length of a rendered document of printable text, from the lengths of its strings.\<close>

definition printable :: "ustr \<Rightarrow> bool" where
  "printable s \<longleftrightarrow> list_all (\<lambda>c. 32 \<le> c \<and> c \<le> 126) s"

fun plain_json :: "json \<Rightarrow> bool" where
  "plain_json (JFloat s) = False"
| "plain_json (JInt i) = (0 \<le> i \<and> i < 10)"
| "plain_json (JStr s) = printable s"
| "plain_json (JArr xs) = list_all plain_json xs"
| "plain_json (JObj kvs) = list_all (\<lambda>(k, v). printable k \<and> plain_json v) kvs"
| "plain_json j = True"

fun text_size :: "json \<Rightarrow> nat" where
  "text_size (JStr s) = 2 * length s + 2"
| "text_size (JArr xs) = 2 + sum_list (map (\<lambda>x. Suc (text_size x)) xs)"
| "text_size (JObj kvs) = 2 + sum_list (map (\<lambda>(k, v). 2 * length k + 4 + text_size v) kvs)"
| "text_size j = 5"

lemma length_joined: "length (joined xs) \<le> sum_list (map (\<lambda>x. Suc (length x)) xs)"
  by (induction xs rule: joined.induct) auto

lemma length_quoted: "printable s \<Longrightarrow> length (quoted s) \<le> 2 * length s + 2"
proof -
  have "printable s \<Longrightarrow> length (concat (map esc_char s)) \<le> 2 * length s"
    by (induction s) (auto simp: printable_def esc_char_def)
  then show "printable s \<Longrightarrow> length (quoted s) \<le> 2 * length s + 2" by (simp add: quoted_def)
qed

lemma sum_list_sort_key: "sum_list (map f (sort_key g xs)) = (sum_list (map f xs) :: nat)"
proof -
  have "sum_list (map f (insort_key g x ys)) = f x + sum_list (map f ys)" for x ys
    by (induction ys) simp_all
  then show ?thesis by (induction xs) simp_all
qed

lemma printable_hex: "printable (hex_of_bytes bs)"
proof (induction bs)
  case (Cons b bs)
  have "32 \<le> c \<and> c \<le> 126" if "c \<in> {48..57} \<union> {97..102}" for c :: nat using that by auto
  from this [OF hex_code_range [OF unat_nibbles(1), of b]] this [OF hex_code_range [OF unat_nibbles(2), of b]] Cons
  show ?case by (simp add: printable_def hex_of_bytes_Cons)
qed (simp add: printable_def hex_of_bytes_def)

lemma length_dumps: "plain_json j \<Longrightarrow> length (dumps j) \<le> text_size j"
proof (induction j)
  case (JArr xs)
  have "length (joined (map dumps xs)) \<le> sum_list (map (\<lambda>x. Suc (length (dumps x))) xs)"
    using length_joined [of "map dumps xs"] by (simp add: o_def)
  also have "\<dots> \<le> sum_list (map (\<lambda>x. Suc (text_size x)) xs)"
    using JArr by (intro sum_list_mono) (simp add: list_all_iff)
  finally show ?case by simp
next
  case (JObj kvs)
  let ?s = "sort_key fst (map (\<lambda>(k, v). (k, dumps v)) kvs)"
  have "length (joined (map (\<lambda>(k, t). quoted k @ [58] @ t) ?s))
      \<le> sum_list (map (\<lambda>(k, t). length (quoted k) + 2 + length t) ?s)"
    using length_joined [of "map (\<lambda>(k, t). quoted k @ [58] @ t) ?s"] by (simp add: o_def split_def)
  also have "\<dots> = sum_list (map (\<lambda>(k, t). length (quoted k) + 2 + length t) (map (\<lambda>(k, v). (k, dumps v)) kvs))"
    by (rule sum_list_sort_key)
  also have "\<dots> \<le> sum_list (map (\<lambda>(k, v). 2 * length k + 4 + text_size v) kvs)"
  proof -
    have "length (quoted k) + 2 + length (dumps v) \<le> 2 * length k + 4 + text_size v" if "(k, v) \<in> set kvs" for k v
    proof -
      have "printable k" "plain_json v" using JObj.prems that by (auto simp: list_all_iff)
      then show ?thesis using length_quoted [of k] JObj.IH [OF that] by force
    qed
    then show ?thesis by (auto intro!: sum_list_mono simp: o_def)
  qed
  finally show ?case by simp
qed (auto simp: lit_def int_text_def digs.simps dest: length_quoted)

lemma length_b64encode: "length (b64encode bs) = 4 * ((length bs + 2) div 3)"
  by (induction bs rule: b64encode.induct) (simp_all, presburger)

lemma printable_b64encode: "printable (b64encode bs)"
proof -
  have code: "32 \<le> b64_code d \<and> b64_code d \<le> 126" if "d < 64" for d
    using that unfolding b64_code_def by auto
  show ?thesis unfolding printable_def
    by (induction bs rule: b64encode.induct) (auto intro!: code [THEN conjunct1] code [THEN conjunct2] simp: b64_byte_small b64_byte_group)
qed

lemma printable_lit: "list_all (\<lambda>c. 32 \<le> (of_char c :: nat) \<and> (of_char c :: nat) \<le> 126) s \<Longrightarrow> printable (lit s)"
  by (simp add: printable_def lit_def list_all_iff)

definition demo_recovery :: recovery_env where
  "demo_recovery = \<lparr>base = demo_env, scrypt = (\<lambda>salt password. replicate 32 0), load_pem = (\<lambda>b. Inl (ValueError [])),
     hooked_failure = (\<lambda>t. RecoveryError), bind_text = (\<lambda>v. Inl TypeError), bind_integer = (\<lambda>v. Inl TypeError)\<rparr>"

definition demo_trust :: json where
  "demo_trust = JObj [(lit ''providers'', JArr [JObj [(lit ''id'', JStr demo_provider), (lit ''name'', JText ''lab''),
        (lit ''description'', JText ''''), (lit ''enabled'', JBool True)]]),
     (lit ''vcenters'', JArr []), (lit ''certificates'', JArr [])]"

definition demo_passphrase :: json where
  "demo_passphrase = JText ''correct horse battery''"

definition demo_target_world :: world where
  "demo_target_world = demo_world\<lparr>w_disk := \<lparr>d_db = None, d_kek = None, d_recovery = None, d_journal = False,
     d_rollback = False, d_trust = None, d_others = [], d_plain = True\<rparr>\<rparr>"

lemma demo_recovery_ok: "recovery_ok demo_recovery"
  by (simp add: recovery_ok_def demo_recovery_def demo_env_ok) (simp add: demo_env_def)

lemma demo_provider_scalar: "list_all is_scalar demo_provider"
  using uuid_canon_scalar [OF demo_provider_canon] .

lemma demo_provider_text: "printable demo_provider" "length demo_provider = 36"
  unfolding printable_def by code_simp+

lemma demo_trust_valid: "validate_trust demo_recovery demo_trust = Inr ()"
  by (simp add: validate_trust_def demo_trust_def has_fields_def TRUST_FIELDS_def trust_rows_def subscript_def lookup_field_def
      provider_row_def trust_row_def PROVIDER_ROW_def demo_provider_canon trust_label_def text_length_def)

lemma demo_trust_wf: "wf_json demo_trust"
  by (simp add: demo_trust_def wf_json.simps lit_scalar_cong demo_provider_scalar)

lemma demo_readable: "readable demo_env demo_master demo_kek demo_db (w_disk demo_world)"
  unfolding readable_def using demo_db_ok demo_sound demo_opened
  by (auto simp: demo_world_def opened_def intro!: exI [of _ demo_envelope]) (simp add: demo_envelope_def)

lemma length_envelope_file:
  assumes "envelope_file env master e nonce = Inr content"
  shows "length content = Suc (length (dumps (JObj [(lit ''format'', JStr KEK_ENVELOPE_FORMAT),
      (lit ''nonce'', JStr (b64encode nonce)),
      (lit ''ciphertext'', JStr (b64encode (aes_encrypt env master nonce (map byte_of (dumps (envelope_payload e))) KEK_AAD)))])))"
proof -
  let ?d = "JObj [(lit ''format'', JStr KEK_ENVELOPE_FORMAT), (lit ''nonce'', JStr (b64encode nonce)),
      (lit ''ciphertext'', JStr (b64encode (aes_encrypt env master nonce (map byte_of (dumps (envelope_payload e))) KEK_AAD)))]"
  have i: "ints_ok (envelope_payload e)"
    using assms by (auto simp: envelope_file_def json_dumps_def bindE_Inr_iff split: if_splits)
  have d: "ints_ok ?d" by simp
  have "list_all (\<lambda>c. c < 128) (dumps ?d @ [10])" using dumps_ascii [OF d] by simp
  from utf8_encode_ascii [OF this] show ?thesis
    using assms unfolding envelope_file_def dumped_utf8(1) [OF i]
    by (auto simp: bindE_Inr_iff aes_seal_def json_dumps_def utf8_def simp del: dumps.simps)
qed

lemma demo_file_length: "length demo_file \<le> 2000"
proof -
  obtain c where c: "envelope_file demo_env demo_master demo_envelope (replicate 12 0) = Inr c"
    using demo_sound envelope_file_total [OF _ demo_master_length, of demo_envelope "replicate 12 0"] by (auto simp: sound_def)
  have hex: "printable (commitment demo_env demo_db)" "length (commitment demo_env demo_db) = 64"
  proof -
    show "printable (commitment demo_env demo_db)" by (simp add: commitment_def printable_hex)
    show "length (commitment demo_env demo_db) = 64"
      by (simp add: commitment_def hex_of_bytes_length env_okD(2) [OF demo_env_ok])
  qed
  have "plain_json (envelope_payload demo_envelope)"
    by (simp add: envelope_payload_def demo_envelope_def hex printable_b64encode printable_lit opt_int_def opt_str_def)
  from length_dumps [OF this] have p: "length (dumps (envelope_payload demo_envelope)) \<le> 440"
    by (simp add: envelope_payload_def demo_envelope_def hex length_b64encode demo_kek_def opt_int_def opt_str_def del: dumps.simps)
  let ?x = "aes_encrypt demo_env demo_master (replicate 12 0) (map byte_of (dumps (envelope_payload demo_envelope))) KEK_AAD"
  let ?d = "JObj [(lit ''format'', JStr KEK_ENVELOPE_FORMAT), (lit ''nonce'', JStr (b64encode (replicate 12 0))),
      (lit ''ciphertext'', JStr (b64encode ?x))]"
  have "length ?x \<le> 456" using p by (simp add: demo_env_def del: dumps.simps)
  then have b: "length (b64encode ?x) \<le> 612" by (simp add: length_b64encode del: dumps.simps)
  have "plain_json ?d" by (simp add: printable_b64encode printable_lit KEK_ENVELOPE_FORMAT_def del: b64encode.simps)
  from length_dumps [OF this] have "length (dumps ?d) \<le> 1400"
    using b by (simp add: KEK_ENVELOPE_FORMAT_def length_b64encode del: dumps.simps b64encode.simps)
  then show ?thesis using length_envelope_file [OF c] by (simp add: demo_file_def c del: dumps.simps)
qed

lemma demo_export: "\<exists>archive w1. export_store demo_recovery demo_secret demo_trust demo_passphrase demo_world = (Inr archive, w1)"
proof -
  have b: "base demo_recovery = demo_env" by (simp add: demo_recovery_def)
  obtain e where i: "init_store demo_env demo_secret True demo_world = (Inr (), demo_world\<lparr>w_self := reader demo_master demo_kek e\<rparr>)"
    (is "_ = (_, ?w)") and e: "sound demo_kek e" "settled_on demo_env demo_kek demo_db e"
    by (rule init_read_only [OF demo_readable demo_master_length demo_master_of])
  have db: "d_db (w_disk ?w) = Some demo_db" "d_kek (w_disk ?w) = Some demo_file" by (simp_all add: demo_world_def)
  have "e_commitment e \<noteq> []" using e(1) by (simp add: sound_def)
  then have v: "verify_store_commitment demo_env demo_db ?w = (Inr (), ?w)"
    using verify_read_only [OF demo_db_ok, of ?w demo_env] settled_onD [OF e(2)] by (simp add: reader_def)
  have ids: "trust_provider_ids demo_trust = Inr [demo_provider]"
    by (simp add: trust_provider_ids_def demo_trust_def subscript_def lookup_field_def)
  define s where "s = snapshot_document [] (sort_key fst (store_metadata demo_db)) demo_file demo_master demo_trust"
  have c: "capture demo_recovery demo_trust ?w = (Inr s, ?w)"
  proof -
    have "wrapped_keys demo_db = []" by (simp add: demo_db_def)
    with db show ?thesis by (simp add: capture_def demo_trust_valid connect_def b v ids s_def returnM_def) (simp add: reader_def)
  qed
  have wf: "wf_json (JObj s)"
    using snapshot_wf [OF demo_db_ok demo_trust_wf, of demo_file demo_master] by (simp add: s_def demo_db_def)
  have "plain_json (JObj s)"
    by (simp add: s_def snapshot_document_def demo_db_def demo_trust_def printable_lit printable_b64encode demo_provider_text
        STORE_SCHEMA_VERSION_def int_text_def digs.simps) (simp add: printable_def)
  from length_dumps [OF this] have "length (dumps (JObj s)) \<le> 20000"
    using demo_file_length
    by (simp add: s_def snapshot_document_def demo_db_def demo_trust_def demo_provider_text length_b64encode demo_master_length
        STORE_SCHEMA_VERSION_def int_text_def digs.simps del: dumps.simps)
  then have size: "length (map byte_of (dumps (JObj s))) \<le> MAX_ARCHIVE_BYTES - 128"
    by (simp add: MAX_ARCHIVE_BYTES_def del: dumps.simps)
  have key: "derive demo_recovery demo_passphrase salt = Inr (replicate 32 0)" for salt
  proof -
    have "list_all (\<lambda>c. c < 128) (lit ''correct horse battery'')" by (simp add: lit_def)
    from utf8_encode_ascii [OF this] show ?thesis
      by (simp add: derive_def demo_passphrase_def utf8_def) (simp add: demo_recovery_def)
  qed
  have "\<exists>archive w2. encrypt demo_recovery (JObj s) demo_passphrase ?w = (Inr archive, w2)"
    using size unfolding encrypt_def dumped_utf8(1) [OF wf_ints_ok [OF wf]]
    by (simp add: key aes_seal_def aes_new_def aes_nonce_def env_okD(3) [OF demo_env_ok] b returnM_def del: dumps.simps)
  then show ?thesis by (auto simp: export_store_def b i c catchM_def close_def returnM_def)
qed

theorem exported_keys_recovered_witness:
  "\<exists>archive snapshot v'. fst (export_store demo_recovery demo_secret demo_trust demo_passphrase demo_world) = Inr archive
     \<and> decrypt demo_recovery archive demo_passphrase = Inr snapshot
     \<and> build_candidate demo_recovery snapshot demo_secret demo_target_world = (Inr (), v')
     \<and> stores demo_env demo_secret demo_master demo_kek Map.empty (False, v')"
proof -
  have b: "base demo_recovery = demo_env" by (simp add: demo_recovery_def)
  from demo_export obtain archive w1 where e: "export_store demo_recovery demo_secret demo_trust demo_passphrase demo_world = (Inr archive, w1)"
    by blast
  have src: "stores demo_env demo_secret demo_master demo_kek Map.empty (False, demo_world)"
    using demo_master_of running_stopped [OF demo_running] by (simp add: stores_def)
  have mk: "master_key demo_env demo_secret = Inr demo_master"
    using demo_master_of by (auto simp: master_of_def demo_world_def recovery_master_def bindE_Inr_iff)
  have fl: "d_kek (w_disk demo_world) = Some demo_file" "length demo_file \<le> 8192"
    using demo_file_length by (simp_all add: demo_world_def)
  have "is_empty_directory (w_disk demo_target_world)" "calm demo_env (w_io demo_target_world)"
    by (simp_all add: demo_target_world_def is_empty_directory_def demo_calm)
  from exported_keys_recovered [OF demo_recovery_ok, unfolded b, OF src e demo_trust_wf fl this mk] e show ?thesis by auto
qed

lemma map_JObj_inject: "map JObj xs = map JObj ys \<longleftrightarrow> xs = ys"
  by (rule inj_map_eq_map) (simp add: inj_def)

lemma public_certificates:
  assumes "foldE (certificate_row renv ids) ([], []) (map JObj cs) = Inr (seen, fingerprints)"
  shows "distinct (map (text_field ''id'') cs)" "distinct (map (text_field ''fingerprint_sha256'') cs)"
    "c \<in> set cs \<Longrightarrow> text_field ''trusted_vcenter_id'' c \<in> set ids
       \<and> (\<exists>b x ext. utf8 (text_field ''certificate_pem'' c) = Inr b \<and> load_pem renv b = Inr x
            \<and> text_field ''fingerprint_sha256'' c = hex_of_bytes (x_fingerprint x)
            \<and> x_extensions x = Inr ext \<and> x_ca ext \<noteq> Some True
            \<and> (\<forall>marker \<in> set PRIVATE_KEY_MARKERS. \<not> contains_text marker (text_field ''certificate_pem'' c)))"
proof -
  from certificate_fold [OF assms] show "distinct (map (text_field ''id'') cs)" "distinct (map (text_field ''fingerprint_sha256'') cs)"
    by (auto simp: map_JObj_inject)
  assume "c \<in> set cs"
  with certificate_fold [OF assms] obtain x where i: "text_field ''trusted_vcenter_id'' c \<in> set ids"
    and x: "parse_public_certificate (load_pem renv) None (text_field ''certificate_pem'' c) = Inr x"
      "text_field ''fingerprint_sha256'' c = pc_fingerprint_sha256 x"
    unfolding map_JObj_inject by blast
  from x(1) show "text_field ''trusted_vcenter_id'' c \<in> set ids
       \<and> (\<exists>b x ext. utf8 (text_field ''certificate_pem'' c) = Inr b \<and> load_pem renv b = Inr x
            \<and> text_field ''fingerprint_sha256'' c = hex_of_bytes (x_fingerprint x)
            \<and> x_extensions x = Inr ext \<and> x_ca ext \<noteq> Some True
            \<and> (\<forall>marker \<in> set PRIVATE_KEY_MARKERS. \<not> contains_text marker (text_field ''certificate_pem'' c)))"
    using i x(2) by (elim parse_public_certificate_Inr) auto
qed

text \<open>
  C25: A trust document that validation accepts is a consistent graph: the identifiers of providers, vCenters and
  certificates are canonical UUIDs and unique among their kind, provider names are unique, a vCenter name is unique within its provider, every vCenter
  belongs to a listed provider and every certificate to a listed vCenter, and no fingerprint occurs twice; each
  is the fingerprint of the certificate's own PEM, which holds no private key and is no CA's.
\<close>

theorem accepted_trust_consistent:
  assumes "validate_trust renv trust = Inr ()"
  shows "\<exists>ps vs cs. trust_graph trust ps vs cs
     \<and> distinct (map (text_field ''id'') ps) \<and> distinct (map (text_field ''name'') ps)
     \<and> (\<forall>d \<in> set (ps @ vs @ cs). uuid_canon (uni (base renv)) (text_field ''id'' d) = Some (text_field ''id'' d))
     \<and> distinct (map (text_field ''id'') vs) \<and> distinct (map (\<lambda>v. (text_field ''provider_id'' v, text_field ''name'' v)) vs)
     \<and> (\<forall>v \<in> set vs. \<exists>p \<in> set ps. text_field ''id'' p = text_field ''provider_id'' v)
     \<and> distinct (map (text_field ''id'') cs) \<and> distinct (map (text_field ''fingerprint_sha256'') cs)
     \<and> (\<forall>c \<in> set cs. (\<exists>v \<in> set vs. text_field ''id'' v = text_field ''trusted_vcenter_id'' c)
          \<and> (\<exists>b x ext. utf8 (text_field ''certificate_pem'' c) = Inr b \<and> load_pem renv b = Inr x
               \<and> text_field ''fingerprint_sha256'' c = hex_of_bytes (x_fingerprint x)
               \<and> x_extensions x = Inr ext \<and> x_ca ext \<noteq> Some True
               \<and> (\<forall>marker \<in> set PRIVATE_KEY_MARKERS. \<not> contains_text marker (text_field ''certificate_pem'' c))))"
proof -
  from assms obtain ps vs cs where g: "trust_graph trust ps vs cs" and f:
    "foldE (provider_row renv) ([], []) (map JObj ps) = Inr (rev (map (text_field ''id'') ps), rev (map (text_field ''name'') ps))"
    "foldE (vcenter_row renv (rev (map (text_field ''id'') ps))) ([], []) (map JObj vs)
       = Inr (rev (map (text_field ''id'') vs), rev (map (\<lambda>d. (text_field ''provider_id'' d, text_field ''name'' d)) vs))"
    "foldE (certificate_row renv (rev (map (text_field ''id'') vs))) ([], []) (map JObj cs)
       = Inr (rev (map (text_field ''id'') cs), rev (map (text_field ''fingerprint_sha256'') cs))"
    by (rule validate_trust_Inr)
  have p: "distinct (map (text_field ''id'') ps)" "distinct (map (text_field ''name'') ps)"
    using provider_fold [OF f(1)] by (auto simp: map_JObj_inject)
  have i: "\<forall>d \<in> set (ps @ vs @ cs). uuid_canon (uni (base renv)) (text_field ''id'' d) = Some (text_field ''id'' d)"
    using rows_canonical(1) [OF f(1)] rows_canonical(2) [OF f(2)] rows_canonical(3) [OF f(3)] by auto
  have v: "distinct (map (text_field ''id'') vs)" "distinct (map (\<lambda>v. (text_field ''provider_id'' v, text_field ''name'' v)) vs)"
    "\<forall>v \<in> set vs. \<exists>p \<in> set ps. text_field ''id'' p = text_field ''provider_id'' v"
    using vcenter_fold [OF f(2)] by (fastforce simp: map_JObj_inject)+
  have "\<exists>v \<in> set vs. text_field ''id'' v = text_field ''trusted_vcenter_id'' c" if "c \<in> set cs" for c
    using public_certificates(3) [OF f(3) that] by (elim conjE) auto
  with g p i v public_certificates(1,2) [OF f(3)] public_certificates(3) [OF f(3)] show ?thesis
    by (intro exI [of _ ps] exI [of _ vs] exI [of _ cs] conjI ballI) simp_all
qed

text \<open>A document with a provider, a vCenter of it and a certificate of that.\<close>

definition demo_digest :: ustr where
  "demo_digest = replicate 64 48"

definition demo_x509 :: x509 where
  "demo_x509 = \<lparr>x_extensions = Inr \<lparr>x_ca = None, x_client_auth = Some True, x_digital_signature = None\<rparr>, x_not_before = 0, x_not_after = 100,
     x_pem = [], x_fingerprint = replicate 32 0, x_subject = [], x_issuer = [], x_serial = 1\<rparr>"

definition demo_pem_recovery :: recovery_env where
  "demo_pem_recovery = demo_recovery\<lparr>load_pem := (\<lambda>b. Inr demo_x509)\<rparr>"

lemma demo_pem_parsed:
  "parse_public_certificate (load_pem demo_pem_recovery) None (lit ''-----BEGIN CERTIFICATE-----'')
     = Inr \<lparr>pc_certificate_pem = [], pc_fingerprint_sha256 = demo_digest, pc_subject = [], pc_issuer = [], pc_serial_number = [49],
         pc_not_valid_before = 0, pc_not_valid_after = 100\<rparr>"
proof -
  have u: "\<exists>bs. utf8 (lit ''-----BEGIN CERTIFICATE-----'') = Inr bs \<and> bs \<noteq> [] \<and> length bs \<le> MAX_PUBLIC_CERTIFICATE_BYTES"
  proof -
    have "list_all (\<lambda>c. c < 128) (lit ''-----BEGIN CERTIFICATE-----'')" by (simp add: lit_def)
    from utf8_encode_ascii [OF this] show ?thesis by (simp add: utf8_def MAX_PUBLIC_CERTIFICATE_BYTES_def)
  qed
  have m: "\<not> list_ex (\<lambda>marker. contains_text marker (lit ''-----BEGIN CERTIFICATE-----'')) PRIVATE_KEY_MARKERS"
    "count_matches (lit ''-----BEGIN CERTIFICATE-----'') (lit ''-----BEGIN CERTIFICATE-----'') = 1"
    by code_simp+
  have h: "hex_of_bytes (replicate 32 0) = demo_digest" by code_simp
  have serial: "map hex_code (digs 16 1) = [49]" by code_simp
  from u obtain bs where bs: "utf8 (lit ''-----BEGIN CERTIFICATE-----'') = Inr bs" "bs \<noteq> []" "length bs \<le> MAX_PUBLIC_CERTIFICATE_BYTES" by blast
  show ?thesis
    using m bs serial by (simp add: parse_public_certificate_def demo_pem_recovery_def demo_x509_def h)
qed

definition demo_graph :: json where
  "demo_graph = JObj [(lit ''providers'', JArr [JObj [(lit ''id'', JStr demo_provider), (lit ''name'', JText ''lab''),
        (lit ''description'', JText ''''), (lit ''enabled'', JBool True)]]),
     (lit ''vcenters'', JArr [JObj [(lit ''id'', JStr demo_provider), (lit ''provider_id'', JStr demo_provider), (lit ''name'', JText ''vc''),
        (lit ''hostname'', JText ''''), (lit ''description'', JText ''''), (lit ''enabled'', JBool True)]]),
     (lit ''certificates'', JArr [JObj [(lit ''id'', JStr demo_provider), (lit ''trusted_vcenter_id'', JStr demo_provider),
        (lit ''certificate_pem'', JText ''-----BEGIN CERTIFICATE-----''), (lit ''fingerprint_sha256'', JStr demo_digest)]])]"

lemma demo_graph_valid: "validate_trust demo_pem_recovery demo_graph = Inr ()"
  by (simp add: validate_trust_def demo_graph_def has_fields_def TRUST_FIELDS_def trust_rows_def subscript_def lookup_field_def
      provider_row_def vcenter_row_def certificate_row_def member_of_def trust_row_def PROVIDER_ROW_def VCENTER_ROW_def CERTIFICATE_ROW_def
      demo_provider_canon trust_label_def text_length_def demo_pem_parsed)

theorem accepted_trust_consistent_witness:
  "\<exists>p v c. trust_graph demo_graph [p] [v] [c] \<and> text_field ''id'' p = text_field ''provider_id'' v
     \<and> text_field ''id'' v = text_field ''trusted_vcenter_id'' c
     \<and> uuid_canon (uni demo_env) (text_field ''id'' c) = Some (text_field ''id'' c)
     \<and> text_field ''fingerprint_sha256'' c = hex_of_bytes (x_fingerprint demo_x509)"
proof -
  from accepted_trust_consistent [OF demo_graph_valid] obtain ps vs cs where g: "trust_graph demo_graph ps vs cs"
    and *: "\<forall>d \<in> set (ps @ vs @ cs). uuid_canon (uni (base demo_pem_recovery)) (text_field ''id'' d) = Some (text_field ''id'' d)"
    "\<forall>v \<in> set vs. \<exists>p \<in> set ps. text_field ''id'' p = text_field ''provider_id'' v"
    "\<forall>c \<in> set cs. \<exists>v \<in> set vs. text_field ''id'' v = text_field ''trusted_vcenter_id'' c"
    "\<forall>c \<in> set cs. \<exists>b x. load_pem demo_pem_recovery b = Inr x \<and> text_field ''fingerprint_sha256'' c = hex_of_bytes (x_fingerprint x)"
    by (elim exE conjE) blast
  have "\<exists>x. map JObj ps = [x]" "\<exists>x. map JObj vs = [x]" "\<exists>x. map JObj cs = [x]"
    using g by (auto simp: trust_graph_def demo_graph_def subscript_def lookup_field_def)
  then obtain p v c where l: "ps = [p]" "vs = [v]" "cs = [c]" by auto
  have "base demo_pem_recovery = demo_env" "load_pem demo_pem_recovery b = Inr demo_x509" for b
    by (simp_all add: demo_pem_recovery_def demo_recovery_def)
  then show ?thesis using g * unfolding l by (intro exI [of _ p] exI [of _ v] exI [of _ c]) auto
qed

end
