(* ===== verification/RecoveryRuntime.thy ===== *)
theory RecoveryRuntime
  imports Recovery
begin

unbundle bit_operations_syntax

text \<open>
  Publishing a recovered store (\<open>atlaso/app/kmip/recovery_runtime.py\<close>): the protected anchor directory
  with its journal, the import that moves a candidate into place, the approval that lifts the start-up
  gate, and the service checkpoint.

  The state is the part of the file system these functions touch. Renaming moves an entry with its
  inode; every effect has the outcome the environment gives it, and the machine may stop before or
  after it. Ownership and mode bits of the candidate's files are not represented: setting them is an
  effect that may fail. The platform is Linux.
\<close>

subsection \<open>The file system\<close>

type_synonym identity = "int \<times> int"

text \<open>
  An entry with its device and inode numbers: a directory of a store, a regular file with the document
  \<open>json.loads\<close> reads from it (None where it raises), or a symbolic link with the identity of what it
  leads to. The anchor belongs to root alone, and the code puts no link into it.
\<close>

datatype entry = Directory identity disk | File identity "json option" | Link "identity option"

text \<open>A component of the path to the anchor, as opening it without following links finds it.\<close>

datatype path_node = Absent | Redirected | Component int int

text \<open>The entry \<open>kmip\<close> of \<open>/var/lib/atlaso\<close>, the anchor's path and its entries, and the installed configuration.\<close>

record machine =
  m_active :: "entry option"
  m_path :: "path_node list"
  m_umask :: int
  m_anchor :: "ustr \<Rightarrow> entry option"
  m_config :: "bytes option"
  m_inode :: int
  m_draw :: nat
  m_io :: nat

type_synonym 'a h = "(machine, 'a) sm"

datatype place = Active | Anchored ustr

fun entry_at :: "place \<Rightarrow> machine \<Rightarrow> entry option" where
  "entry_at Active m = m_active m"
| "entry_at (Anchored name) m = m_anchor m name"

fun put_entry :: "place \<Rightarrow> entry option \<Rightarrow> machine \<Rightarrow> machine" where
  "put_entry Active e m = m\<lparr>m_active := e\<rparr>"
| "put_entry (Anchored name) e m = m\<lparr>m_anchor := (m_anchor m)(name := e)\<rparr>"

text \<open>\<open>Path.exists()\<close>, which follows a link, and the identities \<open>stat\<close> and \<open>lstat\<close> report; only the
  first follows a link, and a link itself is never a published candidate.\<close>

definition path_exists :: "entry option \<Rightarrow> bool" where
  "path_exists e = (case e of None \<Rightarrow> False | Some (Link target) \<Rightarrow> target \<noteq> None | _ \<Rightarrow> True)"

definition stat_identity :: "entry option \<Rightarrow> identity res" where
  "stat_identity e =
     (case e of
        Some (Directory i d) \<Rightarrow> Inr i | Some (File i c) \<Rightarrow> Inr i | Some (Link (Some i)) \<Rightarrow> Inr i
      | _ \<Rightarrow> Inl OSError)"

definition own_identity :: "entry \<Rightarrow> identity option" where
  "own_identity e = (case e of Directory i d \<Rightarrow> Some i | File i c \<Rightarrow> Some i | Link target \<Rightarrow> None)"

definition is_directory :: "entry \<Rightarrow> bool" where
  "is_directory e = (case e of Directory i d \<Rightarrow> True | _ \<Rightarrow> False)"

definition identity_json :: "identity \<Rightarrow> json list" where
  "identity_json i = [JInt (fst i), JInt (snd i)]"

definition read_document :: "place \<Rightarrow> json h" where
  "read_document p =
     bindM (getM (entry_at p)) (\<lambda>e.
     case e of
       Some (File i (Some j)) \<Rightarrow> returnM j
     | Some (File i None) \<Rightarrow> raiseM (ValueError ''JSONDecodeError'')
     | _ \<Rightarrow> raiseM OSError)"

text \<open>One durable effect.\<close>

definition effect :: "env \<Rightarrow> (machine \<Rightarrow> machine) \<Rightarrow> unit h" where
  "effect env f m =
     (let m' = m\<lparr>m_io := Suc (m_io m)\<rparr>
      in case write_fault_at env (m_io m) of
           W_Ok \<Rightarrow> (Inr (), f m')
         | W_Fail \<Rightarrow> (Inl OSError, m')
         | W_FailLate \<Rightarrow> (Inl OSError, f m')
         | W_Lost \<Rightarrow> (Inl PowerLoss, m')
         | W_LostLate \<Rightarrow> (Inl PowerLoss, f m'))"

definition fsync :: "env \<Rightarrow> unit h" where
  "fsync env = effect env (\<lambda>m. m)"

definition random_hex :: "env \<Rightarrow> ustr h" where
  "random_hex env m =
     (Inr (filter (\<lambda>c. c \<noteq> 45) (uuid4_text (urandom env (m_draw m) 16))), m\<lparr>m_draw := Suc (m_draw m)\<rparr>)"

definition new_identity :: "machine \<Rightarrow> identity" where
  "new_identity m = (0, m_inode m)"

text \<open>A new file or directory takes the next inode number.\<close>

definition create_at :: "env \<Rightarrow> place \<Rightarrow> (identity \<Rightarrow> entry) \<Rightarrow> unit h" where
  "create_at env p e =
     bindM (getM (entry_at p)) (\<lambda>present.
     bindM (guardM (present = None) OSError) (\<lambda>_.
       effect env (\<lambda>m. (put_entry p (Some (e (new_identity m))) m)\<lparr>m_inode := m_inode m + 1\<rparr>)))"

definition exclusive_document :: "env \<Rightarrow> ustr \<Rightarrow> json \<Rightarrow> unit h" where
  "exclusive_document env name document = create_at env (Anchored name) (\<lambda>i. File i (Some document))"

text \<open>\<open>renameat2\<close> with \<open>RENAME_NOREPLACE\<close>, and the two flushes.\<close>

definition rename_absent :: "env \<Rightarrow> place \<Rightarrow> place \<Rightarrow> unit h" where
  "rename_absent env source destination =
     bindM (getM (entry_at source)) (\<lambda>s.
     bindM (getM (entry_at destination)) (\<lambda>d.
     bindM (guardM (s \<noteq> None \<and> d = None) OSError) (\<lambda>_.
       effect env (\<lambda>m. put_entry source None (put_entry destination s m)))))"

text \<open>\<open>os.replace\<close> of a file by another.\<close>

definition replace_document :: "env \<Rightarrow> ustr \<Rightarrow> ustr \<Rightarrow> unit h" where
  "replace_document env source destination =
     bindM (getM (entry_at (Anchored source))) (\<lambda>s.
     bindM (getM (entry_at (Anchored destination))) (\<lambda>d.
     bindM (guardM (s \<noteq> None \<and> \<not> (case d of Some e \<Rightarrow> is_directory e | None \<Rightarrow> False)) OSError) (\<lambda>_.
       effect env (\<lambda>m. put_entry (Anchored source) None (put_entry (Anchored destination) s m)))))"

subsection \<open>The anchor\<close>

definition component_safe :: "int \<Rightarrow> int \<Rightarrow> bool" where
  "component_safe uid mode \<longleftrightarrow> uid = 0 \<and> (mode AND 18 = 0 \<or> mode AND 512 \<noteq> 0)"

definition safe_component :: "path_node \<Rightarrow> unit res" where
  "safe_component node =
     (case node of
        Component uid mode \<Rightarrow> guardE (component_safe uid mode) RecoveryError
      | _ \<Rightarrow> Inl OSError)"

text \<open>
  The walk from the root: every component is opened without following a link and checked; only the last
  one is created where it is missing, and it must be closed to all but root.
\<close>

definition secure_anchor :: "env \<Rightarrow> unit h" where
  "secure_anchor env =
     bindM (getM m_path) (\<lambda>parts.
     bindM (liftM (mapE safe_component (butlast parts))) (\<lambda>_.
     bindM (if last parts = Absent
            then effect env (\<lambda>m. m\<lparr>m_path := butlast parts @ [Component 0 (457 AND NOT (m_umask m))]\<rparr>)
            else returnM ()) (\<lambda>_.
     bindM (getM (\<lambda>m. last (m_path m))) (\<lambda>node.
     bindM (liftM (safe_component node)) (\<lambda>_.
     case node of
       Component uid mode \<Rightarrow> guardM (mode AND 54 = 0) RecoveryError
     | _ \<Rightarrow> raiseM OSError)))))"

definition PENDING :: ustr where "PENDING = lit ''pending.json''"
definition APPROVED :: ustr where "APPROVED = lit ''approved.json''"
definition SERVICE :: ustr where "SERVICE = lit ''service.json''"

definition journal :: "env \<Rightarrow> json \<Rightarrow> unit h" where
  "journal env document =
     bindM (random_hex env) (\<lambda>h.
     bindM (exclusive_document env (lit ''journal-'' @ h) document) (\<lambda>_.
     bindM (replace_document env (lit ''journal-'' @ h) PENDING) (\<lambda>_.
       fsync env)))"

definition pending :: "machine \<Rightarrow> bool" where
  "pending m \<longleftrightarrow> m_anchor m PENDING \<noteq> None"

subsection \<open>The start-up gate\<close>

definition read_config :: "bytes h" where
  "read_config = bindM (getM m_config) (\<lambda>c. liftM (or_raise OSError c))"

text \<open>The approval names the digest of the configuration and the identity of the active directory.\<close>

definition approval_matches :: "env \<Rightarrow> json \<Rightarrow> bytes \<Rightarrow> identity \<Rightarrow> bool res" where
  "approval_matches env approval config active =
     bindE (subscript approval ''config_sha256'') (\<lambda>digest.
     if digest \<noteq> JStr (hex_of_bytes (sha256 env config)) then Inr False
     else bindE (subscript approval ''identity'') (\<lambda>i. Inr (i = JArr (identity_json active))))"

definition assert_startup_allowed :: "env \<Rightarrow> unit h" where
  "assert_startup_allowed env =
     bindM (getM pending) (\<lambda>is_pending.
     if \<not> is_pending then returnM ()
     else
       bindM (catchM
                (bindM (read_document (Anchored APPROVED)) (\<lambda>approval.
                 bindM (bindM (getM m_active) (\<lambda>e. liftM (stat_identity e))) (\<lambda>active.
                 bindM read_config (\<lambda>config.
                   liftM (approval_matches env approval config active)))))
                (\<lambda>e. if e = OSError \<or> is_value_error e \<or> e = KeyError \<or> e = TypeError then returnM False else raiseM e)) (\<lambda>approved.
         guardM approved RecoveryError))"

subsection \<open>Approving an import\<close>

text \<open>Text is required where the document has to hold it: a validated trust document does.\<close>

definition text_of :: "json \<Rightarrow> ustr res" where
  "text_of v = (case v of JStr s \<Rightarrow> Inr s | _ \<Rightarrow> Inl TypeError)"

definition items_of :: "json \<Rightarrow> json list res" where
  "items_of v = (case v of JArr xs \<Rightarrow> Inr xs | _ \<Rightarrow> Inl TypeError)"

definition sub_text :: "json \<Rightarrow> string \<Rightarrow> ustr res" where
  "sub_text v name = bindE (subscript v name) text_of"

text \<open>\<open>{v["id"]: v for v in trust["vcenters"]}\<close>.\<close>

definition vcenters_by_id :: "json list \<Rightarrow> (ustr \<times> json) list res" where
  "vcenters_by_id vcenters = foldE (\<lambda>d v. bindE (sub_text v ''id'') (\<lambda>i. Inr (dict_put i v d))) [] vcenters"

text \<open>The fingerprints of the certificates that are valid at this time; one that is not is passed over.\<close>

definition usable_fingerprints :: "recovery_env \<Rightarrow> int \<Rightarrow> json list \<Rightarrow> ustr list res" where
  "usable_fingerprints renv now certificates =
     foldE (\<lambda>usable c.
       bindE (subscript c ''certificate_pem'') (\<lambda>pem.
       case (case pem of JStr p \<Rightarrow> parse_public_certificate (load_pem renv) (Some now) p | _ \<Rightarrow> Inl AttributeError) of
         Inr _ \<Rightarrow> bindE (sub_text c ''fingerprint_sha256'') (\<lambda>f. Inr (f # usable))
       | Inl e \<Rightarrow> if is_value_error e then Inr usable else Inl e)) [] certificates"

text \<open>Whether a certificate counts for a provider.\<close>

definition counts_for :: "(ustr \<Rightarrow> bool) \<Rightarrow> (ustr \<times> json) list \<Rightarrow> ustr list \<Rightarrow> ustr \<Rightarrow> json \<Rightarrow> bool res" where
  "counts_for float_true vcenters usable provider c =
     bindE (sub_text c ''fingerprint_sha256'') (\<lambda>f.
     if f \<notin> set usable then Inr False
     else
       bindE (sub_text c ''trusted_vcenter_id'') (\<lambda>i.
       bindE (or_raise KeyError (map_of vcenters i)) (\<lambda>vcenter.
       bindE (subscript vcenter ''provider_id'') (\<lambda>p.
       if p \<noteq> JStr provider then Inr False
       else bindE (subscript vcenter ''enabled'') (\<lambda>enabled. Inr (truthy float_true enabled))))))"

definition provider_fingerprint_list ::
  "(ustr \<Rightarrow> bool) \<Rightarrow> (ustr \<times> json) list \<Rightarrow> ustr list \<Rightarrow> json list \<Rightarrow> ustr \<Rightarrow> ustr list res" where
  "provider_fingerprint_list float_true vcenters usable certificates provider =
     bindE (filterE (counts_for float_true vcenters usable provider) certificates) (\<lambda>cs.
     bindE (mapE (\<lambda>c. sub_text c ''fingerprint_sha256'') cs) (\<lambda>fs. Inr (sort fs)))"

definition expected_graph :: "recovery_env \<Rightarrow> (ustr \<Rightarrow> bool) \<Rightarrow> int \<Rightarrow> json \<Rightarrow> (ustr \<times> ustr list) list res" where
  "expected_graph renv float_true now trust =
     bindE (bindE (subscript trust ''vcenters'') items_of) (\<lambda>vs.
     bindE (vcenters_by_id vs) (\<lambda>vcenters.
     bindE (bindE (subscript trust ''certificates'') items_of) (\<lambda>certificates.
     bindE (usable_fingerprints renv now certificates) (\<lambda>usable.
     bindE (bindE (subscript trust ''providers'') items_of) (\<lambda>providers.
     bindE (foldE (\<lambda>d p.
              bindE (subscript p ''enabled'') (\<lambda>enabled.
              if \<not> truthy float_true enabled then Inr d
              else
                bindE (sub_text p ''id'') (\<lambda>i.
                bindE (provider_fingerprint_list float_true vcenters usable certificates i) (\<lambda>fs.
                  Inr (dict_put i fs d))))) [] providers) (\<lambda>expected.
       Inr (filter (\<lambda>(i, fs). fs \<noteq> []) expected)))))))"

text \<open>What iterating over a value yields: the elements of a list, the names of an object, the characters of a text.\<close>

definition iterated :: "json \<Rightarrow> json list res" where
  "iterated v =
     (case v of
        JArr xs \<Rightarrow> Inr xs
      | JObj d \<Rightarrow> Inr (map (\<lambda>(name, _). JStr name) d)
      | JStr s \<Rightarrow> Inr (map (\<lambda>c. JStr [c]) s)
      | _ \<Rightarrow> Inl TypeError)"

text \<open>
  \<open>{row["id"]: sorted(row["client_fingerprints"]) for row in config["providers"]}\<close>. An identifier or a fingerprint
  that is no text equals no expected one, so that sorting it or the comparison refuses; it is refused here.
\<close>

definition observed_graph :: "json \<Rightarrow> (ustr \<times> ustr list) list res" where
  "observed_graph config =
     bindE (bindE (subscript config ''providers'') iterated) (\<lambda>rows.
     foldE (\<lambda>d row.
       bindE (sub_text row ''id'') (\<lambda>i.
       bindE (bindE (subscript row ''client_fingerprints'') iterated) (\<lambda>fs.
       bindE (mapE text_of fs) (\<lambda>fingerprints.
         Inr (dict_put i (sort fingerprints) d))))) [] rows)"

text \<open>Equality of dictionaries.\<close>

definition same_dict :: "('k \<times> 'v) list \<Rightarrow> ('k \<times> 'v) list \<Rightarrow> bool" where
  "same_dict d e \<longleftrightarrow> list_all (\<lambda>(k, v). map_of e k = Some v) d \<and> list_all (\<lambda>(k, v). map_of d k = Some v) e"

definition retire_journal :: "env \<Rightarrow> ustr \<Rightarrow> unit h" where
  "retire_journal env completed =
     catchM (rename_absent env (Anchored PENDING) (Anchored completed)) (\<lambda>e.
       if e = OSError
       then
         bindM (getM (\<lambda>m. \<not> pending m \<and> m_anchor m completed \<noteq> None)) (\<lambda>moved.
         bindM (if moved then rename_absent env (Anchored completed) (Anchored PENDING) else returnM ()) (\<lambda>_.
           raiseM e))
       else raiseM e)"

definition retire_service :: "env \<Rightarrow> unit h" where
  "retire_service env =
     bindM (getM (\<lambda>m. path_exists (m_anchor m SERVICE))) (\<lambda>present.
     if present
     then bindM (random_hex env) (\<lambda>h.
            rename_absent env (Anchored SERVICE) (Anchored (lit ''service-completed-'' @ h @ lit ''.json'')))
     else returnM ())"

definition complete_import :: "env \<Rightarrow> json \<Rightarrow> unit h" where
  "complete_import env journal_document =
     bindM (assert_startup_allowed env) (\<lambda>_.
     bindM (retire_service env) (\<lambda>_.
     bindM (fsync env) (\<lambda>_.
     bindM (liftM (sub_text journal_document ''archive'')) (\<lambda>archive.
       retire_journal env (lit ''completed-'' @ archive @ lit ''.json'')))))"

definition approve_import :: "env \<Rightarrow> json \<Rightarrow> unit h" where
  "approve_import env approved =
     bindM (random_hex env) (\<lambda>h.
     bindM (exclusive_document env (lit ''approval-'' @ h) approved) (\<lambda>_.
     bindM (replace_document env (lit ''approval-'' @ h) APPROVED) (\<lambda>_.
       fsync env)))"

definition authorize :: "recovery_env \<Rightarrow> (ustr \<Rightarrow> bool) \<Rightarrow> int \<Rightarrow> bool \<Rightarrow> unit h" where
  "authorize renv float_true now complete =
     bindM (secure_anchor (base renv)) (\<lambda>_.
     bindM (getM pending) (\<lambda>is_pending.
     if \<not> is_pending then returnM ()
     else
       bindM (read_document (Anchored PENDING)) (\<lambda>journal_document.
       bindM (bindM (getM m_active) (\<lambda>e. liftM (stat_identity e))) (\<lambda>active.
       bindM (liftM (subscript journal_document ''identity'')) (\<lambda>recorded.
       bindM (guardM (recorded = JArr (identity_json active)) RecoveryError) (\<lambda>_.
       bindM (liftM (subscript journal_document ''trust'')) (\<lambda>trust.
       bindM read_config (\<lambda>content.
       bindM (liftM (json_loads_bytes (base renv) content)) (\<lambda>config.
       bindM (liftM (expected_graph renv float_true now trust)) (\<lambda>expected.
       bindM (liftM (observed_graph config)) (\<lambda>observed.
       bindM (guardM (same_dict expected observed) RecoveryError) (\<lambda>_.
       bindM (liftM (subscript config ''enabled'')) (\<lambda>enabled.
       bindM (guardM (truthy float_true enabled) RecoveryError) (\<lambda>_.
       bindM read_config (\<lambda>approved_content.
       if complete then complete_import (base renv) journal_document
       else approve_import (base renv)
              (JObj [(lit ''config_sha256'', JStr (hex_of_bytes (sha256 (base renv) approved_content))),
                     (lit ''identity'', JArr (identity_json active))]))))))))))))))))"

subsection \<open>The service checkpoint\<close>

definition SERVICES :: "string list" where
  "SERVICES = [''atlaso-kmip.service'', ''atlaso-kms.service'']"

definition posture_valid :: "json \<Rightarrow> bool" where
  "posture_valid states =
     (case states of
        JObj d \<Rightarrow> has_fields d SERVICES
          \<and> list_all (\<lambda>(k, v). case v of JArr [JBool a, JBool b] \<Rightarrow> True | _ \<Rightarrow> False) d
      | _ \<Rightarrow> False)"

text \<open>A request that finds the checkpoint of the same operation gets the posture saved then.\<close>

definition service_checkpoint :: "env \<Rightarrow> json \<Rightarrow> bool \<Rightarrow> json h" where
  "service_checkpoint env request finish =
     bindM (secure_anchor env) (\<lambda>_.
     if finish
     then bindM (retire_service env) (\<lambda>_. returnM (JObj [(lit ''status'', JText ''complete'')]))
     else
       bindM (liftM (subscript request ''states'')) (\<lambda>states.
       bindM (guardM (posture_valid states) RecoveryError) (\<lambda>_.
       bindM (getM (\<lambda>m. path_exists (m_anchor m SERVICE))) (\<lambda>present.
       if present
       then
         bindM (read_document (Anchored SERVICE)) (\<lambda>saved.
         bindM (liftM (subscript saved ''binding'')) (\<lambda>saved_binding.
         bindM (liftM (subscript request ''binding'')) (\<lambda>binding.
         bindM (guardM (saved_binding = binding) RecoveryError) (\<lambda>_.
         bindM (liftM (subscript saved ''operation'')) (\<lambda>saved_operation.
         bindM (liftM (subscript request ''operation'')) (\<lambda>operation.
         bindM (guardM (saved_operation = operation) RecoveryError) (\<lambda>_.
         bindM (liftM (subscript saved ''states'')) (\<lambda>saved_states.
           returnM (JObj [(lit ''states'', saved_states)])))))))))
       else
         bindM (liftM (subscript request ''operation'')) (\<lambda>operation.
         bindM (liftM (subscript request ''binding'')) (\<lambda>binding.
         bindM (random_hex env) (\<lambda>h.
         bindM (exclusive_document env (lit ''service-checkpoint-'' @ h)
                  (JObj [(lit ''schema'', JInt 1), (lit ''states'', states), (lit ''operation'', operation),
                         (lit ''binding'', binding)])) (\<lambda>_.
         bindM (rename_absent env (Anchored (lit ''service-checkpoint-'' @ h)) (Anchored SERVICE)) (\<lambda>_.
           returnM (JObj [(lit ''states'', states)]))))))))))"

subsection \<open>Importing\<close>

text \<open>A computation of the store on a directory: its files are the store's disk, the draws and effects are
  numbered on.\<close>

definition no_store :: store where
  "no_store = \<lparr>s_read_only = True, s_master_key = [], s_kek = [],
     s_envelope = \<lparr>e_kek = [], e_generation = 0, e_commitment = [], e_pending_generation = None, e_pending_commitment = None\<rparr>\<rparr>"

definition on_directory :: "place \<Rightarrow> 'a m \<Rightarrow> 'a h" where
  "on_directory p operation m =
     (case entry_at p m of
        Some (Directory i d) \<Rightarrow>
          (case operation \<lparr>w_disk = d, w_self = no_store, w_draw = m_draw m, w_io = m_io m\<rparr> of
             (r, w) \<Rightarrow> (r, (put_entry p (Some (Directory i (w_disk w))) m)\<lparr>m_draw := w_draw w, m_io := w_io w\<rparr>))
      | _ \<Rightarrow> (Inl OSError, m))"

definition is_complete :: "disk \<Rightarrow> bool" where
  "is_complete d \<longleftrightarrow>
     d_recovery d = None \<and> \<not> d_rollback d \<and> d_trust d = None \<and> set (d_others d) \<subseteq> {lit ''store.db-shm''}
     \<and> d_db d \<noteq> None \<and> d_kek d \<noteq> None"

definition empty_target :: "env \<Rightarrow> ustr \<Rightarrow> unit m" where
  "empty_target env secrets_key =
     bindM (getM w_disk) (\<lambda>d.
     if is_empty_directory d then returnM ()
     else
       bindM (guardM (is_complete d) RecoveryError) (\<lambda>_.
       bindM (guardM (d_plain d) RecoveryError) (\<lambda>_.
       bindM (init_store env secrets_key True) (\<lambda>_.
       bindM (catchM
                (bindM (lifecycle_counts env []) (\<lambda>counts.
                   guardM (\<not> list_ex (\<lambda>(p, c). lc_total c \<noteq> 0) counts) RecoveryError))
                (\<lambda>e. bindM close (\<lambda>_. raiseM e))) (\<lambda>_.
         close)))))"

text \<open>\<open>_discard_unjournaled_candidate\<close>: the pinned directory loses its files, then its name.\<close>

definition discard_unjournaled_candidate :: "env \<Rightarrow> ustr \<Rightarrow> identity \<Rightarrow> unit h" where
  "discard_unjournaled_candidate env name pinned =
     bindM (getM (entry_at (Anchored name))) (\<lambda>e.
     case e of
       None \<Rightarrow> raiseM OSError
     | Some entry \<Rightarrow>
         bindM (guardM (own_identity entry = Some pinned) RecoveryError) (\<lambda>_.
         case entry of
           Directory i d \<Rightarrow>
             bindM (effect env (put_entry (Anchored name) (Some (Directory i (d\<lparr>d_db := None, d_kek := None, d_recovery := None,
                      d_journal := False, d_rollback := False, d_trust := None, d_others := []\<rparr>))))) (\<lambda>_.
               effect env (put_entry (Anchored name) None))
         | _ \<Rightarrow> raiseM OSError))"

text \<open>The names a journal may hold: a prefix and 32 hexadecimal digits.\<close>

definition private_name :: "string \<Rightarrow> ustr \<Rightarrow> bool" where
  "private_name prefix name \<longleftrightarrow>
     take (length prefix) name = lit prefix \<and> length name = length prefix + 32
     \<and> list_all (\<lambda>c. c \<in> set HEX_DIGITS) (drop (length prefix) name)"

text \<open>What the journal records: the names of the candidate and of the retained directory, and the
  candidate's identity as the list of numbers in the document.\<close>

record custody =
  j_candidate :: ustr
  j_old :: ustr
  j_identity :: "json list"

definition journal_document :: "ustr \<Rightarrow> custody \<Rightarrow> json \<Rightarrow> json" where
  "journal_document digest c trust =
     JObj [(lit ''schema'', JInt 1), (lit ''archive'', JStr digest), (lit ''candidate'', JStr (j_candidate c)),
           (lit ''old'', JStr (j_old c)), (lit ''identity'', JArr (j_identity c)), (lit ''trust'', trust)]"

text \<open>\<open>str(value)\<close> of what is no text has neither prefix.\<close>

definition resume_custody :: "ustr \<Rightarrow> json \<Rightarrow> custody res" where
  "resume_custody digest document =
     (case document of
        JObj d \<Rightarrow>
          bindE (guardE (map_of d (lit ''archive'') = Some (JStr digest)) RecoveryError) (\<lambda>_.
          bindE (lookup_field d ''candidate'') (\<lambda>c.
          bindE (lookup_field d ''old'') (\<lambda>o'.
          case (c, o') of
            (JStr candidate, JStr old) \<Rightarrow>
              bindE (guardE (private_name ''candidate-'' candidate \<and> private_name ''previous-'' old) RecoveryError) (\<lambda>_.
              bindE (lookup_field d ''identity'') (\<lambda>i.
              bindE (items_of i) (\<lambda>identity.
                Inr \<lparr>j_candidate = candidate, j_old = old, j_identity = identity\<rparr>)))
          | _ \<Rightarrow> Inl RecoveryError)))
      | _ \<Rightarrow> Inl AttributeError)"

text \<open>
  A new candidate: built, flushed and journaled; where that fails before the journal is in place, the
  candidate is removed again. \<open>except BaseException\<close> does not see the machine stop.
\<close>

definition prepare_candidate :: "recovery_env \<Rightarrow> (ustr \<times> json) list \<Rightarrow> ustr \<Rightarrow> ustr \<Rightarrow> custody h" where
  "prepare_candidate renv snapshot secrets_key digest =
     bindM (random_hex (base renv)) (\<lambda>c.
     bindM (random_hex (base renv)) (\<lambda>o'.
     let candidate = lit ''candidate-'' @ c; old = lit ''previous-'' @ o' in
     bindM (create_at (base renv) (Anchored candidate) (\<lambda>i. Directory i
              \<lparr>d_db = None, d_kek = None, d_recovery = None, d_journal = False, d_rollback = False, d_trust = None,
               d_others = [], d_plain = True\<rparr>)) (\<lambda>_.
     bindM (bindM (getM (entry_at (Anchored candidate))) (\<lambda>e. liftM (stat_identity e))) (\<lambda>identity.
     let custody = \<lparr>j_candidate = candidate, j_old = old, j_identity = identity_json identity\<rparr> in
     bindM (catchM
              (bindM (on_directory (Anchored candidate) (build_candidate renv snapshot secrets_key)) (\<lambda>_.
               bindM (fsync (base renv)) (\<lambda>_.
               bindM (fsync (base renv)) (\<lambda>_.
               bindM (liftM (lookup_field snapshot ''trust'')) (\<lambda>trust.
                 journal (base renv) (journal_document digest custody trust))))))
              (\<lambda>e. if e = PowerLoss then raiseM e
                   else
                     bindM (getM pending) (\<lambda>published.
                     bindM (if published then returnM ()
                            else discard_unjournaled_candidate (base renv) candidate identity) (\<lambda>_.
                       raiseM e)))) (\<lambda>_.
       returnM custody)))))"

text \<open>The retained directory has to be an authenticated empty store; otherwise it is put back.\<close>

definition check_retained :: "env \<Rightarrow> ustr \<Rightarrow> ustr \<Rightarrow> unit h" where
  "check_retained env old secrets_key =
     bindM (getM (\<lambda>m. path_exists (m_anchor m old))) (\<lambda>retained.
     if \<not> retained then returnM ()
     else
       catchM (on_directory (Anchored old) (empty_target env secrets_key)) (\<lambda>e.
         if e = PowerLoss then raiseM e
         else
           bindM (catchM
                    (bindM (rename_absent env (Anchored old) Active) (\<lambda>_.
                     bindM (random_hex env) (\<lambda>h.
                       rename_absent env (Anchored PENDING) (Anchored (lit ''rejected-'' @ h @ lit ''.json'')))))
                    (\<lambda>x. if x = OSError then returnM () else raiseM x)) (\<lambda>_.
             raiseM e)))"

text \<open>The candidate gets its owner and modes and moves into place.\<close>

definition publish_candidate :: "env \<Rightarrow> custody \<Rightarrow> unit h" where
  "publish_candidate env c =
     bindM (getM (entry_at (Anchored (j_candidate c)))) (\<lambda>e.
     case e of
       Some (Directory i d) \<Rightarrow>
         bindM (guardM (identity_json i = j_identity c) RecoveryError) (\<lambda>_.
         bindM (guardM (d_plain d) RecoveryError) (\<lambda>_.
         bindM (fsync env) (\<lambda>_.
           rename_absent env (Anchored (j_candidate c)) Active)))
     | _ \<Rightarrow> raiseM OSError)"

definition publish :: "env \<Rightarrow> custody \<Rightarrow> ustr \<Rightarrow> unit h" where
  "publish env c secrets_key =
     bindM (getM m_active) (\<lambda>active.
     if (case active of None \<Rightarrow> False | Some e \<Rightarrow> map_option identity_json (own_identity e) = Some (j_identity c))
     then returnM ()
     else
       bindM (getM (\<lambda>m. path_exists (m_anchor m (j_old c)))) (\<lambda>retained.
       bindM (case active of
                None \<Rightarrow> returnM ()
              | Some e \<Rightarrow>
                  if retained then returnM ()
                  else bindM (guardM (is_directory e) RecoveryError) (\<lambda>_. rename_absent env Active (Anchored (j_old c)))) (\<lambda>_.
       bindM (check_retained env (j_old c) secrets_key) (\<lambda>_.
         publish_candidate env c))))"

definition import_archive :: "recovery_env \<Rightarrow> bytes \<Rightarrow> json \<Rightarrow> ustr \<Rightarrow> json h" where
  "import_archive renv archive passphrase secrets_key =
     bindM (liftM (decrypt renv archive passphrase)) (\<lambda>snapshot.
     let digest = hex_of_bytes (sha256 (base renv) archive) in
     bindM (getM (\<lambda>m. (pending m, m_active m))) (\<lambda>(is_pending, active).
     bindM (if \<not> is_pending \<and> path_exists active
            then bindM (guardM (case active of Some e \<Rightarrow> is_directory e | None \<Rightarrow> False) RecoveryError) (\<lambda>_.
                   on_directory Active (empty_target (base renv) secrets_key))
            else returnM ()) (\<lambda>_.
     bindM (secure_anchor (base renv)) (\<lambda>_.
     bindM (getM (\<lambda>m. path_exists (m_anchor m PENDING))) (\<lambda>journaled.
     bindM (if journaled
            then bindM (read_document (Anchored PENDING)) (\<lambda>document. liftM (resume_custody digest document))
            else prepare_candidate renv snapshot secrets_key digest) (\<lambda>custody.
     bindM (publish (base renv) custody secrets_key) (\<lambda>_.
     bindM (liftM (lookup_field snapshot ''trust'')) (\<lambda>trust.
       returnM trust))))))))"

end
