(* ===== verification/RuntimeProps.thy ===== *)
theory RuntimeProps
  imports RecoveryRuntime RecoveryProps ConfigProps
begin

text \<open>
  The properties of publishing a recovered store: under every outcome of every effect an import neither
  loses nor changes a directory it did not create itself, an imported store is never active without
  its journal, and repeating an interrupted import completes it.
\<close>

subsection \<open>Entries and effects\<close>

lemma entry_at_put [simp]: "entry_at p (put_entry q e m) = (if p = q then e else entry_at p m)"
  by (cases p; cases q) auto

lemma entry_at_counters [simp]:
  "entry_at p (m\<lparr>m_io := n\<rparr>) = entry_at p m" "entry_at p (m\<lparr>m_draw := n\<rparr>) = entry_at p m"
  "entry_at p (m\<lparr>m_inode := k\<rparr>) = entry_at p m" "entry_at p (m\<lparr>m_path := ps\<rparr>) = entry_at p m"
  by (cases p; simp)+

lemma put_entry_sel [simp]:
  "m_io (put_entry p e m) = m_io m" "m_draw (put_entry p e m) = m_draw m" "m_inode (put_entry p e m) = m_inode m"
  "m_path (put_entry p e m) = m_path m" "m_umask (put_entry p e m) = m_umask m" "m_config (put_entry p e m) = m_config m"
  by (cases p; simp)+

text \<open>The proofs speak of entries at places.\<close>

declare entry_at.simps [simp del] put_entry.simps [simp del]

lemma entry_fold [simp]: "m_active m = entry_at Active m" "m_anchor m name = entry_at (Anchored name) m"
  by (simp_all add: entry_at.simps)

lemma effect_outcome:
  assumes "effect env f m = (r, m')"
  obtains (made) "m' = f (m\<lparr>m_io := Suc (m_io m)\<rparr>)" "r = Inr () \<or> r = Inl OSError \<or> r = Inl PowerLoss"
  | (not_done) "m' = m\<lparr>m_io := Suc (m_io m)\<rparr>" "r = Inl OSError \<or> r = Inl PowerLoss"
  using assms by (auto simp: effect_def Let_def split: write_fault.splits)

lemma effect_calm:
  "calm env (m_io m) \<Longrightarrow> effect env f m = (Inr (), f (m\<lparr>m_io := Suc (m_io m)\<rparr>))"
  by (simp add: effect_def calmD Let_def)

lemma keep_effect:
  "(\<And>m. I m \<Longrightarrow> I (m\<lparr>m_io := Suc (m_io m)\<rparr>)) \<Longrightarrow> (\<And>m. I m \<Longrightarrow> I (f m)) \<Longrightarrow> keeps I (effect env f)"
  by (rule keepsI) (auto elim!: effect_outcome)

subsection \<open>Reading a store changes nothing\<close>

text \<open>
  A computation that, started on these files and this object, depends on nothing else and changes
  nothing but the object: it neither draws, nor writes.
\<close>

definition opened_at :: "disk \<Rightarrow> store \<Rightarrow> nat \<Rightarrow> nat \<Rightarrow> world" where
  "opened_at d s n k = \<lparr>w_disk = d, w_self = s, w_draw = n, w_io = k\<rparr>"

lemma opened_at_sel [simp]:
  "w_disk (opened_at d s n k) = d" "w_self (opened_at d s n k) = s"
  "w_draw (opened_at d s n k) = n" "w_io (opened_at d s n k) = k"
  "(opened_at d s n k)\<lparr>w_self := s'\<rparr> = opened_at d s' n k"
  by (simp_all add: opened_at_def)

definition reads :: "'a m \<Rightarrow> disk \<Rightarrow> store \<Rightarrow> bool" where
  "reads m d s \<longleftrightarrow> (\<exists>r s'. \<forall>n k. m (opened_at d s n k) = (r, opened_at d s' n k))"

text \<open>It leaves the object as it is, too.\<close>

definition idle :: "'a m \<Rightarrow> disk \<Rightarrow> store \<Rightarrow> bool" where
  "idle m d s \<longleftrightarrow> (\<exists>r. \<forall>n k. m (opened_at d s n k) = (r, opened_at d s n k))"

lemma idle_reads: "idle m d s \<Longrightarrow> reads m d s"
  unfolding idle_def reads_def by blast

lemma idle_simple:
  "idle (returnM x) d s" "idle (raiseM e) d s" "idle (liftM r) d s" "idle (guardM b e) d s"
  by (simp_all add: idle_def m_defs)

lemma idle_read:
  "idle (f d) d s \<Longrightarrow> idle (bindM (getM w_disk) f) d s" "idle (g s) d s \<Longrightarrow> idle (bindM (getM w_self) g) d s"
  "idle (h (u d)) d s \<Longrightarrow> idle (bindM (getM (u \<circ> w_disk)) h) d s"
  "idle (k (v s)) d s \<Longrightarrow> idle (bindM (getM (v \<circ> w_self)) k) d s"
  by (simp_all add: idle_def)

lemma idle_bind:
  assumes "idle m d s" and "\<And>x. idle (f x) d s"
  shows "idle (bindM m f) d s"
proof -
  from assms(1) obtain r where m: "\<And>n k. m (opened_at d s n k) = (r, opened_at d s n k)" unfolding idle_def by blast
  then show ?thesis using assms(2) by (cases r) (auto simp: idle_def)
qed

lemma idle_catch:
  assumes "idle m d s" and "\<And>e. reads (f e) d s"
  shows "reads (catchM m f) d s"
proof -
  from assms(1) obtain r where m: "\<And>n k. m (opened_at d s n k) = (r, opened_at d s n k)" unfolding idle_def by blast
  then show ?thesis using assms(2) by (cases r) (auto simp: reads_def catchM_def)
qed

lemma reads_close: "reads close d s" "reads (bindM close (\<lambda>_. raiseM e)) d s"
  by (auto simp: reads_def m_defs close_def)

lemma idle_guard: "(b \<Longrightarrow> idle (f ()) d s) \<Longrightarrow> idle (bindM (guardM b e) f) d s"
  by (cases b) (simp_all add: idle_def)

lemma reads_guard: "(b \<Longrightarrow> reads (f ()) d s) \<Longrightarrow> reads (bindM (guardM b e) f) d s"
  by (cases b) (auto simp: reads_def)

lemma reads_bind:
  assumes "reads m d s" and "\<And>x s'. reads (f x) d s'"
  shows "reads (bindM m f) d s"
proof -
  from assms(1) obtain r s1 where m: "\<And>n k. m (opened_at d s n k) = (r, opened_at d s1 n k)" unfolding reads_def by blast
  show ?thesis
  proof (cases r)
    case (Inl e)
    with m show ?thesis by (auto simp: reads_def)
  next
    case (Inr x)
    with m assms(2) [of x s1] show ?thesis by (auto simp: reads_def)
  qed
qed

lemma load_idle: "idle (load_or_create_kek env sk True) d s"
  unfolding load_or_create_kek_def
  by (intro idle_read idle_bind idle_simple) (auto intro!: idle_guard idle_bind idle_simple split: option.split)

lemma verify_idle: "s_read_only s \<Longrightarrow> idle (verify_store_commitment env db) d s"
  unfolding verify_store_commitment_def
  by (intro idle_bind idle_read idle_simple) (simp add: Let_def idle_simple)

lemma connect_idle: "s_read_only s \<Longrightarrow> idle connect d s"
  unfolding connect_def by (intro idle_read) (auto intro!: idle_simple split: option.split)

lemma initialize_idle: "s_read_only s \<Longrightarrow> idle (initialize env) d s"
  unfolding initialize_def
  by (intro idle_read idle_bind connect_idle idle_simple)
    (auto intro!: idle_guard idle_bind idle_simple verify_idle split: option.split)

lemma counts_idle: "s_read_only s \<Longrightarrow> idle (lifecycle_counts env ps) d s"
  unfolding lifecycle_counts_def by (intro idle_read idle_bind connect_idle verify_idle idle_simple)

text \<open>Opening a store read-only, and the check that it is empty.\<close>

lemma init_reads:
  "\<exists>r s'. (\<forall>n k. init_store env sk True (opened_at d s n k) = (r, opened_at d s' n k)) \<and> (r = Inr () \<longrightarrow> s_read_only s')"
proof (cases "\<not> (d_journal d \<or> d_rollback d) \<and> (d_db d = None) = (d_kek d = None)")
  case False
  then have "reads (init_store env sk True) d s \<and> (\<forall>n k. fst (init_store env sk True (opened_at d s n k)) \<noteq> Inr ())"
    unfolding init_store_def by (cases "d_journal d \<or> d_rollback d") (auto simp: reads_def)
  then show ?thesis unfolding reads_def by force
next
  case True
  obtain r where l: "\<And>n k. load_or_create_kek env sk True (opened_at d s n k) = (r, opened_at d s n k)"
    using load_idle unfolding idle_def by blast
  show ?thesis
  proof (cases r)
    case (Inl e)
    then show ?thesis using True l by (auto simp: init_store_def)
  next
    case (Inr y)
    obtain master e where y: "y = (master, e)" by (cases y)
    let ?s = "\<lparr>s_read_only = True, s_master_key = master, s_kek = e_kek e, s_envelope = e\<rparr>"
    have "idle (initialize env) d ?s" by (rule initialize_idle) simp
    then obtain r where "\<And>n k. initialize env (opened_at d ?s n k) = (r, opened_at d ?s n k)" unfolding idle_def by blast
    then show ?thesis using True l Inr y by (intro exI [of _ r] exI [of _ ?s]) (simp add: init_store_def)
  qed
qed

lemma init_reads_bind:
  assumes "\<And>s'. s_read_only s' \<Longrightarrow> reads m d s'"
  shows "reads (bindM (init_store env sk True) (\<lambda>_. m)) d s"
proof -
  obtain r s1 where i: "\<And>n k. init_store env sk True (opened_at d s n k) = (r, opened_at d s1 n k)" "r = Inr () \<longrightarrow> s_read_only s1"
    using init_reads by blast
  then show ?thesis using assms [of s1] by (cases r) (auto simp: reads_def)
qed

lemma reads_get: "reads (f d) d s \<Longrightarrow> reads (bindM (getM w_disk) f) d s"
  by (simp add: reads_def)

lemma empty_target_reads: "reads (empty_target env sk) d s"
  unfolding empty_target_def
  by (rule reads_get, split if_split)
    (intro conjI impI reads_guard init_reads_bind reads_bind idle_catch idle_bind counts_idle idle_simple reads_close
      idle_reads [OF idle_simple(1)])

subsection \<open>Names and moves\<close>

definition hexname :: "env \<Rightarrow> nat \<Rightarrow> ustr" where
  "hexname env n = filter (\<lambda>c. c \<noteq> 45) (uuid4_text (urandom env n 16))"

lemma random_hex_run: "random_hex env m = (Inr (hexname env (m_draw m)), m\<lparr>m_draw := Suc (m_draw m)\<rparr>)"
  by (simp add: random_hex_def hexname_def)

lemma bindM_random_hex [simp]: "bindM (random_hex env) f m = f (hexname env (m_draw m)) (m\<lparr>m_draw := Suc (m_draw m)\<rparr>)"
  by (simp add: random_hex_run)

lemma hexname_chars:
  assumes "env_ok env"
  shows "length (hexname env n) = 32" "list_all (\<lambda>c. c \<in> set HEX_DIGITS) (hexname env n)"
proof -
  define bs where "bs = (urandom env n 16)[6 := byte_of (unat (urandom env n 16 ! 6) mod 16 + 64),
    8 := byte_of (unat (urandom env n 16 ! 8) mod 64 + 128)]"
  have "length bs = 16" by (simp add: bs_def env_okD(3) [OF assms])
  then have v: "from_be bs < 16 ^ 32" using from_be_bound [of bs] by simp
  note d = uuid_digits [OF v]
  have "45 \<notin> set (map hex_code (pad_digs 32 (digs 16 (from_be bs))))" using d(3) by auto
  from dashed_chars(1) [OF this] have h: "hexname env n = map hex_code (pad_digs 32 (digs 16 (from_be bs)))"
    by (simp add: hexname_def uuid4_text_def bs_def uuid_of_int_def)
  show "length (hexname env n) = 32" using d(1) h by simp
  show "list_all (\<lambda>c. c \<in> set HEX_DIGITS) (hexname env n)"
    using d(3) h by (simp add: list_all_iff HEX_DIGITS_set del: set_map Un_iff) blast
qed

lemma private_hexname: "env_ok env \<Longrightarrow> private_name prefix (lit prefix @ hexname env n)"
  by (simp add: private_name_def hexname_chars lit_def)

lemma private_prefix: "private_name prefix name \<Longrightarrow> \<exists>h. name = lit prefix @ h"
  unfolding private_name_def by (metis append_take_drop_id)

text \<open>The names of a journal are apart from one another and from the journal's own.\<close>

definition well_named :: "custody \<Rightarrow> bool" where
  "well_named c \<longleftrightarrow> private_name ''candidate-'' (j_candidate c) \<and> private_name ''previous-'' (j_old c)"

lemma names_apart:
  "lit ''candidate-'' @ h \<noteq> PENDING" "lit ''previous-'' @ h \<noteq> PENDING" "lit ''journal-'' @ h \<noteq> PENDING"
  "lit ''rejected-'' @ h \<noteq> PENDING" "lit ''candidate-'' @ h \<noteq> lit ''previous-'' @ h'"
  "lit ''candidate-'' @ h \<noteq> lit ''journal-'' @ h'" "lit ''candidate-'' @ h \<noteq> lit ''rejected-'' @ h'"
  "lit ''previous-'' @ h \<noteq> lit ''journal-'' @ h'" "lit ''previous-'' @ h \<noteq> lit ''rejected-'' @ h'"
  by (simp_all add: PENDING_def lit_def)

lemmas names_differ = names_apart names_apart [symmetric]

lemma well_named_apart:
  assumes "well_named c"
  shows "j_candidate c \<noteq> PENDING" "j_old c \<noteq> PENDING" "j_candidate c \<noteq> j_old c"
    "j_candidate c \<noteq> lit ''rejected-'' @ h" "j_old c \<noteq> lit ''rejected-'' @ h"
  using assms unfolding well_named_def by (auto dest!: private_prefix simp: names_differ)

lemma put_back [simp]: "put_entry p (entry_at p m) m = m"
  by (cases p) (simp_all add: entry_at.simps put_entry.simps del: entry_fold)

lemma rename_outcome:
  assumes "rename_absent env p q m = (r, m')"
  obtains (stays) "\<And>x. entry_at x m' = entry_at x m" "r = Inl OSError \<or> r = Inl PowerLoss"
  | (moves) e where "entry_at p m = Some e" "entry_at q m = None"
      "\<And>x. entry_at x m' = (if x = p then None else if x = q then Some e else entry_at x m)"
      "r = Inr () \<or> r = Inl OSError \<or> r = Inl PowerLoss"
proof (cases "entry_at p m \<noteq> None \<and> entry_at q m = None")
  case False
  then have "m' = m" "r = Inl OSError" using assms by (auto simp: rename_absent_def)
  then show thesis by (intro stays) simp_all
next
  case True
  then obtain e where e: "entry_at p m = Some e" "entry_at q m = None" by auto
  with assms have "effect env (\<lambda>m. put_entry p None (put_entry q (Some e) m)) m = (r, m')"
    by (simp add: rename_absent_def)
  then show thesis
  proof (cases rule: effect_outcome)
    case made
    then show thesis using e by (intro moves [of e]) simp_all
  next
    case not_done
    then show thesis by (intro stays) simp_all
  qed
qed

lemma rename_calm:
  assumes "calm env (m_io m)" and "entry_at p m = Some e" and "entry_at q m = None"
  shows "rename_absent env p q m = (Inr (), put_entry p None (put_entry q (Some e) (m\<lparr>m_io := Suc (m_io m)\<rparr>)))"
  using assms by (simp add: rename_absent_def effect_calm)

definition verdict :: "env \<Rightarrow> ustr \<Rightarrow> disk \<Rightarrow> unit res" where
  "verdict env sk d = fst (empty_target env sk (opened_at d no_store 0 0))"

lemma checked_directory:
  assumes "entry_at p m = Some (Directory i d)"
  shows "on_directory p (empty_target env sk) m = (verdict env sk d, m)"
proof -
  from empty_target_reads [of env sk d no_store] obtain r s where
    "\<And>n k. empty_target env sk (opened_at d no_store n k) = (r, opened_at d s n k)" unfolding reads_def by blast
  moreover have "put_entry p (Some (Directory i d)) m = m" using put_back [of p m] assms by simp
  ultimately show ?thesis using assms by (simp add: on_directory_def verdict_def opened_at_def [symmetric])
qed

lemma checked_any: "on_directory p (empty_target env sk) m = (r, m') \<Longrightarrow> m' = m"
proof (cases "\<exists>i d. entry_at p m = Some (Directory i d)")
  case True
  then show "on_directory p (empty_target env sk) m = (r, m') \<Longrightarrow> m' = m" by (auto simp: checked_directory)
qed (auto simp: on_directory_def split: option.splits entry.splits)

subsection \<open>The states of an import\<close>

text \<open>
  \<open>target\<close> is the entry that was active before the import. Without a journal it is active. With one, the
  candidate is staged beside it, or the target is set aside under the journal's name, or the candidate is
  active.
\<close>

definition untouched :: "entry option \<Rightarrow> machine \<Rightarrow> bool" where
  "untouched target m \<longleftrightarrow> entry_at (Anchored PENDING) m = None \<and> entry_at Active m = target"

definition journaled :: "json \<Rightarrow> machine \<Rightarrow> bool" where
  "journaled document m \<longleftrightarrow> (\<exists>f. entry_at (Anchored PENDING) m = Some (File f (Some document)))"

definition staged :: "entry option \<Rightarrow> custody \<Rightarrow> entry \<Rightarrow> machine \<Rightarrow> bool" where
  "staged target c built m \<longleftrightarrow>
     entry_at Active m = target \<and> entry_at (Anchored (j_old c)) m = None \<and> entry_at (Anchored (j_candidate c)) m = Some built"

definition set_aside :: "entry option \<Rightarrow> custody \<Rightarrow> entry \<Rightarrow> machine \<Rightarrow> bool" where
  "set_aside target c built m \<longleftrightarrow>
     entry_at Active m = None \<and> (\<exists>i d. target = Some (Directory i d)) \<and> entry_at (Anchored (j_old c)) m = target
     \<and> entry_at (Anchored (j_candidate c)) m = Some built"

definition published :: "entry option \<Rightarrow> custody \<Rightarrow> entry \<Rightarrow> machine \<Rightarrow> bool" where
  "published target c built m \<longleftrightarrow>
     entry_at Active m = Some built \<and> entry_at (Anchored (j_old c)) m = target \<and> entry_at (Anchored (j_candidate c)) m = None"

definition in_custody :: "entry option \<Rightarrow> json \<Rightarrow> custody \<Rightarrow> entry \<Rightarrow> machine \<Rightarrow> bool" where
  "in_custody target document c built m \<longleftrightarrow>
     journaled document m \<and> (staged target c built m \<or> set_aside target c built m \<or> published target c built m)"

lemmas custody_defs = in_custody_def journaled_def staged_def set_aside_def published_def

lemma same_entries:
  assumes "\<And>x. entry_at x m' = entry_at x m"
  shows "untouched target m' = untouched target m" "journaled document m' = journaled document m"
    "staged target c built m' = staged target c built m" "set_aside target c built m' = set_aside target c built m"
    "published target c built m' = published target c built m" "in_custody target document c built m' = in_custody target document c built m"
  by (simp_all add: untouched_def custody_defs assms)

text \<open>A retained directory that does not authenticate as an empty store is put back, and the journal with it.\<close>

lemma check_retained_aside:
  assumes n: "well_named c" and m: "journaled document m" "set_aside target c built m"
    and run: "check_retained env (j_old c) sk m = (r, m')"
  shows "r = Inr () \<and> m' = m \<or> (\<exists>e. r = Inl e) \<and> (in_custody target document c built m' \<or> untouched target m')"
proof -
  note apart = well_named_apart [OF n]
  from m obtain i d where t: "target = Some (Directory i d)" "m_anchor m (j_old c) = target" by (auto simp: set_aside_def)
  have ch: "on_directory (Anchored (j_old c)) (empty_target env sk) m = (verdict env sk d, m)"
    by (rule checked_directory [of _ _ i]) (use t in simp)
  show ?thesis
  proof (cases "verdict env sk d")
    case (Inr u)
    with run ch t show ?thesis by (auto simp: check_retained_def catchM_def path_exists_def)
  next
    case (Inl e)
    show ?thesis
    proof (cases "e = PowerLoss")
      case True
      with run ch [unfolded Inl] t m show ?thesis by (auto simp: check_retained_def catchM_def path_exists_def raiseM_def in_custody_def)
    next
      case False
      let ?reject = "bindM (random_hex env) (\<lambda>h. rename_absent env (Anchored PENDING) (Anchored (lit ''rejected-'' @ h @ lit ''.json'')))"
      obtain y m2 where moved: "bindM (rename_absent env (Anchored (j_old c)) Active) (\<lambda>_. ?reject) m = (y, m2)" by fastforce
      have p: "path_exists (Some (Directory i d))" by (simp add: path_exists_def)
      let ?quiet = "catchM (bindM (rename_absent env (Anchored (j_old c)) Active) (\<lambda>_. ?reject)) (\<lambda>x. if x = OSError then returnM () else raiseM x)"
      from run ch t Inl False p have "bindM ?quiet (\<lambda>_. raiseM e) m = (r, m')" by (simp add: check_retained_def catchM_def)
      moreover have "snd (?quiet m) = m2" using moved by (cases y) (simp_all add: catchM_def raiseM_def returnM_def)
      then have "?quiet m = (fst (?quiet m), m2)" by (simp only: prod_eq_iff fst_conv snd_conv)
      then obtain z where "?quiet m = (z, m2)" by blast
      ultimately have r: "m' = m2 \<and> (\<exists>e. r = Inl e)" by (cases z) (auto simp: raiseM_def)
      from moved have "in_custody target document c built m2 \<or> untouched target m2"
      proof (cases rule: bindM_cases)
        case (raised x)
        from raised(1) m apart show ?thesis by (elim rename_outcome) (auto simp: custody_defs)
      next
        case (went_on u m1)
        from went_on(1) m apart t have s: "journaled document m1" "staged target c built m1"
          by (elim rename_outcome; auto simp: custody_defs)+
        from went_on(2) have "rename_absent env (Anchored PENDING) (Anchored (lit ''rejected-'' @ hexname env (m_draw m1) @ lit ''.json''))
            (m1\<lparr>m_draw := Suc (m_draw m1)\<rparr>) = (y, m2)"
          by (simp add: bindM_def random_hex_run)
        with s apart show ?thesis by (elim rename_outcome) (auto simp: custody_defs untouched_def)
      qed
      with r show ?thesis by blast
    qed
  qed
qed

lemma check_retained_none:
  "entry_at (Anchored old) m = None \<Longrightarrow> check_retained env old sk m = (Inr (), m)"
  by (simp add: check_retained_def path_exists_def returnM_def)

lemma publish_candidate_outcome:
  assumes n: "well_named c" and m: "journaled document m"
    "target = None \<and> staged target c built m \<or> set_aside target c built m"
    and run: "publish_candidate env c m = (r, m')"
  shows "in_custody target document c built m' \<and> (r = Inr () \<longrightarrow> published target c built m')"
proof (cases "\<exists>i d. built = Directory i d \<and> identity_json i = j_identity c \<and> d_plain d")
  case False
  have b: "entry_at (Anchored (j_candidate c)) m = Some built" using m by (auto simp: staged_def set_aside_def)
  have "m' = m \<and> r \<noteq> Inr ()"
  proof (cases built)
    case (Directory i d)
    with False run b show ?thesis by (cases "identity_json i = j_identity c") (auto simp: publish_candidate_def)
  qed (use run b in \<open>auto simp: publish_candidate_def raiseM_def\<close>)
  with m show ?thesis by (auto simp: in_custody_def)
next
  case True
  note apart = well_named_apart [OF n]
  have b: "entry_at (Anchored (j_candidate c)) m = Some built" using m by (auto simp: staged_def set_aside_def)
  with True run have "bindM (fsync env) (\<lambda>_. rename_absent env (Anchored (j_candidate c)) Active) m = (r, m')"
    by (auto simp: publish_candidate_def)
  then show ?thesis
  proof (cases rule: bindM_cases)
    case (raised e)
    then have "\<And>x. entry_at x m' = entry_at x m" by (auto simp: fsync_def elim!: effect_outcome)
    from same_entries [OF this] m raised show ?thesis by (auto simp: in_custody_def)
  next
    case (went_on u m1)
    then have "\<And>x. entry_at x m1 = entry_at x m" by (auto simp: fsync_def elim!: effect_outcome)
    from went_on(2) m this apart show ?thesis by (elim rename_outcome) (auto simp: custody_defs)
  qed
qed

definition distinct_from :: "entry option \<Rightarrow> custody \<Rightarrow> bool" where
  "distinct_from target c \<longleftrightarrow> (\<forall>e. target = Some e \<longrightarrow> map_option identity_json (own_identity e) \<noteq> Some (j_identity c))"

lemma publish_outcome:
  assumes n: "well_named c" and m: "in_custody target document c built m" and d: "distinct_from target c"
    and b: "built = Directory i disk" "j_identity c = identity_json i"
    and run: "publish env c sk m = (r, m')"
  shows "(in_custody target document c built m' \<or> untouched target m')
    \<and> (r = Inr () \<longrightarrow> journaled document m' \<and> published target c built m')"
proof -
  note apart = well_named_apart [OF n]
  have j: "journaled document m" using m by (simp add: in_custody_def)
  have aside': "(in_custody target document c built m' \<or> untouched target m') \<and> (r = Inr () \<longrightarrow> journaled document m' \<and> published target c built m')"
    if a: "journaled document m1" "set_aside target c built m1"
      and r: "bindM (check_retained env (j_old c) sk) (\<lambda>_. publish_candidate env c) m1 = (r, m')" for m1
    using r
  proof (cases rule: bindM_cases)
    case (raised e)
    with check_retained_aside [OF n a raised(1)] show ?thesis by auto
  next
    case (went_on u m2)
    with check_retained_aside [OF n a went_on(1)] have "m2 = m1" by auto
    with publish_candidate_outcome [OF n a(1) _ went_on(2) [unfolded this]] a(2) show ?thesis by (auto simp: in_custody_def)
  qed
  from m consider (staged) "staged target c built m" | (aside) "set_aside target c built m" | (published) "published target c built m"
    by (auto simp: in_custody_def)
  then show ?thesis
  proof cases
    case published
    then have "r = Inr ()" "m' = m" using run b by (auto simp: publish_def published_def own_identity_def returnM_def)
    with published m j show ?thesis by simp
  next
    case aside
    then have "bindM (check_retained env (j_old c) sk) (\<lambda>_. publish_candidate env c) m = (r, m')"
      using run by (auto simp: publish_def set_aside_def)
    with j aside show ?thesis by (rule aside')
  next
    case staged
    show ?thesis
    proof (cases target)
      case None
      with staged have "bindM (check_retained env (j_old c) sk) (\<lambda>_. publish_candidate env c) m = (r, m')"
        using run by (auto simp: publish_def staged_def)
      then have "publish_candidate env c m = (r, m')" using staged by (simp add: check_retained_none staged_def)
      from publish_candidate_outcome [OF n j _ this] staged None show ?thesis by (auto simp: in_custody_def)
    next
      case (Some e)
      have "path_exists (m_anchor m (j_old c)) = False" using staged by (simp add: staged_def path_exists_def)
      with run staged Some d have "bindM (bindM (guardM (is_directory e) RecoveryError) (\<lambda>_. rename_absent env Active (Anchored (j_old c))))
          (\<lambda>_. bindM (check_retained env (j_old c) sk) (\<lambda>_. publish_candidate env c)) m = (r, m')"
        by (cases "own_identity e") (auto simp: publish_def staged_def distinct_from_def)
      then show ?thesis
      proof (cases rule: bindM_cases)
        case (raised x)
        then have "in_custody target document c built m'"
          using m staged apart Some by (cases e) (auto simp: custody_defs is_directory_def elim!: rename_outcome)
        with raised show ?thesis by simp
      next
        case (went_on u m1)
        then have "rename_absent env Active (Anchored (j_old c)) m = (Inr u, m1)" "is_directory e" by (auto simp: bindM_def guardM_def split: if_splits)
        then have "journaled document m1" "set_aside target c built m1"
          using j staged apart Some by (cases e; auto simp: custody_defs is_directory_def elim!: rename_outcome)+
        then show ?thesis using went_on(2) by (rule aside')
      qed
    qed
  qed
qed

subsection \<open>Preparing a candidate\<close>

lemma fsync_outcome: "fsync env m = (r, m') \<Longrightarrow> entry_at x m' = entry_at x m"
  by (auto simp: fsync_def elim!: effect_outcome)

lemma create_outcome:
  assumes "create_at env p e m = (r, m')"
  obtains (stays) "\<And>x. entry_at x m' = entry_at x m" "m_inode m' = m_inode m" "m_draw m' = m_draw m" "r \<noteq> Inr ()"
  | (creates) "entry_at p m = None" "\<And>x. entry_at x m' = (if x = p then Some (e (0, m_inode m)) else entry_at x m)"
      "m_inode m' = m_inode m + 1" "m_draw m' = m_draw m"
proof (cases "entry_at p m = None")
  case False
  then have "m' = m" "r = Inl OSError" using assms by (auto simp: create_at_def)
  then show thesis by (intro stays) simp_all
next
  case True
  with assms have "effect env (\<lambda>m. (put_entry p (Some (e (new_identity m))) m)\<lparr>m_inode := m_inode m + 1\<rparr>) m = (r, m')"
    by (simp add: create_at_def)
  then show thesis
  proof (cases rule: effect_outcome)
    case made
    then show thesis using True by (intro creates) (simp_all add: new_identity_def)
  next
    case not_done
    then show thesis by (intro stays) auto
  qed
qed

lemma replace_outcome:
  assumes "replace_document env a b m = (r, m')"
  obtains (stays) "\<And>x. entry_at x m' = entry_at x m" "r \<noteq> Inr ()"
  | (replaces) e where "entry_at (Anchored a) m = Some e"
      "\<And>x. entry_at x m' = (if x = Anchored a then None else if x = Anchored b then Some e else entry_at x m)"
proof (cases "entry_at (Anchored a) m \<noteq> None \<and> \<not> (case entry_at (Anchored b) m of Some e \<Rightarrow> is_directory e | None \<Rightarrow> False)")
  case False
  then have "m' = m" "r = Inl OSError" using assms by (auto simp: replace_document_def)
  then show thesis by (intro stays) simp_all
next
  case True
  then obtain e where e: "entry_at (Anchored a) m = Some e" by auto
  with assms True have "effect env (\<lambda>m. put_entry (Anchored a) None (put_entry (Anchored b) (Some e) m)) m = (r, m')"
    by (simp add: replace_document_def)
  then show thesis
  proof (cases rule: effect_outcome)
    case made
    then show thesis using e by (intro replaces [of e]) simp_all
  next
    case not_done
    then show thesis by (intro stays) auto
  qed
qed

text \<open>The journal is in place, or the anchor has at most one more file.\<close>

lemma journal_outcome:
  assumes run: "journal env document m = (r, m')" and p: "entry_at (Anchored PENDING) m = None"
  obtains (absent) h where "\<And>x. x \<noteq> Anchored (lit ''journal-'' @ h) \<Longrightarrow> entry_at x m' = entry_at x m" "r \<noteq> Inr ()"
  | (present) h where "\<And>x. x \<noteq> Anchored (lit ''journal-'' @ h) \<Longrightarrow> x \<noteq> Anchored PENDING \<Longrightarrow> entry_at x m' = entry_at x m"
      "journaled document m'"
proof -
  let ?h = "hexname env (m_draw m)"
  let ?n = "lit ''journal-'' @ ?h"
  let ?m = "m\<lparr>m_draw := Suc (m_draw m)\<rparr>"
  from run have "bindM (exclusive_document env ?n document) (\<lambda>_. bindM (replace_document env ?n PENDING) (\<lambda>_. fsync env)) ?m = (r, m')"
    by (simp add: journal_def bindM_def random_hex_run)
  then show thesis
  proof (cases rule: bindM_cases)
    case (raised e)
    show thesis
      by (rule create_outcome [OF raised(1) [unfolded exclusive_document_def]]) (use raised(2) in \<open>auto intro!: absent [of ?h]\<close>)
  next
    case (went_on u m1)
    have m1: "entry_at x m1 = (if x = Anchored ?n then Some (File (0, m_inode m) (Some document)) else entry_at x m)" for x
      using went_on(1) unfolding exclusive_document_def by (auto elim!: create_outcome)
    from went_on(2) show thesis
    proof (cases rule: bindM_cases)
      case (raised e)
      from raised(1) show thesis
      proof (cases rule: replace_outcome)
        case stays
        then show thesis using raised(2) m1 by (intro absent [of ?h]) auto
      next
        case (replaces x)
        then show thesis using m1 by (intro present [of ?h]) (auto simp: journaled_def names_differ)
      qed
    next
      case (went_on v m2)
      from went_on(1) have "entry_at x m2 = (if x = Anchored ?n then None else if x = Anchored PENDING then entry_at (Anchored ?n) m1 else entry_at x m1)" for x
        by (cases rule: replace_outcome) auto
      then show thesis using m1 fsync_outcome [OF went_on(2)]
        by (intro present [of ?h]) (auto simp: journaled_def names_differ)
    qed
  qed
qed

lemma discard_keeps:
  "keeps (untouched target) (discard_unjournaled_candidate env (lit ''candidate-'' @ h) i)"
proof -
  have put: "untouched target m \<Longrightarrow> untouched target (put_entry (Anchored (lit ''candidate-'' @ h)) e m)" for e m
    by (auto simp: untouched_def names_differ)
  have io: "untouched target m \<Longrightarrow> untouched target (m\<lparr>m_io := n\<rparr>)" for m n by (simp add: untouched_def)
  have entry: "keeps (untouched target) (case e of Directory i d \<Rightarrow> f i d | File i c \<Rightarrow> raiseM OSError | Link l \<Rightarrow> raiseM OSError)"
    if "\<And>i d. keeps (untouched target) (f i d)" for e f
    using that by (cases e) (simp_all add: keep_raise)
  show ?thesis unfolding discard_unjournaled_candidate_def
    by (intro keep_bind keep_get keep_option keep_raise keep_guard entry keep_effect io put)
qed

text \<open>A name that is still to be drawn is not in use.\<close>

definition fresh_names :: "env \<Rightarrow> machine \<Rightarrow> bool" where
  "fresh_names env m \<longleftrightarrow> (\<forall>n \<ge> m_draw m. \<forall>prefix. m_anchor m (prefix @ hexname env n) = None)"

definition new_directory :: disk where
  "new_directory = \<lparr>d_db = None, d_kek = None, d_recovery = None, d_journal = False, d_rollback = False, d_trust = None,
     d_others = [], d_plain = True\<rparr>"

text \<open>The files a successful build leaves in a new directory.\<close>

definition built_from :: "recovery_env \<Rightarrow> (ustr \<times> json) list \<Rightarrow> ustr \<Rightarrow> disk \<Rightarrow> bool" where
  "built_from renv snapshot sk d \<longleftrightarrow>
     (\<exists>n k w. build_candidate renv snapshot sk (opened_at new_directory no_store n k) = (Inr (), w) \<and> w_disk w = d)"

text \<open>What the journal says of the candidate.\<close>

definition recorded :: "recovery_env \<Rightarrow> (ustr \<times> json) list \<Rightarrow> ustr \<Rightarrow> custody \<Rightarrow> entry \<Rightarrow> bool" where
  "recorded renv snapshot sk c built \<longleftrightarrow>
     well_named c \<and> (\<exists>i d. built = Directory i d \<and> j_identity c = identity_json i \<and> built_from renv snapshot sk d)"

lemma building_outcome:
  assumes p: "entry_at p m = Some (Directory i new_directory)"
    and run: "on_directory p (build_candidate renv snapshot sk) m = (r, m')"
  obtains d where "\<And>x. entry_at x m' = (if x = p then Some (Directory i d) else entry_at x m)"
    "m_inode m' = m_inode m" "r = Inr () \<Longrightarrow> built_from renv snapshot sk d"
proof -
  obtain w where w: "build_candidate renv snapshot sk (opened_at new_directory no_store (m_draw m) (m_io m)) = (r, w)"
    and m': "m' = (put_entry p (Some (Directory i (w_disk w))) m)\<lparr>m_draw := w_draw w, m_io := w_io w\<rparr>"
    using run p by (auto simp: on_directory_def opened_at_def split: prod.splits)
  show thesis
    by (rule that [of "w_disk w"]) (use w in \<open>auto simp: m' built_from_def\<close>)
qed

text \<open>The guarded part: the candidate is built and journaled, or there is no journal and the target is in place.\<close>

lemma prepare_body:
  assumes c: "c = \<lparr>j_candidate = lit ''candidate-'' @ hc, j_old = lit ''previous-'' @ ho, j_identity = identity_json i\<rparr>"
    and m: "untouched target m" "entry_at (Anchored (j_old c)) m = None"
      "entry_at (Anchored (j_candidate c)) m = Some (Directory i new_directory)"
    and run: "bindM (on_directory (Anchored (j_candidate c)) (build_candidate renv snapshot sk)) (\<lambda>_.
       bindM (fsync env) (\<lambda>_. bindM (fsync env) (\<lambda>_. bindM (liftM (lookup_field snapshot ''trust'')) (\<lambda>trust.
         journal env (journal_document digest c trust))))) m = (r, m')"
  shows "untouched target m' \<and> (\<exists>e. r = Inl e)
    \<or> (\<exists>d trust. built_from renv snapshot sk d \<and> lookup_field snapshot ''trust'' = Inr trust
         \<and> journaled (journal_document digest c trust) m' \<and> staged target c (Directory i d) m')"
  using run
proof (cases rule: bindM_cases)
  case (raised e)
  from building_outcome [OF m(3) raised(1)] obtain d where
    "\<And>x. entry_at x m' = (if x = Anchored (j_candidate c) then Some (Directory i d) else entry_at x m)" by blast
  with raised(2) m(1) show ?thesis by (auto simp: untouched_def c names_differ)
next
  case (went_on u m1)
  from building_outcome [OF m(3) went_on(1)] obtain d where
    m1: "\<And>x. entry_at x m1 = (if x = Anchored (j_candidate c) then Some (Directory i d) else entry_at x m)"
    and d: "built_from renv snapshot sk d" by auto
  have un: "untouched target v" if "\<And>x. entry_at x v = entry_at x m1" for v
    using m(1) by (simp add: untouched_def that m1 c names_differ)
  from went_on(2) show ?thesis
  proof (cases rule: bindM_cases)
    case (raised e)
    with un fsync_outcome [OF raised(1)] show ?thesis by blast
  next
    case (went_on u m2)
    note m2 = fsync_outcome [OF went_on(1)]
    from went_on(2) show ?thesis
    proof (cases rule: bindM_cases)
      case (raised e)
      with un [of m'] m2 fsync_outcome [OF raised(1)] show ?thesis by simp
    next
      case (went_on u m3)
      have m3: "entry_at x m3 = entry_at x m1" for x using m2 fsync_outcome [OF went_on(1)] by simp
      show ?thesis
      proof (cases "lookup_field snapshot ''trust''")
        case (Inl e)
        with went_on(2) un [OF m3] show ?thesis by auto
      next
        case (Inr trust)
        with went_on(2) have j: "journal env (journal_document digest c trust) m3 = (r, m')" by simp
        have "entry_at (Anchored PENDING) m3 = None" using un [OF m3] by (simp add: untouched_def)
        from j this show ?thesis
        proof (cases rule: journal_outcome)
          case (absent h)
          then have "untouched target m'" using un [OF m3] by (auto simp: untouched_def names_differ)
          moreover have "\<exists>e. r = Inl e" using absent(2) by (cases r) auto
          ultimately show ?thesis by blast
        next
          case (present h)
          have "staged target c (Directory i d) m'"
            using m(1,2) by (simp add: staged_def untouched_def present(1) m3 m1 c names_differ)
          with present(2) d Inr show ?thesis by blast
        qed
      qed
    qed
  qed
qed

lemma prepare_outcome:
  assumes ok: "env_ok (base renv)" and m: "untouched target m" "fresh_names (base renv) m"
    and run: "prepare_candidate renv snapshot sk digest m = (r, m')"
  shows "untouched target m' \<and> (\<exists>e. r = Inl e)
    \<or> (\<exists>c built trust. recorded renv snapshot sk c built \<and> j_identity c = identity_json (0, m_inode m)
         \<and> lookup_field snapshot ''trust'' = Inr trust \<and> journaled (journal_document digest c trust) m'
         \<and> staged target c built m' \<and> (r = Inr c \<or> (\<exists>e. r = Inl e)))"
proof -
  let ?env = "base renv"
  let ?hc = "hexname ?env (m_draw m)" and ?ho = "hexname ?env (Suc (m_draw m))" and ?i = "(0, m_inode m)"
  define c where "c = \<lparr>j_candidate = lit ''candidate-'' @ ?hc, j_old = lit ''previous-'' @ ?ho, j_identity = identity_json ?i\<rparr>"
  let ?m = "m\<lparr>m_draw := Suc (Suc (m_draw m))\<rparr>"
  have names: "well_named c" by (simp add: well_named_def c_def private_hexname [OF ok])
  have ji: "j_identity c = identity_json ?i" by (simp add: c_def)
  have rec: "recorded renv snapshot sk c (Directory ?i d)" if "built_from renv snapshot sk d" for d
    using that names ji unfolding recorded_def by blast
  have old: "entry_at (Anchored (j_old c)) m = None" using m(2) by (simp add: fresh_names_def c_def)
  let ?body = "bindM (on_directory (Anchored (j_candidate c)) (build_candidate renv snapshot sk)) (\<lambda>_.
       bindM (fsync ?env) (\<lambda>_. bindM (fsync ?env) (\<lambda>_. bindM (liftM (lookup_field snapshot ''trust'')) (\<lambda>trust.
         journal ?env (journal_document digest c trust)))))"
  obtain x m1 where create: "create_at ?env (Anchored (j_candidate c)) (\<lambda>i. Directory i new_directory) ?m = (x, m1)" by fastforce
  show ?thesis
  proof (cases x)
    case (Inl e)
    then have "r = Inl e" "m' = m1"
      using run create by (simp_all add: prepare_candidate_def bindM_def random_hex_run new_directory_def c_def Let_def)
    moreover have "untouched target m1" using create m(1)
      by (elim create_outcome) (auto simp: untouched_def c_def names_differ)
    ultimately show ?thesis by blast
  next
    case (Inr u)
    have m1: "entry_at y m1 = (if y = Anchored (j_candidate c) then Some (Directory ?i new_directory) else entry_at y m)" for y
      using create Inr by (auto elim!: create_outcome)
    obtain y m2 where body: "?body m1 = (y, m2)" by fastforce
    have "untouched target m1" "entry_at (Anchored (j_old c)) m1 = None"
      "entry_at (Anchored (j_candidate c)) m1 = Some (Directory ?i new_directory)"
      using m(1) old by (simp_all add: untouched_def m1) (simp_all add: c_def names_differ)
    from prepare_body [OF c_def this body] have o: "untouched target m2 \<and> (\<exists>e. y = Inl e)
      \<or> (\<exists>d trust. built_from renv snapshot sk d \<and> lookup_field snapshot ''trust'' = Inr trust
           \<and> journaled (journal_document digest c trust) m2 \<and> staged target c (Directory ?i d) m2)" .
    let ?handler = "\<lambda>e. if e = PowerLoss then raiseM e :: unit h
         else bindM (getM pending) (\<lambda>published.
              bindM (if published then returnM () else discard_unjournaled_candidate ?env (lit ''candidate-'' @ ?hc) ?i) (\<lambda>_. raiseM e))"
    have run': "bindM (catchM ?body ?handler) (\<lambda>_. returnM c) m1 = (r, m')"
      using run create Inr m1 [of "Anchored (j_candidate c)"]
      by (simp add: prepare_candidate_def new_directory_def c_def Let_def stat_identity_def)
    show ?thesis
    proof (cases y)
      case y: (Inr v)
      then have "r = Inr c" "m' = m2" using run' body by (simp_all add: catchM_def returnM_def)
      moreover have "\<not> (\<exists>e. y = Inl e)" using y by simp
      ultimately show ?thesis using o rec ji by blast
    next
      case y: (Inl e)
      obtain z m3 where h: "?handler e m2 = (z, m3)" by fastforce
      have "catchM ?body ?handler m1 = (z, m3)" using body y h by (simp add: catchM_def)
      moreover have z: "\<exists>e. z = Inl e" using h by (auto simp: bindM_def raiseM_def split: if_splits sum.splits prod.splits)
      ultimately have r: "\<exists>e. r = Inl e" "m' = m3" using run' by auto
      have pend: "pending m2 \<Longrightarrow> m3 = m2" using h by (auto simp: raiseM_def split: if_splits)
      have "keeps (untouched target) (?handler e)"
        using discard_keeps [of target ?env ?hc ?i] by (auto intro!: keep_rules simp: c_def)
      then have "untouched target m2 \<Longrightarrow> untouched target m3" using h by (rule keepsD)
      moreover have "journaled d m2 \<Longrightarrow> m3 = m2" for d using pend by (auto simp: pending_def journaled_def)
      ultimately show ?thesis using o rec ji r by blast
    qed
  qed
qed

subsection \<open>The anchor\<close>

lemma secure_outcome:
  assumes "secure_anchor env m = (r, m')"
  shows "m' = m \<or> (\<exists>k. m' = m\<lparr>m_io := k\<rparr>)
    \<or> last (m_path m) = Absent \<and> (\<exists>k. m' = m\<lparr>m_io := k, m_path := butlast (m_path m) @ [Component 0 (457 AND NOT (m_umask m))]\<rparr>)"
proof -
  let ?check = "bindM (getM (\<lambda>m. last (m_path m))) (\<lambda>node. bindM (liftM (safe_component node)) (\<lambda>_.
     case node of Component uid mode \<Rightarrow> guardM (mode AND 54 = 0) RecoveryError | _ \<Rightarrow> raiseM OSError))"
  have check: "m2 = m1" if "?check m1 = (x, m2)" for m1 m2 x
    using that by (auto simp: bindM_def m_defs split: sum.splits path_node.splits)
  show ?thesis
  proof (cases "\<exists>e. mapE safe_component (butlast (m_path m)) = Inl e")
    case True
    with assms show ?thesis by (auto simp: secure_anchor_def)
  next
    case False
    then obtain us where us: "mapE safe_component (butlast (m_path m)) = Inr us" by (metis sum.exhaust)
    show ?thesis
    proof (cases "last (m_path m) = Absent")
      case False
      with assms us check show ?thesis by (auto simp: secure_anchor_def)
    next
      case True
      with assms us have "bindM (effect env (\<lambda>v. v\<lparr>m_path := butlast (m_path m) @ [Component 0 (457 AND NOT (m_umask v))]\<rparr>)) (\<lambda>_. ?check) m = (r, m')"
        by (simp add: secure_anchor_def)
      then have "\<exists>x. effect env (\<lambda>v. v\<lparr>m_path := butlast (m_path m) @ [Component 0 (457 AND NOT (m_umask v))]\<rparr>) m = (x, m')"
        by (cases rule: bindM_cases) (use check in auto)
      then show ?thesis using True by (auto elim!: effect_outcome)
    qed
  qed
qed

lemma secure_entries: "secure_anchor env m = (r, m') \<Longrightarrow> entry_at x m' = entry_at x m \<and> m_draw m' = m_draw m \<and> m_inode m' = m_inode m"
  by (drule secure_outcome) auto

text \<open>The path leads to a directory of root's that is closed to others, or that is still to be made.\<close>

definition anchor_ready :: "machine \<Rightarrow> bool" where
  "anchor_ready m \<longleftrightarrow>
     m_path m \<noteq> [] \<and> list_all (\<lambda>node. safe_component node = Inr ()) (butlast (m_path m))
     \<and> (last (m_path m) = Absent \<or> (\<exists>mode. last (m_path m) = Component 0 mode \<and> mode AND 54 = 0))"

lemma closed_mode: "(mode :: int) AND 54 = 0 \<Longrightarrow> mode AND 18 = 0"
proof -
  assume "mode AND 54 = 0"
  then have "(mode AND 54) AND 18 = 0" by simp
  then show "mode AND 18 = 0" by (simp add: and.assoc)
qed

lemma made_mode: "(457 AND NOT u) AND 54 = (0 :: int)"
proof -
  have "(457 AND NOT u) AND 54 = NOT u AND (457 AND (54 :: int))" by (simp add: ac_simps)
  then show ?thesis by simp
qed

lemma mapE_safe: "list_all (\<lambda>node. safe_component node = Inr ()) xs \<Longrightarrow> mapE safe_component xs = Inr (map (\<lambda>_. ()) xs)"
  by (rule mapE_total) (simp add: list_all_iff)

lemma secure_calm:
  assumes "anchor_ready m" and "calm env (m_io m)"
  obtains m' where "secure_anchor env m = (Inr (), m')" "\<And>x. entry_at x m' = entry_at x m"
    "m_draw m' = m_draw m" "m_inode m' = m_inode m" "calm env (m_io m')"
proof -
  let ?check = "bindM (getM (\<lambda>m. last (m_path m))) (\<lambda>node. bindM (liftM (safe_component node)) (\<lambda>_.
     case node of Component uid mode \<Rightarrow> guardM (mode AND 54 = 0) RecoveryError | _ \<Rightarrow> raiseM OSError))"
  have check: "?check v = (Inr (), v)" if "last (m_path v) = Component 0 mode" "mode AND 54 = 0" for v mode
    using that closed_mode [OF that(2)] by (simp add: safe_component_def component_safe_def guardM_def)
  note safe = mapE_safe [of "butlast (m_path m)"]
  from assms(1) consider "last (m_path m) = Absent" | mode where "last (m_path m) = Component 0 mode" "mode AND 54 = 0"
    unfolding anchor_ready_def by blast
  then show thesis
  proof cases
    case 1
    let ?m = "m\<lparr>m_io := Suc (m_io m), m_path := butlast (m_path m) @ [Component 0 (457 AND NOT (m_umask m))]\<rparr>"
    have "secure_anchor env m = ?check ?m"
      using assms 1 safe by (simp add: secure_anchor_def anchor_ready_def effect_calm)
    also have "\<dots> = (Inr (), ?m)" by (rule check [OF _ made_mode]) simp
    finally show thesis using assms(2) by (intro that [of ?m]) (simp_all add: calmD)
  next
    case 2
    have "secure_anchor env m = ?check m" using assms(1) 2 safe by (simp add: secure_anchor_def anchor_ready_def)
    also have "\<dots> = (Inr (), m)" by (rule check [OF 2])
    finally show thesis using assms(2) by (intro that [of m]) simp_all
  qed
qed

subsection \<open>What every step of an import keeps\<close>

text \<open>A property of the machine that does not depend on its entries and survives numbering and making the anchor.\<close>

locale machine_invariant =
  fixes J :: "machine \<Rightarrow> bool"
  assumes put: "J m \<Longrightarrow> J (put_entry p e m)"
    and counters: "J m \<Longrightarrow> J (m\<lparr>m_io := n\<rparr>)" "J m \<Longrightarrow> J (m\<lparr>m_draw := n\<rparr>)"
    and inode: "J m \<Longrightarrow> J (m\<lparr>m_inode := m_inode m + 1\<rparr>)"
    and path: "J m \<Longrightarrow> J (m\<lparr>m_path := butlast (m_path m) @ [Component 0 (457 AND NOT (m_umask m))]\<rparr>)"
begin

lemma keeps_random: "keeps J (random_hex env)"
  by (simp add: keeps_def random_hex_def counters)

lemma keeps_effect: "(\<And>m. J m \<Longrightarrow> J (f m)) \<Longrightarrow> keeps J (effect env f)"
  by (rule keep_effect) (simp_all add: counters)

lemma keeps_fsync: "keeps J (fsync env)"
  unfolding fsync_def by (rule keeps_effect)

lemma keeps_create: "keeps J (create_at env p e)"
  unfolding create_at_def by (intro keep_bind keep_get keep_guard keeps_effect) (metis put inode put_entry_sel(3))

lemma keeps_rename: "keeps J (rename_absent env p q)"
  unfolding rename_absent_def by (intro keep_bind keep_get keep_guard keeps_effect put)

lemma keeps_replace: "keeps J (replace_document env a b)"
  unfolding replace_document_def by (intro keep_bind keep_get keep_guard keeps_effect put)

lemma keeps_journal: "keeps J (journal env document)"
  unfolding journal_def exclusive_document_def
  by (intro keep_bind keeps_random keeps_create keeps_replace keeps_fsync)

lemma keeps_directory: "keeps J (on_directory p operation)"
  by (rule keepsI) (auto simp: on_directory_def put counters split: option.splits entry.splits prod.splits)

lemma keeps_secure: "keeps J (secure_anchor env)"
proof (rule keepsI)
  fix m r m' assume "J m" and run: "secure_anchor env m = (r, m')"
  moreover have "m\<lparr>m_io := k, m_path := butlast (m_path m) @ [Component 0 (457 AND NOT (m_umask m))]\<rparr>
      = (m\<lparr>m_path := butlast (m_path m) @ [Component 0 (457 AND NOT (m_umask m))]\<rparr>)\<lparr>m_io := k\<rparr>" for k by simp
  ultimately show "J m'" using secure_outcome [OF run] by (elim disjE exE conjE) (simp_all only: counters path)
qed

lemma keeps_discard: "keeps J (discard_unjournaled_candidate env name i)"
proof -
  have entry: "keeps J (case e of Directory i d \<Rightarrow> f i d | File i c \<Rightarrow> raiseM OSError | Link l \<Rightarrow> raiseM OSError)"
    if "\<And>i d. keeps J (f i d)" for e and f :: "identity \<Rightarrow> disk \<Rightarrow> unit h"
    using that by (cases e) (simp_all add: keep_raise)
  show ?thesis unfolding discard_unjournaled_candidate_def
    by (intro keep_bind keep_get keep_option keep_raise keep_guard entry keeps_effect put)
qed

lemma keeps_prepare: "keeps J (prepare_candidate renv snapshot sk digest)"
  unfolding prepare_candidate_def Let_def
  by (intro keep_rules keeps_random keeps_create keeps_directory keeps_fsync keeps_journal keeps_discard)

lemma keeps_publish: "keeps J (publish env c sk)"
proof -
  have "keeps J (check_retained env old sk)" for old unfolding check_retained_def
    by (intro keep_rules keeps_directory keeps_rename keeps_random)
  moreover have "keeps J (publish_candidate env c)" unfolding publish_candidate_def
  proof (intro keep_bind keep_get)
    fix e
    show "keeps J (case e of Some (Directory i d) \<Rightarrow> bindM (guardM (identity_json i = j_identity c) RecoveryError) (\<lambda>_.
         bindM (guardM (d_plain d) RecoveryError) (\<lambda>_. bindM (fsync env) (\<lambda>_.
           rename_absent env (Anchored (j_candidate c)) Active))) | _ \<Rightarrow> raiseM OSError)"
      by (auto intro!: keep_rules keeps_fsync keeps_rename split: option.split entry.split)
  qed
  ultimately show ?thesis unfolding publish_def
    by (intro keep_rules keeps_rename)
qed

lemma keeps_import: "keeps J (import_archive renv archive passphrase sk)"
proof -
  have read: "keeps J (read_document p)" for p
    unfolding read_document_def
    by (intro keep_bind keep_get) (auto intro!: keep_rules split: option.split entry.split)
  show ?thesis unfolding import_archive_def Let_def
    by (intro keep_rules keeps_directory keeps_secure read keeps_prepare keeps_publish)
qed

end

interpretation ready: machine_invariant anchor_ready
proof
  show "anchor_ready m \<Longrightarrow> anchor_ready (m\<lparr>m_path := butlast (m_path m) @ [Component 0 (457 AND NOT (m_umask m))]\<rparr>)" for m
    using made_mode [of "m_umask m"] by (auto simp: anchor_ready_def)
qed (simp_all add: anchor_ready_def)

interpretation numbered: machine_invariant "\<lambda>m. k \<le> m_inode m" for k
  by unfold_locales simp_all

subsection \<open>Attempts\<close>

text \<open>
  Runs of the helper's \<open>import\<close> action, each on one of \<open>archives\<close> with its passphrase: the schedule of the
  environment decides how far each gets.
\<close>

inductive attempts :: "recovery_env \<Rightarrow> (bytes \<times> json) set \<Rightarrow> ustr \<Rightarrow> machine \<Rightarrow> machine \<Rightarrow> bool"
  for renv archives sk where
  none: "attempts renv archives sk m m"
| again: "attempts renv archives sk m m1 \<Longrightarrow> (archive, passphrase) \<in> archives \<Longrightarrow> fresh_names (base renv) m1 \<Longrightarrow>
    import_archive renv archive passphrase sk m1 = (r, m2) \<Longrightarrow> attempts renv archives sk m m2"

definition digest_of :: "recovery_env \<Rightarrow> bytes \<Rightarrow> ustr" where
  "digest_of renv archive = hex_of_bytes (sha256 (base renv) archive)"

text \<open>The journal of an archive, and the candidate it speaks of.\<close>

definition journal_of :: "recovery_env \<Rightarrow> ustr \<Rightarrow> entry option \<Rightarrow> bytes \<Rightarrow> json \<Rightarrow> custody \<Rightarrow> entry \<Rightarrow> json \<Rightarrow> bool" where
  "journal_of renv sk target archive passphrase c built document \<longleftrightarrow>
     (\<exists>snapshot trust. decrypt renv archive passphrase = Inr snapshot \<and> lookup_field snapshot ''trust'' = Inr trust
        \<and> recorded renv snapshot sk c built \<and> distinct_from target c \<and> document = journal_document (digest_of renv archive) c trust)"

definition importing :: "recovery_env \<Rightarrow> (bytes \<times> json) set \<Rightarrow> ustr \<Rightarrow> entry option \<Rightarrow> machine \<Rightarrow> bool" where
  "importing renv archives sk target m \<longleftrightarrow>
     untouched target m
     \<or> (\<exists>archive passphrase c built document. (archive, passphrase) \<in> archives
          \<and> journal_of renv sk target archive passphrase c built document \<and> in_custody target document c built m)"

text \<open>Inode numbers still to be given are not the target's.\<close>

definition numbers_above :: "entry option \<Rightarrow> int \<Rightarrow> bool" where
  "numbers_above target n \<longleftrightarrow> (\<forall>e i. target = Some e \<longrightarrow> own_identity e = Some i \<longrightarrow> snd i < n)"

lemma numbers_distinct:
  assumes "numbers_above target n" and "j_identity c = identity_json (0, n)"
  shows "distinct_from target c"
proof -
  have "map_option identity_json (own_identity e) \<noteq> Some (j_identity c)" if "target = Some e" for e
    using assms that by (cases "own_identity e") (auto simp: numbers_above_def identity_json_def)
  then show ?thesis by (simp add: distinct_from_def)
qed

lemma resume_journal:
  assumes "well_named c"
  shows "resume_custody digest' (journal_document digest c trust) = (if digest' = digest then Inr c else Inl RecoveryError)"
  using assms by (auto simp: resume_custody_def journal_document_def well_named_def lookup_field_def lit_def items_of_def)

lemma read_journaled: "journaled document m \<Longrightarrow> read_document (Anchored PENDING) m = (Inr document, m)"
  by (auto simp: journaled_def read_document_def returnM_def)

lemma journaled_exists: "journaled document m \<Longrightarrow> path_exists (entry_at (Anchored PENDING) m)"
  by (auto simp: journaled_def path_exists_def)

text \<open>The archive is opened and the anchor secured; then the journal is resumed or a candidate prepared.\<close>

lemma import_run:
  assumes "import_archive renv archive passphrase sk m = (r, m')"
  obtains (early) "\<And>x. entry_at x m' = entry_at x m" "\<exists>e. r = Inl e"
  | (on) snapshot m1 where "decrypt renv archive passphrase = Inr snapshot" "\<And>x. entry_at x m1 = entry_at x m"
      "m_draw m1 = m_draw m" "m_inode m1 = m_inode m"
      "bindM (if path_exists (entry_at (Anchored PENDING) m1)
              then bindM (read_document (Anchored PENDING)) (\<lambda>document. liftM (resume_custody (digest_of renv archive) document))
              else prepare_candidate renv snapshot sk (digest_of renv archive)) (\<lambda>custody.
       bindM (publish (base renv) custody sk) (\<lambda>_. liftM (lookup_field snapshot ''trust''))) m1 = (r, m')"
proof (cases "decrypt renv archive passphrase")
  case (Inl e)
  then show thesis using assms by (intro early) (auto simp: import_archive_def)
next
  case (Inr snapshot)
  let ?first = "if \<not> pending m \<and> path_exists (entry_at Active m)
      then bindM (guardM (case entry_at Active m of Some e \<Rightarrow> is_directory e | None \<Rightarrow> False) RecoveryError) (\<lambda>_.
             on_directory Active (empty_target (base renv) sk))
      else returnM ()"
  let ?rest = "bindM (getM (\<lambda>m. path_exists (m_anchor m PENDING))) (\<lambda>journaled.
     bindM (if journaled
            then bindM (read_document (Anchored PENDING)) (\<lambda>document. liftM (resume_custody (digest_of renv archive) document))
            else prepare_candidate renv snapshot sk (digest_of renv archive)) (\<lambda>custody.
     bindM (publish (base renv) custody sk) (\<lambda>_. liftM (lookup_field snapshot ''trust''))))"
  have lift: "bindM (liftM x) returnM = liftM x" for x :: "json res"
    by (cases x) (auto simp: fun_eq_iff bindM_def m_defs)
  have run: "bindM ?first (\<lambda>_. bindM (secure_anchor (base renv)) (\<lambda>_. ?rest)) m = (r, m')"
    using assms Inr unfolding digest_of_def by (simp add: import_archive_def Let_def lift)
  have first: "m1 = m" if "?first m = (x, m1)" for x m1
    using that checked_any by (auto simp: bindM_def guardM_def returnM_def split: if_splits)
  from run show thesis
  proof (cases rule: bindM_cases)
    case (raised e)
    with first show thesis by (intro early) blast+
  next
    case (went_on u m1)
    with first have "bindM (secure_anchor (base renv)) (\<lambda>_. ?rest) m = (r, m')" by blast
    then show thesis
    proof (cases rule: bindM_cases)
      case (raised e)
      with secure_entries [OF raised(1)] show thesis by (intro early) simp_all
    next
      case (went_on v m2)
      with secure_entries [OF went_on(1)] Inr show thesis by (intro on [of snapshot m2]) simp_all
    qed
  qed
qed

lemma publishing_step:
  assumes j: "journal_of renv sk target archive passphrase c built document" and m: "in_custody target document c built m"
    and run: "bindM (publish (base renv) c sk) (\<lambda>_. liftM x) m = (r, m')"
  shows "(in_custody target document c built m' \<or> untouched target m')
    \<and> (\<forall>y. r = Inr y \<longrightarrow> journaled document m' \<and> published target c built m')"
proof -
  from j obtain snapshot i d where n: "well_named c" "distinct_from target c" and b: "built = Directory i d" "j_identity c = identity_json i"
    by (auto simp: journal_of_def recorded_def)
  from run show ?thesis
  proof (cases rule: bindM_cases)
    case (raised e)
    with publish_outcome [OF n(1) m n(2) b raised(1)] show ?thesis by simp
  next
    case (went_on u m1)
    then have "m' = m1" by (simp add: liftM_def)
    with publish_outcome [OF n(1) m n(2) b went_on(1)] show ?thesis by simp
  qed
qed

lemma import_step:
  assumes ok: "env_ok (base renv)" and m: "importing renv archives sk target m" and a: "(archive, passphrase) \<in> archives"
    and f: "fresh_names (base renv) m" and n: "numbers_above target (m_inode m)"
    and run: "import_archive renv archive passphrase sk m = (r, m')"
  shows "importing renv archives sk target m'"
  using run
proof (cases rule: import_run)
  case early
  with m show ?thesis by (simp add: importing_def same_entries [OF early(1)])
next
  case (on snapshot m1)
  have f1: "fresh_names (base renv) m1" using f by (simp add: fresh_names_def on(2,3))
  have m1: "importing renv archives sk target m1" using m by (simp add: importing_def same_entries [OF on(2)])
  have prepared: "journal_of renv sk target archive passphrase c built (journal_document (digest_of renv archive) c trust)"
    if c: "recorded renv snapshot sk c built" "j_identity c = identity_json (0, m_inode m1)" "lookup_field snapshot ''trust'' = Inr trust"
    for c built trust
    using c on(1) numbers_distinct [OF n [folded on(4)] c(2)] by (auto simp: journal_of_def)
  show ?thesis
  proof (cases "untouched target m1")
    case True
    then have "\<not> path_exists (entry_at (Anchored PENDING) m1)" by (simp add: untouched_def path_exists_def)
    with on(5) have "bindM (prepare_candidate renv snapshot sk (digest_of renv archive)) (\<lambda>custody.
       bindM (publish (base renv) custody sk) (\<lambda>_. liftM (lookup_field snapshot ''trust''))) m1 = (r, m')" by simp
    then show ?thesis
    proof (cases rule: bindM_cases)
      case (raised e)
      from prepare_outcome [OF ok True f1 raised(1)] prepared a show ?thesis
        unfolding importing_def in_custody_def by blast
    next
      case (went_on c m2)
      from prepare_outcome [OF ok True f1 went_on(1)] obtain built trust where
        c: "recorded renv snapshot sk c built" "j_identity c = identity_json (0, m_inode m1)" "lookup_field snapshot ''trust'' = Inr trust"
        and s: "journaled (journal_document (digest_of renv archive) c trust) m2" "staged target c built m2" by auto
      note j = prepared [OF c]
      have "in_custody target (journal_document (digest_of renv archive) c trust) c built m2" using s by (simp add: in_custody_def)
      from publishing_step [OF j this went_on(2)] j a show ?thesis unfolding importing_def by blast
    qed
  next
    case False
    with m1 obtain archive' passphrase' c built document where a': "(archive', passphrase') \<in> archives"
      and j: "journal_of renv sk target archive' passphrase' c built document" and s: "in_custody target document c built m1"
      by (auto simp: importing_def)
    have jd: "journaled document m1" using s by (simp add: in_custody_def)
    from j obtain trust where d: "document = journal_document (digest_of renv archive') c trust" "well_named c"
      by (auto simp: journal_of_def recorded_def)
    have run1: "bindM (liftM (resume_custody (digest_of renv archive) document)) (\<lambda>custody.
        bindM (publish (base renv) custody sk) (\<lambda>_. liftM (lookup_field snapshot ''trust''))) m1 = (r, m')"
      using on(5) journaled_exists [OF jd] read_journaled [OF jd] by simp
    show ?thesis
    proof (cases "digest_of renv archive = digest_of renv archive'")
      case True
      with run1 d resume_journal [OF d(2)] have "bindM (publish (base renv) c sk) (\<lambda>_. liftM (lookup_field snapshot ''trust'')) m1 = (r, m')"
        by simp
      from publishing_step [OF j s this] j a' show ?thesis unfolding importing_def by blast
    next
      case False
      with run1 d resume_journal [OF d(2)] have "m' = m1" by auto
      with m1 show ?thesis by simp
    qed
  qed
qed

lemma attempts_invariant:
  assumes run: "attempts renv archives sk m m'" and ok: "env_ok (base renv)" and m: "untouched target m" "numbers_above target (m_inode m)"
  shows "importing renv archives sk target m' \<and> m_inode m \<le> m_inode m' \<and> (anchor_ready m \<longrightarrow> anchor_ready m')"
  using run m
proof induction
  case (none m)
  then show ?case by (simp add: importing_def)
next
  case (again m m1 archive passphrase r m2)
  then have i: "importing renv archives sk target m1" "m_inode m \<le> m_inode m1" "anchor_ready m \<longrightarrow> anchor_ready m1" by simp_all
  have "numbers_above target (m_inode m1)" using again.prems(2) i(2) by (fastforce simp: numbers_above_def)
  from import_step [OF ok i(1) again.hyps(2,3) this again.hyps(4)]
    keepsD [OF ready.keeps_import again.hyps(4)] keepsD [OF numbered.keeps_import again.hyps(4) i(2)] i(3)
  show ?case by blast
qed

subsection \<open>What was built\<close>

lemma exclusive_file_Inr:
  "exclusive_file env present create w = (Inr u, w') \<Longrightarrow> w' = w\<lparr>w_io := Suc (w_io w), w_disk := create (w_disk w)\<rparr>"
  by (auto simp: exclusive_file_def Let_def split: write_fault.splits if_splits)

lemma commit_Inr:
  "commit env view w = (Inr u, w') \<Longrightarrow> w' = w\<lparr>w_io := Suc (w_io w), w_disk := (w_disk w)\<lparr>d_db := Some view\<rparr>\<rparr>"
  by (auto simp: commit_def Let_def split: commit_fault.splits)

text \<open>A candidate that was written whole, whatever happened before, has the files of the snapshot.\<close>

lemma written_captured:
  assumes c: "captured renv master kek db d kek_file trust ids s" and sk: "master_key (base renv) sk = Inr target"
    and run: "write_candidate renv (canon_fields s) sk w = (Inr y, w')"
  shows "\<exists>nonce. length nonce = 12 \<and> w_disk w' = candidate_disk (w_disk w) (in_order db) kek_file
     (nonce @ aes_encrypt (base renv) target nonce master RECOVERY_MASTER_AAD) (canon trust)"
proof -
  note l = captured_lookups [OF c] and cd = capturedD [OF c]
  define nonce where "nonce = urandom (base renv) (w_draw w) 12"
  have ln: "length nonce = 12" by (simp add: nonce_def env_okD(3) [OF recovery_okD(1) [OF cd(1)]])
  have lt: "length target = 32" using sk env_okD(2) [OF recovery_okD(1) [OF cd(1)]]
    by (auto simp: master_key_def bindE_Inr_iff split: if_splits)
  have seal: "aes_seal (base renv) target nonce master RECOVERY_MASTER_AAD
      = Inr (aes_encrypt (base renv) target nonce master RECOVERY_MASTER_AAD)"
    using ln lt by (simp add: aes_seal_def aes_new_def aes_nonce_def)
  have "w_disk w' = candidate_disk (w_disk w) (in_order db) kek_file
     (nonce @ aes_encrypt (base renv) target nonce master RECOVERY_MASTER_AAD) (canon trust)"
    using run unfolding write_candidate_def create_tables_def
    by (simp add: l(1-5,7) decoded_def b64decode_b64encode cd(4,5) sk candidate_database_captured [OF cd(6,9), simplified] bindM_Inr_iff)
      (auto simp: nonce_def [symmetric] seal m_defs candidate_disk_def dest!: exclusive_file_Inr commit_Inr)
  with ln show ?thesis by blast
qed

lemma authenticate_disk:
  assumes "authenticate_candidate renv kek ids sk w = (r, w')"
  shows "w_disk w' = w_disk w"
proof -
  let ?d = "w_disk w"
  have disk: "keeps (\<lambda>w. w_disk w = ?d \<and> s_read_only (w_self w)) (catchM (lifecycle_counts (base renv) ids) (\<lambda>e. bindM close (\<lambda>_. raiseM e)))"
  proof (rule keepsI)
    fix v r v'
    assume v: "w_disk v = ?d \<and> s_read_only (w_self v)" and run: "catchM (lifecycle_counts (base renv) ids) (\<lambda>e. bindM close (\<lambda>_. raiseM e)) v = (r, v')"
    have "v = opened_at (w_disk v) (w_self v) (w_draw v) (w_io v)" by (simp add: opened_at_def)
    with counts_idle [of "w_self v" "base renv" ids "w_disk v"] v obtain x where "lifecycle_counts (base renv) ids v = (x, v)"
      unfolding idle_def by metis
    with run v show "w_disk v' = ?d \<and> s_read_only (w_self v')"
      by (cases x) (auto simp: catchM_def close_def m_defs)
  qed
  obtain x s where i: "init_store (base renv) sk True w = (x, opened_at ?d s (w_draw w) (w_io w))" "x = Inr () \<longrightarrow> s_read_only s"
  proof -
    have "w = opened_at ?d (w_self w) (w_draw w) (w_io w)" by (simp add: opened_at_def)
    with init_reads [of "base renv" sk ?d "w_self w"] show thesis using that by metis
  qed
  show ?thesis
  proof (cases x)
    case (Inl e)
    with i assms show ?thesis by (simp add: authenticate_candidate_def) auto
  next
    case (Inr u)
    let ?I = "\<lambda>w. w_disk w = ?d \<and> s_read_only (w_self w)"
    let ?rest = "bindM (catchM (lifecycle_counts (base renv) ids) (\<lambda>e. bindM close (\<lambda>_. raiseM e))) (\<lambda>_.
        bindM close (\<lambda>_. bindM (getM (d_kek \<circ> w_disk)) (\<lambda>file. bindM (guardM (file = Some kek) RecoveryError) (\<lambda>_. flush_files (base renv)))))"
    have k: "keeps ?I ?rest"
      by (intro keep_bind disk keep_get keep_guard)
        (auto simp: keeps_def close_def m_defs flush_files_def Let_def split: write_fault.split)
    have "?rest (opened_at ?d s (w_draw w) (w_io w)) = (r, w')"
      using assms i Inr unfolding authenticate_candidate_def by simp
    from keepsD [OF k this] have "?I w'" using i Inr by simp
    then show ?thesis by simp
  qed
qed

lemma built_captured:
  assumes c: "captured renv master kek db d kek_file trust ids s" and sk: "master_key (base renv) sk = Inr target"
    and b: "built_from renv (canon_fields s) sk f"
  shows "\<exists>nonce. length nonce = 12 \<and> f = candidate_disk new_directory (in_order db) kek_file
     (nonce @ aes_encrypt (base renv) target nonce master RECOVERY_MASTER_AAD) (canon trust)"
proof -
  from b obtain n k w where run: "build_candidate renv (canon_fields s) sk (opened_at new_directory no_store n k) = (Inr (), w)"
    and f: "w_disk w = f" by (auto simp: built_from_def)
  have e: "is_empty_directory new_directory" by (simp add: new_directory_def is_empty_directory_def)
  from run obtain y w1 where w1: "write_candidate renv (canon_fields s) sk (opened_at new_directory no_store n k) = (Inr y, w1)"
    and a: "authenticate_candidate renv (fst y) (snd y) sk w1 = (Inr (), w)"
    by (auto simp: build_candidate_def e captured_lookups(3,6) [OF c] catchM_def bindM_Inr_iff raiseM_def split: prod.splits sum.splits)
  from written_captured [OF c sk w1] authenticate_disk [OF a] f show ?thesis by simp
qed

subsection \<open>Completing an import\<close>

lemma fsync_calm: "calm env (m_io m) \<Longrightarrow> fsync env m = (Inr (), m\<lparr>m_io := Suc (m_io m)\<rparr>)"
  by (simp add: fsync_def effect_calm)

lemma create_calm:
  "calm env (m_io m) \<Longrightarrow> entry_at p m = None \<Longrightarrow> create_at env p e m
     = (Inr (), (put_entry p (Some (e (0, m_inode m))) (m\<lparr>m_io := Suc (m_io m)\<rparr>))\<lparr>m_inode := m_inode m + 1\<rparr>)"
  by (simp add: create_at_def effect_calm new_identity_def)

lemma replace_calm:
  "calm env (m_io m) \<Longrightarrow> entry_at (Anchored a) m = Some e \<Longrightarrow> entry_at (Anchored b) m = None \<Longrightarrow> replace_document env a b m
     = (Inr (), put_entry (Anchored a) None (put_entry (Anchored b) (Some e) (m\<lparr>m_io := Suc (m_io m)\<rparr>)))"
  by (simp add: replace_document_def effect_calm)

lemmas calm_runs = fsync_calm create_calm replace_calm rename_calm

text \<open>The target may be replaced: there is none, or it authenticates as an empty store.\<close>

definition replaceable :: "env \<Rightarrow> ustr \<Rightarrow> entry option \<Rightarrow> bool" where
  "replaceable env sk target \<longleftrightarrow> target = None \<or> (\<exists>i d. target = Some (Directory i d) \<and> verdict env sk d = Inr ())"

lemma publish_candidate_calm:
  assumes "calm env (m_io m)" and "entry_at Active m = None" and "entry_at (Anchored (j_candidate c)) m = Some (Directory i d)"
    and "j_identity c = identity_json i" and "d_plain d"
  shows "fst (publish_candidate env c m) = Inr ()"
  using assms by (simp add: publish_candidate_def calm_runs calmD)

lemma publish_aside_calm:
  assumes "calm env (m_io m)" and "set_aside target c (Directory i d) m" and "replaceable env sk target"
    and "j_identity c = identity_json i" and "d_plain d"
  shows "fst (bindM (check_retained env (j_old c) sk) (\<lambda>_. publish_candidate env c) m) = Inr ()"
proof -
  from assms(2,3) obtain j e where t: "entry_at (Anchored (j_old c)) m = Some (Directory j e)" "verdict env sk e = Inr ()"
    by (auto simp: set_aside_def replaceable_def)
  have "check_retained env (j_old c) sk m = (Inr (), m)"
    using checked_directory [OF t(1), of env sk] t by (simp add: check_retained_def path_exists_def catchM_def)
  with publish_candidate_calm [OF assms(1) _ _ assms(4,5)] assms(2) show ?thesis by (simp add: set_aside_def)
qed

lemma publish_calm:
  assumes n: "well_named c" "distinct_from target c" and m: "in_custody target document c (Directory i d) m"
    and id: "j_identity c = identity_json i" "d_plain d" and t: "replaceable env sk target" and calm: "calm env (m_io m)"
  shows "fst (publish env c sk m) = Inr ()"
proof -
  note apart = well_named_apart [OF n(1)]
  from m consider (staged) "staged target c (Directory i d) m" | (aside) "set_aside target c (Directory i d) m"
    | (published) "published target c (Directory i d) m" by (auto simp: in_custody_def)
  then show ?thesis
  proof cases
    case published
    then show ?thesis using id by (auto simp: publish_def published_def own_identity_def returnM_def)
  next
    case aside
    from publish_aside_calm [OF calm aside t id] aside show ?thesis by (simp add: publish_def set_aside_def)
  next
    case staged
    show ?thesis
    proof (cases target)
      case None
      with staged publish_candidate_calm [OF calm _ _ id] show ?thesis
        by (simp add: publish_def staged_def check_retained_none path_exists_def)
    next
      case (Some e)
      with t obtain j f where e: "e = Directory j f" by (auto simp: replaceable_def)
      let ?m = "put_entry Active None (put_entry (Anchored (j_old c)) (Some e) (m\<lparr>m_io := Suc (m_io m)\<rparr>))"
      have r: "rename_absent env Active (Anchored (j_old c)) m = (Inr (), ?m)"
        using staged Some by (intro rename_calm [OF calm]) (simp_all add: staged_def)
      have "set_aside target c (Directory i d) ?m" using staged Some e apart by (auto simp: staged_def set_aside_def)
      from publish_aside_calm [OF _ this t id] calm
      have "fst (bindM (check_retained env (j_old c) sk) (\<lambda>_. publish_candidate env c) ?m) = Inr ()" by (simp add: calmD)
      moreover have "identity_json j \<noteq> j_identity c" using n(2) Some e by (cases j) (simp add: distinct_from_def own_identity_def)
      ultimately show ?thesis
        using staged Some r e by (simp add: publish_def staged_def own_identity_def path_exists_def is_directory_def)
    qed
  qed
qed

lemma journal_calm:
  assumes "calm env (m_io m)" and "entry_at (Anchored (lit ''journal-'' @ hexname env (m_draw m))) m = None"
    and "entry_at (Anchored PENDING) m = None"
  shows "\<exists>m'. journal env document m = (Inr (), m') \<and> calm env (m_io m')"
  using assms by (simp add: journal_def exclusive_document_def calm_runs calmD names_differ)

lemma prepare_calm:
  assumes cap: "captured renv master kek db d kek_file trust ids s" and sk: "master_key (base renv) sk = Inr tm"
    and m: "untouched target m" "fresh_names (base renv) m" and calm: "calm (base renv) (m_io m)"
  shows "\<exists>c m'. prepare_candidate renv (canon_fields s) sk digest m = (Inr c, m') \<and> calm (base renv) (m_io m')"
proof -
  let ?env = "base renv"
  let ?cand = "Anchored (lit ''candidate-'' @ hexname ?env (m_draw m))"
  define c where "c = \<lparr>j_candidate = lit ''candidate-'' @ hexname ?env (m_draw m),
    j_old = lit ''previous-'' @ hexname ?env (Suc (m_draw m)), j_identity = identity_json (0, m_inode m)\<rparr>"
  have free: "entry_at (Anchored (prefix @ hexname ?env n)) m = None" if "m_draw m \<le> n" for n prefix
    using m(2) that by (simp add: fresh_names_def)
  let ?m0 = "m\<lparr>m_draw := Suc (Suc (m_draw m))\<rparr>"
  define m1 where "m1 = (put_entry ?cand (Some (Directory (0, m_inode m) new_directory)) (?m0\<lparr>m_io := Suc (m_io m)\<rparr>))\<lparr>m_inode := m_inode m + 1\<rparr>"
  have create: "create_at ?env ?cand (\<lambda>i. Directory i new_directory) ?m0 = (Inr (), m1)"
    using create_calm [of ?env ?m0 ?cand] calm free [of "m_draw m"] by (simp add: m1_def)
  have m1: "entry_at x m1 = (if x = ?cand then Some (Directory (0, m_inode m) new_directory) else entry_at x m)" for x
    by (simp add: m1_def)
  have "is_empty_directory new_directory" by (simp add: new_directory_def is_empty_directory_def)
  from build_captured [OF cap, of "opened_at new_directory no_store (m_draw m1) (m_io m1)" sk tm] sk this calm
  obtain v where v: "build_candidate renv (canon_fields s) sk (opened_at new_directory no_store (m_draw m1) (m_io m1)) = (Inr (), v)"
    "calm ?env (w_io v)" "w_draw v = Suc (m_draw m1)"
    by (auto simp: m1_def calmD)
  define m2 where "m2 = (put_entry ?cand (Some (Directory (0, m_inode m) (w_disk v))) m1)\<lparr>m_draw := w_draw v, m_io := w_io v\<rparr>"
  have build: "on_directory ?cand (build_candidate renv (canon_fields s) sk) m1 = (Inr (), m2)"
    using v(1) by (simp add: on_directory_def m1 opened_at_def m2_def)
  let ?m4 = "m2\<lparr>m_io := Suc (Suc (w_io v))\<rparr>"
  let ?n = "lit ''journal-'' @ hexname ?env (m_draw m2)"
  have m2: "entry_at x m2 = (if x = ?cand then Some (Directory (0, m_inode m) (w_disk v)) else entry_at x m)" for x
    by (simp add: m2_def m1)
  have "entry_at (Anchored ?n) m2 = None" "entry_at (Anchored PENDING) m2 = None"
    using m(1) free [of "m_draw m2"] v(3) by (simp_all add: m2 names_differ untouched_def) (simp add: m2_def m1_def)
  then have "\<exists>m5. journal ?env document ?m4 = (Inr (), m5) \<and> calm ?env (m_io m5)" for document
    using v(2) by (intro journal_calm) (simp_all add: calmD)
  then obtain m5 where j: "journal ?env (journal_document digest c (canon trust)) ?m4 = (Inr (), m5)" "calm ?env (m_io m5)" by blast
  have f: "fsync ?env m2 = (Inr (), m2\<lparr>m_io := Suc (w_io v)\<rparr>)" "fsync ?env (m2\<lparr>m_io := Suc (w_io v)\<rparr>) = (Inr (), ?m4)"
    using v(2) by (simp_all add: fsync_calm calmD m2_def)
  have "prepare_candidate renv (canon_fields s) sk digest m = (Inr c, m5)"
    using create [unfolded new_directory_def] build f j(1) captured_lookups(3) [OF cap] m1 [of ?cand]
    by (simp add: prepare_candidate_def Let_def stat_identity_def catchM_def c_def returnM_def)
  with j(2) show ?thesis by blast
qed

lemma publishing_calm:
  assumes cap: "captured renv master kek db d kek_file trust ids s" and sk: "master_key (base renv) sk = Inr tm"
    and dec: "decrypt renv archive passphrase = Inr (canon_fields s)"
    and j: "journal_of renv sk target archive passphrase c built document" and m: "in_custody target document c built m"
    and t: "replaceable (base renv) sk target" and calm: "calm (base renv) (m_io m)"
    and run: "bindM (publish (base renv) c sk) (\<lambda>_. liftM (lookup_field (canon_fields s) ''trust'')) m = (r, m')"
  shows "r = Inr (canon trust) \<and> (\<exists>i f. pending m' \<and> entry_at Active m' = Some (Directory i f) \<and> built_from renv (canon_fields s) sk f)"
proof -
  from j dec obtain i f where n: "well_named c" "distinct_from target c" and b: "built = Directory i f" "j_identity c = identity_json i"
    "built_from renv (canon_fields s) sk f" by (auto simp: journal_of_def recorded_def)
  have "d_plain f" using built_captured [OF cap sk b(3)] by (auto simp: candidate_disk_def new_directory_def)
  from publish_calm [OF n m [unfolded b(1)] b(2) this t calm] obtain m1 where p: "publish (base renv) c sk m = (Inr (), m1)"
    by (metis prod.collapse)
  with run captured_lookups(3) [OF cap] have r: "r = Inr (canon trust)" "m' = m1" by (simp_all add: liftM_def)
  from publish_outcome [OF n(1) m n(2) b(1,2) p] have "journaled document m1" "published target c built m1" by simp_all
  then show ?thesis using r b(1,3) by (auto simp: published_def pending_def journaled_def)
qed

lemma import_calm:
  assumes cap: "captured renv master kek db d kek_file trust ids s" and sk: "master_key (base renv) sk = Inr tm"
    and dec: "decrypt renv archive passphrase = Inr (canon_fields s)"
    and imp: "importing renv {(archive, passphrase)} sk target m" and f: "fresh_names (base renv) m" and n: "numbers_above target (m_inode m)"
    and ready: "anchor_ready m" and t: "replaceable (base renv) sk target" and calm: "calm (base renv) (m_io m)"
    and run: "import_archive renv archive passphrase sk m = (r, m')"
  shows "r = Inr (canon trust) \<and> (\<exists>i f. pending m' \<and> entry_at Active m' = Some (Directory i f) \<and> built_from renv (canon_fields s) sk f)"
proof -
  let ?env = "base renv"
  note ok = recovery_okD(1) [OF capturedD(1) [OF cap]]
  let ?first = "if \<not> pending m \<and> path_exists (entry_at Active m)
      then bindM (guardM (case entry_at Active m of Some e \<Rightarrow> is_directory e | None \<Rightarrow> False) RecoveryError) (\<lambda>_.
             on_directory Active (empty_target ?env sk))
      else returnM ()"
  have first: "?first m = (Inr (), m)"
  proof (cases "pending m")
    case False
    then have "entry_at Active m = target" using imp by (auto simp: importing_def untouched_def in_custody_def journaled_def pending_def)
    with t show ?thesis by (auto simp: replaceable_def path_exists_def returnM_def is_directory_def checked_directory)
  qed (simp add: returnM_def)
  obtain m1 where sec: "secure_anchor ?env m = (Inr (), m1)" and m1: "\<And>x. entry_at x m1 = entry_at x m"
    "m_draw m1 = m_draw m" "m_inode m1 = m_inode m" and calm1: "calm ?env (m_io m1)"
    by (rule secure_calm [OF ready calm]) blast
  let ?trust = "liftM (lookup_field (canon_fields s) ''trust'') :: json h"
  have lift: "bindM (liftM x) returnM = liftM x" for x :: "json res"
    by (cases x) (auto simp: fun_eq_iff bindM_def m_defs)
  have "bindM ?first (\<lambda>_. bindM (secure_anchor ?env) (\<lambda>_. bindM (getM (\<lambda>m. path_exists (m_anchor m PENDING))) (\<lambda>journaled.
     bindM (if journaled
            then bindM (read_document (Anchored PENDING)) (\<lambda>document. liftM (resume_custody (digest_of renv archive) document))
            else prepare_candidate renv (canon_fields s) sk (digest_of renv archive)) (\<lambda>custody.
     bindM (publish ?env custody sk) (\<lambda>_. ?trust))))) m = (r, m')"
    using run dec unfolding digest_of_def by (simp add: import_archive_def Let_def lift)
  then have run1: "bindM (if path_exists (entry_at (Anchored PENDING) m1)
            then bindM (read_document (Anchored PENDING)) (\<lambda>document. liftM (resume_custody (digest_of renv archive) document))
            else prepare_candidate renv (canon_fields s) sk (digest_of renv archive)) (\<lambda>custody.
     bindM (publish ?env custody sk) (\<lambda>_. ?trust)) m1 = (r, m')"
    unfolding bindM_run(1) [of ?first, OF first] by (simp add: sec)
  have f1: "fresh_names ?env m1" using f by (simp add: fresh_names_def m1)
  have imp1: "importing renv {(archive, passphrase)} sk target m1" using imp by (simp add: importing_def same_entries [OF m1(1)])
  show ?thesis
  proof (cases "untouched target m1")
    case True
    then have "\<not> path_exists (entry_at (Anchored PENDING) m1)" by (simp add: untouched_def path_exists_def)
    moreover obtain c m2 where p: "prepare_candidate renv (canon_fields s) sk (digest_of renv archive) m1 = (Inr c, m2)" "calm ?env (m_io m2)"
      using prepare_calm [OF cap sk True f1 calm1] by blast
    ultimately have run2: "bindM (publish ?env c sk) (\<lambda>_. ?trust) m2 = (r, m')" using run1 by simp
    from prepare_outcome [OF ok True f1 p(1)] obtain built t' where
      c: "recorded renv (canon_fields s) sk c built" "j_identity c = identity_json (0, m_inode m1)" "lookup_field (canon_fields s) ''trust'' = Inr t'"
      and s: "journaled (journal_document (digest_of renv archive) c t') m2" "staged target c built m2" by auto
    have j: "journal_of renv sk target archive passphrase c built (journal_document (digest_of renv archive) c t')"
      using c dec numbers_distinct [OF n [folded m1(3)] c(2)] by (auto simp: journal_of_def)
    have "in_custody target (journal_document (digest_of renv archive) c t') c built m2" using s by (simp add: in_custody_def)
    from publishing_calm [OF cap sk dec j this t p(2) run2] show ?thesis .
  next
    case False
    with imp1 obtain c built document where j: "journal_of renv sk target archive passphrase c built document"
      and s: "in_custody target document c built m1" by (auto simp: importing_def)
    have jd: "journaled document m1" using s by (simp add: in_custody_def)
    from j obtain t' where d: "document = journal_document (digest_of renv archive) c t'" "well_named c"
      by (auto simp: journal_of_def recorded_def)
    have "bindM (publish ?env c sk) (\<lambda>_. ?trust) m1 = (r, m')"
      using run1 journaled_exists [OF jd] read_journaled [OF jd] d resume_journal [OF d(2)] by simp
    from publishing_calm [OF cap sk dec j s t calm1 this] show ?thesis .
  qed
qed

subsection \<open>The start-up gate\<close>

lemma starts_iff:
  "fst (assert_startup_allowed env m) = Inr () \<longleftrightarrow>
     \<not> pending m
     \<or> (\<exists>f approval content i. m_anchor m APPROVED = Some (File f (Some approval)) \<and> m_config m = Some content
          \<and> stat_identity (m_active m) = Inr i \<and> approval_matches env approval content i = Inr True)"
proof (cases "pending m")
  case True
  let ?inner = "bindM (read_document (Anchored APPROVED)) (\<lambda>approval.
     bindM (bindM (getM m_active) (\<lambda>e. liftM (stat_identity e))) (\<lambda>active. bindM read_config (\<lambda>config.
       liftM (approval_matches env approval config active))))"
  let ?ok = "\<exists>f approval content i. m_anchor m APPROVED = Some (File f (Some approval)) \<and> m_config m = Some content
     \<and> stat_identity (m_active m) = Inr i \<and> approval_matches env approval content i = Inr True"
  have inner: "snd (?inner m) = m \<and> (fst (?inner m) = Inr True \<longleftrightarrow> ?ok)"
    by (auto simp: read_document_def read_config_def bindM_def m_defs split: option.splits entry.splits sum.splits)
  obtain x where x: "?inner m = (x, m)" using inner by (metis prod.collapse)
  show ?thesis
  proof (cases x)
    case (Inr b)
    then show ?thesis using True x inner by (cases b) (auto simp: assert_startup_allowed_def catchM_def guardM_def)
  next
    case (Inl e)
    have "fst (assert_startup_allowed env m) \<noteq> Inr ()"
      using True x Inl by (auto simp: assert_startup_allowed_def catchM_def guardM_def bindM_def m_defs)
    then show ?thesis using True x inner Inl by auto
  qed
qed (simp add: assert_startup_allowed_def returnM_def)

lemma approve_Inr:
  assumes "approve_import env approved m = (Inr (), m')"
  shows "\<exists>f h. (\<forall>x. x \<noteq> Anchored (lit ''approval-'' @ h) \<longrightarrow>
     entry_at x m' = (if x = Anchored APPROVED then Some (File f (Some approved)) else entry_at x m)) \<and> m_config m' = m_config m"
proof -
  let ?n = "lit ''approval-'' @ hexname env (m_draw m)"
  from assms obtain m1 m2 where c: "create_at env (Anchored ?n) (\<lambda>i. File i (Some approved)) (m\<lparr>m_draw := Suc (m_draw m)\<rparr>) = (Inr (), m1)"
    and r: "replace_document env ?n APPROVED m1 = (Inr (), m2)" and f: "fsync env m2 = (Inr (), m')"
    by (auto simp: approve_import_def exclusive_document_def bindM_Inr_iff)
  have c1: "entry_at x m1 = (if x = Anchored ?n then Some (File (0, m_inode m) (Some approved)) else entry_at x m)" for x
    using c by (auto elim!: create_outcome)
  from r have r1: "entry_at x m2 = (if x = Anchored ?n then None else if x = Anchored APPROVED then entry_at (Anchored ?n) m1 else entry_at x m1)" for x
    by (cases rule: replace_outcome) auto
  have "m_config m' = m_config m"
    using c r f by (auto simp: create_at_def replace_document_def fsync_def effect_def Let_def bindM_Inr_iff m_defs split: write_fault.splits if_splits)
  moreover have "entry_at x m' = (if x = Anchored APPROVED then Some (File (0, m_inode m) (Some approved)) else entry_at x m)"
    if "x \<noteq> Anchored ?n" for x
    using that fsync_outcome [OF f, of x] by (simp add: r1 c1 APPROVED_def lit_def)
  ultimately show ?thesis by blast
qed

text \<open>What a successful approval has found.\<close>

lemma authorize_Inr:
  assumes run: "authorize renv float_true now complete m = (Inr (), m')" and p: "pending m"
  obtains f document i trust content config expected observed enabled m1 where
    "m_anchor m PENDING = Some (File f (Some document))" "stat_identity (m_active m) = Inr i"
    "subscript document ''identity'' = Inr (JArr (identity_json i))" "subscript document ''trust'' = Inr trust"
    "m_config m = Some content" "json_loads_bytes (base renv) content = Inr config"
    "expected_graph renv float_true now trust = Inr expected" "observed_graph config = Inr observed" "same_dict expected observed"
    "subscript config ''enabled'' = Inr enabled" "truthy float_true enabled"
    "\<And>x. entry_at x m1 = entry_at x m" "m_config m1 = m_config m"
    "(if complete then complete_import (base renv) document
      else approve_import (base renv) (JObj [(lit ''config_sha256'', JStr (hex_of_bytes (sha256 (base renv) content))),
             (lit ''identity'', JArr (identity_json i))])) m1 = (Inr (), m')"
proof -
  from run obtain m1 where s: "secure_anchor (base renv) m = (Inr (), m1)" and rest: "bindM (getM pending) (\<lambda>is_pending.
     if \<not> is_pending then returnM ()
     else
       bindM (read_document (Anchored PENDING)) (\<lambda>journal_document.
       bindM (bindM (getM m_active) (\<lambda>e. liftM (stat_identity e))) (\<lambda>active.
       bindM (liftM (subscript journal_document ''identity'')) (\<lambda>recorded.
       bindM (guardM (recorded = JArr (identity_json active)) RecoveryError) (\<lambda>_.
       bindM (liftM (subscript journal_document ''trust'')) (\<lambda>trust.
       bindM read_config (\<lambda>content.
       bindM (liftM (json_loads_bytes (base renv) content)) (\<lambda>config.
       bindM (liftM (expected_graph renv float_true now trust)) (\<lambda>expected.
       bindM (liftM (observed_graph config)) (\<lambda>observed.
       bindM (guardM (same_dict expected observed) RecoveryError) (\<lambda>_.
       bindM (liftM (subscript config ''enabled'')) (\<lambda>enabled.
       bindM (guardM (truthy float_true enabled) RecoveryError) (\<lambda>_.
       bindM read_config (\<lambda>approved_content.
       if complete then complete_import (base renv) journal_document
       else approve_import (base renv)
              (JObj [(lit ''config_sha256'', JStr (hex_of_bytes (sha256 (base renv) approved_content))),
                     (lit ''identity'', JArr (identity_json active))]))))))))))))))) m1 = (Inr (), m')"
    unfolding authorize_def by (auto simp: bindM_Inr_iff)
  have e: "\<And>x. entry_at x m1 = entry_at x m" "m_config m1 = m_config m"
    using secure_entries [OF s] secure_outcome [OF s] by auto
  have "pending m1" using p e(1) by (simp add: pending_def)
  with rest obtain f document i trust content config expected observed enabled where
    o: "entry_at (Anchored PENDING) m = Some (File f (Some document))" "stat_identity (entry_at Active m) = Inr i"
      "subscript document ''identity'' = Inr (JArr (identity_json i))" "subscript document ''trust'' = Inr trust"
      "m_config m = Some content" "json_loads_bytes (base renv) content = Inr config"
      "expected_graph renv float_true now trust = Inr expected" "observed_graph config = Inr observed" "same_dict expected observed"
      "subscript config ''enabled'' = Inr enabled" "truthy float_true enabled"
    and last: "(if complete then complete_import (base renv) document
      else approve_import (base renv) (JObj [(lit ''config_sha256'', JStr (hex_of_bytes (sha256 (base renv) content))),
             (lit ''identity'', JArr (identity_json i))])) m1 = (Inr (), m')"
    by (auto simp: bindM_Inr_iff read_document_def read_config_def m_defs e or_raise_def split: option.splits entry.splits if_splits)
  show thesis by (rule that [OF _ _ o(3-11) e last]) (use o(1,2) in simp_all)
qed

subsection \<open>The properties\<close>

text \<open>
  C8: An import never replaces the active store silently. Start from any machine without a journal and run the
  import action any number of times, on any archives, each run cut off or failing at any effect: while there
  is no journal the entry that was active is active; while there is one, which keeps the service from
  starting, the former entry is active or is retained in the anchor, and what is active in its place is a
  directory built and authenticated from one of the archives, or nothing yet.
\<close>

theorem interrupted_import_gated:
  assumes ok: "env_ok (base renv)" and clean: "\<not> pending m" and numbers: "numbers_above (m_active m) (m_inode m)"
    and run: "attempts renv archives sk m m'"
  shows "m_active m' = m_active m
     \<or> pending m' \<and> (\<exists>name. m_anchor m' name = m_active m)
        \<and> (m_active m' = None
            \<or> (\<exists>archive passphrase snapshot i d. (archive, passphrase) \<in> archives \<and> decrypt renv archive passphrase = Inr snapshot
                 \<and> m_active m' = Some (Directory i d) \<and> built_from renv snapshot sk d))"
proof -
  let ?target = "entry_at Active m"
  have "untouched ?target m" using clean by (simp add: untouched_def pending_def)
  then have "importing renv archives sk ?target m'" using attempts_invariant [OF run ok, of ?target] numbers by simp
  then consider "untouched ?target m'"
    | archive passphrase c built document where "(archive, passphrase) \<in> archives"
        "journal_of renv sk ?target archive passphrase c built document" "in_custody ?target document c built m'"
    unfolding importing_def by blast
  then show ?thesis
  proof cases
    case 1
    then show ?thesis by (simp add: untouched_def)
  next
    case 2
    from 2(2) obtain snapshot i d where b: "decrypt renv archive passphrase = Inr snapshot" "built = Directory i d" "built_from renv snapshot sk d"
      by (auto simp: journal_of_def recorded_def)
    have p: "pending m'" using 2(3) by (auto simp: in_custody_def journaled_def pending_def)
    from 2(3) consider "staged ?target c built m'" | "set_aside ?target c built m'" | "published ?target c built m'"
      by (auto simp: in_custody_def)
    then show ?thesis
    proof cases
      case 1
      then show ?thesis by (simp add: staged_def)
    next
      case 2
      then have "entry_at Active m' = None" "entry_at (Anchored (j_old c)) m' = entry_at Active m" by (auto simp: set_aside_def)
      with p show ?thesis by auto
    next
      case 3
      then have "entry_at Active m' = Some (Directory i d)" "entry_at (Anchored (j_old c)) m' = entry_at Active m" by (auto simp: published_def b(2))
      with p b 2(1) show ?thesis by auto
    qed
  qed
qed

text \<open>
  C9: An interrupted import is completed by repeating it. Take the archive of a stopped store and a machine
  without a journal whose active entry is absent or an authenticated empty store, run the import of that
  archive any number of times with any failures and stops; then one more run in which no effect fails
  returns the archive's trust, leaves the journal for the approval, and makes a store active that holds
  exactly the exported keys and opens under this appliance's own credential.
\<close>

theorem interrupted_import_completes:
  assumes ok: "recovery_ok renv" and src: "stores (base renv) sk master kek M (False, w)"
    and exp: "export_store renv sk trust passphrase w = (Inr archive, w1)" and wf: "wf_json trust"
    and fl: "d_kek (w_disk w) = Some kek_file" "length kek_file \<le> 8192" and own: "master_key (base renv) sk' = Inr own_master"
    and clean: "\<not> pending m" and numbers: "numbers_above (m_active m) (m_inode m)" and ready: "anchor_ready m"
    and target: "replaceable (base renv) sk' (m_active m)"
    and run: "attempts renv {(archive, passphrase)} sk' m m'"
    and last: "fresh_names (base renv) m'" "calm (base renv) (m_io m')"
  shows "\<exists>m'' i d. import_archive renv archive passphrase sk' m' = (Inr (canon trust), m'') \<and> pending m''
     \<and> m_active m'' = Some (Directory i d) \<and> (\<forall>v. w_disk v = d \<longrightarrow> stores (base renv) sk' master kek M (False, v))"
proof -
  obtain db ids s where c: "captured renv master kek db (w_disk w) kek_file trust ids s" "contents (base renv) kek db = M"
    and de: "decrypt renv archive passphrase = Inr (canon_fields s)"
    by (rule exported_captured [OF ok src exp wf fl])
  let ?target = "entry_at Active m"
  have u: "untouched ?target m" "numbers_above ?target (m_inode m)" using clean numbers by (simp_all add: untouched_def pending_def)
  from attempts_invariant [OF run recovery_okD(1) [OF ok] u] ready
  have i: "importing renv {(archive, passphrase)} sk' ?target m'" "m_inode m \<le> m_inode m'" "anchor_ready m'" by simp_all
  have n: "numbers_above ?target (m_inode m')" using u(2) i(2) by (fastforce simp: numbers_above_def)
  have t: "replaceable (base renv) sk' ?target" using target by simp
  obtain r m'' where r: "import_archive renv archive passphrase sk' m' = (r, m'')" by fastforce
  from import_calm [OF c(1) own de i(1) last(1) n i(3) t last(2) r] obtain j f where
    o: "r = Inr (canon trust)" "pending m''" "entry_at Active m'' = Some (Directory j f)" and b: "built_from renv (canon_fields s) sk' f" by blast
  from built_captured [OF c(1) own b] obtain nonce where nl: "length nonce = 12" and f: "f = candidate_disk new_directory (in_order db) kek_file
     (nonce @ aes_encrypt (base renv) own_master nonce master RECOVERY_MASTER_AAD) (canon trust)" by blast
  have e: "is_empty_directory new_directory" by (simp add: new_directory_def is_empty_directory_def)
  have "stores (base renv) sk' master kek M (False, v)" if "w_disk v = f" for v
    using candidate_stores [OF c(1) that candidate_holds(1,2) [OF c(1) e own nl f]] c(2) by simp
  with r o show ?thesis by auto
qed

text \<open>
  C11: The approval of an import lifts the start-up gate for exactly what it has examined. It is only written when
  the journal names the active directory and the installed configuration grants access to just the providers
  and usable client certificates of the imported trust; from then on, while the journal is there, the service
  may start on a machine with this approval if and only if the configuration has the digest of the one
  examined and the active directory is the one examined.
\<close>

theorem approval_binds_start:
  assumes run: "authorize renv float_true now False m = (Inr (), m')" and p: "pending m"
    and later: "pending v" "m_anchor v APPROVED = m_anchor m' APPROVED"
  shows "\<exists>f document i trust content config expected observed.
     m_anchor m PENDING = Some (File f (Some document)) \<and> stat_identity (m_active m) = Inr i
     \<and> subscript document ''identity'' = Inr (JArr (identity_json i)) \<and> subscript document ''trust'' = Inr trust
     \<and> m_config m = Some content \<and> json_loads_bytes (base renv) content = Inr config
     \<and> expected_graph renv float_true now trust = Inr expected \<and> observed_graph config = Inr observed \<and> same_dict expected observed
     \<and> (fst (assert_startup_allowed (base renv) v) = Inr () \<longleftrightarrow>
          (\<exists>content'. m_config v = Some content' \<and> hex_of_bytes (sha256 (base renv) content') = hex_of_bytes (sha256 (base renv) content))
          \<and> stat_identity (m_active v) = Inr i)"
  using run p
proof (cases rule: authorize_Inr)
  case (1 f document i trust content config expected observed enabled m1)
  let ?approved = "JObj [(lit ''config_sha256'', JStr (hex_of_bytes (sha256 (base renv) content))), (lit ''identity'', JArr (identity_json i))]"
  from 1(14) have "approve_import (base renv) ?approved m1 = (Inr (), m')" by simp
  from approve_Inr [OF this] obtain g where a: "entry_at (Anchored APPROVED) m' = Some (File g (Some ?approved))"
    by (auto simp: APPROVED_def lit_def)
  have id: "identity_json i = identity_json j \<longleftrightarrow> i = j" for j by (cases i; cases j) (simp add: identity_json_def)
  have match: "approval_matches (base renv) ?approved content' j = Inr True \<longleftrightarrow>
      hex_of_bytes (sha256 (base renv) content') = hex_of_bytes (sha256 (base renv) content) \<and> j = i" for content' j
    using id [of j] by (auto simp: approval_matches_def subscript_def lookup_field_def lit_def)
  have "fst (assert_startup_allowed (base renv) v) = Inr () \<longleftrightarrow>
      (\<exists>content'. m_config v = Some content' \<and> hex_of_bytes (sha256 (base renv) content') = hex_of_bytes (sha256 (base renv) content))
      \<and> stat_identity (m_active v) = Inr i"
    unfolding starts_iff using later a match by (cases i) auto
  with 1 show ?thesis by blast
qed

subsection \<open>Concrete machines\<close>

definition demo_machine :: machine where
  "demo_machine = \<lparr>m_active = None, m_path = [Component 0 493, Absent], m_umask = 18, m_anchor = (\<lambda>name. None), m_config = None,
     m_inode = 7, m_draw = 0, m_io = 0\<rparr>"

lemma demo_machine_ready:
  "\<not> pending demo_machine" "numbers_above (m_active demo_machine) (m_inode demo_machine)" "anchor_ready demo_machine"
  "replaceable env sk (m_active demo_machine)" "fresh_names env demo_machine"
  by (simp_all add: demo_machine_def pending_def numbers_above_def anchor_ready_def replaceable_def fresh_names_def safe_component_def
      component_safe_def entry_at.simps del: entry_fold)

theorem interrupted_import_gated_witness:
  "\<exists>archive m'. fst (export_store demo_recovery demo_secret demo_trust demo_passphrase demo_world) = Inr archive
     \<and> attempts demo_recovery {(archive, demo_passphrase)} demo_secret demo_machine m' \<and> (m_active m' = None \<or> pending m')"
proof -
  from demo_export obtain archive w1 where e: "export_store demo_recovery demo_secret demo_trust demo_passphrase demo_world = (Inr archive, w1)"
    by blast
  obtain r m' where i: "import_archive demo_recovery archive demo_passphrase demo_secret demo_machine = (r, m')" by fastforce
  have a: "attempts demo_recovery {(archive, demo_passphrase)} demo_secret demo_machine m'"
    by (rule attempts.again [OF attempts.none _ demo_machine_ready(5) i]) simp
  have "m_active demo_machine = None" by (simp add: demo_machine_def del: entry_fold)
  with interrupted_import_gated [OF recovery_okD(1) [OF demo_recovery_ok] demo_machine_ready(1,2) a] a e show ?thesis by auto
qed

theorem interrupted_import_completes_witness:
  "\<exists>archive m'' i d. fst (export_store demo_recovery demo_secret demo_trust demo_passphrase demo_world) = Inr archive
     \<and> import_archive demo_recovery archive demo_passphrase demo_secret demo_machine = (Inr (canon demo_trust), m'')
     \<and> m_active m'' = Some (Directory i d)"
proof -
  have b: "base demo_recovery = demo_env" by (simp add: demo_recovery_def)
  from demo_export obtain archive w1 where e: "export_store demo_recovery demo_secret demo_trust demo_passphrase demo_world = (Inr archive, w1)"
    by blast
  have src: "stores demo_env demo_secret demo_master demo_kek Map.empty (False, demo_world)"
    using demo_master_of running_stopped [OF demo_running] by (simp add: stores_def)
  have mk: "master_key demo_env demo_secret = Inr demo_master"
    using demo_master_of by (auto simp: master_of_def demo_world_def recovery_master_def bindE_Inr_iff)
  have fl: "d_kek (w_disk demo_world) = Some demo_file" "length demo_file \<le> 8192"
    using demo_file_length by (simp_all add: demo_world_def)
  from interrupted_import_completes [OF demo_recovery_ok, unfolded b, OF src e demo_trust_wf fl mk demo_machine_ready(1-4) attempts.none
      demo_machine_ready(5) demo_calm] e show ?thesis by auto
qed

definition demo_granted :: json where
  "demo_granted = JObj [(lit ''enabled'', JBool True), (lit ''providers'', JArr [])]"

definition demo_journal :: json where
  "demo_journal = JObj [(lit ''identity'', JArr (identity_json (0, 7))), (lit ''trust'', demo_trust)]"

definition demo_imported :: machine where
  "demo_imported = \<lparr>m_active = Some (Directory (0, 7) new_directory), m_path = [Component 0 448], m_umask = 18,
     m_anchor = (\<lambda>name. if name = PENDING then Some (File (0, 9) (Some demo_journal)) else None),
     m_config = Some (map byte_of (dumps demo_granted)), m_inode = 10, m_draw = 0, m_io = 0\<rparr>"

lemma demo_granted_loads: "json_loads_bytes env (map byte_of (dumps demo_granted)) = Inr (canon demo_granted)"
proof -
  have wf: "wf_json demo_granted" by (simp add: demo_granted_def wf_json.simps lit_scalar_cong)
  have "json_text env (map byte_of (dumps demo_granted)) = Some (dumps demo_granted)"
    using wf_ints_ok [OF wf] unfolding demo_granted_def by (rule json_text_object)
  then show ?thesis using loads_dumps [OF wf] by (simp add: json_loads_bytes_def json_loads_def)
qed

lemma demo_graphs:
  "expected_graph demo_recovery float_true now demo_trust = Inr []" "observed_graph (canon demo_granted) = Inr []"
  "subscript (canon demo_granted) ''enabled'' = Inr (JBool True)"
  by (simp_all add: expected_graph_def demo_trust_def subscript_def lookup_field_def items_of_def iterated_def vcenters_by_id_def
      usable_fingerprints_def truthy_def sub_text_def text_of_def provider_fingerprint_list_def
      observed_graph_def demo_granted_def canon_object lit_def canon_fields_def)

lemma demo_authorized: "\<exists>m'. authorize demo_recovery (\<lambda>t. True) 0 False demo_imported = (Inr (), m')"
proof -
  have b: "base demo_recovery = demo_env" by (simp add: demo_recovery_def)
  let ?m = demo_imported
  have sec: "secure_anchor demo_env ?m = (Inr (), ?m)"
    by (simp add: demo_imported_def secure_anchor_def safe_component_def component_safe_def guardM_def)
  have r: "read_document (Anchored PENDING) ?m = (Inr demo_journal, ?m)" "pending ?m" "stat_identity (m_active ?m) = Inr (0, 7)"
    "read_config ?m = (Inr (map byte_of (dumps demo_granted)), ?m)"
    by (simp_all add: demo_imported_def read_document_def pending_def stat_identity_def read_config_def entry_at.simps m_defs or_raise_def
        del: entry_fold)
  have "entry_at (Anchored (lit ''approval-'' @ h)) ?m = None" "entry_at (Anchored APPROVED) ?m = None" for h
    by (simp_all add: demo_imported_def entry_at.simps PENDING_def APPROVED_def lit_def del: entry_fold)
  then have "\<exists>m'. approve_import demo_env approved ?m = (Inr (), m')" for approved
    by (simp add: approve_import_def exclusive_document_def calm_runs demo_calm APPROVED_def lit_def)
  moreover have "subscript demo_journal ''identity'' = Inr (JArr (identity_json (0, 7)))" "subscript demo_journal ''trust'' = Inr demo_trust"
    by (simp_all add: demo_journal_def subscript_def lookup_field_def lit_def)
  ultimately show ?thesis
    using sec r demo_granted_loads demo_graphs by (simp add: authorize_def b same_dict_def truthy_def)
qed

theorem approval_binds_start_witness:
  "\<exists>m' i. authorize demo_recovery (\<lambda>t. True) 0 False demo_imported = (Inr (), m') \<and> stat_identity (m_active demo_imported) = Inr i
     \<and> fst (assert_startup_allowed (base demo_recovery) m') = Inr ()"
proof -
  from demo_authorized obtain m' where a: "authorize demo_recovery (\<lambda>t. True) 0 False demo_imported = (Inr (), m')" by blast
  have p: "pending demo_imported" by (simp add: demo_imported_def pending_def entry_at.simps del: entry_fold)
  have "pending m' \<and> m_config m' = m_config demo_imported \<and> m_active m' = m_active demo_imported"
    using a p
  proof (cases rule: authorize_Inr)
    case (1 f document i trust content config expected observed enabled m1)
    from 1(14) have "approve_import (base demo_recovery) (JObj [(lit ''config_sha256'', JStr (hex_of_bytes (sha256 (base demo_recovery) content))),
        (lit ''identity'', JArr (identity_json i))]) m1 = (Inr (), m')" by simp
    from approve_Inr [OF this] 1(1,12,13) show ?thesis
      by (auto simp: pending_def) (auto simp: PENDING_def APPROVED_def lit_def)
  qed
  with approval_binds_start [OF a p, of m'] a show ?thesis by auto
qed

end
