(* ===== verification/Providers.thy ===== *)
theory Providers
  imports Config PublicCertificate
begin

text \<open>
  The control plane of the key providers (\<open>atlaso/app/services/vsphere_key_providers.py\<close>, with the paths
  of \<open>services/kms.py\<close> and the helpers of \<open>services/ca.py\<close> and \<open>services/dnsmasq.py\<close> it calls): the
  desired state in the database, its validation, and the configuration file the KMIP server reads.

  The tables are lists of rows; \<open>provider.trusted_vcenters\<close> and \<open>trusted.certificates\<close>, the relations of the
  object mapper, are the rows that name their owner. A time is an instant: \<open>_aware\<close> takes a time without
  zone as UTC. The clock is read once for each call of a function here.
\<close>

subsection \<open>The desired state\<close>

record key_provider =
  kp_id :: ustr
  kp_name :: ustr
  kp_description :: ustr
  kp_enabled :: bool
  kp_applied_at :: "int option"
  kp_updated_at :: int

record trusted_vcenter =
  tv_id :: ustr
  tv_provider_id :: ustr
  tv_name :: ustr
  tv_hostname :: ustr
  tv_description :: ustr
  tv_enabled :: bool

record trusted_certificate =
  tc_id :: ustr
  tc_trusted_vcenter_id :: ustr
  tc_fingerprint_sha256 :: ustr
  tc_certificate_pem :: ustr
  tc_subject :: ustr
  tc_issuer :: ustr
  tc_serial_number :: ustr
  tc_not_valid_before :: "int option"
  tc_not_valid_after :: "int option"
  tc_source :: ustr

record kms_tables =
  t_providers :: "key_provider list"
  t_vcenters :: "trusted_vcenter list"
  t_certificates :: "trusted_certificate list"

record kms_settings =
  ks_enabled :: bool
  ks_listen_address :: ustr
  ks_port :: int
  ks_hostname :: ustr
  ks_server_certificate :: ustr

definition trusted_vcenters :: "kms_tables \<Rightarrow> key_provider \<Rightarrow> trusted_vcenter list" where
  "trusted_vcenters db provider = filter (\<lambda>v. tv_provider_id v = kp_id provider) (t_vcenters db)"

definition vcenter_certificates :: "kms_tables \<Rightarrow> trusted_vcenter \<Rightarrow> trusted_certificate list" where
  "vcenter_certificates db trusted = filter (\<lambda>c. tc_trusted_vcenter_id c = tv_id trusted) (t_certificates db)"

text \<open>All providers, ordered by name.\<close>

definition provider_rows :: "kms_tables \<Rightarrow> key_provider list" where
  "provider_rows db = sort_key kp_name (t_providers db)"

subsection \<open>Names and addresses\<close>

text \<open>The labels of \<open>HOSTNAME_PATTERN\<close>, which \<open>fullmatch\<close> applies to the whole text.\<close>

definition label_char :: "nat \<Rightarrow> bool" where
  "label_char c \<longleftrightarrow> 97 \<le> c \<and> c \<le> 122 \<or> 48 \<le> c \<and> c \<le> 57"

definition dns_label :: "ustr \<Rightarrow> bool" where
  "dns_label s \<longleftrightarrow> s \<noteq> [] \<and> length s \<le> 63 \<and> label_char (hd s) \<and> label_char (last s) \<and> list_all (\<lambda>c. label_char c \<or> c = 45) s"

definition HOSTNAME_PATTERN :: "ustr \<Rightarrow> bool" where
  "HOSTNAME_PATTERN s \<longleftrightarrow> 1 \<le> length s \<and> length s \<le> 253 \<and> 2 \<le> length (split_on 46 s) \<and> list_all dns_label (split_on 46 s)"

text \<open>\<open>rstrip\<close>.\<close>

definition rstrip_chars :: "nat set \<Rightarrow> ustr \<Rightarrow> ustr" where
  "rstrip_chars cs s = rev (dropWhile (\<lambda>c. c \<in> cs) (rev s))"

definition normalize_service_hostname :: "py \<Rightarrow> ustr \<Rightarrow> ustr res" where
  "normalize_service_hostname py value =
     (let hostname = rstrip_chars {46} (casefold py (strip value)) in
      bindE (guardE (HOSTNAME_PATTERN hostname)
               (ValueError ''vSphere Key Provider hostname must be a valid fully qualified DNS name.'')) (\<lambda>_.
        Inr hostname))"

definition normalize_vcenter_hostname :: "py \<Rightarrow> ustr \<Rightarrow> ustr res" where
  "normalize_vcenter_hostname py value =
     (let hostname = rstrip_chars {46} (casefold py (strip value)) in
      if hostname = [] then Inr []
      else case ip_address hostname of
          Some a \<Rightarrow> Inr (ip_text a)
        | None \<Rightarrow>
            if HOSTNAME_PATTERN hostname then Inr hostname
            else Inl (ValueError ''Trusted vCenter hostname must be an IP address or valid fully qualified DNS name.''))"

definition ordered_unique :: "ustr list \<Rightarrow> ustr list" where
  "ordered_unique values = foldl (\<lambda>result v. if v \<noteq> [] \<and> v \<notin> set result then result @ [v] else result) [] values"

definition split_addresses :: "ustr \<Rightarrow> ustr list" where
  "split_addresses raw =
     (if raw = [] then []
      else ordered_unique (map strip (filter (\<lambda>item. strip item \<noteq> []) (splitlines (map (\<lambda>c. if c = 44 then 10 else c) raw)))))"

text \<open>Runs of characters outside \<open>A-Za-z0-9_.-\<close> become one hyphen.\<close>

definition safe_char :: "nat \<Rightarrow> bool" where
  "safe_char c \<longleftrightarrow> 65 \<le> c \<and> c \<le> 90 \<or> 97 \<le> c \<and> c \<le> 122 \<or> 48 \<le> c \<and> c \<le> 57 \<or> c = 95 \<or> c = 46 \<or> c = 45"

function sub_unsafe :: "ustr \<Rightarrow> ustr" where
  "sub_unsafe s =
     (case s of
        [] \<Rightarrow> []
      | c # t \<Rightarrow> if safe_char c then c # sub_unsafe t else 45 # sub_unsafe (dropWhile (\<lambda>c. \<not> safe_char c) t))"
  by pat_completeness auto
termination
  by (relation "measure length") (auto intro: le_imp_less_Suc length_dropWhile_le)

declare sub_unsafe.simps [simp del]

definition safe_certificate_name :: "env \<Rightarrow> ustr \<Rightarrow> ustr res" where
  "safe_certificate_name env value =
     (let safe = strip_chars {45} (sub_unsafe (strip value)) in
      if safe = [] then Inr (lit ''certificate'')
      else if length safe > 245
      then bindE (utf8 value) (\<lambda>encoded. Inr (take 180 safe @ [45] @ hex_of_bytes (sha256 env encoded)))
      else Inr safe)"

definition KMS_SERVER_CERT_BASE :: ustr where
  "KMS_SERVER_CERT_BASE = lit ''/etc/atlaso/kmip/certs''"

definition KMS_DEFAULT_DATABASE_PATH :: ustr where
  "KMS_DEFAULT_DATABASE_PATH = lit ''/var/lib/atlaso/kmip/store.db''"

definition KMS_DEFAULT_KEK_PATH :: ustr where
  "KMS_DEFAULT_KEK_PATH = lit ''/var/lib/atlaso/kmip/kek.json''"

definition kms_server_certificate_paths :: "env \<Rightarrow> ustr \<Rightarrow> ustr \<Rightarrow> (ustr \<times> ustr \<times> ustr) res" where
  "kms_server_certificate_paths env certificate_name digest =
     bindE (guardE (certificate_name \<noteq> [] \<and> list_all safe_char certificate_name
                    \<and> length digest = 64 \<and> list_all (\<lambda>c. c \<in> set HEX_DIGITS) digest)
              (ValueError ''KMS server certificate identity is invalid.'')) (\<lambda>_.
     bindE (if length certificate_name > 179
            then bindE (utf8 certificate_name) (\<lambda>encoded.
                   Inr (take 162 certificate_name @ [45] @ take 16 (hex_of_bytes (sha256 env encoded))))
            else Inr certificate_name) (\<lambda>name.
     let base = KMS_SERVER_CERT_BASE @ [47] @ name @ [45] @ digest in
       Inr (base @ lit ''.crt'', base @ lit ''.key'', base @ lit ''-chain.pem'')))"

subsection \<open>Certificates\<close>

definition certificate_status :: "int \<Rightarrow> trusted_certificate \<Rightarrow> ustr" where
  "certificate_status now certificate =
     (if (case tc_not_valid_before certificate of Some t \<Rightarrow> t > now | None \<Rightarrow> False) then lit ''not-yet-valid''
      else if (case tc_not_valid_after certificate of Some t \<Rightarrow> t \<le> now | None \<Rightarrow> False) then lit ''expired''
      else lit ''valid'')"

definition usable_certificates :: "int \<Rightarrow> kms_tables \<Rightarrow> trusted_vcenter \<Rightarrow> trusted_certificate list" where
  "usable_certificates now db trusted =
     filter (\<lambda>c. certificate_status now c = lit ''valid'') (vcenter_certificates db trusted)"

definition provider_requires_appliance_apply :: "key_provider \<Rightarrow> bool" where
  "provider_requires_appliance_apply provider \<longleftrightarrow>
     (case kp_applied_at provider of None \<Rightarrow> True | Some t \<Rightarrow> kp_updated_at provider > t)"

definition mark_provider_desired_changed :: "int \<Rightarrow> key_provider \<Rightarrow> key_provider" where
  "mark_provider_desired_changed now provider = provider\<lparr>kp_updated_at := now\<rparr>"

text \<open>One trusted vCenter of a provider: the messages and the owner of each fingerprint so far.\<close>

definition first_seen :: "'a list \<Rightarrow> 'a list" where
  "first_seen xs = foldl (\<lambda>r x. if x \<in> set r then r else r @ [x]) [] xs"

definition check_fingerprint ::
  "ustr \<Rightarrow> ustr list \<times> (ustr \<times> ustr) list \<Rightarrow> trusted_certificate \<Rightarrow> ustr list \<times> (ustr \<times> ustr) list" where
  "check_fingerprint provider_id state certificate =
     (let (errors, fingerprints) = state; f = tc_fingerprint_sha256 certificate in
      ((case map_of fingerprints f of
          Some previous \<Rightarrow>
            if previous \<noteq> [] \<and> previous \<noteq> provider_id
            then errors @ [lit ''A vCenter certificate fingerprint cannot be assigned across providers.''] else errors
        | None \<Rightarrow> errors),
       dict_put f provider_id fingerprints))"

definition check_vcenter ::
  "int \<Rightarrow> kms_tables \<Rightarrow> ustr \<Rightarrow> ustr list \<times> (ustr \<times> ustr) list \<Rightarrow> trusted_vcenter \<Rightarrow> ustr list \<times> (ustr \<times> ustr) list" where
  "check_vcenter now db provider_id state trusted =
     (let (errors, fingerprints) = state; usable = usable_certificates now db trusted;
          errors' = (if usable = []
                     then errors @ [lit ''Trusted vCenter '' @ tv_name trusted @ lit '' requires a current public client certificate.'']
                     else errors)
      in foldl (check_fingerprint provider_id) (errors', fingerprints) usable)"

definition check_provider ::
  "int \<Rightarrow> kms_tables \<Rightarrow> ustr list \<times> (ustr \<times> ustr) list \<Rightarrow> key_provider \<Rightarrow> ustr list \<times> (ustr \<times> ustr) list" where
  "check_provider now db state provider =
     foldl (check_vcenter now db (kp_id provider)) state (filter tv_enabled (trusted_vcenters db provider))"

definition validate_provider_state :: "int \<Rightarrow> kms_tables \<Rightarrow> key_provider list \<Rightarrow> ustr list" where
  "validate_provider_state now db providers = first_seen (fst (foldl (check_provider now db) ([], []) providers))"

subsection \<open>The server's configuration\<close>

definition normalize_provider_id :: "env \<Rightarrow> ustr \<Rightarrow> ustr res" where
  "normalize_provider_id env value =
     bindE (or_raise (ValueError ''badly formed hexadecimal UUID string'') (uuid_canon (uni env) value)) (\<lambda>normalized.
     bindE (guardE (value = normalized) (ValueError ''Provider ID must be a canonical UUID.'')) (\<lambda>_.
       Inr normalized))"

definition client_fingerprints :: "int \<Rightarrow> kms_tables \<Rightarrow> key_provider \<Rightarrow> ustr list" where
  "client_fingerprints now db provider =
     sort (remdups (map tc_fingerprint_sha256
       (concat (map (usable_certificates now db) (filter tv_enabled (trusted_vcenters db provider))))))"

definition rendered_provider :: "env \<Rightarrow> int \<Rightarrow> kms_tables \<Rightarrow> key_provider \<Rightarrow> json list res" where
  "rendered_provider env now db provider =
     (if \<not> kp_enabled provider then Inr []
      else let fingerprints = client_fingerprints now db provider in
        if fingerprints = [] then Inr []
        else bindE (normalize_provider_id env (kp_id provider)) (\<lambda>i.
          Inr [JObj [(lit ''id'', JStr i), (lit ''name'', JStr (kp_name provider)),
                     (lit ''client_fingerprints'', JArr (map JStr fingerprints)),
                     (lit ''client_certificate_paths'', JArr [])]]))"

definition config_document :: "kms_settings \<Rightarrow> ustr \<Rightarrow> ustr \<Rightarrow> json list \<Rightarrow> json" where
  "config_document settings certificate_path private_key_path rendered_providers =
     (let listen_addresses = split_addresses (ks_listen_address settings);
          rendered_listen_addresses =
            (if ks_enabled settings \<and> listen_addresses \<noteq> [] then listen_addresses else [lit ''127.0.0.1'']) in
      JObj [(lit ''schema_version'', JInt 1), (lit ''enabled'', JBool (ks_enabled settings)),
        (lit ''listen'', JObj [(lit ''addresses'', JArr (map JStr rendered_listen_addresses)), (lit ''port'', JInt (ks_port settings))]),
        (lit ''tls'', JObj [(lit ''certificate_path'', JStr certificate_path), (lit ''private_key_path'', JStr private_key_path),
           (lit ''ca_path'', JText ''/etc/atlaso/kmip/client-trust.pem'')]),
        (lit ''store'', JObj [(lit ''database_path'', JStr KMS_DEFAULT_DATABASE_PATH), (lit ''kek_path'', JStr KMS_DEFAULT_KEK_PATH)]),
        (lit ''limits'', JObj [(lit ''max_request_bytes'', JInt 1048576), (lit ''max_connections'', JInt 32),
           (lit ''idle_timeout_seconds'', JInt 30), (lit ''max_requests_per_connection'', JInt 128)]),
        (lit ''providers'', JArr rendered_providers), (lit ''interop_trace_path'', JText '''')])"

definition render_provider_config ::
  "env \<Rightarrow> int \<Rightarrow> kms_tables \<Rightarrow> kms_settings \<Rightarrow> key_provider list \<Rightarrow> ustr \<Rightarrow> ustr res" where
  "render_provider_config env now db settings providers server_fingerprint =
     bindE (safe_certificate_name env
              (if ks_server_certificate settings \<noteq> [] then ks_server_certificate settings else ks_hostname settings)) (\<lambda>certificate_name.
     bindE (if server_fingerprint \<noteq> []
            then bindE (kms_server_certificate_paths env certificate_name server_fingerprint) (\<lambda>(c, k, _). Inr (c, k))
            else Inr (KMS_SERVER_CERT_BASE @ [47] @ certificate_name @ lit ''.crt'',
                      KMS_SERVER_CERT_BASE @ [47] @ certificate_name @ lit ''.key'')) (\<lambda>(certificate_path, private_key_path).
     bindE (mapE (rendered_provider env now db) providers) (\<lambda>rendered.
       Inr (dumps_indented (config_document settings certificate_path private_key_path (concat rendered)) @ [10]))))"

text \<open>The anchors of the client handshake: each text once, in the order of their digests.\<close>

definition bundle_put :: "env \<Rightarrow> (ustr \<times> ustr) list \<Rightarrow> ustr \<Rightarrow> (ustr \<times> ustr) list res" where
  "bundle_put env pem_by_digest certificate_pem =
     (let pem = strip certificate_pem @ [10] in
      bindE (utf8 pem) (\<lambda>encoded. Inr (dict_put (hex_of_bytes (sha256 env encoded)) pem pem_by_digest)))"

definition render_client_trust_bundle :: "env \<Rightarrow> int \<Rightarrow> kms_tables \<Rightarrow> ustr option \<Rightarrow> key_provider list \<Rightarrow> ustr res" where
  "render_client_trust_bundle env now db root_certificate_pem providers =
     (let pems = (case root_certificate_pem of Some pem \<Rightarrow> if pem \<noteq> [] then [pem] else [] | None \<Rightarrow> [])
            @ filter (\<lambda>pem. pem \<noteq> []) (map tc_certificate_pem
                (concat (map (\<lambda>provider. concat (map (usable_certificates now db) (filter tv_enabled (trusted_vcenters db provider))))
                   (filter kp_enabled providers)))) in
      bindE (foldE (bundle_put env) [] pems) (\<lambda>pem_by_digest.
        Inr (concat (map snd (sort_key fst pem_by_digest)))))"

subsection \<open>The reported state\<close>

datatype runtime_counts = Counts (pre_active: int) (active: int) (total: int)

record runtime_status =
  rs_status :: ustr
  rs_runtime_state :: ustr
  rs_store_status :: ustr
  rs_providers :: "(ustr \<times> runtime_counts) list"

definition unavailable :: runtime_status where
  "unavailable = \<lparr>rs_status = lit ''not-reported'', rs_runtime_state = lit ''not-reported'',
     rs_store_status = lit ''not-reported'', rs_providers = []\<rparr>"

definition count_value :: "(ustr \<times> json) list \<Rightarrow> string \<Rightarrow> int option" where
  "count_value counts name = (case map_of counts (lit name) of Some (JInt i) \<Rightarrow> if i < 0 then None else Some i | _ \<Rightarrow> None)"

definition provider_counts :: "env \<Rightarrow> (ustr \<times> runtime_counts) list \<Rightarrow> ustr \<times> json \<Rightarrow> (unit, (ustr \<times> runtime_counts) list) sum" where
  "provider_counts env providers item =
     (case uuid_canon (uni env) (fst item) of
        None \<Rightarrow> Inl ()
      | Some normalized_id \<Rightarrow>
          (case snd item of
             JObj counts \<Rightarrow>
               (case (count_value counts ''pre_active'', count_value counts ''active'', count_value counts ''total'') of
                  (Some p, Some a, Some t) \<Rightarrow>
                    if p + a \<noteq> t then Inl () else Inr (dict_put normalized_id (Counts p a t) providers)
                | _ \<Rightarrow> Inl ())
           | _ \<Rightarrow> Inl ()))"

text \<open>\<open>str(value or "not-reported")\<close>; the truth of a float is the interpreter's.\<close>

definition text_or_not_reported :: "py \<Rightarrow> (ustr \<Rightarrow> bool) \<Rightarrow> json option \<Rightarrow> ustr" where
  "text_or_not_reported py float_true v =
     (case v of
        None \<Rightarrow> lit ''not-reported''
      | Some x \<Rightarrow>
          if truthy float_true x then py_str py x else lit ''not-reported'')"

text \<open>
  The result of the helper is its exit status and what \<open>json.loads\<close> makes of its output; of what that raises,
  only the \<open>JSONDecodeError\<close> and the \<open>TypeError\<close> are caught. A document whose status is no text is refused by the comparison or, for a list or a dictionary, by hashing it: a
  \<open>TypeError\<close> that is not caught.
\<close>

definition runtime_status_snapshot :: "py \<Rightarrow> (ustr \<Rightarrow> bool) \<Rightarrow> env \<Rightarrow> int \<Rightarrow> json res \<Rightarrow> runtime_status res" where
  "runtime_status_snapshot py float_true env returncode stdout =
     (if returncode \<noteq> 0 then Inr unavailable
      else case stdout of
          Inl (JSONDecodeError m) \<Rightarrow> Inr unavailable
        | Inl TypeError \<Rightarrow> Inr unavailable
        | Inl e \<Rightarrow> Inl e
        | Inr (JObj payload) \<Rightarrow>
            (case map_of payload (lit ''status'') of
               Some (JStr status) \<Rightarrow>
                 if status \<noteq> lit ''available'' \<and> status \<noteq> lit ''not-reported'' then Inr unavailable
                 else (case map_of payload (lit ''providers'') of
                     Some (JObj provider_values) \<Rightarrow>
                       (case foldE (provider_counts env) [] provider_values of
                          Inl _ \<Rightarrow> Inr unavailable
                        | Inr providers \<Rightarrow>
                            Inr \<lparr>rs_status = status, rs_runtime_state = text_or_not_reported py float_true (map_of payload (lit ''runtime_state'')),
                                 rs_store_status = text_or_not_reported py float_true (map_of payload (lit ''store_status'')),
                                 rs_providers = providers\<rparr>)
                   | _ \<Rightarrow> Inr unavailable)
             | Some (JArr xs) \<Rightarrow> Inl TypeError
             | Some (JObj d) \<Rightarrow> Inl TypeError
             | _ \<Rightarrow> Inr unavailable)
        | Inr v \<Rightarrow> Inr unavailable)"

definition authenticated_provider_counts :: "runtime_status \<Rightarrow> ustr \<Rightarrow> runtime_counts option" where
  "authenticated_provider_counts snapshot provider_id =
     (if rs_status snapshot \<noteq> lit ''available'' then None
      else case map_of (rs_providers snapshot) provider_id of
          Some counts \<Rightarrow> Some counts
        | None \<Rightarrow>
            if rs_store_status snapshot \<in> {lit ''authenticated'', lit ''healthy'', lit ''empty''} then Some (Counts 0 0 0) else None)"

end
