(* ===== verification/ProviderTrust.thy ===== *)
theory ProviderTrust
  imports Providers RecoveryRuntime
begin

text \<open>
  Recovery as the control plane runs it (\<open>atlaso/app/services/kmip_recovery.py\<close>): the public trust document of
  the database, the request to the privileged helper, and the import that enters the trust an archive holds
  into an empty database, disabled.

  The helper is an argument: what the adapter reports for an action and its payload. The session's \<open>flush\<close>
  writes the pending rows under the constraints of the tables (\<open>atlaso/app/models.py\<close>): primary keys,
  unique columns and foreign keys; \<open>rollback\<close> restores the tables of the transaction's start.
\<close>

subsection \<open>The public trust\<close>

definition provider_document :: "key_provider \<Rightarrow> json" where
  "provider_document p = JObj [(lit ''id'', JStr (kp_id p)), (lit ''name'', JStr (kp_name p)),
     (lit ''description'', JStr (kp_description p)), (lit ''enabled'', JBool (kp_enabled p))]"

definition vcenter_document :: "trusted_vcenter \<Rightarrow> json" where
  "vcenter_document v = JObj [(lit ''id'', JStr (tv_id v)), (lit ''provider_id'', JStr (tv_provider_id v)),
     (lit ''name'', JStr (tv_name v)), (lit ''hostname'', JStr (tv_hostname v)), (lit ''description'', JStr (tv_description v)),
     (lit ''enabled'', JBool (tv_enabled v))]"

definition certificate_document :: "trusted_certificate \<Rightarrow> json" where
  "certificate_document c = JObj [(lit ''id'', JStr (tc_id c)), (lit ''trusted_vcenter_id'', JStr (tc_trusted_vcenter_id c)),
     (lit ''certificate_pem'', JStr (tc_certificate_pem c)), (lit ''fingerprint_sha256'', JStr (tc_fingerprint_sha256 c))]"

definition public_trust :: "kms_tables \<Rightarrow> json" where
  "public_trust db = JObj [(lit ''providers'', JArr (map provider_document (sort_key kp_id (t_providers db)))),
     (lit ''vcenters'', JArr (map vcenter_document (sort_key tv_id (t_vcenters db)))),
     (lit ''certificates'', JArr (map certificate_document (sort_key tc_id (t_certificates db))))]"

subsection \<open>The helper\<close>

record helper_result =
  hr_dry_run :: bool
  hr_returncode :: int
  hr_stdout :: "json res"

type_synonym helper = "string \<Rightarrow> json \<Rightarrow> helper_result"

definition request :: "helper \<Rightarrow> string \<Rightarrow> json \<Rightarrow> (ustr \<times> json) list res" where
  "request helper action payload =
     (let result = helper action payload in
      if hr_dry_run result \<or> hr_returncode result \<noteq> 0 then Inl RecoveryError
      else case hr_stdout result of
          Inr (JObj response) \<Rightarrow> Inr response
        | Inr v \<Rightarrow> Inl RecoveryError
        | Inl e \<Rightarrow> if is_value_error e then Inl RecoveryError else Inl e)"

text \<open>Writer admission: busy, or held to the end of the transaction.\<close>

definition admit :: "bool \<Rightarrow> unit res" where
  "admit busy = guardE (\<not> busy) RecoveryError"

definition export_archive :: "helper \<Rightarrow> bool \<Rightarrow> kms_tables \<Rightarrow> ustr \<Rightarrow> bytes res" where
  "export_archive helper busy db passphrase =
     bindE (admit busy) (\<lambda>_.
     bindE (request helper ''recovery-export'' (JObj [(lit ''passphrase'', JStr passphrase), (lit ''trust'', public_trust db)])) (\<lambda>result.
     catchE
       (bindE (bindE (lookup_field result ''archive'') decoded) (\<lambda>archive.
        bindE (guardE (length archive \<le> MAX_ARCHIVE_BYTES) (ValueError '''')) (\<lambda>_.
          Inr archive)))
       (\<lambda>e. Inl (if e = KeyError \<or> is_value_error e \<or> e = TypeError then RecoveryError else e))))"

subsection \<open>The tables\<close>

text \<open>The constraints of the three tables.\<close>

definition constraints_hold :: "kms_tables \<Rightarrow> bool" where
  "constraints_hold db \<longleftrightarrow>
     distinct (map kp_id (t_providers db)) \<and> distinct (map kp_name (t_providers db))
     \<and> distinct (map tv_id (t_vcenters db)) \<and> distinct (map (\<lambda>v. (tv_provider_id v, tv_name v)) (t_vcenters db))
     \<and> list_all (\<lambda>v. tv_provider_id v \<in> kp_id ` set (t_providers db)) (t_vcenters db)
     \<and> distinct (map tc_id (t_certificates db)) \<and> distinct (map tc_fingerprint_sha256 (t_certificates db))
     \<and> list_all (\<lambda>c. tc_trusted_vcenter_id c \<in> tv_id ` set (t_vcenters db)) (t_certificates db)"

text \<open>SQLite takes Unicode text only.\<close>

definition texts_bind :: "kms_tables \<Rightarrow> bool" where
  "texts_bind db \<longleftrightarrow>
     list_all (\<lambda>p. list_all (list_all is_scalar) [kp_id p, kp_name p, kp_description p]) (t_providers db)
     \<and> list_all (\<lambda>v. list_all (list_all is_scalar) [tv_id v, tv_provider_id v, tv_name v, tv_hostname v, tv_description v]) (t_vcenters db)
     \<and> list_all (\<lambda>c. list_all (list_all is_scalar) [tc_id c, tc_trusted_vcenter_id c, tc_fingerprint_sha256 c, tc_certificate_pem c,
          tc_subject c, tc_issuer c, tc_serial_number c, tc_source c]) (t_certificates db)"

definition flush :: "kms_tables \<Rightarrow> kms_tables res" where
  "flush db =
     bindE (guardE (texts_bind db) UnicodeEncodeError) (\<lambda>_.
     bindE (guardE (constraints_hold db) IntegrityError) (\<lambda>_.
       Inr db))"

subsection \<open>Importing\<close>

text \<open>A row of the document becomes a row of the table; the trust arrives disabled.\<close>

definition recovered_provider :: "int \<Rightarrow> json \<Rightarrow> key_provider res" where
  "recovered_provider now row =
     bindE (sub_text row ''id'') (\<lambda>i. bindE (sub_text row ''name'') (\<lambda>n. bindE (sub_text row ''description'') (\<lambda>d.
       Inr \<lparr>kp_id = i, kp_name = n, kp_description = d, kp_enabled = False, kp_applied_at = None, kp_updated_at = now\<rparr>)))"

definition recovered_vcenter :: "json \<Rightarrow> trusted_vcenter res" where
  "recovered_vcenter row =
     bindE (sub_text row ''id'') (\<lambda>i. bindE (sub_text row ''provider_id'') (\<lambda>p. bindE (sub_text row ''name'') (\<lambda>n.
     bindE (sub_text row ''hostname'') (\<lambda>h. bindE (sub_text row ''description'') (\<lambda>d.
       Inr \<lparr>tv_id = i, tv_provider_id = p, tv_name = n, tv_hostname = h, tv_description = d, tv_enabled = False\<rparr>)))))"

definition recovered_certificate :: "recovery_env \<Rightarrow> json \<Rightarrow> trusted_certificate res" where
  "recovered_certificate renv row =
     bindE (sub_text row ''certificate_pem'') (\<lambda>pem.
     bindE (parse_public_certificate (load_pem renv) None pem) (\<lambda>parsed.
     bindE (sub_text row ''id'') (\<lambda>i. bindE (sub_text row ''trusted_vcenter_id'') (\<lambda>v. bindE (sub_text row ''fingerprint_sha256'') (\<lambda>f.
       Inr \<lparr>tc_id = i, tc_trusted_vcenter_id = v, tc_fingerprint_sha256 = f, tc_certificate_pem = pem,
            tc_subject = pc_subject parsed, tc_issuer = pc_issuer parsed, tc_serial_number = pc_serial_number parsed,
            tc_not_valid_before = Some (pc_not_valid_before parsed), tc_not_valid_after = Some (pc_not_valid_after parsed),
            tc_source = lit ''uploaded_public''\<rparr>)))))"

definition recovered_rows :: "json \<Rightarrow> string \<Rightarrow> json list res" where
  "recovered_rows trust kind = bindE (subscript trust kind) items_of"

definition enter_trust :: "recovery_env \<Rightarrow> int \<Rightarrow> json \<Rightarrow> kms_tables \<Rightarrow> kms_tables res" where
  "enter_trust renv now trust db =
     bindE (bindE (recovered_rows trust ''providers'') (mapE (recovered_provider now))) (\<lambda>ps.
     bindE (flush (db\<lparr>t_providers := t_providers db @ ps\<rparr>)) (\<lambda>db1.
     bindE (bindE (recovered_rows trust ''vcenters'') (mapE recovered_vcenter)) (\<lambda>vs.
     bindE (flush (db1\<lparr>t_vcenters := t_vcenters db1 @ vs\<rparr>)) (\<lambda>db2.
     bindE (bindE (recovered_rows trust ''certificates'') (mapE (recovered_certificate renv))) (\<lambda>cs.
       flush (db2\<lparr>t_certificates := t_certificates db2 @ cs\<rparr>))))))"

definition import_trust ::
  "recovery_env \<Rightarrow> int \<Rightarrow> helper \<Rightarrow> bool \<Rightarrow> bytes \<Rightarrow> ustr \<Rightarrow> kms_tables \<Rightarrow> unit res \<times> kms_tables" where
  "import_trust renv now helper busy archive passphrase db =
     (case
        bindE (guardE (length archive \<le> MAX_ARCHIVE_BYTES) RecoveryError) (\<lambda>_.
        bindE (admit busy) (\<lambda>_.
        bindE (guardE (t_providers db = [] \<and> t_vcenters db = [] \<and> t_certificates db = []) RecoveryError) (\<lambda>_.
        bindE (request helper ''recovery-import''
                 (JObj [(lit ''passphrase'', JStr passphrase), (lit ''archive'', JStr (b64encode archive))])) (\<lambda>result.
        let trust = (case map_of result (lit ''trust'') of None \<Rightarrow> JNull | Some t \<Rightarrow> t) in
        bindE (validate_trust renv trust) (\<lambda>_.
          enter_trust renv now trust db))))) of
        Inl e \<Rightarrow> (Inl e, db)
      | Inr db' \<Rightarrow> (Inr (), db'))"

end
