(* ===== verification/ProviderProps.thy ===== *)
theory ProviderProps
  imports ProviderTrust ConfigProps RecoveryProps
begin

text \<open>
  The properties of the key providers' control plane: the configuration rendered from validated desired
  state is one the KMIP server accepts, and grants exactly the usable certificates; and recovered trust
  arrives disabled, whole or not at all.
\<close>

declare canon.simps(2) [simp del] canon_object [simp] wf_json.simps(7) [simp del]

subsection \<open>Validated fingerprints belong to one provider\<close>

definition provider_certificates :: "int \<Rightarrow> kms_tables \<Rightarrow> key_provider \<Rightarrow> trusted_certificate list" where
  "provider_certificates now db p = concat (map (usable_certificates now db) (filter tv_enabled (trusted_vcenters db p)))"

lemma client_fingerprints_set: "set (client_fingerprints now db p) = tc_fingerprint_sha256 ` set (provider_certificates now db p)"
  by (simp add: client_fingerprints_def provider_certificates_def)

lemma client_fingerprints_iff:
  "f \<in> set (client_fingerprints now db p) \<longleftrightarrow>
     (\<exists>v \<in> set (t_vcenters db). tv_provider_id v = kp_id p \<and> tv_enabled v
        \<and> (\<exists>c \<in> set (t_certificates db). tc_trusted_vcenter_id c = tv_id v
             \<and> tc_fingerprint_sha256 c = f \<and> certificate_status now c = lit ''valid''))"
  by (auto simp: client_fingerprints_def trusted_vcenters_def usable_certificates_def vcenter_certificates_def)

text \<open>Every fingerprint seen so far is entered with its provider.\<close>

definition entered :: "(ustr \<times> ustr) list \<Rightarrow> (ustr \<times> ustr) set \<Rightarrow> bool" where
  "entered d seen \<longleftrightarrow> (\<forall>(f, i) \<in> seen. i \<noteq> [] \<and> map_of d f = Some i)"

text \<open>
  A check of the validation: it carries the messages and the owners of the fingerprints, and only adds
  messages, so that a silent run is one of silent steps. A run enters what its steps enter.
\<close>

locale recording_check =
  fixes step :: "ustr list \<times> (ustr \<times> ustr) list \<Rightarrow> 'x \<Rightarrow> ustr list \<times> (ustr \<times> ustr) list"
  assumes silent: "fst (step s x) = [] \<Longrightarrow> fst s = []"
begin

lemma run_silent: "fst (foldl step s xs) = [] \<Longrightarrow> fst s = []"
proof (induction xs arbitrary: s)
  case (Cons x xs)
  then have "fst (step s x) = []" by simp
  then show ?case by (rule silent)
qed simp

lemma run_entered:
  assumes step: "\<And>d d' x seen. step ([], d) x = ([], d') \<Longrightarrow> x \<in> set xs \<Longrightarrow> entered d seen \<Longrightarrow> entered d' (F x \<union> seen)"
    and run: "foldl step ([], d) xs = ([], d')" "entered d seen"
  shows "entered d' (\<Union> (F ` set xs) \<union> seen)"
  using run step
proof (induction xs arbitrary: d seen)
  case (Cons x xs)
  obtain es1 d1 where s: "step ([], d) x = (es1, d1)" by fastforce
  with Cons.prems(1) have f: "foldl step (es1, d1) xs = ([], d')" by simp
  then have "fst (foldl step (es1, d1) xs) = []" by simp
  from run_silent [OF this] have "es1 = []" by simp
  with Cons.prems(2,3) s have "entered d1 (F x \<union> seen)" by simp
  moreover have "\<And>d d' x seen. step ([], d) x = ([], d') \<Longrightarrow> x \<in> set xs \<Longrightarrow> entered d seen \<Longrightarrow> entered d' (F x \<union> seen)"
    using Cons.prems(3) by simp
  ultimately have "entered d' (\<Union> (F ` set xs) \<union> (F x \<union> seen))" using Cons.IH f \<open>es1 = []\<close> by blast
  then show ?case by (simp add: Un_ac)
qed simp

end

interpretation fingerprint_check: recording_check "check_fingerprint i" for i
  by unfold_locales (auto simp: check_fingerprint_def Let_def split: prod.splits option.splits if_splits)

interpretation vcenter_check: recording_check "check_vcenter now db i" for now db i
proof unfold_locales
  fix s v assume "fst (check_vcenter now db i s v) = []"
  with fingerprint_check.run_silent show "fst s = []" by (cases s) (fastforce simp: check_vcenter_def Let_def split: if_splits)
qed

interpretation provider_check: recording_check "check_provider now db" for now db
  by unfold_locales (simp add: check_provider_def vcenter_check.run_silent)

lemma check_fingerprint_entered:
  "check_fingerprint i ([], d) c = ([], d') \<Longrightarrow> i \<noteq> [] \<Longrightarrow> entered d seen \<Longrightarrow> entered d' ({(tc_fingerprint_sha256 c, i)} \<union> seen)"
  by (fastforce simp: check_fingerprint_def Let_def entered_def split: option.splits if_splits)

lemma check_vcenter_entered:
  assumes "check_vcenter now db i ([], d) v = ([], d')" and "i \<noteq> []" and "entered d seen"
  shows "entered d' ((\<Union>c \<in> set (usable_certificates now db v). {(tc_fingerprint_sha256 c, i)}) \<union> seen)"
proof -
  let ?es = "if usable_certificates now db v = []
    then [lit ''Trusted vCenter '' @ tv_name v @ lit '' requires a current public client certificate.''] else []"
  have f: "foldl (check_fingerprint i) (?es, d) (usable_certificates now db v) = ([], d')"
    using assms(1) by (cases "usable_certificates now db v = []") (simp_all add: check_vcenter_def Let_def)
  then have "fst (foldl (check_fingerprint i) (?es, d) (usable_certificates now db v)) = []" by (simp only: fst_conv)
  from fingerprint_check.run_silent [OF this] have "?es = []" by (simp only: fst_conv)
  with f have "foldl (check_fingerprint i) ([], d) (usable_certificates now db v) = ([], d')" by simp
  from fingerprint_check.run_entered [OF check_fingerprint_entered [OF _ assms(2)] this assms(3)] show ?thesis .
qed

lemma check_provider_entered:
  assumes "check_provider now db ([], d) p = ([], d')" and "kp_id p \<noteq> []" and "entered d seen"
  shows "entered d' ((\<lambda>c. (tc_fingerprint_sha256 c, kp_id p)) ` set (provider_certificates now db p) \<union> seen)"
proof -
  have "entered d' (\<Union> ((\<lambda>v. \<Union>c \<in> set (usable_certificates now db v). {(tc_fingerprint_sha256 c, kp_id p)})
      ` set (filter tv_enabled (trusted_vcenters db p))) \<union> seen)"
    by (rule vcenter_check.run_entered [OF check_vcenter_entered [OF _ assms(2)] assms(1) [unfolded check_provider_def] assms(3)])
  then show ?thesis by (auto simp: entered_def provider_certificates_def)
qed

lemma validated_entered:
  assumes "validate_provider_state now db ps = []" and "\<forall>p \<in> set ps. kp_id p \<noteq> []"
  obtains d where "\<forall>p \<in> set ps. \<forall>f \<in> set (client_fingerprints now db p). map_of d f = Some (kp_id p)"
proof -
  have first: "first_seen xs = [] \<Longrightarrow> xs = []" for xs :: "ustr list"
  proof -
    have "length r \<le> length (foldl (\<lambda>r x. if x \<in> set r then r else r @ [x]) r xs)" for r and xs :: "ustr list"
    proof (induction xs arbitrary: r)
      case (Cons x xs)
      from Cons [of "r @ [x]"] Cons [of r] show ?case by auto
    qed simp
    from this [of "[hd xs]" "tl xs"] show "first_seen xs = [] \<Longrightarrow> xs = []" by (cases xs) (auto simp: first_seen_def)
  qed
  obtain es d where r: "foldl (check_provider now db) ([], []) ps = (es, d)" by fastforce
  with assms(1) have "es = []" using first by (simp add: validate_provider_state_def)
  have "entered d (\<Union> ((\<lambda>p. (\<lambda>c. (tc_fingerprint_sha256 c, kp_id p)) ` set (provider_certificates now db p)) ` set ps) \<union> {})"
    by (rule provider_check.run_entered [OF check_provider_entered r [unfolded \<open>es = []\<close>]])
      (use assms(2) in \<open>auto simp: entered_def\<close>)
  then show thesis by (intro that [of d]) (fastforce simp: entered_def client_fingerprints_set)
qed

lemma validated_distinct:
  assumes "validate_provider_state now db ps = []" and "\<forall>p \<in> set ps. kp_id p \<noteq> []" and "distinct (map kp_id ps)"
  shows "distinct (concat (map (client_fingerprints now db) (filter Q ps)))"
proof -
  obtain d where d: "\<forall>p \<in> set ps. \<forall>f \<in> set (client_fingerprints now db p). map_of d f = Some (kp_id p)"
    using validated_entered [OF assms(1,2)] by blast
  have one: "distinct (client_fingerprints now db p)" for p by (simp add: client_fingerprints_def)
  have "distinct (concat (map (client_fingerprints now db) qs))" if "set qs \<subseteq> set ps" "distinct (map kp_id qs)" for qs
    using that
  proof (induction qs)
    case (Cons q qs)
    have "f \<notin> set (client_fingerprints now db q')" if "q' \<in> set qs" "f \<in> set (client_fingerprints now db q)" for q' f
      using that Cons.prems d by (metis image_eqI list.set_map distinct.simps(2) list.simps(9) list.set_intros subsetD option.inject)
    with Cons one show ?case by auto
  qed simp
  moreover have "distinct (map kp_id (filter Q ps))" using assms(3) by (simp add: distinct_map_filter)
  ultimately show ?thesis by auto
qed

subsection \<open>Names and paths\<close>

lemma strip_chars_sub: "set (strip_chars cs s) \<subseteq> set s"
  by (auto simp: strip_chars_def dest!: set_dropWhileD)

lemma sub_unsafe_safe: "list_all safe_char (sub_unsafe s)"
proof (induction s rule: sub_unsafe.induct)
  case (1 s)
  moreover have "safe_char 45" by (simp add: safe_char_def)
  ultimately show ?case by (subst sub_unsafe.simps) (auto split: list.split)
qed

lemma HEX_DIGITS_safe: "c \<in> set HEX_DIGITS \<Longrightarrow> safe_char c"
  by (auto simp: HEX_DIGITS_set safe_char_def)

lemma safe_name_chars:
  assumes "safe_certificate_name env t = Inr name"
  shows "name \<noteq> [] \<and> list_all safe_char name"
proof -
  let ?s = "strip_chars {45} (sub_unsafe (strip t))"
  have "list_all safe_char ?s"
    using strip_chars_sub [of "{45}" "sub_unsafe (strip t)"] sub_unsafe_safe [of "strip t"] by (auto simp: list_all_iff)
  moreover have "safe_char 45" by (simp add: safe_char_def)
  moreover have "list_all safe_char (hex_of_bytes bs)" for bs
    using hex_of_bytes_digits [of bs] HEX_DIGITS_safe by (auto simp: list_all_iff)
  moreover have "list_all safe_char (lit ''certificate'') \<and> lit ''certificate'' \<noteq> []" by (simp add: lit_def safe_char_def)
  ultimately show ?thesis
    using assms by (auto simp: safe_certificate_name_def Let_def bindE_Inr_iff list_all_iff split: if_splits dest!: in_set_takeD)
qed

lemma utf8_scalar: "list_all is_scalar s \<Longrightarrow> \<exists>bs. utf8 s = Inr bs"
  by (simp add: utf8_def utf8_encode_def)

lemma safe_name_total: "list_all is_scalar t \<Longrightarrow> \<exists>name. safe_certificate_name env t = Inr name"
  using utf8_scalar [of t] by (auto simp: safe_certificate_name_def Let_def)

lemma safe_char_scalar: "safe_char c \<Longrightarrow> is_scalar c \<and> c < 128"
  by (auto simp: safe_char_def is_scalar_def)

text \<open>The two paths of the server's identity.\<close>

definition identity_paths :: "env \<Rightarrow> ustr \<Rightarrow> ustr \<Rightarrow> (ustr \<times> ustr) res" where
  "identity_paths env certificate_name server_fingerprint =
     (if server_fingerprint \<noteq> []
      then bindE (kms_server_certificate_paths env certificate_name server_fingerprint) (\<lambda>(c, k, _). Inr (c, k))
      else Inr (KMS_SERVER_CERT_BASE @ [47] @ certificate_name @ lit ''.crt'',
                KMS_SERVER_CERT_BASE @ [47] @ certificate_name @ lit ''.key''))"

definition path_text :: "ustr \<Rightarrow> bool" where
  "path_text s \<longleftrightarrow> take 1 s = [47] \<and> list_all is_scalar s"

lemma path_text_value: "path_text s \<Longrightarrow> path_value (JStr s) l = Inr (posix_path s)"
proof -
  assume "path_text s"
  then obtain t where s: "s = 47 # t" by (cases s) (auto simp: path_text_def)
  have "strip s \<noteq> []" by (simp add: s strip_def is_space_def)
  then show ?thesis using s by (simp add: path_value_def is_absolute_def)
qed

lemma identity_paths_total:
  assumes n: "name \<noteq> [] \<and> list_all safe_char name" and f: "server_fingerprint = [] \<or> is_digest server_fingerprint"
  shows "\<exists>c k. identity_paths env name server_fingerprint = Inr (c, k) \<and> path_text c \<and> path_text k"
proof -
  have b: "KMS_SERVER_CERT_BASE = 47 # lit ''etc/atlaso/kmip/certs''" "list_all is_scalar (lit ''etc/atlaso/kmip/certs'')"
    "list_all is_scalar (lit ''.crt'')" "list_all is_scalar (lit ''.key'')"
    by (simp_all add: KMS_SERVER_CERT_BASE_def lit_def is_scalar_def)
  have s: "list_all is_scalar xs" if "list_all safe_char xs" for xs using that safe_char_scalar by (auto simp: list_all_iff)
  have h: "list_all safe_char (hex_of_bytes bs)" for bs using hex_of_bytes_digits [of bs] HEX_DIGITS_safe by (auto simp: list_all_iff)
  have sc: "is_scalar 47" "is_scalar 45" by (simp_all add: is_scalar_def)
  have pt: "path_text (KMS_SERVER_CERT_BASE @ [47] @ xs @ lit ''.crt'') \<and> path_text (KMS_SERVER_CERT_BASE @ [47] @ xs @ lit ''.key'')"
    if "list_all is_scalar xs" for xs
    using that b(2-4) sc unfolding b(1) by (simp add: path_text_def)
  show ?thesis
  proof (cases "server_fingerprint = []")
    case True
    with pt [OF s] n show ?thesis by (simp add: identity_paths_def)
  next
    case False
    with f have d: "length server_fingerprint = 64" "list_all (\<lambda>c. c \<in> set HEX_DIGITS) server_fingerprint"
      "list_all safe_char server_fingerprint"
      using HEX_DIGITS_safe by (auto simp: is_digest_def list_all_iff)
    obtain encoded where u: "utf8 name = Inr encoded" using utf8_scalar [OF s, of name] n by auto
    define x where "x = (if 179 < length name then take 162 name @ [45] @ take 16 (hex_of_bytes (sha256 env encoded)) else name)"
    have x: "kms_server_certificate_paths env name server_fingerprint
        = Inr (KMS_SERVER_CERT_BASE @ [47] @ (x @ [45] @ server_fingerprint) @ lit ''.crt'',
               KMS_SERVER_CERT_BASE @ [47] @ (x @ [45] @ server_fingerprint) @ lit ''.key'',
               KMS_SERVER_CERT_BASE @ [47] @ (x @ [45] @ server_fingerprint) @ lit ''-chain.pem'')"
      using n d(1,2) u by (simp add: kms_server_certificate_paths_def Let_def x_def)
    have xs: "list_all safe_char x"
      using n h [of "sha256 env encoded"] by (auto simp: x_def list_all_iff safe_char_def dest!: in_set_takeD)
    have "list_all is_scalar (x @ [45] @ server_fingerprint)" using s xs d(3) sc by simp
    from pt [OF this] x False show ?thesis by (simp add: identity_paths_def)
  qed
qed

subsection \<open>The server accepts what is rendered\<close>

definition provider_sound :: "env \<Rightarrow> key_provider \<Rightarrow> bool" where
  "provider_sound env p \<longleftrightarrow> uuid_canon (uni env) (kp_id p) = Some (kp_id p) \<and> strip (kp_name p) \<noteq> []
     \<and> length (strip (kp_name p)) \<le> 120 \<and> list_all is_scalar (kp_name p)"

text \<open>The listener: a TCP port, at most 32 addresses, all different, and Unicode names.\<close>

definition settings_sound :: "kms_settings \<Rightarrow> bool" where
  "settings_sound s \<longleftrightarrow> 1 \<le> ks_port s \<and> ks_port s \<le> 65535 \<and> list_all is_scalar (ks_hostname s) \<and> list_all is_scalar (ks_server_certificate s)
     \<and> length (split_addresses (ks_listen_address s)) \<le> 32 \<and> list_all (list_all is_scalar) (split_addresses (ks_listen_address s))
     \<and> (\<exists>as. mapE parse_address (map JStr (split_addresses (ks_listen_address s))) = Inr as \<and> distinct as)"

lemma digest_text: "is_digest f \<Longrightarrow> fingerprint py (JStr f) = Inr f" "is_digest f \<Longrightarrow> list_all is_scalar f"
proof -
  assume d: "is_digest f"
  then have c: "c \<in> {48..57} \<union> {97..102}" if "c \<in> set f" for c using that by (auto simp: is_digest_def HEX_DIGITS_set)
  have f: "filter (\<lambda>c. c \<noteq> 58) f = f" using c [of 58] by (auto simp: filter_id_conv)
  have s: "strip f = f"
  proof -
    have ns: "\<not> is_space c" if "c \<in> set f" for c using c [OF that] by (auto simp: is_space_def)
    have "dropWhile is_space xs = xs" if "set xs = set f" for xs
      using ns that by (cases xs) auto
    from this [of f] this [of "rev f"] have "dropWhile is_space f = f" "dropWhile is_space (rev f) = rev f" by simp_all
    then show ?thesis by (simp add: strip_def)
  qed
  have k: "casefold py f = f"
  proof -
    have "map (\<lambda>c. if c < 128 then [if 65 \<le> c \<and> c \<le> 90 then c + 32 else c] else py_fold py c) f = map (\<lambda>c. [c]) f"
    proof (rule map_cong [OF refl])
      fix x assume "x \<in> set f"
      from c [OF this] show "(if x < 128 then [if 65 \<le> x \<and> x \<le> 90 then x + 32 else x] else py_fold py x) = [x]" by auto
    qed
    then show ?thesis unfolding casefold_def by (simp only: concat_map_singleton map_ident)
  qed
  show "fingerprint py (JStr f) = Inr f"
    using d by (auto simp: fingerprint_def f s k is_digest_def list_ex_iff)
  show "list_all is_scalar f" using c by (fastforce simp: list_all_iff is_scalar_def)
qed

definition accepted_provider :: "int \<Rightarrow> kms_tables \<Rightarrow> key_provider \<Rightarrow> provider" where
  "accepted_provider now db p = \<lparr>p_id = kp_id p, p_name = strip (kp_name p), p_client_fingerprints = client_fingerprints now db p\<rparr>"

definition provider_json :: "int \<Rightarrow> kms_tables \<Rightarrow> key_provider \<Rightarrow> json" where
  "provider_json now db p = JObj [(lit ''id'', JStr (kp_id p)), (lit ''name'', JStr (kp_name p)),
     (lit ''client_fingerprints'', JArr (map JStr (client_fingerprints now db p))), (lit ''client_certificate_paths'', JArr [])]"

text \<open>The providers that are rendered: enabled, with a usable certificate.\<close>

definition granted :: "int \<Rightarrow> kms_tables \<Rightarrow> key_provider \<Rightarrow> bool" where
  "granted now db p \<longleftrightarrow> kp_enabled p \<and> client_fingerprints now db p \<noteq> []"

lemma rendered_providers:
  assumes "list_all (provider_sound env) ps"
  shows "\<exists>xs. mapE (rendered_provider env now db) ps = Inr xs \<and> concat xs = map (provider_json now db) (filter (granted now db) ps)"
  using assms
proof (induction ps)
  case (Cons p ps)
  then have "rendered_provider env now db p = Inr (if granted now db p then [provider_json now db p] else [])"
    by (simp add: rendered_provider_def granted_def Let_def normalize_provider_id_def provider_sound_def provider_json_def)
  with Cons show ?case by auto
qed simp

lemma canon_texts [simp]: "map (canon \<circ> JStr) xs = map JStr xs"
  by simp

lemma provider_json_wf:
  assumes "provider_sound env p" and "list_all is_digest (client_fingerprints now db p)"
  shows "wf_json (provider_json now db p)"
proof -
  have "list_all is_scalar (kp_id p)" using assms(1) by (auto simp: provider_sound_def intro: uuid_canon_scalar)
  moreover have "list_all wf_json (map JStr (client_fingerprints now db p))"
    using assms(2) digest_text(2) by (auto simp: list_all_iff)
  ultimately show ?thesis using assms(1) by (simp add: provider_json_def wf_json.simps provider_sound_def lit_scalar_cong)
qed

lemma parse_provider_json:
  assumes s: "provider_sound env p" and d: "list_all is_digest (client_fingerprints now db p)" and g: "granted now db p"
  shows "parse_provider py env cd (canon (provider_json now db p)) = Inr (accepted_provider now db p)"
proof -
  let ?d = "[(lit ''id'', JStr (kp_id p)), (lit ''name'', JStr (kp_name p)),
     (lit ''client_fingerprints'', JArr (map JStr (client_fingerprints now db p))), (lit ''client_certificate_paths'', JArr [])]"
  have di: "distinct (map fst ?d)" by (simp add: lit_def)
  note lk = lookup_canon [OF di]
  have l: "lookup_field (canon_fields ?d) ''id'' = Inr (JStr (kp_id p))" "lookup_field (canon_fields ?d) ''name'' = Inr (JStr (kp_name p))"
    "lookup_field (canon_fields ?d) ''client_fingerprints'' = Inr (JArr (map JStr (client_fingerprints now db p)))"
    "lookup_field (canon_fields ?d) ''client_certificate_paths'' = Inr (JArr [])"
    unfolding lk by (simp_all add: lookup_field_def lit_def)
  have e: "exact_fields (canon_fields ?d) PROVIDER_FIELDS ''KMIP provider'' = Inr ()"
    unfolding exact_fields_Inr set_map canon_fields_fst by (auto simp: PROVIDER_FIELDS_def)
  have f: "mapE (fingerprint py) (map JStr fs) = Inr fs" if "list_all is_digest fs" for fs
    using that by (induction fs) (simp_all add: digest_text(1))
  have fs: "client_fingerprints now db p \<noteq> []" "distinct (client_fingerprints now db p)"
    "sort (client_fingerprints now db p) = client_fingerprints now db p"
    using g by (simp_all add: granted_def) (simp_all add: client_fingerprints_def sort_key_id_if_sorted)
  show ?thesis
    unfolding provider_json_def canon_object parse_provider_def json.case
    using s by (simp add: e l f [OF d] fs provider_fingerprints_def provider_sound_def accepted_provider_def)
qed

lemma parse_providers_json:
  assumes s: "list_all (provider_sound env) ps" and d: "\<forall>p \<in> set ps. list_all is_digest (client_fingerprints now db p)"
    and v: "validate_provider_state now db ps = []" and i: "distinct (map kp_id ps)"
  shows "parse_providers py env cd (canon (JArr (map (provider_json now db) (filter (granted now db) ps))))
    = Inr (map (accepted_provider now db) (filter (granted now db) ps))"
proof -
  let ?ps = "filter (granted now db) ps"
  have "mapE (parse_provider py env cd) (map (canon \<circ> provider_json now db) qs) = Inr (map (accepted_provider now db) qs)"
    if "\<forall>p \<in> set qs. provider_sound env p \<and> list_all is_digest (client_fingerprints now db p) \<and> granted now db p" for qs
    using that by (induction qs) (simp_all add: parse_provider_json)
  from this [of ?ps] have m: "mapE (parse_provider py env cd) (map (canon \<circ> provider_json now db) ?ps) = Inr (map (accepted_provider now db) ?ps)"
    using s d by (auto simp: list_all_iff)
  have ids: "p_id \<circ> accepted_provider now db = kp_id"
    "p_client_fingerprints \<circ> accepted_provider now db = client_fingerprints now db"
    by (simp_all add: accepted_provider_def fun_eq_iff)
  have "\<forall>p \<in> set ps. kp_id p \<noteq> []" using s uuid_canon_nonempty by (fastforce simp: list_all_iff provider_sound_def)
  from validated_distinct [OF v this i] have "distinct (concat (map (client_fingerprints now db) ?ps))" .
  moreover have "distinct (map kp_id ?ps)" using i by (rule distinct_map_filter)
  ultimately show ?thesis using m by (simp add: parse_providers_def ids)
qed

definition rendered_addresses :: "kms_settings \<Rightarrow> ustr list" where
  "rendered_addresses s =
     (if ks_enabled s \<and> split_addresses (ks_listen_address s) \<noteq> [] then split_addresses (ks_listen_address s) else [lit ''127.0.0.1''])"

lemma loopback_parsed: "parse_address (JText ''127.0.0.1'') = Inr (lit ''127.0.0.1'')"
proof -
  have t: "lit ''127.0.0.1'' = [49, 50, 55, 46, 48, 46, 48, 46, 49]" by (simp add: lit_def)
  have s: "strip (lit ''127.0.0.1'') = lit ''127.0.0.1''" by (simp add: t strip_def is_space_def)
  have o: "ipv4_octet [49, 50, 55] = Some 127" "ipv4_octet [48] = Some 0" "ipv4_octet [49] = Some 1"
    by (simp_all add: ipv4_octet_def is_digit_def int_of_digits_def of_digs_def)
  have v: "ip_address (lit ''127.0.0.1'') = Some (IPv4 2130706433)"
    by (simp add: ip_address_def ipv4_value_def t o of_digs_def)
  have "digs 256 2130706433 = [127, 0, 0, 1]" by (simp add: digs.simps)
  then have "ipv4_text 2130706433 = lit ''127.0.0.1''"
    by (simp add: ipv4_text_def pad_digs_def t int_text_def digs.simps)
  then show ?thesis by (simp add: parse_address_def s v)
qed

lemma rendered_addresses_parsed:
  assumes "settings_sound s"
  shows "\<exists>as. parse_addresses (JArr (map JStr (rendered_addresses s))) = Inr as"
proof (cases "ks_enabled s \<and> split_addresses (ks_listen_address s) \<noteq> []")
  case True
  with assms show ?thesis by (auto simp: rendered_addresses_def settings_sound_def parse_addresses_def)
next
  case False
  then have "rendered_addresses s = [lit ''127.0.0.1'']" by (simp add: rendered_addresses_def)
  then show ?thesis by (simp add: parse_addresses_def loopback_parsed)
qed

lemma config_document_wf:
  assumes s: "settings_sound settings" and p: "path_text c" "path_text k" and ps: "list_all wf_json ps"
  shows "wf_json (config_document settings c k ps)"
proof -
  have small: "int_ok i" if "0 \<le> i" "i < 10 ^ 10" for i
    using that length_digs_le [of 10 "nat \<bar>i\<bar>" 10] by (simp add: int_ok_def nat_less_iff)
  have "list_all is_scalar (lit ''127.0.0.1'')" by (simp add: lit_scalar_cong)
  then have "list_all wf_json (map JStr (rendered_addresses settings))"
    using s by (auto simp: rendered_addresses_def settings_sound_def list_all_iff)
  then show ?thesis
    using p ps s unfolding config_document_def Let_def rendered_addresses_def [symmetric]
    by (simp add: wf_json.simps small path_text_def settings_sound_def lit_scalar_cong KMS_DEFAULT_DATABASE_PATH_def KMS_DEFAULT_KEK_PATH_def)
qed

lemma config_sections:
  assumes "distinct (map fst document)"
    and "map_of document (lit ''listen'') = Some (JObj listen)" "map_of document (lit ''tls'') = Some (JObj tls)"
    and "map_of document (lit ''store'') = Some (JObj store)" "map_of document (lit ''limits'') = Some (JObj limits)"
    and "map fst listen = map lit [''addresses'', ''port'']"
    and "map fst tls = map lit [''certificate_path'', ''private_key_path'', ''ca_path'']"
    and "map fst store = map lit [''database_path'', ''kek_path'']"
    and "map fst limits = map lit [''max_request_bytes'', ''max_connections'', ''idle_timeout_seconds'', ''max_requests_per_connection'']"
  shows "parse_sections (canon_fields document) = Inr (canon_fields listen, canon_fields tls, canon_fields store, canon_fields limits)"
proof -
  have e: "exact_fields (canon_fields d) fs l = Inr ()" if "map fst d = fs" for d fs l
    unfolding exact_fields_Inr set_map canon_fields_fst using that by (simp flip: set_map)
  have l: "lookup_field (canon_fields document) n = Inr (JObj (canon_fields d))" if "map_of document (lit n) = Some (JObj d)" for n d
    using that lookup_canon [OF assms(1), of n] by (simp add: lookup_field_def)
  show ?thesis unfolding parse_sections_def
    by (simp only: l [OF assms(2)] l [OF assms(3)] l [OF assms(4)] l [OF assms(5)] bindE_simps Let_def as_object_def json.case
        e [OF assms(6)] e [OF assms(7)] e [OF assms(8)] e [OF assms(9)])
qed

lemma config_document_parsed:
  assumes s: "settings_sound settings" and p: "path_text c" "path_text k"
    and ps: "parse_providers py env cd (canon (JArr ps)) = Inr qs"
  shows "\<exists>cfg. parse_config py env cd (canon (config_document settings c k ps)) = Inr cfg
    \<and> c_enabled cfg = ks_enabled settings \<and> c_port cfg = ks_port settings \<and> c_providers cfg = qs"
proof -
  obtain as where as: "parse_addresses (JArr (map JStr (rendered_addresses settings))) = Inr as"
    using rendered_addresses_parsed [OF s] by blast
  have fixed: "path_text (lit ''/etc/atlaso/kmip/client-trust.pem'')" "path_text KMS_DEFAULT_DATABASE_PATH" "path_text KMS_DEFAULT_KEK_PATH"
    by (simp_all add: path_text_def KMS_DEFAULT_DATABASE_PATH_def KMS_DEFAULT_KEK_PATH_def lit_def is_scalar_def)
  note paths = p [THEN path_text_value] fixed [THEN path_text_value]
  define listen where "listen = [(lit ''addresses'', JArr (map JStr (rendered_addresses settings))), (lit ''port'', JInt (ks_port settings))]"
  define tls where "tls = [(lit ''certificate_path'', JStr c), (lit ''private_key_path'', JStr k),
    (lit ''ca_path'', JText ''/etc/atlaso/kmip/client-trust.pem'')]"
  define store where "store = [(lit ''database_path'', JStr KMS_DEFAULT_DATABASE_PATH), (lit ''kek_path'', JStr KMS_DEFAULT_KEK_PATH)]"
  define limits where "limits = [(lit ''max_request_bytes'', JInt 1048576), (lit ''max_connections'', JInt 32),
    (lit ''idle_timeout_seconds'', JInt 30), (lit ''max_requests_per_connection'', JInt 128)]"
  define doc where "doc = [(lit ''schema_version'', JInt 1), (lit ''enabled'', JBool (ks_enabled settings)), (lit ''listen'', JObj listen),
    (lit ''tls'', JObj tls), (lit ''store'', JObj store), (lit ''limits'', JObj limits), (lit ''providers'', JArr ps), (lit ''interop_trace_path'', JText '''')]"
  have d: "config_document settings c k ps = JObj doc"
    unfolding config_document_def Let_def rendered_addresses_def [symmetric] doc_def listen_def tls_def store_def limits_def ..
  have di: "distinct (map fst doc)" "distinct (map fst listen)" "distinct (map fst tls)" "distinct (map fst store)" "distinct (map fst limits)"
    by (simp_all add: doc_def listen_def tls_def store_def limits_def lit_def)
  note lk = di [THEN lookup_canon]
  have sections: "parse_sections (canon_fields doc) = Inr (canon_fields listen, canon_fields tls, canon_fields store, canon_fields limits)"
    by (rule config_sections [OF di(1)]) (simp_all add: doc_def listen_def tls_def store_def limits_def lit_def)
  have e: "exact_fields (canon_fields doc) CONFIG_FIELDS ''KMIP configuration'' = Inr ()"
    unfolding exact_fields_Inr set_map canon_fields_fst by (auto simp: doc_def CONFIG_FIELDS_def)
  have l: "lookup_field doc ''schema_version'' = Inr (JInt 1)" "lookup_field doc ''enabled'' = Inr (JBool (ks_enabled settings))"
    "lookup_field doc ''providers'' = Inr (JArr ps)" "lookup_field doc ''interop_trace_path'' = Inr (JText '''')"
    "lookup_field listen ''addresses'' = Inr (JArr (map JStr (rendered_addresses settings)))" "lookup_field listen ''port'' = Inr (JInt (ks_port settings))"
    "lookup_field tls ''certificate_path'' = Inr (JStr c)" "lookup_field tls ''private_key_path'' = Inr (JStr k)"
    "lookup_field tls ''ca_path'' = Inr (JText ''/etc/atlaso/kmip/client-trust.pem'')"
    "lookup_field store ''database_path'' = Inr (JStr KMS_DEFAULT_DATABASE_PATH)" "lookup_field store ''kek_path'' = Inr (JStr KMS_DEFAULT_KEK_PATH)"
    by (simp_all add: doc_def listen_def tls_def store_def lookup_field_def lit_def)
  have m: "\<exists>ls. parse_limits (canon_fields limits) = Inr ls"
    unfolding parse_limits_def lk(5) by (simp add: limits_def lookup_field_def lit_def config_integer_def MAX_MESSAGE_BYTES_def)
  have port: "1 \<le> ks_port settings" "ks_port settings \<le> 65535" using s by (simp_all add: settings_sound_def)
  have n: "parse_providers py env cd (JArr (map canon ps)) = Inr qs" "strip (lit '''') = []" using ps by (simp_all add: strip_def lit_def)
  show ?thesis using m unfolding d canon_object parse_config_def as_object_def json.case
    by (auto simp add: e sections lk l paths as port config_integer_def n)
qed

text \<open>
  C10: the control plane and the KMIP server agree on who may use which keys. When the desired state is
  validated without an error, the configuration rendered from it (sound rows, distinct provider ids,
  SHA-256 fingerprints) is produced, and the text written to the file is one the KMIP server accepts; the
  accepted configuration maps a certificate fingerprint to a provider namespace exactly when the provider is
  enabled and the fingerprint belongs to a currently valid certificate of an enabled vCenter of that provider.
\<close>

theorem rendered_config_accepted:
  assumes "settings_sound settings" and "list_all (provider_sound env) providers" and "distinct (map kp_id providers)"
    and "\<forall>p \<in> set providers. list_all is_digest (client_fingerprints now db p)"
    and "validate_provider_state now db providers = []" and "server_fingerprint = [] \<or> is_digest server_fingerprint"
  shows "\<exists>text config. render_provider_config env now db settings providers server_fingerprint = Inr text
     \<and> load_config py env cert_der (Inr text) = Inr config
     \<and> c_enabled config = ks_enabled settings \<and> c_port config = ks_port settings
     \<and> (\<forall>f i. map_of (fingerprint_providers config) f = Some i \<longleftrightarrow>
          (\<exists>p \<in> set providers. kp_id p = i \<and> kp_enabled p
             \<and> (\<exists>v \<in> set (t_vcenters db). tv_provider_id v = i \<and> tv_enabled v
                  \<and> (\<exists>c \<in> set (t_certificates db). tc_trusted_vcenter_id c = tv_id v
                       \<and> tc_fingerprint_sha256 c = f \<and> certificate_status now c = lit ''valid''))))"
proof -
  let ?ps = "filter (granted now db) providers"
  have sc: "list_all is_scalar (if ks_server_certificate settings \<noteq> [] then ks_server_certificate settings else ks_hostname settings)"
    using assms(1) by (simp add: settings_sound_def)
  obtain name where n: "safe_certificate_name env
      (if ks_server_certificate settings \<noteq> [] then ks_server_certificate settings else ks_hostname settings) = Inr name"
    using safe_name_total [OF sc] by blast
  obtain c k where ck: "identity_paths env name server_fingerprint = Inr (c, k)" "path_text c" "path_text k"
    using identity_paths_total [OF safe_name_chars [OF n] assms(6)] by blast
  obtain xs where xs: "mapE (rendered_provider env now db) providers = Inr xs" "concat xs = map (provider_json now db) ?ps"
    using rendered_providers [OF assms(2)] by blast
  have wf: "list_all wf_json (map (provider_json now db) ?ps)"
    using assms(2,4) provider_json_wf by (fastforce simp: list_all_iff)
  note parsed = parse_providers_json [OF assms(2,4,5,3)]
  obtain config where cfg: "parse_config py env cert_der (canon (config_document settings c k (map (provider_json now db) ?ps))) = Inr config"
      "c_enabled config = ks_enabled settings" "c_port config = ks_port settings" "c_providers config = map (accepted_provider now db) ?ps"
    using config_document_parsed [OF assms(1) ck(2,3) parsed] by blast
  have r: "render_provider_config env now db settings providers server_fingerprint
      = Inr (dumps_indented (config_document settings c k (map (provider_json now db) ?ps)) @ [10])"
    using n ck(1) xs by (simp add: render_provider_config_def identity_paths_def [symmetric])
  have l: "load_config py env cert_der (Inr (dumps_indented (config_document settings c k (map (provider_json now db) ?ps)) @ [10])) = Inr config"
    unfolding load_config_def using loads_indented [OF config_document_wf [OF assms(1) ck(2,3) wf], of "[10]"] cfg(1)
    by (simp add: is_ws_def)
  have "distinct (concat (map p_client_fingerprints (c_providers config)))" using parse_providers_ok [OF parsed] cfg(4) by simp
  note g = fingerprint_providers_iff [OF this, unfolded cfg(4)]
  have "map_of (fingerprint_providers config) f = Some i \<longleftrightarrow>
      (\<exists>p \<in> set providers. kp_id p = i \<and> kp_enabled p \<and> f \<in> set (client_fingerprints now db p))" for f i
    by (auto simp: g accepted_provider_def granted_def)
  then show ?thesis using r l cfg(2,3) unfolding client_fingerprints_iff by auto
qed

subsection \<open>A concrete desired state\<close>

text \<open>One provider, one vCenter, one certificate valid from 0 to 100.\<close>

definition demo_key_provider :: key_provider where
  "demo_key_provider = \<lparr>kp_id = demo_provider, kp_name = lit ''vc'', kp_description = [], kp_enabled = True, kp_applied_at = None, kp_updated_at = 0\<rparr>"

definition demo_trusted_vcenter :: trusted_vcenter where
  "demo_trusted_vcenter = \<lparr>tv_id = demo_provider, tv_provider_id = demo_provider, tv_name = lit ''v'', tv_hostname = [], tv_description = [],
     tv_enabled = True\<rparr>"

definition demo_trusted_certificate :: trusted_certificate where
  "demo_trusted_certificate = \<lparr>tc_id = demo_provider, tc_trusted_vcenter_id = demo_provider, tc_fingerprint_sha256 = demo_digest,
     tc_certificate_pem = lit ''-----BEGIN CERTIFICATE-----'', tc_subject = [], tc_issuer = [], tc_serial_number = [49],
     tc_not_valid_before = Some 0, tc_not_valid_after = Some 100, tc_source = lit ''uploaded_public''\<rparr>"

definition demo_tables :: kms_tables where
  "demo_tables = \<lparr>t_providers = [demo_key_provider], t_vcenters = [demo_trusted_vcenter], t_certificates = [demo_trusted_certificate]\<rparr>"

definition demo_settings :: kms_settings where
  "demo_settings = \<lparr>ks_enabled = True, ks_listen_address = [], ks_port = 5696, ks_hostname = lit ''kms.lab'', ks_server_certificate = []\<rparr>"

lemma demo_digest_ok: "is_digest demo_digest"
  by (simp add: is_digest_def demo_digest_def HEX_DIGITS_set)

lemma demo_certificate_valid: "certificate_status 50 demo_trusted_certificate = lit ''valid''"
  by (simp add: certificate_status_def demo_trusted_certificate_def)

lemma demo_usable: "usable_certificates 50 demo_tables demo_trusted_vcenter = [demo_trusted_certificate]"
  by (simp add: usable_certificates_def vcenter_certificates_def demo_tables_def demo_certificate_valid)
    (simp add: demo_trusted_certificate_def demo_trusted_vcenter_def)

lemma demo_vcenters: "filter tv_enabled (trusted_vcenters demo_tables demo_key_provider) = [demo_trusted_vcenter]"
  by (simp add: trusted_vcenters_def demo_tables_def demo_trusted_vcenter_def demo_key_provider_def)

lemma demo_fingerprints: "client_fingerprints 50 demo_tables demo_key_provider = [demo_digest]"
  by (simp add: client_fingerprints_def demo_vcenters demo_usable) (simp add: demo_trusted_certificate_def)

lemma demo_validated: "validate_provider_state 50 demo_tables [demo_key_provider] = []"
  by (simp add: validate_provider_state_def check_provider_def demo_vcenters check_vcenter_def demo_usable check_fingerprint_def first_seen_def)

lemma demo_provider_sound: "provider_sound demo_env demo_key_provider"
  using demo_provider_canon by (simp add: provider_sound_def demo_key_provider_def lit_scalar_cong) (simp add: lit_def strip_def is_space_def)

lemma demo_settings_sound: "settings_sound demo_settings"
  by (simp add: settings_sound_def demo_settings_def lit_scalar_cong split_addresses_def)

theorem rendered_config_accepted_witness:
  "\<exists>text config. render_provider_config demo_env 50 demo_tables demo_settings [demo_key_provider] demo_digest = Inr text
     \<and> load_config demo_py demo_env demo_certificate (Inr text) = Inr config
     \<and> c_enabled config \<and> map_of (fingerprint_providers config) demo_digest = Some demo_provider"
proof -
  have "list_all (provider_sound demo_env) [demo_key_provider]" "distinct (map kp_id [demo_key_provider])"
    "\<forall>p \<in> set [demo_key_provider]. list_all is_digest (client_fingerprints 50 demo_tables p)"
    by (simp_all add: demo_provider_sound demo_fingerprints demo_digest_ok)
  from rendered_config_accepted [OF demo_settings_sound this demo_validated disjI2 [OF demo_digest_ok], of demo_py demo_certificate]
  obtain t config where r: "render_provider_config demo_env 50 demo_tables demo_settings [demo_key_provider] demo_digest = Inr t"
    "load_config demo_py demo_env demo_certificate (Inr t) = Inr config" "c_enabled config = ks_enabled demo_settings"
    and g: "map_of (fingerprint_providers config) f = Some i \<longleftrightarrow>
          (\<exists>p \<in> set [demo_key_provider]. kp_id p = i \<and> kp_enabled p
             \<and> (\<exists>v \<in> set (t_vcenters demo_tables). tv_provider_id v = i \<and> tv_enabled v
                  \<and> (\<exists>c \<in> set (t_certificates demo_tables). tc_trusted_vcenter_id c = tv_id v
                       \<and> tc_fingerprint_sha256 c = f \<and> certificate_status 50 c = lit ''valid'')))" for f i
    by blast
  have "map_of (fingerprint_providers config) demo_digest = Some demo_provider"
    unfolding g using demo_certificate_valid
    by (simp add: demo_key_provider_def demo_tables_def demo_trusted_vcenter_def) (simp add: demo_trusted_certificate_def)
  with r show ?thesis by (auto simp: demo_settings_def)
qed

subsection \<open>Recovered trust\<close>

definition closed :: "kms_tables \<Rightarrow> bool" where
  "closed db \<longleftrightarrow> list_all (\<lambda>p. \<not> kp_enabled p \<and> kp_applied_at p = None) (t_providers db) \<and> list_all (\<lambda>v. \<not> tv_enabled v) (t_vcenters db)"

lemma flush_Inr: "flush db = Inr db' \<Longrightarrow> db' = db \<and> texts_bind db \<and> constraints_hold db"
  by (auto simp: flush_def bindE_Inr_iff)

lemma mapE_list_all: "mapE f xs = Inr ys \<Longrightarrow> (\<And>x y. f x = Inr y \<Longrightarrow> P y) \<Longrightarrow> list_all P ys"
  by (induction xs arbitrary: ys) (auto simp: bindE_Inr_iff)

lemma enter_trust_Inr:
  assumes "enter_trust renv now trust db = Inr db'"
  obtains ps vs cs where "bindE (recovered_rows trust ''providers'') (mapE (recovered_provider now)) = Inr ps"
    "bindE (recovered_rows trust ''vcenters'') (mapE recovered_vcenter) = Inr vs"
    "bindE (recovered_rows trust ''certificates'') (mapE (recovered_certificate renv)) = Inr cs"
    "db' = db\<lparr>t_providers := t_providers db @ ps, t_vcenters := t_vcenters db @ vs, t_certificates := t_certificates db @ cs\<rparr>"
    "constraints_hold db'"
proof -
  from assms obtain ps db1 vs db2 cs where r: "bindE (recovered_rows trust ''providers'') (mapE (recovered_provider now)) = Inr ps"
    "flush (db\<lparr>t_providers := t_providers db @ ps\<rparr>) = Inr db1" "bindE (recovered_rows trust ''vcenters'') (mapE recovered_vcenter) = Inr vs"
    "flush (db1\<lparr>t_vcenters := t_vcenters db1 @ vs\<rparr>) = Inr db2"
    "bindE (recovered_rows trust ''certificates'') (mapE (recovered_certificate renv)) = Inr cs"
    "flush (db2\<lparr>t_certificates := t_certificates db2 @ cs\<rparr>) = Inr db'"
    unfolding enter_trust_def bindE_Inr_iff by metis
  from flush_Inr [OF r(2)] flush_Inr [OF r(4)] flush_Inr [OF r(6)]
  have "db' = db\<lparr>t_providers := t_providers db @ ps, t_vcenters := t_vcenters db @ vs, t_certificates := t_certificates db @ cs\<rparr>"
    "constraints_hold db'" by simp_all
  with r(1,3,5) that show thesis by blast
qed

lemma entered_closed: "enter_trust renv now trust db = Inr db' \<Longrightarrow> closed db \<Longrightarrow> closed db'"
  by (erule enter_trust_Inr)
    (auto simp: closed_def bindE_Inr_iff recovered_provider_def recovered_vcenter_def elim!: mapE_list_all)

lemma closed_grants_nothing:
  assumes "closed db"
  shows "client_fingerprints now db p = []" "mapE (rendered_provider env now db) (t_providers db) = Inr (map (\<lambda>_. []) (t_providers db))"
    "render_client_trust_bundle env now db None (t_providers db) = Inr []"
proof -
  have v: "filter tv_enabled (trusted_vcenters db p) = []" for p
    using assms by (auto simp: closed_def trusted_vcenters_def list_all_iff filter_empty_conv)
  show "client_fingerprints now db p = []" by (simp add: client_fingerprints_def v)
  have "mapE (rendered_provider env now db) ps = Inr (map (\<lambda>_. []) ps)" if "list_all (\<lambda>p. \<not> kp_enabled p) ps" for ps
    using that by (induction ps) (simp_all add: rendered_provider_def)
  then show "mapE (rendered_provider env now db) (t_providers db) = Inr (map (\<lambda>_. []) (t_providers db))"
    using assms by (simp add: closed_def list_all_iff)
  show "render_client_trust_bundle env now db None (t_providers db) = Inr []"
    using assms by (simp add: render_client_trust_bundle_def closed_def list_all_iff filter_empty_conv)
qed

lemma import_trust_Inr:
  assumes "import_trust renv now helper busy archive passphrase db = (Inr (), db')"
  obtains response trust where "request helper ''recovery-import''
      (JObj [(lit ''passphrase'', JStr passphrase), (lit ''archive'', JStr (b64encode archive))]) = Inr response"
    "map_of response (lit ''trust'') = Some trust" "validate_trust renv trust = Inr ()" "enter_trust renv now trust db = Inr db'"
    "length archive \<le> MAX_ARCHIVE_BYTES" "\<not> busy" "t_providers db = []" "t_vcenters db = []" "t_certificates db = []"
proof -
  have "validate_trust renv JNull \<noteq> Inr ()" by (simp add: validate_trust_def)
  with assms show thesis
    by (auto simp: import_trust_def Let_def bindE_Inr_iff admit_def split: sum.splits option.splits intro: that)
qed

lemma import_trust_Inl: "import_trust renv now helper busy archive passphrase db = (Inl e, db') \<Longrightarrow> db' = db"
  by (auto simp: import_trust_def split: sum.splits)

text \<open>The rows of the tables are those of the accepted trust.\<close>

definition holds_trust :: "kms_tables \<Rightarrow> json \<Rightarrow> bool" where
  "holds_trust db trust \<longleftrightarrow> (\<exists>ps vs cs. trust_graph trust ps vs cs
     \<and> map (\<lambda>p. (kp_id p, kp_name p, kp_description p)) (t_providers db)
         = map (\<lambda>d. (text_field ''id'' d, text_field ''name'' d, text_field ''description'' d)) ps
     \<and> map (\<lambda>v. (tv_id v, tv_provider_id v, tv_name v, tv_hostname v, tv_description v)) (t_vcenters db)
         = map (\<lambda>d. (text_field ''id'' d, text_field ''provider_id'' d, text_field ''name'' d, text_field ''hostname'' d,
             text_field ''description'' d)) vs
     \<and> map (\<lambda>c. (tc_id c, tc_trusted_vcenter_id c, tc_certificate_pem c, tc_fingerprint_sha256 c)) (t_certificates db)
         = map (\<lambda>d. (text_field ''id'' d, text_field ''trusted_vcenter_id'' d, text_field ''certificate_pem'' d,
             text_field ''fingerprint_sha256'' d)) cs)"

lemma sub_text_field: "sub_text (JObj d) name = Inr s \<Longrightarrow> text_field name d = s"
  by (auto simp: sub_text_def subscript_def text_of_def bindE_Inr_iff json_case_iff text_field_lookup)

lemma mapE_image: "mapE f (map JObj ds) = Inr ys \<Longrightarrow> (\<And>d y. f (JObj d) = Inr y \<Longrightarrow> g y = h d) \<Longrightarrow> map g ys = map h ds"
  by (induction ds arbitrary: ys) (auto simp: bindE_Inr_iff)

lemma entered_holds:
  assumes "validate_trust renv trust = Inr ()" and "enter_trust renv now trust db = Inr db'"
    and "t_providers db = []" "t_vcenters db = []" "t_certificates db = []"
  shows "holds_trust db' trust"
proof -
  obtain ps vs cs where g: "trust_graph trust ps vs cs" using assms(1) by (rule validate_trust_Inr)
  from assms(2) show ?thesis
  proof (rule enter_trust_Inr)
    fix qs us ds assume r: "bindE (recovered_rows trust ''providers'') (mapE (recovered_provider now)) = Inr qs"
      "bindE (recovered_rows trust ''vcenters'') (mapE recovered_vcenter) = Inr us"
      "bindE (recovered_rows trust ''certificates'') (mapE (recovered_certificate renv)) = Inr ds"
      and db': "db' = db\<lparr>t_providers := t_providers db @ qs, t_vcenters := t_vcenters db @ us, t_certificates := t_certificates db @ ds\<rparr>"
    have m: "mapE (recovered_provider now) (map JObj ps) = Inr qs" "mapE recovered_vcenter (map JObj vs) = Inr us"
      "mapE (recovered_certificate renv) (map JObj cs) = Inr ds"
      using r g by (simp_all add: recovered_rows_def trust_graph_def items_of_def)
    show ?thesis
      unfolding holds_trust_def db' using g assms(3-5)
      by (intro exI [of _ ps] exI [of _ vs] exI [of _ cs] conjI; simp?)
        (rule mapE_image [OF m(1)] mapE_image [OF m(2)] mapE_image [OF m(3)];
         auto simp: recovered_provider_def recovered_vcenter_def recovered_certificate_def bindE_Inr_iff dest: sub_text_field)+
  qed
qed

text \<open>
  C12: an imported archive opens nothing. Importing recovered trust either fails and leaves the tables as they
  were, or it found them empty and enters exactly the rows of the validated trust the helper returned, under
  the tables' constraints; every provider and every vCenter is then disabled and none is marked as applied, so
  that at any later time the rendered configuration lists no provider, and the client trust bundle no certificate.
\<close>

theorem recovered_trust_closed:
  assumes "import_trust renv now helper busy archive passphrase db = (result, db')"
  shows "(\<forall>e. result = Inl e \<longrightarrow> db' = db)
     \<and> (result = Inr () \<longrightarrow>
          t_providers db = [] \<and> t_vcenters db = [] \<and> t_certificates db = [] \<and> \<not> busy \<and> constraints_hold db'
        \<and> (\<exists>response trust. request helper ''recovery-import''
             (JObj [(lit ''passphrase'', JStr passphrase), (lit ''archive'', JStr (b64encode archive))]) = Inr response
             \<and> map_of response (lit ''trust'') = Some trust \<and> validate_trust renv trust = Inr () \<and> holds_trust db' trust)
        \<and> (\<forall>p \<in> set (t_providers db'). provider_requires_appliance_apply p)
        \<and> (\<forall>env t. mapE (rendered_provider env t db') (t_providers db') = Inr (map (\<lambda>_. []) (t_providers db'))
             \<and> render_client_trust_bundle env t db' None (t_providers db') = Inr []))"
proof (cases result)
  case (Inl e)
  with assms import_trust_Inl show ?thesis by auto
next
  case (Inr u)
  with assms have "import_trust renv now helper busy archive passphrase db = (Inr (), db')" by simp
  then show ?thesis
  proof (rule import_trust_Inr)
    fix response trust assume r: "request helper ''recovery-import''
        (JObj [(lit ''passphrase'', JStr passphrase), (lit ''archive'', JStr (b64encode archive))]) = Inr response"
      "map_of response (lit ''trust'') = Some trust" "validate_trust renv trust = Inr ()" and e: "enter_trust renv now trust db = Inr db'"
      and empty: "\<not> busy" "t_providers db = []" "t_vcenters db = []" "t_certificates db = []"
    have c: "closed db'" using entered_closed [OF e] empty by (simp add: closed_def)
    moreover have "constraints_hold db'" using e by (rule enter_trust_Inr)
    moreover have "holds_trust db' trust" using entered_holds [OF r(3) e empty(2-4)] .
    moreover have "\<forall>p \<in> set (t_providers db'). provider_requires_appliance_apply p"
      using c by (auto simp: closed_def list_all_iff provider_requires_appliance_apply_def)
    ultimately show ?thesis using r empty closed_grants_nothing(2,3) [OF c] Inr by blast
  qed
qed

subsection \<open>Recovered trust is the exported trust\<close>

definition disabled_provider :: "int \<Rightarrow> key_provider \<Rightarrow> key_provider" where
  "disabled_provider now p = p\<lparr>kp_enabled := False, kp_applied_at := None, kp_updated_at := now\<rparr>"

definition disabled_vcenter :: "trusted_vcenter \<Rightarrow> trusted_vcenter" where
  "disabled_vcenter v = v\<lparr>tv_enabled := False\<rparr>"

text \<open>What the forms enter: canonical identifiers, bounded texts, and the metadata of the stored certificate itself.\<close>

definition certificate_sound :: "recovery_env \<Rightarrow> trusted_certificate \<Rightarrow> bool" where
  "certificate_sound renv c \<longleftrightarrow> uuid_canon (uni (base renv)) (tc_id c) = Some (tc_id c) \<and> tc_source c = lit ''uploaded_public''
     \<and> (case parse_public_certificate (load_pem renv) None (tc_certificate_pem c) of
          Inl _ \<Rightarrow> False
        | Inr x \<Rightarrow> tc_fingerprint_sha256 c = pc_fingerprint_sha256 x \<and> tc_subject c = pc_subject x \<and> tc_issuer c = pc_issuer x
            \<and> tc_serial_number c = pc_serial_number x \<and> tc_not_valid_before c = Some (pc_not_valid_before x)
            \<and> tc_not_valid_after c = Some (pc_not_valid_after x))"

definition tables_sound :: "recovery_env \<Rightarrow> kms_tables \<Rightarrow> bool" where
  "tables_sound renv db \<longleftrightarrow> constraints_hold db \<and> texts_bind db
     \<and> length (t_providers db) \<le> 10000 \<and> length (t_vcenters db) \<le> 10000 \<and> length (t_certificates db) \<le> 10000
     \<and> list_all (\<lambda>p. uuid_canon (uni (base renv)) (kp_id p) = Some (kp_id p) \<and> kp_name p \<noteq> [] \<and> length (kp_name p) \<le> 120
          \<and> length (kp_description p) \<le> 4096) (t_providers db)
     \<and> list_all (\<lambda>v. uuid_canon (uni (base renv)) (tv_id v) = Some (tv_id v) \<and> tv_name v \<noteq> [] \<and> length (tv_name v) \<le> 120
          \<and> length (tv_description v) \<le> 4096 \<and> length (tv_hostname v) \<le> 253) (t_vcenters db)
     \<and> list_all (certificate_sound renv) (t_certificates db)"

definition recovered_tables :: "int \<Rightarrow> kms_tables \<Rightarrow> kms_tables" where
  "recovered_tables now db = \<lparr>t_providers = map (disabled_provider now) (sort_key kp_id (t_providers db)),
     t_vcenters = map disabled_vcenter (sort_key tv_id (t_vcenters db)), t_certificates = sort_key tc_id (t_certificates db)\<rparr>"

lemma provider_documents_fold:
  assumes "list_all (\<lambda>p. uuid_canon (uni (base renv)) (kp_id p) = Some (kp_id p) \<and> kp_name p \<noteq> [] \<and> length (kp_name p) \<le> 120
          \<and> length (kp_description p) \<le> 4096) ps"
    and "distinct (map kp_id ps @ ids)" "distinct (map kp_name ps @ names)"
  shows "foldE (provider_row renv) (ids, names) (map provider_document ps) = Inr (rev (map kp_id ps) @ ids, rev (map kp_name ps) @ names)"
  using assms
proof (induction ps arbitrary: ids names)
  case (Cons p ps)
  have "has_fields [(lit ''id'', JStr (kp_id p)), (lit ''name'', JStr (kp_name p)), (lit ''description'', JStr (kp_description p)),
      (lit ''enabled'', JBool (kp_enabled p))] PROVIDER_ROW"
    by (simp add: has_fields_def PROVIDER_ROW_def insert_commute)
  then have "provider_row renv (ids, names) (provider_document p) = Inr (kp_id p # ids, kp_name p # names)"
    using Cons.prems by (simp add: provider_row_def provider_document_def trust_row_def lookup_field_def trust_label_def text_length_def lit_def
        Suc_le_eq)
  with Cons show ?case by simp
qed simp

lemma vcenter_documents_fold:
  assumes "list_all (\<lambda>v. uuid_canon (uni (base renv)) (tv_id v) = Some (tv_id v) \<and> tv_name v \<noteq> [] \<and> length (tv_name v) \<le> 120
          \<and> length (tv_description v) \<le> 4096 \<and> length (tv_hostname v) \<le> 253) vs"
    and "list_all (\<lambda>v. tv_provider_id v \<in> set ps) vs"
    and "distinct (map tv_id vs @ ids)" "distinct (map (\<lambda>v. (tv_provider_id v, tv_name v)) vs @ names)"
  shows "foldE (vcenter_row renv ps) (ids, names) (map vcenter_document vs)
    = Inr (rev (map tv_id vs) @ ids, rev (map (\<lambda>v. (tv_provider_id v, tv_name v)) vs) @ names)"
  using assms
proof (induction vs arbitrary: ids names)
  case (Cons v vs)
  have "has_fields [(lit ''id'', JStr (tv_id v)), (lit ''provider_id'', JStr (tv_provider_id v)), (lit ''name'', JStr (tv_name v)),
      (lit ''hostname'', JStr (tv_hostname v)), (lit ''description'', JStr (tv_description v)), (lit ''enabled'', JBool (tv_enabled v))] VCENTER_ROW"
    by (simp add: has_fields_def VCENTER_ROW_def insert_commute)
  then have "vcenter_row renv ps (ids, names) (vcenter_document v) = Inr (tv_id v # ids, (tv_provider_id v, tv_name v) # names)"
    using Cons.prems by (simp add: vcenter_row_def vcenter_document_def trust_row_def lookup_field_def trust_label_def text_length_def lit_def
        Suc_le_eq member_of_def)
  with Cons show ?case by simp
qed simp

lemma certificate_documents_fold:
  assumes "list_all (certificate_sound renv) cs" and "list_all (\<lambda>c. tc_trusted_vcenter_id c \<in> set vs) cs"
    and "distinct (map tc_id cs @ ids)" "distinct (map tc_fingerprint_sha256 cs @ names)"
  shows "foldE (certificate_row renv vs) (ids, names) (map certificate_document cs)
    = Inr (rev (map tc_id cs) @ ids, rev (map tc_fingerprint_sha256 cs) @ names)"
  using assms
proof (induction cs arbitrary: ids names)
  case (Cons c cs)
  have f: "has_fields [(lit ''id'', JStr (tc_id c)), (lit ''trusted_vcenter_id'', JStr (tc_trusted_vcenter_id c)),
      (lit ''certificate_pem'', JStr (tc_certificate_pem c)), (lit ''fingerprint_sha256'', JStr (tc_fingerprint_sha256 c))] CERTIFICATE_ROW"
    by (simp add: has_fields_def CERTIFICATE_ROW_def insert_commute)
  from Cons.prems(1) obtain x where x: "parse_public_certificate (load_pem renv) None (tc_certificate_pem c) = Inr x"
    "tc_fingerprint_sha256 c = pc_fingerprint_sha256 x" "uuid_canon (uni (base renv)) (tc_id c) = Some (tc_id c)"
    by (auto simp: certificate_sound_def split: sum.splits)
  with f have "certificate_row renv vs (ids, names) (certificate_document c) = Inr (tc_id c # ids, tc_fingerprint_sha256 c # names)"
    using Cons.prems(2-4) by (simp add: certificate_row_def certificate_document_def trust_row_def lookup_field_def lit_def member_of_def)
  with Cons show ?case by simp
qed simp

lemma public_trust_valid:
  assumes "tables_sound renv db"
  shows "validate_trust renv (public_trust db) = Inr ()"
proof -
  let ?ps = "sort_key kp_id (t_providers db)" and ?vs = "sort_key tv_id (t_vcenters db)" and ?cs = "sort_key tc_id (t_certificates db)"
  note s = assms [unfolded tables_sound_def constraints_hold_def]
  have d: "distinct (map f (sort_key k xs)) = distinct (map f xs)" for f :: "'a \<Rightarrow> 'b" and k :: "'a \<Rightarrow> ustr" and xs
    by (simp add: distinct_map)
  have p: "foldE (provider_row renv) ([], []) (map provider_document ?ps) = Inr (rev (map kp_id ?ps), rev (map kp_name ?ps))"
    using provider_documents_fold [of renv ?ps "[]" "[]"] s by (simp add: d list_all_iff)
  have v: "foldE (vcenter_row renv (rev (map kp_id ?ps))) ([], []) (map vcenter_document ?vs)
      = Inr (rev (map tv_id ?vs), rev (map (\<lambda>v. (tv_provider_id v, tv_name v)) ?vs))"
    using vcenter_documents_fold [of renv ?vs "rev (map kp_id ?ps)" "[]" "[]"] s by (simp add: d list_all_iff)
  have c: "foldE (certificate_row renv (rev (map tv_id ?vs))) ([], []) (map certificate_document ?cs)
      = Inr (rev (map tc_id ?cs), rev (map tc_fingerprint_sha256 ?cs))"
    using certificate_documents_fold [of renv ?cs "rev (map tv_id ?vs)" "[]" "[]"] s by (simp add: d list_all_iff)
  have "has_fields [(lit ''providers'', a), (lit ''vcenters'', b), (lit ''certificates'', e)] TRUST_FIELDS" for a b e
    by (simp add: has_fields_def TRUST_FIELDS_def)
  then show ?thesis using p v c s
    by (simp add: validate_trust_def public_trust_def trust_rows_def subscript_def lookup_field_def lit_def)
qed

lemma public_trust_wf:
  assumes "texts_bind db"
  shows "wf_json (public_trust db)"
proof -
  have "wf_json (provider_document p)" if "p \<in> set (t_providers db)" for p
    using that assms by (simp add: texts_bind_def list_all_iff [of _ "t_providers db"] provider_document_def wf_json.simps lit_scalar_cong)
  moreover have "wf_json (vcenter_document v)" if "v \<in> set (t_vcenters db)" for v
    using that assms by (simp add: texts_bind_def list_all_iff [of _ "t_vcenters db"] vcenter_document_def wf_json.simps lit_scalar_cong)
  moreover have "wf_json (certificate_document c)" if "c \<in> set (t_certificates db)" for c
    using that assms by (simp add: texts_bind_def list_all_iff [of _ "t_certificates db"] certificate_document_def wf_json.simps lit_scalar_cong)
  ultimately have "list_all wf_json (map provider_document (sort_key kp_id (t_providers db)))"
    "list_all wf_json (map vcenter_document (sort_key tv_id (t_vcenters db)))"
    "list_all wf_json (map certificate_document (sort_key tc_id (t_certificates db)))" by (simp_all add: list_all_iff)
  then show ?thesis by (simp add: public_trust_def wf_json.simps lit_scalar_cong)
qed

lemma sub_text_canon: "distinct (map fst d) \<Longrightarrow> lookup_field d name = Inr (JStr s) \<Longrightarrow> sub_text (canon (JObj d)) name = Inr s"
  by (simp add: sub_text_def subscript_def lookup_canon text_of_def)

lemma recovered_documents:
  "recovered_provider now (canon (provider_document p)) = Inr (disabled_provider now p)"
  "recovered_vcenter (canon (vcenter_document v)) = Inr (disabled_vcenter v)"
  "certificate_sound renv c \<Longrightarrow> recovered_certificate renv (canon (certificate_document c)) = Inr c"
proof -
  let ?p = "[(lit ''id'', JStr (kp_id p)), (lit ''name'', JStr (kp_name p)), (lit ''description'', JStr (kp_description p)),
    (lit ''enabled'', JBool (kp_enabled p))]"
  have "distinct (map fst ?p)" by (simp add: lit_def)
  note t = sub_text_canon [OF this]
  have "sub_text (canon (JObj ?p)) ''id'' = Inr (kp_id p)" "sub_text (canon (JObj ?p)) ''name'' = Inr (kp_name p)"
    "sub_text (canon (JObj ?p)) ''description'' = Inr (kp_description p)"
    by (rule t, simp add: lookup_field_def lit_def)+
  then show "recovered_provider now (canon (provider_document p)) = Inr (disabled_provider now p)"
    unfolding provider_document_def recovered_provider_def by (simp add: disabled_provider_def)
next
  let ?v = "[(lit ''id'', JStr (tv_id v)), (lit ''provider_id'', JStr (tv_provider_id v)), (lit ''name'', JStr (tv_name v)),
    (lit ''hostname'', JStr (tv_hostname v)), (lit ''description'', JStr (tv_description v)), (lit ''enabled'', JBool (tv_enabled v))]"
  have "distinct (map fst ?v)" by (simp add: lit_def)
  note t = sub_text_canon [OF this]
  have "sub_text (canon (JObj ?v)) ''id'' = Inr (tv_id v)" "sub_text (canon (JObj ?v)) ''provider_id'' = Inr (tv_provider_id v)"
    "sub_text (canon (JObj ?v)) ''name'' = Inr (tv_name v)" "sub_text (canon (JObj ?v)) ''hostname'' = Inr (tv_hostname v)"
    "sub_text (canon (JObj ?v)) ''description'' = Inr (tv_description v)"
    by (rule t, simp add: lookup_field_def lit_def)+
  then show "recovered_vcenter (canon (vcenter_document v)) = Inr (disabled_vcenter v)"
    unfolding vcenter_document_def recovered_vcenter_def by (simp add: disabled_vcenter_def)
next
  assume s: "certificate_sound renv c"
  let ?c = "[(lit ''id'', JStr (tc_id c)), (lit ''trusted_vcenter_id'', JStr (tc_trusted_vcenter_id c)),
    (lit ''certificate_pem'', JStr (tc_certificate_pem c)), (lit ''fingerprint_sha256'', JStr (tc_fingerprint_sha256 c))]"
  have "distinct (map fst ?c)" by (simp add: lit_def)
  note t = sub_text_canon [OF this]
  have "sub_text (canon (JObj ?c)) ''id'' = Inr (tc_id c)" "sub_text (canon (JObj ?c)) ''trusted_vcenter_id'' = Inr (tc_trusted_vcenter_id c)"
    "sub_text (canon (JObj ?c)) ''certificate_pem'' = Inr (tc_certificate_pem c)"
    "sub_text (canon (JObj ?c)) ''fingerprint_sha256'' = Inr (tc_fingerprint_sha256 c)"
    by (rule t, simp add: lookup_field_def lit_def)+
  then show "recovered_certificate renv (canon (certificate_document c)) = Inr c"
    using s unfolding certificate_document_def recovered_certificate_def
    by (cases c) (auto simp: certificate_sound_def split: sum.splits)
qed

lemma recovered_tables_flush:
  assumes "tables_sound renv db"
  shows "texts_bind (recovered_tables now db)" "constraints_hold (recovered_tables now db)"
proof -
  show "texts_bind (recovered_tables now db)"
    using assms by (auto simp: tables_sound_def texts_bind_def recovered_tables_def disabled_provider_def disabled_vcenter_def list_all_iff)
  show "constraints_hold (recovered_tables now db)"
    using assms unfolding tables_sound_def
    by (auto simp: constraints_hold_def recovered_tables_def disabled_provider_def disabled_vcenter_def list_all_iff distinct_map comp_def image_image)
qed

lemma partial_tables:
  "texts_bind db \<Longrightarrow> texts_bind (db\<lparr>t_certificates := []\<rparr>)" "constraints_hold db \<Longrightarrow> constraints_hold (db\<lparr>t_certificates := []\<rparr>)"
  "texts_bind db \<Longrightarrow> texts_bind (db\<lparr>t_vcenters := [], t_certificates := []\<rparr>)"
  "constraints_hold db \<Longrightarrow> constraints_hold (db\<lparr>t_vcenters := [], t_certificates := []\<rparr>)"
  by (simp_all add: texts_bind_def constraints_hold_def)

lemma enter_public_trust:
  assumes s: "tables_sound renv db" and e: "t_providers target = []" "t_vcenters target = []" "t_certificates target = []"
  shows "enter_trust renv now (canon (public_trust db)) target = Inr (recovered_tables now db)"
proof -
  let ?d = "[(lit ''providers'', JArr (map provider_document (sort_key kp_id (t_providers db)))),
     (lit ''vcenters'', JArr (map vcenter_document (sort_key tv_id (t_vcenters db)))),
     (lit ''certificates'', JArr (map certificate_document (sort_key tc_id (t_certificates db))))]"
  have di: "distinct (map fst ?d)" by (simp add: lit_def)
  have "recovered_rows (canon (JObj ?d)) name = Inr (map canon xs)" if "lookup_field ?d name = Inr (JArr xs)" for name xs
    using that lookup_canon [OF di, of name] by (simp add: recovered_rows_def subscript_def items_of_def)
  then have rows: "recovered_rows (canon (public_trust db)) ''providers'' = Inr (map (canon \<circ> provider_document) (sort_key kp_id (t_providers db)))"
    "recovered_rows (canon (public_trust db)) ''vcenters'' = Inr (map (canon \<circ> vcenter_document) (sort_key tv_id (t_vcenters db)))"
    "recovered_rows (canon (public_trust db)) ''certificates'' = Inr (map (canon \<circ> certificate_document) (sort_key tc_id (t_certificates db)))"
    unfolding public_trust_def by (simp_all add: lookup_field_def lit_def)
  have c: "list_all (certificate_sound renv) (t_certificates db)" using s by (simp add: tables_sound_def)
  have m: "mapE f (map (canon \<circ> g) xs) = Inr (map h xs)" if "\<And>x. x \<in> set xs \<Longrightarrow> f (canon (g x)) = Inr (h x)" for f g h xs
    using that by (induction xs) simp_all
  have t: "target = \<lparr>t_providers = [], t_vcenters = [], t_certificates = []\<rparr>" using e by (cases target) simp
  note f = recovered_tables_flush [OF s, of now]
  note p = partial_tables(1,3) [OF f(1)] partial_tables(2,4) [OF f(2)]
  show ?thesis
    unfolding enter_trust_def rows bindE_simps t
    using f p c m [of "sort_key kp_id (t_providers db)" "recovered_provider now" provider_document "disabled_provider now"]
      m [of "sort_key tv_id (t_vcenters db)" recovered_vcenter vcenter_document disabled_vcenter]
      m [of "sort_key tc_id (t_certificates db)" "recovered_certificate renv" certificate_document "\<lambda>c. c"]
    by (simp add: recovered_documents list_all_iff flush_def) (simp add: recovered_tables_def)
qed

text \<open>
  C13: public trust survives recovery. From tables that satisfy their constraints and the checks of the forms,
  the exported trust document is accepted by the archive's validation, and importing an archive whose helper
  returns that document, as read back from JSON, into an empty database enters exactly the exported rows,
  ordered by identifier, each certificate with its metadata, and the providers and vCenters disabled.
\<close>

theorem exported_trust_recovered:
  assumes "tables_sound renv db" and "length archive \<le> MAX_ARCHIVE_BYTES"
    and "t_providers target = []" "t_vcenters target = []" "t_certificates target = []"
    and "request helper ''recovery-import''
       (JObj [(lit ''passphrase'', JStr passphrase), (lit ''archive'', JStr (b64encode archive))]) = Inr response"
    and "map_of response (lit ''trust'') = loads (dumps (public_trust db))"
  shows "validate_trust renv (public_trust db) = Inr ()
     \<and> import_trust renv now helper False archive passphrase target = (Inr (), recovered_tables now db)"
proof -
  have v: "validate_trust renv (public_trust db) = Inr ()" using public_trust_valid [OF assms(1)] .
  have wf: "wf_json (public_trust db)" using assms(1) public_trust_wf by (simp add: tables_sound_def)
  have t: "map_of response (lit ''trust'') = Some (canon (public_trust db))" using assms(7) loads_dumps [OF wf] by simp
  have c: "validate_trust renv (canon (public_trust db)) = Inr ()" using v validate_trust_canon [OF wf] by simp
  show ?thesis
    using v enter_public_trust [OF assms(1,3,4,5)] assms(2-6) c by (simp add: import_trust_def admit_def t)
qed

subsection \<open>A concrete recovery\<close>

definition demo_empty :: kms_tables where
  "demo_empty = \<lparr>t_providers = [], t_vcenters = [], t_certificates = []\<rparr>"

definition demo_helper :: helper where
  "demo_helper action payload = \<lparr>hr_dry_run = False, hr_returncode = 0,
     hr_stdout = Inr (JObj [(lit ''trust'', the (loads (dumps (public_trust demo_tables))))])\<rparr>"

lemma demo_tables_sound: "tables_sound demo_pem_recovery demo_tables"
proof -
  have "certificate_sound demo_pem_recovery demo_trusted_certificate"
    using demo_provider_canon by (simp add: certificate_sound_def demo_trusted_certificate_def demo_pem_parsed)
  moreover have "constraints_hold demo_tables"
    by (simp add: constraints_hold_def demo_tables_def demo_trusted_vcenter_def demo_trusted_certificate_def demo_key_provider_def)
  moreover have "texts_bind demo_tables"
    using uuid_canon_scalar [OF demo_provider_canon] digest_text(2) [OF demo_digest_ok]
    by (simp add: texts_bind_def demo_tables_def demo_trusted_vcenter_def demo_trusted_certificate_def demo_key_provider_def lit_scalar_cong is_scalar_def)
  ultimately show ?thesis
    using demo_provider_canon
    by (simp add: tables_sound_def demo_tables_def) (simp add: demo_trusted_vcenter_def demo_key_provider_def lit_def)
qed

lemma demo_requested: "request demo_helper action payload = Inr [(lit ''trust'', the (loads (dumps (public_trust demo_tables))))]"
  by (simp add: request_def demo_helper_def)

lemma demo_loaded: "map_of [(lit ''trust'', the (loads (dumps (public_trust demo_tables))))] (lit ''trust'') = loads (dumps (public_trust demo_tables))"
  using demo_tables_sound loads_dumps [OF public_trust_wf [of demo_tables]] by (simp add: tables_sound_def)

theorem exported_trust_recovered_witness:
  "import_trust demo_pem_recovery 60 demo_helper False [] (lit ''correct horse'') demo_empty = (Inr (), recovered_tables 60 demo_tables)
     \<and> t_certificates (recovered_tables 60 demo_tables) = [demo_trusted_certificate]"
proof -
  have "import_trust demo_pem_recovery 60 demo_helper False [] (lit ''correct horse'') demo_empty = (Inr (), recovered_tables 60 demo_tables)"
    using exported_trust_recovered [OF demo_tables_sound _ _ _ _ demo_requested demo_loaded, of "[]" demo_empty] by (simp add: demo_empty_def)
  then show ?thesis by (simp add: recovered_tables_def demo_tables_def)
qed

theorem recovered_trust_closed_witness:
  "\<exists>db'. import_trust demo_pem_recovery 60 demo_helper False [] (lit ''correct horse'') demo_empty = (Inr (), db')
     \<and> t_providers db' \<noteq> [] \<and> constraints_hold db' \<and> render_client_trust_bundle demo_env 70 db' None (t_providers db') = Inr []"
proof -
  have "validate_trust demo_pem_recovery (canon (public_trust demo_tables)) = Inr ()"
    using validate_trust_canon [OF public_trust_wf] public_trust_valid [OF demo_tables_sound] demo_tables_sound
    by (simp add: tables_sound_def)
  then have r: "import_trust demo_pem_recovery 60 demo_helper False [] (lit ''correct horse'') demo_empty = (Inr (), recovered_tables 60 demo_tables)"
    using enter_public_trust [OF demo_tables_sound, of demo_empty 60] demo_loaded loads_dumps [OF public_trust_wf [of demo_tables]] demo_tables_sound
    by (simp add: import_trust_def admit_def demo_requested demo_empty_def tables_sound_def)
  then show ?thesis
    using recovered_trust_closed [OF r] by (intro exI [of _ "recovered_tables 60 demo_tables"]) (simp add: recovered_tables_def demo_tables_def)
qed

subsection \<open>Reported counts\<close>

definition counts_ok :: "runtime_counts \<Rightarrow> bool" where
  "counts_ok c \<longleftrightarrow> 0 \<le> pre_active c \<and> 0 \<le> active c \<and> pre_active c + active c = total c"

definition reported_ok :: "env \<Rightarrow> (ustr \<times> runtime_counts) list \<Rightarrow> bool" where
  "reported_ok env d \<longleftrightarrow> distinct (map fst d) \<and> (\<forall>(i, c) \<in> set d. uuid_canon (uni env) i = Some i \<and> counts_ok c)"

lemma count_value_nonneg: "count_value d n = Some i \<Longrightarrow> 0 \<le> i"
  by (auto simp: count_value_def split: option.splits json.splits if_splits)

lemma dict_put_set: "set (dict_put k v d) \<subseteq> insert (k, v) (set d)"
  by (induction k v d rule: dict_put.induct) auto

lemma dict_put_distinct: "distinct (map fst d) \<Longrightarrow> distinct (map fst (dict_put k v d))"
proof (induction k v d rule: dict_put.induct)
  case (2 k v k' v' d)
  have "fst ` set (dict_put k v d) \<subseteq> insert k (fst ` set d)" using dict_put_set [of k v d] by force
  with 2 show ?case by auto
qed simp

lemma provider_counts_ok:
  assumes "provider_counts env d item = Inr d'" and "reported_ok env d"
  shows "reported_ok env d'"
proof -
  from assms(1) obtain i where i: "uuid_canon (uni env) (fst item) = Some i"
    by (cases "uuid_canon (uni env) (fst item)") (auto simp: provider_counts_def)
  from assms(1) i obtain d1 where o: "snd item = JObj d1"
    by (cases "snd item") (auto simp: provider_counts_def)
  from assms(1) obtain p a t where n: "count_value d1 ''pre_active'' = Some p" "count_value d1 ''active'' = Some a"
    "count_value d1 ''total'' = Some t" "p + a = t" and d': "d' = dict_put i (Counts p a t) d"
    by (cases "count_value d1 ''pre_active''"; cases "count_value d1 ''active''"; cases "count_value d1 ''total''")
      (auto simp: provider_counts_def i o split: if_split_asm)
  have c: "counts_ok (Counts p a t)" using n(4) n(1,2) [THEN count_value_nonneg] by (simp add: counts_ok_def)
  from dict_put_set [of i "Counts p a t" d] have "\<forall>(j, c) \<in> set d'. uuid_canon (uni env) j = Some j \<and> counts_ok c"
    using assms(2) c uuid_canon_idem [OF i] by (auto simp: d' reported_ok_def)
  moreover have "distinct (map fst d')" using assms(2) by (simp add: d' reported_ok_def dict_put_distinct)
  ultimately show ?thesis unfolding reported_ok_def by (rule conjI [rotated])
qed

text \<open>
  C40: a status report is well formed whatever the helper prints. When the snapshot returns, its status is one of
  the two known ones, it counts under canonical provider identifiers, each once, nonnegative numbers of keys that
  add up to the total, and a failed helper reports none; the counts the control plane relies on before it lets a
  provider be removed come only from an available report and have that form too.
\<close>

theorem reported_counts_typed:
  assumes "runtime_status_snapshot py float_true env returncode stdout = Inr snapshot"
  shows "rs_status snapshot \<in> {lit ''available'', lit ''not-reported''}
     \<and> reported_ok env (rs_providers snapshot)
     \<and> (returncode \<noteq> 0 \<longrightarrow> rs_providers snapshot = [] \<and> authenticated_provider_counts snapshot provider_id = None)
     \<and> (\<forall>c. authenticated_provider_counts snapshot provider_id = Some c \<longrightarrow> rs_status snapshot = lit ''available'' \<and> counts_ok c)"
proof -
  have u: "rs_status unavailable = lit ''not-reported''" "reported_ok env (rs_providers unavailable)" by (simp_all add: unavailable_def reported_ok_def)
  have f: "reported_ok env d" if "foldE (provider_counts env) [] xs = Inr d" for xs d
    using that by (rule foldE_invariant [where P = "\<lambda>_. reported_ok env"]) (simp_all add: reported_ok_def [of env "[]"] provider_counts_ok)
  have s: "rs_status snapshot \<in> {lit ''available'', lit ''not-reported''} \<and> reported_ok env (rs_providers snapshot)"
    using assms f u by (auto simp: runtime_status_snapshot_def
        split: if_splits sum.splits exn.splits json.splits option.splits)
  moreover have "lit ''not-reported'' \<noteq> lit ''available''" by (simp add: lit_def)
  then have "returncode \<noteq> 0 \<longrightarrow> rs_providers snapshot = [] \<and> authenticated_provider_counts snapshot provider_id = None"
    using assms by (auto simp: runtime_status_snapshot_def authenticated_provider_counts_def unavailable_def)
  moreover have "rs_status snapshot = lit ''available'' \<and> counts_ok c" if "authenticated_provider_counts snapshot provider_id = Some c" for c
    using that s by (auto simp: authenticated_provider_counts_def counts_ok_def reported_ok_def split: if_splits option.splits dest!: map_of_SomeD)
  ultimately show ?thesis by blast
qed

theorem reported_counts_typed_witness:
  "\<exists>snapshot. runtime_status_snapshot demo_py (\<lambda>t. True) demo_env 0
       (Inr (JObj [(lit ''status'', JText ''available''), (lit ''store_status'', JText ''healthy''),
          (lit ''providers'', JObj [(demo_provider, JObj [(lit ''pre_active'', JInt 1), (lit ''active'', JInt 2), (lit ''total'', JInt 3)])])])) = Inr snapshot
     \<and> authenticated_provider_counts snapshot demo_provider = Some (Counts 1 2 3) \<and> counts_ok (Counts 1 2 3)"
proof -
  let ?d = "JObj [(lit ''status'', JText ''available''), (lit ''store_status'', JText ''healthy''),
    (lit ''providers'', JObj [(demo_provider, JObj [(lit ''pre_active'', JInt 1), (lit ''active'', JInt 2), (lit ''total'', JInt 3)])])]"
  have "provider_counts demo_env [] (demo_provider, JObj [(lit ''pre_active'', JInt 1), (lit ''active'', JInt 2), (lit ''total'', JInt 3)])
      = Inr [(demo_provider, Counts 1 2 3)]"
    by (simp add: provider_counts_def demo_provider_canon count_value_def lit_def)
  then obtain snapshot where s: "runtime_status_snapshot demo_py (\<lambda>t. True) demo_env 0 (Inr ?d) = Inr snapshot"
    "authenticated_provider_counts snapshot demo_provider = Some (Counts 1 2 3)"
    by (simp add: runtime_status_snapshot_def authenticated_provider_counts_def lit_def)
  with reported_counts_typed [OF s(1), of demo_provider] show ?thesis by auto
qed

end
