(* ===== verification/SourceGroups.thy ===== *)
theory SourceGroups
  imports Ip
begin

text \<open>
  Source Groups (\<open>atlaso/app/services/firewall.py\<close>): the named lists of addresses that firewall rules, NAT
  rules and managed services refer to. A group is a dictionary of the settings document; its entries are
  addresses, the word \<open>any\<close>, or references to other groups by identifier (\<open>group:id\<close>) or by name (\<open>@name\<close>).

  Two functions follow references recursively. The depth of calls the interpreter allows is a field of the
  environment: a call deeper than that raises \<open>RecursionError\<close>.
\<close>

record fw =
  fw_py :: py
  fw_lower :: "ustr \<Rightarrow> ustr"          \<comment> \<open>\<open>str.lower\<close> of a text that is not ASCII\<close>
  fw_float_true :: "ustr \<Rightarrow> bool"     \<comment> \<open>\<open>bool\<close> of a float literal\<close>
  fw_isdigit :: "nat \<Rightarrow> bool"         \<comment> \<open>\<open>str.isdigit\<close> of one code point above ASCII\<close>
  fw_decimal :: "nat \<Rightarrow> nat option"   \<comment> \<open>the digit \<open>int\<close> reads a code point above ASCII as\<close>
  fw_depth :: nat                 \<comment> \<open>the depth of nested calls the interpreter allows\<close>

type_synonym group = "(ustr \<times> json) list"
type_synonym groups_by_id = "(ustr \<times> group) list"

subsection \<open>Text\<close>

definition ascii_text :: "ustr \<Rightarrow> bool" where
  "ascii_text s = list_all (\<lambda>c. c < 128) s"

definition lower_char :: "nat \<Rightarrow> nat" where
  "lower_char c = (if 65 \<le> c \<and> c \<le> 90 then c + 32 else c)"

definition lower :: "fw \<Rightarrow> ustr \<Rightarrow> ustr" where
  "lower fw s = (if ascii_text s then map lower_char s else fw_lower fw s)"

definition starts :: "string \<Rightarrow> ustr \<Rightarrow> bool" where
  "starts p s \<longleftrightarrow> take (length p) s = lit p"

text \<open>\<open>re.split(r"[\n,]+", value)\<close>. A run of separators is one separator there; the empty pieces
  between them are dropped by both callers.\<close>

definition is_sep :: "nat \<Rightarrow> bool" where
  "is_sep c \<longleftrightarrow> c = 10 \<or> c = 44"

fun split_seps :: "ustr \<Rightarrow> ustr list" where
  "split_seps [] = [[]]"
| "split_seps (c # s) =
     (if is_sep c then [] # split_seps s
      else case split_seps s of x # xs \<Rightarrow> (c # x) # xs | [] \<Rightarrow> [[c]])"

definition split_source_group_entry_values :: "ustr \<Rightarrow> ustr list" where
  "split_source_group_entry_values v = map strip (filter (\<lambda>item. strip item \<noteq> []) (split_seps v))"

definition split_address_values :: "fw \<Rightarrow> ustr \<Rightarrow> ustr list" where
  "split_address_values fw v = map (\<lambda>item. lower fw (strip item)) (filter (\<lambda>item. strip item \<noteq> []) (split_seps v))"

subsection \<open>Networks\<close>

text \<open>A network of \<open>ipaddress\<close>: the version, the address, the prefix length and the zone of an IPv6 address.\<close>

datatype network = Network (net_version: nat) (net_address: nat) (net_prefix: nat) (net_scope: "ustr option")

definition prefix_string :: "nat \<Rightarrow> ustr \<Rightarrow> nat option" where
  "prefix_string width s =
     (if s = [] \<or> \<not> list_all is_digit s \<or> length s > 4300 then None
      else let n = int_of_digits s in if n \<le> width then Some n else None)"

text \<open>A netmask of ones followed by zeros; its prefix length.\<close>

definition prefix_of_mask :: "nat \<Rightarrow> nat option" where
  "prefix_of_mask v = find (\<lambda>p. v = 2 ^ 32 - 2 ^ (32 - p)) [0..<33]"

definition prefix_ip_string :: "ustr \<Rightarrow> nat option" where
  "prefix_ip_string s =
     (case ipv4_value s of
        None \<Rightarrow> None
      | Some v \<Rightarrow> (case prefix_of_mask v of Some p \<Rightarrow> Some p | None \<Rightarrow> prefix_of_mask (2 ^ 32 - 1 - v)))"

definition ipv4_network :: "ustr list \<Rightarrow> network option" where
  "ipv4_network parts =
     (case parts of
        [addr] \<Rightarrow> map_option (\<lambda>n. Network 4 n 32 None) (ipv4_value addr)
      | [addr, netmask] \<Rightarrow>
          (case ipv4_value addr of
             None \<Rightarrow> None
           | Some n \<Rightarrow>
               map_option (\<lambda>p. Network 4 n p None)
                 (case prefix_string 32 netmask of Some p \<Rightarrow> Some p | None \<Rightarrow> prefix_ip_string netmask))
      | _ \<Rightarrow> None)"

definition ipv6_address :: "ustr \<Rightarrow> (nat \<times> ustr option) option" where
  "ipv6_address s = (case ip_address s of Some (IPv6 n scope) \<Rightarrow> Some (n, scope) | _ \<Rightarrow> None)"

definition ipv6_network :: "ustr list \<Rightarrow> network option" where
  "ipv6_network parts =
     (case parts of
        [addr] \<Rightarrow> map_option (\<lambda>(n, scope). Network 6 n 128 scope) (ipv6_address addr)
      | [addr, netmask] \<Rightarrow>
          (case ipv6_address addr of
             None \<Rightarrow> None
           | Some (n, scope) \<Rightarrow> map_option (\<lambda>p. Network 6 n p scope) (prefix_string 128 netmask))
      | _ \<Rightarrow> None)"

text \<open>The address as written. With \<open>strict=False\<close> its host bits are cleared, which also drops the zone if
  there were any; the strict form, the default, raises when there are any.\<close>

definition written_network :: "ustr \<Rightarrow> network option" where
  "written_network s =
     (let parts = split_on 47 s in case ipv4_network parts of Some n \<Rightarrow> Some n | None \<Rightarrow> ipv6_network parts)"

definition mask_network :: "network \<Rightarrow> network" where
  "mask_network n =
     (let host = (if net_version n = 4 then 32 else 128) - net_prefix n; masked = net_address n div 2 ^ host * 2 ^ host
      in Network (net_version n) masked (net_prefix n) (if masked = net_address n then net_scope n else None))"

definition ip_network :: "ustr \<Rightarrow> network option" where
  "ip_network s = map_option mask_network (written_network s)"

definition ip_network_strict :: "ustr \<Rightarrow> network option" where
  "ip_network_strict s = (case written_network s of Some n \<Rightarrow> if mask_network n = n then Some n else None | None \<Rightarrow> None)"

subsection \<open>Entries and references\<close>

definition group_text :: "fw \<Rightarrow> group \<Rightarrow> string \<Rightarrow> ustr" where
  "group_text fw grp k = (case map_of grp (lit k) of None \<Rightarrow> [] | Some v \<Rightarrow> py_str (fw_py fw) v)"

text \<open>\<open>str(group.get(k) or default)\<close>.\<close>

definition group_text_or :: "fw \<Rightarrow> group \<Rightarrow> string \<Rightarrow> ustr \<Rightarrow> ustr" where
  "group_text_or fw grp k otherwise =
     (case map_of grp (lit k) of
        Some v \<Rightarrow> if truthy (fw_float_true fw) v then py_str (fw_py fw) v else otherwise
      | None \<Rightarrow> otherwise)"

definition normalize_entry :: "fw \<Rightarrow> ustr \<Rightarrow> ustr" where
  "normalize_entry fw v =
     (let item = strip v in
      if lower fw item = lit ''any'' then lit ''any''
      else if starts ''group:'' (lower fw item) then lit ''group:'' @ drop 6 item
      else item)"

definition source_group_entries :: "fw \<Rightarrow> group \<Rightarrow> ustr list \<Rightarrow> ustr list" where
  "source_group_entries fw grp default_entries =
     (let raw_entries =
            (case map_of grp (lit ''entries'') of
               None \<Rightarrow> map_of grp (lit ''sources'')
             | Some JNull \<Rightarrow> map_of grp (lit ''sources'')
             | Some v \<Rightarrow> Some v);
          values =
            (case raw_entries of
               Some (JStr s) \<Rightarrow> split_source_group_entry_values s
             | Some (JArr items) \<Rightarrow> filter (\<lambda>s. s \<noteq> []) (map (\<lambda>item. strip (py_str (fw_py fw) item)) items)
             | _ \<Rightarrow> [])
      in map (normalize_entry fw) (if values \<noteq> [] then values else default_entries))"

definition make_source_group :: "fw \<Rightarrow> ustr \<Rightarrow> ustr \<Rightarrow> ustr list \<Rightarrow> ustr \<Rightarrow> bool \<Rightarrow> group" where
  "make_source_group fw group_id name entries description builtin =
     (let normalized_entries =
            JArr (map JStr (source_group_entries fw [(lit ''entries'', JArr (map JStr entries))] [lit ''any'']))
      in [(lit ''id'', JStr group_id), (lit ''name'', JStr name), (lit ''entries'', normalized_entries),
          (lit ''sources'', normalized_entries), (lit ''description'', JStr description), (lit ''builtin'', JBool builtin)])"

definition looks_like_source_group_reference :: "fw \<Rightarrow> ustr \<Rightarrow> bool" where
  "looks_like_source_group_reference fw v \<longleftrightarrow> starts ''@'' (strip v) \<or> starts ''group:'' (lower fw (strip v))"

text \<open>\<open>{str(group.get("id", "")): group for group in groups}\<close>.\<close>

definition index_groups :: "fw \<Rightarrow> group list \<Rightarrow> groups_by_id" where
  "index_groups fw groups = foldl (\<lambda>d grp. dict_put (group_text fw grp ''id'') grp d) [] groups"

definition source_group_name_index :: "fw \<Rightarrow> groups_by_id \<Rightarrow> (ustr \<times> ustr) list" where
  "source_group_name_index fw groups =
     foldl (\<lambda>d (group_id, grp). dict_put (lower fw (strip (group_text fw grp ''name''))) group_id d) []
       (filter (\<lambda>(group_id, grp). strip (group_text fw grp ''name'') \<noteq> []) groups)"

text \<open>The empty text stands for no target. No names, or none given, makes the index of the groups.\<close>

definition source_group_reference_target :: "fw \<Rightarrow> ustr \<Rightarrow> groups_by_id \<Rightarrow> (ustr \<times> ustr) list \<Rightarrow> ustr" where
  "source_group_reference_target fw v groups_by_id names =
     (let item = strip v in
      if starts ''group:'' (lower fw item)
      then let group_id = drop 6 item in if map_of groups_by_id group_id \<noteq> None then group_id else []
      else if starts ''@'' item
      then let name_index = (if names \<noteq> [] then names else source_group_name_index fw groups_by_id) in
           (case map_of name_index (lower fw (strip (drop 1 item))) of Some group_id \<Rightarrow> group_id | None \<Rightarrow> [])
      else [])"

subsection \<open>Expansion\<close>

text \<open>The loop over the entries of one group; \<open>nested\<close> is the recursive call. \<open>seen\<close> of the code holds the
  members of \<open>expanded\<close>.\<close>

primrec expand_loop ::
  "fw \<Rightarrow> groups_by_id \<Rightarrow> (group \<Rightarrow> ustr list \<Rightarrow> ustr list res) \<Rightarrow> ustr list \<Rightarrow> ustr list \<Rightarrow> ustr list \<Rightarrow> ustr list res"
where
  "expand_loop fw groups_by_id nested stack expanded [] = Inr (if expanded \<noteq> [] then expanded else [lit ''any''])"
| "expand_loop fw groups_by_id nested stack expanded (entry # entries) =
     (let normalized = strip entry;
          target_id = source_group_reference_target fw normalized groups_by_id (source_group_name_index fw groups_by_id)
      in if lower fw normalized = lit ''any'' then Inr [lit ''any'']
         else if target_id \<noteq> []
         then if target_id \<in> set stack then expand_loop fw groups_by_id nested stack expanded entries
              else bindE (nested (case map_of groups_by_id target_id of Some g \<Rightarrow> g | None \<Rightarrow> []) (stack @ [target_id])) (\<lambda>nested_sources.
                if nested_sources = [lit ''any''] then Inr [lit ''any'']
                else expand_loop fw groups_by_id nested stack
                       (foldl (\<lambda>out source. if source \<in> set out then out else out @ [source]) expanded nested_sources) entries)
         else expand_loop fw groups_by_id nested stack
                (if normalized \<in> set expanded then expanded else expanded @ [normalized]) entries)"

primrec expand_at :: "nat \<Rightarrow> fw \<Rightarrow> groups_by_id \<Rightarrow> group \<Rightarrow> ustr list \<Rightarrow> ustr list res" where
  "expand_at 0 fw groups_by_id grp stack = Inl RecursionError"
| "expand_at (Suc depth) fw groups_by_id grp stack =
     expand_loop fw groups_by_id (expand_at depth fw groups_by_id) stack [] (source_group_entries fw grp [lit ''any''])"

definition expand_source_group_entries :: "fw \<Rightarrow> group \<Rightarrow> groups_by_id \<Rightarrow> ustr list res" where
  "expand_source_group_entries fw grp groups_by_id = expand_at (fw_depth fw) fw groups_by_id grp []"

definition source_group_to_rule_source :: "fw \<Rightarrow> group \<Rightarrow> groups_by_id \<Rightarrow> ustr res" where
  "source_group_to_rule_source fw grp groups_by_id =
     bindE (expand_source_group_entries fw grp groups_by_id) (\<lambda>sources.
       Inr (join_with [10] (if sources \<noteq> [] then sources else [lit ''any''])))"

subsection \<open>Validation\<close>

definition validate_address_value :: "fw \<Rightarrow> ustr \<Rightarrow> ustr \<Rightarrow> ustr list" where
  "validate_address_value fw label v =
     (let normalized_values = split_address_values fw v in
      if normalized_values = [] then []
      else if lit ''any'' \<in> set normalized_values
      then if normalized_values = [lit ''any''] then [] else [label @ lit '' can use 'any' only by itself.'']
      else map (\<lambda>_. label @ lit '' must be 'any' or valid IPv4/IPv6 addresses or CIDRs.'')
             (filter (\<lambda>item. ip_network item = None) normalized_values))"

text \<open>The inner function \<open>visit\<close>: the errors it appends, in order.\<close>

primrec visit_at ::
  "nat \<Rightarrow> fw \<Rightarrow> groups_by_id \<Rightarrow> (ustr \<times> ustr) list \<Rightarrow> ustr \<Rightarrow> ustr list \<Rightarrow> ustr list res"
where
  "visit_at 0 fw groups_by_id names group_id path = Inl RecursionError"
| "visit_at (Suc depth) fw groups_by_id names group_id path =
     (if group_id \<in> set path
      then let cycle_ids = dropWhile (\<lambda>i. i \<noteq> group_id) path @ [group_id];
               cycle_names = concat (map (\<lambda>i. case map_of groups_by_id i of None \<Rightarrow> [] | Some g \<Rightarrow> [group_text_or fw g ''name'' i]) cycle_ids)
           in Inr [lit ''Source Groups cannot reference each other in a cycle: '' @ join_with (lit '' -> '') cycle_names @ lit ''.'']
      else case map_of groups_by_id group_id of
          None \<Rightarrow> Inr []
        | Some grp \<Rightarrow>
            if grp = [] then Inr []
            else foldE (\<lambda>errors entry.
                   let target_id = source_group_reference_target fw entry groups_by_id names in
                   if target_id \<noteq> []
                   then bindE (visit_at depth fw groups_by_id names target_id (path @ [group_id])) (\<lambda>new. Inr (errors @ new))
                   else Inr errors) [] (source_group_entries fw grp [lit ''any'']))"

definition validate_source_group_cycles ::
  "fw \<Rightarrow> group list \<Rightarrow> groups_by_id \<Rightarrow> (ustr \<times> ustr) list \<Rightarrow> ustr list res"
where
  "validate_source_group_cycles fw groups groups_by_id names =
     foldE (\<lambda>errors grp.
       let group_id = group_text fw grp ''id'' in
       if group_id \<noteq> [] then bindE (visit_at (fw_depth fw) fw groups_by_id names group_id []) (\<lambda>new. Inr (errors @ new))
       else Inr errors) [] groups"

definition group_label :: "fw \<Rightarrow> group \<Rightarrow> ustr" where
  "group_label fw grp =
     (let group_id = group_text fw grp ''id'' in
      group_text_or fw grp ''name'' (if group_id \<noteq> [] then group_id else lit ''Source Group''))"

definition name_errors :: "fw \<Rightarrow> group list \<Rightarrow> ustr list \<times> (ustr \<times> ustr) list" where
  "name_errors fw groups =
     foldl (\<lambda>(errors, names) grp.
       let group_id = group_text fw grp ''id''; label = group_label fw grp; normalized_name = lower fw (strip label) in
       ((if strip label = [] then errors @ [lit ''Source Group name is required.'']
         else if map_of names normalized_name \<noteq> None \<and> map_of names normalized_name \<noteq> Some group_id
         then errors @ [lit ''Source Group name '' @ [39] @ label @ [39] @ lit '' is already used.'']
         else errors),
        dict_put normalized_name group_id names)) ([], []) groups"

definition entry_errors :: "fw \<Rightarrow> groups_by_id \<Rightarrow> (ustr \<times> ustr) list \<Rightarrow> group \<Rightarrow> ustr list" where
  "entry_errors fw groups_by_id names grp =
     (let group_id = group_text fw grp ''id''; label = group_label fw grp;
          entries = source_group_entries fw grp [lit ''any''];
          no_target = (\<lambda>entry. source_group_reference_target fw entry groups_by_id names = [])
      in if group_id = lit ''any'' \<and> entries \<noteq> [lit ''any''] then [lit ''Any is built in and must contain only 'any'.'']
         else map (\<lambda>entry. label @ lit '' references a Source Group that does not exist: '' @ entry @ lit ''.'')
                (filter (\<lambda>entry. lower fw (strip entry) \<noteq> lit ''any'' \<and> no_target entry
                                 \<and> looks_like_source_group_reference fw entry) entries)
              @ validate_address_value fw label (join_with [10] (filter no_target entries))
              @ (if lit ''any'' \<in> set (map (\<lambda>entry. lower fw (strip entry)) entries) \<and> length entries > 1
                 then [label @ lit '' can use 'any' only by itself.''] else []))"

definition validate_firewall_source_groups :: "fw \<Rightarrow> group list \<Rightarrow> ustr list res" where
  "validate_firewall_source_groups fw groups =
     (let groups_by_id = index_groups fw groups; (errors, names) = name_errors fw groups in
      bindE (validate_source_group_cycles fw groups groups_by_id names) (\<lambda>cycles.
        Inr (errors @ concat (map (entry_errors fw groups_by_id names) groups) @ cycles)))"

subsection \<open>The saved state\<close>

record source_group_state =
  sgs_groups :: "group list"
  sgs_assignments :: "(ustr \<times> ustr) list"

definition removeprefix :: "string \<Rightarrow> ustr \<Rightarrow> ustr" where
  "removeprefix p s = (if starts p s then drop (length p) s else s)"

definition saved_settings :: "fw \<Rightarrow> ustr \<Rightarrow> group res" where
  "saved_settings fw raw_json =
     (if strip raw_json = [] then Inr []
      else catchE (bindE (or_raise (py_json_failure (fw_py fw) raw_json) (loads raw_json)) (\<lambda>parsed.
             Inr (case parsed of JObj d \<Rightarrow> d | _ \<Rightarrow> [])))
             (\<lambda>e. if is_value_error e then Inr [] else Inl e))"

text \<open>Iterating over a text or a dictionary gives texts, none of them a dictionary.\<close>

definition saved_groups :: "fw \<Rightarrow> group \<Rightarrow> groups_by_id res" where
  "saved_groups fw saved =
     bindE (case map_of saved (lit ''groups'') of
              None \<Rightarrow> Inr [] | Some (JArr xs) \<Rightarrow> Inr xs | Some (JStr s) \<Rightarrow> Inr [] | Some (JObj d) \<Rightarrow> Inr [] | _ \<Rightarrow> Inl TypeError) (\<lambda>items.
       Inr (index_groups fw (concat (map (\<lambda>item. case item of JObj g \<Rightarrow> [g] | _ \<Rightarrow> []) items))))"

definition restored_group :: "fw \<Rightarrow> (ustr \<times> ustr list) list \<Rightarrow> ustr \<times> group \<Rightarrow> group" where
  "restored_group fw interface_networks =
     (\<lambda>(group_id, saved_group).
       let default_entries =
             (if starts ''interface:'' group_id
              then case map_of interface_networks (removeprefix ''interface:'' group_id) of Some ns \<Rightarrow> ns | None \<Rightarrow> [lit ''any'']
              else [lit ''any'']);
           grp = make_source_group fw group_id (group_text_or fw saved_group ''name'' group_id)
                     (source_group_entries fw saved_group default_entries)
                     (group_text_or fw saved_group ''description'' (lit ''Custom source group.'')) False;
           entries = map_of grp (lit ''entries'')
       in if group_id = lit ''custom:bootstrap-management'' \<and> map_of saved_group (lit ''bootstrap_entries'') = entries
          then grp @ [(lit ''bootstrap_entries'', the entries)] else grp)"

definition firewall_source_group_state ::
  "fw \<Rightarrow> ustr \<Rightarrow> (ustr \<times> ustr list) list \<Rightarrow> source_group_state res"
where
  "firewall_source_group_state fw raw_json interface_networks =
     bindE (saved_settings fw raw_json) (\<lambda>saved.
     bindE (saved_groups fw saved) (\<lambda>by_id.
       let groups = make_source_group fw (lit ''any'') (lit ''Any'') [lit ''any'']
                      (lit ''Allow traffic from any source or destination address.'') True
                    # map (restored_group fw interface_networks) (filter (\<lambda>(group_id, _). group_id \<noteq> lit ''any'') by_id);
           assignments = (case map_of saved (lit ''assignments'') of Some (JObj d) \<Rightarrow> d | _ \<Rightarrow> []);
           valid_group_ids = map (\<lambda>grp. group_text fw grp ''id'') groups
       in Inr \<lparr>sgs_groups = groups,
               sgs_assignments = filter (\<lambda>(rule_name, group_id). group_id \<in> set valid_group_ids)
                                   (map (\<lambda>(rule_name, v). (rule_name, py_str (fw_py fw) v)) assignments)\<rparr>))"

end
