(* ===== verification/Firewall.thy ===== *)
theory Firewall
  imports SourceGroups
begin

text \<open>
  Firewall rules (\<open>atlaso/app/services/firewall.py\<close>): validation of the settings and of the rules, the split of
  a rule into one variant for each address family, and the nftables configuration rendered from them.
\<close>

record firewall_rule =
  fr_name :: ustr
  fr_direction :: ustr
  fr_action :: ustr
  fr_protocol :: ustr
  fr_source :: ustr
  fr_destination :: ustr
  fr_destination_port :: ustr
  fr_interface_name :: ustr
  fr_priority :: int
  fr_enabled :: bool
  fr_description :: "ustr option"
  fr_routing_destination_interface :: ustr
  fr_routing_policy_phase :: ustr

record firewall_settings =
  fs_enabled :: bool
  fs_default_input_policy :: ustr
  fs_default_forward_policy :: ustr
  fs_default_output_policy :: ustr
  fs_allow_established :: bool
  fs_allow_loopback :: bool
  fs_allow_icmp :: bool
  fs_log_dropped :: bool

definition one_of :: "ustr \<Rightarrow> string list \<Rightarrow> bool" where
  "one_of s names \<longleftrightarrow> s \<in> set (map lit names)"

definition FIREWALL_DIRECTIONS :: "string list" where
  "FIREWALL_DIRECTIONS = [''input'', ''forward'', ''output'']"

definition FIREWALL_ACTIONS :: "string list" where
  "FIREWALL_ACTIONS = [''accept'', ''drop'', ''reject'']"

definition FIREWALL_PROTOCOLS :: "string list" where
  "FIREWALL_PROTOCOLS = [''any'', ''tcp'', ''udp'', ''icmp'']"

definition FIREWALL_POLICIES :: "string list" where
  "FIREWALL_POLICIES = [''accept'', ''drop'']"

subsection \<open>Ports\<close>

text \<open>\<open>str.isdigit\<close>, and \<open>int\<close> of a text for which it holds: a digit that is not a decimal, such as a
  superscript, raises, and so does a text of more than 4300 digits.\<close>

definition is_digit_text :: "fw \<Rightarrow> ustr \<Rightarrow> bool" where
  "is_digit_text fw s \<longleftrightarrow> s \<noteq> [] \<and> list_all (\<lambda>c. if c < 128 then is_digit c else fw_isdigit fw c) s"

definition decimal_value :: "fw \<Rightarrow> nat \<Rightarrow> nat option" where
  "decimal_value fw c = (if c < 128 then if is_digit c then Some (c - 48) else None else fw_decimal fw c)"

definition int_of_text :: "fw \<Rightarrow> ustr \<Rightarrow> nat res" where
  "int_of_text fw s =
     (case map_all (decimal_value fw) s of
        None \<Rightarrow> Inl (ValueError ''invalid literal for int() with base 10'')
      | Some ds \<Rightarrow>
          if length s > 4300 then Inl (ValueError ''Exceeds the limit (4300 digits) for integer string conversion'')
          else Inr (of_digs 10 ds))"

definition valid_port :: "fw \<Rightarrow> ustr \<Rightarrow> bool res" where
  "valid_port fw v =
     (if is_digit_text fw v then bindE (int_of_text fw v) (\<lambda>n. Inr (1 \<le> n \<and> n \<le> 65535)) else Inr False)"

definition port_items :: "ustr \<Rightarrow> ustr list" where
  "port_items raw_ports = splitlines (map (\<lambda>c. if c = 44 then 10 else c) raw_ports)"

definition validate_port_item :: "fw \<Rightarrow> ustr \<Rightarrow> ustr list res" where
  "validate_port_item fw item =
     (let v = strip item in
      if v = [] then Inr []
      else if 45 \<in> set v
      then let start = takeWhile (\<lambda>c. c \<noteq> 45) v; stop = drop (Suc (length start)) v;
               invalid = [lit ''Port range '' @ v @ lit '' is invalid.'']
           in bindE (valid_port fw start) (\<lambda>ok_start.
              if \<not> ok_start then Inr invalid
              else bindE (valid_port fw stop) (\<lambda>ok_stop.
              if \<not> ok_stop then Inr invalid
              else bindE (int_of_text fw start) (\<lambda>a. bindE (int_of_text fw stop) (\<lambda>b. Inr (if a > b then invalid else [])))))
      else bindE (valid_port fw v) (\<lambda>ok. Inr (if ok then [] else [lit ''Port '' @ v @ lit '' is invalid.''])))"

definition validate_ports :: "fw \<Rightarrow> ustr \<Rightarrow> ustr list res" where
  "validate_ports fw raw_ports = bindE (mapE (validate_port_item fw) (port_items raw_ports)) (\<lambda>errors. Inr (concat errors))"

definition render_ports :: "ustr \<Rightarrow> ustr" where
  "render_ports raw_ports =
     (let ports = map strip (filter (\<lambda>item. strip item \<noteq> []) (port_items raw_ports)) in
      if ports = [] then []
      else if length ports = 1 then hd ports
      else lit ''{ '' @ join_with (lit '', '') ports @ lit '' }'')"

subsection \<open>Addresses of a rule\<close>

definition rule_address_value :: "fw \<Rightarrow> ustr \<Rightarrow> groups_by_id \<Rightarrow> ustr res" where
  "rule_address_value fw v source_groups_by_id =
     (let raw_value = strip v in
      if raw_value = [] then Inr (lit ''any'')
      else let target_id = source_group_reference_target fw raw_value source_groups_by_id [] in
           if target_id \<noteq> []
           then bindE (expand_source_group_entries fw (case map_of source_groups_by_id target_id of Some g \<Rightarrow> g | None \<Rightarrow> [])
                         source_groups_by_id) (\<lambda>sources. Inr (join_with [10] sources))
           else Inr (lower fw raw_value))"

definition validate_rule_address_value :: "fw \<Rightarrow> ustr \<Rightarrow> ustr \<Rightarrow> groups_by_id \<Rightarrow> (ustr \<times> ustr) list \<Rightarrow> ustr list res" where
  "validate_rule_address_value fw label v source_groups_by_id names =
     (let raw_value = strip v in
      if raw_value = [] then Inr []
      else let target_id = source_group_reference_target fw raw_value source_groups_by_id names in
           if target_id \<noteq> []
           then bindE (expand_source_group_entries fw (case map_of source_groups_by_id target_id of Some g \<Rightarrow> g | None \<Rightarrow> [])
                         source_groups_by_id) (\<lambda>sources. Inr (validate_address_value fw label (join_with [10] sources)))
           else if looks_like_source_group_reference fw raw_value
           then Inr [label @ lit '' references a Source Group that does not exist: '' @ raw_value @ lit ''.'']
           else Inr (validate_address_value fw label raw_value))"

definition validate_rule_group_reference :: "fw \<Rightarrow> ustr \<Rightarrow> ustr \<Rightarrow> groups_by_id \<Rightarrow> ustr" where
  "validate_rule_group_reference fw label v source_groups_by_id =
     (let raw_value = strip v in
      if lower fw raw_value = lit ''any'' then []
      else if starts ''group:'' (lower fw raw_value)
      then if source_group_reference_target fw raw_value source_groups_by_id [] \<noteq> [] then []
           else label @ lit '' references a Source Group that does not exist: '' @ raw_value @ lit ''.''
      else label @ lit '' must use Any or a Source Group.'')"

text \<open>The two lists of \<open>family_values\<close>, for version 4 and for version 6. The word \<open>any\<close> returns at once
  what has been collected before it.\<close>

primrec address_loop :: "ustr list \<times> ustr list \<Rightarrow> ustr list \<Rightarrow> ustr list \<times> ustr list" where
  "address_loop values [] = values"
| "address_loop values (item # items) =
     (if item = lit ''any'' then values
      else case ip_network item of
          None \<Rightarrow> address_loop values items
        | Some n \<Rightarrow>
            address_loop
              (if net_version n = 4 then (if item \<in> set (fst values) then fst values else fst values @ [item], snd values)
               else (fst values, if item \<in> set (snd values) then snd values else snd values @ [item])) items)"

definition address_values_by_family :: "fw \<Rightarrow> ustr \<Rightarrow> ustr list \<times> ustr list" where
  "address_values_by_family fw v = address_loop ([], []) (split_address_values fw v)"

definition of_family :: "nat \<Rightarrow> ustr list \<times> ustr list \<Rightarrow> ustr list" where
  "of_family family values = (if family = 4 then fst values else snd values)"

definition family_text :: "nat \<Rightarrow> ustr list \<times> ustr list \<Rightarrow> ustr" where
  "family_text family values = join_with [10] (if of_family family values \<noteq> [] then of_family family values else [lit ''any''])"

definition rule_family_variants :: "fw \<Rightarrow> firewall_rule \<Rightarrow> groups_by_id \<Rightarrow> firewall_rule list res" where
  "rule_family_variants fw rule source_groups_by_id =
     bindE (rule_address_value fw (fr_source rule) source_groups_by_id) (\<lambda>source.
     bindE (rule_address_value fw (fr_destination rule) source_groups_by_id) (\<lambda>destination.
       let source_by_family = address_values_by_family fw source;
           destination_by_family = address_values_by_family fw destination;
           source_families = filter (\<lambda>f. of_family f source_by_family \<noteq> []) [4, 6];
           destination_families = filter (\<lambda>f. of_family f destination_by_family \<noteq> []) [4, 6];
           families = filter (\<lambda>f. f \<in> set source_families \<or> f \<in> set destination_families) [4, 6]
       in if families = [] then Inr [rule]
          else Inr (map (\<lambda>family. rule\<lparr>fr_source := family_text family source_by_family,
                                      fr_destination := family_text family destination_by_family\<rparr>)
                 (filter (\<lambda>family. (source_families \<noteq> [] \<longrightarrow> family \<in> set source_families)
                                 \<and> (destination_families \<noteq> [] \<longrightarrow> family \<in> set destination_families)) families))))"

definition address_expr :: "fw \<Rightarrow> string \<Rightarrow> ustr \<Rightarrow> ustr res" where
  "address_expr fw direction v =
     (case split_address_values fw v of
        [] \<Rightarrow> Inl IndexError
      | first # rest \<Rightarrow>
          (case ip_network first of
             None \<Rightarrow> Inl (ValueError ''does not appear to be an IPv4 or IPv6 network'')
           | Some n \<Rightarrow>
               let family = lit (if net_version n = 6 then ''ip6'' else ''ip'') in
               Inr (family @ [32] @ lit direction @ [32] @
                    (if rest = [] then first else lit ''{ '' @ join_with (lit '', '') (first # rest) @ lit '' }''))))"

subsection \<open>Rules\<close>

definition safe_comment :: "ustr \<Rightarrow> ustr" where
  "safe_comment v = strip (map (\<lambda>c. if c = 34 then 39 else c) v)"

definition in_quotes :: "string \<Rightarrow> ustr \<Rightarrow> ustr" where
  "in_quotes key v = lit key @ lit '' \"'' @ v @ lit ''\"''"

text \<open>The address clause of a rendered rule: none for \<open>any\<close>.\<close>

definition address_part :: "fw \<Rightarrow> string \<Rightarrow> ustr \<Rightarrow> groups_by_id \<Rightarrow> ustr list res" where
  "address_part fw direction v source_groups_by_id =
     bindE (rule_address_value fw v source_groups_by_id) (\<lambda>address.
       if address \<noteq> [] \<and> address \<noteq> lit ''any'' then bindE (address_expr fw direction address) (\<lambda>part. Inr [part]) else Inr [])"

definition render_rule :: "fw \<Rightarrow> firewall_rule \<Rightarrow> groups_by_id \<Rightarrow> ustr res" where
  "render_rule fw rule source_groups_by_id =
     (let routing = (if fr_routing_destination_interface rule \<noteq> [] then [in_quotes ''oifname'' (fr_routing_destination_interface rule)] else []);
          interface = (if strip (fr_interface_name rule) \<noteq> []
                       then [in_quotes (if fr_direction rule = lit ''output'' then ''oifname'' else ''iifname'') (strip (fr_interface_name rule))]
                       else []);
          protocol = lower fw (strip (fr_protocol rule));
          icmp = (if protocol = lit ''icmp'' then [lit ''meta l4proto icmp''] else []);
          ports = (if one_of protocol [''tcp'', ''udp''] \<and> strip (fr_destination_port rule) \<noteq> []
                   then [protocol @ lit '' dport '' @ render_ports (fr_destination_port rule)]
                   else if one_of protocol [''tcp'', ''udp''] then [lit ''meta l4proto '' @ protocol] else [])
      in bindE (address_part fw ''saddr'' (fr_source rule) source_groups_by_id) (\<lambda>source.
         bindE (address_part fw ''daddr'' (fr_destination rule) source_groups_by_id) (\<lambda>destination.
           Inr (join_with [32] (routing @ interface @ icmp @ source @ destination @ ports
                  @ [fr_action rule, in_quotes ''comment'' (safe_comment (fr_name rule))])))))"

definition validate_firewall_settings :: "firewall_settings \<Rightarrow> ustr list" where
  "validate_firewall_settings settings =
     map (\<lambda>(field_name, _). lit field_name @ lit '' must be accept or drop.'')
       (filter (\<lambda>(_, v). \<not> one_of v FIREWALL_POLICIES)
         [(''Default input policy'', fs_default_input_policy settings),
          (''Default forward policy'', fs_default_forward_policy settings),
          (''Default output policy'', fs_default_output_policy settings)])"

definition validate_rule_address ::
  "fw \<Rightarrow> bool \<Rightarrow> groups_by_id \<Rightarrow> (ustr \<times> ustr) list \<Rightarrow> ustr \<Rightarrow> ustr \<Rightarrow> ustr list res"
where
  "validate_rule_address fw require_group_addresses groups_by_id names label v =
     (let group_error = validate_rule_group_reference fw label v groups_by_id in
      if require_group_addresses \<and> group_error \<noteq> [] then Inr [group_error]
      else validate_rule_address_value fw label v groups_by_id names)"

definition validate_firewall_rule :: "fw \<Rightarrow> firewall_rule \<Rightarrow> group list \<Rightarrow> bool \<Rightarrow> ustr list res" where
  "validate_firewall_rule fw rule source_groups require_group_addresses =
     (let errors =
            (if strip (fr_name rule) = [] then [lit ''Rule name is required.''] else [])
            @ (if \<not> one_of (fr_direction rule) FIREWALL_DIRECTIONS then [lit ''Direction must be input, forward, or output.''] else [])
            @ (if \<not> one_of (fr_action rule) FIREWALL_ACTIONS then [lit ''Action must be accept, drop, or reject.''] else [])
            @ (if \<not> one_of (fr_protocol rule) FIREWALL_PROTOCOLS then [lit ''Protocol must be any, tcp, udp, or icmp.''] else [])
            @ (if one_of (fr_protocol rule) [''any'', ''icmp''] \<and> strip (fr_destination_port rule) \<noteq> []
               then [lit ''Destination port is only valid for TCP or UDP rules.''] else []);
          groups_by_id = index_groups fw source_groups;
          names = source_group_name_index fw groups_by_id;
          address = validate_rule_address fw require_group_addresses groups_by_id names
      in bindE (address (lit ''Source'') (fr_source rule)) (\<lambda>source_errors.
         bindE (address (lit ''Destination'') (fr_destination rule)) (\<lambda>destination_errors.
         bindE (if strip (fr_destination_port rule) \<noteq> [] then validate_ports fw (fr_destination_port rule) else Inr []) (\<lambda>port_errors.
           Inr (errors @ source_errors @ destination_errors @ port_errors)))))"

subsection \<open>The effective rules\<close>

definition description_text :: "firewall_rule \<Rightarrow> ustr" where
  "description_text rule = strip (case fr_description rule of Some d \<Rightarrow> d | None \<Rightarrow> [])"

definition is_atlaso_dhcp_firewall_rule :: "fw \<Rightarrow> firewall_rule \<Rightarrow> bool" where
  "is_atlaso_dhcp_firewall_rule fw rule \<longleftrightarrow>
     lower fw (strip (fr_name rule)) = lit ''sitea-dns-dhcp''
     \<or> contains_text (lit ''Atlaso-managed DNS/DHCP access'') (description_text rule)"

definition is_atlaso_dns_firewall_rule :: "fw \<Rightarrow> firewall_rule \<Rightarrow> bool" where
  "is_atlaso_dns_firewall_rule fw rule \<longleftrightarrow>
     contains_text (lit ''Atlaso-managed DNS access'') (description_text rule)
     \<or> (let normalized_name = lower fw (strip (fr_name rule)) in
        starts ''allow-'' normalized_name \<and> contains_text (lit ''-dns-'') normalized_name
        \<and> one_of (lower fw (strip (fr_protocol rule))) [''tcp'', ''udp'']
        \<and> strip (fr_destination_port rule) = lit ''53'' \<and> starts ''Allow DNS from '' (description_text rule))"

definition is_atlaso_managed_firewall_rule :: "fw \<Rightarrow> firewall_rule \<Rightarrow> bool" where
  "is_atlaso_managed_firewall_rule fw rule \<longleftrightarrow>
     lower fw (strip (fr_name rule)) = lit ''mgmt-console''
     \<or> contains_text (lit ''Atlaso-managed service access'') (description_text rule)
     \<or> contains_text (lit ''Atlaso-managed lab routing'') (description_text rule)
     \<or> contains_text (lit ''Atlaso-managed management routing isolation'') (description_text rule)
     \<or> is_atlaso_dns_firewall_rule fw rule \<or> is_atlaso_dhcp_firewall_rule fw rule"

record replaced =
  rp_dhcp :: bool
  rp_dns :: bool
  rp_service :: bool

definition effective_firewall_rules :: "fw \<Rightarrow> firewall_rule list \<Rightarrow> firewall_rule list \<Rightarrow> replaced \<Rightarrow> firewall_rule list" where
  "effective_firewall_rules fw rules generated_rules rp =
     (if generated_rules = [] \<and> \<not> rp_dhcp rp \<and> \<not> rp_dns rp \<and> \<not> rp_service rp then rules
      else filter (\<lambda>rule. \<not> (rp_dhcp rp \<and> is_atlaso_dhcp_firewall_rule fw rule
                             \<or> rp_dns rp \<and> is_atlaso_dns_firewall_rule fw rule
                             \<or> rp_service rp \<and> is_atlaso_managed_firewall_rule fw rule)) rules
           @ generated_rules)"

definition validate_firewall_state ::
  "fw \<Rightarrow> firewall_settings \<Rightarrow> firewall_rule list \<Rightarrow> firewall_rule list \<Rightarrow> group list \<Rightarrow> replaced \<Rightarrow> ustr list res"
where
  "validate_firewall_state fw settings rules generated_rules source_groups rp =
     (let errors = validate_firewall_settings settings
            @ (if \<not> fs_enabled settings \<and> (\<exists>rule \<in> set generated_rules. fr_enabled rule \<and> fr_routing_policy_phase rule = lit ''deny'')
               then [lit ''Enable Firewall before applying a routing deny (explicit or automatic); forwarding cannot be denied while Firewall is disabled.'']
               else [])
      in bindE (foldE (\<lambda>(errors, seen_names) rule.
                  let normalized_name = lower fw (strip (fr_name rule)) in
                  bindE (validate_firewall_rule fw rule source_groups False) (\<lambda>rule_errors.
                    Inr (errors @ (if normalized_name \<in> set seen_names then [lit ''Firewall rule '' @ fr_name rule @ lit '' is duplicated.''] else [])
                           @ rule_errors,
                         normalized_name # seen_names)))
                (errors, []) (effective_firewall_rules fw rules generated_rules rp)) (\<lambda>(errors, _). Inr errors))"

subsection \<open>The rendered configuration\<close>

definition in_prelude :: "firewall_rule \<Rightarrow> bool" where
  "in_prelude rule \<longleftrightarrow> one_of (fr_routing_policy_phase rule) [''deny'', ''isolation'']"

definition indent :: "ustr \<Rightarrow> ustr" where
  "indent s = lit ''    '' @ s"

text \<open>The lines of a rule that is denied or isolated before anything is accepted. The automatic denial of
  traffic back to its own interface spares what the guard of managed address translation has marked.\<close>

definition guarded_lines :: "firewall_rule \<Rightarrow> ustr \<Rightarrow> ustr list" where
  "guarded_lines rule rendered =
     (if fr_routing_policy_phase rule = lit ''deny'' \<and> fr_interface_name rule = fr_routing_destination_interface rule
         \<and> starts ''routing-default-deny-ipv'' (fr_name rule)
      then [indent (lit ''ct status & dnat == 0 '' @ rendered), indent (lit ''ct mark & 0xff000000 != 0xa7000000 '' @ rendered)]
      else [indent rendered])"

definition prelude_lines :: "fw \<Rightarrow> groups_by_id \<Rightarrow> firewall_rule \<Rightarrow> ustr list res" where
  "prelude_lines fw source_groups_by_id rule =
     bindE (rule_family_variants fw rule source_groups_by_id) (\<lambda>variants.
     bindE (mapE (\<lambda>v. render_rule fw v source_groups_by_id) variants) (\<lambda>texts.
       Inr (concat (map (guarded_lines rule) texts))))"

definition rule_lines :: "fw \<Rightarrow> groups_by_id \<Rightarrow> firewall_rule \<Rightarrow> ustr list res" where
  "rule_lines fw source_groups_by_id rule =
     bindE (rule_family_variants fw rule source_groups_by_id) (\<lambda>variants.
       mapE (\<lambda>v. bindE (render_rule fw v source_groups_by_id) (\<lambda>rendered. Inr (indent rendered))) variants)"

text \<open>The fixed lines of a chain: before the denials, between them and the ordinary rules, and after those.\<close>

definition chain_head :: "firewall_settings \<Rightarrow> string \<Rightarrow> ustr \<Rightarrow> ustr list" where
  "chain_head settings chain_name policy =
     [lit ''  chain '' @ lit chain_name @ lit '' {'',
      indent (lit ''type filter hook '' @ lit chain_name @ lit '' priority filter; policy '' @ policy @ lit '';'')]
     @ (if chain_name = ''input'' \<and> fs_allow_loopback settings
        then [indent (lit ''iifname \"lo\" accept comment \"Atlaso loopback\"'')] else [])"

definition chain_middle :: "firewall_settings \<Rightarrow> replaced \<Rightarrow> ustr \<Rightarrow> string \<Rightarrow> ustr list" where
  "chain_middle settings rp management_cidr chain_name =
     (if fs_allow_established settings
      then [indent (lit ''ct state established,related accept comment \"Atlaso established traffic\"'')] else [])
     @ (if chain_name = ''input'' \<and> \<not> rp_service rp
        then [indent (lit ''ip saddr '' @ management_cidr @ lit '' tcp dport { 22, 80, 443 } accept comment \"Atlaso management access\"'')] else [])
     @ (if fs_allow_icmp settings
        then [indent (lit ''meta l4proto icmp accept comment \"Atlaso ICMP diagnostics\"''),
              indent (lit ''meta l4proto 58 accept comment \"Atlaso IPv6 ICMP diagnostics\"'')] else [])"

definition chain_tail :: "firewall_settings \<Rightarrow> string \<Rightarrow> ustr \<Rightarrow> ustr list" where
  "chain_tail settings chain_name policy =
     (if fs_log_dropped settings \<and> policy = lit ''drop''
      then [indent (lit ''log prefix \"atlaso '' @ lit chain_name @ lit '' drop: \" flags all counter'')] else [])
     @ [lit ''  }'']"

definition chain_lines ::
  "fw \<Rightarrow> firewall_settings \<Rightarrow> firewall_rule list \<Rightarrow> groups_by_id \<Rightarrow> replaced \<Rightarrow> ustr \<Rightarrow> string \<times> ustr \<Rightarrow> ustr list res"
where
  "chain_lines fw settings effective source_groups_by_id rp management_cidr =
     (\<lambda>(chain_name, policy).
       let chain_rules = filter (\<lambda>r. fr_enabled r \<and> fr_direction r = lit chain_name) effective;
           prelude = filter in_prelude chain_rules
       in bindE (mapE (prelude_lines fw source_groups_by_id) (sort_key fr_priority prelude)) (\<lambda>denied.
          bindE (mapE (rule_lines fw source_groups_by_id) (sort_key fr_priority (filter (\<lambda>r. \<not> in_prelude r) chain_rules))) (\<lambda>ordinary.
            Inr (chain_head settings chain_name policy @ concat denied @ chain_middle settings rp management_cidr chain_name
                 @ concat ordinary @ chain_tail settings chain_name policy))))"

definition config_head :: "ustr list" where
  "config_head = [lit ''# Managed by Atlaso. Local changes may be overwritten.'',
     lit ''# nftables firewall state for Photon OS appliance images.'', lit ''flush ruleset'']"

text \<open>\<open>default_cidr\<close> is the management network of the process settings, taken when the caller gives none.\<close>

definition render_nftables_config ::
  "fw \<Rightarrow> firewall_settings \<Rightarrow> firewall_rule list \<Rightarrow> firewall_rule list \<Rightarrow> group list \<Rightarrow> replaced \<Rightarrow> ustr \<Rightarrow> ustr option \<Rightarrow> ustr res"
where
  "render_nftables_config fw settings rules generated_rules source_groups rp default_cidr management_source_cidr =
     (if \<not> fs_enabled settings
      then Inr (join_with [10] (config_head @ [lit ''# Atlaso firewall desired state is disabled.'',
                                               lit ''# Applying this state clears Atlaso-managed nftables rules.'']) @ [10])
      else let cidr = (case management_source_cidr of Some c \<Rightarrow> if c \<noteq> [] then c else default_cidr | None \<Rightarrow> default_cidr) in
           bindE (guardE (rp_service rp \<or> ip_network cidr \<noteq> None) (ValueError ''does not appear to be an IPv4 or IPv6 network'')) (\<lambda>_.
           bindE (mapE (chain_lines fw settings (effective_firewall_rules fw rules generated_rules rp) (index_groups fw source_groups) rp cidr)
                    [(''input'', fs_default_input_policy settings), (''forward'', fs_default_forward_policy settings),
                     (''output'', fs_default_output_policy settings)]) (\<lambda>chains.
             Inr (join_with [10] (config_head @ [lit ''table inet atlaso {''] @ concat chains @ [lit ''}'']) @ [10]))))"

end
