(* ===== verification/Routing.thy ===== *)
theory Routing
  imports Firewall
begin

text \<open>
  The generated rules of routing between interfaces (\<open>atlaso/app/services/firewall.py\<close>, with the roles and
  modes of \<open>services/networking.py\<close>): isolation of the management networks, automatic permissions between
  route-role networks, explicit routing rules, and the denials that isolate access networks.

  The hexadecimal SHA-256 of the UTF-8 encoding of a text is the argument \<open>sha256_hex\<close>; it only makes names.
\<close>

record physical_interface =
  pi_name :: ustr
  pi_oper_state :: ustr
  pi_mode :: ustr
  pi_role :: ustr
  pi_ip_cidr :: "ustr option"
  pi_ipv6_cidr :: "ustr option"

record vlan_interface =
  vl_name :: ustr
  vl_enabled :: bool
  vl_role :: ustr
  vl_ip_cidr :: "ustr option"
  vl_ipv6_cidr :: "ustr option"

record routing_rule =
  ro_id :: "int option"
  ro_name :: ustr
  ro_enabled :: bool
  ro_source_interface :: ustr
  ro_destination_interface :: ustr
  ro_policy :: "ustr option"
  ro_ip_family :: "int option"
  ro_priority :: int

record target =
  tg_name :: ustr
  tg_role :: ustr
  tg_networks :: "ustr list"

definition normalize_interface_mode :: "fw \<Rightarrow> ustr \<Rightarrow> ustr" where
  "normalize_interface_mode fw mode =
     (let v = lower fw (strip (if mode \<noteq> [] then mode else lit ''unused'')) in
      if v = lit ''routed'' then lit ''access'' else if one_of v [''access'', ''trunk'', ''unused''] then v else lit ''unused'')"

definition normalize_interface_role :: "fw \<Rightarrow> ustr \<Rightarrow> ustr" where
  "normalize_interface_role fw role =
     (let v = lower fw (strip (if role \<noteq> [] then role else lit ''unused'')) in
      if one_of v [''services'', ''storage''] then lit ''access''
      else if one_of v [''management'', ''access'', ''route'', ''unused''] then v else lit ''unused'')"

subsection \<open>Targets\<close>

text \<open>\<open>str\<close> of a network.\<close>

definition network_text :: "network \<Rightarrow> ustr" where
  "network_text n =
     ip_text (if net_version n = 4 then IPv4 (net_address n) else IPv6 (net_address n) (net_scope n)) @ [47] @ int_text (int (net_prefix n))"

definition network_from_cidr :: "ustr option \<Rightarrow> ustr" where
  "network_from_cidr v =
     (case v of None \<Rightarrow> [] | Some c \<Rightarrow> if c = [] then [] else (case ip_network c of Some n \<Rightarrow> network_text n | None \<Rightarrow> []))"

definition networks_from_cidrs :: "ustr option list \<Rightarrow> ustr list" where
  "networks_from_cidrs values =
     foldl (\<lambda>networks v. let network = network_from_cidr v in
              if network \<noteq> [] \<and> network \<notin> set networks then networks @ [network] else networks) [] values"

definition routing_firewall_targets :: "fw \<Rightarrow> physical_interface list \<Rightarrow> vlan_interface list \<Rightarrow> target list" where
  "routing_firewall_targets fw interfaces vlans =
     concat (map (\<lambda>i. let networks = networks_from_cidrs [pi_ip_cidr i, pi_ipv6_cidr i] in
               if pi_oper_state i = lit ''missing'' \<or> normalize_interface_mode fw (pi_mode i) = lit ''trunk'' \<or> networks = [] then []
               else [\<lparr>tg_name = pi_name i, tg_role = normalize_interface_role fw (pi_role i), tg_networks = networks\<rparr>]) interfaces)
     @ concat (map (\<lambda>v. let networks = networks_from_cidrs [vl_ip_cidr v, vl_ipv6_cidr v] in
               if \<not> vl_enabled v \<or> networks = [] then []
               else [\<lparr>tg_name = vl_name v, tg_role = normalize_interface_role fw (vl_role v), tg_networks = networks\<rparr>]) vlans)"

subsection \<open>Names\<close>

definition slug_char :: "nat \<Rightarrow> bool" where
  "slug_char c \<longleftrightarrow> 97 \<le> c \<and> c \<le> 122 \<or> 48 \<le> c \<and> c \<le> 57"

function sub_slug :: "ustr \<Rightarrow> ustr" where
  "sub_slug s =
     (case s of
        [] \<Rightarrow> []
      | c # t \<Rightarrow> if slug_char c then c # sub_slug t else 45 # sub_slug (dropWhile (\<lambda>c. \<not> slug_char c) t))"
  by pat_completeness auto
termination
  by (relation "measure length") (auto intro: le_imp_less_Suc length_dropWhile_le)

declare sub_slug.simps [simp del]

definition slug :: "fw \<Rightarrow> ustr \<Rightarrow> ustr" where
  "slug fw v = (let s = strip_chars {45} (sub_slug (lower fw (strip v))) in if s \<noteq> [] then s else lit ''dhcp-scope'')"

text \<open>\<open>json.dumps\<close> of a text with \<open>ensure_ascii=False\<close>: only quotes, backslashes and control characters are
  escaped.\<close>

definition quoted_text :: "ustr \<Rightarrow> ustr" where
  "quoted_text s = [34] @ concat (map (\<lambda>c. if c < 32 \<or> c = 34 \<or> c = 92 then esc_char c else [c]) s) @ [34]"

definition routing_generated_name :: "(ustr \<Rightarrow> ustr) \<Rightarrow> ustr \<Rightarrow> ustr \<Rightarrow> ustr \<Rightarrow> nat \<Rightarrow> ustr" where
  "routing_generated_name sha256_hex prefix source_name destination_name family =
     (let identity = [91] @ quoted_text source_name @ [44] @ quoted_text destination_name @ [44] @ int_text (int family) @ [93]
      in prefix @ [45] @ sha256_hex identity)"

definition routing_default_deny_name :: "(ustr \<Rightarrow> ustr) \<Rightarrow> ustr \<Rightarrow> ustr \<Rightarrow> nat \<Rightarrow> ustr" where
  "routing_default_deny_name sha256_hex source_name destination_name family =
     routing_generated_name sha256_hex (lit ''routing-default-deny-ipv'' @ int_text (int family)) source_name destination_name family"

subsection \<open>Rules\<close>

definition ROUTING_MARKER :: ustr where
  "ROUTING_MARKER = lit ''Atlaso-managed lab routing''"

definition ISOLATION_MARKER :: ustr where
  "ISOLATION_MARKER = lit ''Atlaso-managed management routing isolation''"

definition network_version_of :: "ustr \<Rightarrow> nat res" where
  "network_version_of n =
     (case ip_network_strict n of Some k \<Rightarrow> Inr (net_version k) | None \<Rightarrow> Inl (ValueError ''does not appear to be an IPv4 or IPv6 network''))"

text \<open>The versions on both sides. A list stands for the set.\<close>

definition common_routing_networks :: "ustr list \<Rightarrow> ustr list \<Rightarrow> nat list res" where
  "common_routing_networks source destination =
     bindE (mapE network_version_of source) (\<lambda>vs. bindE (mapE network_version_of destination) (\<lambda>ws.
       Inr (filter (\<lambda>v. v \<in> set ws) vs)))"

definition of_versions :: "nat list \<Rightarrow> ustr list \<Rightarrow> ustr list res" where
  "of_versions versions networks = filterE (\<lambda>n. bindE (network_version_of n) (\<lambda>v. Inr (v \<in> set versions))) networks"

definition routing_firewall_rule ::
  "ustr \<Rightarrow> string \<Rightarrow> ustr \<Rightarrow> ustr list \<Rightarrow> ustr list \<Rightarrow> int \<Rightarrow> ustr \<Rightarrow> ustr \<Rightarrow> ustr \<Rightarrow> firewall_rule res"
where
  "routing_firewall_rule name action source_interface source_networks destination_networks priority description
     destination_interface policy_phase =
     bindE (common_routing_networks source_networks destination_networks) (\<lambda>common.
     bindE (of_versions common source_networks) (\<lambda>sources.
     bindE (of_versions common destination_networks) (\<lambda>destinations.
       Inr \<lparr>fr_name = name, fr_direction = lit ''forward'', fr_action = lit action, fr_protocol = lit ''any'',
            fr_source = join_with [10] sources, fr_destination = join_with [10] destinations,
            fr_destination_port = [], fr_interface_name = source_interface, fr_priority = priority, fr_enabled = True,
            fr_description = Some description, fr_routing_destination_interface = destination_interface,
            fr_routing_policy_phase = (if description = ISOLATION_MARKER then lit ''isolation'' else policy_phase)\<rparr>)))"

text \<open>Isolation of one lab target from one management target, in both directions.\<close>

definition isolation_rules :: "(ustr \<Rightarrow> ustr) \<Rightarrow> target \<Rightarrow> target \<Rightarrow> firewall_rule list res" where
  "isolation_rules sha256_hex lab management =
     bindE (common_routing_networks (tg_networks lab) (tg_networks management)) (\<lambda>common.
       if common = [] then Inr []
       else bindE (routing_firewall_rule (routing_generated_name sha256_hex (lit ''isolate'') (tg_name lab) (tg_name management) 0) ''drop''
                     (tg_name lab) (tg_networks lab) (tg_networks management) (- 100) ISOLATION_MARKER [] []) (\<lambda>there.
            bindE (routing_firewall_rule (routing_generated_name sha256_hex (lit ''isolate'') (tg_name management) (tg_name lab) 0) ''drop''
                     (tg_name management) (tg_networks management) (tg_networks lab) (- 100) ISOLATION_MARKER [] []) (\<lambda>back.
              Inr [there, back])))"

definition automatic_rules :: "(ustr \<Rightarrow> ustr) \<Rightarrow> target \<Rightarrow> target \<Rightarrow> firewall_rule list res" where
  "automatic_rules sha256_hex source destination =
     (if tg_name source = tg_name destination then Inr []
      else bindE (common_routing_networks (tg_networks source) (tg_networks destination)) (\<lambda>common.
        if common = [] then Inr []
        else bindE (routing_firewall_rule (routing_generated_name sha256_hex (lit ''route'') (tg_name source) (tg_name destination) 0) ''accept''
                      (tg_name source) (tg_networks source) (tg_networks destination) 30
                      (ROUTING_MARKER @ lit '' from route-role networks.'') (tg_name destination) (lit ''automatic'')) (\<lambda>rule. Inr [rule])))"

definition any_network :: "nat \<Rightarrow> ustr" where
  "any_network version = lit (if version = 4 then ''0.0.0.0/0'' else ''::/0'')"

definition family_networks :: "int \<Rightarrow> ustr list \<Rightarrow> ustr list res" where
  "family_networks family networks =
     (if family = 0 then Inr networks else filterE (\<lambda>n. bindE (network_version_of n) (\<lambda>v. Inr (int v = family))) networks)"

type_synonym routing_acc = "firewall_rule list \<times> (ustr \<times> ustr \<times> nat) list"

text \<open>An explicit rule between two targets that can be routed: the rules so far and the pairs they allow.\<close>

definition explicit_pair ::
  "fw \<Rightarrow> (ustr \<Rightarrow> ustr) \<Rightarrow> routing_acc \<Rightarrow> routing_rule \<Rightarrow> ustr \<Rightarrow> int \<Rightarrow> target \<Rightarrow> target \<Rightarrow> routing_acc res"
where
  "explicit_pair fw sha256_hex acc rule policy family source destination =
     bindE (family_networks family (tg_networks source)) (\<lambda>source_networks.
     bindE (family_networks family (tg_networks destination)) (\<lambda>own_networks.
     bindE (if tg_name source = tg_name destination
            then bindE (mapE network_version_of source_networks) (\<lambda>vs. Inr (map any_network vs))
            else Inr own_networks) (\<lambda>destination_networks.
     bindE (common_routing_networks source_networks destination_networks) (\<lambda>common.
       if common = [] \<or> policy = lit ''automatic'' then Inr acc
       else let identity = (case ro_id rule of Some i \<Rightarrow> int_text i | None \<Rightarrow> take 12 (sha256_hex (ro_name rule))) in
         bindE (routing_firewall_rule (lit ''routing-'' @ identity @ [45] @ take 90 (slug fw (ro_name rule)))
                  (if policy = lit ''deny'' then ''drop'' else ''accept'') (tg_name source) source_networks destination_networks
                  (ro_priority rule) (ROUTING_MARKER @ lit '' from explicit routing rule '' @ ro_name rule @ lit ''.'')
                  (tg_name destination) policy) (\<lambda>r.
           Inr (fst acc @ [r],
                if policy = lit ''allow'' then snd acc @ map (\<lambda>v. (tg_name source, tg_name destination, v)) common else snd acc))))))"

definition explicit_rule :: "fw \<Rightarrow> (ustr \<Rightarrow> ustr) \<Rightarrow> target list \<Rightarrow> routing_acc \<Rightarrow> routing_rule \<Rightarrow> routing_acc res" where
  "explicit_rule fw sha256_hex targets acc rule =
     (let policy = (case ro_policy rule of Some p \<Rightarrow> p | None \<Rightarrow> lit ''allow'');
          family = (case ro_ip_family rule of Some f \<Rightarrow> f | None \<Rightarrow> 0);
          by_name = map_of (rev (map (\<lambda>t. (tg_name t, t)) targets))
      in if \<not> ro_enabled rule then Inr acc
         else if \<not> one_of policy [''automatic'', ''allow'', ''deny''] \<or> family \<notin> {0, 4, 6}
         then Inl (ValueError ''Invalid routing permission policy or family.'')
         else case (by_name (ro_source_interface rule), by_name (ro_destination_interface rule)) of
             (Some source, Some destination) \<Rightarrow>
               if \<not> one_of (tg_role source) [''route'', ''access''] \<or> \<not> one_of (tg_role destination) [''route'', ''access''] then Inr acc
               else explicit_pair fw sha256_hex acc rule policy family source destination
           | _ \<Rightarrow> Inr acc)"

text \<open>The denial of one directed pair of targets for one version.\<close>

definition default_denial ::
  "(ustr \<Rightarrow> ustr) \<Rightarrow> (ustr \<times> ustr \<times> nat) list \<Rightarrow> target \<Rightarrow> target \<Rightarrow> nat \<Rightarrow> firewall_rule list res"
where
  "default_denial sha256_hex allowed_pairs source destination version =
     (let same_interface = (tg_name source = tg_name destination) in
      if \<not> same_interface \<and> tg_role source = lit ''route'' \<and> tg_role destination = lit ''route'' then Inr []
      else if (tg_name source, tg_name destination, version) \<in> set allowed_pairs then Inr []
      else bindE (of_versions [version] (tg_networks source)) (\<lambda>source_networks.
           bindE (of_versions [version] (tg_networks destination)) (\<lambda>own_networks.
             let destination_networks = (if same_interface then [any_network version] else own_networks) in
             if source_networks = [] \<or> destination_networks = [] then Inr []
             else bindE (routing_firewall_rule (routing_default_deny_name sha256_hex (tg_name source) (tg_name destination) version) ''drop''
                           (tg_name source) source_networks destination_networks 30
                           (ROUTING_MARKER @ lit '' from automatic Access isolation.'') (tg_name destination) (lit ''deny'')) (\<lambda>rule. Inr [rule]))))"

definition pairsE :: "('a \<Rightarrow> 'b \<Rightarrow> 'e + 'c list) \<Rightarrow> 'a list \<Rightarrow> 'b list \<Rightarrow> 'e + 'c list" where
  "pairsE f xs ys = bindE (mapE (\<lambda>x. mapE (f x) ys) xs) (\<lambda>rs. Inr (concat (concat rs)))"

definition managed_routing_firewall_rules ::
  "fw \<Rightarrow> (ustr \<Rightarrow> ustr) \<Rightarrow> physical_interface list \<Rightarrow> vlan_interface list \<Rightarrow> routing_rule list \<Rightarrow> bool \<Rightarrow> firewall_rule list res"
where
  "managed_routing_firewall_rules fw sha256_hex interfaces vlans routing_rules routing_enabled =
     (let targets = routing_firewall_targets fw interfaces vlans;
          management_targets = filter (\<lambda>t. tg_role t = lit ''management'') targets;
          lab_targets = filter (\<lambda>t. tg_role t \<noteq> lit ''management'') targets;
          route_targets = filter (\<lambda>t. tg_role t = lit ''route'') lab_targets;
          permission_targets = filter (\<lambda>t. one_of (tg_role t) [''route'', ''access'']) lab_targets
      in bindE (pairsE (isolation_rules sha256_hex) lab_targets management_targets) (\<lambda>isolation.
         if \<not> routing_enabled then Inr isolation
         else bindE (pairsE (automatic_rules sha256_hex) route_targets route_targets) (\<lambda>automatic.
              bindE (foldE (explicit_rule fw sha256_hex targets) ([], []) routing_rules) (\<lambda>(explicit, allowed_pairs).
              bindE (pairsE (\<lambda>source destination.
                       bindE (mapE (default_denial sha256_hex allowed_pairs source destination) [4, 6]) (\<lambda>rs. Inr (concat rs)))
                       permission_targets permission_targets) (\<lambda>denials.
                Inr (isolation @ automatic @ explicit @ denials))))))"

end
