(* ===== verification/ManagedRules.thy ===== *)
theory ManagedRules
  imports Routing Providers
begin

text \<open>
  The generated rules of the appliance services (\<open>atlaso/app/services/firewall.py\<close>): one rule for each
  listener of an enabled service, its source resolved from the Source Group assigned to it.
\<close>

record listener_settings =
  ls_enabled :: bool
  ls_listen_interface :: ustr
  ls_port :: int

record ldap_settings = listener_settings +
  ld_ldaps_enabled :: bool
  ld_ldap_enabled :: bool
  ld_ldap_port :: int

record ntp_settings = listener_settings +
  nt_nts_server_enabled :: bool
  nt_nts_ke_port :: "int option"

record dhcp_scope =
  sc_name :: ustr
  sc_enabled :: bool
  sc_interface_name :: ustr
  sc_address_family :: ustr
  sc_site_address :: ustr

record storage_rule =
  st_name :: ustr
  st_family :: ustr
  st_interface_name :: ustr
  st_source :: ustr
  st_ports :: ustr

type_synonym assignments = "(ustr \<times> ustr) list"

subsection \<open>Interfaces\<close>

definition split_interfaces :: "ustr \<Rightarrow> ustr list" where
  "split_interfaces raw = (if raw = [] then [] else ordered_unique (map strip (filter (\<lambda>item. strip item \<noteq> []) (port_items raw))))"

definition firewall_interface_networks :: "physical_interface list \<Rightarrow> vlan_interface list \<Rightarrow> (ustr \<times> ustr list) list" where
  "firewall_interface_networks interfaces vlans =
     foldl (\<lambda>d v. let networks = networks_from_cidrs [vl_ip_cidr v, vl_ipv6_cidr v] in
              if vl_enabled v \<and> networks \<noteq> [] then dict_put (vl_name v) networks d else d)
       (foldl (\<lambda>d i. let networks = networks_from_cidrs [pi_ip_cidr i, pi_ipv6_cidr i] in
              if pi_oper_state i \<noteq> lit ''missing'' \<and> networks \<noteq> [] then dict_put (pi_name i) networks d else d) [] interfaces)
       vlans"

definition ca_portal_firewall_interfaces ::
  "fw \<Rightarrow> physical_interface list \<Rightarrow> vlan_interface list \<Rightarrow> (ustr \<times> ustr list) list \<Rightarrow> ustr list"
where
  "ca_portal_firewall_interfaces fw interfaces vlans interface_networks =
     map pi_name (filter (\<lambda>i. pi_oper_state i \<noteq> lit ''missing'' \<and> map_of interface_networks (pi_name i) \<noteq> None
       \<and> normalize_interface_mode fw (pi_mode i) \<noteq> lit ''trunk'' \<and> lower fw (strip (pi_role i)) \<noteq> lit ''management'') interfaces)
     @ map vl_name (filter (\<lambda>v. vl_enabled v \<and> map_of interface_networks (vl_name v) \<noteq> None
       \<and> lower fw (strip (vl_role v)) \<noteq> lit ''management'') vlans)"

subsection \<open>Rules\<close>

definition service_firewall_rule :: "ustr \<Rightarrow> ustr \<Rightarrow> ustr \<Rightarrow> ustr \<Rightarrow> string \<Rightarrow> ustr \<Rightarrow> int \<Rightarrow> firewall_rule" where
  "service_firewall_rule name service interface_name source protocol ports priority =
     \<lparr>fr_name = name, fr_direction = lit ''input'', fr_action = lit ''accept'', fr_protocol = lit protocol,
      fr_source = source, fr_destination = lit ''any'', fr_destination_port = ports, fr_interface_name = strip interface_name,
      fr_priority = priority, fr_enabled = True, fr_description = Some (lit ''Atlaso-managed service access for '' @ service @ lit ''.''),
      fr_routing_destination_interface = [], fr_routing_policy_phase = []\<rparr>"

definition managed_rule_source_group_id :: "ustr \<Rightarrow> assignments \<Rightarrow> ustr" where
  "managed_rule_source_group_id rule_name assignments =
     (let default_name = (if starts ''management-ui-'' rule_name then lit ''management-ui'' else rule_name) in
      case map_of assignments rule_name of
        Some g \<Rightarrow> g
      | None \<Rightarrow> (case map_of assignments default_name of Some g \<Rightarrow> g | None \<Rightarrow> lit ''any''))"

text \<open>A missing group, like one without fields, gives way to the group \<open>any\<close>.\<close>

definition managed_rule_source :: "fw \<Rightarrow> groups_by_id \<Rightarrow> assignments \<Rightarrow> ustr \<Rightarrow> ustr res" where
  "managed_rule_source fw source_groups_by_id assignments rule_name =
     (let found = (\<lambda>i. case map_of source_groups_by_id i of Some g \<Rightarrow> g | None \<Rightarrow> []);
          first = found (managed_rule_source_group_id rule_name assignments);
          grp = (if first \<noteq> [] then first else found (lit ''any''))
      in if grp \<noteq> [] then source_group_to_rule_source fw grp source_groups_by_id else Inr (lit ''any''))"

text \<open>A rule named \<open>name\<close> whose source is the assignment of \<open>key\<close>.\<close>

definition listener_rule ::
  "fw \<Rightarrow> groups_by_id \<Rightarrow> assignments \<Rightarrow> ustr \<Rightarrow> ustr \<Rightarrow> string \<Rightarrow> ustr \<Rightarrow> string \<Rightarrow> ustr \<Rightarrow> int \<Rightarrow> firewall_rule res"
where
  "listener_rule fw source_groups_by_id assignments name key service interface_name protocol ports priority =
     bindE (managed_rule_source fw source_groups_by_id assignments key) (\<lambda>source.
       Inr (service_firewall_rule name (lit service) interface_name source protocol ports priority))"

definition enumerated :: "'a list \<Rightarrow> (int \<times> 'a) list" where
  "enumerated xs = zip (map int [1..<Suc (length xs)]) xs"

definition dhcp_scope_address_family :: "fw \<Rightarrow> dhcp_scope \<Rightarrow> ustr" where
  "dhcp_scope_address_family fw scope =
     (let family = lower fw (strip (sc_address_family scope)) in
      if one_of family [''ipv4'', ''ipv6''] then family
      else case ip_address (sc_site_address scope) of Some (IPv6 n z) \<Rightarrow> lit ''ipv6'' | _ \<Rightarrow> lit ''ipv4'')"

definition dhcp_firewall_rules :: "fw \<Rightarrow> bool \<Rightarrow> dhcp_scope list \<Rightarrow> firewall_rule list" where
  "dhcp_firewall_rules fw enabled scopes =
     (if \<not> enabled then []
      else map (\<lambda>(index, scope).
        let v6 = (dhcp_scope_address_family fw scope = lit ''ipv6'') in
        \<lparr>fr_name = slug fw (sc_name scope) @ lit (if v6 then ''-dns-dhcpv6'' else ''-dns-dhcp''), fr_direction = lit ''input'',
         fr_action = lit ''accept'', fr_protocol = lit ''udp'', fr_source = lit ''any'', fr_destination = lit ''any'',
         fr_destination_port = lit (if v6 then ''547'' else ''67''), fr_interface_name = strip (sc_interface_name scope),
         fr_priority = 20 + index, fr_enabled = True,
         fr_description = Some (lit ''Atlaso-managed DNS/DHCP access for DHCP '' @ lit (if v6 then ''IPv6'' else ''IPv4'') @ lit '' IP zone ''
           @ sc_name scope @ lit ''. DHCP bootstrap traffic is interface-bound and not group-restricted.''),
         fr_routing_destination_interface = [], fr_routing_policy_phase = []\<rparr>) (enumerated (filter sc_enabled scopes)))"

definition dns_listener_rules :: "fw \<Rightarrow> groups_by_id \<Rightarrow> assignments \<Rightarrow> int \<times> ustr \<Rightarrow> firewall_rule list res" where
  "dns_listener_rules fw source_groups_by_id assignments =
     (\<lambda>(index, interface_name).
       mapE (\<lambda>(protocol_offset, protocol).
         let rule_name = slug fw interface_name @ lit ''-dns-'' @ lit protocol in
         bindE (managed_rule_source fw source_groups_by_id assignments rule_name) (\<lambda>source.
           Inr \<lparr>fr_name = rule_name, fr_direction = lit ''input'', fr_action = lit ''accept'', fr_protocol = lit protocol,
                fr_source = source, fr_destination = lit ''any'', fr_destination_port = lit ''53'', fr_interface_name = interface_name,
                fr_priority = 40 + index * 2 + protocol_offset, fr_enabled = True,
                fr_description = Some (lit ''Atlaso-managed DNS access for DNS listener '' @ interface_name @ lit ''.''),
                fr_routing_destination_interface = [], fr_routing_policy_phase = []\<rparr>))
         [(0, ''tcp''), (1, ''udp'')])"

definition dns_firewall_rules :: "fw \<Rightarrow> bool \<Rightarrow> ustr \<Rightarrow> groups_by_id \<Rightarrow> assignments \<Rightarrow> firewall_rule list res" where
  "dns_firewall_rules fw enabled listen_interface source_groups_by_id assignments =
     (if \<not> enabled then Inr []
      else bindE (mapE (dns_listener_rules fw source_groups_by_id assignments)
                    (enumerated (map strip (filter (\<lambda>item. strip item \<noteq> []) (port_items listen_interface))))) (\<lambda>rs. Inr (concat rs)))"

record service_inputs =
  si_dns :: listener_settings
  si_dhcp_enabled :: bool
  si_dhcp_scopes :: "dhcp_scope list"
  si_ca :: listener_settings
  si_ca_portal_interfaces :: "ustr list option"
  si_kms :: listener_settings
  si_ntp :: ntp_settings
  si_vcf_backup :: listener_settings
  si_vcf_depot :: listener_settings
  si_vcf_registry :: listener_settings
  si_esxi_pxe_boot :: group
  si_interface_networks :: "(ustr \<times> ustr list) list"
  si_source_groups :: "group list"
  si_assignments :: assignments
  si_web_terminal_interfaces :: "ustr list"
  si_ldap :: "ldap_settings option"
  si_oidc :: "listener_settings option"
  si_storage_rules :: "storage_rule list"
  si_management_interface :: "ustr option"
  si_access_management_ui_interfaces :: "ustr list"

text \<open>The listeners of one service.\<close>

definition listeners :: "bool \<Rightarrow> ustr list \<Rightarrow> (int \<times> ustr \<Rightarrow> firewall_rule list res) \<Rightarrow> firewall_rule list res" where
  "listeners enabled interfaces f =
     (if enabled then bindE (mapE f (enumerated interfaces)) (\<lambda>rs. Inr (concat rs)) else Inr [])"

definition one_listener ::
  "fw \<Rightarrow> groups_by_id \<Rightarrow> assignments \<Rightarrow> string \<Rightarrow> bool \<Rightarrow> string \<Rightarrow> string \<Rightarrow> ustr \<Rightarrow> int \<Rightarrow> int \<times> ustr \<Rightarrow> firewall_rule list res"
where
  "one_listener fw gs assignments prefix shared service protocol ports base =
     (\<lambda>(index, interface_name).
       bindE (listener_rule fw gs assignments (lit prefix @ [45] @ interface_name) (if shared then lit prefix else lit prefix @ [45] @ interface_name)
                service interface_name protocol ports (base + index)) (\<lambda>r. Inr [r]))"

definition joinE :: "('a \<Rightarrow> 'e + 'b list) list \<Rightarrow> 'a \<Rightarrow> 'e + 'b list" where
  "joinE fs x = bindE (mapE (\<lambda>f. f x) fs) (\<lambda>rs. Inr (concat rs))"

definition only :: "bool \<Rightarrow> ('a \<Rightarrow> 'e + 'b list) \<Rightarrow> 'a \<Rightarrow> 'e + 'b list" where
  "only b f x = (if b then f x else Inr [])"

definition ca_interfaces :: "service_inputs \<Rightarrow> ustr list" where
  "ca_interfaces inp = (case si_ca_portal_interfaces inp of Some xs \<Rightarrow> xs | None \<Rightarrow> split_interfaces (ls_listen_interface (si_ca inp)))"

definition pxe_enabled :: "fw \<Rightarrow> service_inputs \<Rightarrow> bool" where
  "pxe_enabled fw inp = (case map_of (si_esxi_pxe_boot inp) (lit ''enabled'') of Some v \<Rightarrow> truthy (fw_float_true fw) v | None \<Rightarrow> False)"

definition pxe_interfaces :: "fw \<Rightarrow> service_inputs \<Rightarrow> ustr list" where
  "pxe_interfaces fw inp = split_interfaces (group_text_or fw (si_esxi_pxe_boot inp) ''listen_interface'' [])"

definition public_service_interfaces :: "fw \<Rightarrow> service_inputs \<Rightarrow> ustr list" where
  "public_service_interfaces fw inp = ordered_unique
     ((if ls_enabled (si_ca inp) then ca_interfaces inp else [])
      @ (if ls_enabled (si_vcf_depot inp) then split_interfaces (ls_listen_interface (si_vcf_depot inp)) else [])
      @ (if ls_enabled (si_vcf_registry inp) then split_interfaces (ls_listen_interface (si_vcf_registry inp)) else [])
      @ (if pxe_enabled fw inp then pxe_interfaces fw inp else []))"

text \<open>The services, in the order of the code.\<close>

definition service_groups :: "fw \<Rightarrow> service_inputs \<Rightarrow> firewall_rule list res list" where
  "service_groups fw inp =
     (let gs = index_groups fw (si_source_groups inp); asg = si_assignments inp; one = one_listener fw gs asg;
          known = (\<lambda>name. map_of (si_interface_networks inp) name \<noteq> None);
          management = (case si_management_interface inp of None \<Rightarrow> lit ''eth0'' | Some i \<Rightarrow> i);
          split = (\<lambda>s. split_interfaces (ls_listen_interface s));
          port = (\<lambda>s. int_text (ls_port s))
      in [if management \<noteq> []
          then bindE (listener_rule fw gs asg (lit ''mgmt-console'') (lit ''mgmt-console'') ''Management console'' management ''tcp'' (lit ''22,80,443'') 10) (\<lambda>r. Inr [r])
          else Inr [],
          listeners True (si_access_management_ui_interfaces inp)
            (\<lambda>p. only (known (snd p)) (one ''management-ui'' False ''Management UI'' ''tcp'' (lit ''22,80,443'') 10) p),
          listeners True (si_web_terminal_interfaces inp)
            (\<lambda>p. only (snd p \<noteq> lit ''eth0'') (one ''web-terminal'' False ''Web terminal'' ''tcp'' (lit ''443'') 15) p),
          dns_firewall_rules fw (ls_enabled (si_dns inp)) (ls_listen_interface (si_dns inp)) gs asg,
          Inr (dhcp_firewall_rules fw (si_dhcp_enabled inp) (si_dhcp_scopes inp)),
          listeners (ls_enabled (si_ca inp)) (ca_interfaces inp) (one ''ca-portal'' True ''CA portal'' ''tcp'' (lit ''80,443'') 55),
          listeners (ls_enabled (si_kms inp)) (split (si_kms inp)) (one ''kms-kmip'' True ''KMS / KMIP'' ''tcp'' (port (si_kms inp)) 60),
          (case si_ldap inp of
             None \<Rightarrow> Inr []
           | Some s \<Rightarrow> listeners (ls_enabled s) (split_interfaces (ls_listen_interface s)) (joinE
               [only (ld_ldaps_enabled s) (one ''ldap-ldaps'' False ''Managed LDAP / LDAPS'' ''tcp'' (int_text (ls_port s)) 63),
                only (ld_ldap_enabled s) (one ''ldap-plaintext'' False ''Managed LDAP / plaintext LDAP'' ''tcp'' (int_text (ld_ldap_port s)) 64)])),
          (case si_oidc inp of
             None \<Rightarrow> Inr []
           | Some s \<Rightarrow> listeners (ls_enabled s) (split s) (one ''oidc'' False ''OpenID Connect'' ''tcp'' (port s) 69)),
          listeners (ls_enabled (si_ntp inp)) (split_interfaces (ls_listen_interface (si_ntp inp))) (joinE
            [one ''ntpd'' False ''NTPsec'' ''udp'' (int_text (ls_port (si_ntp inp))) 65,
             only (nt_nts_server_enabled (si_ntp inp)) (one ''ntpd-nts'' False ''NTPsec NTS-KE'' ''tcp''
               (int_text (case nt_nts_ke_port (si_ntp inp) of Some p \<Rightarrow> if p \<noteq> 0 then p else 4460 | None \<Rightarrow> 4460)) 68)]),
          listeners (ls_enabled (si_vcf_backup inp)) (split (si_vcf_backup inp))
            (one ''vcf-backups-sftp'' True ''VCF Backups SFTP'' ''tcp'' (port (si_vcf_backup inp)) 70),
          listeners True (public_service_interfaces fw inp)
            (\<lambda>p. only (known (snd p)) (one ''public-services'' True ''Public service directory'' ''tcp'' (lit ''80'') 75) p),
          listeners (ls_enabled (si_vcf_depot inp)) (split (si_vcf_depot inp))
            (one ''vcf-offline-depot'' True ''VCF Offline Depot'' ''tcp'' (port (si_vcf_depot inp)) 80),
          listeners (ls_enabled (si_vcf_registry inp)) (split (si_vcf_registry inp))
            (one ''vcf-private-registry'' True ''VCF Private Registry'' ''tcp'' (port (si_vcf_registry inp)) 90),
          listeners (pxe_enabled fw inp) (pxe_interfaces fw inp) (joinE
            [one ''esxi-pxe-tftp'' True ''ESXi PXE TFTP'' ''udp'' (lit ''69'') 100,
             one ''esxi-pxe-http'' True ''ESXi PXE HTTP'' ''tcp'' (group_text_or fw (si_esxi_pxe_boot inp) ''http_port'' (lit ''8080'')) 110])])"

text \<open>\<open>upper\<close> is \<open>str.upper\<close>, used in a description only.\<close>

definition storage_rules :: "(ustr \<Rightarrow> ustr) \<Rightarrow> nat \<Rightarrow> storage_rule list \<Rightarrow> firewall_rule list" where
  "storage_rules upper before specs =
     map (\<lambda>(i, spec). service_firewall_rule (st_name spec) (lit ''ESX NFS '' @ upper (st_family spec)) (st_interface_name spec) (st_source spec)
            ''tcp'' (st_ports spec) (125 + int before + int i)) (zip [0..<length specs] specs)"

definition managed_service_firewall_rules :: "fw \<Rightarrow> (ustr \<Rightarrow> ustr) \<Rightarrow> service_inputs \<Rightarrow> firewall_rule list res" where
  "managed_service_firewall_rules fw upper inp =
     bindE (mapE (\<lambda>x. x) (service_groups fw inp)) (\<lambda>groups.
       let rules = concat groups in Inr (rules @ storage_rules upper (length rules) (si_storage_rules inp)))"

end
