(* ===== verification/SourceGroupProps.thy ===== *)
theory SourceGroupProps
  imports SourceGroups
begin

text \<open>
  What holds of Source Groups: following references ends, also where they form a cycle; groups that pass
  validation expand to exactly the addresses they reach.
\<close>

subsection \<open>The index of groups\<close>

lemma length_dict_put: "length (dict_put k v d) \<le> Suc (length d)"
  by (induction k v d rule: dict_put.induct) auto

lemma length_foldl_dict_put: "length (foldl (\<lambda>d x. dict_put (f x) (h x) d) d xs) \<le> length d + length xs"
proof (induction xs arbitrary: d)
  case (Cons x xs)
  from Cons [of "dict_put (f x) (h x) d"] length_dict_put [of "f x" "h x" d] show ?case by simp
qed simp

lemma length_index_groups: "length (index_groups fw groups) \<le> length groups"
  using length_foldl_dict_put [of "\<lambda>g. group_text fw g ''id''" "\<lambda>g. g" "[]" groups] by (simp add: index_groups_def)

lemma card_keys: "card (fst ` set d) \<le> length d"
  by (metis card_length length_map set_map)

lemma map_of_foldl_dict_put:
  "map_of (foldl (\<lambda>d x. dict_put (f x) (h x) d) d xs) = map_of d ++ map_of (rev (map (\<lambda>x. (f x, h x)) xs))"
  by (induction xs arbitrary: d) (auto simp: map_of_dict_put fun_eq_iff map_add_def split: option.splits)

lemma name_index_eq:
  "map_of (source_group_name_index fw gs) =
     map_of (rev (map (\<lambda>x. (lower fw (strip (group_text fw (snd x) ''name'')), fst x))
       (filter (\<lambda>x. strip (group_text fw (snd x) ''name'') \<noteq> []) gs)))"
  by (simp add: source_group_name_index_def case_prod_unfold map_of_foldl_dict_put)

lemma name_index_group:
  "map_of (source_group_name_index fw gs) k = Some i \<Longrightarrow> i \<in> fst ` set gs"
  unfolding name_index_eq by (drule map_of_SomeD) auto

lemma target_group:
  assumes "source_group_reference_target fw v gs (source_group_name_index fw gs) = i" "i \<noteq> []"
  shows "i \<in> fst ` set gs"
  using assms
  by (auto simp: source_group_reference_target_def Let_def map_of_eq_None_iff split: if_splits option.splits
      dest: name_index_group) 

subsection \<open>Termination\<close>

lemma expand_loop_returns:
  assumes "\<And>g t. t \<in> fst ` set gs \<Longrightarrow> t \<notin> set stack \<Longrightarrow> \<exists>out. nested g (stack @ [t]) = Inr out"
  shows "\<exists>out. expand_loop fw gs nested stack expanded entries = Inr out"
proof (induction entries arbitrary: expanded)
  case (Cons e es)
  define t where "t = source_group_reference_target fw (strip e) gs (source_group_name_index fw gs)"
  show ?case
  proof (cases "t = [] \<or> t \<in> set stack")
    case True
    then show ?thesis using Cons.IH by (auto simp: t_def [symmetric] Let_def)
  next
    case False
    then obtain out where "nested (case map_of gs t of Some g \<Rightarrow> g | None \<Rightarrow> []) (stack @ [t]) = Inr out"
      using assms target_group [OF t_def [symmetric]] by blast
    then show ?thesis using False Cons.IH by (simp add: t_def [symmetric] Let_def)
  qed
qed simp

lemma expand_at_returns:
  assumes "distinct stack" "set stack \<subseteq> fst ` set gs" "card (fst ` set gs) < depth + length stack"
  shows "\<exists>out. expand_at depth fw gs grp stack = Inr out"
  using assms
proof (induction depth arbitrary: grp stack)
  case 0
  then have "card (set stack) \<le> card (fst ` set gs)" by (intro card_mono) auto
  with 0 show ?case by (simp add: distinct_card)
next
  case (Suc depth)
  show ?case unfolding expand_at.simps
    by (rule expand_loop_returns, rule Suc.IH) (use Suc.prems in auto)
qed

lemma visit_at_returns:
  assumes "distinct path" "set path \<subseteq> fst ` set gs" "card (fst ` set gs) < depth + length path"
  shows "\<exists>errors. visit_at depth fw gs names i path = Inr errors"
  using assms
proof (induction depth arbitrary: i path)
  case 0
  then have "card (set path) \<le> card (fst ` set gs)" by (intro card_mono) auto
  with 0 show ?case by (simp add: distinct_card)
next
  case (Suc depth)
  show ?case
  proof (cases "i \<in> set path \<or> map_of gs i = None \<or> map_of gs i = Some []")
    case True
    then show ?thesis by (auto split: option.splits simp: Let_def)
  next
    case False
    then obtain g where g: "map_of gs i = Some g" "g \<noteq> []" "i \<notin> set path" by auto
    have ih: "\<exists>errors. visit_at depth fw gs names j (path @ [i]) = Inr errors" for j
      by (rule Suc.IH) (use Suc.prems g map_of_SomeD [OF g(1)] in \<open>force+\<close>)
    have loop: "\<exists>errors. foldE (\<lambda>errors entry.
                   let target_id = source_group_reference_target fw entry gs names in
                   if target_id \<noteq> []
                   then bindE (visit_at depth fw gs names target_id (path @ [i])) (\<lambda>new. Inr (errors @ new))
                   else Inr errors) acc es = Inr errors" for acc es
    proof (induction es arbitrary: acc)
      case (Cons e es)
      obtain new where "visit_at depth fw gs names (source_group_reference_target fw e gs names) (path @ [i]) = Inr new"
        using ih by blast
      then show ?case using Cons.IH by (simp add: Let_def)
    qed simp
    show ?thesis using g loop by simp
  qed
qed

lemma cycles_return:
  assumes "length gs < fw_depth fw"
  shows "\<exists>errors. validate_source_group_cycles fw groups gs names = Inr errors"
proof -
  have v: "\<exists>errors. visit_at (fw_depth fw) fw gs names i [] = Inr errors" for i
    by (rule visit_at_returns) (use assms card_keys [of gs] in auto)
  have "\<exists>errors. foldE (\<lambda>errors grp. let group_id = group_text fw grp ''id'' in
       if group_id \<noteq> [] then bindE (visit_at (fw_depth fw) fw gs names group_id []) (\<lambda>new. Inr (errors @ new))
       else Inr errors) acc xs = Inr errors" for acc xs
  proof (induction xs arbitrary: acc)
    case (Cons x xs)
    obtain new where "visit_at (fw_depth fw) fw gs names (group_text fw x ''id'') [] = Inr new" using v by blast
    then show ?case using Cons.IH by (simp add: Let_def)
  qed simp
  then show ?thesis by (simp add: validate_source_group_cycles_def)
qed

text \<open>C35: Following references ends. When the interpreter allows deeper calls than there are groups, the
  expansion of any group and the validation of the whole list return, whatever the groups refer to:
  themselves, each other in a cycle, or nothing.\<close>

theorem source_groups_terminate:
  assumes "length groups < fw_depth fw"
  shows "(\<exists>sources. expand_source_group_entries fw grp (index_groups fw groups) = Inr sources)
    \<and> (\<exists>errors. validate_firewall_source_groups fw groups = Inr errors)"
proof -
  have less: "length (index_groups fw groups) < fw_depth fw"
    using assms length_index_groups [of fw groups] by simp
  then have "\<exists>sources. expand_source_group_entries fw grp (index_groups fw groups) = Inr sources"
    unfolding expand_source_group_entries_def
    by (intro expand_at_returns) (use card_keys [of "index_groups fw groups"] in auto)
  moreover obtain errors names where "name_errors fw groups = (errors, names)" by fastforce
  with cycles_return [OF less, of groups names]
  have "\<exists>errors. validate_firewall_source_groups fw groups = Inr errors"
    by (auto simp: validate_firewall_source_groups_def)
  ultimately show ?thesis by blast
qed

subsection \<open>What a group stands for\<close>

text \<open>The addresses a group reaches: its own entries that are not references, and those of the groups it
  refers to.\<close>

abbreviation target_of :: "fw \<Rightarrow> groups_by_id \<Rightarrow> ustr \<Rightarrow> ustr" where
  "target_of fw gs e \<equiv> source_group_reference_target fw e gs (source_group_name_index fw gs)"

inductive reaches :: "fw \<Rightarrow> groups_by_id \<Rightarrow> ustr \<Rightarrow> ustr \<Rightarrow> bool" for fw gs where
  any: "map_of gs i = Some g \<Longrightarrow> e \<in> set (source_group_entries fw g [lit ''any'']) \<Longrightarrow> lower fw (strip e) = lit ''any''
          \<Longrightarrow> reaches fw gs i (lit ''any'')"
| own: "map_of gs i = Some g \<Longrightarrow> e \<in> set (source_group_entries fw g [lit ''any'']) \<Longrightarrow> lower fw (strip e) \<noteq> lit ''any''
          \<Longrightarrow> target_of fw gs (strip e) = [] \<Longrightarrow> reaches fw gs i (strip e)"
| via: "map_of gs i = Some g \<Longrightarrow> e \<in> set (source_group_entries fw g [lit ''any'']) \<Longrightarrow> lower fw (strip e) \<noteq> lit ''any''
          \<Longrightarrow> target_of fw gs (strip e) \<noteq> [] \<Longrightarrow> reaches fw gs (target_of fw gs (strip e)) x \<Longrightarrow> reaches fw gs i x"

inductive_cases reachesE: "reaches fw gs i x"

definition entry_addresses :: "fw \<Rightarrow> groups_by_id \<Rightarrow> ustr \<Rightarrow> ustr set" where
  "entry_addresses fw gs e =
     (if lower fw (strip e) = lit ''any'' then {lit ''any''}
      else if target_of fw gs (strip e) = [] then {strip e}
      else {x. reaches fw gs (target_of fw gs (strip e)) x})"

lemma reaches_entries:
  assumes "map_of gs i = Some g"
  shows "{x. reaches fw gs i x} = (\<Union>e \<in> set (source_group_entries fw g [lit ''any'']). entry_addresses fw gs e)"
proof (intro set_eqI iffI)
  fix x
  assume "x \<in> {x. reaches fw gs i x}"
  then have "reaches fw gs i x" by simp
  then show "x \<in> (\<Union>e \<in> set (source_group_entries fw g [lit ''any'']). entry_addresses fw gs e)"
    by (rule reachesE) (use assms in \<open>auto simp: entry_addresses_def\<close>)
next
  fix x
  assume "x \<in> (\<Union>e \<in> set (source_group_entries fw g [lit ''any'']). entry_addresses fw gs e)"
  then show "x \<in> {x. reaches fw gs i x}"
    using assms by (auto simp: entry_addresses_def intro: reaches.intros split: if_splits)
qed

lemma lower_any: "lower fw (lit ''any'') = lit ''any''"
  by (simp add: lower_def ascii_text_def lit_def lower_char_def)

definition exactly :: "ustr list \<Rightarrow> ustr set \<Rightarrow> bool" where
  "exactly out X \<longleftrightarrow> distinct out \<and> out \<noteq> [] \<and> (if lit ''any'' \<in> X then out = [lit ''any''] else set out = X)"

lemma add_unique:
  "distinct out \<Longrightarrow> distinct (foldl (\<lambda>out x. if x \<in> set out then out else out @ [x]) out xs)
     \<and> set (foldl (\<lambda>out x. if x \<in> set out then out else out @ [x]) out xs) = set out \<union> set xs"
  by (induction xs arbitrary: out) auto

lemma expand_loop_exact:
  assumes "\<And>e out. e \<in> set es \<Longrightarrow> lower fw (strip e) \<noteq> lit ''any'' \<Longrightarrow> target_of fw gs (strip e) \<noteq> [] \<Longrightarrow>
      target_of fw gs (strip e) \<notin> set stack \<and>
      (nested (case map_of gs (target_of fw gs (strip e)) of Some g \<Rightarrow> g | None \<Rightarrow> []) (stack @ [target_of fw gs (strip e)]) = Inr out
        \<longrightarrow> exactly out {x. reaches fw gs (target_of fw gs (strip e)) x})"
    and "expand_loop fw gs nested stack expanded es = Inr out"
    and "distinct expanded" "lit ''any'' \<notin> set expanded" "expanded \<noteq> [] \<or> es \<noteq> []"
  shows "exactly out (set expanded \<union> (\<Union>e \<in> set es. entry_addresses fw gs e))"
  using assms
proof (induction es arbitrary: expanded)
  case Nil
  then show ?case by (auto simp: exactly_def)
next
  case (Cons e es)
  define t where "t = target_of fw gs (strip e)"
  have ih: "exactly out (set more \<union> (\<Union>e \<in> set es. entry_addresses fw gs e))"
    if "expand_loop fw gs nested stack more es = Inr out" "distinct more" "lit ''any'' \<notin> set more" "more \<noteq> []" for more
    using that by (intro Cons.IH Cons.prems(1)) auto
  consider (any) "lower fw (strip e) = lit ''any''" | (own) "lower fw (strip e) \<noteq> lit ''any''" "t = []"
    | (via) "lower fw (strip e) \<noteq> lit ''any''" "t \<noteq> []" by blast
  then show ?case
  proof cases
    case any
    then show ?thesis using Cons.prems(2) by (auto simp: exactly_def entry_addresses_def Let_def)
  next
    case own
    have "strip e \<noteq> lit ''any''" using own(1) lower_any by metis
    then have "exactly out (set (if strip e \<in> set expanded then expanded else expanded @ [strip e]) \<union> (\<Union>e \<in> set es. entry_addresses fw gs e))"
      using own Cons.prems(2-4) by (intro ih) (auto simp: t_def [symmetric] Let_def)
    moreover have "set (if strip e \<in> set expanded then expanded else expanded @ [strip e]) = set expanded \<union> entry_addresses fw gs e"
      using own by (auto simp: entry_addresses_def t_def)
    ultimately show ?thesis by (simp add: Un_assoc)
  next
    case via
    from Cons.prems(1) [of e] via have fresh: "t \<notin> set stack" by (auto simp: t_def)
    then obtain sources where n: "nested (case map_of gs t of Some g \<Rightarrow> g | None \<Rightarrow> []) (stack @ [t]) = Inr sources"
      and rest: "if sources = [lit ''any''] then out = [lit ''any'']
           else expand_loop fw gs nested stack
             (foldl (\<lambda>out x. if x \<in> set out then out else out @ [x]) expanded sources) es = Inr out"
      using Cons.prems(2) via by (auto simp: t_def [symmetric] Let_def bindE_Inr_iff split: if_splits)
    have ex: "exactly sources (entry_addresses fw gs e)"
      using Cons.prems(1) [of e sources] via n by (simp add: t_def [symmetric] entry_addresses_def)
    show ?thesis
    proof (cases "sources = [lit ''any'']")
      case True
      with rest ex show ?thesis by (auto simp: exactly_def split: if_splits)
    next
      case False
      with ex have src: "set sources = entry_addresses fw gs e" "lit ''any'' \<notin> set sources" "sources \<noteq> []"
        by (auto simp: exactly_def split: if_splits)
      define more where "more = foldl (\<lambda>out x. if x \<in> set out then out else out @ [x]) expanded sources"
      have u: "distinct more" "set more = set expanded \<union> set sources"
        using add_unique [OF Cons.prems(3)] by (auto simp: more_def)
      moreover have "lit ''any'' \<notin> set more" using u(2) src Cons.prems(4) by blast
      moreover have "more \<noteq> []" using u(2) src(3) by (metis Un_empty set_empty)
      ultimately have "exactly out (set more \<union> (\<Union>e \<in> set es. entry_addresses fw gs e))"
        using rest False by (intro ih) (simp_all add: more_def)
      then show ?thesis by (simp add: u(2) src(1) Un_assoc)
    qed
  qed
qed

lemma collect_no_errors:
  assumes "foldE (\<lambda>errors x. let t = f x in if t \<noteq> [] then bindE (v t) (\<lambda>new. Inr (errors @ new)) else Inr errors) acc xs
    = Inr []"
  shows "acc = [] \<and> (\<forall>x \<in> set xs. f x \<noteq> [] \<longrightarrow> v (f x) = Inr [])"
  using assms
proof (induction xs arbitrary: acc)
  case (Cons x xs)
  then show ?case by (cases "v (f x)") (auto simp: Let_def split: if_splits)
qed simp

lemma visit_no_errors:
  assumes "visit_at depth fw gs names i path = Inr []"
  shows "i \<notin> set path"
    and "map_of gs i = Some g \<Longrightarrow> g \<noteq> [] \<Longrightarrow> e \<in> set (source_group_entries fw g [lit ''any'']) \<Longrightarrow>
      source_group_reference_target fw e gs names \<noteq> [] \<Longrightarrow>
      \<exists>d. visit_at d fw gs names (source_group_reference_target fw e gs names) (path @ [i]) = Inr []"
proof -
  obtain d where d: "depth = Suc d" using assms by (cases depth) auto
  show path: "i \<notin> set path" using assms by (auto simp: d Let_def split: if_splits)
  show "\<exists>d. visit_at d fw gs names (source_group_reference_target fw e gs names) (path @ [i]) = Inr []"
    if "map_of gs i = Some g" "g \<noteq> []" "e \<in> set (source_group_entries fw g [lit ''any''])"
      "source_group_reference_target fw e gs names \<noteq> []"
    using assms that path
      collect_no_errors [where f = "\<lambda>e. source_group_reference_target fw e gs names" and v = "\<lambda>t. visit_at d fw gs names t (path @ [i])"]
    by (auto simp: d)
qed

declare strip_idem [simp]

lemma target_strip [simp]: "source_group_reference_target fw (strip e) gs names = source_group_reference_target fw e gs names"
  by (simp add: source_group_reference_target_def)

lemma expand_at_exact:
  assumes "\<And>e. source_group_reference_target fw e gs names = target_of fw gs e" "\<And>i g. map_of gs i = Some g \<Longrightarrow> g \<noteq> []"
    and "map_of gs i = Some g" "visit_at d fw gs names i path = Inr []" "set stack \<subseteq> insert i (set path)"
    and "expand_at depth fw gs g stack = Inr out"
  shows "exactly out {x. reaches fw gs i x}"
  using assms(3-)
proof (induction depth arbitrary: i g d path stack out)
  case (Suc depth)
  let ?es = "source_group_entries fw g [lit ''any'']"
  have "exactly out (set [] \<union> (\<Union>e \<in> set ?es. entry_addresses fw gs e))"
  proof (rule expand_loop_exact)
    fix e out
    assume e: "e \<in> set ?es" "target_of fw gs (strip e) \<noteq> []"
    define t where "t = target_of fw gs e"
    have t: "t \<noteq> []" "t \<in> fst ` set gs" using e target_group [OF t_def [symmetric]] by (auto simp: t_def)
    then obtain h where h: "map_of gs t = Some h" by (metis map_of_eq_None_iff not_None_eq)
    obtain d' where v: "visit_at d' fw gs names t (path @ [i]) = Inr []"
      using visit_no_errors(2) [OF Suc.prems(2,1) assms(2) [OF Suc.prems(1)] e(1)] t(1) by (auto simp: assms(1) t_def)
    have "t \<notin> set (path @ [i])" by (rule visit_no_errors(1) [OF v])
    then show "target_of fw gs (strip e) \<notin> set stack \<and>
      (expand_at depth fw gs (case map_of gs (target_of fw gs (strip e)) of Some g \<Rightarrow> g | None \<Rightarrow> []) (stack @ [target_of fw gs (strip e)]) = Inr out
        \<longrightarrow> exactly out {x. reaches fw gs (target_of fw gs (strip e)) x})"
      using Suc.IH [OF h v, of "stack @ [t]" out] Suc.prems(3) h by (auto simp: t_def [symmetric])
  qed (use Suc.prems in \<open>auto simp: source_group_entries_def Let_def\<close>)
  then show ?case using reaches_entries [OF Suc.prems(1)] by simp
qed simp

subsection \<open>Names\<close>

abbreviation group_id_of :: "fw \<Rightarrow> group \<Rightarrow> ustr" where
  "group_id_of fw g \<equiv> group_text fw g ''id''"

lemma foldl_dict_put_fresh:
  "distinct (map f xs) \<Longrightarrow> fst ` set d \<inter> f ` set xs = {} \<Longrightarrow>
     foldl (\<lambda>d x. dict_put (f x) (h x) d) d xs = d @ map (\<lambda>x. (f x, h x)) xs"
proof (induction xs arbitrary: d)
  case (Cons x xs)
  then have "dict_put (f x) (h x) d = d @ [(f x, h x)]" by (intro dict_put_fresh) auto
  with Cons show ?case by auto
qed simp

lemma index_groups_distinct:
  "distinct (map (group_id_of fw) groups) \<Longrightarrow> index_groups fw groups = map (\<lambda>g. (group_id_of fw g, g)) groups"
  unfolding index_groups_def by (subst foldl_dict_put_fresh) auto

abbreviation label_key :: "fw \<Rightarrow> group \<Rightarrow> ustr" where
  "label_key fw g \<equiv> lower fw (strip (group_label fw g))"

lemma name_errors_none:
  assumes "distinct (map (group_id_of fw) groups)" "name_errors fw groups = ([], names)"
  shows "(\<forall>g \<in> set groups. strip (group_label fw g) \<noteq> []) \<and> distinct (map (label_key fw) groups)
    \<and> names = map (\<lambda>g. (label_key fw g, group_id_of fw g)) groups"
  using assms
proof (induction groups arbitrary: names rule: rev_induct)
  case Nil
  then show ?case by (simp add: name_errors_def)
next
  case (snoc g groups)
  obtain errors ns where ns: "name_errors fw groups = (errors, ns)" by fastforce
  from snoc.prems(2) ns have step: "errors = []" "strip (group_label fw g) \<noteq> []"
    "map_of ns (label_key fw g) = None \<or> map_of ns (label_key fw g) = Some (group_id_of fw g)"
    "names = dict_put (label_key fw g) (group_id_of fw g) ns"
    by (auto simp: name_errors_def Let_def split: if_splits)
  from snoc.IH ns step(1) snoc.prems(1) have ih: "\<forall>g \<in> set groups. strip (group_label fw g) \<noteq> []"
    "distinct (map (label_key fw) groups)" "ns = map (\<lambda>g. (label_key fw g, group_id_of fw g)) groups" by auto
  have "label_key fw g \<notin> fst ` set ns"
  proof
    assume "label_key fw g \<in> fst ` set ns"
    then have "map_of ns (label_key fw g) = Some (group_id_of fw g)" using step(3) by (auto simp: map_of_eq_None_iff)
    then have "group_id_of fw g \<in> group_id_of fw ` set groups" using ih(3) by (auto dest!: map_of_SomeD)
    then show False using snoc.prems(1) by auto
  qed
  moreover from this have "label_key fw g \<notin> label_key fw ` set groups" using ih(3) by (simp add: image_image)
  ultimately show ?case using ih step by (simp add: dict_put_fresh)
qed

text \<open>The groups of the saved state: the identifiers differ, and a group is named, unless it has neither
  identifier nor name.\<close>

definition group_shape :: "fw \<Rightarrow> group \<Rightarrow> bool" where
  "group_shape fw g \<longleftrightarrow> (\<exists>n. map_of g (lit ''name'') = Some (JStr n) \<and> (n \<noteq> [] \<or> group_id_of fw g = []))"

lemma shape_label:
  "group_shape fw g \<Longrightarrow> group_text fw g ''name'' \<noteq> [] \<and> group_label fw g = group_text fw g ''name''
     \<or> group_text fw g ''name'' = [] \<and> group_id_of fw g = []"
  by (auto simp: group_shape_def group_label_def group_text_or_def group_text_def truthy_def Let_def split: option.splits)

lemma target_agrees:
  assumes ids: "distinct (map (group_id_of fw) groups)" and shape: "\<forall>g \<in> set groups. group_shape fw g"
    and names: "name_errors fw groups = ([], names)"
  shows "source_group_reference_target fw e (index_groups fw groups) names = target_of fw (index_groups fw groups) e"
proof -
  let ?gs = "index_groups fw groups"
  let ?named = "filter (\<lambda>g. strip (group_text fw g ''name'') \<noteq> []) groups"
  note n = name_errors_none [OF ids names]
  have index: "map_of (source_group_name_index fw ?gs) = map_of (rev (map (\<lambda>g. (label_key fw g, group_id_of fw g)) ?named))"
  proof -
    have "lower fw (strip (group_text fw g ''name'')) = label_key fw g" if "g \<in> set ?named" for g
      using that shape shape_label [of fw g] by (auto simp: strip_def)
    then have e: "map (\<lambda>g. (lower fw (strip (group_text fw g ''name'')), group_id_of fw g)) ?named = map (\<lambda>g. (label_key fw g, group_id_of fw g)) ?named"
      by simp
    show ?thesis by (simp add: name_index_eq index_groups_distinct [OF ids] filter_map o_def e)
  qed
  have rest: "strip (group_text fw g ''name'') = [] \<Longrightarrow> group_id_of fw g = []" if "g \<in> set groups" for g
    using that shape shape_label [of fw g] n by auto
  have lookup: "(case map_of names k of None \<Rightarrow> [] | Some i \<Rightarrow> i) =
      (case map_of (source_group_name_index fw ?gs) k of None \<Rightarrow> [] | Some i \<Rightarrow> i)" for k
  proof (cases "\<exists>g \<in> set groups. label_key fw g = k")
    case True
    then obtain g where g: "g \<in> set groups" "label_key fw g = k" by blast
    then have "map_of names k = Some (group_id_of fw g)" using n by (auto intro!: map_of_is_SomeI simp: o_def)
    moreover have "map_of (source_group_name_index fw ?gs) k = (if g \<in> set ?named then Some (group_id_of fw g) else None)"
    proof (cases "g \<in> set ?named")
      case True
      then show ?thesis unfolding index using g n
        by (auto intro!: map_of_is_SomeI simp: o_def rev_map distinct_map inj_on_def)
    next
      case False
      then have "k \<notin> label_key fw ` set ?named" using g n by (auto simp: distinct_map inj_on_def)
      then show ?thesis unfolding index using False by (auto simp: map_of_eq_None_iff)
    qed
    ultimately show ?thesis using rest g by auto
  next
    case False
    then have "map_of names k = None" "map_of (source_group_name_index fw ?gs) k = None"
      unfolding index using n by (auto simp: map_of_eq_None_iff)
    then show ?thesis by simp
  qed
  have "names = [] \<Longrightarrow> source_group_name_index fw ?gs = []"
    using n by (simp add: index_groups_def source_group_name_index_def)
  then show ?thesis using lookup by (auto simp: source_group_reference_target_def Let_def)
qed

subsection \<open>The saved state\<close>

lemma py_str_nonempty:
  assumes "\<And>v. py_str_other (fw_py fw) v \<noteq> []" "truthy (fw_float_true fw) v"
  shows "py_str (fw_py fw) v \<noteq> []"
  using assms int_text_Cons by (cases v) (auto simp: truthy_def, metis list.distinct(1))

lemma made_group [simp]:
  "group_id_of fw (make_source_group fw i n es d b) = i"
  "map_of (make_source_group fw i n es d b) (lit ''name'') = Some (JStr n)"
  "make_source_group fw i n es d b \<noteq> []"
  by (simp_all add: make_source_group_def group_text_def Let_def)

lemma group_id_append: "map_of g (lit ''id'') \<noteq> None \<Longrightarrow> group_id_of fw (g @ h) = group_id_of fw g"
  by (auto simp: group_text_def map_add_def split: option.splits)

lemma restored_group_ok:
  assumes "\<And>v. py_str_other (fw_py fw) v \<noteq> []"
  shows "group_id_of fw (restored_group fw nets (i, g)) = i" "restored_group fw nets (i, g) \<noteq> []"
    "group_shape fw (restored_group fw nets (i, g))"
proof -
  define h where "h = make_source_group fw i (group_text_or fw g ''name'' i)
     (source_group_entries fw g (if starts ''interface:'' i
              then case map_of nets (removeprefix ''interface:'' i) of Some ns \<Rightarrow> ns | None \<Rightarrow> [lit ''any''] else [lit ''any'']))
     (group_text_or fw g ''description'' (lit ''Custom source group.'')) False"
  obtain extra where r: "restored_group fw nets (i, g) = h @ extra"
    by (simp add: restored_group_def h_def Let_def) (metis append_Nil2)
  have n: "map_of h (lit ''name'') = Some (JStr (group_text_or fw g ''name'' i))" "map_of h (lit ''id'') = Some (JStr i)"
    by (simp_all add: h_def make_source_group_def Let_def)
  have "group_text_or fw g ''name'' i \<noteq> [] \<or> i = []"
    using py_str_nonempty [OF assms] by (auto simp: group_text_or_def split: option.splits)
  moreover show "group_id_of fw (restored_group fw nets (i, g)) = i" unfolding r
    by (subst group_id_append) (simp_all add: n, simp add: h_def)
  ultimately show "group_shape fw (restored_group fw nets (i, g))"
    using n by (auto simp: group_shape_def r map_add_def split: option.splits)
  show "restored_group fw nets (i, g) \<noteq> []" by (simp add: r h_def)
qed

lemma distinct_foldl_dict_put:
  "distinct (map fst d) \<Longrightarrow> distinct (map fst (foldl (\<lambda>d x. dict_put (f x) (h x) d) d xs))"
  by (induction xs arbitrary: d) (auto simp: dict_put_keys)

lemma state_groups_ok:
  assumes "firewall_source_group_state fw raw nets = Inr st" "\<And>v. py_str_other (fw_py fw) v \<noteq> []"
  shows "distinct (map (group_id_of fw) (sgs_groups st))" "\<forall>g \<in> set (sgs_groups st). group_shape fw g \<and> g \<noteq> []"
proof -
  let ?any = "make_source_group fw (lit ''any'') (lit ''Any'') [lit ''any''] (lit ''Allow traffic from any source or destination address.'') True"
  from assms(1) obtain saved by_id where by_id: "saved_groups fw saved = Inr by_id"
    and gs: "sgs_groups st = ?any # map (restored_group fw nets) (filter (\<lambda>(group_id, _). group_id \<noteq> lit ''any'') by_id)"
    by (auto simp: firewall_source_group_state_def bindE_Inr_iff Let_def)
  have keys: "distinct (map fst by_id)" using by_id
    by (auto simp: saved_groups_def bindE_Inr_iff index_groups_def intro!: distinct_foldl_dict_put)
  have ids: "group_id_of fw \<circ> restored_group fw nets = fst"
    using restored_group_ok(1) [OF assms(2)] by (simp add: fun_eq_iff)
  have "distinct (map fst (filter (\<lambda>(group_id, _). group_id \<noteq> lit ''any'') by_id))" using keys by (rule distinct_map_filter)
  then show "distinct (map (group_id_of fw) (sgs_groups st))"
    using restored_group_ok(1) [OF assms(2)] by (auto simp: gs ids)
  show "\<forall>g \<in> set (sgs_groups st). group_shape fw g \<and> g \<noteq> []"
    using restored_group_ok [OF assms(2)] by (auto simp: gs group_shape_def [of fw ?any])
qed

subsection \<open>Validated groups\<close>

lemma split_seps_not_Nil [simp]: "split_seps s \<noteq> []"
  by (induction s) (auto split: list.splits)

lemma split_seps_sep: "is_sep c \<Longrightarrow> split_seps (a @ c # b) = split_seps a @ split_seps b"
  by (induction a) (auto split: list.splits)

lemma split_address_join:
  "split_address_values fw (join_with [10] xs) = concat (map (split_address_values fw) xs)"
proof (induction xs rule: induct_list012)
  case (3 x y zs)
  have "split_seps (x @ 10 # r) = split_seps x @ split_seps r" for r by (rule split_seps_sep) (simp add: is_sep_def)
  with 3 show ?case by (simp add: split_address_values_def)
qed (simp_all add: split_address_values_def strip_def)

lemma split_address_append: "split_address_values fw (a @ 10 # b) = split_address_values fw a @ split_address_values fw b"
  using split_address_join [of fw "[a, b]"] by simp

lemma address_value_ok:
  assumes "validate_address_value fw label v = []" "item \<in> set (split_address_values fw v)"
  shows "item = lit ''any'' \<or> ip_network item \<noteq> None"
  using assms by (auto simp: validate_address_value_def Let_def filter_empty_conv split: if_splits)

lemma reaches_entry:
  assumes "reaches fw gs i x"
  shows "x = lit ''any'' \<or> (\<exists>j g e. map_of gs j = Some g \<and> e \<in> set (source_group_entries fw g [lit ''any'']) \<and>
    target_of fw gs e = [] \<and> x = strip e)"
  using assms by (induction rule: reaches.induct) auto

lemma validated:
  assumes "validate_firewall_source_groups fw groups = Inr []"
  obtains names where "name_errors fw groups = ([], names)"
    "\<And>g. g \<in> set groups \<Longrightarrow> entry_errors fw (index_groups fw groups) names g = []"
    "\<And>g. g \<in> set groups \<Longrightarrow> group_id_of fw g \<noteq> [] \<Longrightarrow>
       visit_at (fw_depth fw) fw (index_groups fw groups) names (group_id_of fw g) [] = Inr []"
proof -
  obtain errors names where n: "name_errors fw groups = (errors, names)" by fastforce
  from assms have "errors = []" "\<forall>g \<in> set groups. entry_errors fw (index_groups fw groups) names g = []"
    "validate_source_group_cycles fw groups (index_groups fw groups) names = Inr []"
    by (auto simp: validate_firewall_source_groups_def n bindE_Inr_iff Let_def)
  moreover from this(3) have "\<forall>g \<in> set groups. group_id_of fw g \<noteq> [] \<longrightarrow>
       visit_at (fw_depth fw) fw (index_groups fw groups) names (group_id_of fw g) [] = Inr []"
    unfolding validate_source_group_cycles_def by (drule_tac collect_no_errors) auto
  ultimately show thesis using that n by blast
qed

lemma entry_addresses_valid:
  assumes "entry_errors fw gs names g = []" "e \<in> set (source_group_entries fw g [lit ''any''])"
    "source_group_reference_target fw e gs names = []" "item \<in> set (split_address_values fw e)"
  shows "item = lit ''any'' \<or> ip_network item \<noteq> None"
proof -
  let ?es = "filter (\<lambda>e. source_group_reference_target fw e gs names = []) (source_group_entries fw g [lit ''any''])"
  have "validate_address_value fw (group_label fw g) (join_with [10] ?es) = []"
    using assms(1) by (auto simp: entry_errors_def Let_def split: if_splits)
  moreover have "item \<in> set (split_address_values fw (join_with [10] ?es))"
    using assms(2-4) by (auto simp: split_address_join)
  ultimately show ?thesis by (rule address_value_ok)
qed

lemma split_seps_snoc:
  "split_seps (s @ [c]) = (if is_sep c then split_seps s @ [[]] else butlast (split_seps s) @ [last (split_seps s) @ [c]])"
proof (induction s)
  case (Cons d s)
  obtain x xs where "split_seps s = x # xs" by (meson neq_Nil_conv split_seps_not_Nil)
  with Cons show ?case by (cases xs) auto
qed simp

lemma split_address_space:
  assumes "is_space c"
  shows "split_address_values fw (c # s) = split_address_values fw s" "split_address_values fw (s @ [c]) = split_address_values fw s"
proof -
  obtain x xs where "split_seps s = x # xs" by (meson neq_Nil_conv split_seps_not_Nil)
  moreover have "strip (c # x) = strip x" for x using assms by (simp add: strip_def)
  ultimately show "split_address_values fw (c # s) = split_address_values fw s"
    by (auto simp: split_address_values_def) (simp_all add: strip_def)
  have "split_seps s = butlast (split_seps s) @ [last (split_seps s)]" by simp
  then obtain ys y where "split_seps s = ys @ [y]" by blast
  then show "split_address_values fw (s @ [c]) = split_address_values fw s"
    by (auto simp: split_address_values_def split_seps_snoc strip_append_space [OF assms]) (simp add: strip_def)
qed

lemma split_address_spaces:
  "list_all is_space ws \<Longrightarrow> split_address_values fw (ws @ s) = split_address_values fw s"
  "list_all is_space ws \<Longrightarrow> split_address_values fw (s @ ws) = split_address_values fw s"
proof (induction ws arbitrary: s)
  case (Cons w ws)
  { case 1
    then show ?case using Cons.IH(1) by (simp add: split_address_space)
  next
    case 2
    then show ?case using Cons.IH(2) [of "s @ [w]"] by (simp add: split_address_space) }
qed simp_all

lemma split_address_strip: "split_address_values fw (strip e) = split_address_values fw e"
  using strip_decomp [of e] by (metis split_address_spaces)

text \<open>A text without a part consists of separators and blanks.\<close>

lemma split_seps_covers: "c \<in> set s \<Longrightarrow> is_sep c \<or> (\<exists>piece \<in> set (split_seps s). c \<in> set piece)"
proof (induction s)
  case (Cons d s)
  obtain x xs where "split_seps s = x # xs" by (meson neq_Nil_conv split_seps_not_Nil)
  with Cons show ?case by auto
qed simp

lemma no_parts:
  assumes "split_address_values fw s = []"
  shows "list_all (\<lambda>c. is_sep c \<or> is_space c) s"
proof -
  have "strip piece = []" if "piece \<in> set (split_seps s)" for piece
    using assms that by (auto simp: split_address_values_def filter_empty_conv)
  then show ?thesis using split_seps_covers [of _ s] by (fastforce simp: list_all_iff strip_Nil)
qed
text \<open>C17: The groups of the saved settings that pass validation stand for exactly what they reach: with a
  recursion limit above the number of groups, the expansion of a group returns each address entry of the group
  and of the groups it refers to, directly or not, once; or the single word \<open>any\<close> when one of them contains it.
  Every entry so obtained has at least one part between its separators and each part is a network (or the word
  \<open>any\<close>), unless the entry consists of separators and blanks alone, which validation lets pass.\<close>

theorem expansion_exact:
  assumes "firewall_source_group_state fw raw nets = Inr st" "validate_firewall_source_groups fw (sgs_groups st) = Inr []"
    and "length (sgs_groups st) < fw_depth fw" "\<And>v. py_str_other (fw_py fw) v \<noteq> []"
    and "grp \<in> set (sgs_groups st)" "group_text fw grp ''id'' \<noteq> []"
  shows "\<exists>sources. expand_source_group_entries fw grp (index_groups fw (sgs_groups st)) = Inr sources \<and> distinct sources
    \<and> (let reached = {x. reaches fw (index_groups fw (sgs_groups st)) (group_text fw grp ''id'') x} in
         if lit ''any'' \<in> reached then sources = [lit ''any''] else sources \<noteq> [] \<and> set sources = reached)
    \<and> (\<forall>source \<in> set sources. list_all (\<lambda>c. is_sep c \<or> is_space c) source
         \<or> split_address_values fw source \<noteq> []
           \<and> (\<forall>item \<in> set (split_address_values fw source). item = lit ''any'' \<or> ip_network item \<noteq> None))"
proof -
  let ?groups = "sgs_groups st"
  let ?gs = "index_groups fw ?groups"
  note ok = state_groups_ok [OF assms(1,4)]
  have gs: "?gs = map (\<lambda>g. (group_id_of fw g, g)) ?groups" by (rule index_groups_distinct [OF ok(1)])
  obtain names where n: "name_errors fw ?groups = ([], names)" "\<And>g. g \<in> set ?groups \<Longrightarrow> entry_errors fw ?gs names g = []"
    "\<And>g. g \<in> set ?groups \<Longrightarrow> group_id_of fw g \<noteq> [] \<Longrightarrow> visit_at (fw_depth fw) fw ?gs names (group_id_of fw g) [] = Inr []"
    using validated [OF assms(2)] by blast
  have agree: "source_group_reference_target fw e ?gs names = target_of fw ?gs e" for e
    by (rule target_agrees) (use ok n(1) in auto)
  have member: "g \<in> set ?groups" if "map_of ?gs i = Some g" for i g using that by (auto simp: gs dest!: map_of_SomeD)
  have here: "map_of ?gs (group_id_of fw grp) = Some grp"
    using assms(5) ok(1) by (auto simp: gs o_def intro!: map_of_is_SomeI)
  have "length ?gs < fw_depth fw" using assms(3) by (simp add: gs)
  then obtain sources where out: "expand_source_group_entries fw grp ?gs = Inr sources"
    unfolding expand_source_group_entries_def
    using expand_at_returns [of "[]" ?gs "fw_depth fw" fw grp] card_keys [of ?gs] by auto
  have ex: "exactly sources {x. reaches fw ?gs (group_id_of fw grp) x}"
    by (rule expand_at_exact [OF agree _ here n(3) [OF assms(5,6)], of "[]"])
      (use out member ok(2) in \<open>auto simp: expand_source_group_entries_def\<close>)
  have "item = lit ''any'' \<or> ip_network item \<noteq> None"
    if "source \<in> set sources" "item \<in> set (split_address_values fw source)" for source item
  proof -
    have "source = lit ''any'' \<or> reaches fw ?gs (group_id_of fw grp) source"
      using ex that(1) by (auto simp: exactly_def split: if_splits)
    then consider "source = lit ''any''" | j g e where "map_of ?gs j = Some g" "e \<in> set (source_group_entries fw g [lit ''any''])"
        "target_of fw ?gs e = []" "source = strip e"
      using reaches_entry by blast
    then show ?thesis
    proof cases
      case 1
      then show ?thesis using that(2)
        by (auto simp: split_address_values_def lit_def is_sep_def strip_def is_space_def lower_def ascii_text_def lower_char_def)
    next
      case 2
      then show ?thesis using entry_addresses_valid [OF n(2) [OF member]] that(2) agree by (auto simp: split_address_strip)
    qed
  qed
  then have "\<forall>source \<in> set sources. list_all (\<lambda>c. is_sep c \<or> is_space c) source \<or> split_address_values fw source \<noteq> []
      \<and> (\<forall>item \<in> set (split_address_values fw source). item = lit ''any'' \<or> ip_network item \<noteq> None)"
    using no_parts by blast
  then show ?thesis using out ex by (simp add: exactly_def Let_def split: if_splits)
qed

definition sample_fw :: fw where
  "sample_fw = \<lparr>
     fw_py = \<lparr>py_fold = (\<lambda>c. [c]), py_alnum = (\<lambda>c. True), py_repr = (\<lambda>s. s), py_str_other = (\<lambda>v. lit ''[...]''),
              py_float_json = (\<lambda>t. t), py_float_int = (\<lambda>t. None), py_json_failure = (\<lambda>t. JSONDecodeError [])\<rparr>,
     fw_lower = (\<lambda>s. s), fw_float_true = (\<lambda>t. True), fw_isdigit = (\<lambda>c. False), fw_decimal = (\<lambda>c. None), fw_depth = Suc (Suc (Suc (Suc 0)))\<rparr>"

definition sample_document :: "group" where
  "sample_document = [(lit ''groups'', JArr [
     JObj [(lit ''entries'', JArr [JText ''10.0.0.0/8'', JText ''@Site'']), (lit ''id'', JText ''custom:lab''), (lit ''name'', JText ''Lab'')],
     JObj [(lit ''entries'', JText ''192.168.1.0/24, fd00::/8''), (lit ''id'', JText ''custom:site''), (lit ''name'', JText ''Site'')]])]"

definition sample_groups :: "group list" where
  "sample_groups = [make_source_group sample_fw (lit ''any'') (lit ''Any'') [lit ''any'']
      (lit ''Allow traffic from any source or destination address.'') True,
     make_source_group sample_fw (lit ''custom:lab'') (lit ''Lab'') [lit ''10.0.0.0/8'', lit ''@Site''] (lit ''Custom source group.'') False,
     make_source_group sample_fw (lit ''custom:site'') (lit ''Site'') [lit ''192.168.1.0/24'', lit ''fd00::/8''] (lit ''Custom source group.'') False]"

lemmas text_eval = lit_def strip_def is_space_def lower_def ascii_text_def lower_char_def starts_def is_sep_def

lemmas group_eval = index_groups_def group_text_def group_text_or_def group_label_def source_group_entries_def
  make_source_group_def normalize_entry_def source_group_reference_target_def source_group_name_index_def
  split_source_group_entry_values_def truthy_def Let_def

lemma sample_index: "index_groups sample_fw sample_groups = map (\<lambda>g. (group_id_of sample_fw g, g)) sample_groups"
  by (rule index_groups_distinct) (simp add: sample_groups_def)

lemma sample_entries:
  "source_group_entries sample_fw (sample_groups ! 0) [lit ''any''] = [lit ''any'']"
  "source_group_entries sample_fw (sample_groups ! Suc 0) [lit ''any''] = [lit ''10.0.0.0/8'', lit ''@Site'']"
  "source_group_entries sample_fw (sample_groups ! Suc (Suc 0)) [lit ''any''] = [lit ''192.168.1.0/24'', lit ''fd00::/8'']"
  by (simp_all add: sample_groups_def source_group_entries_def make_source_group_def normalize_entry_def sample_fw_def text_eval Let_def)

lemma sample_names:
  "name_errors sample_fw sample_groups = ([], [(lit ''any'', lit ''any''), (lit ''lab'', lit ''custom:lab''), (lit ''site'', lit ''custom:site'')])"
  by (simp add: sample_groups_def name_errors_def group_label_def group_text_def group_text_or_def truthy_def make_source_group_def sample_fw_def text_eval Let_def)

lemmas address_eval = ip_network_def written_network_def mask_network_def ipv4_network_def ipv6_network_def ipv4_value_def ipv4_octet_def prefix_string_def is_digit_def
  int_of_digits_def of_digs_def ipv6_address_def ip_address_def ipv6_value_def ipv6_parts_def ipv6_layout_def hextet_def hex_value_def

lemma sample_networks:
  "ip_network (lit ''10.0.0.0/8'') = Some (Network 4 (10 * 2 ^ 24) 8 None)"
  "ip_network (lit ''192.168.1.0/24'') = Some (Network 4 ((192 * 2 ^ 16 + 168 * 2 ^ 8 + 1) * 2 ^ 8) 24 None)"
  "ip_network (lit ''fd00::/8'') \<noteq> None"
  by (simp_all add: address_eval lit_def Let_def upt_rec)

lemma sample_targets:
  fixes names
  defines "names \<equiv> [(lit ''any'', lit ''any''), (lit ''lab'', lit ''custom:lab''), (lit ''site'', lit ''custom:site'')]"
  shows "source_group_reference_target sample_fw (lit ''any'') gs names = []"
    "source_group_reference_target sample_fw (lit ''10.0.0.0/8'') gs names = []"
    "source_group_reference_target sample_fw (lit ''192.168.1.0/24'') gs names = []"
    "source_group_reference_target sample_fw (lit ''fd00::/8'') gs names = []"
    "source_group_reference_target sample_fw (lit ''@Site'') gs names = lit ''custom:site''"
  by (simp_all add: names_def source_group_reference_target_def text_eval sample_fw_def Let_def)

lemma sample_words:
  "lower sample_fw (strip (lit ''any'')) = lit ''any''"
  "lower sample_fw (strip (lit ''10.0.0.0/8'')) = lit ''10.0.0.0/8''"
  "lower sample_fw (strip (lit ''192.168.1.0/24'')) = lit ''192.168.1.0/24''"
  "lower sample_fw (strip (lit ''fd00::/8'')) = lit ''fd00::/8''"
  "lower sample_fw (strip (lit ''@Site'')) = lit ''@site''"
  "looks_like_source_group_reference sample_fw (lit ''10.0.0.0/8'') = False"
  "looks_like_source_group_reference sample_fw (lit ''192.168.1.0/24'') = False"
  "looks_like_source_group_reference sample_fw (lit ''fd00::/8'') = False"
  "split_address_values sample_fw (lit ''any'') = [lit ''any'']"
  "split_address_values sample_fw (lit ''10.0.0.0/8'') = [lit ''10.0.0.0/8'']"
  "split_address_values sample_fw (lit ''192.168.1.0/24'') = [lit ''192.168.1.0/24'']"
  "split_address_values sample_fw (lit ''fd00::/8'') = [lit ''fd00::/8'']"
  by (simp_all add: text_eval looks_like_source_group_reference_def split_address_values_def)

lemma sample_ids [simp]: "group_id_of sample_fw (sample_groups ! 0) = lit ''any''" "group_id_of sample_fw (sample_groups ! Suc 0) = lit ''custom:lab''"
  "group_id_of sample_fw (sample_groups ! Suc (Suc 0)) = lit ''custom:site''"
  by (simp_all add: sample_groups_def)

lemma sample_groups_nth: "sample_groups = [sample_groups ! 0, sample_groups ! Suc 0, sample_groups ! Suc (Suc 0)]"
  by (simp add: sample_groups_def)

lemma sample_map_of:
  "map_of (index_groups sample_fw sample_groups) (lit ''any'') = Some (sample_groups ! 0)"
  "map_of (index_groups sample_fw sample_groups) (lit ''custom:lab'') = Some (sample_groups ! Suc 0)"
  "map_of (index_groups sample_fw sample_groups) (lit ''custom:site'') = Some (sample_groups ! Suc (Suc 0))"
  by (subst sample_index, subst sample_groups_nth, simp)+

lemma sample_nonempty: "sample_groups ! 0 \<noteq> []" "sample_groups ! Suc 0 \<noteq> []" "sample_groups ! Suc (Suc 0) \<noteq> []"
  by (simp_all add: sample_groups_def)

lemma sample_valid: "validate_firewall_source_groups sample_fw sample_groups = Inr []"
proof -
  define names where "names = [(lit ''any'', lit ''any''), (lit ''lab'', lit ''custom:lab''), (lit ''site'', lit ''custom:site'')]"
  note eval = sample_map_of sample_entries sample_targets [folded names_def] sample_nonempty
  have depth: "fw_depth sample_fw = Suc (Suc (Suc (Suc 0)))" by (simp add: sample_fw_def)
  have v: "visit_at (fw_depth sample_fw) sample_fw (index_groups sample_fw sample_groups) names i [] = Inr []"
    if "i \<in> {lit ''any'', lit ''custom:lab'', lit ''custom:site''}" for i
    using that unfolding depth by (auto simp: eval)
  have e: "entry_errors sample_fw (index_groups sample_fw sample_groups) names (sample_groups ! i) = []" if "i < 3" for i
  proof -
    have "i = 0 \<or> i = Suc 0 \<or> i = Suc (Suc 0)" using that by auto
    then show ?thesis
      by (elim disjE) (simp_all add: entry_errors_def eval sample_words sample_networks Let_def validate_address_value_def split_address_append)
  qed
  show ?thesis
    unfolding validate_firewall_source_groups_def sample_names names_def [symmetric] validate_source_group_cycles_def Let_def
    by (subst (2 3) sample_groups_nth) (simp add: v e)
qed

lemma sample_settings: "saved_settings sample_fw (dumps (JObj sample_document)) = Inr sample_document"
proof -
  have "wf_json (JObj sample_document)" by (simp add: sample_document_def lit_def is_scalar_def)
  moreover have "canon (JObj sample_document) = JObj sample_document"
    by (simp add: sample_document_def lit_def)
  ultimately have "loads (dumps (JObj sample_document)) = Some (JObj sample_document)" using loads_dumps by metis
  moreover have "strip (dumps (JObj sample_document)) \<noteq> []"
    by (simp add: sample_document_def strip_def lit_def is_space_def)
  ultimately show ?thesis by (simp add: saved_settings_def)
qed

lemma sample_restored:
  "restored_group sample_fw [] (lit ''custom:lab'', [(lit ''entries'', JArr [JText ''10.0.0.0/8'', JText ''@Site'']),
     (lit ''id'', JText ''custom:lab''), (lit ''name'', JText ''Lab'')]) = sample_groups ! Suc 0"
  "restored_group sample_fw [] (lit ''custom:site'', [(lit ''entries'', JText ''192.168.1.0/24, fd00::/8''),
     (lit ''id'', JText ''custom:site''), (lit ''name'', JText ''Site'')]) = sample_groups ! Suc (Suc 0)"
proof -
  have prefix: "\<not> starts ''interface:'' (lit ''custom:lab'')" "\<not> starts ''interface:'' (lit ''custom:site'')"
    by (simp_all add: starts_def lit_def)
  have entries: "source_group_entries sample_fw [(lit ''entries'', JArr [JText ''10.0.0.0/8'', JText ''@Site'']),
     (lit ''id'', JText ''custom:lab''), (lit ''name'', JText ''Lab'')] [lit ''any''] = [lit ''10.0.0.0/8'', lit ''@Site'']"
    "source_group_entries sample_fw [(lit ''entries'', JText ''192.168.1.0/24, fd00::/8''),
     (lit ''id'', JText ''custom:site''), (lit ''name'', JText ''Site'')] [lit ''any''] = [lit ''192.168.1.0/24'', lit ''fd00::/8'']"
    by (simp_all add: source_group_entries_def split_source_group_entry_values_def normalize_entry_def text_eval Let_def)
  show "restored_group sample_fw [] (lit ''custom:lab'', [(lit ''entries'', JArr [JText ''10.0.0.0/8'', JText ''@Site'']),
     (lit ''id'', JText ''custom:lab''), (lit ''name'', JText ''Lab'')]) = sample_groups ! Suc 0"
    using prefix(1) by (simp add: restored_group_def Let_def sample_groups_def group_text_or_def truthy_def entries)
  show "restored_group sample_fw [] (lit ''custom:site'', [(lit ''entries'', JText ''192.168.1.0/24, fd00::/8''),
     (lit ''id'', JText ''custom:site''), (lit ''name'', JText ''Site'')]) = sample_groups ! Suc (Suc 0)"
    using prefix(2) by (simp add: restored_group_def Let_def sample_groups_def group_text_or_def truthy_def entries)
qed

lemma sample_state:
  "firewall_source_group_state sample_fw (dumps (JObj sample_document)) [] = Inr \<lparr>sgs_groups = sample_groups, sgs_assignments = []\<rparr>"
proof -
  have "saved_groups sample_fw sample_document = Inr
     [(lit ''custom:lab'', [(lit ''entries'', JArr [JText ''10.0.0.0/8'', JText ''@Site'']), (lit ''id'', JText ''custom:lab''), (lit ''name'', JText ''Lab'')]),
      (lit ''custom:site'', [(lit ''entries'', JText ''192.168.1.0/24, fd00::/8''), (lit ''id'', JText ''custom:site''), (lit ''name'', JText ''Site'')])]"
    by (simp add: saved_groups_def sample_document_def index_groups_def group_text_def)
  moreover have "map_of sample_document (lit ''assignments'') = None" by (simp add: sample_document_def)
  ultimately show ?thesis
    unfolding firewall_source_group_state_def sample_settings
    by (simp add: sample_restored Let_def) (simp add: sample_groups_def)
qed

theorem source_groups_terminate_witness:
  "\<exists>errors. validate_firewall_source_groups sample_fw
     [make_source_group sample_fw (lit ''a'') (lit ''A'') [lit ''@B''] [] False, make_source_group sample_fw (lit ''b'') (lit ''B'') [lit ''@A''] [] False]
     = Inr errors"
  using source_groups_terminate [of "[make_source_group sample_fw (lit ''a'') (lit ''A'') [lit ''@B''] [] False,
      make_source_group sample_fw (lit ''b'') (lit ''B'') [lit ''@A''] [] False]" sample_fw]
  by (simp add: sample_fw_def)

theorem expansion_exact_witness:
  "\<exists>sources. expand_source_group_entries sample_fw (sample_groups ! 1) (index_groups sample_fw sample_groups) = Inr sources \<and> distinct sources"
proof -
  have "py_str_other (fw_py sample_fw) v \<noteq> []" for v by (simp add: sample_fw_def)
  moreover have "length sample_groups < fw_depth sample_fw" by (simp add: sample_groups_def sample_fw_def)
  moreover have "sample_groups ! 1 \<in> set sample_groups" by (simp add: sample_groups_def)
  ultimately show ?thesis
    using expansion_exact [OF sample_state, of "sample_groups ! 1"] sample_valid by auto
qed

end
