(* ===== verification/FirewallProps.thy ===== *)
theory FirewallProps
  imports Firewall SourceGroupProps
begin

text \<open>
  What holds of firewall rules: the variants of a validated rule match the packets of the rule, and the
  rules of a validated state are rendered; accepted ports are in range.
\<close>

subsection \<open>ASCII text\<close>

lemma lower_char_class [simp]: "is_sep (lower_char c) = is_sep c" "is_space (lower_char c) = is_space c" "lower_char c < 128 \<longleftrightarrow> c < 128"
  "lower_char (lower_char c) = lower_char c"
  by (auto simp: is_sep_def is_space_def lower_char_def)

lemma lower_ascii: "ascii_text s \<Longrightarrow> lower fw s = map lower_char s"
  by (simp add: lower_def)

lemma split_seps_lower: "split_seps (map lower_char s) = map (map lower_char) (split_seps s)"
  by (induction s) (auto split: list.splits)

lemma strip_lower: "strip (map lower_char s) = map lower_char (strip s)"
  by (simp add: strip_def dropWhile_map comp_def) (simp add: rev_map dropWhile_map comp_def)

lemma ascii_lower [simp]: "ascii_text (map lower_char s) = ascii_text s"
  by (simp add: ascii_text_def list_all_iff)

lemma ascii_strip: "ascii_text s \<Longrightarrow> ascii_text (strip s)"
  by (auto simp: ascii_text_def list_all_iff strip_def dest!: set_dropWhileD)

lemma split_seps_chars: "x \<in> set (split_seps s) \<Longrightarrow> set x \<subseteq> set s \<and> list_all (\<lambda>c. \<not> is_sep c) x"
  by (induction s arbitrary: x) (auto split: if_splits list.splits, fastforce+)

lemma ascii_pieces: "ascii_text s \<Longrightarrow> x \<in> set (split_seps s) \<Longrightarrow> ascii_text x"
  using split_seps_chars by (fastforce simp: ascii_text_def list_all_iff)

lemma split_address_lower:
  assumes "ascii_text s"
  shows "split_address_values fw (map lower_char s) = split_address_values fw s"
proof -
  have "lower fw (strip (map lower_char x)) = lower fw (strip x)" if "x \<in> set (split_seps s)" for x
    using ascii_strip [OF ascii_pieces [OF assms that]] by (simp add: strip_lower lower_def comp_def)
  then show ?thesis
    by (simp add: split_address_values_def split_seps_lower filter_map comp_def strip_lower)
qed

text \<open>The items of a split ASCII text.\<close>

definition address_item :: "ustr \<Rightarrow> bool" where
  "address_item x \<longleftrightarrow> x \<noteq> [] \<and> ascii_text x \<and> strip x = x \<and> map lower_char x = x \<and> list_all (\<lambda>c. \<not> is_sep c) x"

lemma split_address_Nil: "split_address_values fw [] = []"
  by (simp add: split_address_values_def strip_def)

lemma split_seps_none: "list_all (\<lambda>c. \<not> is_sep c) x \<Longrightarrow> split_seps x = [x]"
  by (induction x) auto

lemma split_address_item:
  assumes "ascii_text s" "x \<in> set (split_address_values fw s)"
  shows "address_item x"
proof -
  obtain y where y: "y \<in> set (split_seps s)" "strip y \<noteq> []" "x = lower fw (strip y)"
    using assms(2) by (auto simp: split_address_values_def)
  have a: "ascii_text (strip y)" by (rule ascii_strip [OF ascii_pieces [OF assms(1) y(1)]])
  moreover have "set (strip y) \<subseteq> set y" by (auto simp: strip_def dest!: set_dropWhileD)
  ultimately show ?thesis using y split_seps_chars [OF y(1)]
    by (auto simp: address_item_def lower_ascii strip_lower comp_def list_all_iff)
qed

lemma split_address_single: "address_item x \<Longrightarrow> split_address_values fw x = [x]"
  by (simp add: split_address_values_def address_item_def split_seps_none lower_ascii)

lemma split_address_items: "list_all address_item xs \<Longrightarrow> split_address_values fw (join_with [10] xs) = xs"
  unfolding split_address_join by (induction xs) (simp_all add: split_address_single)

lemma join_items: "list_all address_item xs \<Longrightarrow> ascii_text (join_with [10] xs) \<and> map lower_char (join_with [10] xs) = join_with [10] xs"
  by (induction xs rule: induct_list012) (auto simp: address_item_def ascii_text_def lower_char_def)

subsection \<open>The first character of a network\<close>

lemma split_on_first: "split_on c s = x # xs \<Longrightarrow> x \<noteq> [] \<Longrightarrow> s \<noteq> [] \<and> hd s = hd x"
  by (cases s) (auto split: if_splits list.splits)

lemma split_on_first_empty: "split_on c s = [] # x # xs \<Longrightarrow> s \<noteq> [] \<and> hd s = c"
  by (cases s) (auto split: if_splits list.splits)

definition address_start :: "ustr \<Rightarrow> bool" where
  "address_start s \<longleftrightarrow> s \<noteq> [] \<and> (hex_value (hd s) \<noteq> None \<or> hd s = 58)"

lemma map_all_Cons: "map_all f (x # xs) = Some ys \<Longrightarrow> \<exists>y. f x = Some y"
  by (auto split: option.splits)

lemma ipv4_start:
  assumes "ipv4_value s = Some n"
  shows "address_start s"
proof -
  obtain x xs where s: "split_on 46 s = x # xs" by (cases "split_on 46 s") (use assms in \<open>auto simp: ipv4_value_def Let_def split: if_splits\<close>)
  have "ipv4_octet x \<noteq> None" using assms s map_all_Cons
    by (fastforce simp: ipv4_value_def Let_def split: if_splits)
  then have "x \<noteq> []" "is_digit (hd x)" by (auto simp: ipv4_octet_def list_all_iff split: if_splits)
  then show ?thesis using split_on_first [OF s] by (auto simp: address_start_def hex_value_def is_digit_def)
qed

lemma filter_upt_pos: "filter P [Suc 0..<m] = [h] \<Longrightarrow> 0 < h"
proof -
  assume "filter P [Suc 0..<m] = [h]"
  then have "h \<in> set (filter P [Suc 0..<m])" by simp
  then show ?thesis by auto
qed

lemma ipv6_start:
  assumes "ipv6_value s = Some n"
  shows "address_start s"
proof -
  obtain parts hi lo where p: "ipv6_parts s = Some parts" "ipv6_layout parts = Some (hi, lo)" "map_all hextet (take hi parts) \<noteq> None"
    using assms by (auto simp: ipv6_value_def split: option.splits)
  obtain x y ys where s: "split_on 58 s = x # y # ys"
    using p(1) by (cases "split_on 58 s"; cases "tl (split_on 58 s)") (auto simp: ipv6_parts_def Let_def split: if_splits)
  have len: "ys \<noteq> []" using p(1) s by (auto simp: ipv6_parts_def Let_def split: if_splits)
  have hd: "hd parts = x" "parts \<noteq> []" using p(1) len unfolding ipv6_parts_def s Let_def by (auto split: if_splits)
  show ?thesis
  proof (cases "x = []")
    case True
    then show ?thesis using split_on_first_empty [of 58 s y ys] s by (simp add: address_start_def)
  next
    case False
    then have "0 < hi" using p(2) hd by (auto simp: ipv6_layout_def Let_def split: if_splits list.splits dest: filter_upt_pos)
    then obtain h where "hextet x = Some h"
      using p(3) hd map_all_Cons by (cases parts; cases hi) (auto split: option.splits)
    then have "hex_value (hd x) \<noteq> None" using False map_all_Cons
      by (cases x) (auto simp: hextet_def split: if_splits)
    then show ?thesis using split_on_first [OF s False] by (simp add: address_start_def)
  qed
qed

lemma ip_address_start: "ipv6_address s = Some n \<Longrightarrow> address_start s"
proof -
  assume a: "ipv6_address s = Some n"
  then obtain t m where "ipv6_value t = Some m" "t = s \<or> t = takeWhile (\<lambda>c. c \<noteq> 37) s"
    by (auto simp: ipv6_address_def ip_address_def Let_def split: option.splits ip.splits if_splits)
  then have "address_start t" "t = s \<or> t = takeWhile (\<lambda>c. c \<noteq> 37) s" using ipv6_start by auto
  then show ?thesis by (cases s) (auto simp: address_start_def split: if_splits)
qed

lemma network_start:
  assumes "ip_network s \<noteq> None"
  shows "address_start s"
proof -
  obtain x xs where s: "split_on 47 s = x # xs" by (cases "split_on 47 s") (use assms in \<open>auto simp: ip_network_def written_network_def ipv4_network_def ipv6_network_def\<close>)
  have "ipv4_value x \<noteq> None \<or> ipv6_address x \<noteq> None"
    using assms by (auto simp: ip_network_def written_network_def s ipv4_network_def ipv6_network_def split: list.splits option.splits)
  then have "address_start x" using ipv4_start ip_address_start by blast
  then show ?thesis using split_on_first [OF s] by (simp add: address_start_def)
qed

lemma network_version: "ip_network s = Some n \<Longrightarrow> net_version n = 4 \<or> net_version n = 6"
  by (auto simp: ip_network_def written_network_def mask_network_def ipv4_network_def ipv6_network_def Let_def split: list.splits option.splits)

lemma no_network: "ip_network (lit ''any'') = None"
  by (simp add: address_eval lit_def Let_def)

lemma no_target:
  assumes "address_start (strip v)" "ascii_text v"
  shows "source_group_reference_target fw v gs names = []" "\<not> looks_like_source_group_reference fw v"
proof -
  obtain c t where c: "strip v = c # t" "hex_value c \<noteq> None \<or> c = 58"
    using assms(1) by (cases "strip v") (auto simp: address_start_def)
  then have "lower_char c \<noteq> 103 \<and> c \<noteq> 64" by (auto simp: hex_value_def lower_char_def split: if_splits)
  then have "\<not> starts ''group:'' (lower fw (strip v)) \<and> \<not> starts ''@'' (strip v)"
    using lower_ascii [OF ascii_strip [OF assms(2)]] by (simp add: c starts_def lit_def)
  then show "source_group_reference_target fw v gs names = []" "\<not> looks_like_source_group_reference fw v"
    by (simp_all add: source_group_reference_target_def looks_like_source_group_reference_def Let_def)
qed

subsection \<open>Addresses of a rule\<close>

text \<open>An ASCII text that stands for \<open>any\<close> or for at least one address: neither separators alone nor \<open>any\<close> among
  separators. Validation lets the latter pass; what becomes of them is shown at the end.\<close>

definition plain_address :: "fw \<Rightarrow> groups_by_id \<Rightarrow> ustr \<Rightarrow> bool" where
  "plain_address fw gs v \<longleftrightarrow> ascii_text v \<and>
     (case rule_address_value fw v gs of
        Inl e \<Rightarrow> False
      | Inr t \<Rightarrow> ascii_text t \<and> (t = lit ''any'' \<or> split_address_values fw t \<noteq> [] \<and> lit ''any'' \<notin> set (split_address_values fw t)))"

definition proper_value :: "fw \<Rightarrow> ustr \<Rightarrow> bool" where
  "proper_value fw t \<longleftrightarrow> ascii_text t \<and>
     (t = lit ''any'' \<or> split_address_values fw t \<noteq> [] \<and> (\<forall>x \<in> set (split_address_values fw t). ip_network x \<noteq> None))"

lemma target_index: "source_group_reference_target fw v gs (source_group_name_index fw gs) = source_group_reference_target fw v gs []"
  by (simp add: source_group_reference_target_def Let_def)

lemma validated_address:
  assumes "validate_rule_address fw req gs (source_group_name_index fw gs) label v = Inr []" "plain_address fw gs v"
  shows "\<exists>t. rule_address_value fw v gs = Inr t \<and> proper_value fw t"
proof -
  obtain t where t: "rule_address_value fw v gs = Inr t" "ascii_text t" "ascii_text v"
    "t = lit ''any'' \<or> split_address_values fw t \<noteq> [] \<and> lit ''any'' \<notin> set (split_address_values fw t)"
    using assms(2) by (auto simp: plain_address_def split: sum.splits)
  have val: "validate_rule_address_value fw label v gs (source_group_name_index fw gs) = Inr []"
    using assms(1) by (auto simp: validate_rule_address_def Let_def split: if_splits)
  have "validate_address_value fw label t = []" if "t \<noteq> lit ''any''"
  proof (cases "source_group_reference_target fw (strip v) gs [] = []")
    case True
    then have "t = map lower_char (strip v)" "strip v \<noteq> []"
      using t that lower_ascii [OF ascii_strip] by (auto simp: rule_address_value_def Let_def split: if_splits)
    moreover have "validate_address_value fw label (strip v) = []"
      using val True calculation by (auto simp: validate_rule_address_value_def Let_def target_index split: if_splits)
    ultimately show ?thesis
      using split_address_lower [OF ascii_strip [OF t(3)]] by (simp add: validate_address_value_def)
  next
    case False
    then show ?thesis using val t(1) that
      by (auto simp: validate_rule_address_value_def rule_address_value_def Let_def target_index bindE_Inr_iff split: if_splits)
  qed
  then have "proper_value fw t" using t(2,4) address_value_ok unfolding proper_value_def by metis
  then show ?thesis using t(1) by blast
qed

lemma any_value: "rule_address_value fw (lit ''any'') gs = Inr (lit ''any'')"
  by (simp add: rule_address_value_def source_group_reference_target_def text_eval)

lemma items_value:
  assumes "list_all address_item xs" "\<forall>x \<in> set xs. ip_network x \<noteq> None" "xs \<noteq> []"
  obtains t where "rule_address_value fw (join_with [10] xs) gs = Inr t" "split_address_values fw t = xs" "t \<noteq> lit ''any''" "t \<noteq> []"
proof -
  define j where "j = join_with [10] xs"
  have j: "ascii_text j" "map lower_char j = j" "split_address_values fw j = xs"
    using join_items [OF assms(1)] split_address_items [OF assms(1)] by (simp_all add: j_def)
  obtain x ys where x: "xs = x # ys" using assms(3) by (cases xs) auto
  have hd: "address_start x" "address_item x" using assms network_start by (auto simp: x)
  then have start: "address_start j" "\<not> is_space (hd j)"
  proof -
    obtain c z where c: "x = c # z" using hd by (cases x) (auto simp: address_start_def)
    then have "hd j = c" "j \<noteq> []" by (cases ys; simp add: j_def x)+
    then show "address_start j" using hd c by (auto simp: address_start_def)
    show "\<not> is_space (hd j)"
      using \<open>hd j = c\<close> hd(1) c by (auto simp: address_start_def hex_value_def is_space_def split: if_splits)
  qed
  have ne: "strip j \<noteq> []" using split_address_strip [of fw j] j(3) assms(3) by (auto simp: split_address_Nil)
  obtain a b where ab: "j = a @ strip j @ b" "list_all is_space a" using strip_decomp by metis
  have "a = []" using ab start(2) by (metis hd_append2 hd_in_set list_all_iff)
  then have "hd (strip j) = hd j" using ab(1) ne by (metis append_Nil hd_append2)
  then have "address_start (strip j)" using start(1) ne by (simp add: address_start_def)
  then have "rule_address_value fw j gs = Inr (lower fw (strip j))"
    using no_target(1) [OF _ j(1)] ne by (simp add: rule_address_value_def Let_def)
  moreover have "lower fw (strip j) = strip j"
    using j strip_lower [of j] lower_ascii [OF ascii_strip [OF j(1)]] by simp
  moreover have "split_address_values fw (strip j) = xs" using j(3) by (simp add: split_address_strip)
  moreover have "split_address_values fw (lit ''any'') \<noteq> xs"
    using assms(2) no_network x by (auto simp: split_address_values_def text_eval)
  ultimately show thesis using that ne unfolding j_def by metis
qed

subsection \<open>What a rule matches\<close>

text \<open>An address is its version and its number. A clause of a rule matches the addresses of its networks, and
  all addresses when it is not written.\<close>

definition contains_address :: "network \<Rightarrow> nat \<times> nat \<Rightarrow> bool" where
  "contains_address n a \<longleftrightarrow> net_version n = fst a \<and>
     (let host = (if net_version n = 4 then 32 else 128) - net_prefix n in snd a div 2 ^ host = net_address n div 2 ^ host)"

definition address_matches :: "fw \<Rightarrow> groups_by_id \<Rightarrow> ustr \<Rightarrow> nat \<times> nat \<Rightarrow> bool" where
  "address_matches fw gs v a =
     (case rule_address_value fw v gs of
        Inl e \<Rightarrow> False
      | Inr t \<Rightarrow> t = [] \<or> t = lit ''any''
          \<or> list_ex (\<lambda>item. case ip_network item of None \<Rightarrow> False | Some n \<Rightarrow> contains_address n a) (split_address_values fw t))"

definition rule_matches :: "fw \<Rightarrow> groups_by_id \<Rightarrow> firewall_rule \<Rightarrow> nat \<times> nat \<Rightarrow> nat \<times> nat \<Rightarrow> bool" where
  "rule_matches fw gs rule source destination \<longleftrightarrow>
     address_matches fw gs (fr_source rule) source \<and> address_matches fw gs (fr_destination rule) destination"

abbreviation in_network :: "nat \<times> nat \<Rightarrow> ustr \<Rightarrow> bool" where
  "in_network a item \<equiv> (case ip_network item of None \<Rightarrow> False | Some n \<Rightarrow> contains_address n a)"

abbreviation item_version :: "ustr \<Rightarrow> nat" where
  "item_version item \<equiv> net_version (the (ip_network item))"

lemma address_loop_family:
  assumes "\<forall>x \<in> set xs. x \<noteq> lit ''any'' \<and> ip_network x \<noteq> None" "f = 4 \<or> f = 6"
  shows "set (of_family f (address_loop acc xs)) = set (of_family f acc) \<union> {x \<in> set xs. item_version x = f}"
  using assms
proof (induction xs arbitrary: acc)
  case (Cons x xs)
  then obtain n where n: "ip_network x = Some n" "net_version n = 4 \<or> net_version n = 6" "x \<noteq> lit ''any''"
    using network_version by auto
  then show ?case using Cons by (auto simp: of_family_def)
qed simp

text \<open>The texts of one family: the variant of an address value.\<close>

lemma family_value:
  assumes "proper_value fw t" "f = 4 \<or> f = 6"
  defines "xs \<equiv> of_family f (address_values_by_family fw t)"
  shows "set xs = (if t = lit ''any'' then {} else {x \<in> set (split_address_values fw t). item_version x = f})"
    and "xs = [] \<Longrightarrow> rule_address_value fw (family_text f (address_values_by_family fw t)) gs = Inr (lit ''any'')"
    and "xs \<noteq> [] \<Longrightarrow> \<exists>u. rule_address_value fw (family_text f (address_values_by_family fw t)) gs = Inr u
      \<and> split_address_values fw u = xs \<and> u \<noteq> lit ''any'' \<and> u \<noteq> []"
proof -
  have any: "split_address_values fw (lit ''any'') = [lit ''any'']" by (simp add: split_address_values_def text_eval)
  show set: "set xs = (if t = lit ''any'' then {} else {x \<in> set (split_address_values fw t). item_version x = f})"
  proof (cases "t = lit ''any''")
    case True
    then show ?thesis by (simp add: xs_def address_values_by_family_def any of_family_def)
  next
    case False
    then have "\<forall>x \<in> set (split_address_values fw t). x \<noteq> lit ''any'' \<and> ip_network x \<noteq> None"
      using assms(1) no_network by (metis proper_value_def)
    from address_loop_family [OF this assms(2), of "([], [])"] False show ?thesis
      by (simp add: xs_def address_values_by_family_def of_family_def)
  qed
  show "rule_address_value fw (family_text f (address_values_by_family fw t)) gs = Inr (lit ''any'')" if "xs = []"
    using that by (simp add: family_text_def xs_def any_value)
  show "\<exists>u. rule_address_value fw (family_text f (address_values_by_family fw t)) gs = Inr u
      \<and> split_address_values fw u = xs \<and> u \<noteq> lit ''any'' \<and> u \<noteq> []" if "xs \<noteq> []"
  proof -
    note ne = that
    have sub: "set xs \<subseteq> set (split_address_values fw t)" "t \<noteq> lit ''any''" using set that by (auto split: if_splits)
    then have "list_all address_item xs" "\<forall>x \<in> set xs. ip_network x \<noteq> None"
      using split_address_item assms(1) by (auto simp: list_all_iff proper_value_def)
    then obtain u where "rule_address_value fw (join_with [10] xs) gs = Inr u" "split_address_values fw u = xs" "u \<noteq> lit ''any''" "u \<noteq> []"
      using ne by (rule items_value)
    then show ?thesis using ne by (auto simp: family_text_def xs_def)
  qed
qed

lemma family_matches:
  assumes "proper_value fw t" "f = 4 \<or> f = 6" "of_family f (address_values_by_family fw t) \<noteq> [] \<or> t = lit ''any''"
  shows "address_matches fw gs (family_text f (address_values_by_family fw t)) a \<longleftrightarrow>
    t = lit ''any'' \<or> (\<exists>x \<in> set (split_address_values fw t). item_version x = f \<and> in_network a x)"
  using family_value(1) [OF assms(1,2)] family_value(2,3) [OF assms(1,2), of gs] assms(3)
  by (cases "of_family f (address_values_by_family fw t) = []") (auto simp: address_matches_def list_ex_iff split: if_splits)

lemma family_part:
  assumes "proper_value fw t" "f = 4 \<or> f = 6"
  shows "\<exists>p. address_part fw direction (family_text f (address_values_by_family fw t)) gs = Inr p"
proof (cases "of_family f (address_values_by_family fw t) = []")
  case True
  then show ?thesis using family_value(2) [OF assms, of gs] by (simp add: address_part_def)
next
  case False
  define xs where "xs = of_family f (address_values_by_family fw t)"
  obtain u where u: "rule_address_value fw (family_text f (address_values_by_family fw t)) gs = Inr u"
    "split_address_values fw u = xs" "u \<noteq> lit ''any''" "u \<noteq> []"
    using family_value(3) [OF assms False] unfolding xs_def by blast
  obtain x ys where x: "xs = x # ys" using False by (cases xs) (auto simp: xs_def)
  then have "ip_network x \<noteq> None" using family_value(1) [OF assms] assms(1) xs_def by (auto simp: proper_value_def split: if_splits)
  then show ?thesis using u x by (auto simp: address_part_def address_expr_def Let_def)
qed

lemma validated_rule:
  assumes "validate_firewall_rule fw rule groups req = Inr []"
    "plain_address fw (index_groups fw groups) (fr_source rule)" "plain_address fw (index_groups fw groups) (fr_destination rule)"
  shows "\<exists>s. rule_address_value fw (fr_source rule) (index_groups fw groups) = Inr s \<and> proper_value fw s"
    "\<exists>d. rule_address_value fw (fr_destination rule) (index_groups fw groups) = Inr d \<and> proper_value fw d"
  by (rule validated_address; use assms in \<open>force simp: validate_firewall_rule_def Let_def bindE_Inr_iff\<close>)+

lemma value_matches:
  assumes "rule_address_value fw v gs = Inr t" "proper_value fw t"
  shows "address_matches fw gs v a \<longleftrightarrow> t = lit ''any'' \<or> (\<exists>x \<in> set (split_address_values fw t). in_network a x)"
  using assms by (auto simp: address_matches_def proper_value_def list_ex_iff split_address_Nil)

lemma some_family:
  assumes "proper_value fw t"
  shows "t \<noteq> lit ''any'' \<longleftrightarrow> of_family 4 (address_values_by_family fw t) \<noteq> [] \<or> of_family 6 (address_values_by_family fw t) \<noteq> []"
proof (cases "t = lit ''any''")
  case True
  then show ?thesis using family_value(1) [OF assms] by (metis set_empty)
next
  case False
  then obtain x where x: "x \<in> set (split_address_values fw t)" "ip_network x \<noteq> None"
    using assms by (cases "split_address_values fw t") (auto simp: proper_value_def)
  then have "item_version x = 4 \<or> item_version x = 6" using network_version by auto
  then have "x \<in> set (of_family 4 (address_values_by_family fw t)) \<or> x \<in> set (of_family 6 (address_values_by_family fw t))"
    using family_value(1) [OF assms] x(1) False by auto
  then show ?thesis using False by auto
qed

definition family_variant :: "fw \<Rightarrow> firewall_rule \<Rightarrow> ustr \<Rightarrow> ustr \<Rightarrow> nat \<Rightarrow> firewall_rule" where
  "family_variant fw rule s d family = rule\<lparr>fr_source := family_text family (address_values_by_family fw s),
     fr_destination := family_text family (address_values_by_family fw d)\<rparr>"

definition has_family :: "fw \<Rightarrow> ustr \<Rightarrow> nat \<Rightarrow> bool" where
  "has_family fw t family \<longleftrightarrow> t = lit ''any'' \<or> of_family family (address_values_by_family fw t) \<noteq> []"

lemma variants_eq:
  assumes "rule_address_value fw (fr_source rule) gs = Inr s" "proper_value fw s"
    "rule_address_value fw (fr_destination rule) gs = Inr d" "proper_value fw d"
  shows "rule_family_variants fw rule gs = Inr (if s = lit ''any'' \<and> d = lit ''any'' then [rule]
    else map (family_variant fw rule s d) (filter (\<lambda>f. has_family fw s f \<and> has_family fw d f) [4, 6]))"
proof -
  define sf where "sf = (\<lambda>f. of_family f (address_values_by_family fw s) \<noteq> [])"
  define df where "df = (\<lambda>f. of_family f (address_values_by_family fw d) \<noteq> [])"
  have any: "s \<noteq> lit ''any'' \<longleftrightarrow> sf 4 \<or> sf 6" "d \<noteq> lit ''any'' \<longleftrightarrow> df 4 \<or> df 6"
    using some_family assms(2,4) by (simp_all add: sf_def df_def)
  have has: "has_family fw s f \<longleftrightarrow> (sf 4 \<or> sf 6 \<longrightarrow> sf f)" "has_family fw d f \<longleftrightarrow> (df 4 \<or> df 6 \<longrightarrow> df f)" for f
    using any by (auto simp: has_family_def sf_def df_def)
  show ?thesis
    unfolding rule_family_variants_def assms(1,3) bindE_simps Let_def sf_def [symmetric] df_def [symmetric] has
      family_variant_def [symmetric] 
    using any by (cases "sf 4"; cases "sf 6"; cases "df 4"; cases "df 6") simp_all
qed

lemma variant_matches:
  assumes "proper_value fw s" "proper_value fw d" "f = 4 \<or> f = 6" "has_family fw s f" "has_family fw d f"
  shows "rule_matches fw gs (family_variant fw rule s d f) a b \<longleftrightarrow>
    (s = lit ''any'' \<or> (\<exists>x \<in> set (split_address_values fw s). item_version x = f \<and> in_network a x)) \<and>
    (d = lit ''any'' \<or> (\<exists>x \<in> set (split_address_values fw d). item_version x = f \<and> in_network b x))"
  using family_matches [OF assms(1,3), of gs a] family_matches [OF assms(2,3), of gs b] assms(4,5)
  by (auto simp: rule_matches_def family_variant_def has_family_def)

lemma render_returns:
  assumes "address_part fw ''saddr'' (fr_source rule) gs = Inr p" "address_part fw ''daddr'' (fr_destination rule) gs = Inr q"
  shows "\<exists>line. render_rule fw rule gs = Inr line"
  using assms by (simp add: render_rule_def Let_def)

lemma variant_renders:
  assumes "proper_value fw s" "proper_value fw d" "f = 4 \<or> f = 6"
  shows "\<exists>line. render_rule fw (family_variant fw rule s d f) gs = Inr line"
  using family_part [OF assms(1,3), of "''saddr''" gs] family_part [OF assms(2,3), of "''daddr''" gs]
  by (auto simp: family_variant_def intro!: render_returns)

lemma variants_render:
  assumes "rule_address_value fw (fr_source rule) gs = Inr s" "proper_value fw s"
    "rule_address_value fw (fr_destination rule) gs = Inr d" "proper_value fw d"
  shows "\<exists>variants. rule_family_variants fw rule gs = Inr variants \<and> (\<forall>r \<in> set variants. \<exists>line. render_rule fw r gs = Inr line)"
proof -
  have "\<exists>line. render_rule fw rule gs = Inr line" if "s = lit ''any''" "d = lit ''any''"
    by (rule render_returns [of fw _ gs "[]" "[]"]) (simp_all add: address_part_def assms(1,3) that)
  then show ?thesis unfolding variants_eq [OF assms] using variant_renders [OF assms(2,4)] by auto
qed

lemma in_network_version: "in_network (v, a) x \<Longrightarrow> item_version x = v \<and> (v = 4 \<or> v = 6)"
  by (auto simp: contains_address_def dest: network_version split: option.splits)

lemma variants_match:
  assumes "rule_address_value fw (fr_source rule) gs = Inr s" "proper_value fw s"
    "rule_address_value fw (fr_destination rule) gs = Inr d" "proper_value fw d"
    and "rule_family_variants fw rule gs = Inr variants"
  shows "(\<exists>r \<in> set variants. rule_matches fw gs r (v, a) (v, b)) \<longleftrightarrow> rule_matches fw gs rule (v, a) (v, b)"
proof (cases "s = lit ''any'' \<and> d = lit ''any''")
  case True
  then show ?thesis using assms(5) by (auto simp: variants_eq [OF assms(1-4)])
next
  case False
  then have vs: "variants = map (family_variant fw rule s d) (filter (\<lambda>f. has_family fw s f \<and> has_family fw d f) [4, 6])"
    using assms(5) unfolding variants_eq [OF assms(1-4)] if_not_P [OF False] by (auto simp only: sum.inject)
  let ?S = "\<lambda>f. s = lit ''any'' \<or> (\<exists>x \<in> set (split_address_values fw s). item_version x = f \<and> in_network (v, a) x)"
  let ?D = "\<lambda>f. d = lit ''any'' \<or> (\<exists>x \<in> set (split_address_values fw d). item_version x = f \<and> in_network (v, b) x)"
  have has: "has_family fw t f" if "proper_value fw t" "x \<in> set (split_address_values fw t)" "item_version x = f" "f = 4 \<or> f = 6" for t x f
    using family_value(1) [OF that(1,4)] that by (auto simp: has_family_def)
  have "(\<exists>r \<in> set variants. rule_matches fw gs r (v, a) (v, b)) \<longleftrightarrow> (\<exists>f. (f = 4 \<or> f = 6) \<and> has_family fw s f \<and> has_family fw d f \<and> ?S f \<and> ?D f)"
    using variant_matches [OF assms(2,4), of _ gs rule "(v, a)" "(v, b)"] by (auto simp: vs)
  also have "\<dots> \<longleftrightarrow> ?S v \<and> ?D v"
  proof
    assume "\<exists>f. (f = 4 \<or> f = 6) \<and> has_family fw s f \<and> has_family fw d f \<and> ?S f \<and> ?D f"
    then obtain f where f: "?S f" "?D f" by blast
    then have "f = v" using False in_network_version by metis
    with f show "?S v \<and> ?D v" by simp
  next
    assume sd: "?S v \<and> ?D v"
    then have v: "v = 4 \<or> v = 6" using False in_network_version by metis
    have "has_family fw s v" "has_family fw d v"
      using sd has [OF assms(2) _ _ v] has [OF assms(4) _ _ v] by (auto simp: has_family_def [of fw "lit ''any''"])
    with sd v show "\<exists>f. (f = 4 \<or> f = 6) \<and> has_family fw s f \<and> has_family fw d f \<and> ?S f \<and> ?D f" by blast
  qed
  also have "\<dots> \<longleftrightarrow> rule_matches fw gs rule (v, a) (v, b)"
    using value_matches [OF assms(1,2), of "(v, a)"] value_matches [OF assms(3,4), of "(v, b)"] in_network_version
    unfolding rule_matches_def by blast
  finally show ?thesis .
qed

text \<open>C18: Splitting a validated rule by address family keeps its meaning, where its source and its
  destination are ASCII texts that stand for \<open>any\<close> or for at least one address (a text of separators alone passes
  validation and is excluded here). The variants of the rule match exactly the packets the rule matches, for every
  source and destination of one family; and every variant is rendered without an error.\<close>

theorem family_variants_exact:
  assumes "validate_firewall_rule fw rule groups req = Inr []"
    and "plain_address fw (index_groups fw groups) (fr_source rule)" "plain_address fw (index_groups fw groups) (fr_destination rule)"
  shows "\<exists>variants. rule_family_variants fw rule (index_groups fw groups) = Inr variants
    \<and> (\<forall>version a b. (\<exists>r \<in> set variants. rule_matches fw (index_groups fw groups) r (version, a) (version, b))
         \<longleftrightarrow> rule_matches fw (index_groups fw groups) rule (version, a) (version, b))
    \<and> (\<forall>r \<in> set variants. \<exists>line. render_rule fw r (index_groups fw groups) = Inr line)"
proof -
  let ?gs = "index_groups fw groups"
  obtain s d where "rule_address_value fw (fr_source rule) ?gs = Inr s" "proper_value fw s"
    "rule_address_value fw (fr_destination rule) ?gs = Inr d" "proper_value fw d"
    using validated_rule [OF assms] by blast
  note here = this
  obtain variants where "rule_family_variants fw rule ?gs = Inr variants" "\<forall>r \<in> set variants. \<exists>line. render_rule fw r ?gs = Inr line"
    using variants_render [OF here] by blast
  then show ?thesis using variants_match [OF here] by blast
qed

subsection \<open>A validated state is rendered\<close>

lemma state_rules_valid:
  assumes "validate_firewall_state fw settings rules generated groups rp = Inr []" "r \<in> set (effective_firewall_rules fw rules generated rp)"
  shows "validate_firewall_rule fw r groups False = Inr []"
proof -
  have loop: "errors = [] \<and> (\<forall>r \<in> set rs. validate_firewall_rule fw r groups False = Inr [])"
    if "foldE (\<lambda>(errors, seen) rule. let n = lower fw (strip (fr_name rule)) in
          bindE (validate_firewall_rule fw rule groups False) (\<lambda>new.
            Inr (errors @ (if n \<in> set seen then [lit ''Firewall rule '' @ fr_name rule @ lit '' is duplicated.''] else []) @ new, n # seen)))
        (errors, seen) rs = Inr ([], names)" for errors seen rs names
    using that
  proof (induction rs arbitrary: errors seen)
    case (Cons r rs)
    then show ?case by (cases "validate_firewall_rule fw r groups False") (auto simp: Let_def split: if_splits)
  qed simp
  then show ?thesis using assms by (auto simp: validate_firewall_state_def bindE_Inr_iff Let_def)
qed

lemma mapE_returns: "(\<And>x. x \<in> set xs \<Longrightarrow> \<exists>y. f x = Inr y) \<Longrightarrow> \<exists>ys. mapE f xs = Inr ys"
proof (induction xs)
  case (Cons x xs)
  then obtain y ys where "f x = Inr y" "mapE f xs = Inr ys" by (metis list.set_intros)
  then show ?case by simp
qed simp

lemma contains_refl [simp]: "contains_text s s"
  by (auto simp: contains_text_iff intro: exI [of _ "[]"])

lemma join_contains: "x \<in> set xs \<Longrightarrow> contains_text x (join_with sep xs)"
proof (induction xs rule: induct_list012)
  case (3 y z zs)
  show ?case
  proof (cases "x = y")
    case True
    then show ?thesis by (auto simp: contains_text_iff intro: exI [of _ "[]"])
  next
    case False
    then obtain a b where "join_with sep (z # zs) = a @ x @ b" using 3 by (auto simp: contains_text_iff)
    then have "join_with sep (y # z # zs) = (y @ sep @ a) @ x @ b" by simp
    then show ?thesis unfolding contains_text_iff by blast
  qed
qed (auto simp: contains_text_iff intro: exI [of _ "[]"])

lemma contains_trans: "contains_text a b \<Longrightarrow> contains_text b c \<Longrightarrow> contains_text a c"
  unfolding contains_text_iff by (metis append.assoc)

lemma contains_append: "contains_text a b \<Longrightarrow> contains_text a (c @ b)" "contains_text a b \<Longrightarrow> contains_text a (b @ c)"
  unfolding contains_text_iff by (metis append.assoc)+

text \<open>A rule that can be rendered has its lines in the chain.\<close>

definition renders :: "fw \<Rightarrow> groups_by_id \<Rightarrow> firewall_rule \<Rightarrow> bool" where
  "renders fw gs rule \<longleftrightarrow>
     (\<exists>variants. rule_family_variants fw rule gs = Inr variants \<and> (\<forall>r \<in> set variants. \<exists>line. render_rule fw r gs = Inr line))"

definition written :: "fw \<Rightarrow> groups_by_id \<Rightarrow> firewall_rule \<Rightarrow> ustr \<Rightarrow> bool" where
  "written fw gs rule line \<longleftrightarrow>
     (\<exists>variants v. rule_family_variants fw rule gs = Inr variants \<and> v \<in> set variants \<and> render_rule fw v gs = Inr line)"

lemma lines_return:
  assumes "renders fw gs rule"
  shows "\<exists>ls. prelude_lines fw gs rule = Inr ls" "\<exists>ls. rule_lines fw gs rule = Inr ls"
proof -
  obtain variants where v: "rule_family_variants fw rule gs = Inr variants" "\<forall>r \<in> set variants. \<exists>line. render_rule fw r gs = Inr line"
    using assms by (auto simp: renders_def)
  then obtain texts where "mapE (\<lambda>v. render_rule fw v gs) variants = Inr texts"
    using mapE_returns [of variants "\<lambda>v. render_rule fw v gs"] by blast
  then show "\<exists>ls. prelude_lines fw gs rule = Inr ls" by (simp add: prelude_lines_def v(1))
  show "\<exists>ls. rule_lines fw gs rule = Inr ls"
    unfolding rule_lines_def v(1) bindE_simps by (rule mapE_returns) (use v(2) in auto)
qed

lemma prelude_written:
  assumes "prelude_lines fw gs rule = Inr ls" "written fw gs rule line"
  shows "\<exists>l \<in> set ls. contains_text line l"
proof -
  obtain variants v texts where v: "rule_family_variants fw rule gs = Inr variants" "v \<in> set variants" "render_rule fw v gs = Inr line"
    "mapE (\<lambda>v. render_rule fw v gs) variants = Inr texts"
    using assms by (auto simp: prelude_lines_def written_def bindE_Inr_iff)
  then have t: "line \<in> set texts" using mapE_Inr_all by force
  have "contains_text line (p @ line)" "contains_text line (p @ q @ line)" for p q
    using contains_append(1) [of line line] contains_append(1) [of line line "p @ q"] by simp_all
  then have "\<exists>l \<in> set (guarded_lines rule line). contains_text line l" by (simp add: guarded_lines_def indent_def)
  moreover have "ls = concat (map (guarded_lines rule) texts)" using assms(1) v by (simp add: prelude_lines_def)
  ultimately show ?thesis using t by auto
qed

lemma rule_written:
  assumes "rule_lines fw gs rule = Inr ls" "written fw gs rule line"
  shows "\<exists>l \<in> set ls. contains_text line l"
proof -
  obtain variants v where v: "v \<in> set variants" "render_rule fw v gs = Inr line"
    "mapE (\<lambda>v. bindE (render_rule fw v gs) (\<lambda>rendered. Inr (indent rendered))) variants = Inr ls"
    using assms by (auto simp: rule_lines_def written_def bindE_Inr_iff)
  then have "indent line \<in> set ls" using mapE_Inr_all by fastforce
  moreover have "contains_text line (indent line)"
    unfolding indent_def by (rule contains_append(1)) simp
  ultimately show ?thesis by blast
qed

lemma chain_written:
  assumes "\<forall>r \<in> set effective. renders fw gs r"
  shows "\<exists>ls. chain_lines fw settings effective gs rp cidr (chain, policy) = Inr ls \<and>
    (\<forall>r \<in> set effective. fr_enabled r \<and> fr_direction r = lit chain \<longrightarrow> (\<forall>line. written fw gs r line \<longrightarrow> (\<exists>l \<in> set ls. contains_text line l)))"
proof -
  let ?rules = "filter (\<lambda>r. fr_enabled r \<and> fr_direction r = lit chain) effective"
  let ?first = "sort_key fr_priority (filter in_prelude ?rules)" and ?then = "sort_key fr_priority (filter (\<lambda>r. \<not> in_prelude r) ?rules)"
  obtain denied where denied: "mapE (prelude_lines fw gs) ?first = Inr denied"
    using mapE_returns [of ?first "prelude_lines fw gs"] lines_return(1) assms by fastforce
  obtain ordinary where ordinary: "mapE (rule_lines fw gs) ?then = Inr ordinary"
    using mapE_returns [of ?then "rule_lines fw gs"] lines_return(2) assms by fastforce
  have here: "\<exists>l \<in> set (concat denied) \<union> set (concat ordinary). contains_text line l"
    if r: "r \<in> set ?rules" and w: "written fw gs r line" for r line
  proof (cases "in_prelude r")
    case True
    then obtain ls where "ls \<in> set denied" "prelude_lines fw gs r = Inr ls"
      using mapE_Inr_all [OF denied, of r] r by auto
    then show ?thesis using prelude_written [OF _ w] by fastforce
  next
    case False
    then obtain ls where "ls \<in> set ordinary" "rule_lines fw gs r = Inr ls"
      using mapE_Inr_all [OF ordinary, of r] r by auto
    then show ?thesis using rule_written [OF _ w] by fastforce
  qed
  have "chain_lines fw settings effective gs rp cidr (chain, policy) = Inr (chain_head settings chain policy @ concat denied
      @ chain_middle settings rp cidr chain @ concat ordinary @ chain_tail settings chain policy)"
    using denied ordinary by (simp add: chain_lines_def)
  then show ?thesis using here by fastforce
qed

text \<open>C16: A validated state is rendered, and nothing of it is lost. When the settings and all effective
  rules pass validation, the firewall is enabled, and the addresses of the effective rules are ASCII texts that
  stand for \<open>any\<close> or for at least one address (separators alone pass validation and are excluded here), then for a
  valid management network the rendering returns a text, and the text has the line of every variant of every
  enabled rule.\<close>

theorem validated_state_rendered:
  assumes "validate_firewall_state fw settings rules generated groups rp = Inr []" "fs_enabled settings"
    and "\<forall>r \<in> set (effective_firewall_rules fw rules generated rp).
      plain_address fw (index_groups fw groups) (fr_source r) \<and> plain_address fw (index_groups fw groups) (fr_destination r)"
    and "ip_network cidr \<noteq> None" "cidr \<noteq> []"
  shows "\<exists>config. render_nftables_config fw settings rules generated groups rp default_cidr (Some cidr) = Inr config \<and>
    (\<forall>rule \<in> set (effective_firewall_rules fw rules generated rp). fr_enabled rule \<longrightarrow>
      (\<forall>variants v line. rule_family_variants fw rule (index_groups fw groups) = Inr variants \<longrightarrow> v \<in> set variants \<longrightarrow>
         render_rule fw v (index_groups fw groups) = Inr line \<longrightarrow> contains_text line config))"
proof -
  let ?gs = "index_groups fw groups" and ?rules = "effective_firewall_rules fw rules generated rp"
  let ?chains = "[(''input'', fs_default_input_policy settings), (''forward'', fs_default_forward_policy settings),
    (''output'', fs_default_output_policy settings)]"
  have valid: "validate_firewall_rule fw r groups False = Inr []" if "r \<in> set ?rules" for r
    using state_rules_valid [OF assms(1) that] .
  have "renders fw ?gs r" if "r \<in> set ?rules" for r
    using validated_rule [OF valid [OF that]] assms(3) that variants_render unfolding renders_def by meson
  then have all: "\<forall>r \<in> set ?rules. renders fw ?gs r" by blast
  obtain chains where chains: "mapE (chain_lines fw settings ?rules ?gs rp cidr) ?chains = Inr chains"
    using mapE_returns [of ?chains "chain_lines fw settings ?rules ?gs rp cidr"] chain_written [OF all] by (metis surj_pair)
  define before where "before = config_head @ [lit ''table inet atlaso {'']"
  define after where "after = [lit ''}'']"
  have config: "render_nftables_config fw settings rules generated groups rp default_cidr (Some cidr) =
      Inr (join_with [10] (before @ concat chains @ after) @ [10])"
    unfolding render_nftables_config_def Let_def option.case if_P [OF assms(5)] chains
    using assms(2,4) by (simp add: before_def after_def)
  have "contains_text line (join_with [10] (before @ concat chains @ after) @ [10])"
    if r: "rule \<in> set ?rules" "fr_enabled rule" and w: "written fw ?gs rule line" for rule line
  proof -
    obtain chain policy where c: "fr_direction rule = lit chain" "(chain, policy) \<in> set ?chains"
      using valid [OF r(1)] by (auto simp: validate_firewall_rule_def Let_def bindE_Inr_iff one_of_def FIREWALL_DIRECTIONS_def split: if_splits)
    then obtain ls where "ls \<in> set chains" "chain_lines fw settings ?rules ?gs rp cidr (chain, policy) = Inr ls"
      using mapE_Inr_all [OF chains] by blast
    then obtain l where "l \<in> set (before @ concat chains @ after)" "contains_text line l"
      using chain_written [OF all, of settings rp cidr chain policy] r w c by fastforce
    then show ?thesis using join_contains contains_trans contains_append(2) by metis
  qed
  then show ?thesis using config unfolding written_def by blast
qed

subsection \<open>Ports\<close>

lemma decimal_digits:
  "list_all is_digit s \<Longrightarrow> map_all (decimal_value fw) s = Some (map (\<lambda>c. c - 48) s)"
  by (induction s) (auto simp: decimal_value_def is_digit_def)

lemma valid_port_ascii:
  assumes "ascii_text s" "valid_port fw s = Inr True"
  shows "list_all is_digit s \<and> int_of_text fw s = Inr (int_of_digits s) \<and> 1 \<le> int_of_digits s \<and> int_of_digits s \<le> 65535"
proof -
  have d: "list_all is_digit s" using assms
    by (auto simp: valid_port_def is_digit_text_def ascii_text_def list_all_iff split: if_splits)
  then have "int_of_text fw s = Inr n \<Longrightarrow> n = int_of_digits s" for n
    by (auto simp: int_of_text_def decimal_digits int_of_digits_def split: if_splits)
  then show ?thesis using assms(2) d by (auto simp: valid_port_def bindE_Inr_iff split: if_splits)
qed

lemma splitlines_chars: "x \<in> set (splitlines s) \<Longrightarrow> set x \<subseteq> set s"
proof (induction s arbitrary: x rule: splitlines.induct)
  case (1 s)
  show ?case
  proof (cases "x = takeWhile (\<lambda>c. \<not> is_line_break c) s")
    case True
    then show ?thesis by (auto dest: set_takeWhileD)
  next
    case False
    have "x \<in> set (if s = [] then []
      else takeWhile (\<lambda>c. \<not> is_line_break c) s # (case dropWhile (\<lambda>c. \<not> is_line_break c) s of
        [] \<Rightarrow> [] | c # t \<Rightarrow> splitlines (if c = 13 \<and> take 1 t = [10] then drop 1 t else t)))"
      using 1(2) unfolding splitlines.simps [of s] .
    with False obtain c t where ct: "s \<noteq> []" "dropWhile (\<lambda>c. \<not> is_line_break c) s = c # t"
        "x \<in> set (splitlines (if c = 13 \<and> take 1 t = [10] then drop 1 t else t))"
      by (cases "s = []"; cases "dropWhile (\<lambda>c. \<not> is_line_break c) s") auto
    have "set t \<subseteq> set s" using set_dropWhileD [of _ "\<lambda>c. \<not> is_line_break c" s] ct(2) by auto
    moreover have "set (drop 1 t) \<subseteq> set t" by (rule set_drop_subset)
    ultimately show ?thesis using 1(1) [OF ct(1,2) ct(3)] by (auto split: if_splits)
  qed
qed

lemma range_parts:
  "45 \<in> set v \<Longrightarrow> v = takeWhile (\<lambda>c. c \<noteq> 45) v @ 45 # drop (Suc (length (takeWhile (\<lambda>c. c \<noteq> 45) v))) v"
  by (induction v) auto

text \<open>C37: A port specification in ASCII that passes validation contains only ports and ranges of ports
  between 1 and 65535, a range not ending before it starts.\<close>

theorem ports_bounded:
  assumes "validate_ports fw raw = Inr []" "ascii_text raw" "item \<in> set (port_items raw)" "strip item \<noteq> []"
  shows "\<exists>x y. (strip item = x \<and> y = x \<or> strip item = x @ 45 # y) \<and> list_all is_digit x \<and> list_all is_digit y
    \<and> 1 \<le> int_of_digits x \<and> int_of_digits x \<le> int_of_digits y \<and> int_of_digits y \<le> 65535"
proof -
  define v where "v = strip item"
  define x where "x = takeWhile (\<lambda>c. c \<noteq> 45) v"
  define y where "y = drop (Suc (length x)) v"
  have "set item \<subseteq> insert 10 (set raw)" using splitlines_chars [of item] assms(3) by (fastforce simp: port_items_def)
  then have "ascii_text item" using assms(2) by (auto simp: ascii_text_def list_all_iff)
  then have a: "ascii_text v" unfolding v_def by (rule ascii_strip)
  have sub: "ascii_text x" "ascii_text y" using a set_takeWhileD [of _ "\<lambda>c. c \<noteq> 45" v] set_drop_subset [of "Suc (length x)" v]
    by (auto simp: ascii_text_def list_all_iff x_def y_def)
  have ok: "validate_port_item fw item = Inr []"
  proof -
    obtain errors where "mapE (validate_port_item fw) (port_items raw) = Inr errors" "concat errors = []"
      using assms(1) by (auto simp: validate_ports_def bindE_Inr_iff)
    then show ?thesis using mapE_Inr_all assms(3) by force
  qed
  show ?thesis
  proof (cases "45 \<in> set v")
    case True
    from ok have "valid_port fw x = Inr True" "valid_port fw y = Inr True" and le: "int_of_text fw x = Inr a \<Longrightarrow> int_of_text fw y = Inr b \<Longrightarrow> a \<le> b" for a b
      using True assms(4) by (auto simp: validate_port_item_def v_def [symmetric] x_def [symmetric] y_def [symmetric] Let_def bindE_Inr_iff split: if_splits)
    moreover have "strip item = x @ 45 # y" using range_parts [OF True] by (simp add: v_def x_def y_def)
    ultimately show ?thesis using valid_port_ascii [OF sub(1)] valid_port_ascii [OF sub(2)] by blast
  next
    case False
    then have "valid_port fw v = Inr True"
      using ok assms(4) by (auto simp: validate_port_item_def v_def [symmetric] Let_def bindE_Inr_iff split: if_splits)
    then show ?thesis using valid_port_ascii [OF a] by (auto simp: v_def)
  qed
qed

subsection \<open>Concrete rules\<close>

definition sample_rule :: firewall_rule where
  "sample_rule = \<lparr>fr_name = lit ''web'', fr_direction = lit ''input'', fr_action = lit ''accept'', fr_protocol = lit ''tcp'',
     fr_source = lit ''any'', fr_destination = lit ''10.0.0.0/8'', fr_destination_port = lit ''443'', fr_interface_name = [], fr_priority = 100,
     fr_enabled = True, fr_description = None, fr_routing_destination_interface = [], fr_routing_policy_phase = []\<rparr>"

definition sample_settings_record :: firewall_settings where
  "sample_settings_record = \<lparr>fs_enabled = True, fs_default_input_policy = lit ''drop'', fs_default_forward_policy = lit ''drop'',
     fs_default_output_policy = lit ''accept'', fs_allow_established = True, fs_allow_loopback = True, fs_allow_icmp = True, fs_log_dropped = False\<rparr>"

lemma sample_value: "rule_address_value sample_fw (lit ''10.0.0.0/8'') gs = Inr (lit ''10.0.0.0/8'')"
  by (simp add: rule_address_value_def source_group_reference_target_def text_eval)

lemma sample_plain: "plain_address sample_fw gs (lit ''any'')" "plain_address sample_fw gs (lit ''10.0.0.0/8'')"
  by (simp_all add: plain_address_def any_value sample_value sample_words) (simp_all add: ascii_text_def lit_def)

lemma sample_port: "validate_ports sample_fw (lit ''443'') = Inr []"
  by (simp add: validate_ports_def port_items_def splitlines.simps is_line_break_def validate_port_item_def valid_port_def is_digit_text_def
      int_of_text_def decimal_value_def is_digit_def of_digs_def strip_def is_space_def lit_def Let_def)

lemma sample_target: "source_group_reference_target sample_fw (lit ''any'') gs names = []"
  "source_group_reference_target sample_fw (lit ''10.0.0.0/8'') gs names = []"
  "strip (lit ''any'') = lit ''any''" "strip (lit ''10.0.0.0/8'') = lit ''10.0.0.0/8''" "\<not> looks_like_source_group_reference sample_fw (lit ''any'')"
  by (simp_all add: source_group_reference_target_def looks_like_source_group_reference_def text_eval)

lemma sample_rule_valid: "validate_firewall_rule sample_fw sample_rule [] False = Inr []"
  by (simp add: validate_firewall_rule_def sample_rule_def one_of_def FIREWALL_DIRECTIONS_def FIREWALL_ACTIONS_def FIREWALL_PROTOCOLS_def
      validate_rule_address_def validate_rule_address_value_def sample_target sample_words sample_networks sample_port Let_def validate_address_value_def)
    (simp add: strip_def is_space_def lit_def)

theorem family_variants_exact_witness:
  "\<exists>variants. rule_family_variants sample_fw sample_rule (index_groups sample_fw []) = Inr variants
    \<and> (\<forall>r \<in> set variants. \<exists>line. render_rule sample_fw r (index_groups sample_fw []) = Inr line)"
  using family_variants_exact [OF sample_rule_valid] sample_plain by (auto simp: sample_rule_def)

theorem validated_state_rendered_witness:
  "\<exists>config. render_nftables_config sample_fw sample_settings_record [sample_rule] [] [] \<lparr>rp_dhcp = False, rp_dns = False, rp_service = False\<rparr>
     [] (Some (lit ''10.0.0.0/8'')) = Inr config"
proof -
  have "effective_firewall_rules sample_fw [sample_rule] [] \<lparr>rp_dhcp = False, rp_dns = False, rp_service = False\<rparr> = [sample_rule]"
    by (simp add: effective_firewall_rules_def)
  moreover have "validate_firewall_state sample_fw sample_settings_record [sample_rule] [] [] \<lparr>rp_dhcp = False, rp_dns = False, rp_service = False\<rparr> = Inr []"
    by (simp add: validate_firewall_state_def calculation sample_rule_valid validate_firewall_settings_def one_of_def FIREWALL_POLICIES_def
        sample_settings_record_def Let_def)
  moreover have "fs_enabled sample_settings_record" by (simp add: sample_settings_record_def)
  ultimately show ?thesis
    using validated_state_rendered [of sample_fw sample_settings_record "[sample_rule]" "[]" "[]" _ "lit ''10.0.0.0/8''"] sample_plain sample_networks(1)
    by (fastforce simp: sample_rule_def)
qed

theorem ports_bounded_witness:
  "\<exists>x y. (strip (lit ''443'') = x \<and> y = x \<or> strip (lit ''443'') = x @ 45 # y) \<and> int_of_digits y \<le> 65535"
proof -
  have "lit ''443'' \<in> set (port_items (lit ''443''))"
    by (simp add: port_items_def splitlines.simps is_line_break_def lit_def)
  moreover have "ascii_text (lit ''443'')" "strip (lit ''443'') \<noteq> []" by (simp_all add: ascii_text_def lit_def strip_def is_space_def)
  ultimately show ?thesis using ports_bounded [OF sample_port] by blast
qed

subsection \<open>Texts that pass validation and are not addresses\<close>

text \<open>A digit that is not a decimal, as the superscript two, is not reported as an invalid port: the
  validation itself raises.\<close>

lemma superscript_port_raises:
  assumes "fw_isdigit fw 178" "fw_decimal fw 178 = None"
  shows "\<exists>e. validate_ports fw [178] = Inl (ValueError e)"
  using assms by (simp add: validate_ports_def port_items_def splitlines.simps is_line_break_def validate_port_item_def valid_port_def
      is_digit_text_def int_of_text_def decimal_value_def strip_def is_space_def Let_def)

text \<open>An address of separators only, and \<open>any\<close> followed by one, pass validation and cannot be rendered; with
  a restricted destination the first of them is rendered as no restriction of the source.\<close>

lemma separator_address_raises:
  "validate_rule_address_value fw label (lit '','') gs names = Inr []"
  "address_part fw direction (lit '','') gs = Inl IndexError"
  "validate_rule_address_value fw label (lit ''any,'') gs names = Inr []"
  "\<exists>e. address_part fw direction (lit ''any,'') gs = Inl (ValueError e)"
  by (simp_all add: validate_rule_address_value_def address_part_def rule_address_value_def source_group_reference_target_def
      looks_like_source_group_reference_def validate_address_value_def split_address_values_def address_expr_def text_eval
      no_network [unfolded lit_def, simplified] Let_def)

lemma separator_source_widens:
  "rule_family_variants sample_fw (sample_rule\<lparr>fr_source := lit '',''\<rparr>) gs = Inr [sample_rule]"
proof -
  have "rule_address_value sample_fw (lit '','') gs = Inr (lit '','')" "split_address_values sample_fw (lit '','') = []"
    by (simp_all add: rule_address_value_def source_group_reference_target_def split_address_values_def text_eval)
  then show ?thesis
    by (simp add: rule_family_variants_def sample_rule_def sample_value address_values_by_family_def sample_words sample_networks of_family_def
        family_text_def)
qed

end
