(* ===== verification/RoutingProps.thy ===== *)
theory RoutingProps
  imports Routing FirewallProps
begin

text \<open>
  What holds of the generated routing rules: no forwarded packet passes between a lab network and a management
  network, and none between an access network and another network without an explicit permission, whatever the
  other rules of the chain are.
\<close>

subsection \<open>Network texts\<close>

definition network_char :: "nat \<Rightarrow> bool" where
  "network_char c \<longleftrightarrow> 46 \<le> c \<and> c \<le> 58 \<or> 97 \<le> c \<and> c \<le> 102"

lemma join_chars: "list_all (list_all p) xs \<Longrightarrow> list_all p sep \<Longrightarrow> list_all p (join_with sep xs)"
  by (induction xs rule: induct_list012) auto

lemma digs_all: "2 \<le> b \<Longrightarrow> (\<And>d. d < b \<Longrightarrow> p d) \<Longrightarrow> list_all p (digs b n)"
  using digs_less by (auto simp: list_all_iff)

lemma decimal_chars: "list_all network_char (int_text (int n))"
  using digs_all [of 10 "\<lambda>d. network_char (48 + d)" n]
  by (auto simp: int_text_def network_char_def list_all_iff)

lemma hextet_chars: "list_all network_char (hextet_text n)"
proof -
  have "network_char (hex_code d)" if "d < 16" for d using that by (auto simp: network_char_def hex_code_def)
  then show ?thesis using digs_less [of 16 _ n] by (auto simp: hextet_text_def list_all_iff)
qed

lemma ipv6_chars: "list_all network_char (ipv6_text n)"
proof -
  have "list_all (list_all network_char) (compress_hextets hs)" for hs
  proof -
    have t: "list_all (list_all network_char) (map hextet_text hs)" by (simp add: list.pred_map comp_def hextet_chars list_all_iff [of _ hs])
    then show ?thesis
      by (auto simp: compress_hextets_def Let_def list_all_iff dest!: in_set_takeD in_set_dropD split: prod.splits)
  qed
  then show ?thesis unfolding ipv6_text_def by (intro join_chars) (auto simp: network_char_def)
qed

lemma ipv4_chars: "list_all network_char (ipv4_text n)"
  unfolding ipv4_text_def
  by (rule join_chars) (simp_all add: list.pred_map comp_def decimal_chars list_all_iff [of _ "pad_digs 4 (digs 256 n)"] network_char_def [of 46])

lemma network_text_chars:
  assumes "37 \<notin> set (network_text n)"
  shows "list_all network_char (network_text n)"
  using assms ipv4_chars ipv6_chars decimal_chars
  by (auto simp: network_text_def network_char_def [of 47] network_char_def [of 58] split: option.splits if_splits)

lemma network_text_item:
  assumes "37 \<notin> set (network_text n)"
  shows "address_item (network_text n)"
proof -
  let ?s = "network_text n"
  have c: "\<forall>c \<in> set ?s. network_char c" using network_text_chars [OF assms] by (simp add: list_all_iff)
  then have space: "\<forall>c \<in> set ?s. \<not> is_space c" by (auto simp: network_char_def is_space_def)
  have "dropWhile is_space xs = xs" if "\<forall>c \<in> set xs. \<not> is_space c" for xs using that by (cases xs) auto
  from this [of ?s] this [of "rev ?s"] have "strip ?s = ?s" using space by (simp add: strip_def)
  moreover have "map lower_char ?s = ?s" using c by (intro map_idI) (auto simp: network_char_def lower_char_def)
  moreover have "ascii_text ?s" "list_all (\<lambda>c. \<not> is_sep c) ?s"
    using c by (auto simp: ascii_text_def list_all_iff network_char_def is_sep_def)
  moreover have "?s \<noteq> []" by (simp add: network_text_def)
  ultimately show ?thesis by (simp add: address_item_def)
qed

text \<open>The networks of a target are network texts.\<close>

lemma networks_text: "n \<in> set (networks_from_cidrs vs) \<Longrightarrow> \<exists>k. n = network_text k"
proof -
  have "n \<in> set (foldl (\<lambda>networks v. let network = network_from_cidr v in
          if network \<noteq> [] \<and> network \<notin> set networks then networks @ [network] else networks) acc vs) \<Longrightarrow>
        n \<in> set acc \<or> (\<exists>k. n = network_text k)" for acc
  proof (induction vs arbitrary: acc)
    case (Cons v vs)
    from Cons.IH [OF Cons.prems [unfolded foldl_Cons]] show ?case
      by (auto simp: Let_def network_from_cidr_def split: if_splits option.splits)
  qed simp
  then show "n \<in> set (networks_from_cidrs vs) \<Longrightarrow> \<exists>k. n = network_text k" by (fastforce simp: networks_from_cidrs_def)
qed

lemma target_networks:
  "t \<in> set (routing_firewall_targets fw is vs) \<Longrightarrow> n \<in> set (tg_networks t) \<Longrightarrow> 37 \<notin> set n \<Longrightarrow> address_item n"
  by (auto simp: routing_firewall_targets_def Let_def dest!: networks_text network_text_item split: if_splits)

lemma strict_network: "ip_network_strict n = Some k \<Longrightarrow> ip_network n = Some k"
  by (auto simp: ip_network_strict_def ip_network_def split: option.splits if_splits)

subsection \<open>Generated rules\<close>

lemma mapE_Inr_map: "mapE f xs = Inr ys \<Longrightarrow> map f xs = map Inr ys"
  by (induction xs arbitrary: ys) (auto simp: bindE_Inr_iff)

lemma of_versions_Inr:
  "of_versions vs ns = Inr ms \<longleftrightarrow>
     (\<forall>n \<in> set ns. ip_network_strict n \<noteq> None) \<and> ms = filter (\<lambda>n. net_version (the (ip_network_strict n)) \<in> set vs) ns"
proof -
  have "filter (\<lambda>n. bindE (network_version_of n) (\<lambda>v. Inr (v \<in> set vs)) = Inr True) ns
      = filter (\<lambda>n. net_version (the (ip_network_strict n)) \<in> set vs) ns" if "\<forall>n \<in> set ns. ip_network_strict n \<noteq> None"
    using that by (intro filter_cong) (auto simp: network_version_of_def split: option.splits)
  then show ?thesis unfolding of_versions_def filterE_Inr by (auto simp: network_version_of_def bindE_Inr_iff split: option.splits)
qed

lemma common_Inr:
  "common_routing_networks ss ds = Inr c \<Longrightarrow>
     (\<forall>n \<in> set ss \<union> set ds. ip_network_strict n \<noteq> None) \<and>
     set c = (\<lambda>n. net_version (the (ip_network_strict n))) ` set ss \<inter> (\<lambda>n. net_version (the (ip_network_strict n))) ` set ds"
proof -
  have one: "mapE network_version_of ns = Inr vs \<Longrightarrow>
      (\<forall>n \<in> set ns. ip_network_strict n \<noteq> None) \<and> vs = map (\<lambda>n. net_version (the (ip_network_strict n))) ns" for ns vs
    by (induction ns arbitrary: vs) (auto simp: bindE_Inr_iff network_version_of_def split: option.splits)
  assume "common_routing_networks ss ds = Inr c"
  then obtain vs ws where v: "mapE network_version_of ss = Inr vs" "mapE network_version_of ds = Inr ws" "c = filter (\<lambda>v. v \<in> set ws) vs"
    by (auto simp: common_routing_networks_def bindE_Inr_iff)
  show ?thesis using one [OF v(1)] one [OF v(2)] v(3) by auto
qed

lemma generated_rule:
  assumes "routing_firewall_rule name action si ss ds priority description di phase = Inr r"
  obtains c where "common_routing_networks ss ds = Inr c"
    "fr_source r = join_with [10] (filter (\<lambda>n. net_version (the (ip_network_strict n)) \<in> set c) ss)"
    "fr_destination r = join_with [10] (filter (\<lambda>n. net_version (the (ip_network_strict n)) \<in> set c) ds)"
    "fr_action r = lit action" "fr_interface_name r = si" "fr_routing_destination_interface r = di" "fr_enabled r"
    "fr_direction r = lit ''forward''" "fr_protocol r = lit ''any''"
    "fr_routing_policy_phase r = (if description = ISOLATION_MARKER then lit ''isolation'' else phase)"
  using assms by (auto simp: routing_firewall_rule_def bindE_Inr_iff of_versions_Inr)

lemma value_of_networks:
  assumes "\<forall>n \<in> set ns. address_item n \<and> ip_network_strict n \<noteq> None" "n \<in> set ns" "ip_network_strict n = Some k" "contains_address k a"
  shows "address_matches fw gs (join_with [10] ns) a"
proof -
  have items: "list_all address_item ns" "\<forall>n \<in> set ns. ip_network n \<noteq> None" "ns \<noteq> []"
    using assms strict_network by (fastforce simp: list_all_iff)+
  then obtain t where "rule_address_value fw (join_with [10] ns) gs = Inr t" "split_address_values fw t = ns"
    by (rule items_value)
  then show ?thesis using assms(2,4) strict_network [OF assms(3)] by (force simp: address_matches_def list_ex_iff)
qed

lemma generated_matches:
  assumes "routing_firewall_rule name action si ss ds priority description di phase = Inr r"
    and "\<forall>n \<in> set ss \<union> set ds. address_item n"
    and "n \<in> set ss" "ip_network_strict n = Some k" "contains_address k (v, a)"
    and "m \<in> set ds" "ip_network_strict m = Some l" "contains_address l (v, b)"
  shows "rule_matches fw gs r (v, a) (v, b)"
proof -
  obtain c where c: "common_routing_networks ss ds = Inr c"
    "fr_source r = join_with [10] (filter (\<lambda>n. net_version (the (ip_network_strict n)) \<in> set c) ss)"
    "fr_destination r = join_with [10] (filter (\<lambda>n. net_version (the (ip_network_strict n)) \<in> set c) ds)"
    using generated_rule [OF assms(1)] by metis
  have all: "\<forall>n \<in> set ss \<union> set ds. ip_network_strict n \<noteq> None" and "v \<in> set c"
    using common_Inr [OF c(1)] assms(3-8) by (auto simp: contains_address_def image_iff) (metis option.sel)+
  then show ?thesis unfolding rule_matches_def c(2,3) using assms
    by (intro conjI value_of_networks [of _ n k] value_of_networks [of _ m l]) (auto simp: contains_address_def)
qed

subsection \<open>The order of the chain\<close>

text \<open>A forwarded packet, and the rules of the forward chain in the order they are written. What the protocol
  and the port of a rule decide is left open.\<close>

record forwarded_packet =
  pk_in :: ustr
  pk_out :: ustr
  pk_version :: nat
  pk_source :: nat
  pk_destination :: nat

definition rule_applies :: "fw \<Rightarrow> groups_by_id \<Rightarrow> (firewall_rule \<Rightarrow> bool) \<Rightarrow> forwarded_packet \<Rightarrow> firewall_rule \<Rightarrow> bool" where
  "rule_applies fw gs transport p rule \<longleftrightarrow>
     (strip (fr_interface_name rule) = [] \<or> strip (fr_interface_name rule) = pk_in p)
     \<and> (fr_routing_destination_interface rule = [] \<or> fr_routing_destination_interface rule = pk_out p)
     \<and> rule_matches fw gs rule (pk_version p, pk_source p) (pk_version p, pk_destination p)
     \<and> (fr_protocol rule = lit ''any'' \<or> transport rule)"

definition forward_order :: "firewall_rule list \<Rightarrow> firewall_rule list" where
  "forward_order rules =
     (let chain_rules = filter (\<lambda>r. fr_enabled r \<and> fr_direction r = lit ''forward'') rules in
      sort_key fr_priority (filter in_prelude chain_rules) @ sort_key fr_priority (filter (\<lambda>r. \<not> in_prelude r) chain_rules))"

definition forward_verdict :: "fw \<Rightarrow> groups_by_id \<Rightarrow> (firewall_rule \<Rightarrow> bool) \<Rightarrow> firewall_rule list \<Rightarrow> forwarded_packet \<Rightarrow> ustr option" where
  "forward_verdict fw gs transport rules p = map_option fr_action (find (rule_applies fw gs transport p) (forward_order rules))"

text \<open>That order is the one of the rendered chain: the lines of the denials, one rule after the other, come
  first after the head of the chain, and the lines of the other rules follow in their order.\<close>

lemma forward_order_rendered:
  assumes "chain_lines fw settings effective gs rp cidr (''forward'', policy) = Inr lines"
  obtains denials others denied ordinary where "forward_order effective = denials @ others"
    "list_all in_prelude denials" "list_all (\<lambda>r. \<not> in_prelude r) others"
    "mapE (prelude_lines fw gs) denials = Inr denied" "mapE (rule_lines fw gs) others = Inr ordinary"
    "lines = chain_head settings ''forward'' policy @ concat denied @ chain_middle settings rp cidr ''forward''
       @ concat ordinary @ chain_tail settings ''forward'' policy"
proof -
  let ?chain = "filter (\<lambda>r. fr_enabled r \<and> fr_direction r = lit ''forward'') effective"
  let ?ds = "sort_key fr_priority (filter in_prelude ?chain)"
  let ?os = "sort_key fr_priority (filter (\<lambda>r. \<not> in_prelude r) ?chain)"
  from assms obtain denied ordinary where "mapE (prelude_lines fw gs) ?ds = Inr denied" "mapE (rule_lines fw gs) ?os = Inr ordinary"
    "lines = chain_head settings ''forward'' policy @ concat denied @ chain_middle settings rp cidr ''forward''
       @ concat ordinary @ chain_tail settings ''forward'' policy"
    unfolding chain_lines_def Let_def case_prod_conv bindE_Inr_iff by auto
  then show thesis by (intro that [of ?ds ?os denied ordinary]) (simp_all add: forward_order_def Let_def list_all_iff)
qed

lemma denied_first:
  assumes "r \<in> set rules" "fr_enabled r" "fr_direction r = lit ''forward''" "in_prelude r" "rule_applies fw gs transport p r"
    and "\<forall>r \<in> set rules. in_prelude r \<longrightarrow> fr_action r = lit ''drop''"
  shows "forward_verdict fw gs transport rules p = Some (lit ''drop'')"
proof -
  let ?first = "sort_key fr_priority (filter in_prelude (filter (\<lambda>r. fr_enabled r \<and> fr_direction r = lit ''forward'') rules))"
  have "find (rule_applies fw gs transport p) ?first \<noteq> None" using assms(1-5) by (auto simp: find_None_iff)
  then obtain q where q: "find (rule_applies fw gs transport p) ?first = Some q" by auto
  have "find P xs = Some q \<Longrightarrow> q \<in> set xs" for P and xs :: "firewall_rule list" by (induction xs) (auto split: if_splits)
  from this [OF q] have "fr_action q = lit ''drop''" using assms(6) by auto
  then show ?thesis using q by (simp add: forward_verdict_def forward_order_def Let_def find_append_list)
qed

lemma pairsE_some:
  assumes "pairsE f xs ys = Inr rs" "x \<in> set xs" "y \<in> set ys"
  shows "\<exists>r. f x y = Inr r \<and> set r \<subseteq> set rs"
proof -
  obtain rows where rows: "mapE (\<lambda>x. mapE (f x) ys) xs = Inr rows" "rs = concat (concat rows)"
    using assms(1) by (auto simp: pairsE_def bindE_Inr_iff)
  obtain row where row: "row \<in> set rows" "mapE (f x) ys = Inr row" using mapE_Inr_all [OF rows(1) assms(2)] by blast
  obtain r where "r \<in> set row" "f x y = Inr r" using mapE_Inr_all [OF row(2) assms(3)] by blast
  then show ?thesis using row(1) rows(2) by auto
qed

lemma pairsE_from:
  assumes "pairsE f xs ys = Inr rs" "r \<in> set rs"
  shows "\<exists>x \<in> set xs. \<exists>y \<in> set ys. \<exists>q. f x y = Inr q \<and> r \<in> set q"
proof -
  obtain rows row q where q: "mapE (\<lambda>x. mapE (f x) ys) xs = Inr rows" "row \<in> set rows" "q \<in> set row" "r \<in> set q"
    using assms by (auto simp: pairsE_def bindE_Inr_iff)
  obtain x where "x \<in> set xs" "mapE (f x) ys = Inr row" using mapE_Inr_set [OF q(1,2)] by blast
  then show ?thesis using mapE_Inr_set [of "f x" ys row q] q(3,4) by blast
qed

abbreviation dropped :: "firewall_rule \<Rightarrow> bool" where
  "dropped r \<equiv> in_prelude r \<longrightarrow> fr_action r = lit ''drop''"

lemma generated_dropped:
  assumes "routing_firewall_rule name action si ss ds priority description di phase = Inr r"
    "action = ''drop'' \<or> \<not> one_of phase [''deny'', ''isolation''] \<and> description \<noteq> ISOLATION_MARKER"
  shows "dropped r"
  by (rule generated_rule [OF assms(1)]) (use assms(2) in \<open>auto simp: in_prelude_def\<close>)

lemma isolation_dropped: "isolation_rules sha lab m = Inr rs \<Longrightarrow> r \<in> set rs \<Longrightarrow> dropped r"
  by (auto simp: isolation_rules_def bindE_Inr_iff split: if_splits dest!: generated_dropped)

lemma marker_differs: "ROUTING_MARKER @ s \<noteq> ISOLATION_MARKER"
proof
  assume "ROUTING_MARKER @ s = ISOLATION_MARKER"
  from arg_cong [OF this, of "\<lambda>s. s ! 15"] show False by (simp add: ROUTING_MARKER_def ISOLATION_MARKER_def lit_def)
qed

lemma automatic_dropped: "automatic_rules sha s d = Inr rs \<Longrightarrow> r \<in> set rs \<Longrightarrow> dropped r"
  by (auto simp: automatic_rules_def bindE_Inr_iff marker_differs one_of_def split: if_splits dest!: generated_dropped)

lemma family_versions:
  assumes "family_networks family ns = Inr ms" "m \<in> set ms" "ip_network_strict m = Some k"
  shows "m \<in> set ns \<and> (family = 0 \<or> family = int (net_version k))"
  using assms by (auto simp: family_networks_def filterE_Inr network_version_of_def split: if_splits)

text \<open>What an explicit rule adds: nothing, or one rule and, for a permission, its pairs.\<close>

lemma explicit_pair_cases:
  assumes "explicit_pair fw sha acc rule policy family source destination = Inr acc'" "acc' \<noteq> acc"
  obtains ss ds c r name description where "family_networks family (tg_networks source) = Inr ss" "common_routing_networks ss ds = Inr c"
    "routing_firewall_rule name (if policy = lit ''deny'' then ''drop'' else ''accept'') (tg_name source) ss ds (ro_priority rule)
       (ROUTING_MARKER @ description) (tg_name destination) policy = Inr r"
    "acc' = (fst acc @ [r], if policy = lit ''allow'' then snd acc @ map (\<lambda>v. (tg_name source, tg_name destination, v)) c else snd acc)"
proof -
  obtain ss own where "family_networks family (tg_networks source) = Inr ss" "family_networks family (tg_networks destination) = Inr own"
    using assms(1) unfolding explicit_pair_def by (auto simp: bindE_Inr_iff)
  note ss = this
  obtain ds c where "(if tg_name source = tg_name destination then bindE (mapE network_version_of ss) (\<lambda>vs. Inr (map any_network vs)) else Inr own) = Inr ds"
    "common_routing_networks ss ds = Inr c"
    using assms(1) ss unfolding explicit_pair_def by (auto simp only: bindE_Inr_iff bindE_simps)
  note ds = this
  have "\<not> (c = [] \<or> policy = lit ''automatic'')"
    using assms unfolding explicit_pair_def ss ds bindE_simps by auto
  with assms(1) show thesis unfolding explicit_pair_def ss ds bindE_simps
    using that [OF ss(1) ds(2)] by (auto simp: bindE_Inr_iff Let_def)
qed

lemma explicit_rule_cases:
  assumes "explicit_rule fw sha targets acc rule = Inr acc'" "acc' \<noteq> acc"
  obtains policy family source destination where "ro_enabled rule" "policy = (case ro_policy rule of Some p \<Rightarrow> p | None \<Rightarrow> lit ''allow'')"
    "family = (case ro_ip_family rule of Some f \<Rightarrow> f | None \<Rightarrow> 0)" "one_of policy [''automatic'', ''allow'', ''deny'']"
    "tg_name source = ro_source_interface rule" "tg_name destination = ro_destination_interface rule"
    "explicit_pair fw sha acc rule policy family source destination = Inr acc'"
  using assms by (auto simp: explicit_rule_def Let_def split: if_splits option.splits dest!: map_of_SomeD)

lemma explicit_dropped:
  assumes "explicit_rule fw sha targets acc rule = Inr acc'" "\<forall>r \<in> set (fst acc). dropped r"
  shows "\<forall>r \<in> set (fst acc'). dropped r"
proof (cases "acc' = acc")
  case False
  obtain policy family source destination where p: "one_of policy [''automatic'', ''allow'', ''deny'']"
    "explicit_pair fw sha acc rule policy family source destination = Inr acc'"
    using explicit_rule_cases [OF assms(1) False] by metis
  obtain ss ds r name description where r: "routing_firewall_rule name (if policy = lit ''deny'' then ''drop'' else ''accept'') (tg_name source) ss ds
      (ro_priority rule) (ROUTING_MARKER @ description) (tg_name destination) policy = Inr r" "fst acc' = fst acc @ [r]"
    using explicit_pair_cases [OF p(2) False] by (metis fst_conv)
  have "dropped r" by (rule generated_dropped [OF r(1)]) (use p(1) in \<open>auto simp: one_of_def marker_differs\<close>)
  then show ?thesis using assms(2) r(2) by auto
qed (use assms in simp)

definition permits :: "routing_rule \<Rightarrow> ustr \<Rightarrow> ustr \<Rightarrow> nat \<Rightarrow> bool" where
  "permits rule s d v \<longleftrightarrow> ro_enabled rule \<and> ro_policy rule \<in> {None, Some (lit ''allow'')} \<and> ro_source_interface rule = s
     \<and> ro_destination_interface rule = d \<and> ro_ip_family rule \<in> {None, Some 0, Some (int v)}"

lemma explicit_permits:
  assumes "explicit_rule fw sha targets acc rule = Inr acc'" "(s, d, v) \<in> set (snd acc')" "(s, d, v) \<notin> set (snd acc)"
  shows "permits rule s d v"
proof -
  have "acc' \<noteq> acc" using assms by auto
  then obtain policy family source destination where p: "ro_enabled rule" "policy = (case ro_policy rule of Some p \<Rightarrow> p | None \<Rightarrow> lit ''allow'')"
    "family = (case ro_ip_family rule of Some f \<Rightarrow> f | None \<Rightarrow> 0)"
    "tg_name source = ro_source_interface rule" "tg_name destination = ro_destination_interface rule"
    "explicit_pair fw sha acc rule policy family source destination = Inr acc'"
    using explicit_rule_cases [OF assms(1)] by metis
  obtain ss ds c r where c: "family_networks family (tg_networks source) = Inr ss" "common_routing_networks ss ds = Inr c"
    "acc' = (fst acc @ [r], if policy = lit ''allow'' then snd acc @ map (\<lambda>v. (tg_name source, tg_name destination, v)) c else snd acc)"
    by (rule explicit_pair_cases [OF p(6) \<open>acc' \<noteq> acc\<close>])
  then have here: "policy = lit ''allow''" "s = tg_name source" "d = tg_name destination" "v \<in> set c"
    using assms(2,3) by (auto split: if_splits)
  then obtain n where "n \<in> set ss" "ip_network_strict n \<noteq> None" "v = net_version (the (ip_network_strict n))"
    using common_Inr [OF c(2)] by auto
  then have "family = 0 \<or> family = int v" using family_versions [OF c(1)] by fastforce
  then show ?thesis using here p by (auto simp: permits_def split: option.splits)
qed

lemma denial_dropped: "default_denial sha allowed s d v = Inr rs \<Longrightarrow> r \<in> set rs \<Longrightarrow> dropped r"
  by (auto simp: default_denial_def bindE_Inr_iff Let_def split: if_splits dest!: generated_dropped)

lemma explicit_all:
  assumes "foldE (explicit_rule fw sha targets) ([], []) routing = Inr acc"
  shows "\<forall>r \<in> set (fst acc). dropped r" "(s, d, v) \<in> set (snd acc) \<Longrightarrow> \<exists>rule \<in> set routing. permits rule s d v"
proof -
  have "(\<forall>r \<in> set (fst acc). dropped r) \<and> (\<forall>s d v. (s, d, v) \<in> set (snd acc) \<longrightarrow> (\<exists>rule \<in> set routing. permits rule s d v))"
  proof (rule foldE_invariant [OF assms, where P = "\<lambda>seen acc. (\<forall>r \<in> set (fst acc). dropped r) \<and>
      (\<forall>s d v. (s, d, v) \<in> set (snd acc) \<longrightarrow> (\<exists>rule \<in> set seen. permits rule s d v))"], goal_cases)
    case (2 acc x acc' ys zs)
    have "\<exists>rule \<in> set (ys @ [x]). permits rule s d v" if "(s, d, v) \<in> set (snd acc')" for s d v
      using explicit_permits [OF 2(3) that] 2(1) by auto
    then show ?case using explicit_dropped [OF 2(3)] 2(1) by blast
  qed simp
  then show "\<forall>r \<in> set (fst acc). dropped r" "(s, d, v) \<in> set (snd acc) \<Longrightarrow> \<exists>rule \<in> set routing. permits rule s d v" by blast+
qed

abbreviation denials_of where
  "denials_of sha allowed \<equiv> \<lambda>source destination. bindE (mapE (default_denial sha allowed source destination) [4, 6]) (\<lambda>rs. Inr (concat rs))"

text \<open>The parts of the generated rules.\<close>

lemma managed_isolation:
  assumes "managed_routing_firewall_rules fw sha is vs routing enabled = Inr rules"
  shows "\<exists>isolation. pairsE (isolation_rules sha) (filter (\<lambda>t. tg_role t \<noteq> lit ''management'') (routing_firewall_targets fw is vs))
      (filter (\<lambda>t. tg_role t = lit ''management'') (routing_firewall_targets fw is vs)) = Inr isolation \<and> set isolation \<subseteq> set rules"
  using assms by (auto simp: managed_routing_firewall_rules_def Let_def bindE_Inr_iff split: if_splits)

lemma managed_denials:
  assumes "managed_routing_firewall_rules fw sha is vs routing True = Inr rules"
  shows "\<exists>acc denials. foldE (explicit_rule fw sha (routing_firewall_targets fw is vs)) ([], []) routing = Inr acc \<and>
    pairsE (denials_of sha (snd acc)) (filter (\<lambda>t. one_of (tg_role t) [''route'', ''access'']) (filter (\<lambda>t. tg_role t \<noteq> lit ''management'') (routing_firewall_targets fw is vs)))
      (filter (\<lambda>t. one_of (tg_role t) [''route'', ''access'']) (filter (\<lambda>t. tg_role t \<noteq> lit ''management'') (routing_firewall_targets fw is vs))) = Inr denials \<and>
    set denials \<subseteq> set rules"
  using assms unfolding managed_routing_firewall_rules_def Let_def
  by (simp only: bindE_Inr_iff not_True_eq_False if_False split_paired_Ex prod.case sum.inject) force

lemma managed_dropped:
  assumes "managed_routing_firewall_rules fw sha is vs routing enabled = Inr rules" "r \<in> set rules"
  shows "dropped r"
proof -
  let ?targets = "routing_firewall_targets fw is vs"
  obtain isolation where i: "pairsE (isolation_rules sha) (filter (\<lambda>t. tg_role t \<noteq> lit ''management'') ?targets)
      (filter (\<lambda>t. tg_role t = lit ''management'') ?targets) = Inr isolation"
    using managed_isolation [OF assms(1)] by blast
  have iso: "dropped r" if "r \<in> set isolation" for r using pairsE_from [OF i that] isolation_dropped by blast
  show ?thesis
  proof (cases enabled)
    case False
    then show ?thesis using assms i iso by (simp add: managed_routing_firewall_rules_def Let_def)
  next
    case True
    obtain automatic explicit allowed denials where a: "rules = isolation @ automatic @ explicit @ denials"
      and auto: "\<exists>ts. pairsE (automatic_rules sha) ts ts = Inr automatic"
      and ex: "foldE (explicit_rule fw sha ?targets) ([], []) routing = Inr (explicit, allowed)"
      and den: "\<exists>ts. pairsE (denials_of sha allowed) ts ts = Inr denials"
      using assms(1) True i unfolding managed_routing_firewall_rules_def Let_def
      by (simp only: bindE_Inr_iff bindE_simps not_True_eq_False if_False split_paired_Ex prod.case sum.inject) blast
    have "dropped r" if "r \<in> set automatic" for r
    proof -
      obtain ts where "pairsE (automatic_rules sha) ts ts = Inr automatic" using auto by blast
      from pairsE_from [OF this that] show ?thesis using automatic_dropped by blast
    qed
    moreover have "dropped r" if "r \<in> set explicit" for r using explicit_all(1) [OF ex] that by simp
    moreover have "dropped r" if "r \<in> set denials" for r
    proof -
      obtain ts where "pairsE (denials_of sha allowed) ts ts = Inr denials" using den by blast
      from pairsE_from [OF this that] obtain s d q where "denials_of sha allowed s d = Inr q" "r \<in> set q" by blast
      then show ?thesis using denial_dropped by (auto simp: bindE_Inr_iff)
    qed
    ultimately show ?thesis using assms(2) a iso by auto
  qed
qed

subsection \<open>Isolation\<close>

definition in_networks :: "ustr list \<Rightarrow> nat \<Rightarrow> nat \<Rightarrow> bool" where
  "in_networks ns v a \<longleftrightarrow> (\<exists>n \<in> set ns. case ip_network_strict n of None \<Rightarrow> False | Some k \<Rightarrow> contains_address k (v, a))"

lemma in_networks_version:
  assumes "of_versions [v] ns = Inr ms" "in_networks ns v a"
  shows "in_networks ms v a \<and> set ms \<subseteq> set ns"
proof -
  obtain n k where n: "n \<in> set ns" "ip_network_strict n = Some k" "contains_address k (v, a)"
    using assms(2) by (auto simp: in_networks_def split: option.splits)
  then have "n \<in> set ms" using assms(1) by (auto simp: of_versions_Inr contains_address_def)
  then show ?thesis using n assms(1) by (auto simp: in_networks_def of_versions_Inr intro!: bexI [of _ n])
qed

lemma generated_denies:
  assumes "routing_firewall_rule name ''drop'' si ss ds priority description di phase = Inr r"
    and "description = ISOLATION_MARKER \<or> phase = lit ''deny''" "\<forall>n \<in> set ss \<union> set ds. address_item n"
    and "in_networks ss v a" "in_networks ds v b" "di = [] \<or> di = pk_out p"
    and "pk_in p = strip si" "pk_version p = v" "pk_source p = a" "pk_destination p = b"
    and "r \<in> set rules" "\<forall>r \<in> set rules. dropped r"
  shows "forward_verdict fw gs transport rules p = Some (lit ''drop'')"
proof -
  obtain n k m l where "n \<in> set ss" "ip_network_strict n = Some k" "contains_address k (v, a)"
    "m \<in> set ds" "ip_network_strict m = Some l" "contains_address l (v, b)"
    using assms(4,5) by (auto simp: in_networks_def split: option.splits)
  then have "rule_matches fw gs r (v, a) (v, b)" using assms(3) by (intro generated_matches [OF assms(1)])
  moreover have "fr_interface_name r = si" "fr_routing_destination_interface r = di" "fr_enabled r" "fr_direction r = lit ''forward''"
    "fr_protocol r = lit ''any''" "in_prelude r"
    by (rule generated_rule [OF assms(1)], use assms(2) in \<open>auto simp: in_prelude_def one_of_def\<close>)+
  ultimately show ?thesis using assms(6-) by (intro denied_first [of r]) (auto simp: rule_applies_def)
qed


text \<open>C15: Access networks are isolated unless a rule permits otherwise. With routing enabled, take two
  different interfaces of which each has the route or the access role and not both the route role. A
  packet forwarded from the one to the other, from an address in the networks of the one to an address in the networks
  of the other, is dropped when no enabled routing rule permits that direction for its address family, whatever
  the other rules are. The networks carry no zone, and only generated rules carry a denial phase.\<close>

theorem access_isolated:
  assumes "managed_routing_firewall_rules fw sha interfaces vlans routing True = Inr generated"
    and "set generated \<subseteq> set rules" "\<forall>r \<in> set rules. in_prelude r \<longrightarrow> r \<in> set generated"
    and "source \<in> set (routing_firewall_targets fw interfaces vlans)" "one_of (tg_role source) [''route'', ''access'']"
    and "destination \<in> set (routing_firewall_targets fw interfaces vlans)" "one_of (tg_role destination) [''route'', ''access'']"
    and "tg_name source \<noteq> tg_name destination" "\<not> (tg_role source = lit ''route'' \<and> tg_role destination = lit ''route'')"
    and "\<forall>n \<in> set (tg_networks source) \<union> set (tg_networks destination). 37 \<notin> set n"
    and "in_networks (tg_networks source) v a" "in_networks (tg_networks destination) v b"
    and "\<forall>rule \<in> set routing. \<not> permits rule (tg_name source) (tg_name destination) v"
  shows "forward_verdict fw gs transport rules
      \<lparr>pk_in = strip (tg_name source), pk_out = tg_name destination, pk_version = v, pk_source = a, pk_destination = b\<rparr> = Some (lit ''drop'')"
proof -
  let ?targets = "filter (\<lambda>t. one_of (tg_role t) [''route'', ''access'']) (filter (\<lambda>t. tg_role t \<noteq> lit ''management'') (routing_firewall_targets fw interfaces vlans))"
  have drop: "\<forall>r \<in> set rules. dropped r" using assms(3) managed_dropped [OF assms(1)] by blast
  obtain acc denials where acc: "foldE (explicit_rule fw sha (routing_firewall_targets fw interfaces vlans)) ([], []) routing = Inr acc"
    "pairsE (denials_of sha (snd acc)) ?targets ?targets = Inr denials" "set denials \<subseteq> set generated"
    using managed_denials [OF assms(1)] by blast
  have "source \<in> set ?targets" "destination \<in> set ?targets" using assms(4-7) by (auto simp: one_of_def)
  from pairsE_some [OF acc(2) this] obtain rs where rs: "mapE (default_denial sha (snd acc) source destination) [4, 6] = Inr rs"
    "set (concat rs) \<subseteq> set rules"
    using acc(3) assms(2) by (auto simp: bindE_Inr_iff simp del: mapE.simps)
  have "v = 4 \<or> v = 6" using assms(11) strict_network network_version
    by (fastforce simp: in_networks_def contains_address_def split: option.splits)
  then obtain q where q: "default_denial sha (snd acc) source destination v = Inr q" "set q \<subseteq> set rules"
    using mapE_Inr_all [OF rs(1), of v] rs(2) by fastforce
  have "(tg_name source, tg_name destination, v) \<notin> set (snd acc)" using explicit_all(2) [OF acc(1)] assms(13) by blast
  then obtain ss ds where n: "of_versions [v] (tg_networks source) = Inr ss" "of_versions [v] (tg_networks destination) = Inr ds"
    using q(1) assms(8,9) by (auto simp: default_denial_def Let_def bindE_Inr_iff)
  have sub: "in_networks ss v a" "in_networks ds v b" "set ss \<union> set ds \<subseteq> set (tg_networks source) \<union> set (tg_networks destination)"
    using in_networks_version [OF n(1) assms(11)] in_networks_version [OF n(2) assms(12)] by auto
  then have "ss \<noteq> []" "ds \<noteq> []" by (auto simp: in_networks_def)
  then obtain r where r: "routing_firewall_rule (routing_default_deny_name sha (tg_name source) (tg_name destination) v) ''drop'' (tg_name source)
      ss ds 30 (ROUTING_MARKER @ lit '' from automatic Access isolation.'') (tg_name destination) (lit ''deny'') = Inr r" "q = [r]"
    using q(1) n assms(8,9) \<open>(tg_name source, tg_name destination, v) \<notin> set (snd acc)\<close> by (auto simp: default_denial_def Let_def bindE_Inr_iff)
  have "\<forall>n \<in> set ss \<union> set ds. address_item n" using sub(3) target_networks assms(4,6,10) by blast
  then show ?thesis using sub q(2) r(2) drop by (intro generated_denies [OF r(1)]) auto
qed

subsection \<open>A concrete appliance\<close>

definition sample_interfaces :: "physical_interface list" where
  "sample_interfaces =
     [\<lparr>pi_name = lit ''eth0'', pi_oper_state = lit ''up'', pi_mode = lit ''access'', pi_role = lit ''management'',
       pi_ip_cidr = Some (lit ''10.0.0.1/24''), pi_ipv6_cidr = None\<rparr>,
      \<lparr>pi_name = lit ''eth1'', pi_oper_state = lit ''up'', pi_mode = lit ''access'', pi_role = lit ''access'',
       pi_ip_cidr = Some (lit ''10.1.0.1/24''), pi_ipv6_cidr = None\<rparr>,
      \<lparr>pi_name = lit ''eth2'', pi_oper_state = lit ''up'', pi_mode = lit ''access'', pi_role = lit ''route'',
       pi_ip_cidr = Some (lit ''10.2.0.1/24''), pi_ipv6_cidr = None\<rparr>]"

lemma sample_written:
  "written_network (lit ''10.0.0.1/24'') = Some (Network 4 (10 * 2 ^ 24 + 1) 24 None)"
  "written_network (lit ''10.1.0.1/24'') = Some (Network 4 (10 * 2 ^ 24 + 2 ^ 16 + 1) 24 None)"
  "written_network (lit ''10.2.0.1/24'') = Some (Network 4 (10 * 2 ^ 24 + 2 * 2 ^ 16 + 1) 24 None)"
  "written_network (lit ''10.0.0.0/24'') = Some (Network 4 (10 * 2 ^ 24) 24 None)"
  "written_network (lit ''10.1.0.0/24'') = Some (Network 4 (10 * 2 ^ 24 + 2 ^ 16) 24 None)"
  "written_network (lit ''10.2.0.0/24'') = Some (Network 4 (10 * 2 ^ 24 + 2 * 2 ^ 16) 24 None)"
  "written_network (lit ''0.0.0.0/0'') = Some (Network 4 0 0 None)"
  by (simp_all add: written_network_def ipv4_network_def ipv4_value_def ipv4_octet_def prefix_string_def is_digit_def
      int_of_digits_def of_digs_def lit_def Let_def)

lemma sample_texts:
  "network_text (Network 4 (10 * 2 ^ 24) 24 None) = lit ''10.0.0.0/24''"
  "network_text (Network 4 (10 * 2 ^ 24 + 2 ^ 16) 24 None) = lit ''10.1.0.0/24''"
  "network_text (Network 4 (10 * 2 ^ 24 + 2 * 2 ^ 16) 24 None) = lit ''10.2.0.0/24''"
  by (simp_all add: network_text_def ipv4_text_def int_text_def pad_digs_def digs.simps lit_def)

lemma sample_targets_eq:
  "routing_firewall_targets sample_fw sample_interfaces [] =
     [\<lparr>tg_name = lit ''eth0'', tg_role = lit ''management'', tg_networks = [lit ''10.0.0.0/24'']\<rparr>,
      \<lparr>tg_name = lit ''eth1'', tg_role = lit ''access'', tg_networks = [lit ''10.1.0.0/24'']\<rparr>,
      \<lparr>tg_name = lit ''eth2'', tg_role = lit ''route'', tg_networks = [lit ''10.2.0.0/24'']\<rparr>]"
proof -
  have words: "lower sample_fw (strip (lit s)) = lit s" if "s \<in> {''access'', ''route'', ''management'', ''unused''}" for s
    using that by (auto simp: text_eval)
  have net: "ip_network (lit ''10.0.0.1/24'') = Some (Network 4 (10 * 2 ^ 24) 24 None)"
    "ip_network (lit ''10.1.0.1/24'') = Some (Network 4 (10 * 2 ^ 24 + 2 ^ 16) 24 None)"
    "ip_network (lit ''10.2.0.1/24'') = Some (Network 4 (10 * 2 ^ 24 + 2 * 2 ^ 16) 24 None)"
    by (simp_all add: ip_network_def sample_written mask_network_def)
  show ?thesis
    by (simp add: routing_firewall_targets_def sample_interfaces_def normalize_interface_mode_def normalize_interface_role_def words one_of_def
        networks_from_cidrs_def network_from_cidr_def net sample_texts [simplified] Let_def)
qed

lemma sample_strict:
  "ip_network_strict (lit ''10.0.0.0/24'') = Some (Network 4 (10 * 2 ^ 24) 24 None)"
  "ip_network_strict (lit ''10.1.0.0/24'') = Some (Network 4 (10 * 2 ^ 24 + 2 ^ 16) 24 None)"
  "ip_network_strict (lit ''10.2.0.0/24'') = Some (Network 4 (10 * 2 ^ 24 + 2 * 2 ^ 16) 24 None)"
  "ip_network_strict (lit ''0.0.0.0/0'') = Some (Network 4 0 0 None)"
  by (simp_all add: ip_network_strict_def sample_written mask_network_def)

lemma sample_generated: "\<exists>generated. managed_routing_firewall_rules sample_fw (\<lambda>s. []) sample_interfaces [] [] True = Inr generated"
  by (simp add: managed_routing_firewall_rules_def sample_targets_eq pairsE_def isolation_rules_def automatic_rules_def default_denial_def one_of_def
      common_routing_networks_def network_version_of_def sample_strict routing_firewall_rule_def of_versions_def any_network_def Let_def)

definition sample_packet :: "string \<Rightarrow> string \<Rightarrow> nat \<Rightarrow> nat \<Rightarrow> forwarded_packet" where
  "sample_packet i out a b = \<lparr>pk_in = strip (lit i), pk_out = lit out, pk_version = 4, pk_source = a, pk_destination = b\<rparr>"

lemma sample_in:
  "in_networks [lit ''10.0.0.0/24''] 4 (10 * 2 ^ 24 + 7)" "in_networks [lit ''10.1.0.0/24''] 4 (10 * 2 ^ 24 + 2 ^ 16 + 7)"
  "in_networks [lit ''10.2.0.0/24''] 4 (10 * 2 ^ 24 + 2 * 2 ^ 16 + 7)"
  by (simp_all add: in_networks_def sample_strict contains_address_def)

lemma sample_zones: "37 \<notin> set (lit ''10.0.0.0/24'')" "37 \<notin> set (lit ''10.1.0.0/24'')" "37 \<notin> set (lit ''10.2.0.0/24'')"
  by (simp_all add: lit_def)


theorem access_isolated_witness:
  "\<exists>generated. managed_routing_firewall_rules sample_fw (\<lambda>s. []) sample_interfaces [] [] True = Inr generated \<and>
     forward_verdict sample_fw [] (\<lambda>r. True) generated (sample_packet ''eth1'' ''eth2'' (10 * 2 ^ 24 + 2 ^ 16 + 7) (10 * 2 ^ 24 + 2 * 2 ^ 16 + 7))
       = Some (lit ''drop'')"
proof -
  obtain generated where g: "managed_routing_firewall_rules sample_fw (\<lambda>s. []) sample_interfaces [] [] True = Inr generated"
    using sample_generated by blast
  show ?thesis
    using g access_isolated [OF g, of generated "\<lparr>tg_name = lit ''eth1'', tg_role = lit ''access'', tg_networks = [lit ''10.1.0.0/24'']\<rparr>"
        "\<lparr>tg_name = lit ''eth2'', tg_role = lit ''route'', tg_networks = [lit ''10.2.0.0/24'']\<rparr>" 4]
      sample_in sample_zones by (simp add: sample_targets_eq sample_packet_def one_of_def)
qed

end
