(* ===== verification/ManagedProps.thy ===== *)
theory ManagedProps
  imports ManagedRules RoutingProps
begin

text \<open>
  What holds of the generated rules together: every one of them is recognised as generated, so that a new
  generation replaces the old one.
\<close>

definition good :: "fw \<Rightarrow> firewall_rule list res \<Rightarrow> bool" where
  "good fw x \<longleftrightarrow> (\<forall>rs. x = Inr rs \<longrightarrow> (\<forall>r \<in> set rs. is_atlaso_managed_firewall_rule fw r))"

lemma strip_keeps:
  assumes "p \<noteq> []" "\<not> is_space (hd p)" "\<not> is_space (last p)"
  shows "contains_text p (strip (p @ s))"
proof -
  obtain a b where ab: "p @ s = a @ strip (p @ s) @ b" "list_all is_space a" "list_all is_space b" using strip_decomp by blast
  have "a = []" using ab(1,2) assms(1,2) by (metis hd_append2 hd_in_set list_all_iff)
  then have e: "p @ s = strip (p @ s) @ b" using ab(1) by simp
  then consider c where "strip (p @ s) = p @ c" | c where "p = strip (p @ s) @ c" "b = c @ s" "c \<noteq> []"
    by (metis append_Nil2 append_eq_append_conv2)
  then show ?thesis
  proof cases
    case 1
    then show ?thesis by (metis append_Nil contains_text_iff)
  next
    case 2
    then have "last p \<in> set b" by (metis Un_iff last_appendR last_in_set set_append)
    then show ?thesis using ab(3) assms(3) by (auto simp: list_all_iff)
  qed
qed

lemma marked:
  assumes "fr_description r = Some (lit m @ s)" "m \<noteq> []" "\<not> is_space (hd (lit m))" "\<not> is_space (last (lit m))"
  shows "contains_text (lit m) (description_text r)"
  using strip_keeps [of "lit m" s] assms by (simp add: description_text_def)

lemma service_rule_managed: "is_atlaso_managed_firewall_rule fw (service_firewall_rule name service i source protocol ports priority)"
proof -
  have "contains_text (lit ''Atlaso-managed service access'') (description_text (service_firewall_rule name service i source protocol ports priority))"
    by (rule marked [where s = "lit '' for '' @ service @ lit ''.''"]) (simp_all add: service_firewall_rule_def lit_def is_space_def)
  then show ?thesis by (simp add: is_atlaso_managed_firewall_rule_def)
qed

lemma dns_marked: "fr_description r = Some (lit ''Atlaso-managed DNS access for DNS listener '' @ s) \<Longrightarrow> is_atlaso_managed_firewall_rule fw r"
proof -
  assume "fr_description r = Some (lit ''Atlaso-managed DNS access for DNS listener '' @ s)"
  then have "contains_text (lit ''Atlaso-managed DNS access'') (description_text r)"
    by (intro marked [where s = "lit '' for DNS listener '' @ s"]) (simp_all add: lit_def is_space_def)
  then show ?thesis by (simp add: is_atlaso_managed_firewall_rule_def is_atlaso_dns_firewall_rule_def)
qed

lemma dhcp_marked: "fr_description r = Some (lit ''Atlaso-managed DNS/DHCP access for DHCP '' @ s) \<Longrightarrow> is_atlaso_managed_firewall_rule fw r"
proof -
  assume "fr_description r = Some (lit ''Atlaso-managed DNS/DHCP access for DHCP '' @ s)"
  then have "contains_text (lit ''Atlaso-managed DNS/DHCP access'') (description_text r)"
    by (intro marked [where s = "lit '' for DHCP '' @ s"]) (simp_all add: lit_def is_space_def)
  then show ?thesis by (simp add: is_atlaso_managed_firewall_rule_def is_atlaso_dhcp_firewall_rule_def)
qed

lemma routing_marked:
  assumes "routing_firewall_rule name action si ss ds priority description di phase = Inr r"
    "description = ROUTING_MARKER @ s \<or> description = ISOLATION_MARKER"
  shows "is_atlaso_managed_firewall_rule fw r"
proof -
  have d: "fr_description r = Some description" using assms(1) by (auto simp: routing_firewall_rule_def bindE_Inr_iff)
  have "contains_text (lit ''Atlaso-managed lab routing'') (description_text r)
      \<or> contains_text (lit ''Atlaso-managed management routing isolation'') (description_text r)"
    using assms(2)
  proof
    assume "description = ROUTING_MARKER @ s"
    then have "contains_text (lit ''Atlaso-managed lab routing'') (description_text r)"
      using d by (intro marked [where s = s]) (simp_all add: ROUTING_MARKER_def lit_def is_space_def)
    then show ?thesis by blast
  next
    assume "description = ISOLATION_MARKER"
    then have "contains_text (lit ''Atlaso-managed management routing isolation'') (description_text r)"
      using d by (intro marked [where s = "[]"]) (simp_all add: ISOLATION_MARKER_def lit_def is_space_def)
    then show ?thesis by blast
  qed
  then show ?thesis by (auto simp: is_atlaso_managed_firewall_rule_def)
qed

subsection \<open>Services\<close>

lemma good_Inr [simp]: "good fw (Inr rs) \<longleftrightarrow> (\<forall>r \<in> set rs. is_atlaso_managed_firewall_rule fw r)"
  by (simp add: good_def)

lemma good_Inl [simp]: "good fw (Inl e)"
  by (simp add: good_def)

lemma good_concat: "(\<And>x. x \<in> set xs \<Longrightarrow> good fw (f x)) \<Longrightarrow> good fw (bindE (mapE f xs) (\<lambda>rs. Inr (concat rs)))"
  by (cases "mapE f xs") (auto dest!: mapE_Inr_set simp: good_def)

lemma good_listener_rule: "good fw (bindE (listener_rule fw gs asg name key service i protocol ports priority) (\<lambda>r. Inr [r]))"
  by (cases "managed_rule_source fw gs asg key") (simp_all add: listener_rule_def service_rule_managed)

lemma good_one: "good fw (one_listener fw gs asg prefix shared service protocol ports base p)"
  by (simp add: one_listener_def good_listener_rule split: prod.splits)

lemma good_listeners: "(\<And>p. good fw (f p)) \<Longrightarrow> good fw (listeners enabled interfaces f)"
  by (simp add: listeners_def good_concat)

lemma good_only: "(\<And>p. good fw (f p)) \<Longrightarrow> good fw (only b f p)"
  by (simp add: only_def)

lemma good_joinE: "(\<And>f. f \<in> set fs \<Longrightarrow> good fw (f p)) \<Longrightarrow> good fw (joinE fs p)"
  unfolding joinE_def by (rule good_concat)

lemma good_dns: "good fw (dns_firewall_rules fw enabled listen gs asg)"
proof -
  have "good fw (dns_listener_rules fw gs asg p)" for p
    unfolding good_def dns_listener_rules_def
    by (auto simp: bindE_Inr_iff Let_def split: prod.splits intro!: dns_marked)
  then show ?thesis by (simp add: dns_firewall_rules_def good_concat)
qed

lemma dhcp_managed:
  assumes "r \<in> set (dhcp_firewall_rules fw enabled scopes)"
  shows "is_atlaso_managed_firewall_rule fw r"
proof -
  obtain s where "fr_description r = Some (lit ''Atlaso-managed DNS/DHCP access for DHCP '' @ s)"
    using assms by (auto simp: dhcp_firewall_rules_def Let_def split: if_splits)
  then show ?thesis by (rule dhcp_marked)
qed

lemma good_services: "x \<in> set (service_groups fw inp) \<Longrightarrow> good fw x"
  by (auto simp: service_groups_def Let_def good_dns dhcp_managed good_listener_rule good_one
      intro!: good_listeners good_only good_joinE split: option.splits)

lemma services_managed:
  assumes "managed_service_firewall_rules fw upper inp = Inr rules" "r \<in> set rules"
  shows "is_atlaso_managed_firewall_rule fw r"
proof -
  obtain gl where gl: "mapE (\<lambda>x. x) (service_groups fw inp) = Inr gl" "rules = concat gl @ storage_rules upper (length (concat gl)) (si_storage_rules inp)"
    using assms(1) by (auto simp: managed_service_firewall_rules_def bindE_Inr_iff Let_def)
  from assms(2) gl(2) consider rs where "rs \<in> set gl" "r \<in> set rs" | "r \<in> set (storage_rules upper (length (concat gl)) (si_storage_rules inp))" by auto
  then show ?thesis
  proof cases
    case 1
    then have "Inr rs \<in> set (service_groups fw inp)" using mapE_Inr_set [OF gl(1)] by metis
    from good_services [OF this] show ?thesis using 1(2) by simp
  next
    case 2
    then show ?thesis by (auto simp: storage_rules_def service_rule_managed)
  qed
qed

subsection \<open>Routing\<close>

lemma explicit_managed:
  assumes "explicit_rule fw sha targets acc rule = Inr acc'" "\<forall>r \<in> set (fst acc). is_atlaso_managed_firewall_rule fw r"
  shows "\<forall>r \<in> set (fst acc'). is_atlaso_managed_firewall_rule fw r"
proof (cases "acc' = acc")
  case False
  obtain policy family source destination where p: "explicit_pair fw sha acc rule policy family source destination = Inr acc'"
    by (rule explicit_rule_cases [OF assms(1) False])
  obtain ss ds r name description where "routing_firewall_rule name (if policy = lit ''deny'' then ''drop'' else ''accept'') (tg_name source) ss ds
      (ro_priority rule) (ROUTING_MARKER @ description) (tg_name destination) policy = Inr r" "fst acc' = fst acc @ [r]"
    by (rule explicit_pair_cases [OF p False]) simp
  then show ?thesis using assms(2) routing_marked by fastforce
qed (use assms in simp)

lemma good_pairs: "(\<And>x y. good fw (f x y)) \<Longrightarrow> pairsE f xs ys = Inr rs \<Longrightarrow> r \<in> set rs \<Longrightarrow> is_atlaso_managed_firewall_rule fw r"
  using pairsE_from unfolding good_def by metis

lemma good_routing:
  "good fw (isolation_rules sha s d)" "good fw (automatic_rules sha s d)" "good fw (default_denial sha allowed s d v)"
  by (auto simp: good_def isolation_rules_def automatic_rules_def default_denial_def bindE_Inr_iff Let_def split: if_splits dest!: routing_marked)

lemma routing_managed:
  assumes "managed_routing_firewall_rules fw sha is vs routing enabled = Inr rules" "r \<in> set rules"
  shows "is_atlaso_managed_firewall_rule fw r"
proof -
  have den: "good fw (denials_of sha allowed s d)" for allowed s d by (rule good_concat) (rule good_routing(3))
  have ex: "\<forall>r \<in> set (fst acc). is_atlaso_managed_firewall_rule fw r"
    if "foldE (explicit_rule fw sha targets) ([], []) routing = Inr acc" for acc targets
    by (rule foldE_invariant [OF that, where P = "\<lambda>seen acc. \<forall>r \<in> set (fst acc). is_atlaso_managed_firewall_rule fw r"])
      (simp, rule explicit_managed)
  obtain isolation where iso: "\<exists>xs ys. pairsE (isolation_rules sha) xs ys = Inr isolation"
    and rest: "rules = isolation \<or> (\<exists>automatic explicit allowed denials xs ts us. rules = isolation @ automatic @ explicit @ denials \<and>
      pairsE (automatic_rules sha) xs xs = Inr automatic \<and> foldE (explicit_rule fw sha ts) ([], []) routing = Inr (explicit, allowed) \<and>
      pairsE (denials_of sha allowed) us us = Inr denials)"
    using assms(1) unfolding managed_routing_firewall_rules_def Let_def
    by (cases enabled) (simp only: bindE_Inr_iff not_True_eq_False not_False_eq_True if_False if_True split_paired_Ex prod.case sum.inject, blast)+
  have i: "\<forall>r \<in> set isolation. is_atlaso_managed_firewall_rule fw r"
    using iso good_pairs [of fw "isolation_rules sha"] good_routing(1) by blast
  show ?thesis using rest
  proof (elim disjE exE conjE)
    fix automatic explicit allowed denials xs ts us
    assume r: "rules = isolation @ automatic @ explicit @ denials" "pairsE (automatic_rules sha) xs xs = Inr automatic"
      "foldE (explicit_rule fw sha ts) ([], []) routing = Inr (explicit, allowed)" "pairsE (denials_of sha allowed) us us = Inr denials"
    have "\<forall>r \<in> set automatic. is_atlaso_managed_firewall_rule fw r" using r(2) good_pairs [of fw "automatic_rules sha"] good_routing(2) by blast
    moreover have "\<forall>r \<in> set explicit. is_atlaso_managed_firewall_rule fw r" using ex [OF r(3)] by simp
    moreover have "\<forall>r \<in> set denials. is_atlaso_managed_firewall_rule fw r" using r(4) good_pairs [of fw "denials_of sha allowed"] den by blast
    ultimately show ?thesis using i r(1) assms(2) by auto
  qed (use i assms(2) in blast)
qed

text \<open>C36: A new generation of rules replaces the old one. Every rule generated for a service or for routing is
  recognised as generated, so that old generated rules among the stored ones have no part in the effective rules
  once the generated rules are replaced.\<close>

theorem generation_replaced:
  assumes "managed_service_firewall_rules fw upper inp = Inr services"
    and "managed_routing_firewall_rules fw sha interfaces vlans routing enabled = Inr routes" "rp_service rp"
  shows "effective_firewall_rules fw (before @ services @ routes @ after) generated rp = effective_firewall_rules fw (before @ after) generated rp"
proof -
  have "\<forall>r \<in> set (services @ routes). is_atlaso_managed_firewall_rule fw r"
    using services_managed [OF assms(1)] routing_managed [OF assms(2)] by auto
  then show ?thesis using assms(3) by (auto simp: effective_firewall_rules_def)
qed

definition sample_listener :: listener_settings where
  "sample_listener = \<lparr>ls_enabled = False, ls_listen_interface = [], ls_port = 443\<rparr>"

definition sample_inputs :: service_inputs where
  "sample_inputs = \<lparr>si_dns = sample_listener, si_dhcp_enabled = False, si_dhcp_scopes = [], si_ca = sample_listener, si_ca_portal_interfaces = None,
     si_kms = sample_listener, si_ntp = \<lparr>ls_enabled = False, ls_listen_interface = [], ls_port = 123, nt_nts_server_enabled = False, nt_nts_ke_port = None\<rparr>,
     si_vcf_backup = sample_listener, si_vcf_depot = sample_listener, si_vcf_registry = sample_listener, si_esxi_pxe_boot = [],
     si_interface_networks = [], si_source_groups = [], si_assignments = [], si_web_terminal_interfaces = [], si_ldap = None, si_oidc = None,
     si_storage_rules = [], si_management_interface = None, si_access_management_ui_interfaces = []\<rparr>"

lemma sample_services:
  "managed_service_firewall_rules sample_fw (\<lambda>s. s) sample_inputs =
     Inr [service_firewall_rule (lit ''mgmt-console'') (lit ''Management console'') (lit ''eth0'') (lit ''any'') ''tcp'' (lit ''22,80,443'') 10]"
  by (simp add: managed_service_firewall_rules_def service_groups_def sample_inputs_def sample_listener_def listeners_def enumerated_def
      listener_rule_def managed_rule_source_def managed_rule_source_group_id_def index_groups_def dns_firewall_rules_def dhcp_firewall_rules_def
      public_service_interfaces_def pxe_enabled_def ordered_unique_def storage_rules_def Let_def)

theorem generation_replaced_witness:
  "\<exists>routes. managed_routing_firewall_rules sample_fw (\<lambda>s. []) sample_interfaces [] [] True = Inr routes \<and>
     effective_firewall_rules sample_fw ([sample_rule]
         @ [service_firewall_rule (lit ''mgmt-console'') (lit ''Management console'') (lit ''eth0'') (lit ''any'') ''tcp'' (lit ''22,80,443'') 10]
         @ routes @ []) [] \<lparr>rp_dhcp = False, rp_dns = False, rp_service = True\<rparr>
       = effective_firewall_rules sample_fw ([sample_rule] @ []) [] \<lparr>rp_dhcp = False, rp_dns = False, rp_service = True\<rparr>"
proof -
  obtain routes where r: "managed_routing_firewall_rules sample_fw (\<lambda>s. []) sample_interfaces [] [] True = Inr routes"
    using sample_generated by blast
  show ?thesis by (intro exI conjI, rule r, rule generation_replaced [OF sample_services r]) simp
qed

end
