(* ===== verification/Spec2Isabelle.thy ===== *)
theory Spec2Isabelle
  imports Appliance Listener ServiceProps RecoveryProps RuntimeProps ProviderProps ManagedProps
begin

text \<open>
  A verification of two parts of the Atlaso appliance: its KMIP key provider (\<open>src/atlaso/app/kmip\<close> and the
  services that configure it), which vSphere clients ask, over mutually authenticated TLS, for the keys that
  encrypt their machines; and its firewall and routing policy (\<open>services/firewall.py\<close>), which separates
  the management, access and route networks of the lab.

  \<^bold>\<open>The program.\<close> A client certificate selects a provider. A request is a TTLV message
  (\<open>ttlv.py\<close>) with a batch of operations; the dispatcher (\<open>protocol.py\<close>) runs each in the provider's
  namespace of a wrapped-key store (\<open>store.py\<close>), an SQLite database whose content is committed to by a sealed
  envelope file. The server (\<open>server.py\<close>) parses the configuration, accepts connections within a shared limit,
  frames requests, logs a redacted shape of what fails, and may append metadata to an acceptance
  trace that a validator (\<open>trace.py\<close>) checks against a contract. The control plane keeps providers, trusted vCenters
  and their certificates in three tables, renders the server's configuration from them and reads its reported
  state (\<open>services/vsphere_key_providers.py\<close>). A recovery archive (\<open>recovery.py\<close>) carries the keys of a stopped
  store and the public trust to another appliance; a privileged helper (\<open>recovery_runtime.py\<close>) publishes it
  behind a journal that gates the service until the trust is approved, and \<open>services/kmip_recovery.py\<close> drives
  the helper and enters the recovered trust.

  The firewall part reads rules written by the operator, named Source Groups of addresses that may
  refer to each other, and generates rules for the enabled services and for routing between interfaces
  by their roles. It validates all of them and renders one nftables text.

  \<^bold>\<open>The model.\<close> One theory per part, in the order of the calls, each definition named after the
  function it translates:

  \<^item> \<open>Prelude\<close>, \<open>Errors\<close>, \<open>Bytes\<close>, \<open>Text\<close>, \<open>Json\<close>, \<open>PyText\<close>, \<open>Ip\<close>: the error monad and the exception classes;
    bytes as 8-bit words with big-endian and two's complement packing and UTF-8; the parts of
    \<open>uuid\<close>, \<open>base64\<close>, \<open>json\<close>, \<open>str\<close>, \<open>ipaddress\<close> and \<open>pathlib\<close> that the modules use.
  \<^item> \<open>Ttlv\<close>: \<open>ttlv.py\<close>, the node type, \<open>encode\<close>, \<open>decode\<close> with its size, depth and count bounds.
  \<^item> \<open>World\<close>, \<open>Store\<close>: \<open>store.py\<close>. The state is the files (database, envelope, recovery master, journal), the store
    object of the process and the counters of draws and durable effects. An operation is a function
    from the world to an exception or a value and a new world. AES-GCM, SHA-256, the random source, the clock
    and the outcome of every envelope write and commit (it works, fails, or the machine stops before or
    after it) are fields of the record \<open>env\<close>; the laws used of them are \<open>env_ok\<close>.
  \<^item> \<open>Protocol\<close>: \<open>protocol.py\<close>, the field readers, the eight operations and the batch loop of \<open>dispatch\<close>.
  \<^item> \<open>Config\<close>: \<open>parse_config\<close> and \<open>load_config\<close>; \<open>Diagnostics\<close>: the log lines of a request; \<open>Trace\<close>: \<open>trace.py\<close>;
    \<open>TraceWriter\<close>: \<open>InteropTraceWriter\<close>; \<open>Server\<close>: \<open>_receive_exact\<close> and \<open>KmipRequestHandler\<close>, over a socket
    that is the list of what the network will deliver; \<open>Listener\<close>: the connection slots as a step relation;
    \<open>Service\<close>: the check and status modes of \<open>main\<close>. All of them are \<open>server.py\<close> but \<open>Trace\<close>.
  \<^item> \<open>Appliance\<close>: requests of all connections, power losses and restarts as one step relation.
  \<^item> \<open>PublicCertificate\<close>: \<open>parse_public_certificate\<close>, with the X.509 library as a parameter; \<open>Recovery\<close>: the archive,
    its trust document, capture and candidate of \<open>recovery.py\<close>, file by file with faults; \<open>RecoveryRuntime\<close>:
    \<open>recovery_runtime.py\<close> over directory entries that have identities, with a fault or a power loss at
    every durable effect; \<open>Providers\<close>: \<open>vsphere_key_providers.py\<close>; \<open>ProviderTrust\<close>: \<open>kmip_recovery.py\<close>.
  \<^item> \<open>SourceGroups\<close>, \<open>Firewall\<close>, \<open>Routing\<close>, \<open>ManagedRules\<close>: \<open>firewall.py\<close>, in this order its Source Groups; its rules, their
    validation, family variants and rendering; the generated routing rules; and the generated service
    rules. A rule is the record \<open>firewall_rule\<close> with the columns of the table. The record \<open>fw\<close> holds what is
    taken from the interpreter: the lower case and the digits of texts beyond ASCII, \<open>str\<close> of values other than
    texts, and the recursion limit.

  \<^bold>\<open>What is shown.\<close>

  \<^item> The codec: the decoder accepts exactly the canonical encodings within its bounds and inverts
    the encoder; it has no outcome but a node or \<open>TtlvError\<close> (\<open>Ttlv\<close>).
  \<^item> The store (\<open>StoreEnvelope\<close>, \<open>StoreCrash\<close>, \<open>StoreKeys\<close>, \<open>StoreLife\<close>, \<open>StoreProps\<close>): it implements a map from
    provider and identifier to metadata and material. Under every fault and power loss a creation
    happens or does not, no key is lost or changes its material, a restart serves the same map, a rolled
    back database is refused, and every read returns what the map holds. The abstraction is \<open>contents\<close>,
    the invariant \<open>consistent\<close>, and the locale \<open>forward_simulation\<close> carries one step to every run.
  \<^item> The dispatcher (\<open>ProtocolProps\<close>): a request acts only in the namespace of its provider and its
    response holds no other key material; every item is answered under its own identifier; what is
    created is what a later Get returns.
  \<^item> A connection (\<open>ServerProps\<close>): what a client obtains depends on its byte stream and not on its
    fragmentation; an unmapped certificate reaches nothing; a mapped one is served in order, within the
    configured bounds and in its own namespace; the trace stays acceptable evidence. The locale
    \<open>connection_relation\<close> carries a relation established for one request to the connection.
  \<^item> The rest of the server: an accepted configuration is within its bounds and maps a fingerprint to at
    most one provider, and every other document raises \<open>ConfigurationError\<close> (\<open>ConfigProps\<close>); the log depends
    on no value of a request but protocol numbers and allow-listed names (\<open>Diagnostics\<close>); an accepted
    trace holds only contract metadata (\<open>TraceProps\<close>); the slots are conserved and recovered (\<open>Listener\<close>);
    inspecting creates no store (\<open>ServiceProps\<close>).
  \<^item> The appliance, below: all of this together implements a map of keys that only grows.
  \<^item> Recovery (\<open>RecoveryArchive\<close>, \<open>RecoveryProps\<close>, \<open>RuntimeProps\<close>): an exported archive becomes a store of exactly the
    same keys; an accepted trust document is a consistent graph; an import interrupted anywhere, any number of
    times, leaves the former store active or retained and the service gated, and one more run completes
    it; an approval binds the start to the examined configuration and directory.
  \<^item> The control plane (\<open>ProviderProps\<close>): a configuration rendered from validated tables is accepted by the server and
    maps exactly the trusted fingerprints; recovered trust is entered disabled and complete; reported
    counts are well typed whatever the helper prints.
  \<^item> The firewall (\<open>SourceGroupProps\<close>, \<open>FirewallProps\<close>, \<open>RoutingProps\<close>, \<open>ManagedProps\<close>): a validated group expands to
    exactly what it reaches; splitting a rule by address family keeps the packets it matches; a
    validated state is rendered with a line for every variant of every enabled rule; accepted ports are in range;
    the first rule a packet between a management and a lab network matches drops it, and likewise
    between the networks of access interfaces unless a routing rule permits the direction; and a new generation of
    rules replaces the old one.

  \<^bold>\<open>Bounds and termination.\<close> Every function is total. The loops of the code are recursive functions
  with a measure: the decoder on the bytes left, the receive loop on the bytes wanted, the walks
  over an item on the weight of the stack, the connection on the requests left. The JSON parser is the
  only one with fuel of its own: twice the length of the text is shown to be enough (\<open>parse_fuel\<close> in \<open>Json\<close>). The two
  recursive functions over Source Groups run at the interpreter's recursion limit, \<open>fw_depth\<close>, as the code does, and
  raise \<open>RecursionError\<close> there; a limit above the number of groups is shown to be enough for any references,
  because every call adds another group to the stack.

  \<^bold>\<open>Not modelled.\<close> SQLite, SQLAlchemy, TLS, X.509 and the cryptographic primitives (libraries); the construction of
  the listeners and the accept loop of \<open>socketserver\<close>; logging to files; the admission of stores of an earlier format
  (\<open>legacy.py\<close>); the request parsing of the recovery helper, file owners and modes, and torn writes below the
  level of a file; the dictionaries built for views; \<open>update_bootstrap_management_ipv6\<close>. The kernel's
  interpretation of nftables is not under \<open>src\<close>: the verdict of \<open>RoutingProps\<close> takes the first rule whose
  interfaces and addresses match, leaves matching by protocol and port to an arbitrary predicate, and covers the
  rules of the forward chain, not the fixed lines around them. The rest of the appliance, its web application and its other domain services,
  shares no state with these parts but the configuration tables. Threads are interleaved at the granularity of
  requests in \<open>Appliance\<close> and of store operations in \<open>StoreLife\<close>, where the code holds its lock.

  \<^bold>\<open>Idealisations.\<close> Opening a writable SQLite database does not leave an empty file where it was missing: the file
  appears with the first commit, the schema script is one commit, and a commit that raises has not happened. A file
  is written whole or not at all. The number of a removed directory is not given to another one. The clock is
  read once per call, also where the code reads it for each certificate. The JSON parser does not run into the
  recursion limit of the interpreter. A database session that is rolled back holds what it held before.
\<close>

section \<open>The appliance implements a growing map of keys\<close>

text \<open>
  C1: the appliance implements a map of keys that only grows. Along every run of connections from any
  clients, with any messages, any faults of the files, the trace and the sockets, power losses and
  restarts, the store stands for a map in which every key it held is present with the same material, and
  in which nothing changed outside the namespaces of the configured providers.
\<close>

theorem appliance_refines_key_map:
  assumes "stores env sk master kek M s" and "(appliance py env host config sk)\<^sup>*\<^sup>* s s'"
  shows "\<exists>M'. stores env sk master kek M' s'
     \<and> (\<forall>k m pt. M k = Some (m, pt) \<longrightarrow> (\<exists>m'. M' k = Some (m', pt)))
     \<and> (\<forall>k. fst k \<notin> configured env config \<longrightarrow> M' k = M k)"
  using appliance_life.run_abs [OF assms(2,1)] unfolding grows_within_def grows_def by blast

theorem appliance_refines_key_map_witness:
  "\<exists>M' pt m'. stores demo_env demo_secret demo_master demo_kek M' (False, demo_world1) \<and> M' (key_of demo_key) = Some (m', pt)"
proof -
  obtain pt where s: "stores demo_env demo_secret demo_master demo_kek [key_of demo_key \<mapsto> (demo_key, pt)] (True, demo_world1)"
    using demo_stores by blast
  have "(appliance demo_py demo_env demo_host demo_config demo_secret)\<^sup>*\<^sup>* (True, demo_world1) (False, demo_world1)"
    by (rule r_into_rtranclp) (rule appliance.stop)
  from appliance_refines_key_map [OF s this] show ?thesis by (metis fun_upd_same)
qed

end
